(* ===== verification/Prelude.thy ===== *)
theory Prelude
  imports Main "HOL-Library.Word" "HOL-Library.List_Lexorder" "HOL-Library.Char_ord"
    "HOL-Library.Product_Lexorder" "HOL-Library.Option_ord"
begin

text \<open>
  Shared vocabulary of the development: named theorem collections, the result type that
  stands for Rust's \<open>Result\<close>, sorted tables that stand for the SQLite tables (and for the
  \<open>BTreeMap\<close>s and \<open>HashMap\<close>s the code builds from them), and the byte-level view of Rust's
  \<open>str\<close> that the validation code needs.
\<close>

named_theorems tbl \<comment> \<open>lookups after an update of a table\<close>
named_theorems res \<comment> \<open>inversion of successful results\<close>

section \<open>Results\<close>

text \<open>
  \<open>Result<A, E>\<close> is \<open>'e + 'a\<close>: \<open>Inl\<close> is \<open>Err\<close>, \<open>Inr\<close> is \<open>Ok\<close>. The \<open>?\<close> operator is
  \<open>attempt\<close>, an early \<open>return Err(e)\<close> under a failed check is \<open>guard\<close>.
\<close>

definition attempt :: "'e + 'a \<Rightarrow> ('a \<Rightarrow> 'e + 'b) \<Rightarrow> 'e + 'b" where
  "attempt r f = (case r of Inl e \<Rightarrow> Inl e | Inr x \<Rightarrow> f x)"

definition guard :: "bool \<Rightarrow> 'e \<Rightarrow> 'e + 'b \<Rightarrow> 'e + 'b" where
  "guard c e r = (if c then r else Inl e)"

lemma attempt_simps [simp]:
  "attempt (Inl e) f = Inl e"
  "attempt (Inr x) f = f x"
  by (simp_all add: attempt_def)

lemma attempt_Inr [res]: "attempt r f = Inr y \<longleftrightarrow> (\<exists>x. r = Inr x \<and> f x = Inr y)"
  by (cases r) auto

lemma attempt_Inl: "attempt r f = Inl e \<longleftrightarrow> r = Inl e \<or> (\<exists>x. r = Inr x \<and> f x = Inl e)"
  by (cases r) auto

lemma guard_Inr [res]: "guard c e r = Inr y \<longleftrightarrow> c \<and> r = Inr y"
  by (simp add: guard_def)

lemma guard_Inl: "guard c e r = Inl d \<longleftrightarrow> (\<not> c \<and> e = d) \<or> (c \<and> r = Inl d)"
  by (auto simp: guard_def)

lemma guard_simps [simp]:
  "guard True e r = r"
  "guard False e r = Inl e"
  by (simp_all add: guard_def)

lemma attempt_cong [cong]: "r = r' \<Longrightarrow> (\<And>x. r' = Inr x \<Longrightarrow> f x = f' x) \<Longrightarrow> attempt r f = attempt r' f'"
  by (cases r') auto

definition is_ok :: "'e + 'a \<Rightarrow> bool" where
  "is_ok r = (case r of Inl _ \<Rightarrow> False | Inr _ \<Rightarrow> True)"

lemma is_ok_simps [simp]: "is_ok (Inr x)" "\<not> is_ok (Inl e)"
  by (simp_all add: is_ok_def)

lemma is_ok_iff: "is_ok r \<longleftrightarrow> (\<exists>x. r = Inr x)"
  by (cases r) auto

text \<open>\<open>for x in xs { s = f(x, s)?; }\<close>: the fold that stops at the first error.\<close>

fun fold_res :: "('a \<Rightarrow> 's \<Rightarrow> 'e + 's) \<Rightarrow> 'a list \<Rightarrow> 's \<Rightarrow> 'e + 's" where
  "fold_res f [] s = Inr s"
| "fold_res f (x # xs) s = attempt (f x s) (fold_res f xs)"

lemma fold_res_append: "fold_res f (xs @ ys) s = attempt (fold_res f xs s) (fold_res f ys)"
  by (induction xs arbitrary: s) (auto simp: attempt_def split: sum.splits)

lemma fold_res_invariant:
  assumes "fold_res f xs s = Inr t" and "P s"
    and "\<And>x s s'. x \<in> set xs \<Longrightarrow> P s \<Longrightarrow> f x s = Inr s' \<Longrightarrow> P s'"
  shows "P t"
  using assms by (induction xs arbitrary: s) (auto simp: res)

lemma fold_res_all_ok:
  "fold_res (\<lambda>x u. f x) xs () = Inr () \<longleftrightarrow> (\<forall>x \<in> set xs. f x = Inr ())"
  by (induction xs) (auto simp: res)

section \<open>Sorted tables\<close>

text \<open>
  A table is its rows in ascending order of the primary key, without duplicate keys. Two
  tables with the same lookups are equal, which is what lets convergence be stated as an
  equation between databases, and the rows can be scanned, as the code's queries do.
\<close>

typedef (overloaded) ('k::linorder, 'v) table =
  "{xs :: ('k \<times> 'v) list. sorted_wrt (<) (map fst xs)}"
  morphisms rows Table
  by (rule exI [of _ "[]"]) simp

setup_lifting type_definition_table

lemma rows_sorted: "sorted_wrt (<) (map fst (rows t))"
  using rows [of t] by simp

lemma strict_sorted_distinct: "sorted_wrt (<) (xs :: 'a::linorder list) \<Longrightarrow> distinct xs"
  by (induction xs) auto

lemma rows_distinct: "distinct (map fst (rows t))"
  by (rule strict_sorted_distinct) (rule rows_sorted)

lift_definition tempty :: "('k::linorder, 'v) table" is "[]"
  by simp

lift_definition get :: "('k::linorder, 'v) table \<Rightarrow> 'k \<Rightarrow> 'v option" is map_of .

fun ins_row :: "'k::linorder \<Rightarrow> 'v \<Rightarrow> ('k \<times> 'v) list \<Rightarrow> ('k \<times> 'v) list" where
  "ins_row k v [] = [(k, v)]"
| "ins_row k v ((k', v') # rs) =
     (if k < k' then (k, v) # (k', v') # rs
      else if k = k' then (k, v) # rs
      else (k', v') # ins_row k v rs)"

lemma set_fst_ins_row: "fst ` set (ins_row k v rs) = insert k (fst ` set rs)"
  by (induction k v rs rule: ins_row.induct) auto

lemma ins_row_sorted: "sorted_wrt (<) (map fst rs) \<Longrightarrow> sorted_wrt (<) (map fst (ins_row k v rs))"
proof (induction k v rs rule: ins_row.induct)
  case (2 k v k' v' rs)
  then have tail: "\<forall>x \<in> fst ` set rs. k' < x" and "sorted_wrt (<) (map fst rs)" by auto
  moreover have "fst ` set (ins_row k v rs) = insert k (fst ` set rs)" by (rule set_fst_ins_row)
  ultimately have "k' < k \<Longrightarrow> \<forall>x \<in> set (map fst (ins_row k v rs)). k' < x" by simp
  with 2 tail show ?case by (auto dest: less_trans)
qed simp

lemma map_of_ins_row: "map_of (ins_row k v rs) = (map_of rs)(k \<mapsto> v)"
  by (induction k v rs rule: ins_row.induct) (auto simp: fun_eq_iff)

lift_definition put :: "'k::linorder \<Rightarrow> 'v \<Rightarrow> ('k, 'v) table \<Rightarrow> ('k, 'v) table" is ins_row
  by (rule ins_row_sorted)

lemma sorted_wrt_map_filter: "sorted_wrt P (map f xs) \<Longrightarrow> sorted_wrt P (map f (filter Q xs))"
  by (induction xs) auto

text \<open>\<open>filt P\<close> keeps the rows that satisfy \<open>P\<close>: a \<open>DELETE ... WHERE\<close> of the others.\<close>

lift_definition filt :: "('k \<Rightarrow> 'v \<Rightarrow> bool) \<Rightarrow> ('k::linorder, 'v) table \<Rightarrow> ('k, 'v) table"
  is "\<lambda>P. filter (\<lambda>(k, v). P k v)"
  by (simp add: sorted_wrt_map_filter)

text \<open>\<open>mapv f\<close> rewrites every row in place: an \<open>UPDATE\<close>.\<close>

lift_definition mapv :: "('k \<Rightarrow> 'v \<Rightarrow> 'w) \<Rightarrow> ('k::linorder, 'v) table \<Rightarrow> ('k, 'w) table"
  is "\<lambda>f. map (\<lambda>(k, v). (k, f k v))"
  by (simp add: comp_def case_prod_beta)

definition del :: "'k::linorder \<Rightarrow> ('k, 'v) table \<Rightarrow> ('k, 'v) table" where
  "del k = filt (\<lambda>k' v. k' \<noteq> k)"

definition upd :: "'k::linorder \<Rightarrow> ('v \<Rightarrow> 'v) \<Rightarrow> ('k, 'v) table \<Rightarrow> ('k, 'v) table" where
  "upd k f = mapv (\<lambda>k' v. if k' = k then f v else v)"

definition keys :: "('k::linorder, 'v) table \<Rightarrow> 'k list" where
  "keys t = map fst (rows t)"

definition has :: "('k::linorder, 'v) table \<Rightarrow> 'k \<Rightarrow> bool" where
  "has t k \<longleftrightarrow> get t k \<noteq> None"

definition tfrom :: "('k::linorder \<times> 'v) list \<Rightarrow> ('k, 'v) table" where
  "tfrom xs = fold (\<lambda>(k, v). put k v) xs tempty"

lemma get_tempty [simp, tbl]: "get tempty k = None"
  by transfer simp

lemma get_put [simp, tbl]: "get (put k v t) k' = (if k' = k then Some v else get t k')"
  by transfer (simp add: map_of_ins_row)

lemma map_of_filter_kv:
  "distinct (map fst xs) \<Longrightarrow>
     map_of (filter (\<lambda>(k, v). P k v) xs) k =
       (case map_of xs k of None \<Rightarrow> None | Some v \<Rightarrow> if P k v then Some v else None)"
proof (induction xs)
  case (Cons x xs)
  obtain a b where x: "x = (a, b)" by force
  from Cons have "a \<notin> fst ` set xs" by (simp add: x)
  then have "map_of xs a = None" by (simp add: map_of_eq_None_iff)
  with Cons show ?case by (auto simp: x)
qed simp

lemma get_filt [simp, tbl]:
  "get (filt P t) k = (case get t k of None \<Rightarrow> None | Some v \<Rightarrow> if P k v then Some v else None)"
  by transfer (simp add: map_of_filter_kv strict_sorted_distinct)

lemma get_mapv [simp, tbl]: "get (mapv f t) k = map_option (f k) (get t k)"
proof (transfer, goal_cases)
  case (1 f t k)
  show ?case by (induction t) auto
qed

lemma get_del [simp, tbl]: "get (del k t) k' = (if k' = k then None else get t k')"
  by (auto simp: del_def split: option.split)

lemma get_upd [simp, tbl]: "get (upd k f t) k' = (if k' = k then map_option f (get t k) else get t k')"
  by (auto simp: upd_def option.map_ident)

lemma has_tbl [simp, tbl]:
  "\<not> has tempty k"
  "has (put k v t) k' \<longleftrightarrow> k' = k \<or> has t k'"
  "has (del k t) k' \<longleftrightarrow> k' \<noteq> k \<and> has t k'"
  "has (mapv f t) k \<longleftrightarrow> has t k"
  "has (upd k g t) k' \<longleftrightarrow> has t k'"
  by (auto simp: has_def)

lemma has_filt [simp, tbl]: "has (filt P t) k \<longleftrightarrow> (\<exists>v. get t k = Some v \<and> P k v)"
  by (auto simp: has_def split: option.splits)

lemma has_SomeI: "get t k = Some v \<Longrightarrow> has t k"
  by (simp add: has_def)

lemma set_rows: "(k, v) \<in> set (rows t) \<longleftrightarrow> get t k = Some v"
  using rows_distinct [of t] by (simp add: get.rep_eq)

lemma set_keys: "k \<in> set (keys t) \<longleftrightarrow> has t k"
  by (auto simp: keys_def has_def get.rep_eq map_of_eq_None_iff)

lemma keys_distinct: "distinct (keys t)"
  by (simp add: keys_def rows_distinct)

lemma keys_sorted: "sorted_wrt (<) (keys t)"
  by (simp add: keys_def rows_sorted)

lemma finite_has: "finite {k. has t k}"
proof -
  have "{k. has t k} = set (keys t)" by (auto simp: set_keys)
  then show ?thesis by simp
qed

lemma alist_of_keys:
  assumes "distinct (map fst xs)"
  shows "xs = map (\<lambda>k. (k, the (map_of xs k))) (map fst xs)"
proof (rule nth_equalityI)
  fix i assume i: "i < length xs"
  then have "map_of xs (fst (xs ! i)) = Some (snd (xs ! i))"
    using assms by simp
  with i show "xs ! i = map (\<lambda>k. (k, the (map_of xs k))) (map fst xs) ! i" by simp
qed simp

lemma table_eqI:
  assumes "\<And>k. get s k = get t k"
  shows "s = t"
proof -
  have m: "map_of (rows s) = map_of (rows t)"
    using assms by (auto simp: get.rep_eq fun_eq_iff)
  then have "set (rows s) = set (rows t)"
    using rows_distinct [of s] rows_distinct [of t] by (simp add: map_of_inject_set)
  moreover have "sorted (map fst (rows s))" "sorted (map fst (rows t))"
    using rows_sorted [of s] rows_sorted [of t] by (auto intro: sorted_wrt_mono_rel [of _ "(<)"])
  ultimately have k: "map fst (rows s) = map fst (rows t)"
    using rows_distinct [of s] rows_distinct [of t]
    by (intro sorted_distinct_set_unique) auto
  have "rows s = map (\<lambda>k. (k, the (map_of (rows s) k))) (map fst (rows s))"
    by (rule alist_of_keys) (rule rows_distinct)
  also have "\<dots> = map (\<lambda>k. (k, the (map_of (rows t) k))) (map fst (rows t))"
    by (simp only: m k)
  also have "\<dots> = rows t"
    by (rule alist_of_keys [symmetric]) (rule rows_distinct)
  finally have "rows s = rows t" .
  then show ?thesis by (simp add: rows_inject)
qed

lemma rows_put [simp]: "rows (put k v t) = ins_row k v (rows t)"
  by (rule put.rep_eq)

lemma rows_tempty [simp]: "rows tempty = []"
  by (rule tempty.rep_eq)

lemma rows_filt [simp]: "rows (filt P t) = filter (\<lambda>(k, v). P k v) (rows t)"
  by (rule filt.rep_eq)

lemma rows_mapv [simp]: "rows (mapv f t) = map (\<lambda>(k, v). (k, f k v)) (rows t)"
  by (rule mapv.rep_eq)

instantiation table :: (linorder, equal) equal
begin

definition equal_table :: "('a, 'b) table \<Rightarrow> ('a, 'b) table \<Rightarrow> bool" where
  "equal_table s t \<longleftrightarrow> rows s = rows t"

instance
  by standard (simp add: equal_table_def rows_inject)

end

end
