(* ===== verification/Text.thy ===== *)
theory Text
  imports Prelude
begin

text \<open>
  Rust strings. A \<open>str\<close> is its UTF-8 bytes, a HOL \<open>string\<close> (a \<open>char\<close> is one byte), so
  \<open>len()\<close> is \<open>length\<close>, literals are \<open>''abc''\<close>, and byte order is \<open>List_Lexorder\<close>'s
  order. Where the code looks at characters (\<open>trim\<close>, \<open>chars()\<close>) the bytes are grouped into
  characters first. The second part is the fixed-width hexadecimal notation that makes the
  textual order of clocks and order keys agree with their numeric order.
\<close>

section \<open>Characters of a UTF-8 string\<close>

definition byte :: "char \<Rightarrow> nat" where
  "byte c = of_char c"

definition utf8_width :: "char \<Rightarrow> nat" where
  "utf8_width c =
     (let n = byte c in if n < 0xC0 then 1 else if n < 0xE0 then 2 else if n < 0xF0 then 3 else 4)"

text \<open>\<open>str::chars\<close>, each character kept as its bytes.\<close>

function chars_of :: "string \<Rightarrow> string list" where
  "chars_of [] = []"
| "chars_of (c # cs) = (c # take (utf8_width c - 1) cs) # chars_of (drop (utf8_width c - 1) cs)"
  by pat_completeness auto
termination
  by (relation "measure length") auto

fun code_point :: "string \<Rightarrow> nat" where
  "code_point [] = 0"
| "code_point [a] = byte a"
| "code_point [a, b] = (byte a mod 32) * 64 + byte b mod 64"
| "code_point [a, b, c] = (byte a mod 16) * 4096 + (byte b mod 64) * 64 + byte c mod 64"
| "code_point (a # b # c # d # _) =
     (byte a mod 8) * 262144 + (byte b mod 64) * 4096 + (byte c mod 64) * 64 + byte d mod 64"

text \<open>\<open>char::is_whitespace\<close>: the Unicode property \<open>White_Space\<close>.\<close>

definition is_whitespace :: "string \<Rightarrow> bool" where
  "is_whitespace ch =
     (let n = code_point ch in
        (9 \<le> n \<and> n \<le> 13) \<or> n = 0x20 \<or> n = 0x85 \<or> n = 0xA0 \<or> n = 0x1680 \<or>
        (0x2000 \<le> n \<and> n \<le> 0x200A) \<or> n = 0x2028 \<or> n = 0x2029 \<or> n = 0x202F \<or>
        n = 0x205F \<or> n = 0x3000)"

text \<open>\<open>char::is_control\<close>: the Unicode category \<open>Cc\<close>.\<close>

definition is_control :: "string \<Rightarrow> bool" where
  "is_control ch = (let n = code_point ch in n < 0x20 \<or> (0x7F \<le> n \<and> n < 0xA0))"

definition trim_start :: "string \<Rightarrow> string" where
  "trim_start s = concat (dropWhile is_whitespace (chars_of s))"

definition trim :: "string \<Rightarrow> string" where
  "trim s = concat (rev (dropWhile is_whitespace (rev (dropWhile is_whitespace (chars_of s)))))"

lemma concat_chars_of [simp]: "concat (chars_of s) = s"
  by (induction s rule: chars_of.induct) auto

lemma chars_of_nonempty: "ch \<in> set (chars_of s) \<Longrightarrow> ch \<noteq> []"
  by (induction s rule: chars_of.induct) auto

lemma dropWhile_all_iff: "(\<forall>x \<in> set (dropWhile P xs). P x) \<longleftrightarrow> (\<forall>x \<in> set xs. P x)"
  by (induction xs) auto

lemma concat_empty_iff: "(\<forall>x \<in> set xs. x \<noteq> []) \<Longrightarrow> concat xs = [] \<longleftrightarrow> xs = []"
  by (cases xs) auto

lemma trim_empty_iff: "trim s = [] \<longleftrightarrow> (\<forall>ch \<in> set (chars_of s). is_whitespace ch)"
proof -
  define e where "e = dropWhile is_whitespace (chars_of s)"
  define d where "d = dropWhile is_whitespace (rev e)"
  have "set d \<subseteq> set (chars_of s)"
    unfolding d_def e_def by (auto dest!: set_dropWhileD)
  then have "\<forall>ch \<in> set (rev d). ch \<noteq> []" using chars_of_nonempty by auto
  then have "trim s = [] \<longleftrightarrow> rev d = []"
    unfolding trim_def e_def [symmetric] d_def [symmetric] by (rule concat_empty_iff)
  also have "\<dots> \<longleftrightarrow> (\<forall>ch \<in> set e. is_whitespace ch)"
    by (simp add: d_def dropWhile_eq_Nil_conv)
  also have "\<dots> \<longleftrightarrow> (\<forall>ch \<in> set (chars_of s). is_whitespace ch)"
    unfolding e_def by (rule dropWhile_all_iff)
  finally show ?thesis .
qed

section \<open>Fixed-width hexadecimal\<close>

definition lower_digit :: "nat \<Rightarrow> char" where
  "lower_digit n = (if n < 10 then char_of (48 + n) else char_of (87 + n))"

definition upper_digit :: "nat \<Rightarrow> char" where
  "upper_digit n = (if n < 10 then char_of (48 + n) else char_of (55 + n))"

text \<open>\<open>{:0wx}\<close> (or \<open>{:0wX}\<close>) of a value that fits in \<open>w\<close> digits.\<close>

fun hex_fixed :: "(nat \<Rightarrow> char) \<Rightarrow> nat \<Rightarrow> nat \<Rightarrow> string" where
  "hex_fixed d 0 n = []"
| "hex_fixed d (Suc w) n = hex_fixed d w (n div 16) @ [d (n mod 16)]"

text \<open>\<open>char::to_digit(16)\<close> on one byte.\<close>

definition hex_value :: "char \<Rightarrow> nat option" where
  "hex_value c =
     (let n = byte c in
        if 48 \<le> n \<and> n \<le> 57 then Some (n - 48)
        else if 97 \<le> n \<and> n \<le> 102 then Some (n - 87)
        else if 65 \<le> n \<and> n \<le> 70 then Some (n - 55)
        else None)"

fun hex_digits_value :: "nat \<Rightarrow> string \<Rightarrow> nat option" where
  "hex_digits_value acc [] = Some acc"
| "hex_digits_value acc (c # cs) =
     (case hex_value c of None \<Rightarrow> None | Some v \<Rightarrow> hex_digits_value (acc * 16 + v) cs)"

text \<open>
  \<open>uN::from_str_radix(s, 16)\<close> for an unsigned type with \<open>bits\<close> bits: an optional leading
  \<open>+\<close>, at least one digit, and no overflow.
\<close>

definition from_str_radix16 :: "nat \<Rightarrow> string \<Rightarrow> nat option" where
  "from_str_radix16 bits s =
     (let ds = (case s of [] \<Rightarrow> [] | c # cs \<Rightarrow> if c = CHR ''+'' then cs else s)
      in if ds = [] then None
         else case hex_digits_value 0 ds of
                None \<Rightarrow> None
              | Some n \<Rightarrow> if n < 2 ^ bits then Some n else None)"

lemma length_hex_fixed [simp]: "length (hex_fixed d w n) = w"
  by (induction w arbitrary: n) auto

lemma nat_lt_16_cases:
  assumes "(n::nat) < 16"
  shows "n \<in> {0,1,2,3,4,5,6,7,8,9,10,11,12,13,14,15}"
  using assms by (simp, presburger)

lemma hex_value_lower [simp]: "n < 16 \<Longrightarrow> hex_value (lower_digit n) = Some n"
  by (drule nat_lt_16_cases) (auto simp: hex_value_def lower_digit_def byte_def Let_def)

lemma hex_value_upper [simp]: "n < 16 \<Longrightarrow> hex_value (upper_digit n) = Some n"
  by (drule nat_lt_16_cases) (auto simp: hex_value_def upper_digit_def byte_def Let_def)

lemma hex_digits_value_append:
  "hex_digits_value acc (xs @ ys) =
     (case hex_digits_value acc xs of None \<Rightarrow> None | Some a \<Rightarrow> hex_digits_value a ys)"
  by (induction xs arbitrary: acc) (auto split: option.split)

lemma hex_digits_value_fixed:
  assumes "\<And>n. n < 16 \<Longrightarrow> hex_value (d n) = Some n"
  shows "n < 16 ^ w \<Longrightarrow> hex_digits_value 0 (hex_fixed d w n) = Some n"
proof (induction w arbitrary: n)
  case (Suc w)
  then have "n div 16 < 16 ^ w" by (simp add: less_mult_imp_div_less mult.commute)
  with Suc.IH show ?case by (simp add: hex_digits_value_append assms)
qed simp

lemma hex_fixed_nonplus:
  assumes "\<And>n. n < 16 \<Longrightarrow> d n \<noteq> CHR ''+''"
  shows "CHR ''+'' \<notin> set (hex_fixed d w n)"
proof (induction w arbitrary: n)
  case (Suc w)
  have "d (n mod 16) \<noteq> CHR ''+''" by (rule assms) simp
  with Suc.IH [of "n div 16"] show ?case by (simp add: eq_commute)
qed simp

lemma from_str_radix16_fixed:
  assumes d: "\<And>n. n < 16 \<Longrightarrow> hex_value (d n) = Some n" and "0 < w" and "n < 16 ^ w"
  shows "from_str_radix16 (4 * w) (hex_fixed d w n) = Some n"
proof -
  have "hex_value (CHR ''+'') = None" by (simp add: hex_value_def byte_def)
  with d have "\<And>n. n < 16 \<Longrightarrow> d n \<noteq> CHR ''+''" by force
  then have plus: "CHR ''+'' \<notin> set (hex_fixed d w n)" by (rule hex_fixed_nonplus)
  have ne: "hex_fixed d w n \<noteq> []" using length_hex_fixed [of d w n] assms(2) by (metis list.size(3) less_irrefl)
  then obtain c cs where c: "hex_fixed d w n = c # cs" by (cases "hex_fixed d w n") auto
  have "n < 2 ^ (4 * w)" using assms(3) by (simp add: power_mult)
  with c plus hex_digits_value_fixed [OF d assms(3)] show ?thesis
    by (auto simp: from_str_radix16_def)
qed

text \<open>Lexicographic order of equally long strings, by the last character.\<close>

lemma lexord_snoc:
  "length (a :: 'a::order list) = length b \<Longrightarrow> a @ [x] < b @ [y] \<longleftrightarrow> a < b \<or> (a = b \<and> x < y)"
  by (induction a b rule: list_induct2) auto

lemma div_mod_less_iff:
  "m div 16 < n div 16 \<or> (m div 16 = n div 16 \<and> m mod 16 < n mod 16) \<longleftrightarrow> m < (n::nat)"
proof -
  have "m = m div 16 * 16 + m mod 16" "n = n div 16 * 16 + n mod 16"
    "m mod 16 < 16" "n mod 16 < 16" by simp_all
  then show ?thesis by linarith
qed

lemma hex_fixed_less_iff:
  assumes d: "\<And>i j. i < 16 \<Longrightarrow> j < 16 \<Longrightarrow> d i < d j \<longleftrightarrow> i < j"
  shows "m < 16 ^ w \<Longrightarrow> n < 16 ^ w \<Longrightarrow> hex_fixed d w m < hex_fixed d w n \<longleftrightarrow> m < n"
proof (induction w arbitrary: m n)
  case (Suc w)
  have bound: "m div 16 < 16 ^ w" "n div 16 < 16 ^ w"
    using Suc.prems by (simp_all add: less_mult_imp_div_less mult.commute)
  have inj: "hex_fixed d w (m div 16) = hex_fixed d w (n div 16) \<longleftrightarrow> m div 16 = n div 16"
    using Suc.IH [OF bound] Suc.IH [OF bound(2,1)] by (metis linorder_neq_iff order_less_irrefl)
  have "hex_fixed d (Suc w) m < hex_fixed d (Suc w) n \<longleftrightarrow>
      m div 16 < n div 16 \<or> (m div 16 = n div 16 \<and> m mod 16 < n mod 16)"
    by (simp add: lexord_snoc Suc.IH [OF bound] inj d)
  also have "\<dots> \<longleftrightarrow> m < n" by (rule div_mod_less_iff)
  finally show ?case .
qed simp

lemma lower_digit_less: "i < 16 \<Longrightarrow> j < 16 \<Longrightarrow> lower_digit i < lower_digit j \<longleftrightarrow> i < j"
  by (auto simp: lower_digit_def less_char_def)

lemma upper_digit_less: "i < 16 \<Longrightarrow> j < 16 \<Longrightarrow> upper_digit i < upper_digit j \<longleftrightarrow> i < j"
  by (auto simp: upper_digit_def less_char_def)

lemma hex_lower_less:
  "m < 16 ^ w \<Longrightarrow> n < 16 ^ w \<Longrightarrow> hex_fixed lower_digit w m < hex_fixed lower_digit w n \<longleftrightarrow> m < n"
  by (rule hex_fixed_less_iff) (rule lower_digit_less)

lemma hex_upper_less:
  "m < 16 ^ w \<Longrightarrow> n < 16 ^ w \<Longrightarrow> hex_fixed upper_digit w m < hex_fixed upper_digit w n \<longleftrightarrow> m < n"
  by (rule hex_fixed_less_iff) (rule upper_digit_less)

end
