(* ===== verification/Hlc.thy ===== *)
theory Hlc
  imports Text
begin

text \<open>
  The hybrid logical clock of \<open>crates/notes-core/src/hlc.rs\<close>: the struct and its derived
  order, the send and receive rules with their saturating counter, and the textual form
  that the database stores and compares. \<open>uuid\<close> is a 128-bit word (the sixteen bytes of a
  UUID, most significant first); the textual form of a UUID is code of the \<open>uuid\<close> crate
  and a parameter here.
\<close>

type_synonym uuid = "128 word"

datatype hlc = Hlc (wall_ms: "64 word") (counter: "32 word") (device_id: uuid)

lemma unat_less: "unat (x :: 'a::len word) < 2 ^ LENGTH('a)"
  by (rule unsigned_less)

lemma unat_bounds:
  "unat (x :: 64 word) < 16 ^ 16" "unat (y :: 32 word) < 16 ^ 8" "unat (z :: uuid) < 16 ^ 32"
  using unat_less [of x] unat_less [of y] unat_less [of z] by simp_all

section \<open>The derived order\<close>

text \<open>\<open>#[derive(PartialOrd, Ord)]\<close> compares the fields in declaration order.\<close>

instantiation hlc :: linorder
begin

definition less_eq_hlc :: "hlc \<Rightarrow> hlc \<Rightarrow> bool" where
  "a \<le> b \<longleftrightarrow> (wall_ms a, counter a, device_id a) \<le> (wall_ms b, counter b, device_id b)"

definition less_hlc :: "hlc \<Rightarrow> hlc \<Rightarrow> bool" where
  "a < b \<longleftrightarrow> (wall_ms a, counter a, device_id a) < (wall_ms b, counter b, device_id b)"

instance
proof
  fix a b c :: hlc
  show "a < b \<longleftrightarrow> a \<le> b \<and> \<not> b \<le> a" by (auto simp: less_eq_hlc_def less_hlc_def)
  show "a \<le> a" by (simp add: less_eq_hlc_def)
  show "a \<le> b \<Longrightarrow> b \<le> c \<Longrightarrow> a \<le> c" unfolding less_eq_hlc_def by (rule order_trans)
  show "a \<le> b \<Longrightarrow> b \<le> a \<Longrightarrow> a = b"
    unfolding less_eq_hlc_def by (cases a, cases b) auto
  show "a \<le> b \<or> b \<le> a" unfolding less_eq_hlc_def by (rule linear)
qed

end

lemma hlc_less_iff:
  "a < b \<longleftrightarrow> wall_ms a < wall_ms b \<or>
     (wall_ms a = wall_ms b \<and>
       (counter a < counter b \<or> (counter a = counter b \<and> device_id a < device_id b)))"
  by (auto simp: less_hlc_def)

lemma Hlc_less [simp]:
  "Hlc w c d < Hlc w' c' d' \<longleftrightarrow> w < w' \<or> (w = w' \<and> (c < c' \<or> (c = c' \<and> d < d')))"
  by (simp add: hlc_less_iff)

lemma Hlc_le [simp]:
  "Hlc w c d \<le> Hlc w' c' d' \<longleftrightarrow> w < w' \<or> (w = w' \<and> (c < c' \<or> (c = c' \<and> d \<le> d')))"
  by (auto simp: less_eq_hlc_def)

section \<open>Seconds of a clock\<close>

definition i64_max :: int where
  "i64_max = 2 ^ 63 - 1"

definition timestamp_seconds :: "hlc \<Rightarrow> int" where
  "timestamp_seconds h = min (uint (wall_ms h div 1000)) i64_max"

lemma timestamp_seconds_mono: "a \<le> b \<Longrightarrow> timestamp_seconds a \<le> timestamp_seconds b"
proof -
  assume "a \<le> b"
  then have "wall_ms a \<le> wall_ms b" by (auto simp: less_eq_hlc_def)
  then have "uint (wall_ms a) div 1000 \<le> uint (wall_ms b) div 1000"
    by (intro zdiv_mono1) (simp_all add: word_le_def)
  then show ?thesis by (simp add: timestamp_seconds_def uint_div)
qed

section \<open>Send and receive\<close>

definition saturating_add32 :: "32 word \<Rightarrow> 32 word \<Rightarrow> 32 word" where
  "saturating_add32 a b = (if unat a + unat b < 2 ^ 32 then a + b else - 1)"

lemma unat_not_max: "(c :: 32 word) \<noteq> - 1 \<Longrightarrow> unat c + 1 < 2 ^ 32"
proof -
  assume c: "c \<noteq> - 1"
  have "unat (- 1 :: 32 word) = 2 ^ 32 - 1"
    by (simp add: unsigned_minus_1_eq_mask mask_eq_exp_minus_1)
  with c have "unat c \<noteq> 2 ^ 32 - 1" by (metis unsigned_word_eqI)
  moreover have "unat c < 2 ^ 32" using unat_less [of c] by simp
  ultimately show ?thesis by simp
qed

lemma saturating_add32_greater: "c \<noteq> - 1 \<Longrightarrow> c < saturating_add32 c 1"
proof -
  assume "c \<noteq> - 1"
  then have "unat c + 1 < 2 ^ 32" by (rule unat_not_max)
  then show ?thesis by (simp add: saturating_add32_def word_less_nat_alt unat_word_ariths)
qed

lemma saturating_add32_max [simp]: "saturating_add32 (- 1) 1 = - 1"
  by (simp add: saturating_add32_def unsigned_minus_1_eq_mask mask_eq_exp_minus_1)

lemma saturating_add32_above_max:
  assumes "a \<noteq> - 1" and "b \<noteq> - 1"
  shows "a < saturating_add32 (max a b) 1" "b < saturating_add32 (max a b) 1"
proof -
  have "max a b \<noteq> - 1" using assms by (simp add: max_def)
  then have "max a b < saturating_add32 (max a b) 1" by (rule saturating_add32_greater)
  then show "a < saturating_add32 (max a b) 1" "b < saturating_add32 (max a b) 1"
    by (auto elim: order_le_less_trans [rotated])
qed

text \<open>\<open>Hlc::send\<close>.\<close>

definition send :: "hlc option \<Rightarrow> 64 word \<Rightarrow> uuid \<Rightarrow> hlc" where
  "send previous now device =
     (case previous of
        Some p \<Rightarrow>
          if now \<le> wall_ms p then Hlc (wall_ms p) (saturating_add32 (counter p) 1) device
          else Hlc now 0 device
      | None \<Rightarrow> Hlc now 0 device)"

text \<open>\<open>Hlc::receive\<close>; \<open>local_at\<close> is \<open>local.filter(|clock| clock.wall_ms == wall_ms)\<close>.\<close>

definition receive :: "hlc option \<Rightarrow> hlc \<Rightarrow> 64 word \<Rightarrow> uuid \<Rightarrow> hlc" where
  "receive loc remote now device =
     (let local_wall = (case loc of None \<Rightarrow> 0 | Some l \<Rightarrow> wall_ms l);
          wall = max (max now local_wall) (wall_ms remote);
          local_at = (case loc of None \<Rightarrow> None | Some l \<Rightarrow> if wall_ms l = wall then Some l else None);
          count = (case (local_at, wall_ms remote = wall) of
                     (Some l, True) \<Rightarrow> saturating_add32 (max (counter l) (counter remote)) 1
                   | (Some l, False) \<Rightarrow> saturating_add32 (counter l) 1
                   | (None, True) \<Rightarrow> saturating_add32 (counter remote) 1
                   | (None, False) \<Rightarrow> 0)
      in Hlc wall count device)"

text \<open>A clock whose counter can still grow: saturation is the only way a new clock can tie.\<close>

definition can_tick :: "hlc \<Rightarrow> bool" where
  "can_tick h \<longleftrightarrow> counter h \<noteq> - 1"

lemma send_greater: "can_tick p \<Longrightarrow> p < send (Some p) now device"
  using saturating_add32_greater [of "counter p"]
  by (cases p) (auto simp: send_def can_tick_def not_le)

lemma wall_send: "wall_ms (send (Some p) now device) = max (wall_ms p) now"
  by (auto simp: send_def max_def)

lemma receive_wall:
  "wall_ms (receive loc remote now device) =
     max (max now (case loc of None \<Rightarrow> 0 | Some l \<Rightarrow> wall_ms l)) (wall_ms remote)"
  by (simp add: receive_def Let_def)

lemma receive_counter:
  "counter (receive loc remote now device) =
     (let wall = wall_ms (receive loc remote now device) in
      case loc of
        None \<Rightarrow> if wall_ms remote = wall then saturating_add32 (counter remote) 1 else 0
      | Some l \<Rightarrow>
          if wall_ms l = wall
          then if wall_ms remote = wall then saturating_add32 (max (counter l) (counter remote)) 1
               else saturating_add32 (counter l) 1
          else if wall_ms remote = wall then saturating_add32 (counter remote) 1 else 0)"
  by (simp add: receive_def Let_def bool.case_eq_if split: option.split)

lemma receive_greater_remote:
  assumes "can_tick remote" and "\<And>l. loc = Some l \<Longrightarrow> can_tick l"
  shows "remote < receive loc remote now device"
proof (cases "wall_ms remote = wall_ms (receive loc remote now device)")
  case True
  with assms have "counter remote < counter (receive loc remote now device)"
    unfolding receive_counter
    by (auto simp: Let_def can_tick_def saturating_add32_greater saturating_add32_above_max
        split: option.split)
  with True show ?thesis by (simp add: hlc_less_iff)
next
  case False
  moreover have "wall_ms remote \<le> wall_ms (receive loc remote now device)"
    by (simp add: receive_wall)
  ultimately show ?thesis by (simp add: hlc_less_iff order_less_le)
qed

lemma receive_greater_local:
  assumes "can_tick remote" and "can_tick l"
  shows "l < receive (Some l) remote now device"
proof (cases "wall_ms l = wall_ms (receive (Some l) remote now device)")
  case True
  with assms have "counter l < counter (receive (Some l) remote now device)"
    unfolding receive_counter
    by (auto simp: Let_def can_tick_def saturating_add32_greater saturating_add32_above_max)
  with True show ?thesis by (simp add: hlc_less_iff)
next
  case False
  moreover have "wall_ms l \<le> wall_ms (receive (Some l) remote now device)"
    by (simp add: receive_wall le_max_iff_disj)
  ultimately show ?thesis by (simp add: hlc_less_iff order_less_le)
qed

section \<open>Textual form\<close>

text \<open>
  \<open>Uuid::simple\<close> and \<open>Uuid::parse_str\<close> are the \<open>uuid\<close> crate's. The clock relies on this
  much of them: the simple form is 32 hexadecimal digits, parsing reads it back, and it
  orders UUIDs as their bytes do.
\<close>

definition is_ascii_hexdigit :: "char \<Rightarrow> bool" where
  "is_ascii_hexdigit c \<longleftrightarrow> hex_value c \<noteq> None"

definition uuid_text :: "(uuid \<Rightarrow> string) \<Rightarrow> (string \<Rightarrow> uuid option) \<Rightarrow> bool" where
  "uuid_text simple parse \<longleftrightarrow>
     (\<forall>u. length (simple u) = 32 \<and> list_all is_ascii_hexdigit (simple u) \<and> parse (simple u) = Some u) \<and>
     (\<forall>u v. simple u < simple v \<longleftrightarrow> u < v)"

text \<open>\<open>impl Display for Hlc\<close>.\<close>

definition hlc_to_string :: "(uuid \<Rightarrow> string) \<Rightarrow> hlc \<Rightarrow> string" where
  "hlc_to_string simple h =
     hex_fixed lower_digit 16 (unat (wall_ms h)) @ ''-'' @
     hex_fixed lower_digit 8 (unat (counter h)) @ ''-'' @ simple (device_id h)"

datatype hlc_error =
    InvalidWallTime | MissingCounter | InvalidCounter | MissingDevice | InvalidDeviceSuffix
  | InvalidDeviceUuid

text \<open>One step of \<open>splitn('-')\<close>: the part before the first dash, and the rest if there is a dash.\<close>

definition split_dash :: "string \<Rightarrow> string \<times> string option" where
  "split_dash s =
     (takeWhile (\<lambda>c. c \<noteq> CHR ''-'') s,
      case dropWhile (\<lambda>c. c \<noteq> CHR ''-'') s of [] \<Rightarrow> None | _ # r \<Rightarrow> Some r)"

text \<open>\<open>impl FromStr for Hlc\<close>.\<close>

definition hlc_of_string :: "(string \<Rightarrow> uuid option) \<Rightarrow> string \<Rightarrow> hlc_error + hlc" where
  "hlc_of_string parse value =
     (case split_dash value of (wall, rest) \<Rightarrow>
      case from_str_radix16 64 wall of
        None \<Rightarrow> Inl InvalidWallTime
      | Some w \<Rightarrow>
        (case rest of
           None \<Rightarrow> Inl MissingCounter
         | Some rest \<Rightarrow>
           (case split_dash rest of (count, rest) \<Rightarrow>
            case from_str_radix16 32 count of
              None \<Rightarrow> Inl InvalidCounter
            | Some c \<Rightarrow>
              (case rest of
                 None \<Rightarrow> Inl MissingDevice
               | Some device \<Rightarrow>
                 if length device \<noteq> 32 \<or> \<not> list_all is_ascii_hexdigit device
                 then Inl InvalidDeviceSuffix
                 else case parse device of
                        None \<Rightarrow> Inl InvalidDeviceUuid
                      | Some u \<Rightarrow> Inr (Hlc (of_nat w) (of_nat c) u)))))"

lemma lower_hex_no_dash: "CHR ''-'' \<notin> set (hex_fixed lower_digit w n)"
proof (induction w arbitrary: n)
  case (Suc w)
  have "lower_digit k \<noteq> CHR ''-''" if "k < 16" for k
  proof
    assume "lower_digit k = CHR ''-''"
    then have "hex_value (CHR ''-'') = Some k" using hex_value_lower [OF that] by simp
    then show False by (simp add: hex_value_def byte_def)
  qed
  from this [of "n mod 16"] Suc.IH [of "n div 16"] show ?case by (simp add: eq_commute)
qed simp

lemma split_dash_append:
  assumes "CHR ''-'' \<notin> set a"
  shows "split_dash (a @ CHR ''-'' # b) = (a, Some b)"
  using assms by (induction a) (auto simp: split_dash_def)

lemma radix_lower: "n < 2 ^ (4 * w) \<Longrightarrow> 0 < w \<Longrightarrow> from_str_radix16 (4 * w) (hex_fixed lower_digit w n) = Some n"
  by (rule from_str_radix16_fixed) (simp_all add: power_mult)

lemma radix_lower_wall: "from_str_radix16 64 (hex_fixed lower_digit 16 (unat (w :: 64 word))) = Some (unat w)"
  using radix_lower [of "unat w" 16] unat_less [of w] by simp

lemma radix_lower_counter: "from_str_radix16 32 (hex_fixed lower_digit 8 (unat (c :: 32 word))) = Some (unat c)"
  using radix_lower [of "unat c" 8] unat_less [of c] by simp

lemma append_same_length_less:
  "length (a :: 'a::linorder list) = length c \<Longrightarrow> a @ b < c @ d \<longleftrightarrow> a < c \<or> (a = c \<and> b < d)"
  by (induction a c rule: list_induct2) auto

lemma hlc_parse_print:
  assumes "uuid_text simple parse"
  shows "hlc_of_string parse (hlc_to_string simple h) = Inr h"
proof -
  let ?w = "hex_fixed lower_digit 16 (unat (wall_ms h))"
  let ?c = "hex_fixed lower_digit 8 (unat (counter h))"
  let ?d = "simple (device_id h)"
  have d: "length ?d = 32" "list_all is_ascii_hexdigit ?d" "parse ?d = Some (device_id h)"
    using assms by (auto simp: uuid_text_def)
  have "split_dash (hlc_to_string simple h) = (?w, Some (?c @ CHR ''-'' # ?d))"
    using split_dash_append [OF lower_hex_no_dash] by (simp add: hlc_to_string_def)
  moreover have "split_dash (?c @ CHR ''-'' # ?d) = (?c, Some ?d)"
    by (rule split_dash_append) (rule lower_hex_no_dash)
  ultimately show ?thesis
    by (simp add: hlc_of_string_def radix_lower_wall radix_lower_counter d)
qed

lemma hlc_text_order:
  assumes "uuid_text simple parse"
  shows "hlc_to_string simple a < hlc_to_string simple b \<longleftrightarrow> a < b"
proof -
  have w: "hex_fixed lower_digit 16 (unat x) < hex_fixed lower_digit 16 (unat y) \<longleftrightarrow> x < y"
    for x y :: "64 word"
    by (simp only: hex_lower_less [OF unat_bounds(1) unat_bounds(1)] hex_lower_less [OF unat_bounds(2) unat_bounds(2)] word_less_nat_alt)
  have c: "hex_fixed lower_digit 8 (unat x) < hex_fixed lower_digit 8 (unat y) \<longleftrightarrow> x < y"
    for x y :: "32 word"
    by (simp only: hex_lower_less [OF unat_bounds(1) unat_bounds(1)] hex_lower_less [OF unat_bounds(2) unat_bounds(2)] word_less_nat_alt)
  have we: "hex_fixed lower_digit 16 (unat x) = hex_fixed lower_digit 16 (unat y) \<longleftrightarrow> x = y"
    for x y :: "64 word"
    using w [of x y] w [of y x] by (metis linorder_neq_iff order_less_irrefl)
  have ce: "hex_fixed lower_digit 8 (unat x) = hex_fixed lower_digit 8 (unat y) \<longleftrightarrow> x = y"
    for x y :: "32 word"
    using c [of x y] c [of y x] by (metis linorder_neq_iff order_less_irrefl)
  have "simple (device_id a) < simple (device_id b) \<longleftrightarrow> device_id a < device_id b"
    using assms by (simp add: uuid_text_def)
  then show ?thesis
    by (auto simp: hlc_to_string_def append_same_length_less hlc_less_iff w c we ce)
qed

text \<open>A concrete textual form, for the witnesses.\<close>

definition simple_hex :: "uuid \<Rightarrow> string" where
  "simple_hex u = hex_fixed lower_digit 32 (unat u)"

definition parse_hex :: "string \<Rightarrow> uuid option" where
  "parse_hex s = map_option of_nat (hex_digits_value 0 s)"

lemma lower_digit_hexdigit: "n < 16 \<Longrightarrow> is_ascii_hexdigit (lower_digit n)"
  by (simp add: is_ascii_hexdigit_def)

lemma hex_fixed_all: "(\<And>n. n < 16 \<Longrightarrow> P (d n)) \<Longrightarrow> list_all P (hex_fixed d w n)"
  by (induction w arbitrary: n) auto

lemma uuid_text_hex: "uuid_text simple_hex parse_hex"
proof -
  note b = unat_bounds(3) and h = hex_digits_value_fixed [OF hex_value_lower unat_bounds(3)]
  show ?thesis
    unfolding uuid_text_def simple_hex_def parse_hex_def
    by (simp add: hex_fixed_all lower_digit_hexdigit h hex_lower_less [OF b b] word_less_nat_alt)
qed

section \<open>Properties\<close>

text \<open>
  The database stores a clock as text and compares the text. The textual order is the
  derived order of the struct, so every \<open>hlc < excluded.hlc\<close> of the SQL is the \<open><\<close> of \<open>Hlc\<close>.
\<close>

theorem hlc_string_order_is_structural:
  assumes "uuid_text simple parse"
  shows "(hlc_to_string simple a < hlc_to_string simple b) = (a < b)"
  using assms by (rule hlc_text_order)

theorem hlc_string_order_is_structural_witness:
  "hlc_to_string simple_hex (Hlc 10 2 1) < hlc_to_string simple_hex (Hlc 10 3 1)"
  using hlc_string_order_is_structural [OF uuid_text_hex, of "Hlc 10 2 1" "Hlc 10 3 1"] by simp

text \<open>Parsing the displayed clock gives the clock back, for every wall time and counter.\<close>

theorem hlc_display_parse_roundtrip:
  assumes "uuid_text simple parse"
  shows "hlc_of_string parse (hlc_to_string simple h) = Inr h"
  using assms by (rule hlc_parse_print)

theorem hlc_display_parse_roundtrip_witness:
  "hlc_of_string parse_hex (hlc_to_string simple_hex (Hlc (- 1) 7 42)) = Inr (Hlc (- 1) 7 42)"
  by (rule hlc_display_parse_roundtrip [OF uuid_text_hex])

text \<open>
  The receive rule produces a clock above both the local and the remote clock under any
  skew of the wall clock, as long as neither counter is saturated.
\<close>

theorem receive_after_both:
  assumes "can_tick remote" and "can_tick l"
  shows "remote < receive (Some l) remote now device \<and> l < receive (Some l) remote now device"
  using assms receive_greater_remote [of remote "Some l"] receive_greater_local by simp

theorem receive_after_both_witness:
  "Hlc 10000 8 2 < receive (Some (Hlc 10000 3 1)) (Hlc 10000 8 2) 5 1 \<and>
   Hlc 10000 3 1 < receive (Some (Hlc 10000 3 1)) (Hlc 10000 8 2) 5 1"
  using receive_after_both [of "Hlc 10000 8 2" "Hlc 10000 3 1" 5 1] by (simp add: can_tick_def)

lemma saturating_less: "a < saturating_add32 (max a b) 1 \<longleftrightarrow> a \<noteq> - 1" "b < saturating_add32 (max a b) 1 \<longleftrightarrow> b \<noteq> - 1"
proof -
  have top: "x < (- 1 :: 32 word) \<longleftrightarrow> x \<noteq> - 1" for x by (simp add: word_order.not_eq_extremum)
  have "x < saturating_add32 m 1 \<longleftrightarrow> x \<noteq> - 1" if "x \<le> m" for x m :: "32 word"
  proof (cases "m = - 1")
    case False
    have "x < saturating_add32 m 1" by (rule le_less_trans [OF that saturating_add32_greater [OF False]])
    then show ?thesis by (metis word_order.extremum_strict)
  qed (simp add: top)
  then show "a < saturating_add32 (max a b) 1 \<longleftrightarrow> a \<noteq> - 1" "b < saturating_add32 (max a b) 1 \<longleftrightarrow> b \<noteq> - 1" by simp_all
qed

lemmas saturating_less_one = saturating_less(1) [where b = a and a = a for a, simplified]

lemma saturating_same: "saturating_add32 (max a b) 1 = a \<longleftrightarrow> a = - 1" "saturating_add32 (max a b) 1 = b \<longleftrightarrow> b = - 1"
proof -
  have "saturating_add32 m 1 = x \<longleftrightarrow> x = - 1" if "x \<le> m" for x m :: "32 word"
  proof (cases "m = - 1")
    case False
    have "x < saturating_add32 m 1" by (rule le_less_trans [OF that saturating_add32_greater [OF False]])
    then show ?thesis using that False word_order.extremum_uniqueI by (metis order_less_irrefl)
  qed auto
  then show "saturating_add32 (max a b) 1 = a \<longleftrightarrow> a = - 1" "saturating_add32 (max a b) 1 = b \<longleftrightarrow> b = - 1" by simp_all
qed

lemmas saturating_same_one = saturating_same(1) [where b = a and a = a for a, simplified]

text \<open>
  When the clock rules make progress, exactly: \<open>send\<close> is above the clock it continues, and
  \<open>receive\<close> above the remote and above the local clock, if and only if the physical clock or the
  other side is ahead, or the 32-bit counter is not saturated, or only the device identifier
  decides. A replica's own clock with a saturated counter is therefore returned unchanged, where
  the comment on \<open>Hlc::receive\<close> promises a later one.
\<close>

theorem clock_rules_progress_exactly:
  "(p < send (Some p) now device \<longleftrightarrow> wall_ms p < now \<or> counter p \<noteq> - 1 \<or> device_id p < device) \<and>
   (remote < receive loc remote now device \<longleftrightarrow>
      wall_ms remote < max now (case loc of None \<Rightarrow> 0 | Some l \<Rightarrow> wall_ms l) \<or> counter remote \<noteq> - 1 \<or>
      device_id remote < device) \<and>
   (l < receive (Some l) remote now device \<longleftrightarrow>
      wall_ms l < max now (wall_ms remote) \<or> counter l \<noteq> - 1 \<or> device_id l < device)"
proof (intro conjI)
  show "p < send (Some p) now device \<longleftrightarrow> wall_ms p < now \<or> counter p \<noteq> - 1 \<or> device_id p < device"
    by (cases p) (auto simp: send_def saturating_less_one saturating_same_one not_le eq_commute [of "- 1"])
  have device: "device_id (receive loc remote now device) = device" for loc by (simp add: receive_def Let_def)
  show "remote < receive loc remote now device \<longleftrightarrow>
      wall_ms remote < max now (case loc of None \<Rightarrow> 0 | Some l \<Rightarrow> wall_ms l) \<or> counter remote \<noteq> - 1 \<or> device_id remote < device"
  proof (cases "wall_ms remote < max now (case loc of None \<Rightarrow> 0 | Some l \<Rightarrow> wall_ms l)")
    case True
    then show ?thesis by (simp add: hlc_less_iff receive_wall)
  next
    case False
    then have "wall_ms (receive loc remote now device) = wall_ms remote" unfolding receive_wall by (simp add: not_less max_absorb2)
    then show ?thesis using False
      by (simp add: hlc_less_iff receive_counter device Let_def saturating_less saturating_less_one
          saturating_same saturating_same_one eq_commute [of "counter remote"] split: option.split)
  qed
  show "l < receive (Some l) remote now device \<longleftrightarrow>
      wall_ms l < max now (wall_ms remote) \<or> counter l \<noteq> - 1 \<or> device_id l < device"
  proof (cases "wall_ms l < max now (wall_ms remote)")
    case True
    then show ?thesis by (auto simp: hlc_less_iff receive_wall less_max_iff_disj)
  next
    case False
    then have "wall_ms (receive (Some l) remote now device) = wall_ms l"
      unfolding receive_wall by (simp add: not_less max_absorb1 max_absorb2)
    then show ?thesis using False
      by (auto simp: hlc_less_iff receive_counter device Let_def saturating_less saturating_less_one
          saturating_same saturating_same_one eq_commute [of "counter l"])
  qed
qed

end
