(* ===== verification/Externals.thy ===== *)
theory Externals
  imports Hlc
begin

text \<open>
  Code the repository calls and does not contain is a parameter of the model: Unicode tables
  and normalisation (\<open>unicode_normalization\<close>, \<open>char::to_lowercase\<close>), the Snowball stemmers of
  \<open>rust_stemmers\<close>, name-based UUIDs and UUID text of the \<open>uuid\<close> crate, the Markdown parser
  \<open>pulldown_cmark\<close>, calendar parsing of \<open>chrono\<close>, and the identifiers drawn by
  \<open>Uuid::now_v7\<close> (\<open>fresh_uuid\<close>, by the event they are drawn for). A definition that needs one takes the
  record \<open>externals\<close>; what a theorem relies on is a hypothesis on its fields.
\<close>

datatype md_event =
    EvCodeBlock        \<comment> \<open>\<open>Start(Tag::CodeBlock(_))\<close>\<close>
  | EvCode             \<comment> \<open>\<open>Code(_)\<close>\<close>
  | EvHtml             \<comment> \<open>\<open>Html(_)\<close>\<close>
  | EvInlineHtml       \<comment> \<open>\<open>InlineHtml(_)\<close>\<close>
  | EvStartImage bool  \<comment> \<open>\<open>Start(Tag::Image)\<close>; whether \<open>link_type\<close> is \<open>WikiLink\<close>\<close>
  | EvEndImage         \<comment> \<open>\<open>End(TagEnd::Image)\<close>\<close>
  | EvStartLink bool   \<comment> \<open>\<open>Start(Tag::Link)\<close>; whether \<open>link_type\<close> is \<open>WikiLink\<close>\<close>
  | EvEndLink          \<comment> \<open>\<open>End(TagEnd::Link)\<close>\<close>
  | EvText             \<comment> \<open>\<open>Text(_)\<close>\<close>
  | EvOther

record externals =
  nfkc :: "string \<Rightarrow> string"
  char_lowercase :: "string \<Rightarrow> string"
  str_lowercase :: "string \<Rightarrow> string"
  is_alphabetic :: "string \<Rightarrow> bool"
  is_numeric :: "string \<Rightarrow> bool"
  snowball_russian :: "string \<Rightarrow> string"
  snowball_english :: "string \<Rightarrow> string"
  uuid_v5 :: "uuid \<Rightarrow> string \<Rightarrow> uuid"
  uuid_parse :: "string \<Rightarrow> uuid option"
  uuid_hyphenated :: "uuid \<Rightarrow> string"
  naive_date_ok :: "string \<Rightarrow> bool"
  fresh_uuid :: "uuid \<Rightarrow> uuid"
  md_events :: "string \<Rightarrow> (md_event \<times> nat \<times> nat) list"

text \<open>A concrete choice for witnesses: ASCII behaviour, no Markdown structure.\<close>

definition ascii_lower :: "char \<Rightarrow> char" where
  "ascii_lower c = (if 65 \<le> byte c \<and> byte c \<le> 90 then char_of (byte c + 32) else c)"

definition ascii_externals :: externals where
  "ascii_externals =
     \<lparr>nfkc = (\<lambda>s. s), char_lowercase = map ascii_lower, str_lowercase = map ascii_lower,
      is_alphabetic = (\<lambda>ch. case ch of [c] \<Rightarrow> (97 \<le> byte c \<and> byte c \<le> 122) \<or> (65 \<le> byte c \<and> byte c \<le> 90)
                               | _ \<Rightarrow> False),
      is_numeric = (\<lambda>ch. case ch of [c] \<Rightarrow> 48 \<le> byte c \<and> byte c \<le> 57 | _ \<Rightarrow> False),
      snowball_russian = (\<lambda>s. s), snowball_english = (\<lambda>s. s),
      uuid_v5 = (\<lambda>ns name. ns + of_nat (length name)),
      uuid_parse = parse_hex, uuid_hyphenated = simple_hex,
      naive_date_ok = (\<lambda>_. True), fresh_uuid = (\<lambda>u. u + 1), md_events = (\<lambda>_. [])\<rparr>"

end
