(* ===== verification/Model.thy ===== *)
theory Model
  imports Externals
begin

text \<open>
  The typed values of \<open>crates/notes-core/src/model.rs\<close>: titles and aliases, the string enums
  with their stored names, page kinds and their database encoding, block styles with their
  storage and wire forms, document revisions, and the sibling ordering keys.
\<close>

section \<open>Titles and aliases\<close>

definition normalize_title :: "externals \<Rightarrow> string \<Rightarrow> string" where
  "normalize_title ext title = concat (map (char_lowercase ext) (chars_of (nfkc ext (trim title))))"

datatype parse_enum_error = ParseEnumError (type_name: string) (bad_value: string)

text \<open>\<open>PageAlias::new\<close>; the alias is its normalized text.\<close>

definition page_alias_new :: "externals \<Rightarrow> string \<Rightarrow> parse_enum_error + string" where
  "page_alias_new ext s =
     (let v = normalize_title ext s in if v = [] then Inl (ParseEnumError ''PageAlias'' v) else Inr v)"

section \<open>String enums\<close>

datatype page_layout = Outline | Document

fun page_layout_str :: "page_layout \<Rightarrow> string" where
  "page_layout_str Outline = ''outline''"
| "page_layout_str Document = ''document''"

definition page_layout_of :: "string \<Rightarrow> parse_enum_error + page_layout" where
  "page_layout_of s =
     (if s = ''outline'' then Inr Outline else if s = ''document'' then Inr Document
      else Inl (ParseEnumError ''PageLayout'' s))"

datatype object_kind = PageObject | BlockObject

fun object_kind_str :: "object_kind \<Rightarrow> string" where
  "object_kind_str PageObject = ''page''"
| "object_kind_str BlockObject = ''block''"

definition object_kind_of :: "string \<Rightarrow> parse_enum_error + object_kind" where
  "object_kind_of s =
     (if s = ''page'' then Inr PageObject else if s = ''block'' then Inr BlockObject
      else Inl (ParseEnumError ''ObjectKind'' s))"

datatype task_state = Todo | Doing | Now | Later | Done | Waiting | Cancelled

fun task_state_str :: "task_state \<Rightarrow> string" where
  "task_state_str Todo = ''todo''"
| "task_state_str Doing = ''doing''"
| "task_state_str Now = ''now''"
| "task_state_str Later = ''later''"
| "task_state_str Done = ''done''"
| "task_state_str Waiting = ''waiting''"
| "task_state_str Cancelled = ''cancelled''"

definition task_state_of :: "string \<Rightarrow> parse_enum_error + task_state" where
  "task_state_of s =
     (if s = ''todo'' then Inr Todo else if s = ''doing'' then Inr Doing
      else if s = ''now'' then Inr Now else if s = ''later'' then Inr Later
      else if s = ''done'' then Inr Done else if s = ''waiting'' then Inr Waiting
      else if s = ''cancelled'' then Inr Cancelled
      else Inl (ParseEnumError ''TaskState'' s))"

fun is_terminal :: "task_state \<Rightarrow> bool" where
  "is_terminal Done = True"
| "is_terminal Cancelled = True"
| "is_terminal _ = False"

definition toggled :: "task_state \<Rightarrow> task_state" where
  "toggled t = (if is_terminal t then Todo else Done)"

section \<open>Attachment owners\<close>

datatype attachment_owner = PageOwner uuid | BlockOwner uuid

fun owner_kind :: "attachment_owner \<Rightarrow> object_kind" where
  "owner_kind (PageOwner _) = PageObject"
| "owner_kind (BlockOwner _) = BlockObject"

fun owner_uuid :: "attachment_owner \<Rightarrow> uuid" where
  "owner_uuid (PageOwner u) = u"
| "owner_uuid (BlockOwner u) = u"

section \<open>Journal dates and page kinds\<close>

definition is_ascii_digit :: "char \<Rightarrow> bool" where
  "is_ascii_digit c \<longleftrightarrow> 48 \<le> byte c \<and> byte c \<le> 57"

text \<open>\<open>impl FromStr for JournalDate\<close>; the calendar check is \<open>chrono\<close>'s.\<close>

definition journal_date_of :: "externals \<Rightarrow> string \<Rightarrow> parse_enum_error + string" where
  "journal_date_of ext s =
     (let shape = length s = 10 \<and> s ! 4 = CHR ''-'' \<and> s ! 7 = CHR ''-'' \<and>
                  (\<forall>i \<in> set [0..<10]. i = 4 \<or> i = 7 \<or> is_ascii_digit (s ! i))
      in if shape \<and> naive_date_ok ext s then Inr s else Inl (ParseEnumError ''JournalDate'' s))"

datatype page_kind = Note | Handwriting | Journal (journal_date: string)

fun is_journal :: "page_kind \<Rightarrow> bool" where
  "is_journal (Journal _) = True"
| "is_journal _ = False"

definition journal_page_uuid :: "externals \<Rightarrow> uuid \<Rightarrow> string \<Rightarrow> uuid" where
  "journal_page_uuid ext workspace date = uuid_v5 ext workspace date"

text \<open>
  The row of \<open>page_identities\<close>: \<open>insert_page_identity\<close> writes the columns \<open>page_kind\<close>,
  \<open>journal_date\<close>, \<open>content_type\<close>; reading maps an \<open>ink\<close> row to \<open>handwriting\<close> and then goes
  through \<open>page_kind_from_sql\<close>, whose \<open>None\<close> is the conversion error.
\<close>

fun page_kind_columns :: "page_kind \<Rightarrow> string \<times> string option \<times> string" where
  "page_kind_columns Note = (''note'', None, ''text'')"
| "page_kind_columns Handwriting = (''note'', None, ''ink'')"
| "page_kind_columns (Journal date) = (''journal'', Some date, ''text'')"

definition page_kind_from_sql :: "string \<Rightarrow> string option \<Rightarrow> page_kind option" where
  "page_kind_from_sql kind date =
     (if kind = ''note'' \<and> date = None then Some Note
      else if kind = ''handwriting'' \<and> date = None then Some Handwriting
      else if kind = ''journal'' then map_option Journal date
      else None)"

definition page_kind_of_columns :: "string \<times> string option \<times> string \<Rightarrow> page_kind option" where
  "page_kind_of_columns row =
     (case row of (kind, date, content) \<Rightarrow>
        page_kind_from_sql (if content = ''ink'' then ''handwriting'' else kind) date)"

section \<open>Block styles\<close>

datatype block_style =
    Paragraph | Bullet | Numbered | Task task_state | Heading1 | Heading2 | Heading3
  | Quote | Code | Divider

fun task_state_of_style :: "block_style \<Rightarrow> task_state option" where
  "task_state_of_style (Task s) = Some s"
| "task_state_of_style _ = None"

fun storage_value :: "block_style \<Rightarrow> string" where
  "storage_value Paragraph = ''paragraph''"
| "storage_value Bullet = ''bullet''"
| "storage_value Numbered = ''numbered''"
| "storage_value (Task Todo) = ''task:todo''"
| "storage_value (Task Doing) = ''task:doing''"
| "storage_value (Task Now) = ''task:now''"
| "storage_value (Task Later) = ''task:later''"
| "storage_value (Task Done) = ''task:done''"
| "storage_value (Task Waiting) = ''task:waiting''"
| "storage_value (Task Cancelled) = ''task:cancelled''"
| "storage_value Heading1 = ''heading_1''"
| "storage_value Heading2 = ''heading_2''"
| "storage_value Heading3 = ''heading_3''"
| "storage_value Quote = ''quote''"
| "storage_value Code = ''code''"
| "storage_value Divider = ''divider''"

definition block_style_of :: "string \<Rightarrow> parse_enum_error + block_style" where
  "block_style_of s =
     (if s = ''paragraph'' then Inr Paragraph
      else if s = ''bullet'' then Inr Bullet
      else if s = ''numbered'' then Inr Numbered
      else if s = ''task:todo'' then Inr (Task Todo)
      else if s = ''task:doing'' then Inr (Task Doing)
      else if s = ''task:now'' then Inr (Task Now)
      else if s = ''task:later'' then Inr (Task Later)
      else if s = ''task:done'' then Inr (Task Done)
      else if s = ''task:waiting'' then Inr (Task Waiting)
      else if s = ''task:cancelled'' then Inr (Task Cancelled)
      else if s = ''heading_1'' then Inr Heading1
      else if s = ''heading_2'' then Inr Heading2
      else if s = ''heading_3'' then Inr Heading3
      else if s = ''quote'' then Inr Quote
      else if s = ''code'' then Inr Code
      else if s = ''divider'' then Inr Divider
      else Inl (ParseEnumError ''BlockStyle'' s))"

text \<open>
  \<open>impl Deserialize for BlockStyle\<close>: the wire object after \<open>serde\<close> has split it into the
  \<open>kind\<close> field, the \<open>state\<close> field (missing, or present and possibly null) and any extra
  fields. The errors are the code's four custom messages.
\<close>

datatype state_field = Missing | Present "task_state option"

record wire_style =
  wire_kind :: string
  wire_state :: state_field
  wire_extra :: "string list"

datatype style_error = UnknownField | TaskRequiresState | StateOnlyForTask | UnsupportedKind

definition block_style_of_wire :: "wire_style \<Rightarrow> style_error + block_style" where
  "block_style_of_wire w =
     (let k = wire_kind w; st = wire_state w in
      if wire_extra w \<noteq> [] then Inl UnknownField
      else if k = ''paragraph'' \<and> st = Missing then Inr Paragraph
      else if k = ''bullet'' \<and> st = Missing then Inr Bullet
      else if k = ''numbered'' \<and> st = Missing then Inr Numbered
      else if k = ''task'' then (case st of Present (Some s) \<Rightarrow> Inr (Task s) | _ \<Rightarrow> Inl TaskRequiresState)
      else if k = ''heading_1'' \<and> st = Missing then Inr Heading1
      else if k = ''heading_2'' \<and> st = Missing then Inr Heading2
      else if k = ''heading_3'' \<and> st = Missing then Inr Heading3
      else if k = ''quote'' \<and> st = Missing then Inr Quote
      else if k = ''code'' \<and> st = Missing then Inr Code
      else if k = ''divider'' \<and> st = Missing then Inr Divider
      else (case st of Present _ \<Rightarrow> Inl StateOnlyForTask | Missing \<Rightarrow> Inl UnsupportedKind))"

text \<open>The derived \<open>Serialize\<close>: an internally tagged enum, \<open>snake_case\<close> names.\<close>

fun wire_of_block_style :: "block_style \<Rightarrow> wire_style" where
  "wire_of_block_style (Task s) = \<lparr>wire_kind = ''task'', wire_state = Present (Some s), wire_extra = []\<rparr>"
| "wire_of_block_style s = \<lparr>wire_kind = storage_value s, wire_state = Missing, wire_extra = []\<rparr>"

section \<open>Document revisions\<close>

definition is_lower_hexdigit :: "char \<Rightarrow> bool" where
  "is_lower_hexdigit c \<longleftrightarrow> is_ascii_digit c \<or> (97 \<le> byte c \<and> byte c \<le> 102)"

definition revision_of_digest :: "8 word list \<Rightarrow> string" where
  "revision_of_digest bytes =
     concat (map (\<lambda>b. [lower_digit (unat (drop_bit 4 b)), lower_digit (unat (and b 15))]) bytes)"

datatype revision_error = WrongLength | NotCanonical

definition document_revision_of :: "string \<Rightarrow> revision_error + string" where
  "document_revision_of s =
     (if length s \<noteq> 64 then Inl WrongLength
      else if \<not> list_all is_lower_hexdigit s then Inl NotCanonical
      else Inr s)"

section \<open>Order keys\<close>

text \<open>
  \<open>OrderKey(String)\<close>: the field is private and every constructor checks it, so the type is
  the set of valid keys.
\<close>

definition is_upper_hexdigit :: "char \<Rightarrow> bool" where
  "is_upper_hexdigit c \<longleftrightarrow> is_ascii_digit c \<or> (65 \<le> byte c \<and> byte c \<le> 70)"

definition valid_order_key :: "string \<Rightarrow> bool" where
  "valid_order_key s \<longleftrightarrow> length s = 16 \<and> list_all is_upper_hexdigit s"

lemma upper_digit_hexdigit: "n < 16 \<Longrightarrow> is_upper_hexdigit (upper_digit n)"
  by (drule nat_lt_16_cases) (auto simp: is_upper_hexdigit_def is_ascii_digit_def upper_digit_def byte_def)

lemma valid_hex_upper: "valid_order_key (hex_fixed upper_digit 16 n)"
  by (simp add: valid_order_key_def hex_fixed_all upper_digit_hexdigit)

typedef order_key = "{s. valid_order_key s}"
  morphisms key_text OrderKey
  using valid_hex_upper by blast

setup_lifting type_definition_order_key

lift_definition key_of_value :: "64 word \<Rightarrow> order_key" is "\<lambda>v. hex_fixed upper_digit 16 (unat v)"
  by (rule valid_hex_upper)

definition order_key_of :: "string \<Rightarrow> parse_enum_error + order_key" where
  "order_key_of s = (if valid_order_key s then Inr (OrderKey s) else Inl (ParseEnumError ''OrderKey'' s))"

text \<open>\<open>u64::from_str_radix(&self.0, 16).expect(..)\<close>: the \<open>None\<close> branch is the panic.\<close>

definition key_value_checked :: "order_key \<Rightarrow> 64 word option" where
  "key_value_checked k = map_option of_nat (from_str_radix16 64 (key_text k))"

definition key_value :: "order_key \<Rightarrow> 64 word" where
  "key_value k = (case key_value_checked k of Some v \<Rightarrow> v | None \<Rightarrow> 0)"

definition saturating_add64 :: "64 word \<Rightarrow> 64 word \<Rightarrow> 64 word" where
  "saturating_add64 a b = (if unat a + unat b < 2 ^ 64 then a + b else - 1)"

definition saturating_mul64 :: "64 word \<Rightarrow> 64 word \<Rightarrow> 64 word" where
  "saturating_mul64 a b = (if unat a * unat b < 2 ^ 64 then a * b else - 1)"

definition order_step :: "64 word" where
  "order_step = 2 ^ 32"

definition key_from_ordinal :: "64 word \<Rightarrow> order_key" where
  "key_from_ordinal ordinal = key_of_value (saturating_mul64 ordinal order_step)"

definition first_key :: order_key where
  "first_key = key_from_ordinal 1"

definition key_after :: "order_key \<Rightarrow> order_key" where
  "key_after k = key_of_value (saturating_add64 (key_value k) order_step)"

text \<open>
  \<open>OrderKey::between\<close>: the arithmetic is on \<open>u128\<close>; it is written on \<open>nat\<close> and shown below
  not to overflow. \<open>0\<close> and \<open>2^64 + 1\<close> are the virtual bounds around the key space.
\<close>

definition lower_bound :: "order_key option \<Rightarrow> nat" where
  "lower_bound k = (case k of None \<Rightarrow> 0 | Some k \<Rightarrow> unat (key_value k) + 1)"

definition upper_bound :: "order_key option \<Rightarrow> nat" where
  "upper_bound k = (case k of None \<Rightarrow> (2 ^ 64 - 1) + 2 | Some k \<Rightarrow> unat (key_value k) + 1)"

definition keys_between :: "order_key option \<Rightarrow> order_key option \<Rightarrow> nat \<Rightarrow> order_key list option" where
  "keys_between lower upper count =
     (if count = 0 then Some []
      else
        let lo = lower_bound lower; up = upper_bound upper in
        if up \<le> lo \<or> up - lo - 1 < count then None
        else
          let span = up - lo; divisor = count + 1 in
          those (map (\<lambda>index.
                   let coordinate = lo + span * index div divisor in
                   if coordinate - 1 < 2 ^ 64 then Some (key_of_value (of_nat (coordinate - 1))) else None)
                 [1..<count + 1]))"

instantiation order_key :: "{linorder, equal}"
begin

definition less_eq_order_key :: "order_key \<Rightarrow> order_key \<Rightarrow> bool" where
  "a \<le> b \<longleftrightarrow> key_text a \<le> key_text b"

definition less_order_key :: "order_key \<Rightarrow> order_key \<Rightarrow> bool" where
  "a < b \<longleftrightarrow> key_text a < key_text b"

definition equal_order_key :: "order_key \<Rightarrow> order_key \<Rightarrow> bool" where
  "equal_order_key a b \<longleftrightarrow> key_text a = key_text b"

instance
  by standard
    (auto simp: less_eq_order_key_def less_order_key_def equal_order_key_def key_text_inject
      order_less_le)

end

subsection \<open>Keys and their values\<close>

lemma upper_hexdigit_cases:
  assumes "is_upper_hexdigit c"
  obtains v where "v < 16" and "c = upper_digit v"
proof (cases "byte c \<le> 57")
  case True
  with assms have "48 \<le> byte c" by (auto simp: is_upper_hexdigit_def is_ascii_digit_def)
  with True have "byte c - 48 < 16" "c = upper_digit (byte c - 48)"
    by (auto simp: upper_digit_def byte_def)
  then show ?thesis by (rule that)
next
  case False
  with assms have "65 \<le> byte c" "byte c \<le> 70" by (auto simp: is_upper_hexdigit_def is_ascii_digit_def)
  then have "byte c - 55 < 16" "c = upper_digit (byte c - 55)"
    by (auto simp: upper_digit_def byte_def)
  then show ?thesis by (rule that)
qed

lemma upper_hex_string:
  "list_all is_upper_hexdigit s \<Longrightarrow> \<exists>n < 16 ^ length s. s = hex_fixed upper_digit (length s) n"
proof (induction s rule: rev_induct)
  case (snoc c s)
  then obtain n where n: "n < 16 ^ length s" "s = hex_fixed upper_digit (length s) n" by auto
  from snoc.prems obtain v where v: "v < 16" "c = upper_digit v"
    by (auto elim: upper_hexdigit_cases)
  have "n * 16 + v < 16 ^ length (s @ [c])" using n(1) v(1) by simp
  moreover have "s @ [c] = hex_fixed upper_digit (length (s @ [c])) (n * 16 + v)"
    using n(2) v by simp
  ultimately show ?case by blast
qed simp

lemma key_text_hex: "\<exists>n < 16 ^ 16. key_text k = hex_fixed upper_digit 16 n"
  using key_text [of k] upper_hex_string [of "key_text k"] by (auto simp: valid_order_key_def)

lemma radix_upper64: "n < 16 ^ 16 \<Longrightarrow> from_str_radix16 64 (hex_fixed upper_digit 16 n) = Some n"
  using from_str_radix16_fixed [of upper_digit 16 n] hex_value_upper by simp

lemma key_of_value_checked: "\<exists>v. key_value_checked k = Some v \<and> key_of_value v = k"
proof -
  obtain n where n: "n < 16 ^ 16" "key_text k = hex_fixed upper_digit 16 n"
    using key_text_hex by blast
  then have u: "unat (of_nat n :: 64 word) = n" by (simp add: unsigned_of_nat take_bit_nat_eq_self)
  have "key_value_checked k = Some (of_nat n)"
    by (simp add: key_value_checked_def n(2) radix_upper64 [OF n(1)])
  moreover have "key_of_value (of_nat n) = k"
    by (rule key_text_inject [THEN iffD1]) (simp add: key_of_value.rep_eq u n(2))
  ultimately show ?thesis by blast
qed

lemma key_of_value_value [simp]: "key_of_value (key_value k) = k"
  using key_of_value_checked [of k] by (auto simp: key_value_def)

lemma key_value_of_value [simp]: "key_value (key_of_value v) = v"
  by (simp add: key_value_def key_value_checked_def key_of_value.rep_eq
      radix_upper64 [OF unat_bounds(1)])

lemma key_less_iff: "k < k' \<longleftrightarrow> key_value k < key_value k'"
proof -
  have "key_of_value v < key_of_value w \<longleftrightarrow> v < w" for v w
    by (simp add: less_order_key_def key_of_value.rep_eq
        hex_upper_less [OF unat_bounds(1) unat_bounds(1)] word_less_nat_alt)
  from this [of "key_value k" "key_value k'"] show ?thesis by simp
qed

lemma saturating_add64_greater:
  assumes "a \<noteq> - 1" and "b \<noteq> 0"
  shows "a < saturating_add64 a b"
proof -
  have max: "unat (- 1 :: 64 word) = 2 ^ 64 - 1"
    by (simp add: unsigned_minus_1_eq_mask mask_eq_exp_minus_1)
  with assms(1) have "unat a \<noteq> 2 ^ 64 - 1" by (metis unsigned_word_eqI)
  moreover have "unat a < 2 ^ 64" using unat_less [of a] by simp
  moreover have "0 < unat b" using assms(2) by (simp add: unat_gt_0)
  ultimately show ?thesis
    by (auto simp: saturating_add64_def word_less_nat_alt unat_word_ariths max)
qed

lemma key_after_greater: "key_value k \<noteq> - 1 \<Longrightarrow> k < key_after k"
  by (simp add: key_less_iff key_after_def saturating_add64_greater order_step_def)

subsection \<open>Allocation between two keys\<close>

definition coordinate :: "nat \<Rightarrow> nat \<Rightarrow> nat \<Rightarrow> nat \<Rightarrow> nat" where
  "coordinate lo up count index = lo + (up - lo) * index div (count + 1)"

lemma coordinate_step:
  assumes "count \<le> up - lo - 1" and "lo < up"
  shows "coordinate lo up count i < coordinate lo up count (Suc i)"
proof -
  have "(up - lo) * Suc i \<ge> (up - lo) * i + (count + 1)" using assms by simp
  then have "(up - lo) * Suc i div (count + 1) \<ge> ((up - lo) * i + (count + 1)) div (count + 1)"
    by (rule div_le_mono)
  also have "((up - lo) * i + (count + 1)) div (count + 1) = (up - lo) * i div (count + 1) + 1"
    by (simp only: div_add_self2)
  finally show ?thesis by (simp add: coordinate_def)
qed

lemma coordinate_mono:
  assumes "count \<le> up - lo - 1" and "lo < up"
  shows "i < j \<Longrightarrow> coordinate lo up count i < coordinate lo up count j"
  using coordinate_step [OF assms] by (rule lift_Suc_mono_less)

lemma coordinate_bounds:
  assumes "count \<le> up - lo - 1" and "lo < up" and "0 < i" and "i \<le> count"
  shows "lo < coordinate lo up count i \<and> coordinate lo up count i < up"
proof -
  have "coordinate lo up count 0 < coordinate lo up count i"
    using coordinate_mono [OF assms(1,2) assms(3)] .
  moreover have "coordinate lo up count i < coordinate lo up count (count + 1)"
    using coordinate_mono [OF assms(1,2)] assms(4) by simp
  moreover have "coordinate lo up count 0 = lo" by (simp add: coordinate_def)
  moreover have "coordinate lo up count (count + 1) = up"
    using assms(2) by (simp del: mult_Suc_right add: coordinate_def)
  ultimately show ?thesis by simp
qed

lemma upper_bound_le: "upper_bound k \<le> 2 ^ 64 + 1"
  using unat_bounds(1) by (auto simp: upper_bound_def less_imp_le_nat split: option.split)

lemma those_map_Some: "(\<And>x. x \<in> set xs \<Longrightarrow> f x = Some (g x)) \<Longrightarrow> those (map f xs) = Some (map g xs)"
  by (induction xs) auto

lemma keys_between_some:
  assumes "0 < count" and "lower_bound lower < upper_bound upper"
    and "count \<le> upper_bound upper - lower_bound lower - 1"
  shows "keys_between lower upper count =
    Some (map (\<lambda>i. key_of_value (of_nat (coordinate (lower_bound lower) (upper_bound upper) count i - 1)))
           [1..<count + 1])"
proof -
  let ?c = "coordinate (lower_bound lower) (upper_bound upper) count"
  have "?c i - 1 < 2 ^ 64" if "i \<in> set [1..<count + 1]" for i
    using coordinate_bounds [OF assms(3,2), of i] upper_bound_le [of upper] that by auto
  then show ?thesis
    using assms
    by (auto simp: keys_between_def Let_def coordinate_def not_less not_le simp del: upt_Suc
        intro!: those_map_Some)
qed

text \<open>The allocated values, one below their coordinates because zero is a virtual bound.\<close>

lemma keys_between_values:
  assumes "0 < count" and "lower_bound lower < upper_bound upper"
    and "count \<le> upper_bound upper - lower_bound lower - 1"
  obtains f where "keys_between lower upper count = Some (map (\<lambda>i. key_of_value (f i)) [1..<count + 1])"
    and "\<And>i. i \<in> set [1..<count + 1] \<Longrightarrow>
           unat (f i) + 1 = coordinate (lower_bound lower) (upper_bound upper) count i"
proof
  let ?c = "coordinate (lower_bound lower) (upper_bound upper) count"
  show "keys_between lower upper count =
      Some (map (\<lambda>i. key_of_value (of_nat (?c i - 1))) [1..<count + 1])"
    using assms by (rule keys_between_some)
  fix i assume "i \<in> set [1..<count + 1]"
  then have "0 < ?c i" "?c i \<le> 2 ^ 64"
    using coordinate_bounds [OF assms(3,2), of i] upper_bound_le [of upper] by auto
  then show "unat (of_nat (?c i - 1) :: 64 word) + 1 = ?c i"
    by (simp add: unsigned_of_nat take_bit_nat_eq_self del: of_nat_diff)
qed

lemma keys_between_None_iff:
  "keys_between lower upper count = None \<longleftrightarrow>
     0 < count \<and> upper_bound upper \<le> lower_bound lower + count"
proof (cases "0 < count \<and> lower_bound lower < upper_bound upper \<and>
    count \<le> upper_bound upper - lower_bound lower - 1")
  case True
  then show ?thesis by (auto simp: keys_between_some)
next
  case False
  then show ?thesis by (auto simp: keys_between_def Let_def)
qed

lemma card_between:
  "card {v :: 64 word. (\<forall>l. lower = Some l \<longrightarrow> key_value l < v) \<and> (\<forall>u. upper = Some u \<longrightarrow> v < key_value u)} =
     upper_bound upper - lower_bound lower - 1"
  (is "card ?S = _")
proof -
  have S: "?S = {v. lower_bound lower < unat v + 1 \<and> unat v + 1 < upper_bound upper}"
    using unat_bounds(1)
    by (auto simp: lower_bound_def upper_bound_def word_less_nat_alt split: option.split)
  have "unat ` ?S = {lower_bound lower..<upper_bound upper - 1}"
  proof
    show "{lower_bound lower..<upper_bound upper - 1} \<subseteq> unat ` ?S"
    proof
      fix n assume n: "n \<in> {lower_bound lower..<upper_bound upper - 1}"
      then have "n < 2 ^ 64" using upper_bound_le [of upper] by auto
      then have "unat (of_nat n :: 64 word) = n" by (simp add: unsigned_of_nat take_bit_nat_eq_self)
      with n show "n \<in> unat ` ?S" unfolding S by (intro image_eqI [of _ _ "of_nat n"]) auto
    qed
  qed (auto simp: S)
  moreover have "inj_on unat ?S" by (rule inj_onI) (rule unsigned_word_eqI)
  ultimately have "card ?S = card {lower_bound lower..<upper_bound upper - 1}"
    using card_image [of unat ?S] by (simp only:)
  then show ?thesis by simp
qed

lemma list_all_revision: "list_all is_lower_hexdigit (revision_of_digest bytes)"
proof -
  have "is_lower_hexdigit (lower_digit n)" if "n < 16" for n
    using nat_lt_16_cases [OF that]
    by (auto simp: is_lower_hexdigit_def is_ascii_digit_def lower_digit_def byte_def)
  moreover have "unat (drop_bit 4 b) < 16" "unat (and b 15) < 16" for b :: "8 word"
  proof -
    show "unat (drop_bit 4 b) < 16"
      using unat_less [of b] by (simp add: drop_bit_eq_div unat_div less_mult_imp_div_less)
    have "and b 15 = take_bit 4 b" by (simp add: take_bit_eq_mask mask_eq_exp_minus_1)
    then show "unat (and b 15) < 16"
      by (simp add: take_bit_eq_mod unat_mod)
  qed
  ultimately show ?thesis by (induction bytes) (auto simp: revision_of_digest_def)
qed

lemma length_revision: "length (revision_of_digest bytes) = 2 * length bytes"
  by (induction bytes) (auto simp: revision_of_digest_def)

section \<open>Properties\<close>

lemma keys_between_ascend:
  assumes "keys_between lower upper count = Some ks"
  shows "length ks = count \<and> sorted_wrt (<) ks \<and>
    (\<forall>k \<in> set ks. (\<forall>l. lower = Some l \<longrightarrow> l < k) \<and> (\<forall>u. upper = Some u \<longrightarrow> k < u))"
proof (cases "count = 0")
  case True
  with assms show ?thesis by (simp add: keys_between_def)
next
  case False
  let ?c = "coordinate (lower_bound lower) (upper_bound upper) count"
  have room: "0 < count" "lower_bound lower < upper_bound upper"
      "count \<le> upper_bound upper - lower_bound lower - 1"
    using assms False keys_between_None_iff [of lower upper count] by auto
  obtain f where "keys_between lower upper count = Some (map (\<lambda>i. key_of_value (f i)) [1..<count + 1])"
    and f: "\<And>i. i \<in> set [1..<count + 1] \<Longrightarrow> unat (f i) + 1 = ?c i"
    using keys_between_values [OF room] by blast
  with assms have ks: "ks = map (\<lambda>i. key_of_value (f i)) [1..<count + 1]" by simp
  have less: "f i < f j" if "i < j" "i \<in> set [1..<count + 1]" "j \<in> set [1..<count + 1]" for i j
  proof -
    have "unat (f i) + 1 < unat (f j) + 1"
      using coordinate_mono [OF room(3,2) that(1)] f [OF that(2)] f [OF that(3)] by simp
    then show ?thesis by (simp add: word_less_nat_alt)
  qed
  have "sorted_wrt (<) [1..<count + 1]" by (rule sorted_wrt_upt)
  then have "sorted_wrt (<) ks"
    unfolding ks sorted_wrt_map by (rule sorted_wrt_mono_rel [rotated]) (simp add: key_less_iff less)
  moreover have "(\<forall>l. lower = Some l \<longrightarrow> l < k) \<and> (\<forall>u. upper = Some u \<longrightarrow> k < u)"
    if "k \<in> set ks" for k
  proof -
    from that obtain i where i: "i \<in> set [1..<count + 1]" "k = key_of_value (f i)" by (auto simp: ks)
    then have "lower_bound lower < unat (f i) + 1" "unat (f i) + 1 < upper_bound upper"
      using coordinate_bounds [OF room(3,2), of i] f [OF i(1)] by auto
    then show ?thesis
      by (auto simp: i(2) key_less_iff word_less_nat_alt lower_bound_def upper_bound_def)
  qed
  ultimately show ?thesis by (simp add: ks)
qed

text \<open>
  Allocating \<open>count\<close> sibling keys between two anchors: when \<open>between\<close> answers, it gives
  exactly \<open>count\<close> keys, strictly ascending and strictly inside the anchors.
\<close>

theorem keys_between_sound:
  assumes "keys_between lower upper count = Some ks"
  shows "length ks = count \<and> sorted_wrt (<) ks \<and>
    (\<forall>k \<in> set ks. (\<forall>l. lower = Some l \<longrightarrow> l < k) \<and> (\<forall>u. upper = Some u \<longrightarrow> k < u))"
  using assms by (rule keys_between_ascend)

theorem keys_between_sound_witness:
  "keys_between (Some (key_of_value 10)) (Some (key_of_value 14)) 2 =
     Some [key_of_value 11, key_of_value 12] \<and>
   length [key_of_value 11, key_of_value 12] = 2"
proof -
  have k: "keys_between (Some (key_of_value 10)) (Some (key_of_value 14)) 2 =
      Some [key_of_value 11, key_of_value 12]"
    by (simp add: keys_between_def lower_bound_def upper_bound_def upt_rec)
  then show ?thesis using keys_between_sound [OF k] by simp
qed

text \<open>
  \<open>between\<close> refuses exactly when fewer than \<open>count\<close> keys exist strictly between the
  anchors, so a caller rebalances a sibling group only when it has to.
\<close>

theorem keys_between_refuses_iff_full:
  "(keys_between lower upper count = None) =
     (card {v :: 64 word. (\<forall>l. lower = Some l \<longrightarrow> key_value l < v) \<and>
                          (\<forall>u. upper = Some u \<longrightarrow> v < key_value u)} < count)"
  by (auto simp: card_between keys_between_None_iff)

theorem keys_between_refuses_iff_full_witness:
  "keys_between (Some (key_of_value 10)) (Some (key_of_value 11)) 1 = None"
proof -
  have "{v :: 64 word. (\<forall>l. Some (key_of_value 10) = Some l \<longrightarrow> key_value l < v) \<and>
                       (\<forall>u. Some (key_of_value 11) = Some u \<longrightarrow> v < key_value u)} = {}"
    by (auto simp: word_less_nat_alt)
  then show ?thesis
    using keys_between_refuses_iff_full [of "Some (key_of_value 10)" "Some (key_of_value 11)" 1] by simp
qed

text \<open>
  The \<open>u128\<close> products of \<open>between\<close> cannot overflow, even for the largest \<open>usize\<close> count,
  and the subtraction of the virtual bound cannot underflow.
\<close>

theorem keys_between_no_overflow:
  assumes "index \<le> count" and "count < 2 ^ 64"
  shows "(upper_bound upper - lower_bound lower) * index < 2 ^ 128"
proof -
  have "(upper_bound upper - lower_bound lower) * index \<le> (2 ^ 64 + 1) * (2 ^ 64 - 1)"
    using upper_bound_le [of upper] assms by (intro mult_le_mono) auto
  then show ?thesis by simp
qed

theorem keys_between_no_overflow_witness:
  "(upper_bound None - lower_bound None) * (2 ^ 64 - 1) < 2 ^ 128"
  by (rule keys_between_no_overflow [of _ "2 ^ 64 - 1"]) simp_all

text \<open>
  The \<open>expect\<close> in \<open>OrderKey::value\<close> never fires, and the text of a key and its value
  determine each other in order: comparing stored keys compares their values.
\<close>

theorem order_key_text_is_value:
  "(\<exists>v. key_value_checked k = Some v \<and> key_of_value v = k) \<and>
   (key_text k < key_text k' \<longleftrightarrow> key_value k < key_value k')"
  using key_of_value_checked key_less_iff by (simp add: less_order_key_def)

text \<open>
  A block style survives storage and the wire: \<open>FromStr\<close> inverts \<open>storage_value\<close>, the
  strict deserializer inverts the serialized shape, and no other wire object is accepted.
\<close>

theorem block_style_roundtrip:
  "block_style_of (storage_value st) = Inr st \<and>
   (block_style_of_wire w = Inr st \<longleftrightarrow> w = wire_of_block_style st)"
proof
  show "block_style_of (storage_value st) = Inr st"
    by (cases st rule: storage_value.cases) (simp_all add: block_style_of_def)
  have "block_style_of_wire (wire_of_block_style st) = Inr st"
    by (cases st rule: storage_value.cases) (simp_all add: block_style_of_wire_def)
  moreover have "w = wire_of_block_style st" if "block_style_of_wire w = Inr st"
    using that
    by (cases w) (auto simp: block_style_of_wire_def Let_def split: if_splits state_field.splits option.splits)
  ultimately show "block_style_of_wire w = Inr st \<longleftrightarrow> w = wire_of_block_style st" by auto
qed

text \<open>The three identity columns written for a page kind read back as that kind.\<close>

theorem page_kind_columns_roundtrip: "page_kind_of_columns (page_kind_columns kind) = Some kind"
  by (cases kind) (auto simp: page_kind_of_columns_def page_kind_from_sql_def)

text \<open>The revision of any 32-byte digest is canonical: the strict parser accepts it unchanged.\<close>

theorem document_revision_roundtrip:
  assumes "length bytes = 32"
  shows "document_revision_of (revision_of_digest bytes) = Inr (revision_of_digest bytes)"
  using assms by (simp add: document_revision_of_def length_revision list_all_revision)

theorem document_revision_roundtrip_witness:
  "document_revision_of (revision_of_digest (replicate 32 0xA7)) =
     Inr (revision_of_digest (replicate 32 0xA7))"
  by (rule document_revision_roundtrip) simp

end
