(* ===== verification/Store.thy ===== *)
theory Store
  imports Model
begin

text \<open>
  The data that the apply boundary reads and writes: the error type of
  \<open>crates/notes-core/src/error.rs\<close>, the operations of \<open>operation.rs\<close>, the tables of
  \<open>db/migrations/*.sql\<close> as records over sorted tables, and the row deletions whose
  foreign-key actions the schema adds to a plain \<open>DELETE\<close>.

  An HLC column holds the text of a clock and the code compares that text; here the column
  holds the clock. That the text has the order of the clock and parses back to it (both in
  \<open>Hlc\<close>) is what makes the two the same. In the same way a style,
  a layout, an order key and a page identity are the typed value of their column, and a server
  sequence number is the \<open>u64\<close> that was checked to fit the column before it was stored.
\<close>

section \<open>Errors\<close>

text \<open>
  \<open>CoreError\<close>. A formatted message is its format string; the arguments are those of the
  operation that failed. \<open>Database\<close> is a violated constraint of the schema.
\<close>

datatype core_error =
    InvalidInput string
  | NotFound string
  | Conflict string
  | SyncConflict string
  | SyncSequenceGap (gap_expected: "64 word") (gap_received: "64 word")
  | Database
  | InkStorage string

section \<open>Operations\<close>

type_synonym blob_hash = "256 word"  \<comment> \<open>\<open>BlobHash([u8; 32])\<close>, most significant byte first\<close>
type_synonym ink_id = "128 word"     \<comment> \<open>\<open>ink_format::Id\<close>\<close>

record publish =
  version_uuid :: uuid
  page_uuid :: uuid
  parents :: "uuid list"
  root_hash :: blob_hash
  device_name :: string

record page_create =
  pc_uuid :: uuid
  pc_kind :: page_kind
  pc_title :: "string option"
  pc_layout :: page_layout
  pc_created_at :: int

record page_alias_set =
  pa_uuid :: uuid
  pa_alias :: string
  pa_present :: bool

record page_set_title =
  pt_uuid :: uuid
  pt_title :: "string option"

record page_set_layout =
  pl_uuid :: uuid
  pl_layout :: page_layout

record page_delete =
  pd_uuid :: uuid

record block_create =
  bc_uuid :: uuid
  bc_page_uuid :: uuid
  bc_parent_uuid :: "uuid option"
  bc_order_key :: order_key
  bc_style :: block_style
  bc_markdown :: string
  bc_created_at :: int

record block_set_markdown =
  bm_uuid :: uuid
  bm_markdown :: string

record block_set_style =
  bs_uuid :: uuid
  bs_style :: block_style

record block_move =
  bv_uuid :: uuid
  bv_page_uuid :: uuid
  bv_parent_uuid :: "uuid option"
  bv_order_key :: order_key

record block_delete =
  bd_uuid :: uuid
  bd_page_uuid :: uuid

record attachment_add =
  aa_owner :: attachment_owner
  aa_blob_hash :: blob_hash
  aa_filename :: string
  aa_mime :: string
  aa_size :: "64 word"

record attachment_remove =
  ar_owner :: attachment_owner
  ar_blob_hash :: blob_hash

datatype op_kind =
    InkPublish publish
  | PageCreate page_create
  | PageAliasSet page_alias_set
  | PageSetTitle page_set_title
  | PageSetLayout page_set_layout
  | PageDelete page_delete
  | BlockCreate block_create
  | BlockSetMarkdown block_set_markdown
  | BlockSetStyle block_set_style
  | BlockMove block_move
  | BlockDelete block_delete
  | AttachmentAdd attachment_add
  | AttachmentRemove attachment_remove

record op =
  op_id :: uuid
  op_workspace :: uuid
  op_device :: uuid
  op_hlc :: hlc
  op_format :: "32 word"
  op_kind :: op_kind

definition format_version :: "32 word" where
  "format_version = 7"

definition persisted_envelope_version :: "32 word" where
  "persisted_envelope_version = 2"

text \<open>
  The durable envelope: \<open>serde\<close> reads an object with the two tagged fields as \<open>Versioned\<close> and
  anything else that is a bare payload as \<open>Legacy\<close>.
\<close>

datatype 'a persisted_envelope = Versioned "32 word" 'a | Legacy 'a

definition encode_persisted_envelope :: "'a \<Rightarrow> 'a persisted_envelope" where
  "encode_persisted_envelope payload = Versioned persisted_envelope_version payload"

fun decode_persisted_envelope :: "'a persisted_envelope \<Rightarrow> string + 'a" where
  "decode_persisted_envelope (Legacy payload) = Inr payload"
| "decode_persisted_envelope (Versioned version payload) =
     (if version = persisted_envelope_version then Inr payload
      else Inl ''unsupported persisted envelope format version'')"

lemma decode_encode_envelope [simp]: "decode_persisted_envelope (encode_persisted_envelope x) = Inr x"
  by (simp add: encode_persisted_envelope_def)

section \<open>Attachment owners in the order of their columns\<close>

text \<open>
  \<open>ORDER BY owner_kind, owner_uuid\<close>: the owner's kind is compared as text.
\<close>

fun owner_key :: "attachment_owner \<Rightarrow> string \<times> uuid" where
  "owner_key a = (object_kind_str (owner_kind a), owner_uuid a)"

lemma owner_key_inj: "owner_key a = owner_key b \<Longrightarrow> a = b"
  by (cases a; cases b) auto

instantiation attachment_owner :: linorder
begin

definition less_eq_attachment_owner :: "attachment_owner \<Rightarrow> attachment_owner \<Rightarrow> bool" where
  "a \<le> b \<longleftrightarrow> owner_key a \<le> owner_key b"

definition less_attachment_owner :: "attachment_owner \<Rightarrow> attachment_owner \<Rightarrow> bool" where
  "a < b \<longleftrightarrow> owner_key a < owner_key b"

instance
proof
  fix x y z :: attachment_owner
  show "x < y \<longleftrightarrow> x \<le> y \<and> \<not> y \<le> x"
    unfolding less_eq_attachment_owner_def less_attachment_owner_def by (rule less_le_not_le)
  show "x \<le> x"
    unfolding less_eq_attachment_owner_def by (rule order_refl)
  show "x \<le> z" if "x \<le> y" and "y \<le> z"
    using that unfolding less_eq_attachment_owner_def by (rule order_trans)
  show "x = y" if "x \<le> y" and "y \<le> x"
    using that unfolding less_eq_attachment_owner_def by (intro owner_key_inj antisym)
  show "x \<le> y \<or> y \<le> x"
    unfolding less_eq_attachment_owner_def by (rule linear)
qed

end

section \<open>Rows\<close>

record page_row =
  p_title :: "string option"
  p_normalized :: "string option"
  p_title_stemmed :: string
  p_layout :: page_layout
  p_title_hlc :: "hlc option"
  p_layout_hlc :: "hlc option"
  p_existence :: hlc
  p_created :: int
  p_updated :: int

record block_row =
  b_page :: uuid
  b_parent :: "uuid option"
  b_order :: order_key
  b_style :: block_style
  b_markdown :: string
  b_stemmed :: string
  b_markdown_hlc :: "hlc option"
  b_style_hlc :: "hlc option"
  b_structure_hlc :: "hlc option"
  b_existence :: hlc
  b_created :: int
  b_updated :: int

record alias_row =
  al_hlc :: hlc
  al_present :: bool

record tombstone_row =
  t_kind :: object_kind
  t_hlc :: hlc
  t_root :: "uuid option"

text \<open>\<open>StructureIntent\<close>, a row of \<open>block_structure_lww\<close>.\<close>

record intent =
  i_page :: uuid
  i_parent :: "uuid option"
  i_order :: order_key
  i_hlc :: hlc

record attachment_lww_row =
  w_uuid :: uuid
  w_hlc :: hlc
  w_present :: bool
  w_filename :: "string option"
  w_mime :: "string option"
  w_size :: "int option"

record attachment_row =
  a_owner :: attachment_owner
  a_hash :: blob_hash
  a_filename :: string
  a_mime :: string
  a_size :: int
  a_created :: int

record outbox_row =
  o_op_id :: uuid
  o_envelope :: "op persisted_envelope"
  o_created :: int
  o_quarantined :: "int option"
  o_reason :: "string option"

record ink_version_row =
  v_page :: uuid
  v_root_hash :: blob_hash
  v_root :: "ink_id option"
  v_device_name :: string
  v_device :: uuid
  v_hlc :: hlc

record ink_document_row =
  d_root :: "ink_id option"
  d_revision :: "string option"
  d_cursor :: int
  d_dirty :: bool
  d_editing :: bool
  d_publication_requested :: bool
  d_base :: "uuid option"

datatype replica_role = Client | Server

datatype ink_ref_kind = RecordRef | ChunkRef

text \<open>
  The tables of the handwriting store that the apply boundary touches. Immutable records and
  chunks are named by their identifier; a record has the digest of its bytes.
\<close>

record ink_tables =
  ink_records :: "(ink_id, blob_hash) table"
  ink_chunks :: "(ink_id, blob_hash) table"
  ink_documents :: "(uuid, ink_document_row) table"
  ink_history :: "(uuid \<times> int, ink_id) table"
  ink_sealed :: "(ink_id, unit) table"
  ink_record_refs :: "(ink_id \<times> ink_id, unit) table"
  ink_chunk_refs :: "(ink_id \<times> ink_id, unit) table"
  ink_versions :: "(uuid, ink_version_row) table"
  ink_parents :: "(uuid \<times> uuid, unit) table"
  ink_staged :: "(blob_hash, ink_id) table"
  ink_outbox_roots :: "(uuid, blob_hash \<times> ink_id option) table"
  history_ink_roots :: "((uuid \<times> uuid) \<times> ink_id, unit) table"

record db =
  workspace :: uuid
  identities :: "(uuid, page_kind) table"
  pages :: "(uuid, page_row) table"
  journal_pages :: "(uuid, string) table"
  aliases :: "(uuid \<times> string, alias_row) table"
  blocks :: "(uuid, block_row) table"
  tombstones :: "(uuid, tombstone_row) table"
  intents :: "(uuid, intent) table"
  attachment_lww :: "(attachment_owner \<times> blob_hash, attachment_lww_row) table"
  attachments :: "(uuid, attachment_row) table"
  page_links :: "(uuid \<times> string, uuid option \<times> int) table"
  block_refs :: "(uuid \<times> uuid, int) table"
  outbox :: "outbox_row list"
  applied_ops :: "(uuid, 64 word option) table"
  last_hlc :: "hlc option"
  last_server_seq :: "64 word option"
  server_url :: "string option"
  stored_role :: "replica_role option"
  bound_workspace :: "uuid option"
  local_device :: "uuid option"
  structure_version :: int
  ink :: ink_tables

definition empty_ink :: ink_tables where
  "empty_ink =
     \<lparr>ink_records = tempty, ink_chunks = tempty, ink_documents = tempty, ink_history = tempty,
      ink_sealed = tempty, ink_record_refs = tempty, ink_chunk_refs = tempty, ink_versions = tempty,
      ink_parents = tempty, ink_staged = tempty, ink_outbox_roots = tempty, history_ink_roots = tempty\<rparr>"

text \<open>A freshly migrated database.\<close>

definition empty_db :: "uuid \<Rightarrow> db" where
  "empty_db w =
     \<lparr>workspace = w, identities = tempty, pages = tempty, journal_pages = tempty, aliases = tempty,
      blocks = tempty, tombstones = tempty, intents = tempty, attachment_lww = tempty,
      attachments = tempty, page_links = tempty, block_refs = tempty, outbox = [],
      applied_ops = tempty, last_hlc = None, last_server_seq = None, server_url = None,
      stored_role = None, bound_workspace = None, local_device = None, structure_version = 0,
      ink = empty_ink\<rparr>"

section \<open>Deletions with their foreign-key actions\<close>

text \<open>
  \<open>DELETE FROM blocks WHERE uuid = ?\<close>: children keep their row with \<open>parent_uuid\<close> set to
  \<open>NULL\<close>; the references out of the block and its materialized attachments go.
\<close>

definition delete_block :: "uuid \<Rightarrow> db \<Rightarrow> db" where
  "delete_block u d = d\<lparr>
     blocks := mapv (\<lambda>_ r. if b_parent r = Some u then r\<lparr>b_parent := None\<rparr> else r) (del u (blocks d)),
     page_links := filt (\<lambda>(s, _) _. s \<noteq> u) (page_links d),
     block_refs := filt (\<lambda>(s, _) _. s \<noteq> u) (block_refs d),
     attachments := filt (\<lambda>_ a. a_owner a \<noteq> BlockOwner u) (attachments d)\<rparr>"

text \<open>
  \<open>DELETE FROM pages WHERE uuid = ?\<close>: the blocks placed on the page go, each as above, with
  the journal row and the page's attachments; links to the page lose their target.
\<close>

definition delete_page :: "uuid \<Rightarrow> db \<Rightarrow> db" where
  "delete_page u d =
     (let gone = (\<lambda>b. case get (blocks d) b of Some r \<Rightarrow> b_page r = u | None \<Rightarrow> False) in
      d\<lparr>pages := del u (pages d),
        journal_pages := del u (journal_pages d),
        blocks := mapv (\<lambda>_ r. case b_parent r of
                                Some p \<Rightarrow> if gone p then r\<lparr>b_parent := None\<rparr> else r
                              | None \<Rightarrow> r)
                    (filt (\<lambda>_ r. b_page r \<noteq> u) (blocks d)),
        page_links := mapv (\<lambda>_ (target, at). (if target = Some u then None else target, at))
                        (filt (\<lambda>(s, _) _. \<not> gone s) (page_links d)),
        block_refs := filt (\<lambda>(s, _) _. \<not> gone s) (block_refs d),
        attachments := filt (\<lambda>_ a. case a_owner a of
                                     PageOwner p \<Rightarrow> p \<noteq> u
                                   | BlockOwner b \<Rightarrow> \<not> gone b) (attachments d)\<rparr>)"

end
