(* ===== verification/Lww.thy ===== *)
theory Lww
  imports Store
begin

text \<open>
  Last-writer-wins rows. Four tables of the replica are written by the same statement,
  \<open>INSERT .. ON CONFLICT DO UPDATE .. WHERE table.hlc < excluded.hlc\<close>: explicit aliases,
  placement intents, tombstones and attachment intents. The locale states what such a table
  promises and proves once that writes commute, repeat harmlessly and therefore converge; it is
  interpreted on the four writers of \<open>operation.rs\<close>.
\<close>

section \<open>The contract\<close>

locale lww_rows =
  fixes look :: "'s \<Rightarrow> 'k \<Rightarrow> 'v option"
    and put_newer :: "'k \<Rightarrow> 'v \<Rightarrow> 's \<Rightarrow> 's"
    and clock :: "'v \<Rightarrow> 'c::linorder"
  assumes read_write: "look (put_newer k v s) k' =
      (if k' = k
       then (case look s k of None \<Rightarrow> Some v | Some w \<Rightarrow> if clock w < clock v then Some v else Some w)
       else look s k')"
    and extensional: "(\<And>k. look s k = look t k) \<Longrightarrow> s = t"
begin

text \<open>Two writes of one row with one clock carry the same value: clocks identify operations.\<close>

definition unambiguous :: "('k \<times> 'v) set \<Rightarrow> bool" where
  "unambiguous W \<longleftrightarrow>
     (\<forall>k v v'. (k, v) \<in> W \<longrightarrow> (k, v') \<in> W \<longrightarrow> clock v = clock v' \<longrightarrow> v = v')"

lemma write_idem: "put_newer k v (put_newer k v s) = put_newer k v s"
  by (rule extensional) (auto simp: read_write split: option.splits)

lemma write_commute:
  assumes "k = k' \<Longrightarrow> clock v = clock v' \<Longrightarrow> v = v'"
  shows "put_newer k v (put_newer k' v' s) = put_newer k' v' (put_newer k v s)"
proof (rule extensional)
  fix j
  show "look (put_newer k v (put_newer k' v' s)) j = look (put_newer k' v' (put_newer k v s)) j"
  proof (cases "k = k' \<and> j = k")
    case True
    consider "clock v < clock v'" | "clock v = clock v'" "v = v'" | "clock v' < clock v"
      using assms True by fastforce
    then show ?thesis using True by cases (auto simp: read_write split: option.split)
  next
    case False
    then show ?thesis by (cases "j = k"; cases "j = k'") (simp_all add: read_write)
  qed
qed

lemma write_older: "look s k = Some w \<Longrightarrow> clock v \<le> clock w \<Longrightarrow> put_newer k v s = s"
  by (rule extensional) (auto simp: read_write)

lemma clock_grows:
  "look s k = Some w \<Longrightarrow> \<exists>w'. look (put_newer k' v s) k = Some w' \<and> clock w \<le> clock w'"
  by (auto simp: read_write)

lemma writes_converge:
  assumes "unambiguous (set ws)" and "set ws = set ws'"
  shows "fold (\<lambda>(k, v). put_newer k v) ws s = fold (\<lambda>(k, v). put_newer k v) ws' s"
proof -
  let ?f = "\<lambda>(k, v). put_newer k v"
  have "comp_fun_idem_on (set ws) ?f"
  proof
    show "?f y \<circ> ?f x = ?f x \<circ> ?f y" if "x \<in> set ws" "y \<in> set ws" for x y
    proof
      fix s
      have "fst y = fst x \<Longrightarrow> clock (snd y) = clock (snd x) \<Longrightarrow> snd y = snd x"
        using assms(1) that unfolding unambiguous_def by (metis prod.collapse)
      then show "(?f y \<circ> ?f x) s = (?f x \<circ> ?f y) s"
        using write_commute [of "fst y" "fst x" "snd y" "snd x" s] by (simp add: case_prod_beta)
    qed
    show "?f x \<circ> ?f x = ?f x" for x
      by (auto simp: fun_eq_iff case_prod_beta write_idem)
  qed
  note fold = comp_fun_idem_on.fold_set_fold [OF this]
  have "fold ?f ws s = Finite_Set.fold ?f s (set ws)" by (rule fold [symmetric]) simp
  also have "\<dots> = Finite_Set.fold ?f s (set ws')" by (simp only: assms(2))
  also have "\<dots> = fold ?f ws' s" by (rule fold) (simp add: assms(2))
  finally show ?thesis .
qed

end

section \<open>The statement\<close>

definition upsert_newer :: "('v \<Rightarrow> hlc) \<Rightarrow> 'k::linorder \<Rightarrow> 'v \<Rightarrow> ('k, 'v) table \<Rightarrow> ('k, 'v) table" where
  "upsert_newer clock k v t =
     (case get t k of
        None \<Rightarrow> put k v t
      | Some w \<Rightarrow> if clock w < clock v then put k v t else t)"

lemma get_upsert_newer [tbl]:
  "get (upsert_newer clock k v t) k' =
     (if k' = k
      then (case get t k of None \<Rightarrow> Some v | Some w \<Rightarrow> if clock w < clock v then Some v else Some w)
      else get t k')"
  by (auto simp: upsert_newer_def split: option.split)

lemma has_upsert_newer [simp, tbl]: "has (upsert_newer clock k v t) k' \<longleftrightarrow> k' = k \<or> has t k'"
  by (auto simp: upsert_newer_def has_def split: option.split)

definition write_structure_intent :: "uuid \<Rightarrow> uuid \<Rightarrow> uuid option \<Rightarrow> order_key \<Rightarrow> hlc \<Rightarrow> db \<Rightarrow> db" where
  "write_structure_intent block page parent key t d =
     d\<lparr>intents := upsert_newer i_hlc block
        \<lparr>i_page = page, i_parent = parent, i_order = key, i_hlc = t\<rparr> (intents d)\<rparr>"

definition write_tombstone :: "uuid \<Rightarrow> object_kind \<Rightarrow> uuid option \<Rightarrow> hlc \<Rightarrow> db \<Rightarrow> db" where
  "write_tombstone u kind root t d =
     d\<lparr>tombstones := upsert_newer t_hlc u \<lparr>t_kind = kind, t_hlc = t, t_root = root\<rparr> (tombstones d)\<rparr>"

definition write_alias :: "uuid \<Rightarrow> string \<Rightarrow> hlc \<Rightarrow> bool \<Rightarrow> db \<Rightarrow> db" where
  "write_alias page alias t present d =
     d\<lparr>aliases := upsert_newer al_hlc (page, alias) \<lparr>al_hlc = t, al_present = present\<rparr> (aliases d)\<rparr>"

record snapshot_attachment =
  sa_owner :: attachment_owner
  sa_blob_hash :: blob_hash
  sa_uuid :: uuid
  sa_hlc :: hlc
  sa_present :: bool
  sa_filename :: "string option"
  sa_mime :: "string option"
  sa_size :: "64 word option"

text \<open>\<open>i64::try_from(size).ok()\<close>.\<close>

definition i64_of_u64 :: "64 word \<Rightarrow> int option" where
  "i64_of_u64 w = (if uint w \<le> i64_max then Some (uint w) else None)"

definition attachment_lww_of :: "snapshot_attachment \<Rightarrow> attachment_lww_row" where
  "attachment_lww_of a =
     \<lparr>w_uuid = sa_uuid a, w_hlc = sa_hlc a, w_present = sa_present a, w_filename = sa_filename a,
      w_mime = sa_mime a, w_size = Option.bind (sa_size a) i64_of_u64\<rparr>"

definition write_attachment_intent :: "snapshot_attachment \<Rightarrow> db \<Rightarrow> db" where
  "write_attachment_intent a d =
     d\<lparr>attachment_lww := upsert_newer w_hlc (sa_owner a, sa_blob_hash a) (attachment_lww_of a)
        (attachment_lww d)\<rparr>"

section \<open>The four tables keep the contract\<close>

interpretation structure_rows: lww_rows "get :: (uuid, intent) table \<Rightarrow> _" "upsert_newer i_hlc" i_hlc
  by unfold_locales (auto simp: get_upsert_newer intro: table_eqI)

interpretation tombstone_rows: lww_rows "get :: (uuid, tombstone_row) table \<Rightarrow> _" "upsert_newer t_hlc" t_hlc
  by unfold_locales (auto simp: get_upsert_newer intro: table_eqI)

interpretation alias_rows: lww_rows "get :: (uuid \<times> string, alias_row) table \<Rightarrow> _" "upsert_newer al_hlc" al_hlc
  by unfold_locales (auto simp: get_upsert_newer intro: table_eqI)

interpretation attachment_rows: lww_rows "get :: (attachment_owner \<times> blob_hash, attachment_lww_row) table \<Rightarrow> _" "upsert_newer w_hlc" w_hlc
  by unfold_locales (auto simp: get_upsert_newer intro: table_eqI)

lemma unambiguous_iff:
  "structure_rows.unambiguous W \<longleftrightarrow>
     (\<forall>k v v'. (k, v) \<in> W \<longrightarrow> (k, v') \<in> W \<longrightarrow> i_hlc v = i_hlc v' \<longrightarrow> v = v')"
  by (rule structure_rows.unambiguous_def)

lemma row_eta [simp]:
  "\<lparr>i_page = i_page i, i_parent = i_parent i, i_order = i_order i, i_hlc = i_hlc i\<rparr> = (i :: intent)"
  "\<lparr>t_kind = t_kind r, t_hlc = t_hlc r, t_root = t_root r\<rparr> = (r :: tombstone_row)"
  by simp_all

lemma fold_write_intents:
  "fold (\<lambda>(u, i). write_structure_intent u (i_page i) (i_parent i) (i_order i) (i_hlc i)) ws d =
     d\<lparr>intents := fold (\<lambda>(u, i). upsert_newer i_hlc u i) ws (intents d)\<rparr>"
  by (induction ws arbitrary: d) (auto simp: write_structure_intent_def)

text \<open>
  Placement intents converge: replicas that have seen the same moves, in any order and with
  any repetition, hold the same intents.
\<close>

theorem structure_intents_converge:
  fixes ws ws' :: "(uuid \<times> intent) list"
  assumes "\<forall>k v v'. (k, v) \<in> set ws \<longrightarrow> (k, v') \<in> set ws \<longrightarrow> i_hlc v = i_hlc v' \<longrightarrow> v = v'"
    and "set ws = set ws'"
  shows "fold (\<lambda>(u, i). write_structure_intent u (i_page i) (i_parent i) (i_order i) (i_hlc i)) ws d =
         fold (\<lambda>(u, i). write_structure_intent u (i_page i) (i_parent i) (i_order i) (i_hlc i)) ws' d"
  unfolding fold_write_intents
  using structure_rows.writes_converge [OF _ assms(2), of "intents d"] assms(1)
  by (simp add: unambiguous_iff)

definition sample_moves :: "(uuid \<times> intent) list" where
  "sample_moves =
     [(1, \<lparr>i_page = 9, i_parent = None, i_order = first_key, i_hlc = Hlc 5 0 1\<rparr>),
      (1, \<lparr>i_page = 9, i_parent = Some 2, i_order = first_key, i_hlc = Hlc 6 0 2\<rparr>)]"

theorem structure_intents_converge_witness:
  "fold (\<lambda>(u, i). write_structure_intent u (i_page i) (i_parent i) (i_order i) (i_hlc i)) sample_moves (empty_db 7) =
   fold (\<lambda>(u, i). write_structure_intent u (i_page i) (i_parent i) (i_order i) (i_hlc i))
     (rev sample_moves @ sample_moves) (empty_db 7)"
  by (rule structure_intents_converge) (auto simp: sample_moves_def)

lemma fold_write_tombstones:
  "fold (\<lambda>(u, r). write_tombstone u (t_kind r) (t_root r) (t_hlc r)) ws d =
     d\<lparr>tombstones := fold (\<lambda>(u, r). upsert_newer t_hlc u r) ws (tombstones d)\<rparr>"
  by (induction ws arbitrary: d) (auto simp: write_tombstone_def)

text \<open>
  Tombstones converge in the same way, so replicas agree on what was deleted and when.
\<close>

theorem tombstones_converge:
  fixes ws ws' :: "(uuid \<times> tombstone_row) list"
  assumes "\<forall>k v v'. (k, v) \<in> set ws \<longrightarrow> (k, v') \<in> set ws \<longrightarrow> t_hlc v = t_hlc v' \<longrightarrow> v = v'"
    and "set ws = set ws'"
  shows "fold (\<lambda>(u, r). write_tombstone u (t_kind r) (t_root r) (t_hlc r)) ws d =
         fold (\<lambda>(u, r). write_tombstone u (t_kind r) (t_root r) (t_hlc r)) ws' d"
  unfolding fold_write_tombstones
  using tombstone_rows.writes_converge [OF _ assms(2), of "tombstones d"] assms(1)
  by (simp add: tombstone_rows.unambiguous_def)

definition sample_deletes :: "(uuid \<times> tombstone_row) list" where
  "sample_deletes =
     [(1, \<lparr>t_kind = BlockObject, t_hlc = Hlc 5 0 1, t_root = Some 9\<rparr>),
      (2, \<lparr>t_kind = BlockObject, t_hlc = Hlc 5 0 1, t_root = Some 9\<rparr>),
      (1, \<lparr>t_kind = BlockObject, t_hlc = Hlc 6 0 2, t_root = Some 8\<rparr>)]"

theorem tombstones_converge_witness:
  "fold (\<lambda>(u, r). write_tombstone u (t_kind r) (t_root r) (t_hlc r)) sample_deletes (empty_db 7) =
   fold (\<lambda>(u, r). write_tombstone u (t_kind r) (t_root r) (t_hlc r)) (rev sample_deletes) (empty_db 7)"
  by (rule tombstones_converge) (auto simp: sample_deletes_def)

end
