(* ===== verification/Structure.thy ===== *)
theory Structure
  imports Store
begin

text \<open>
  The structural resolver of \<open>crates/notes-core/src/operation.rs\<close>: the forest of blocks is
  recomputed from the raw placement intents. An intent whose destination page is not live is
  ignored, a parent that is missing, on another page or newer than the intent is dropped, and
  every remaining parent cycle is cut at its latest intent. The code walks \<open>HashMap\<close>s, whose
  order it does not control: the order is the argument \<open>starts\<close>, and the theorems show that
  the result does not depend on it.
\<close>

section \<open>Rows read by the resolver\<close>

text \<open>\<open>StructureRow\<close>: what the \<open>blocks\<close> row currently says.\<close>

record structure_row =
  s_existence :: hlc
  s_page :: uuid
  s_parent :: "uuid option"
  s_order :: order_key
  s_hlc :: "hlc option"
  s_updated :: int

record structure_input =
  in_blocks :: "(uuid, structure_row) table"
  in_pages :: "(uuid, unit) table"
  in_intents :: "(uuid, intent) table"

section \<open>Breaking cycles\<close>

fun index_of :: "'a \<Rightarrow> 'a list \<Rightarrow> nat option" where
  "index_of x [] = None"
| "index_of x (y # ys) = (if x = y then Some 0 else map_option Suc (index_of x ys))"

text \<open>\<open>Iterator::max_by_key\<close>: the last of the greatest elements, \<open>None\<close> on no element.\<close>

fun max_by_key :: "('a \<Rightarrow> 'k::linorder) \<Rightarrow> 'a list \<Rightarrow> 'a option" where
  "max_by_key key [] = None"
| "max_by_key key (x # xs) =
     (case max_by_key key xs of
        None \<Rightarrow> Some x
      | Some y \<Rightarrow> if key y < key x then Some x else Some y)"

definition parent_of :: "(uuid, intent) table \<Rightarrow> uuid \<Rightarrow> uuid option" where
  "parent_of I u = (case get I u of None \<Rightarrow> None | Some i \<Rightarrow> i_parent i)"

text \<open>
  The inner \<open>while let\<close>: follow parents from \<open>cursor\<close> until the chain ends, meets a proven
  block, or returns to its own \<open>path\<close>. The \<open>positions\<close> map is the position in \<open>path\<close>.
\<close>

function walk :: "(uuid, unit) table \<Rightarrow> (uuid, intent) table \<Rightarrow> uuid list \<Rightarrow> uuid option
                   \<Rightarrow> uuid list \<times> nat option" where
  "walk proven I path None = (path, None)"
| "walk proven I path (Some u) =
     (if has proven u then (path, None)
      else case index_of u path of
             Some i \<Rightarrow> (path, Some i)
           | None \<Rightarrow> walk proven I (path @ [u]) (parent_of I u))"
  by pat_completeness auto

lemma index_of_None: "index_of x xs = None \<longleftrightarrow> x \<notin> set xs"
  by (induction xs) auto

lemma index_of_Some: "index_of x xs = Some i \<Longrightarrow> i < length xs \<and> xs ! i = x"
  by (induction xs arbitrary: i) (auto split: if_splits)

definition walk_measure :: "(uuid, intent) table \<Rightarrow> uuid list \<Rightarrow> uuid option \<Rightarrow> nat" where
  "walk_measure I path cursor =
     2 * card ({u. has I u} - set path) + (case cursor of None \<Rightarrow> 0 | Some _ \<Rightarrow> 1)"

lemma walk_measure_decreases:
  assumes "u \<notin> set path"
  shows "walk_measure I (path @ [u]) (parent_of I u) < walk_measure I path (Some u)"
proof (cases "has I u")
  case True
  have fin: "finite ({v. has I v} - set path)" by (simp add: finite_has)
  have eq: "{v. has I v} - set (path @ [u]) = {v. has I v} - set path - {u}" by auto
  have "card ({v. has I v} - set (path @ [u])) < card ({v. has I v} - set path)"
    unfolding eq using fin True assms by (intro card_Diff1_less) auto
  then show ?thesis by (simp add: walk_measure_def split: option.split)
next
  case False
  then have "parent_of I u = None" by (simp add: parent_of_def has_def)
  moreover have "{v. has I v} - set (path @ [u]) = {v. has I v} - set path" using False by auto
  ultimately show ?thesis by (simp add: walk_measure_def)
qed

termination walk
  by (relation "measure (\<lambda>(_, I, path, cursor). walk_measure I path cursor)")
    (auto simp: index_of_None intro: walk_measure_decreases)

text \<open>The key of \<open>max_by_key\<close>; every cycle member has an intent.\<close>

definition detach_key :: "(uuid, intent) table \<Rightarrow> uuid \<Rightarrow> hlc option \<times> uuid" where
  "detach_key I u = (map_option i_hlc (get I u), u)"

definition break_from :: "uuid \<Rightarrow> (uuid, unit) table \<times> (uuid, intent) table
                           \<Rightarrow> (uuid, unit) table \<times> (uuid, intent) table" where
  "break_from start st =
     (case st of (proven, I) \<Rightarrow>
        if has proven start then (proven, I)
        else case walk proven I [] (Some start) of
          (path, cycle_start) \<Rightarrow>
            (fold (\<lambda>u. put u ()) path proven,
             case cycle_start of
               None \<Rightarrow> I
             | Some index \<Rightarrow>
                 (case max_by_key (detach_key I) (drop index path) of
                    None \<Rightarrow> I
                  | Some detach \<Rightarrow> upd detach (\<lambda>i. i\<lparr>i_parent := None\<rparr>) I)))"

definition break_structure_cycles :: "uuid list \<Rightarrow> (uuid, intent) table \<Rightarrow> (uuid, intent) table" where
  "break_structure_cycles starts I = snd (fold break_from starts (tempty, I))"

section \<open>Resolving\<close>

definition retain_usable :: "structure_input \<Rightarrow> (uuid, intent) table" where
  "retain_usable inp =
     filt (\<lambda>u i. has (in_blocks inp) u \<and> has (in_pages inp) (i_page i)) (in_intents inp)"

text \<open>Whether the second loop of \<open>resolve_structure\<close> drops the intent's parent.\<close>

definition parent_rejected :: "(uuid, structure_row) table \<Rightarrow> (uuid \<Rightarrow> uuid option) \<Rightarrow> intent \<Rightarrow> bool" where
  "parent_rejected brows pages_by_block i =
     (case i_parent i of
        None \<Rightarrow> False
      | Some parent \<Rightarrow>
          (case get brows parent of
             None \<Rightarrow> True
           | Some parent_row \<Rightarrow>
               pages_by_block parent \<noteq> Some (i_page i) \<or> i_hlc i < s_existence parent_row))"

definition drop_rejected_parents :: "structure_input \<Rightarrow> (uuid, intent) table \<Rightarrow> (uuid, intent) table" where
  "drop_rejected_parents inp I =
     mapv (\<lambda>_ i. if parent_rejected (in_blocks inp) (\<lambda>u. map_option i_page (get I u)) i
                 then i\<lparr>i_parent := None\<rparr> else i) I"

definition resolve_structure_in :: "uuid list \<Rightarrow> structure_input \<Rightarrow> (uuid, intent) table" where
  "resolve_structure_in starts inp =
     break_structure_cycles starts (drop_rejected_parents inp (retain_usable inp))"

text \<open>The resolver with the keys in ascending order, one of the orders \<open>HashMap\<close> may use.\<close>

definition resolve_structure :: "structure_input \<Rightarrow> (uuid, intent) table" where
  "resolve_structure inp =
     (let I = drop_rejected_parents inp (retain_usable inp) in break_structure_cycles (keys I) I)"


section \<open>The parent graph\<close>

definition edges :: "(uuid, intent) table \<Rightarrow> (uuid \<times> uuid) set" where
  "edges I = {(u, p). parent_of I u = Some p}"

definition on_cycle :: "(uuid, intent) table \<Rightarrow> uuid \<Rightarrow> bool" where
  "on_cycle I u \<longleftrightarrow> (u, u) \<in> (edges I)\<^sup>+"

text \<open>The block a cycle is cut at: the latest intent of the cycle, by clock and then UUID.\<close>

definition victim :: "(uuid, intent) table \<Rightarrow> uuid \<Rightarrow> bool" where
  "victim I u \<longleftrightarrow> on_cycle I u \<and> (\<forall>w. (u, w) \<in> (edges I)\<^sup>+ \<longrightarrow> detach_key I w \<le> detach_key I u)"

text \<open>The specification of \<open>break_structure_cycles\<close>, free of any walk.\<close>

definition cut_victims :: "(uuid, intent) table \<Rightarrow> (uuid, intent) table" where
  "cut_victims I = mapv (\<lambda>u i. if victim I u then i\<lparr>i_parent := None\<rparr> else i) I"

lemma edges_iff: "(u, p) \<in> edges I \<longleftrightarrow> parent_of I u = Some p"
  by (simp add: edges_def)

lemma edges_single: "(u, p) \<in> edges I \<Longrightarrow> (u, q) \<in> edges I \<Longrightarrow> p = q"
  by (simp add: edges_iff)

lemma cycle_returns:
  assumes single: "\<And>u p q. (u, p) \<in> E \<Longrightarrow> (u, q) \<in> E \<Longrightarrow> p = q"
    and cyc: "(x, x) \<in> E\<^sup>+" and reach: "(x, y) \<in> E\<^sup>*"
  shows "(y, x) \<in> E\<^sup>*"
  using reach
proof (induction rule: rtrancl_induct)
  case (step y z)
  have "(y, x) \<in> E\<^sup>+"
    using step.IH cyc by (metis rtranclD)
  then obtain w where "(y, w) \<in> E" "(w, x) \<in> E\<^sup>*" by (meson tranclD)
  then show ?case using single step.hyps(2) by blast
qed simp

lemma closed_rtrancl:
  assumes "(x, y) \<in> E\<^sup>*" and "x \<in> C" and "\<And>u p. u \<in> C \<Longrightarrow> (u, p) \<in> E \<Longrightarrow> p \<in> C"
  shows "y \<in> C"
  using assms by (induction rule: rtrancl_induct) auto

lemma on_cycle_returns:
  assumes "on_cycle I x" and "(x, y) \<in> (edges I)\<^sup>*"
  shows "(y, x) \<in> (edges I)\<^sup>*"
proof (rule cycle_returns)
  show "p = q" if "(u, p) \<in> edges I" and "(u, q) \<in> edges I" for u p q
    using that by (rule edges_single)
  show "(x, x) \<in> (edges I)\<^sup>+" using assms(1) by (simp add: on_cycle_def)
qed (rule assms(2))

lemma set_drop_nth: "y \<in> set (drop i xs) \<longleftrightarrow> (\<exists>j. i \<le> j \<and> j < length xs \<and> y = xs ! j)"
proof
  assume "y \<in> set (drop i xs)"
  then obtain k where "k < length xs - i" "y = drop i xs ! k" by (auto simp: in_set_conv_nth)
  then show "\<exists>j. i \<le> j \<and> j < length xs \<and> y = xs ! j"
    by (intro exI [of _ "i + k"]) auto
next
  assume "\<exists>j. i \<le> j \<and> j < length xs \<and> y = xs ! j"
  then obtain j where j: "i \<le> j" "j < length xs" "y = xs ! j" by blast
  then have "y = drop i xs ! (j - i)" "j - i < length (drop i xs)" by auto
  then show "y \<in> set (drop i xs)" by (simp only: nth_mem)
qed

subsection \<open>Chains of parents\<close>

definition chain :: "(uuid, intent) table \<Rightarrow> uuid list \<Rightarrow> bool" where
  "chain I path \<longleftrightarrow> (\<forall>i. Suc i < length path \<longrightarrow> parent_of I (path ! i) = Some (path ! Suc i))"

lemma chain_snoc:
  assumes "chain I path" and "path \<noteq> [] \<Longrightarrow> parent_of I (last path) = Some u"
  shows "chain I (path @ [u])"
  unfolding chain_def
proof (intro allI impI)
  fix i assume i: "Suc i < length (path @ [u])"
  show "parent_of I ((path @ [u]) ! i) = Some ((path @ [u]) ! Suc i)"
  proof (cases "Suc i < length path")
    case True
    then show ?thesis using assms(1) by (simp add: chain_def nth_append)
  next
    case False
    with i have "path \<noteq> []" "i = length path - 1" by auto
    then show ?thesis using assms(2) by (simp add: nth_append last_conv_nth)
  qed
qed

lemma chain_reach:
  assumes "chain I path" and "a \<le> b" and "b < length path"
  shows "(path ! a, path ! b) \<in> (edges I)\<^sup>*"
  using assms(2,3)
proof (induction b)
  case (Suc b)
  show ?case
  proof (cases "a = Suc b")
    case False
    with Suc have "(path ! a, path ! b) \<in> (edges I)\<^sup>*" by simp
    moreover have "(path ! b, path ! Suc b) \<in> edges I"
      using Suc.prems assms(1) by (simp add: edges_iff chain_def)
    ultimately show ?thesis by simp
  qed simp
qed simp

text \<open>What the inner loop returns: a fresh chain that ends, meets a proven block, or closes.\<close>

definition walk_ok :: "(uuid, unit) table \<Rightarrow> (uuid, intent) table \<Rightarrow> uuid list \<Rightarrow> nat option \<Rightarrow> bool" where
  "walk_ok proven I path c \<longleftrightarrow>
     distinct path \<and> (\<forall>u \<in> set path. \<not> has proven u) \<and> chain I path \<and>
     (case c of
        None \<Rightarrow> path \<noteq> [] \<longrightarrow> (\<forall>p. parent_of I (last path) = Some p \<longrightarrow> has proven p)
      | Some i \<Rightarrow> i < length path \<and> parent_of I (last path) = Some (path ! i))"

lemma walk_spec:
  assumes "walk proven I path cursor = (path', c)"
    and "distinct path" and "\<forall>u \<in> set path. \<not> has proven u" and "chain I path"
    and "path \<noteq> [] \<Longrightarrow> parent_of I (last path) = cursor"
  shows "walk_ok proven I path' c \<and> set path \<subseteq> set path'"
  using assms
proof (induction proven I path cursor rule: walk.induct)
  case (1 proven I path)
  then show ?case by (auto simp: walk_ok_def)
next
  case (2 proven I path u)
  show ?case
  proof (cases "has proven u")
    case True
    with 2 show ?thesis by (auto simp: walk_ok_def)
  next
    case fresh: False
    show ?thesis
    proof (cases "index_of u path")
      case None
      have "chain I (path @ [u])" by (rule chain_snoc) (use 2 in auto)
      then show ?thesis
        using 2(1)[OF fresh None] 2(2-) fresh None by (auto simp: index_of_None)
    next
      case (Some i)
      then have r: "path' = path" "c = Some i" using 2(2) fresh by auto
      have "i < length path" "path ! i = u" using index_of_Some [OF Some] by simp_all
      moreover from this have "path \<noteq> []" by auto
      ultimately show ?thesis using 2(3-) unfolding r by (auto simp: walk_ok_def)
    qed
  qed
qed

lemma walk_contains:
  "\<not> has proven u \<Longrightarrow> walk proven I [] (Some u) = (path, c) \<Longrightarrow> u \<in> set path"
  using walk_spec [of proven I "[u]" "parent_of I u" path c] by (simp add: chain_def)

lemma walk_start:
  "walk proven I [] (Some u) = (path, c) \<Longrightarrow> walk_ok proven I path c"
  using walk_spec [of proven I "[]" "Some u" path c] by (simp add: chain_def)


subsection \<open>What one chain decides\<close>

lemma last_nth_len: "path \<noteq> [] \<Longrightarrow> last path = path ! (length path - 1)"
  by (rule last_conv_nth)

lemma open_chain_acyclic:
  assumes "chain I path" and x: "x \<in> set path"
    and stop: "\<And>p. parent_of I (last path) = Some p \<Longrightarrow> p \<in> P"
    and closed: "\<And>u p. u \<in> P \<Longrightarrow> parent_of I u = Some p \<Longrightarrow> p \<in> P"
    and fresh: "set path \<inter> P = {}"
  shows "\<not> on_cycle I x"
proof
  assume cyc: "on_cycle I x"
  have ne: "path \<noteq> []" using x by auto
  from x obtain j where j: "j < length path" "x = path ! j" by (auto simp: in_set_conv_nth)
  have "(x, last path) \<in> (edges I)\<^sup>*"
    using chain_reach [OF assms(1), of j "length path - 1"] j ne by (simp add: last_nth_len)
  then have returns: "(last path, x) \<in> (edges I)\<^sup>*"
    by (rule on_cycle_returns [OF cyc])
  have "(last path, x) \<in> (edges I)\<^sup>+"
    using returns cyc by (metis on_cycle_def rtranclD)
  then obtain p where p: "(last path, p) \<in> edges I" "(p, x) \<in> (edges I)\<^sup>*" by (meson tranclD)
  then have "p \<in> P" using stop by (simp add: edges_iff)
  with p(2) have "x \<in> P" by (rule closed_rtrancl) (auto simp: edges_iff intro: closed)
  with x fresh show False by auto
qed

text \<open>A closed chain: its tail from the closing position is a cycle, what precedes it is not.\<close>

lemma closed_chain:
  assumes "chain I path" and "i < length path" and last: "parent_of I (last path) = Some (path ! i)"
    and "distinct path"
  shows "x \<in> set (drop i path) \<Longrightarrow> (x, w) \<in> (edges I)\<^sup>+ \<longleftrightarrow> w \<in> set (drop i path)"
    and "x \<in> set (take i path) \<Longrightarrow> \<not> on_cycle I x"
proof -
  have ne: "path \<noteq> []" using assms(2) by auto
  define C where "C = set (drop i path)"
  have C_iff: "y \<in> C \<longleftrightarrow> (\<exists>j. i \<le> j \<and> j < length path \<and> y = path ! j)" for y
    unfolding C_def by (rule set_drop_nth)
  have hop: "(path ! j, path ! i) \<in> (edges I)\<^sup>+" if "j < length path" for j
  proof -
    have "(path ! j, last path) \<in> (edges I)\<^sup>*"
      using chain_reach [OF assms(1), of j "length path - 1"] that ne by (simp add: last_nth_len)
    moreover have "(last path, path ! i) \<in> edges I" using last by (simp add: edges_iff)
    ultimately show ?thesis by (rule rtrancl_into_trancl1)
  qed
  have closed: "p \<in> C" if "u \<in> C" "(u, p) \<in> edges I" for u p
  proof -
    from that(1) obtain j where j: "i \<le> j" "j < length path" "u = path ! j" by (auto simp: C_iff)
    show ?thesis
    proof (cases "Suc j < length path")
      case True
      then have "p = path ! Suc j" using that(2) j assms(1) by (simp add: chain_def edges_iff)
      with True j(1) show ?thesis unfolding C_iff by (intro exI [of _ "Suc j"]) simp
    next
      case False
      then have "j = length path - 1" using j(2) by simp
      then have "p = path ! i" using that(2) j last ne by (simp add: edges_iff last_nth_len)
      then show ?thesis using assms(2) unfolding C_iff by auto
    qed
  qed
  show "(x, w) \<in> (edges I)\<^sup>+ \<longleftrightarrow> w \<in> set (drop i path)" if "x \<in> set (drop i path)"
  proof
    assume "(x, w) \<in> (edges I)\<^sup>+"
    then have "(x, w) \<in> (edges I)\<^sup>*" by (rule trancl_into_rtrancl)
    then have "w \<in> C" by (rule closed_rtrancl) (use that closed C_def in auto)
    then show "w \<in> set (drop i path)" by (simp add: C_def)
  next
    assume "w \<in> set (drop i path)"
    then obtain k where k: "i \<le> k" "k < length path" "w = path ! k" using C_iff C_def by auto
    from that obtain j where j: "j < length path" "x = path ! j" using C_iff C_def by auto
    have "(path ! i, path ! k) \<in> (edges I)\<^sup>*" by (rule chain_reach [OF assms(1) k(1,2)])
    with hop [OF j(1)] show "(x, w) \<in> (edges I)\<^sup>+" unfolding j(2) k(3) by (rule trancl_rtrancl_trancl)
  qed
  show "\<not> on_cycle I x" if "x \<in> set (take i path)"
  proof
    assume cyc: "on_cycle I x"
    from that assms(2) obtain j where j: "j < i" "x = path ! j" by (auto simp: in_set_conv_nth)
    have "(x, path ! i) \<in> (edges I)\<^sup>*"
      unfolding j(2) by (rule chain_reach [OF assms(1)]) (use j assms(2) in auto)
    then have "(path ! i, x) \<in> (edges I)\<^sup>*"
      by (rule on_cycle_returns [OF cyc])
    moreover have "path ! i \<in> C" using assms(2) C_iff by auto
    ultimately have "x \<in> C" using closed by (rule closed_rtrancl)
    then obtain k where k: "i \<le> k" "k < length path" "x = path ! k" by (auto simp: C_iff)
    have "j = k"
      using nth_eq_iff_index_eq [OF assms(4), of j k] j k assms(2) by simp
    with j(1) k(1) show False by simp
  qed
qed

lemma max_by_key_greatest:
  "max_by_key key xs = Some m \<Longrightarrow> m \<in> set xs \<and> (\<forall>x \<in> set xs. key x \<le> key m)"
proof (induction xs arbitrary: m)
  case (Cons a xs)
  show ?case
  proof (cases "max_by_key key xs")
    case None
    then have "xs = []" by (cases xs) (auto split: option.splits if_splits)
    with Cons.prems show ?thesis by simp
  next
    case (Some y)
    from Cons.IH [OF Some] Cons.prems Some show ?thesis
      by (auto split: if_splits intro: order_trans less_imp_le)
  qed
qed simp

lemma max_by_key_None: "max_by_key key xs = None \<longleftrightarrow> xs = []"
  by (cases xs) (auto split: option.splits)


subsection \<open>The breaking loop computes the specification\<close>

text \<open>
  The invariant of the outer loop: proven blocks are closed under parents of the original
  intents, and the intents differ from the original exactly by the cut victims among them.
\<close>

definition break_inv :: "(uuid, intent) table \<Rightarrow> (uuid, unit) table \<times> (uuid, intent) table \<Rightarrow> bool" where
  "break_inv G st \<longleftrightarrow>
     (\<forall>u p. has (fst st) u \<longrightarrow> parent_of G u = Some p \<longrightarrow> has (fst st) p) \<and>
     (\<forall>u. get (snd st) u =
            map_option (\<lambda>i. if has (fst st) u \<and> victim G u then i\<lparr>i_parent := None\<rparr> else i) (get G u))"

lemma has_fold_put: "has (fold (\<lambda>u. put u ()) xs t) k \<longleftrightarrow> k \<in> set xs \<or> has t k"
  by (induction xs arbitrary: t) auto

lemma break_inv_parent:
  "break_inv G (proven, I) \<Longrightarrow> \<not> has proven u \<Longrightarrow> parent_of I u = parent_of G u"
  by (simp add: break_inv_def parent_of_def option.map_ident)

lemma break_inv_key: "break_inv G (proven, I) \<Longrightarrow> detach_key I u = detach_key G u"
  by (cases "get G u") (auto simp: break_inv_def detach_key_def)

lemma walk_ok_original:
  assumes "break_inv G (proven, I)" and "walk_ok proven I path c"
  shows "walk_ok proven G path c"
proof -
  have p: "parent_of I u = parent_of G u" if "u \<in> set path" for u
    using assms that by (auto simp: walk_ok_def intro: break_inv_parent)
  have "chain G path" using assms(2) p by (simp add: walk_ok_def chain_def)
  moreover have "path \<noteq> [] \<Longrightarrow> parent_of I (last path) = parent_of G (last path)" by (simp add: p)
  ultimately show ?thesis
    using assms(2) by (cases "path = []") (auto simp: walk_ok_def split: option.splits)
qed

lemma detach_key_inj: "detach_key G u = detach_key G w \<Longrightarrow> u = w"
  by (simp add: detach_key_def)

text \<open>Which members of a finished path are victims.\<close>

lemma path_victims_open:
  assumes "break_inv G (proven, I)" and "walk_ok proven G path None" and "x \<in> set path"
  shows "\<not> victim G x"
proof -
  have "\<not> on_cycle G x"
    by (rule open_chain_acyclic [of G path x "{u. has proven u}"])
      (use assms in \<open>auto simp: walk_ok_def break_inv_def\<close>)
  then show ?thesis by (simp add: victim_def)
qed

lemma path_victims_closed:
  assumes "walk_ok proven G path (Some i)" and "x \<in> set path"
    and m: "max_by_key (detach_key G) (drop i path) = Some m"
  shows "victim G x \<longleftrightarrow> x = m"
proof -
  have ok: "chain G path" "i < length path" "parent_of G (last path) = Some (path ! i)" "distinct path"
    using assms(1) by (auto simp: walk_ok_def)
  note cyc = closed_chain(1) [OF ok] and pre = closed_chain(2) [OF ok]
  have mem: "m \<in> set (drop i path)" and top: "\<forall>w \<in> set (drop i path). detach_key G w \<le> detach_key G m"
    using max_by_key_greatest [OF m] by auto
  show ?thesis
  proof (cases "x \<in> set (drop i path)")
    case True
    have v: "victim G x \<longleftrightarrow> (\<forall>w \<in> set (drop i path). detach_key G w \<le> detach_key G x)"
      using True by (auto simp: victim_def on_cycle_def cyc)
    show ?thesis
    proof
      assume "victim G x"
      with v mem have "detach_key G m \<le> detach_key G x" by blast
      moreover have "detach_key G x \<le> detach_key G m" using top True by blast
      ultimately show "x = m" by (intro detach_key_inj [of G]) (rule antisym)
    next
      assume "x = m" with v top show "victim G x" by blast
    qed
  next
    case False
    then have "x \<in> set (take i path)"
      using assms(2) by (metis append_take_drop_id Un_iff set_append)
    with pre False mem show ?thesis by (auto simp: victim_def)
  qed
qed

lemma break_from_inv:
  assumes inv: "break_inv G st" and st: "break_from start st = st'"
  shows "break_inv G st' \<and> has (fst st') start \<and> (\<forall>u. has (fst st) u \<longrightarrow> has (fst st') u)"
proof -
  obtain proven I where s: "st = (proven, I)" by force
  show ?thesis
  proof (cases "has proven start")
    case True
    with inv st show ?thesis by (auto simp: s break_from_def)
  next
    case fresh: False
    obtain path c where w: "walk proven I [] (Some start) = (path, c)" by force
    have okI: "walk_ok proven I path c" by (rule walk_start [OF w])
    then have ok: "walk_ok proven G path c" using inv walk_ok_original s by blast
    have mem: "start \<in> set path" by (rule walk_contains [OF fresh w])
    have key: "detach_key I = detach_key G" using inv s break_inv_key by blast
    let ?P = "fold (\<lambda>u. put u ()) path proven"
    have grow: "has ?P u \<longleftrightarrow> u \<in> set path \<or> has proven u" for u by (rule has_fold_put)
    have next_in: "has ?P p" if "u \<in> set path" "parent_of G u = Some p" for u p
    proof -
      from that(1) obtain j where j: "j < length path" "u = path ! j" by (auto simp: in_set_conv_nth)
      show ?thesis
      proof (cases "Suc j < length path")
        case True
        then show ?thesis using ok j that(2) by (auto simp: walk_ok_def chain_def grow)
      next
        case False
        then have "path \<noteq> []" "j = length path - 1" using j by auto
        then have "u = last path" using j by (simp add: last_conv_nth)
        then show ?thesis using ok that(2) j
          by (cases c) (auto simp: walk_ok_def grow)
      qed
    qed
    show ?thesis
    proof (cases c)
      case None
      have "st' = (?P, I)" using st fresh w by (simp add: s break_from_def None)
      moreover have "break_inv G (?P, I)"
      proof -
        have "get I u = map_option (\<lambda>i. if has ?P u \<and> victim G u then i\<lparr>i_parent := None\<rparr> else i) (get G u)" for u
          using inv path_victims_open [OF inv [unfolded s] ok [unfolded None], of u]
          by (cases "get G u") (auto simp: s break_inv_def grow)
        with inv next_in show ?thesis by (auto simp: s break_inv_def grow)
      qed
      ultimately show ?thesis using mem by (simp add: s grow)
    next
      case (Some i)
      then have "drop i path \<noteq> []" using ok by (auto simp: walk_ok_def)
      then obtain m where m: "max_by_key (detach_key G) (drop i path) = Some m"
        by (metis max_by_key_None option.exhaust)
      let ?I = "upd m (\<lambda>i. i\<lparr>i_parent := None\<rparr>) I"
      have st': "st' = (?P, ?I)" using st fresh w m by (simp add: s break_from_def Some key)
      have mp: "m \<in> set path" using max_by_key_greatest [OF m] by (meson in_set_dropD)
      have v: "victim G x \<longleftrightarrow> x = m" if "x \<in> set path" for x
        using path_victims_closed [OF ok [unfolded Some] that m] .
      have "\<not> has proven m" using ok mp by (auto simp: walk_ok_def)
      then have "get ?I u = map_option (\<lambda>i. if has ?P u \<and> victim G u then i\<lparr>i_parent := None\<rparr> else i) (get G u)" for u
        using inv v [of u] v [OF mp] mp by (cases "get G u") (auto simp: s break_inv_def grow)
      with inv next_in have "break_inv G (?P, ?I)" by (auto simp: s break_inv_def grow)
      then show ?thesis using mem by (simp add: st' s grow)
    qed
  qed
qed


lemma break_fold_inv:
  assumes "break_inv G st"
  shows "break_inv G (fold break_from starts st) \<and>
         (\<forall>u. u \<in> set starts \<or> has (fst st) u \<longrightarrow> has (fst (fold break_from starts st)) u)"
  using assms
proof (induction starts arbitrary: st)
  case (Cons a starts)
  from break_from_inv [OF Cons.prems refl, of a] Cons.IH [of "break_from a st"]
  show ?case by auto
qed simp

lemma break_cycles_cut:
  assumes "\<forall>u. has G u \<longrightarrow> u \<in> set starts"
  shows "break_structure_cycles starts G = cut_victims G"
proof (rule table_eqI)
  fix u
  have "break_inv G (tempty, G)" by (simp add: break_inv_def option.map_ident)
  from break_fold_inv [OF this, of starts] assms
  show "get (break_structure_cycles starts G) u = get (cut_victims G) u"
    by (cases "get G u") (auto simp: break_inv_def break_structure_cycles_def cut_victims_def has_def)
qed

subsection \<open>The specification has no cycle\<close>

lemma parent_of_cut:
  "parent_of (cut_victims I) u = (if victim I u then None else parent_of I u)"
  by (simp add: parent_of_def cut_victims_def split: option.split)

lemma cycle_has_victim:
  assumes "on_cycle I u"
  shows "\<exists>v. (u, v) \<in> (edges I)\<^sup>+ \<and> victim I v"
proof -
  define C where "C = {w. (u, w) \<in> (edges I)\<^sup>+}"
  have ret: "(w, u) \<in> (edges I)\<^sup>+" if "w \<in> C" for w
  proof -
    have "(u, w) \<in> (edges I)\<^sup>*" using that by (simp add: C_def trancl_into_rtrancl)
    then have "(w, u) \<in> (edges I)\<^sup>*" by (rule on_cycle_returns [OF assms])
    then show ?thesis using assms by (metis on_cycle_def rtranclD)
  qed
  have "has I w" if "w \<in> C" for w
  proof -
    from ret [OF that] obtain p where "(w, p) \<in> edges I" by (meson tranclD)
    then show ?thesis by (auto simp: edges_iff parent_of_def has_def split: option.splits)
  qed
  then have "C \<subseteq> {w. has I w}" by blast
  then have fin: "finite C" by (rule finite_subset) (rule finite_has)
  have "u \<in> C" using assms by (simp add: C_def on_cycle_def)
  then have "finite (detach_key I ` C)" "detach_key I ` C \<noteq> {}" using fin by auto
  from Max_in [OF this] Max_ge [OF this(1)]
  obtain v where v: "v \<in> C" "\<forall>w \<in> C. detach_key I w \<le> detach_key I v"
    by (metis (no_types, lifting) imageE imageI)
  have "w \<in> C" if "(v, w) \<in> (edges I)\<^sup>+" for w
    using v(1) that by (auto simp: C_def intro: trancl_trans)
  moreover have "on_cycle I v"
    using ret [OF v(1)] v(1) by (auto simp: C_def on_cycle_def intro: trancl_trans)
  ultimately have "victim I v" using v(2) by (auto simp: victim_def)
  with v(1) show ?thesis by (auto simp: C_def)
qed

lemma cut_acyclic: "acyclic (edges (cut_victims I))"
proof (rule acyclicI, intro allI notI)
  fix u assume cyc: "(u, u) \<in> (edges (cut_victims I))\<^sup>+"
  let ?E = "edges (cut_victims I)"
  have sub: "?E \<subseteq> edges I" by (auto simp: edges_iff parent_of_cut split: if_splits)
  have "on_cycle I u" using cyc trancl_mono [OF _ sub] by (auto simp: on_cycle_def)
  then obtain v where v: "(u, v) \<in> (edges I)\<^sup>+" "victim I v" using cycle_has_victim by blast
  have reach: "(u, w) \<in> ?E\<^sup>*" if "(u, w) \<in> (edges I)\<^sup>*" for w
    using that
  proof (induction rule: rtrancl_induct)
    case (step y z)
    have "(y, u) \<in> ?E\<^sup>*"
      by (rule on_cycle_returns) (use cyc step.IH in \<open>auto simp: on_cycle_def\<close>)
    then have "(y, u) \<in> ?E\<^sup>+" using cyc by (metis rtranclD)
    then obtain w where "(y, w) \<in> ?E" by (meson tranclD)
    with sub step.hyps(2) edges_single have "(y, z) \<in> ?E" by blast
    with step.IH show ?case by simp
  qed simp
  have "(u, v) \<in> ?E\<^sup>*" using v(1) by (intro reach trancl_into_rtrancl)
  then have "(v, u) \<in> ?E\<^sup>*"
    by (rule on_cycle_returns [rotated]) (use cyc in \<open>simp add: on_cycle_def\<close>)
  then have "(v, u) \<in> ?E\<^sup>+" using cyc by (metis rtranclD)
  then obtain w where "(v, w) \<in> ?E" by (meson tranclD)
  with v(2) show False by (simp add: edges_iff parent_of_cut)
qed

section \<open>The resolver\<close>

lemma parent_update_same [simp]:
  "i\<lparr>i_parent := x\<rparr> = i \<longleftrightarrow> i_parent i = x"
  "i = i\<lparr>i_parent := x\<rparr> \<longleftrightarrow> i_parent i = x"
  by (cases i; auto)+

text \<open>Every \<open>HashMap\<close> iteration order gives the same forest.\<close>

lemma resolve_in_cut:
  "\<forall>u. has (drop_rejected_parents inp (retain_usable inp)) u \<longrightarrow> u \<in> set starts \<Longrightarrow>
   resolve_structure_in starts inp = cut_victims (drop_rejected_parents inp (retain_usable inp))"
  by (simp add: resolve_structure_in_def break_cycles_cut)

lemma resolve_cut:
  "resolve_structure inp = cut_victims (drop_rejected_parents inp (retain_usable inp))"
  by (simp add: resolve_structure_def Let_def break_cycles_cut set_keys)

lemma resolve_rows:
  "get (resolve_structure inp) u =
     map_option
       (\<lambda>i. if parent_rejected (in_blocks inp) (\<lambda>v. map_option i_page (get (retain_usable inp) v)) i
               \<or> victim (drop_rejected_parents inp (retain_usable inp)) u
            then i\<lparr>i_parent := None\<rparr> else i)
       (get (retain_usable inp) u)"
  by (cases "get (retain_usable inp) u")
    (auto simp: resolve_cut cut_victims_def drop_rejected_parents_def)

definition sample_intent :: "uuid option \<Rightarrow> hlc \<Rightarrow> intent" where
  "sample_intent parent t = \<lparr>i_page = 9, i_parent = parent, i_order = first_key, i_hlc = t\<rparr>"

text \<open>Two blocks of page \<open>9\<close> that two devices moved under each other at the same time.\<close>

definition sample_input :: structure_input where
  "sample_input =
     (let row = \<lparr>s_existence = Hlc 1 0 1, s_page = 9, s_parent = None, s_order = first_key,
                 s_hlc = None, s_updated = 0\<rparr>
      in \<lparr>in_blocks = put 1 row (put 2 row tempty), in_pages = put 9 () tempty,
          in_intents = put 1 (sample_intent (Some 2) (Hlc 5 0 1))
                         (put 2 (sample_intent (Some 1) (Hlc 6 0 2)) tempty)\<rparr>)"

text \<open>
  C18. The forest does not depend on the order in which the hash map yields the blocks, as long
  as every usable intent is visited.
\<close>

theorem resolve_order_independent:
  assumes "\<forall>u. has (retain_usable inp) u \<longrightarrow> u \<in> set starts"
  shows "resolve_structure_in starts inp = resolve_structure inp"
  using assms by (simp add: resolve_in_cut resolve_cut drop_rejected_parents_def)

theorem resolve_order_independent_witness:
  "resolve_structure_in [2, 1] sample_input = resolve_structure sample_input"
  by (rule resolve_order_independent)
    (auto simp: retain_usable_def sample_input_def Let_def split: if_splits)

text \<open>
  C19. Whatever the replicas intended, the resolved parents form a forest: there is no cycle.
\<close>

theorem resolve_acyclic: "acyclic (edges (resolve_structure inp))"
  by (simp add: resolve_cut cut_acyclic)

text \<open>
  A resolved placement is usable: the block exists, the page is live, and a parent, if one
  is left, is itself placed on the same page and existed when the placement was intended.
\<close>

theorem resolve_well_placed:
  assumes "get (resolve_structure inp) u = Some i"
  shows "has (in_blocks inp) u \<and> has (in_pages inp) (i_page i) \<and>
         (\<forall>p. i_parent i = Some p \<longrightarrow>
            (\<exists>j row. get (resolve_structure inp) p = Some j \<and> i_page j = i_page i \<and>
                     get (in_blocks inp) p = Some row \<and> s_existence row \<le> i_hlc i))"
proof -
  let ?D = "drop_rejected_parents inp (retain_usable inp)"
  have page: "map_option i_page (get (resolve_structure inp) p) = map_option i_page (get (retain_usable inp) p)" for p
    by (cases "get (retain_usable inp) p") (auto simp: resolve_cut cut_victims_def drop_rejected_parents_def)
  from assms obtain i0 where i0: "get (retain_usable inp) u = Some i0"
    and eq: "i_page i = i_page i0" "i_hlc i = i_hlc i0"
    and par: "\<And>p. i_parent i = Some p \<Longrightarrow>
      i_parent i0 = Some p \<and> \<not> parent_rejected (in_blocks inp) (\<lambda>u. map_option i_page (get (retain_usable inp) u)) i0"
    by (auto simp: resolve_cut cut_victims_def drop_rejected_parents_def split: if_splits)
  have "has (in_blocks inp) u \<and> has (in_pages inp) (i_page i)"
    using i0 eq(1) by (auto simp: retain_usable_def split: option.splits if_splits)
  moreover have "\<exists>j row. get (resolve_structure inp) p = Some j \<and> i_page j = i_page i \<and>
                     get (in_blocks inp) p = Some row \<and> s_existence row \<le> i_hlc i"
    if "i_parent i = Some p" for p
    using par [OF that] page [of p] eq by (auto simp: parent_rejected_def split: option.splits)
  ultimately show ?thesis by blast
qed

theorem resolve_well_placed_witness:
  "\<exists>i. get (resolve_structure sample_input) 1 = Some i \<and> has (in_pages sample_input) (i_page i)"
proof -
  have "has (retain_usable sample_input) 1"
    by (auto simp: retain_usable_def sample_input_def Let_def sample_intent_def has_def split: if_splits)
  then obtain i where i: "get (resolve_structure sample_input) 1 = Some i"
    by (auto simp: resolve_rows has_def)
  from resolve_well_placed [OF i] i show ?thesis by blast
qed

text \<open>
  Nothing else is changed: a usable intent keeps its page, order and clock, and loses its
  parent exactly when the parent was rejected or the block is the latest intent of a cycle.
\<close>

theorem resolve_changes_only_parents:
  "get (resolve_structure inp) u =
     map_option
       (\<lambda>i. if parent_rejected (in_blocks inp) (\<lambda>v. map_option i_page (get (retain_usable inp) v)) i
               \<or> victim (drop_rejected_parents inp (retain_usable inp)) u
            then i\<lparr>i_parent := None\<rparr> else i)
       (get (retain_usable inp) u)"
  by (rule resolve_rows)

end
