(* ===== verification/Projection.thy ===== *)
theory Projection
  imports Structure
begin

text \<open>
  Where the resolver meets the database: \<open>crates/notes-core/src/operation/structure.rs\<close> (the
  dirty seeds captured before a write and the loader of the affected components) and
  \<open>reconcile_structure_with_mode\<close>, which writes the resolved placements back. The full and the
  component projection are shown to agree.
\<close>

section \<open>Dirty seeds\<close>

type_synonym uuids = "(uuid, unit) table"  \<comment> \<open>\<open>BTreeSet<Uuid>\<close>\<close>

definition insert_opt :: "uuid option \<Rightarrow> uuids \<Rightarrow> uuids" where
  "insert_opt x s = (case x of None \<Rightarrow> s | Some u \<Rightarrow> put u () s)"

definition touch_block :: "db \<Rightarrow> uuid \<Rightarrow> uuid option \<Rightarrow> uuids \<Rightarrow> uuids" where
  "touch_block d u new_parent seeds =
     (let seeds = insert_opt new_parent (put u () seeds);
          seeds = (case get (blocks d) u of None \<Rightarrow> seeds | Some r \<Rightarrow> insert_opt (b_parent r) seeds)
      in case get (intents d) u of None \<Rightarrow> seeds | Some i \<Rightarrow> insert_opt (i_parent i) seeds)"

definition deleting_block :: "db \<Rightarrow> uuid \<Rightarrow> uuids \<Rightarrow> uuids" where
  "deleting_block d u seeds =
     fold (\<lambda>(child, r). put child ())
       (filter (\<lambda>(child, r). b_parent r = Some u) (rows (blocks d)))
       (touch_block d u None seeds)"

definition touch_page :: "db \<Rightarrow> uuid \<Rightarrow> uuids \<Rightarrow> uuids" where
  "touch_page d p seeds =
     (let seeds =
            fold (\<lambda>(b, r) s. insert_opt (Option.bind (get (intents d) b) i_parent)
                              (insert_opt (b_parent r) (put b () s)))
              (filter (\<lambda>(b, r). b_page r = p) (rows (blocks d))) seeds
      in fold (\<lambda>(b, i) s. insert_opt (i_parent i)
                           (insert_opt (Option.bind (get (blocks d) b) b_parent) (put b () s)))
           (filter (\<lambda>(b, i). i_page i = p) (rows (intents d))) seeds)"

section \<open>Loading\<close>

definition structure_row_of :: "block_row \<Rightarrow> structure_row" where
  "structure_row_of r =
     \<lparr>s_existence = b_existence r, s_page = b_page r, s_parent = b_parent r, s_order = b_order r,
      s_hlc = b_structure_hlc r, s_updated = b_updated r\<rparr>"

definition load_full_structure :: "db \<Rightarrow> structure_input" where
  "load_full_structure d =
     \<lparr>in_blocks = mapv (\<lambda>_. structure_row_of) (blocks d), in_pages = mapv (\<lambda>_ _. ()) (pages d),
      in_intents = intents d\<rparr>"

definition uuid_query_chunk :: nat where
  "uuid_query_chunk = 256"

definition add_frontier :: "uuids \<Rightarrow> uuid option \<Rightarrow> uuids \<Rightarrow> uuids" where
  "add_frontier visited x frontier =
     (case x of None \<Rightarrow> frontier
      | Some u \<Rightarrow> if has visited u then frontier else put u () frontier)"

text \<open>The rows the two queries of one batch return: \<open>uuid IN (..)\<close>, then \<open>parent_uuid IN (..)\<close>.\<close>

definition batch_rows :: "('r \<Rightarrow> uuid option) \<Rightarrow> uuid list \<Rightarrow> (uuid, 'r) table \<Rightarrow> (uuid \<times> 'r) list" where
  "batch_rows parent batch t =
     filter (\<lambda>(u, _). u \<in> set batch) (rows t) @
     filter (\<lambda>(_, r). case parent r of None \<Rightarrow> False | Some p \<Rightarrow> p \<in> set batch) (rows t)"

definition scan_rows ::
  "('r \<Rightarrow> uuid option) \<Rightarrow> uuids \<Rightarrow> (uuid \<times> 'r) list \<Rightarrow> uuids \<times> (uuid, 'r) table \<Rightarrow> uuids \<times> (uuid, 'r) table" where
  "scan_rows parent visited =
     fold (\<lambda>(u, r) (frontier, found).
             (add_frontier visited (parent r) (add_frontier visited (Some u) frontier), put u r found))"

function load_loop ::
  "db \<Rightarrow> uuids \<Rightarrow> uuids \<Rightarrow> (uuid, block_row) table \<Rightarrow> (uuid, intent) table
     \<Rightarrow> uuids \<times> (uuid, block_row) table \<times> (uuid, intent) table" where
  "load_loop d visited frontier existing found =
     (if keys frontier = [] then (visited, existing, found)
      else
        let batch = take uuid_query_chunk (keys frontier);
            frontier = fold del batch frontier;
            visited = fold (\<lambda>u. put u ()) batch visited;
            (frontier, existing) =
              scan_rows b_parent visited (batch_rows b_parent batch (blocks d)) (frontier, existing);
            (frontier, found) =
              scan_rows i_parent visited (batch_rows i_parent batch (intents d)) (frontier, found)
        in load_loop d visited frontier existing found)"
  by pat_completeness auto

subsection \<open>Termination\<close>

text \<open>The vertices that any row mentions.\<close>

definition mentioned :: "('r \<Rightarrow> uuid option) \<Rightarrow> (uuid, 'r) table \<Rightarrow> uuid set" where
  "mentioned parent t = {u. \<exists>v r. get t v = Some r \<and> (u = v \<or> parent r = Some u)}"

lemma mentioned_finite: "finite (mentioned parent t)"
proof -
  have "mentioned parent t \<subseteq> {u. has t u} \<union> (\<lambda>r. the (parent r)) ` snd ` set (rows t)"
  proof
    fix u assume "u \<in> mentioned parent t"
    then obtain v r where r: "get t v = Some r" "u = v \<or> parent r = Some u"
      by (auto simp: mentioned_def)
    then have "r \<in> snd ` set (rows t)" by (force simp: set_rows [symmetric])
    with r show "u \<in> {u. has t u} \<union> (\<lambda>r. the (parent r)) ` snd ` set (rows t)"
      by (auto simp: has_def intro!: image_eqI [of u _ r])
  qed
  then show ?thesis by (rule finite_subset) (simp add: finite_has)
qed

lemma has_fold_del: "has (fold del xs t) k \<longleftrightarrow> k \<notin> set xs \<and> has t k"
  by (induction xs arbitrary: t) auto

lemma has_add_frontier:
  "has (add_frontier visited x frontier) k \<longleftrightarrow> has frontier k \<or> (x = Some k \<and> \<not> has visited k)"
  by (auto simp: add_frontier_def split: option.split)

text \<open>The neighbours of a batch in one of the two row sets.\<close>

definition near :: "('r \<Rightarrow> uuid option) \<Rightarrow> uuid set \<Rightarrow> (uuid, 'r) table \<Rightarrow> uuid set" where
  "near parent B t =
     {u. \<exists>v r. get t v = Some r \<and> (v \<in> B \<or> (\<exists>p \<in> B. parent r = Some p)) \<and> (u = v \<or> parent r = Some u)}"

lemma near_mentioned: "near parent B t \<subseteq> mentioned parent t"
  by (auto simp: near_def mentioned_def)

lemma set_batch_rows:
  "(u, r) \<in> set (batch_rows parent batch t) \<longleftrightarrow>
     get t u = Some r \<and> (u \<in> set batch \<or> (\<exists>p \<in> set batch. parent r = Some p))"
  by (auto simp: batch_rows_def set_rows split: option.splits)

lemma scan_rows_frontier:
  "has (fst (scan_rows parent visited xs (f, e))) k \<longleftrightarrow>
     has f k \<or> (\<not> has visited k \<and> (\<exists>u r. (u, r) \<in> set xs \<and> (k = u \<or> parent r = Some k)))"
proof (induction xs arbitrary: f e)
  case Nil
  then show ?case by (simp add: scan_rows_def)
next
  case (Cons x xs)
  obtain u r where x: "x = (u, r)" by force
  have "scan_rows parent visited (x # xs) (f, e) =
        scan_rows parent visited xs (add_frontier visited (parent r) (add_frontier visited (Some u) f), put u r e)"
    by (simp add: scan_rows_def x)
  then show ?case using Cons by (auto simp: x has_add_frontier)
qed

lemma scan_batch_frontier:
  "has (fst (scan_rows parent visited (batch_rows parent batch t) (f, e))) k \<longleftrightarrow>
     has f k \<or> (\<not> has visited k \<and> k \<in> near parent (set batch) t)"
  unfolding scan_rows_frontier set_batch_rows near_def by blast


definition vertices :: "db \<Rightarrow> uuid set" where
  "vertices d = mentioned b_parent (blocks d) \<union> mentioned i_parent (intents d)"

definition near_rows :: "db \<Rightarrow> uuid set \<Rightarrow> uuid set" where
  "near_rows d B = near b_parent B (blocks d) \<union> near i_parent B (intents d)"

lemma near_vertices: "near_rows d B \<subseteq> vertices d"
  unfolding near_rows_def vertices_def by (intro Un_mono near_mentioned)

text \<open>The sets one round of the loop leaves behind.\<close>

lemma load_round:
  assumes "batch = take uuid_query_chunk (keys frontier)" and "f1 = fold del batch frontier"
    and "v1 = fold (\<lambda>u. put u ()) batch visited"
    and "(f2, e2) = scan_rows b_parent v1 (batch_rows b_parent batch (blocks d)) (f1, e)"
    and "(f3, i2) = scan_rows i_parent v1 (batch_rows i_parent batch (intents d)) (f2, i)"
  shows "{u. has v1 u} = {u. has visited u} \<union> set batch"
    and "{u. has f3 u} = ({u. has frontier u} - set batch) \<union> (near_rows d (set batch) - {u. has v1 u})"
proof -
  have "f2 = fst (scan_rows b_parent v1 (batch_rows b_parent batch (blocks d)) (f1, e))"
    and "f3 = fst (scan_rows i_parent v1 (batch_rows i_parent batch (intents d)) (f2, i))"
    using assms(4,5) by (metis fst_conv)+
  then show "{u. has f3 u} = ({u. has frontier u} - set batch) \<union> (near_rows d (set batch) - {u. has v1 u})"
    by (auto simp: scan_batch_frontier near_rows_def assms(2) has_fold_del)
  show "{u. has v1 u} = {u. has visited u} \<union> set batch"
    by (auto simp: assms(3) has_fold_put)
qed

definition load_measure1 :: "db \<Rightarrow> uuids \<Rightarrow> uuids \<Rightarrow> nat" where
  "load_measure1 d visited frontier = card ((vertices d \<union> {u. has frontier u}) - {u. has visited u})"

definition load_measure2 :: "uuids \<Rightarrow> uuids \<Rightarrow> nat" where
  "load_measure2 visited frontier = card ({u. has frontier u} \<inter> {u. has visited u})"

lemma load_round_decreases:
  assumes V: "V' = V \<union> B" and F: "F' = (F - B) \<union> (N - V')" and N: "N \<subseteq> U"
    and fin: "finite U" "finite F" and B: "B \<subseteq> F" "B \<noteq> {}"
  shows "card ((U \<union> F') - V') < card ((U \<union> F) - V) \<or>
         card ((U \<union> F') - V') = card ((U \<union> F) - V) \<and> card (F' \<inter> V') < card (F \<inter> V)"
proof (cases "B \<subseteq> V")
  case True
  then have V': "V' = V" using V by auto
  have "(U \<union> F') - V' = (U \<union> F) - V" using F N True V' by auto
  moreover have "F' \<inter> V' \<subset> F \<inter> V" using F True V' B by auto
  then have "card (F' \<inter> V') < card (F \<inter> V)" by (rule psubset_card_mono [rotated]) (use fin in simp)
  ultimately show ?thesis by simp
next
  case False
  have "(U \<union> F') - V' \<subset> (U \<union> F) - V" using F N V B False by auto
  then show ?thesis using fin by (intro disjI1 psubset_card_mono) auto
qed

lemma keys_take_nonempty: "keys t \<noteq> [] \<Longrightarrow> set (take uuid_query_chunk (keys t)) \<noteq> {}"
  by (cases "keys t") (auto simp: uuid_query_chunk_def)

lemma keys_take_has: "set (take n (keys t)) \<subseteq> {u. has t u}"
  by (auto simp: set_keys [symmetric] dest: in_set_takeD)

termination load_loop
proof (relation "(\<lambda>(d, v, f, e, i). load_measure1 d v f) <*mlex*>
                 (\<lambda>(d, v, f, e, i). load_measure2 v f) <*mlex*> {}", goal_cases)
  case 1
  then show ?case by (simp add: wf_mlex)
next
  case (2 d visited frontier e i batch f1 v1 st1 f2 e2 st2 f3 i2)
  let ?B = "set batch"
  have round: "{u. has v1 u} = {u. has visited u} \<union> ?B"
    "{u. has f3 u} = ({u. has frontier u} - ?B) \<union> (near_rows d ?B - {u. has v1 u})"
    by (rule load_round [of batch frontier f1 v1 visited f2 e2 d e f3 i2 i]; use 2 in simp)+
  have "finite (vertices d)" by (simp add: vertices_def mentioned_finite)
  moreover have "?B \<subseteq> {u. has frontier u}" "?B \<noteq> {}"
    using 2 keys_take_has keys_take_nonempty by auto
  ultimately have "load_measure1 d v1 f3 < load_measure1 d visited frontier \<or>
    load_measure1 d v1 f3 = load_measure1 d visited frontier \<and>
    load_measure2 v1 f3 < load_measure2 visited frontier"
    unfolding load_measure1_def load_measure2_def
    using load_round_decreases [OF round near_vertices _ finite_has] by blast
  then show ?case by (auto simp: mlex_iff)
qed

declare load_loop.simps [simp del]

text \<open>\<open>load_components\<close>; only the pages that a loaded intent names are looked up.\<close>

definition load_components :: "db \<Rightarrow> uuids \<Rightarrow> structure_input" where
  "load_components d seeds =
     (case load_loop d tempty seeds tempty tempty of
        (visited, existing, found) \<Rightarrow>
          \<lparr>in_blocks = mapv (\<lambda>_. structure_row_of) existing,
           in_pages = mapv (\<lambda>_ _. ()) (filt (\<lambda>p _. \<exists>u \<in> set (rows found). i_page (snd u) = p) (pages d)),
           in_intents = found\<rparr>)"


subsection \<open>The loop visits exactly the components of the seeds\<close>

definition adjacent :: "db \<Rightarrow> (uuid \<times> uuid) set" where
  "adjacent d = {(u, v). v \<in> near_rows d {u}}"

definition component :: "db \<Rightarrow> uuids \<Rightarrow> uuid set" where
  "component d seeds = (adjacent d)\<^sup>* `` {u. has seeds u}"

lemma near_singletons: "near parent B t = (\<Union>b \<in> B. near parent {b} t)"
  unfolding near_def by blast

lemma near_rows_adjacent: "near_rows d B = adjacent d `` B"
  unfolding near_rows_def adjacent_def by (auto simp: near_singletons [of _ B])

lemma scan_rows_found:
  "get (snd (scan_rows parent visited (batch_rows parent batch t) (f, e))) k =
     (case get t k of
        Some r \<Rightarrow> if k \<in> set batch \<or> (\<exists>p \<in> set batch. parent r = Some p) then Some r else get e k
      | None \<Rightarrow> get e k)"
proof -
  have fold: "get (snd (scan_rows parent visited xs (f, e))) k =
        (if \<exists>r. (k, r) \<in> set xs then Some r0 else get e k)"
    if "\<And>r. (k, r) \<in> set xs \<Longrightarrow> r = r0" for xs r0
    using that
  proof (induction xs arbitrary: f e)
    case Nil
    then show ?case by (simp add: scan_rows_def)
  next
    case (Cons x xs)
    obtain u r where x: "x = (u, r)" by force
    have "scan_rows parent visited (x # xs) (f, e) =
          scan_rows parent visited xs (add_frontier visited (parent r) (add_frontier visited (Some u) f), put u r e)"
      by (simp add: scan_rows_def x)
    then show ?case using Cons.IH Cons.prems by (auto simp: x)
  qed
  show ?thesis
  proof (cases "get t k")
    case None
    then have "\<nexists>r. (k, r) \<in> set (batch_rows parent batch t)" by (simp add: set_batch_rows)
    with fold [of "batch_rows parent batch t"] None show ?thesis by auto
  next
    case (Some r)
    have "get (snd (scan_rows parent visited (batch_rows parent batch t) (f, e))) k =
          (if \<exists>r. (k, r) \<in> set (batch_rows parent batch t) then Some r else get e k)"
      by (rule fold) (simp add: set_batch_rows Some)
    then show ?thesis by (simp add: set_batch_rows Some)
  qed
qed

text \<open>The rows loaded so far are those one of whose endpoints was visited.\<close>

definition loaded :: "('r \<Rightarrow> uuid option) \<Rightarrow> uuids \<Rightarrow> (uuid, 'r) table \<Rightarrow> (uuid, 'r) table \<Rightarrow> bool" where
  "loaded parent visited t found \<longleftrightarrow>
     (\<forall>k. get found k = (case get t k of
                           Some r \<Rightarrow> if has visited k \<or> (\<exists>p. has visited p \<and> parent r = Some p)
                                      then Some r else None
                         | None \<Rightarrow> None))"

definition load_inv :: "db \<Rightarrow> uuids \<Rightarrow> uuids \<Rightarrow> uuids \<Rightarrow> (uuid, block_row) table \<Rightarrow> (uuid, intent) table \<Rightarrow> bool" where
  "load_inv d seeds visited frontier existing found \<longleftrightarrow>
     {u. has visited u} \<union> {u. has frontier u} \<subseteq> component d seeds \<and>
     {u. has seeds u} \<subseteq> {u. has visited u} \<union> {u. has frontier u} \<and>
     near_rows d {u. has visited u} \<subseteq> {u. has visited u} \<union> {u. has frontier u} \<and>
     loaded b_parent visited (blocks d) existing \<and> loaded i_parent visited (intents d) found"

lemma loaded_step:
  assumes "loaded parent visited t e" and "{u. has v1 u} = {u. has visited u} \<union> set batch"
  shows "loaded parent v1 t (snd (scan_rows parent v1 (batch_rows parent batch t) (f, e)))"
proof -
  have v1: "has v1 u \<longleftrightarrow> has visited u \<or> u \<in> set batch" for u using assms(2) by auto
  show ?thesis
    using assms(1) unfolding loaded_def scan_rows_found v1 by (auto split: option.splits)
qed

lemma component_closed: "near_rows d B \<subseteq> component d seeds" if "B \<subseteq> component d seeds"
proof
  fix v assume "v \<in> near_rows d B"
  then obtain u where "u \<in> B" "(u, v) \<in> adjacent d" by (auto simp: near_rows_adjacent)
  with that show "v \<in> component d seeds"
    by (auto simp: component_def Image_iff intro: rtrancl_into_rtrancl)
qed

lemma load_inv_round:
  assumes inv: "load_inv d seeds visited frontier e i"
    and batch: "batch = take uuid_query_chunk (keys frontier)" and f1: "f1 = fold del batch frontier"
    and v1: "v1 = fold (\<lambda>u. put u ()) batch visited"
    and s2: "(f2, e2) = scan_rows b_parent v1 (batch_rows b_parent batch (blocks d)) (f1, e)"
    and s3: "(f3, i2) = scan_rows i_parent v1 (batch_rows i_parent batch (intents d)) (f2, i)"
  shows "load_inv d seeds v1 f3 e2 i2"
proof -
  note r = load_round [OF batch f1 v1 s2 s3]
  have B: "set batch \<subseteq> {u. has frontier u}" unfolding batch by (rule keys_take_has)
  have e2: "e2 = snd (scan_rows b_parent v1 (batch_rows b_parent batch (blocks d)) (f1, e))"
    and i2: "i2 = snd (scan_rows i_parent v1 (batch_rows i_parent batch (intents d)) (f2, i))"
    using s2 s3 by (metis snd_conv)+
  have near: "near_rows d {u. has v1 u} = near_rows d {u. has visited u} \<union> near_rows d (set batch)"
    unfolding r(1) near_rows_adjacent by (rule Image_Un)
  have "near_rows d (set batch) \<subseteq> component d seeds"
    by (rule component_closed) (use B inv in \<open>auto simp: load_inv_def\<close>)
  moreover have "{u. has v1 u} \<union> {u. has f3 u} =
        {u. has visited u} \<union> {u. has frontier u} \<union> near_rows d (set batch)"
    unfolding r(1,2) using B by auto
  moreover have "loaded b_parent v1 (blocks d) e2" "loaded i_parent v1 (intents d) i2"
    using inv unfolding e2 i2 load_inv_def by (blast intro: loaded_step [OF _ r(1)])+
  ultimately show ?thesis using inv unfolding load_inv_def near by auto
qed

lemma load_loop_inv:
  assumes "load_inv d seeds visited frontier existing found"
    and "load_loop d visited frontier existing found = (v, e, i)"
  shows "\<exists>f. keys f = [] \<and> load_inv d seeds v f e i"
  using assms
proof (induction d visited frontier existing found rule: load_loop.induct)
  case (1 d visited frontier existing found)
  show ?case
  proof (cases "keys frontier = []")
    case True
    with 1 show ?thesis by (subst (asm) (2) load_loop.simps) auto
  next
    case False
    define batch where "batch = take uuid_query_chunk (keys frontier)"
    define f1 where "f1 = fold del batch frontier"
    define v1 where "v1 = fold (\<lambda>u. put u ()) batch visited"
    obtain f2 e2 where s2: "(f2, e2) = scan_rows b_parent v1 (batch_rows b_parent batch (blocks d)) (f1, existing)"
      by (metis surj_pair)
    obtain f3 i2 where s3: "(f3, i2) = scan_rows i_parent v1 (batch_rows i_parent batch (intents d)) (f2, found)"
      by (metis surj_pair)
    have "load_inv d seeds v1 f3 e2 i2"
      by (rule load_inv_round [OF 1(2) batch_def f1_def v1_def s2 s3])
    moreover have "load_loop d v1 f3 e2 i2 = (v, e, i)"
      using 1(3) False s2 [symmetric] s3 [symmetric]
      by (subst (asm) load_loop.simps) (simp add: Let_def batch_def f1_def v1_def)
    ultimately show ?thesis
      using 1(1) [OF False batch_def f1_def v1_def s2 refl s3 refl] by blast
  qed
qed

lemma keys_empty: "keys t = [] \<longleftrightarrow> (\<forall>u. \<not> has t u)"
  by (metis emptyE list.set(1) set_empty set_keys subsetI subset_empty)

lemma load_loop_spec:
  assumes "load_loop d tempty seeds tempty tempty = (v, e, i)"
  shows "{u. has v u} = component d seeds"
    and "get e u = (if u \<in> component d seeds then get (blocks d) u else None)"
    and "get i u = (if u \<in> component d seeds then get (intents d) u else None)"
proof -
  have "load_inv d seeds tempty seeds tempty tempty"
    by (auto simp: load_inv_def loaded_def near_rows_def near_def component_def split: option.splits)
  from load_loop_inv [OF this assms] obtain f where "keys f = []" "load_inv d seeds v f e i" by blast
  then have V: "{u. has v u} \<subseteq> component d seeds" "{u. has seeds u} \<subseteq> {u. has v u}"
      "near_rows d {u. has v u} \<subseteq> {u. has v u}"
    and ld: "loaded b_parent v (blocks d) e" "loaded i_parent v (intents d) i"
    by (auto simp: load_inv_def keys_empty)
  have "y \<in> {u. has v u}" if "(x, y) \<in> (adjacent d)\<^sup>*" "has seeds x" for x y
    using that(1) by (rule closed_rtrancl) (use that V in \<open>auto simp: near_rows_adjacent\<close>)
  with V show veq: "{u. has v u} = component d seeds" by (auto simp: component_def)
  then have mem: "has v x \<longleftrightarrow> x \<in> component d seeds" for x by auto
  have "has v u" if "get (blocks d) u = Some r" "b_parent r = Some p" "has v p" for r p
  proof -
    have "u \<in> near_rows d {x. has v x}" using that unfolding near_rows_def near_def by blast
    with V(3) show ?thesis by auto
  qed
  then show "get e u = (if u \<in> component d seeds then get (blocks d) u else None)"
    using ld(1) by (auto simp: loaded_def mem [symmetric] split: option.splits)
  have "has v u" if "get (intents d) u = Some r" "i_parent r = Some p" "has v p" for r p
  proof -
    have "u \<in> near_rows d {x. has v x}" using that unfolding near_rows_def near_def by blast
    with V(3) show ?thesis by auto
  qed
  then show "get i u = (if u \<in> component d seeds then get (intents d) u else None)"
    using ld(2) by (auto simp: loaded_def mem [symmetric] split: option.splits)
qed


section \<open>Writing the placements back\<close>

datatype projection_mode = Full | Components

text \<open>The \<open>UPDATE\<close> of one placement, and the check that leaves an unchanged row alone.\<close>

definition materialize :: "intent \<Rightarrow> block_row \<Rightarrow> block_row" where
  "materialize i r =
     r\<lparr>b_page := i_page i, b_parent := i_parent i, b_order := i_order i,
       b_structure_hlc := Some (i_hlc i), b_updated := max (b_updated r) (timestamp_seconds (i_hlc i))\<rparr>"

definition row_unchanged :: "intent \<Rightarrow> structure_row \<Rightarrow> bool" where
  "row_unchanged i row \<longleftrightarrow>
     s_page row = i_page i \<and> s_parent row = i_parent i \<and> s_order row = i_order i \<and>
     s_hlc row = Some (i_hlc i) \<and> timestamp_seconds (i_hlc i) \<le> s_updated row"

definition write_placement :: "(uuid, structure_row) table \<Rightarrow> uuid \<Rightarrow> intent \<Rightarrow> db \<Rightarrow> db" where
  "write_placement existing u i d =
     (if (case get existing u of None \<Rightarrow> False | Some row \<Rightarrow> row_unchanged i row) then d
      else d\<lparr>blocks := upd u (materialize i) (blocks d)\<rparr>)"

definition structure_input_for :: "projection_mode \<Rightarrow> uuids \<Rightarrow> db \<Rightarrow> structure_input" where
  "structure_input_for mode seeds d =
     (case mode of Full \<Rightarrow> load_full_structure d | Components \<Rightarrow> load_components d seeds)"

definition reconcile_structure :: "projection_mode \<Rightarrow> uuids \<Rightarrow> db \<Rightarrow> db" where
  "reconcile_structure mode seeds d =
     (let inp = structure_input_for mode seeds d
      in fold (\<lambda>(u, i). write_placement (in_blocks inp) u i) (rows (resolve_structure inp)) d)"

subsection \<open>What the write loop does\<close>

text \<open>The specification: every block with a resolved placement gets it.\<close>

definition place :: "(uuid, intent) table \<Rightarrow> db \<Rightarrow> db" where
  "place I d = d\<lparr>blocks := mapv (\<lambda>u r. case get I u of None \<Rightarrow> r | Some i \<Rightarrow> materialize i r) (blocks d)\<rparr>"

lemma unchanged_materialize: "row_unchanged i (structure_row_of r) \<Longrightarrow> materialize i r = r"
  by (cases r) (auto simp: row_unchanged_def structure_row_of_def materialize_def)

lemma upd_id:
  assumes "\<And>v. get t k = Some v \<Longrightarrow> f v = v"
  shows "upd k f t = t"
proof (rule table_eqI)
  fix k' show "get (upd k f t) k' = get t k'" using assms by (cases "get t k") auto
qed

lemma write_placement_upd:
  assumes "\<And>row. get existing u = Some row \<Longrightarrow> get (blocks d) u = Some r \<Longrightarrow> row = structure_row_of r"
    and "get (blocks d) u = Some r"
  shows "write_placement existing u i d = d\<lparr>blocks := upd u (materialize i) (blocks d)\<rparr>"
proof (cases "case get existing u of None \<Rightarrow> False | Some row \<Rightarrow> row_unchanged i row")
  case True
  then have "row_unchanged i (structure_row_of r)" using assms by (auto split: option.splits)
  then have "upd u (materialize i) (blocks d) = blocks d"
    using assms(2) by (intro upd_id) (auto intro: unchanged_materialize)
  with True show ?thesis by (simp add: write_placement_def)
next
  case False
  then show ?thesis by (simp add: write_placement_def)
qed

lemma fold_write_placement:
  assumes "distinct (map fst xs)"
    and "\<And>u i. (u, i) \<in> set xs \<Longrightarrow> \<exists>r. get (blocks d) u = Some r \<and> get existing u = Some (structure_row_of r)"
  shows "fold (\<lambda>(u, i). write_placement existing u i) xs d =
         d\<lparr>blocks := mapv (\<lambda>u r. case map_of xs u of None \<Rightarrow> r | Some i \<Rightarrow> materialize i r) (blocks d)\<rparr>"
  using assms
proof (induction xs arbitrary: d)
  case Nil
  have "mapv (\<lambda>u r. r) (blocks d) = blocks d" by (rule table_eqI) (simp add: option.map_ident)
  then show ?case by simp
next
  case (Cons x xs)
  obtain u i where x: "x = (u, i)" by force
  from Cons.prems(2) [of u i] obtain r where
    r: "get (blocks d) u = Some r" "get existing u = Some (structure_row_of r)" by (auto simp: x)
  let ?d = "write_placement existing u i d"
  have d: "?d = d\<lparr>blocks := upd u (materialize i) (blocks d)\<rparr>"
    by (rule write_placement_upd [of _ _ _ r]) (use r in auto)
  have fresh: "u \<notin> fst ` set xs" using Cons.prems(1) by (simp add: x)
  have "\<exists>r. get (blocks ?d) v = Some r \<and> get existing v = Some (structure_row_of r)" if "(v, j) \<in> set xs" for v j
  proof -
    have "v \<noteq> u" using that fresh by force
    then show ?thesis using Cons.prems(2) [of v j] that by (simp add: d x)
  qed
  then have IH: "fold (\<lambda>(u, i). write_placement existing u i) xs ?d =
      ?d\<lparr>blocks := mapv (\<lambda>u r. case map_of xs u of None \<Rightarrow> r | Some i \<Rightarrow> materialize i r) (blocks ?d)\<rparr>"
    using Cons.prems(1) by (intro Cons.IH) (auto simp: x)
  have none: "map_of xs u = None" using fresh by (simp add: map_of_eq_None_iff)
  have "mapv (\<lambda>u r. case map_of xs u of None \<Rightarrow> r | Some i \<Rightarrow> materialize i r) (upd u (materialize i) (blocks d)) =
        mapv (\<lambda>v r. case map_of (x # xs) v of None \<Rightarrow> r | Some i \<Rightarrow> materialize i r) (blocks d)"
    by (rule table_eqI) (use none in \<open>auto simp: x option.map_comp comp_def split: if_splits\<close>)
  then show ?case using IH by (simp add: x d)
qed

lemma get_load_full [simp]:
  "get (in_blocks (load_full_structure d)) u = map_option structure_row_of (get (blocks d) u)"
  "has (in_pages (load_full_structure d)) p \<longleftrightarrow> has (pages d) p"
  "in_intents (load_full_structure d) = intents d"
  by (simp_all add: load_full_structure_def)

lemma get_load_components:
  "get (in_blocks (load_components d seeds)) u =
     (if u \<in> component d seeds then map_option structure_row_of (get (blocks d) u) else None)"
  "get (in_intents (load_components d seeds)) u =
     (if u \<in> component d seeds then get (intents d) u else None)"
  "u \<in> component d seeds \<Longrightarrow> get (intents d) u = Some i \<Longrightarrow>
     has (in_pages (load_components d seeds)) (i_page i) \<longleftrightarrow> has (pages d) (i_page i)"
proof -
  obtain v e found where l: "load_loop d tempty seeds tempty tempty = (v, e, found)"
    by (metis surj_pair)
  note spec = load_loop_spec [OF l]
  show "get (in_blocks (load_components d seeds)) u =
     (if u \<in> component d seeds then map_option structure_row_of (get (blocks d) u) else None)"
    by (simp add: load_components_def l spec)
  show "get (in_intents (load_components d seeds)) u =
     (if u \<in> component d seeds then get (intents d) u else None)"
    by (simp add: load_components_def l spec)
  assume "u \<in> component d seeds" "get (intents d) u = Some i"
  then have "(u, i) \<in> set (rows found)" by (simp add: set_rows spec)
  then show "has (in_pages (load_components d seeds)) (i_page i) \<longleftrightarrow> has (pages d) (i_page i)"
    by (force simp: load_components_def l has_def split: option.splits)
qed

lemma resolve_block:
  assumes "get (resolve_structure (structure_input_for mode seeds d)) u = Some i"
  shows "\<exists>r. get (blocks d) u = Some r \<and>
             get (in_blocks (structure_input_for mode seeds d)) u = Some (structure_row_of r)"
proof -
  have "has (retain_usable (structure_input_for mode seeds d)) u"
    using assms by (auto simp: resolve_rows has_def)
  then have "has (in_blocks (structure_input_for mode seeds d)) u" by (auto simp: retain_usable_def)
  then show ?thesis
    by (cases mode) (auto simp: structure_input_for_def has_def get_load_components split: if_splits)
qed

lemma reconcile_place:
  "reconcile_structure mode seeds d = place (resolve_structure (structure_input_for mode seeds d)) d"
proof -
  have "fold (\<lambda>(u, i). write_placement (in_blocks (structure_input_for mode seeds d)) u i)
          (rows (resolve_structure (structure_input_for mode seeds d))) d =
        d\<lparr>blocks := mapv (\<lambda>u r. case map_of (rows (resolve_structure (structure_input_for mode seeds d))) u of
                                 None \<Rightarrow> r | Some i \<Rightarrow> materialize i r) (blocks d)\<rparr>"
    by (rule fold_write_placement [OF rows_distinct]) (metis resolve_block set_rows)
  then show ?thesis by (simp add: reconcile_structure_def Let_def place_def get.rep_eq)
qed


section \<open>The component projection is the full projection\<close>

text \<open>Two intent tables that agree on a set closed under parents have the same victims there.\<close>

lemma agree_trancl:
  assumes agree: "\<And>u. u \<in> K \<Longrightarrow> parent_of I u = parent_of J u"
    and closed: "\<And>u p. u \<in> K \<Longrightarrow> parent_of I u = Some p \<Longrightarrow> p \<in> K"
    and "(u, w) \<in> (edges I)\<^sup>+" and "u \<in> K"
  shows "(u, w) \<in> (edges J)\<^sup>+ \<and> w \<in> K"
  using assms(3)
proof (induction rule: trancl_induct)
  case (base y)
  then show ?case using agree closed assms(4) by (auto simp: edges_iff)
next
  case (step y z)
  then have "(y, z) \<in> edges J" "z \<in> K" using agree closed by (auto simp: edges_iff)
  with step show ?case by (auto intro: trancl_into_trancl)
qed

lemma agree_victim:
  assumes agree: "\<And>u. u \<in> K \<Longrightarrow> get I u = get J u"
    and closed: "\<And>u p. u \<in> K \<Longrightarrow> parent_of I u = Some p \<Longrightarrow> p \<in> K" and u: "u \<in> K"
  shows "victim I u \<longleftrightarrow> victim J u"
proof -
  have par: "parent_of I v = parent_of J v" if "v \<in> K" for v using agree [OF that] by (simp add: parent_of_def)
  have fwd: "(v, w) \<in> (edges J)\<^sup>+ \<and> w \<in> K" if "(v, w) \<in> (edges I)\<^sup>+" "v \<in> K" for v w
    by (rule agree_trancl [of K I J]) (use par closed that in auto)
  have bwd: "(v, w) \<in> (edges I)\<^sup>+ \<and> w \<in> K" if "(v, w) \<in> (edges J)\<^sup>+" "v \<in> K" for v w
    by (rule agree_trancl [of K J I]) (use par closed that in auto)
  have key: "detach_key I v = detach_key J v" if "v \<in> K" for v
    using agree [OF that] by (simp add: detach_key_def)
  show ?thesis unfolding victim_def on_cycle_def using fwd bwd key u by metis
qed

lemma component_parent:
  assumes "u \<in> component d seeds"
    and "(\<exists>i. get (intents d) u = Some i \<and> i_parent i = Some p) \<or>
         (\<exists>r. get (blocks d) u = Some r \<and> b_parent r = Some p)"
  shows "p \<in> component d seeds"
proof -
  have "p \<in> near_rows d {u}" using assms(2) by (auto simp: near_rows_def near_def)
  then show ?thesis using component_closed [of "{u}" d seeds] assms(1) by auto
qed

lemma component_seed: "has seeds u \<Longrightarrow> u \<in> component d seeds"
  by (auto simp: component_def)

lemma retain_components:
  "get (retain_usable (load_components d seeds)) u =
     (if u \<in> component d seeds then get (retain_usable (load_full_structure d)) u else None)"
  by (cases "get (intents d) u")
    (auto simp: retain_usable_def get_load_components has_def [of _ u] split: option.splits)

lemma retain_full_intent:
  "get (retain_usable (load_full_structure d)) u = Some i \<Longrightarrow> get (intents d) u = Some i"
  by (auto simp: retain_usable_def split: option.splits if_splits)

lemma drop_components:
  assumes u: "u \<in> component d seeds"
  shows "get (drop_rejected_parents (load_components d seeds) (retain_usable (load_components d seeds))) u =
         get (drop_rejected_parents (load_full_structure d) (retain_usable (load_full_structure d))) u"
proof (cases "get (retain_usable (load_full_structure d)) u")
  case None
  then show ?thesis by (simp add: drop_rejected_parents_def retain_components u)
next
  case (Some i)
  have "parent_rejected (in_blocks (load_components d seeds))
          (\<lambda>v. map_option i_page (get (retain_usable (load_components d seeds)) v)) i =
        parent_rejected (in_blocks (load_full_structure d))
          (\<lambda>v. map_option i_page (get (retain_usable (load_full_structure d)) v)) i"
  proof (cases "i_parent i")
    case (Some p)
    have "p \<in> component d seeds"
      using component_parent [OF u, of p] retain_full_intent [OF \<open>get _ u = Some i\<close>] Some by blast
    then show ?thesis by (simp add: parent_rejected_def Some get_load_components retain_components)
  qed (simp add: parent_rejected_def)
  with Some u show ?thesis by (simp add: drop_rejected_parents_def retain_components)
qed

lemma resolve_components:
  "get (resolve_structure (load_components d seeds)) u =
     (if u \<in> component d seeds then get (resolve_structure (load_full_structure d)) u else None)"
proof (cases "u \<in> component d seeds")
  case False
  then show ?thesis by (simp add: resolve_cut cut_victims_def drop_rejected_parents_def retain_components)
next
  case True
  let ?I = "drop_rejected_parents (load_components d seeds) (retain_usable (load_components d seeds))"
  let ?J = "drop_rejected_parents (load_full_structure d) (retain_usable (load_full_structure d))"
  have "victim ?I u \<longleftrightarrow> victim ?J u"
  proof (rule agree_victim [of "component d seeds"])
    fix v p assume v: "v \<in> component d seeds" "parent_of ?I v = Some p"
    then obtain i where "get (retain_usable (load_full_structure d)) v = Some i" "i_parent i = Some p"
      by (auto simp: parent_of_def drop_rejected_parents_def retain_components
          split: option.splits if_splits)
    then show "p \<in> component d seeds"
      using component_parent [OF v(1), of p] retain_full_intent by blast
  qed (use True drop_components in auto)
  then show ?thesis using True drop_components [OF True] by (simp add: resolve_cut cut_victims_def)
qed

text \<open>A block whose row already shows the placement the full projection would write.\<close>

definition settled :: "db \<Rightarrow> uuid \<Rightarrow> bool" where
  "settled d u \<longleftrightarrow>
     (\<forall>i r. get (resolve_structure (load_full_structure d)) u = Some i \<longrightarrow>
            get (blocks d) u = Some r \<longrightarrow> materialize i r = r)"

subsection \<open>Projecting twice\<close>

lemma load_full_place:
  "in_pages (load_full_structure (place I d)) = in_pages (load_full_structure d)"
  "in_intents (load_full_structure (place I d)) = in_intents (load_full_structure d)"
  "map_option s_existence (get (in_blocks (load_full_structure (place I d))) u) =
     map_option s_existence (get (in_blocks (load_full_structure d)) u)"
  by (simp_all add: load_full_structure_def place_def option.map_comp comp_def structure_row_of_def
      materialize_def split: option.split) (auto simp: materialize_def intro!: option.map_cong split: option.splits)

text \<open>The resolver reads only the existence clock of a block.\<close>

lemma resolve_congruent:
  assumes pages: "in_pages inp = in_pages inp'" and intents: "in_intents inp = in_intents inp'"
    and rows: "\<And>u. map_option s_existence (get (in_blocks inp) u) = map_option s_existence (get (in_blocks inp') u)"
  shows "resolve_structure inp = resolve_structure inp'"
proof -
  have dom: "has (in_blocks inp) u \<longleftrightarrow> has (in_blocks inp') u" for u
    unfolding has_def using rows [of u] by (metis option.map_disc_iff)
  have retain: "retain_usable inp = retain_usable inp'"
    by (simp add: retain_usable_def pages intents dom)
  have "parent_rejected (in_blocks inp) f i = parent_rejected (in_blocks inp') f i" for f i
  proof (cases "i_parent i")
    case (Some p)
    then show ?thesis using rows [of p] by (auto simp: parent_rejected_def split: option.splits)
  qed (simp add: parent_rejected_def)
  then have "drop_rejected_parents inp I = drop_rejected_parents inp' I" for I
    by (simp add: drop_rejected_parents_def)
  then show ?thesis by (simp add: resolve_cut retain)
qed

lemma resolve_place:
  "resolve_structure (load_full_structure (place I d)) = resolve_structure (load_full_structure d)"
  by (rule resolve_congruent) (simp_all only: load_full_place)

lemma materialize_twice [simp]: "materialize i (materialize i r) = materialize i r"
  by (simp add: materialize_def)

lemma materialize_parent [simp]: "b_parent (materialize i r) = i_parent i"
  by (simp add: materialize_def)


subsection \<open>The materialized forest\<close>

definition block_edges :: "db \<Rightarrow> (uuid \<times> uuid) set" where
  "block_edges d = {(u, p). \<exists>r. get (blocks d) u = Some r \<and> b_parent r = Some p}"

definition forest :: "db \<Rightarrow> bool" where
  "forest d \<longleftrightarrow> acyclic (block_edges d)"

lemma acyclic_graft:
  assumes A: "acyclic A" "A \<subseteq> D \<times> D" and E: "acyclic E"
    and N: "\<And>u p. (u, p) \<in> N \<Longrightarrow> (if u \<in> D then (u, p) \<in> A else (u, p) \<in> E)"
  shows "acyclic N"
proof (rule acyclicI, intro allI notI)
  fix x assume cyc: "(x, x) \<in> N\<^sup>+"
  have stay: "(u, v) \<in> A\<^sup>+ \<and> v \<in> D" if "(u, v) \<in> N\<^sup>+" "u \<in> D" for u v
    using that(1)
  proof (induction rule: trancl_induct)
    case (base y)
    then show ?case using N [of u y] that(2) A(2) by auto
  next
    case (step y z)
    then have "(y, z) \<in> A" "z \<in> D" using N [of y z] A(2) by auto
    with step.IH show ?case by (auto intro: trancl_into_trancl)
  qed
  show False
  proof (cases "x \<in> D")
    case True
    with stay cyc A(1) show False by (auto simp: acyclic_def)
  next
    case False
    have out: "(u, v) \<in> E\<^sup>+" if "(u, v) \<in> N\<^sup>+" "v \<notin> D" for u v
      using that
    proof (induction rule: converse_trancl_induct)
      case (base y)
      then show ?case using N [of y v] A(2) by (cases "y \<in> D") auto
    next
      case (step y z)
      have "y \<notin> D"
      proof
        assume "y \<in> D"
        then have "z \<in> D" using N [of y z] step.hyps(1) A(2) by auto
        with stay step.hyps(2) step.prems show False by blast
      qed
      then have "(y, z) \<in> E" using N [of y z] step.hyps(1) by simp
      with step.IH step.prems show ?case by (auto intro: trancl_into_trancl2)
    qed
    with cyc False E show False by (auto simp: acyclic_def)
  qed
qed

lemma resolve_edges_closed:
  "edges (resolve_structure inp) \<subseteq> {u. has (resolve_structure inp) u} \<times> {u. has (resolve_structure inp) u}"
proof -
  have "has (resolve_structure inp) u \<and> has (resolve_structure inp) p"
    if "(u, p) \<in> edges (resolve_structure inp)" for u p
  proof -
    from that obtain i where i: "get (resolve_structure inp) u = Some i" "i_parent i = Some p"
      by (auto simp: edges_iff parent_of_def split: option.splits)
    then have "has (retain_usable inp) p"
      by (auto simp: resolve_rows parent_rejected_def has_def split: if_splits option.splits)
    then have "has (resolve_structure inp) p" by (auto simp: resolve_rows has_def)
    with i show ?thesis by (auto intro: has_SomeI)
  qed
  then show ?thesis by (auto simp del: split_paired_All)
qed

lemma forest_place: "forest d \<Longrightarrow> forest (place (resolve_structure inp) d)"
  unfolding forest_def
proof (rule acyclic_graft [OF _ resolve_edges_closed, of inp])
  show "acyclic (edges (resolve_structure inp))" by (simp add: resolve_cut cut_acyclic)
  fix u p assume "(u, p) \<in> block_edges (place (resolve_structure inp) d)"
  then show "if u \<in> {u. has (resolve_structure inp) u} then (u, p) \<in> edges (resolve_structure inp)
             else (u, p) \<in> block_edges d"
    by (cases "get (resolve_structure inp) u")
      (auto simp: block_edges_def place_def edges_iff parent_of_def has_def)
qed

section \<open>Properties\<close>

definition sample_block :: block_row where
  "sample_block =
     \<lparr>b_page = 9, b_parent = None, b_order = first_key, b_style = Paragraph, b_markdown = [],
      b_stemmed = [], b_markdown_hlc = None, b_style_hlc = None, b_structure_hlc = None,
      b_existence = Hlc 1 0 1, b_created = 0, b_updated = 0\<rparr>"

definition sample_page :: page_row where
  "sample_page =
     \<lparr>p_title = None, p_normalized = None, p_title_stemmed = [], p_layout = Outline,
      p_title_hlc = None, p_layout_hlc = None, p_existence = Hlc 1 0 1, p_created = 0, p_updated = 0\<rparr>"

text \<open>A replica that holds the two crossing moves of \<open>sample_input\<close> and has not projected them.\<close>

definition sample_db :: db where
  "sample_db = (empty_db 7)\<lparr>pages := put 9 sample_page tempty, identities := put 9 Note tempty,
     blocks := put 1 sample_block (put 2 sample_block tempty), intents := in_intents sample_input\<rparr>"

text \<open>
  The loader follows materialized and intended parent edges in both directions, batch by
  batch, until nothing new appears: it loads exactly the blocks and intents of the components
  that contain a seed.
\<close>

theorem load_components_exact:
  "get (in_blocks (load_components d seeds)) u =
     (if u \<in> component d seeds then map_option structure_row_of (get (blocks d) u) else None) \<and>
   get (in_intents (load_components d seeds)) u =
     (if u \<in> component d seeds then get (intents d) u else None)"
  by (simp add: get_load_components)

text \<open>
  C17. Projecting only the dirty components gives the database that projecting everything gives,
  when every block outside them already shows its placement.
\<close>

theorem component_projection_is_full:
  assumes "\<forall>u. u \<notin> component d seeds \<longrightarrow> settled d u"
  shows "reconcile_structure Components seeds d = reconcile_structure Full seeds d"
proof -
  have "place (resolve_structure (load_components d seeds)) d = place (resolve_structure (load_full_structure d)) d"
  proof -
    have "mapv (\<lambda>u r. case get (resolve_structure (load_components d seeds)) u of None \<Rightarrow> r | Some i \<Rightarrow> materialize i r) (blocks d) =
          mapv (\<lambda>u r. case get (resolve_structure (load_full_structure d)) u of None \<Rightarrow> r | Some i \<Rightarrow> materialize i r) (blocks d)"
    proof (rule table_eqI)
      fix u
      show "get (mapv (\<lambda>u r. case get (resolve_structure (load_components d seeds)) u of None \<Rightarrow> r | Some i \<Rightarrow> materialize i r) (blocks d)) u =
            get (mapv (\<lambda>u r. case get (resolve_structure (load_full_structure d)) u of None \<Rightarrow> r | Some i \<Rightarrow> materialize i r) (blocks d)) u"
        using assms by (cases "get (blocks d) u")
          (auto simp: resolve_components settled_def split: option.splits)
    qed
    then show ?thesis by (simp add: place_def)
  qed
  then show ?thesis by (simp add: reconcile_place structure_input_for_def)
qed

theorem component_projection_is_full_witness:
  "reconcile_structure Components (put 1 () (put 2 () tempty)) sample_db =
   reconcile_structure Full (put 1 () (put 2 () tempty)) sample_db"
proof (rule component_projection_is_full, intro allI impI)
  fix u assume "u \<notin> component sample_db (put 1 () (put 2 () tempty))"
  then have "\<not> has (put 1 () (put 2 () tempty)) u" by (meson component_seed)
  then have "get (blocks sample_db) u = None" by (simp add: sample_db_def empty_db_def)
  then show "settled sample_db u" by (simp add: settled_def)
qed

text \<open>
  The full projection is a fixed point: a second one writes nothing, and every block is
  settled, which is the state the component projection starts from.
\<close>

theorem full_projection_settles:
  "reconcile_structure Full seeds' (reconcile_structure Full seeds d) = reconcile_structure Full seeds d \<and>
   settled (reconcile_structure Full seeds d) u"
proof -
  let ?I = "resolve_structure (load_full_structure d)"
  have "mapv (\<lambda>u r. case get ?I u of None \<Rightarrow> r | Some i \<Rightarrow> materialize i r) (blocks (place ?I d)) = blocks (place ?I d)"
  proof (rule table_eqI)
    fix k
    show "get (mapv (\<lambda>u r. case get ?I u of None \<Rightarrow> r | Some i \<Rightarrow> materialize i r) (blocks (place ?I d))) k =
          get (blocks (place ?I d)) k"
      by (cases "get ?I k"; cases "get (blocks d) k") (simp_all add: place_def)
  qed
  then have "place ?I (place ?I d) = place ?I d" by (simp add: place_def)
  moreover have "settled (place ?I d) u"
    unfolding settled_def resolve_place by (auto simp: place_def split: option.splits)
  ultimately show ?thesis by (simp add: reconcile_place structure_input_for_def resolve_place)
qed

text \<open>
  A projection never creates a cycle among the stored parents, although a block whose
  destination is not live keeps its old parent while the others move.
\<close>

theorem projection_keeps_forest:
  assumes "forest d"
  shows "forest (reconcile_structure mode seeds d)"
  using assms by (simp add: reconcile_place forest_place)

theorem projection_keeps_forest_witness:
  "forest (reconcile_structure Full tempty sample_db)"
proof (rule projection_keeps_forest)
  have "block_edges sample_db = {}"
    by (auto simp: block_edges_def sample_db_def empty_db_def sample_block_def split: if_splits)
  then show "forest sample_db" by (simp add: forest_def acyclic_def)
qed

end
