(* ===== verification/Rows.thy ===== *)
theory Rows
  imports Lww Projection
begin

text \<open>
  The single-row reads and writes of \<open>crates/notes-core/src/operation.rs\<close> that the handlers
  share: immutable page identities, the kind guard on UUIDs, tombstone tests, and the
  materialization of attachments from their intents.
\<close>

section \<open>Page identities\<close>

definition validate_page_identity :: "externals \<Rightarrow> uuid \<Rightarrow> uuid \<Rightarrow> page_kind \<Rightarrow> core_error + unit" where
  "validate_page_identity ext workspace_uuid page kind =
     (case kind of
        Journal date \<Rightarrow>
          guard (page = journal_page_uuid ext workspace_uuid date)
            (InvalidInput ''journal must use deterministic UUID'') (Inr ())
      | _ \<Rightarrow> Inr ())"

definition page_identity :: "db \<Rightarrow> uuid \<Rightarrow> page_kind option" where
  "page_identity d page = get (identities d) page"

text \<open>The unique index on \<open>journal_date\<close> is the only constraint an insertion can violate.\<close>

definition insert_page_identity :: "uuid \<Rightarrow> page_kind \<Rightarrow> db \<Rightarrow> core_error + db" where
  "insert_page_identity page kind d =
     guard (\<not> (is_journal kind \<and> (\<exists>(p, k) \<in> set (rows (identities d)). k = kind))) Database
       (Inr (d\<lparr>identities := put page kind (identities d)\<rparr>))"

definition ensure_page_identity :: "externals \<Rightarrow> uuid \<Rightarrow> page_kind \<Rightarrow> db \<Rightarrow> core_error + db" where
  "ensure_page_identity ext page kind d =
     attempt (validate_page_identity ext (workspace d) page kind) (\<lambda>_.
       case page_identity d page of
         Some existing \<Rightarrow>
           guard (existing = kind) (Conflict ''page UUID is already reserved for a different page kind'') (Inr d)
       | None \<Rightarrow> insert_page_identity page kind d)"

definition materialize_page_kind :: "uuid \<Rightarrow> page_kind \<Rightarrow> db \<Rightarrow> core_error + db" where
  "materialize_page_kind page kind d =
     (case kind of
        Journal date \<Rightarrow>
          guard (\<not> (\<exists>(p, t) \<in> set (rows (journal_pages d)). p \<noteq> page \<and> t = date)) Database
            (Inr (d\<lparr>journal_pages := put page date (journal_pages d)\<rparr>))
      | _ \<Rightarrow> Inr (d\<lparr>journal_pages := del page (journal_pages d)\<rparr>))"

text \<open>A UUID belongs to one kind of object for ever, deleted or not.\<close>

definition kind_conflicts :: "db \<Rightarrow> uuid \<Rightarrow> object_kind \<Rightarrow> bool" where
  "kind_conflicts d u expected =
     (let page_exists = has (identities d) u; block_exists = has (blocks d) u;
          tombstone_kind = map_option t_kind (get (tombstones d) u)
      in case expected of
           PageObject \<Rightarrow> block_exists \<or> tombstone_kind = Some BlockObject
         | BlockObject \<Rightarrow> page_exists \<or> tombstone_kind = Some PageObject)"

definition ensure_object_kind :: "db \<Rightarrow> uuid \<Rightarrow> object_kind \<Rightarrow> core_error + unit" where
  "ensure_object_kind d u expected =
     guard (\<not> kind_conflicts d u expected)
       (Conflict ''UUID is already reserved for a different object kind'') (Inr ())"

definition ensure_text_note_target :: "db \<Rightarrow> uuid \<Rightarrow> core_error + unit" where
  "ensure_text_note_target d page =
     guard (page_identity d page \<noteq> Some Handwriting)
       (InvalidInput ''Text blocks and text layouts are not supported for handwritten notes'') (Inr ())"

section \<open>Tombstones and clocks\<close>

definition tombstone_dominates :: "db \<Rightarrow> uuid \<Rightarrow> hlc \<Rightarrow> bool" where
  "tombstone_dominates d u t =
     (case get (tombstones d) u of None \<Rightarrow> False | Some r \<Rightarrow> t \<le> t_hlc r)"

definition is_tombstoned :: "db \<Rightarrow> uuid \<Rightarrow> bool" where
  "is_tombstoned d u = has (tombstones d) u"

definition tombstone_equals :: "db \<Rightarrow> uuid \<Rightarrow> hlc \<Rightarrow> bool" where
  "tombstone_equals d u t =
     (case get (tombstones d) u of None \<Rightarrow> False | Some r \<Rightarrow> t_hlc r = t)"

definition hlc_wins :: "hlc option \<Rightarrow> hlc \<Rightarrow> bool" where
  "hlc_wins current incoming = (case current of None \<Rightarrow> True | Some c \<Rightarrow> c < incoming)"

section \<open>Attachments\<close>

text \<open>
  \<open>Uuid::NAMESPACE_OID\<close>, and the text that names an attachment; \<open>kind\<close>, owner UUID and digest
  are displayed as the source formats them.
\<close>

definition namespace_oid :: uuid where
  "namespace_oid = 0x6ba7b8129dad11d180b400c04fd430c8"

definition attachment_uuid :: "externals \<Rightarrow> attachment_owner \<Rightarrow> blob_hash \<Rightarrow> uuid" where
  "attachment_uuid ext owner hash =
     uuid_v5 ext namespace_oid
       (''notes-rs:attachment:'' @ object_kind_str (owner_kind owner) @ '':'' @
        uuid_hyphenated ext (owner_uuid owner) @ '':'' @ hex_fixed lower_digit 64 (unat hash))"

definition owner_exists :: "db \<Rightarrow> attachment_owner \<Rightarrow> bool" where
  "owner_exists d owner =
     (case owner of PageOwner u \<Rightarrow> has (pages d) u | BlockOwner u \<Rightarrow> has (blocks d) u)"

text \<open>
  The upsert into \<open>attachments\<close>: an existing row keeps its digest and creation time; the two
  \<open>UNIQUE(owner, blob_hash)\<close> constraints can fail.
\<close>

definition upsert_attachment :: "uuid \<Rightarrow> attachment_row \<Rightarrow> db \<Rightarrow> core_error + db" where
  "upsert_attachment u row d =
     (let row = (case get (attachments d) u of
                   None \<Rightarrow> row
                 | Some old \<Rightarrow> old\<lparr>a_owner := a_owner row, a_filename := a_filename row,
                                 a_mime := a_mime row, a_size := a_size row\<rparr>)
      in guard (\<not> (\<exists>(v, r) \<in> set (rows (attachments d)).
                    v \<noteq> u \<and> a_owner r = a_owner row \<and> a_hash r = a_hash row)) Database
           (Inr (d\<lparr>attachments := put u row (attachments d)\<rparr>)))"

definition reconcile_attachment :: "attachment_owner \<times> blob_hash \<Rightarrow> db \<Rightarrow> core_error + db" where
  "reconcile_attachment key d =
     (case get (attachment_lww d) key of
        None \<Rightarrow> Inr d
      | Some w \<Rightarrow>
          if \<not> w_present w \<or> \<not> owner_exists d (fst key)
          then Inr (d\<lparr>attachments := del (w_uuid w) (attachments d)\<rparr>)
          else
            (case (w_filename w, w_mime w, w_size w) of
               (Some filename, Some mime, Some bytes) \<Rightarrow>
                 upsert_attachment (w_uuid w)
                   \<lparr>a_owner = fst key, a_hash = snd key, a_filename = filename, a_mime = mime,
                    a_size = bytes, a_created = timestamp_seconds (w_hlc w)\<rparr> d
             | _ \<Rightarrow> Inr d))"

definition reconcile_attachments_for_owner :: "attachment_owner \<Rightarrow> db \<Rightarrow> core_error + db" where
  "reconcile_attachments_for_owner owner d =
     fold_res reconcile_attachment (filter (\<lambda>k. fst k = owner) (keys (attachment_lww d))) d"

definition reconcile_all_attachments :: "db \<Rightarrow> core_error + db" where
  "reconcile_all_attachments d = fold_res reconcile_attachment (keys (attachment_lww d)) d"

section \<open>Frame facts\<close>

lemma reconcile_attachment_frame:
  assumes "reconcile_attachment key d = Inr d'"
  shows "\<exists>t. d' = d\<lparr>attachments := t\<rparr>"
proof -
  have self: "\<exists>t. d = d\<lparr>attachments := t\<rparr>" by (intro exI [of _ "attachments d"]) simp
  show ?thesis
    using assms self
    by (auto simp: reconcile_attachment_def upsert_attachment_def Let_def res split: option.splits if_splits)
qed

lemma fold_attachments_frame:
  "fold_res reconcile_attachment ks d = Inr d' \<Longrightarrow> \<exists>t. d' = d\<lparr>attachments := t\<rparr>"
proof (induction ks arbitrary: d)
  case Nil
  then show ?case by (intro exI [of _ "attachments d"]) simp
next
  case (Cons k ks)
  then obtain d1 where "reconcile_attachment k d = Inr d1" "fold_res reconcile_attachment ks d1 = Inr d'"
    by (auto simp: res)
  then show ?case using Cons.IH reconcile_attachment_frame by fastforce
qed

lemma reconcile_owner_frame:
  "reconcile_attachments_for_owner owner d = Inr d' \<Longrightarrow> \<exists>t. d' = d\<lparr>attachments := t\<rparr>"
  by (auto simp: reconcile_attachments_for_owner_def dest: fold_attachments_frame)

end
