(* ===== verification/Ink.thy ===== *)
theory Ink
  imports Rows
begin

text \<open>
  The handwriting side of the apply boundary: publications and their causal version graph
  (\<open>crates/notes-core/src/ink/versions.rs\<close>), ownership of immutable bytes by the outbox
  (\<open>ink/outbox_retention.rs\<close>), and the garbage collection and purge of \<open>ink/storage.rs\<close> and
  \<open>ink/storage/history.rs\<close>.
\<close>

record version =
  ve_publication :: publish
  ve_device :: uuid
  ve_hlc :: hlc

definition publish_validate :: "publish \<Rightarrow> core_error + unit" where
  "publish_validate p =
     guard (\<not> (page_uuid p = 0 \<or> version_uuid p = 0 \<or> 128 < length (parents p) \<or>
               length (remdups (parents p)) \<noteq> length (parents p) \<or>
               list_ex (\<lambda>q. q = 0 \<or> q = version_uuid p) (parents p) \<or>
               trim (device_name p) = [] \<or> 256 < length (device_name p)))
       (InvalidInput ''Invalid handwriting publication'') (Inr ())"

definition version_parents :: "ink_tables \<Rightarrow> uuid \<Rightarrow> uuid list" where
  "version_parents t v = map snd (filter (\<lambda>(w, _). w = v) (keys (ink_parents t)))"

definition get_version :: "ink_tables \<Rightarrow> uuid \<Rightarrow> version option" where
  "get_version t v =
     map_option
       (\<lambda>r. \<lparr>ve_publication =
               \<lparr>version_uuid = v, page_uuid = v_page r, parents = version_parents t v,
                root_hash = v_root_hash r, device_name = v_device_name r\<rparr>,
             ve_device = v_device r, ve_hlc = v_hlc r\<rparr>)
       (get (ink_versions t) v)"

definition all_versions :: "ink_tables \<Rightarrow> version list" where
  "all_versions t = List.map_filter (get_version t) (keys (ink_versions t))"

definition head_ids :: "ink_tables \<Rightarrow> uuid \<Rightarrow> uuid list" where
  "head_ids t page =
     filter (\<lambda>v. (case get (ink_versions t) v of Some r \<Rightarrow> v_page r = page | None \<Rightarrow> False) \<and>
                 \<not> (\<exists>(w, p) \<in> set (keys (ink_parents t)). p = v))
       (keys (ink_versions t))"

definition fresh_document :: ink_document_row where
  "fresh_document =
     \<lparr>d_root = None, d_revision = None, d_cursor = 0, d_dirty = False, d_editing = False,
      d_publication_requested = False, d_base = None\<rparr>"

text \<open>
  A note with exactly one head follows it, unless the local drawing has unpublished changes or
  is open for editing. The revision is a fresh identifier.
\<close>

definition adopt_single_head :: "externals \<Rightarrow> uuid \<Rightarrow> ink_tables \<Rightarrow> ink_tables" where
  "adopt_single_head ext page t =
     (case head_ids t page of
        [head] \<Rightarrow>
          (let t = (if has (ink_documents t) page then t
                    else t\<lparr>ink_documents := put page fresh_document (ink_documents t)\<rparr>);
               doc = (case get (ink_documents t) page of Some r \<Rightarrow> r | None \<Rightarrow> fresh_document)
           in if d_dirty doc \<or> d_editing doc \<or> d_base doc = Some head then t
              else case Option.bind (get (ink_versions t) head) v_root of
                     None \<Rightarrow> t
                   | Some root \<Rightarrow>
                       t\<lparr>ink_history := put (page, 0) root (filt (\<lambda>(p, _) _. p \<noteq> page) (ink_history t)),
                         ink_documents := put page
                           (doc\<lparr>d_root := Some root,
                                d_revision := Some (uuid_hyphenated ext (fresh_uuid ext head)),
                                d_cursor := 0, d_base := Some head\<rparr>) (ink_documents t)\<rparr>)
      | _ \<Rightarrow> t)"

text \<open>The local root that already holds the published bytes, if any.\<close>

definition known_root :: "ink_tables \<Rightarrow> blob_hash \<Rightarrow> ink_id option" where
  "known_root t hash =
     (case sort (List.map_filter (\<lambda>(h, r). if h = hash then Some r else None) (rows (ink_staged t)) @
                 List.map_filter (\<lambda>(_, r). if v_root_hash r = hash then v_root r else None)
                   (rows (ink_versions t))) of
        [] \<Rightarrow> None | r # _ \<Rightarrow> Some r)"

definition insert_version :: "version \<Rightarrow> ink_tables \<Rightarrow> ink_tables" where
  "insert_version v t =
     (let p = ve_publication v in
      t\<lparr>ink_versions := put (version_uuid p)
          \<lparr>v_page = page_uuid p, v_root_hash = root_hash p, v_root = known_root t (root_hash p),
           v_device_name = device_name p, v_device = ve_device v, v_hlc = ve_hlc v\<rparr> (ink_versions t),
        ink_parents := fold (\<lambda>q. put (version_uuid p, q) ()) (parents p) (ink_parents t)\<rparr>)"

text \<open>The recursive query over ancestors.\<close>

definition cyclic_version :: "uuid \<Rightarrow> ink_tables \<Rightarrow> bool" where
  "cyclic_version v t \<longleftrightarrow> (v, v) \<in> (set (keys (ink_parents t)))\<^sup>+"

definition apply_version :: "externals \<Rightarrow> version \<Rightarrow> db \<Rightarrow> core_error + db" where
  "apply_version ext v d =
     (let p = ve_publication v in
      attempt (publish_validate p) (\<lambda>_.
      attempt (ensure_page_identity ext (page_uuid p) Handwriting d) (\<lambda>d.
      case get_version (ink d) (version_uuid p) of
        Some existing \<Rightarrow>
          guard (existing = v\<lparr>ve_publication := p\<lparr>parents := sort (parents p)\<rparr>\<rparr>)
            (Conflict ''Handwriting version ID reused'') (Inr d)
      | None \<Rightarrow>
          guard (\<not> list_ex (\<lambda>q. case get (ink_versions (ink d)) q of
                                 Some r \<Rightarrow> v_page r \<noteq> page_uuid p | None \<Rightarrow> False) (parents p))
            (InvalidInput ''Handwriting parent belongs to another note'')
          (guard (\<not> list_ex (\<lambda>(w, q). q = version_uuid p \<and>
                                 (case get (ink_versions (ink d)) w of
                                    Some r \<Rightarrow> v_page r \<noteq> page_uuid p | None \<Rightarrow> False))
                     (keys (ink_parents (ink d))))
            (InvalidInput ''Handwriting child belongs to another note'')
          (let t = insert_version v (ink d) in
           guard (\<not> cyclic_version (version_uuid p) t) (InvalidInput ''Cyclic handwriting history'')
             (Inr (d\<lparr>ink := adopt_single_head ext (page_uuid p)
                              (t\<lparr>ink_staged := del (root_hash p) (ink_staged t)\<rparr>),
                     pages := upd (page_uuid p)
                       (\<lambda>r. r\<lparr>p_updated := max (p_updated r) (uint (wall_ms (ve_hlc v)) div 1000)\<rparr>)
                       (pages d)\<rparr>)))))))"

section \<open>Garbage collection\<close>

text \<open>\<open>keep_ink_roots\<close>: the roots some owner still names.\<close>

definition owned_roots :: "ink_tables \<Rightarrow> ink_id list" where
  "owned_roots t =
     map snd (rows (ink_history t)) @ map snd (rows (ink_staged t)) @
     List.map_filter (\<lambda>(_, r). v_root r) (rows (ink_versions t)) @
     List.map_filter (\<lambda>(_, r). d_root r) (rows (ink_documents t)) @
     map snd (keys (history_ink_roots t)) @
     List.map_filter (\<lambda>(_, (_, root)). root) (rows (ink_outbox_roots t))"

definition collect_ink :: "ink_tables \<Rightarrow> ink_tables" where
  "collect_ink t =
     (let keep = set (owned_roots t);
          record_refs = filt (\<lambda>(root, _) _. root \<in> keep) (ink_record_refs t);
          chunk_refs = filt (\<lambda>(root, _) _. root \<in> keep) (ink_chunk_refs t);
          live_records = keep \<union> snd ` set (keys record_refs);
          live_chunks = snd ` set (keys chunk_refs)
      in t\<lparr>ink_record_refs := record_refs, ink_chunk_refs := chunk_refs,
           ink_records := filt (\<lambda>i _. i \<in> live_records) (ink_records t),
           ink_chunks := filt (\<lambda>i _. i \<in> live_chunks) (ink_chunks t),
           ink_sealed := filt (\<lambda>i _. \<not> has (ink_chunks t) i \<or> i \<in> live_chunks) (ink_sealed t)\<rparr>)"

definition purge_page :: "uuid \<Rightarrow> ink_tables \<Rightarrow> ink_tables" where
  "purge_page page t =
     (let mine = (\<lambda>v. case get (ink_versions t) v of Some r \<Rightarrow> v_page r = page | None \<Rightarrow> False);
          hashes = List.map_filter (\<lambda>(_, r). if v_page r = page then Some (v_root_hash r) else None)
                     (rows (ink_versions t))
      in collect_ink
           (t\<lparr>ink_staged := filt (\<lambda>h _. h \<notin> set hashes) (ink_staged t),
              ink_versions := filt (\<lambda>_ r. v_page r \<noteq> page) (ink_versions t),
              ink_parents := filt (\<lambda>(v, _) _. \<not> mine v) (ink_parents t),
              ink_history := filt (\<lambda>(p, _) _. p \<noteq> page) (ink_history t),
              ink_documents := del page (ink_documents t)\<rparr>))"

section \<open>Ownership by the outbox\<close>

definition enqueue_ink :: "op \<Rightarrow> db \<Rightarrow> db" where
  "enqueue_ink operation d =
     (case op_kind operation of
        InkPublish p \<Rightarrow>
          (let t = ink d;
               root = (case filter (\<lambda>(_, h). h = root_hash p) (rows (ink_records t)) of
                         [] \<Rightarrow> None | (i, _) # _ \<Rightarrow> Some i);
               sealed = (case root of None \<Rightarrow> []
                         | Some r \<Rightarrow> map snd (filter (\<lambda>(q, _). q = r) (keys (ink_chunk_refs t))))
           in d\<lparr>ink := t\<lparr>ink_outbox_roots := put (op_id operation) (root_hash p, root) (ink_outbox_roots t),
                        ink_sealed := fold (\<lambda>c. put c ()) sealed (ink_sealed t)\<rparr>\<rparr>)
      | _ \<Rightarrow> d)"

text \<open>Both flags of \<open>remove_operation\<close>: whether the outbox changed, whether an owner went.\<close>

definition remove_operation :: "uuid \<Rightarrow> db \<Rightarrow> (bool \<times> bool) \<times> db" where
  "remove_operation u d =
     ((list_ex (\<lambda>r. o_op_id r = u) (outbox d), has (ink_outbox_roots (ink d)) u),
      d\<lparr>outbox := filter (\<lambda>r. o_op_id r \<noteq> u) (outbox d),
        ink := (ink d)\<lparr>ink_outbox_roots := del u (ink_outbox_roots (ink d))\<rparr>\<rparr>)"


section \<open>The version graph stays acyclic\<close>

definition version_edges :: "ink_tables \<Rightarrow> (uuid \<times> uuid) set" where
  "version_edges t = {(v, p). has (ink_parents t) (v, p)}"

lemma version_edges_keys: "set (keys (ink_parents t)) = version_edges t"
  by (auto simp: version_edges_def set_keys)

lemma adopt_parents [simp]: "ink_parents (adopt_single_head ext page t) = ink_parents t"
  by (simp add: adopt_single_head_def Let_def split: list.split option.split)

lemma new_edges_cycle:
  assumes E: "E \<subseteq> E'" and new: "\<And>a b. (a, b) \<in> E' \<Longrightarrow> (a, b) \<notin> E \<Longrightarrow> a = v"
    and v: "(v, v) \<notin> E'\<^sup>+" and acyc: "acyclic E"
  shows "acyclic E'"
proof (rule acyclicI, intro allI notI)
  fix x assume cyc: "(x, x) \<in> E'\<^sup>+"
  have split: "(a, b) \<in> E\<^sup>+ \<or> ((a, v) \<in> E'\<^sup>* \<and> (v, b) \<in> E'\<^sup>+)" if "(a, b) \<in> E'\<^sup>+" for a b
    using that
  proof (induction rule: trancl_induct)
    case (base b)
    then show ?case using new by blast
  next
    case (step b c)
    have "(a, b) \<in> E'\<^sup>*" using step.hyps(1) by (rule trancl_into_rtrancl)
    then show ?case
      using step new [OF step.hyps(2)] by (metis r_into_trancl trancl.trancl_into_trancl)
  qed
  from split [OF cyc] acyc have "(x, v) \<in> E'\<^sup>*" "(v, x) \<in> E'\<^sup>+" by (auto simp: acyclic_def)
  then have "(v, v) \<in> E'\<^sup>+" by (rule trancl_rtrancl_trancl [rotated])
  with v show False by contradiction
qed

lemma has_fold_put_pair:
  "has (fold (\<lambda>q. put (v, q) ()) qs t) k \<longleftrightarrow> (\<exists>q \<in> set qs. k = (v, q)) \<or> has t k"
  by (induction qs arbitrary: t) auto

lemma ensure_identity_frame:
  "ensure_page_identity ext page kind d = Inr d' \<Longrightarrow> \<exists>t. d' = d\<lparr>identities := t\<rparr>"
proof -
  assume "ensure_page_identity ext page kind d = Inr d'"
  moreover have "\<exists>t. d = d\<lparr>identities := t\<rparr>" by (intro exI [of _ "identities d"]) simp
  ultimately show ?thesis
    by (auto simp: ensure_page_identity_def insert_page_identity_def res split: option.splits)
qed

lemma apply_version_edges:
  assumes "apply_version ext v d = Inr d'"
  shows "version_edges (ink d') = version_edges (ink d) \<or>
         (\<exists>E. version_edges (ink d') = version_edges (ink d) \<union> E \<and>
              (\<forall>(a, b) \<in> E. a = version_uuid (ve_publication v)) \<and>
              (version_uuid (ve_publication v), version_uuid (ve_publication v)) \<notin> (version_edges (ink d'))\<^sup>+)"
proof -
  let ?p = "ve_publication v"
  obtain d1 where d1: "ensure_page_identity ext (page_uuid ?p) Handwriting d = Inr d1"
    using assms by (auto simp: apply_version_def Let_def res)
  have rest: "version_edges (ink d') = version_edges (insert_version v (ink d1)) \<and>
        \<not> cyclic_version (version_uuid ?p) (insert_version v (ink d1))"
    if "get_version (ink d1) (version_uuid ?p) = None"
    using assms d1 that by (auto simp: apply_version_def Let_def res version_edges_def)
  have same: "d' = d1" if "get_version (ink d1) (version_uuid ?p) = Some w" for w
    using assms d1 that by (auto simp: apply_version_def Let_def res)
  have ink: "ink d1 = ink d" using ensure_identity_frame [OF d1] by auto
  show ?thesis
  proof (cases "get_version (ink d1) (version_uuid ?p)")
    case None
    define E where "E = (\<lambda>q. (version_uuid ?p, q)) ` set (parents ?p)"
    have "version_edges (insert_version v (ink d)) = version_edges (ink d) \<union> E"
      by (auto simp: E_def version_edges_def insert_version_def Let_def has_fold_put_pair)
    with rest [OF None] show ?thesis
      by (intro disjI2 exI [of _ E]) (auto simp: ink E_def cyclic_version_def version_edges_keys)
  next
    case (Some w)
    with same ink show ?thesis by simp
  qed
qed

section \<open>What collection keeps\<close>

lemma kept_refs:
  "c \<in> snd ` set (keys (filt (\<lambda>(root, _) _. root \<in> R) t)) \<longleftrightarrow> (\<exists>root \<in> R. has t (root, c))"
proof
  assume "c \<in> snd ` set (keys (filt (\<lambda>(root, _) _. root \<in> R) t))"
  then obtain root where "has (filt (\<lambda>(root, _) _. root \<in> R) t) (root, c)" by (auto simp: set_keys simp del: has_filt)
  then show "\<exists>root \<in> R. has t (root, c)" by (auto intro: has_SomeI)
next
  assume "\<exists>root \<in> R. has t (root, c)"
  then obtain root where "root \<in> R" "has t (root, c)" by blast
  then have "has (filt (\<lambda>(root, _) _. root \<in> R) t) (root, c)" by (auto simp: has_def [of t])
  then have "(root, c) \<in> set (keys (filt (\<lambda>(root, _) _. root \<in> R) t))" by (simp only: set_keys)
  then show "c \<in> snd ` set (keys (filt (\<lambda>(root, _) _. root \<in> R) t))" by force
qed

text \<open>
  The specification of ownership, owner by owner: who may name a root that its records and chunks
  have to outlive a collection for.
\<close>

inductive root_named :: "ink_tables \<Rightarrow> ink_id \<Rightarrow> bool" for t where
  undo_history: "get (ink_history t) (page, seq) = Some root \<Longrightarrow> root_named t root"
| staged_download: "get (ink_staged t) hash = Some root \<Longrightarrow> root_named t root"
| published_version: "get (ink_versions t) v = Some r \<Longrightarrow> v_root r = Some root \<Longrightarrow> root_named t root"
| live_drawing: "get (ink_documents t) page = Some doc \<Longrightarrow> d_root doc = Some root \<Longrightarrow> root_named t root"
| recorded_action: "has (history_ink_roots t) ((action, page), root) \<Longrightarrow> root_named t root"
| queued_operation: "get (ink_outbox_roots t) u = Some (hash, Some root) \<Longrightarrow> root_named t root"

lemma snd_rows: "x \<in> set (map snd (rows t)) \<longleftrightarrow> (\<exists>k. get t k = Some x)"
proof -
  have "x \<in> set (map snd (rows t)) \<longleftrightarrow> (\<exists>k. (k, x) \<in> set (rows t))" by force
  then show ?thesis by (simp only: set_rows)
qed

lemma picked_rows: "x \<in> set (List.map_filter (\<lambda>(_, r). f r) (rows t)) \<longleftrightarrow> (\<exists>k r. get t k = Some r \<and> f r = Some x)"
proof -
  have "x \<in> set (List.map_filter (\<lambda>(_, r). f r) (rows t)) \<longleftrightarrow> (\<exists>k r. (k, r) \<in> set (rows t) \<and> f r = Some x)"
    by (force simp: List.map_filter_def)
  then show ?thesis by (simp only: set_rows)
qed

lemma owned_roots_named: "root \<in> set (owned_roots t) \<longleftrightarrow> root_named t root"
proof -
  have "root \<in> set (map snd (keys (history_ink_roots t))) \<longleftrightarrow> (\<exists>owner. (owner, root) \<in> set (keys (history_ink_roots t)))" by force
  then have keys: "root \<in> set (map snd (keys (history_ink_roots t))) \<longleftrightarrow>
      (\<exists>action page. has (history_ink_roots t) ((action, page), root))"
    by (simp only: set_keys mem_Collect_eq split_paired_Ex)
  have queue: "(\<lambda>(_, (_, held)). held) = (\<lambda>(_, r). snd r)" by (rule ext) auto
  show ?thesis
    unfolding owned_roots_def set_append Un_iff snd_rows queue picked_rows keys root_named.simps by auto
qed

text \<open>The tables whose rows own roots.\<close>

definition same_owners :: "ink_tables \<Rightarrow> ink_tables \<Rightarrow> bool" where
  "same_owners t t' \<longleftrightarrow>
     ink_documents t' = ink_documents t \<and> ink_history t' = ink_history t \<and> ink_versions t' = ink_versions t \<and>
     ink_parents t' = ink_parents t \<and> ink_staged t' = ink_staged t \<and> ink_outbox_roots t' = ink_outbox_roots t \<and>
     history_ink_roots t' = history_ink_roots t"

lemma collect_owners: "same_owners t (collect_ink t)"
  by (simp add: same_owners_def collect_ink_def Let_def)

lemma collect_refs:
  "has (ink_record_refs (collect_ink t)) (root, j) \<longleftrightarrow> root_named t root \<and> has (ink_record_refs t) (root, j)"
  "has (ink_chunk_refs (collect_ink t)) (root, j) \<longleftrightarrow> root_named t root \<and> has (ink_chunk_refs t) (root, j)"
  unfolding owned_roots_named [symmetric]
  by (auto simp: collect_ink_def Let_def has_def [of "ink_record_refs t"] has_def [of "ink_chunk_refs t"])

lemma collect_record: "get (ink_records (collect_ink t)) i =
    (if \<exists>root. root_named t root \<and> (i = root \<or> has (ink_record_refs t) (root, i)) then get (ink_records t) i else None)"
  unfolding owned_roots_named [symmetric] collect_ink_def Let_def by (auto simp: kept_refs split: option.split)

lemma collect_chunk: "get (ink_chunks (collect_ink t)) c =
    (if \<exists>root. root_named t root \<and> has (ink_chunk_refs t) (root, c) then get (ink_chunks t) c else None)"
  unfolding owned_roots_named [symmetric] collect_ink_def Let_def by (auto simp: kept_refs split: option.split)

lemma filt_id: "(\<And>k v. get t k = Some v \<Longrightarrow> P k v) \<Longrightarrow> filt P t = t"
  by (rule table_eqI) (auto split: option.split)

lemma collect_twice: "collect_ink (collect_ink t) = collect_ink t"
proof -
  let ?c = "collect_ink t"
  have owned: "owned_roots ?c = owned_roots t" by (simp add: owned_roots_def collect_ink_def Let_def)
  have refs: "filt (\<lambda>(root, _) _. root \<in> set (owned_roots ?c)) (ink_record_refs ?c) = ink_record_refs ?c"
    "filt (\<lambda>(root, _) _. root \<in> set (owned_roots ?c)) (ink_chunk_refs ?c) = ink_chunk_refs ?c"
    unfolding owned by (auto simp: collect_ink_def Let_def intro!: filt_id split: if_splits option.splits)
  have records: "filt (\<lambda>i _. i \<in> set (owned_roots ?c) \<union> snd ` set (keys (ink_record_refs ?c))) (ink_records ?c) = ink_records ?c"
    unfolding owned by (auto simp: collect_ink_def Let_def intro!: filt_id split: if_splits option.splits)
  have chunks: "filt (\<lambda>i _. i \<in> snd ` set (keys (ink_chunk_refs ?c))) (ink_chunks ?c) = ink_chunks ?c"
    by (auto simp: collect_ink_def Let_def intro!: filt_id split: if_splits option.splits)
  have sealed: "filt (\<lambda>i _. \<not> has (ink_chunks ?c) i \<or> i \<in> snd ` set (keys (ink_chunk_refs ?c))) (ink_sealed ?c) = ink_sealed ?c"
    by (auto simp: collect_ink_def Let_def has_def intro!: filt_id split: if_splits option.splits)
  show ?thesis
    unfolding collect_ink_def [of ?c] Let_def refs records chunks sealed by simp
qed

section \<open>Properties\<close>

text \<open>
  The causal history of handwriting stays a directed acyclic graph: a publication that would
  close a cycle is refused, whatever order the publications arrive in.
\<close>

lemma version_graph_acyclic:
  assumes "acyclic (version_edges (ink d))" and "apply_version ext v d = Inr d'"
  shows "acyclic (version_edges (ink d'))"
  using apply_version_edges [OF assms(2)]
proof
  assume "\<exists>E. version_edges (ink d') = version_edges (ink d) \<union> E \<and>
              (\<forall>(a, b) \<in> E. a = version_uuid (ve_publication v)) \<and>
              (version_uuid (ve_publication v), version_uuid (ve_publication v)) \<notin> (version_edges (ink d'))\<^sup>+"
  then obtain E where E: "version_edges (ink d') = version_edges (ink d) \<union> E"
    "\<forall>(a, b) \<in> E. a = version_uuid (ve_publication v)"
    "(version_uuid (ve_publication v), version_uuid (ve_publication v)) \<notin> (version_edges (ink d'))\<^sup>+" by blast
  show ?thesis
    by (rule new_edges_cycle [OF _ _ E(3) assms(1)]) (use E(1,2) in auto)
qed (use assms(1) in simp)

text \<open>
  C26. Collection is exact and settles: a record or chunk survives exactly when an owner (the undo
  history of a drawing, a staged download, a published version, a live drawing, a recorded action,
  or a queued operation) names a root that is it or refers to it; the references of a root survive
  exactly when the root is named; the owners are untouched; and a second collection changes
  nothing.
\<close>

theorem collect_ink_exact:
  "get (ink_records (collect_ink t)) i =
     (if \<exists>root. root_named t root \<and> (i = root \<or> has (ink_record_refs t) (root, i)) then get (ink_records t) i else None) \<and>
   get (ink_chunks (collect_ink t)) c =
     (if \<exists>root. root_named t root \<and> has (ink_chunk_refs t) (root, c) then get (ink_chunks t) c else None) \<and>
   (has (ink_record_refs (collect_ink t)) (root, j) \<longleftrightarrow> root_named t root \<and> has (ink_record_refs t) (root, j)) \<and>
   (has (ink_chunk_refs (collect_ink t)) (root, j) \<longleftrightarrow> root_named t root \<and> has (ink_chunk_refs t) (root, j)) \<and>
   same_owners t (collect_ink t) \<and> collect_ink (collect_ink t) = collect_ink t"
proof (intro conjI)
  show "get (ink_records (collect_ink t)) i =
     (if \<exists>root. root_named t root \<and> (i = root \<or> has (ink_record_refs t) (root, i)) then get (ink_records t) i else None)"
    by (rule collect_record)
  show "get (ink_chunks (collect_ink t)) c =
     (if \<exists>root. root_named t root \<and> has (ink_chunk_refs t) (root, c) then get (ink_chunks t) c else None)"
    by (rule collect_chunk)
  show "has (ink_record_refs (collect_ink t)) (root, j) \<longleftrightarrow> root_named t root \<and> has (ink_record_refs t) (root, j)"
    "has (ink_chunk_refs (collect_ink t)) (root, j) \<longleftrightarrow> root_named t root \<and> has (ink_chunk_refs t) (root, j)"
    by (rule collect_refs)+
  show "same_owners t (collect_ink t)" by (rule collect_owners)
  show "collect_ink (collect_ink t) = collect_ink t" by (rule collect_twice)
qed

end
