(* ===== verification/Stem.thy ===== *)
theory Stem
  imports Externals
begin

text \<open>
  \<open>crates/notes-core/src/stem.rs\<close>: the text that the full-text index stores and the queries
  built against it. Words are runs of alphabetic characters; each goes to the Russian or the
  English stemmer by its script. Queries quote every stemmed token, so that no character of the
  user's text reaches the query language.
\<close>

datatype search_token_mode = Plain | Prefix

datatype script = Cyrillic | Latin | OtherScript

text \<open>The letters from U+0410 to U+044F, U+0401 and U+0451.\<close>

definition is_russian_letter :: "string \<Rightarrow> bool" where
  "is_russian_letter ch \<longleftrightarrow>
     (let p = code_point ch in (0x410 \<le> p \<and> p \<le> 0x44F) \<or> p = 0x401 \<or> p = 0x451)"

definition is_ascii_letter :: "string \<Rightarrow> bool" where
  "is_ascii_letter ch \<longleftrightarrow>
     (let p = code_point ch in (97 \<le> p \<and> p \<le> 122) \<or> (65 \<le> p \<and> p \<le> 90))"

definition classify_script :: "externals \<Rightarrow> string \<Rightarrow> script" where
  "classify_script ext s =
     (let letters = filter (is_alphabetic ext) (chars_of s);
          has_cyr = (\<exists>c \<in> set letters. is_russian_letter c);
          has_latin = (\<exists>c \<in> set letters. is_ascii_letter c)
      in if has_cyr then Cyrillic else if has_latin then Latin else OtherScript)"

definition stem_token :: "externals \<Rightarrow> string \<Rightarrow> string" where
  "stem_token ext token =
     (case classify_script ext token of
        Cyrillic \<Rightarrow> snowball_russian ext token
      | Latin \<Rightarrow> snowball_english ext token
      | OtherScript \<Rightarrow> token)"

text \<open>The character loop with its buffer; \<open>out\<close> is what has been pushed so far.\<close>

fun stem_chars :: "externals \<Rightarrow> string list \<Rightarrow> string \<Rightarrow> string \<Rightarrow> string" where
  "stem_chars ext [] buf out = (if buf \<noteq> [] then out @ stem_token ext buf else out)"
| "stem_chars ext (c # cs) buf out =
     (if is_alphabetic ext c then stem_chars ext cs (buf @ c) out
      else stem_chars ext cs [] ((if buf \<noteq> [] then out @ stem_token ext buf else out) @ c))"

definition stem :: "externals \<Rightarrow> string \<Rightarrow> string" where
  "stem ext text = stem_chars ext (chars_of (str_lowercase ext text)) [] []"

definition is_alphanumeric :: "externals \<Rightarrow> string \<Rightarrow> bool" where
  "is_alphanumeric ext ch \<longleftrightarrow> is_alphabetic ext ch \<or> is_numeric ext ch"

fun token_chars :: "externals \<Rightarrow> string list \<Rightarrow> string \<Rightarrow> string list \<Rightarrow> string list" where
  "token_chars ext [] token tokens = (if token \<noteq> [] then tokens @ [token] else tokens)"
| "token_chars ext (c # cs) token tokens =
     (if is_alphanumeric ext c then token_chars ext cs (token @ c) tokens
      else token_chars ext cs [] (if token \<noteq> [] then tokens @ [token] else tokens))"

definition search_tokens :: "externals \<Rightarrow> string \<Rightarrow> string list" where
  "search_tokens ext text = token_chars ext (chars_of text) [] []"

fun join :: "string \<Rightarrow> string list \<Rightarrow> string" where
  "join sep [] = []"
| "join sep [x] = x"
| "join sep (x # xs) = x @ sep @ join sep xs"

definition quoted :: "string \<Rightarrow> string" where
  "quoted s = [CHR 0x22] @ s @ [CHR 0x22]"

definition search_clause :: "externals \<Rightarrow> search_token_mode \<Rightarrow> bool \<Rightarrow> string \<Rightarrow> string option" where
  "search_clause ext mode is_last raw =
     (let stemmed = stem ext raw in
      if stemmed = [] then None
      else if mode = Prefix \<and> is_last
      then Some (''('' @ quoted (str_lowercase ext raw) @ ''* OR '' @ quoted stemmed @ ''*)'')
      else Some (quoted stemmed))"

definition with_last :: "'a list \<Rightarrow> ('a \<times> bool) list" where
  "with_last xs = map (\<lambda>i. (xs ! i, Suc i = length xs)) [0..<length xs]"

definition stem_search_query_with_mode :: "externals \<Rightarrow> string \<Rightarrow> search_token_mode \<Rightarrow> string" where
  "stem_search_query_with_mode ext text mode =
     join (if mode = Prefix then '' AND '' else '' '')
       (List.map_filter (\<lambda>(raw, is_last). search_clause ext mode is_last raw)
          (with_last (search_tokens ext text)))"

definition stem_search_query :: "externals \<Rightarrow> string \<Rightarrow> string" where
  "stem_search_query ext text = stem_search_query_with_mode ext text Plain"

text \<open>\<open>Vec::dedup\<close>: consecutive repetitions are dropped.\<close>

fun dedup :: "'a list \<Rightarrow> 'a list" where
  "dedup (x # y # xs) = (if x = y then dedup (x # xs) else x # dedup (y # xs))"
| "dedup xs = xs"

definition is_cyrillic_token :: "string \<Rightarrow> bool" where
  "is_cyrillic_token token \<longleftrightarrow> list_all is_russian_letter (chars_of token)"

text \<open>The shortened prefixes added for one token: one and two characters off, never under four.\<close>

definition relaxed_prefixes :: "string \<Rightarrow> string \<Rightarrow> string list" where
  "relaxed_prefixes raw stemmed =
     (let chars = chars_of stemmed in
      if is_cyrillic_token raw \<and> 6 \<le> length (chars_of raw)
      then map (\<lambda>off. concat (take (length chars - off) chars))
             (filter (\<lambda>off. off \<le> length chars \<and> 4 \<le> length chars - off) [1, 2])
      else [])"

definition relaxed_clause :: "externals \<Rightarrow> bool \<Rightarrow> string \<Rightarrow> (string \<times> bool) option" where
  "relaxed_clause ext is_last raw =
     (let stemmed = stem ext raw in
      if stemmed = [] then None
      else
        let base = (if is_last then [quoted (str_lowercase ext raw) @ ''*'', quoted stemmed @ ''*'']
                    else [quoted stemmed]);
            extra = map (\<lambda>p. quoted p @ ''*'') (relaxed_prefixes raw stemmed);
            alternatives = dedup (base @ extra)
        in Some (if length alternatives = 1 then hd alternatives
                 else ''('' @ join '' OR '' alternatives @ '')'', extra \<noteq> []))"

definition relaxed_stem_prefix_search_query :: "externals \<Rightarrow> string \<Rightarrow> string" where
  "relaxed_stem_prefix_search_query ext text =
     (let clauses = List.map_filter (\<lambda>(raw, is_last). relaxed_clause ext is_last raw)
                      (with_last (search_tokens ext text))
      in if \<exists>c \<in> set clauses. snd c then join '' AND '' (map fst clauses) else [])"

section \<open>What reaches the query language\<close>

definition alphanumeric_run :: "externals \<Rightarrow> string \<Rightarrow> bool" where
  "alphanumeric_run ext t \<longleftrightarrow> (\<exists>cs. t = concat cs \<and> list_all (is_alphanumeric ext) cs)"

lemma alphanumeric_run_empty [simp]: "alphanumeric_run ext []"
  by (auto simp: alphanumeric_run_def intro: exI [of _ "[]"])

lemma alphanumeric_run_snoc:
  assumes "alphanumeric_run ext t" and "is_alphanumeric ext c"
  shows "alphanumeric_run ext (t @ c)"
proof -
  from assms(1) obtain cs where "t = concat cs" "list_all (is_alphanumeric ext) cs"
    by (auto simp: alphanumeric_run_def)
  with assms(2) show ?thesis by (auto simp: alphanumeric_run_def intro!: exI [of _ "cs @ [c]"])
qed

lemma token_chars_runs:
  assumes "list_all (\<lambda>t. t \<noteq> [] \<and> alphanumeric_run ext t) tokens" and "alphanumeric_run ext token"
  shows "list_all (\<lambda>t. t \<noteq> [] \<and> alphanumeric_run ext t) (token_chars ext chars token tokens)"
  using assms by (induction chars arbitrary: token tokens) (auto intro: alphanumeric_run_snoc)

text \<open>
  A search token is a non-empty run of alphanumeric characters of the text, so a clause that
  quotes it cannot be left or extended by the user's punctuation.
\<close>

theorem search_tokens_alphanumeric:
  "list_all (\<lambda>t. t \<noteq> [] \<and> alphanumeric_run ext t) (search_tokens ext text)"
  by (simp add: search_tokens_def token_chars_runs)

end
