(* ===== verification/References.thy ===== *)
theory References
  imports Externals
begin

text \<open>
  \<open>crates/notes-markdown/src/lib.rs\<close>: the scanner for \<open>[[page]]\<close> and \<open>((block))\<close> references.
  The Markdown parser is a parameter (\<open>md_events\<close>): it yields events with byte ranges. What is
  modelled is the selection of the text to scan and the scan itself, on byte offsets.
\<close>

section \<open>Byte ranges\<close>

definition slice :: "string \<Rightarrow> nat \<Rightarrow> nat \<Rightarrow> string" where
  "slice s a b = take (b - a) (drop a s)"

text \<open>\<open>str::find\<close> of a string and of a character class.\<close>

fun find_off :: "string \<Rightarrow> string \<Rightarrow> nat option" where
  "find_off pat [] = (if pat = [] then Some 0 else None)"
| "find_off pat (c # cs) =
     (if take (length pat) (c # cs) = pat then Some 0 else map_option Suc (find_off pat cs))"

fun find_char :: "(char \<Rightarrow> bool) \<Rightarrow> string \<Rightarrow> nat option" where
  "find_char P [] = None"
| "find_char P (c # cs) = (if P c then Some 0 else map_option Suc (find_char P cs))"

definition is_newline :: "char \<Rightarrow> bool" where
  "is_newline c \<longleftrightarrow> byte c = 10 \<or> byte c = 13"

definition is_backslash :: "char \<Rightarrow> bool" where
  "is_backslash c \<longleftrightarrow> byte c = 92"

section \<open>References\<close>

datatype reference_kind = WikiLink | BlockReference

fun open_mark :: "reference_kind \<Rightarrow> string" where
  "open_mark WikiLink = ''[[''"
| "open_mark BlockReference = ''((''"

fun close_mark :: "reference_kind \<Rightarrow> string" where
  "close_mark WikiLink = '']]''"
| "close_mark BlockReference = ''))''"

record occurrence =
  r_kind :: reference_kind
  r_source :: "nat \<times> nat"
  r_target :: "nat \<times> nat"

definition target_text :: "occurrence \<Rightarrow> string \<Rightarrow> string" where
  "target_text r source = slice source (fst (r_target r)) (snd (r_target r))"

datatype malformed_reason = EmptyTarget | Unclosed | NewlineInTarget | NestedDelimiter

record malformed =
  m_kind :: reference_kind
  m_source :: "nat \<times> nat"
  m_reason :: malformed_reason

record reference_scan =
  occurrences :: "occurrence list"
  malformed_refs :: "malformed list"

definition next_opener :: "string \<Rightarrow> nat \<Rightarrow> nat \<Rightarrow> (nat \<times> reference_kind) option" where
  "next_opener markdown start stop =
     (let source = slice markdown start stop;
          wiki = map_option (\<lambda>offset. (start + offset, WikiLink)) (find_off ''[['' source);
          block = map_option (\<lambda>offset. (start + offset, BlockReference)) (find_off ''(('' source)
      in case (wiki, block) of
           (Some w, Some b) \<Rightarrow> Some (if fst w \<le> fst b then w else b)
         | (Some w, None) \<Rightarrow> Some w
         | (None, Some b) \<Rightarrow> Some b
         | (None, None) \<Rightarrow> None)"

definition is_escaped :: "string \<Rightarrow> nat \<Rightarrow> bool" where
  "is_escaped bytes position = odd (length (takeWhile is_backslash (rev (take position bytes))))"

definition push_malformed :: "reference_kind \<Rightarrow> nat \<times> nat \<Rightarrow> malformed_reason \<Rightarrow> reference_scan \<Rightarrow> reference_scan" where
  "push_malformed kind rng reason scan =
     scan\<lparr>malformed_refs := malformed_refs scan @ [\<lparr>m_kind = kind, m_source = rng, m_reason = reason\<rparr>]\<rparr>"

definition push_occurrence :: "occurrence \<Rightarrow> reference_scan \<Rightarrow> reference_scan" where
  "push_occurrence r scan = scan\<lparr>occurrences := occurrences scan @ [r]\<rparr>"

text \<open>The branch of \<open>scan_candidate\<close> for an opener inside the candidate.\<close>

definition scan_nested ::
  "string \<Rightarrow> nat \<Rightarrow> nat \<Rightarrow> reference_kind \<Rightarrow> nat option \<Rightarrow> nat \<Rightarrow> reference_kind
     \<Rightarrow> reference_scan \<Rightarrow> nat \<times> reference_scan" where
  "scan_nested markdown start stop kind close nested_start nested_kind scan =
     (case close of
        None \<Rightarrow> (nested_start, push_malformed kind (start, nested_start) Unclosed scan)
      | Some inner_close \<Rightarrow>
          (if nested_kind \<noteq> kind
           then let reference_end = inner_close + 2
                in (reference_end, push_malformed kind (start, reference_end) NestedDelimiter scan)
           else case map_option (\<lambda>offset. inner_close + 2 + offset)
                       (find_off (close_mark kind) (slice markdown (inner_close + 2) stop)) of
                  Some outer_close \<Rightarrow>
                    (let reference_end = outer_close + 2
                     in (reference_end, push_malformed kind (start, reference_end) NestedDelimiter scan))
                | None \<Rightarrow> (nested_start, push_malformed kind (start, nested_start) Unclosed scan)))"

definition scan_candidate ::
  "string \<Rightarrow> nat \<Rightarrow> nat \<Rightarrow> reference_kind \<Rightarrow> reference_scan \<Rightarrow> nat \<times> reference_scan" where
  "scan_candidate markdown start stop kind scan =
     (let target_start = start + 2;
          rest = slice markdown target_start stop;
          close = map_option (\<lambda>offset. target_start + offset) (find_off (close_mark kind) rest);
          newline = map_option (\<lambda>offset. target_start + offset) (find_char is_newline rest);
          nested = next_opener markdown target_start (case close of Some c \<Rightarrow> c | None \<Rightarrow> stop);
          cut = (case newline of None \<Rightarrow> None
                 | Some n \<Rightarrow> (case close of None \<Rightarrow> Some n
                              | Some c \<Rightarrow> if n < c then Some n else None))
      in case cut of
           Some n \<Rightarrow>
             (n + (case chars_of (drop n markdown) of [] \<Rightarrow> 1 | ch # _ \<Rightarrow> length ch),
              push_malformed kind (start, n) NewlineInTarget scan)
         | None \<Rightarrow>
             (case nested of
                Some (nested_start, nested_kind) \<Rightarrow>
                  scan_nested markdown start stop kind close nested_start nested_kind scan
              | None \<Rightarrow>
                  (case close of
                     None \<Rightarrow> (target_start, push_malformed kind (start, stop) Unclosed scan)
                   | Some c \<Rightarrow>
                       (let reference_end = c + 2;
                            inner = slice markdown target_start c;
                            trimmed = trim inner
                        in if trimmed = []
                           then (reference_end, push_malformed kind (start, reference_end) EmptyTarget scan)
                           else
                             let leading = length inner - length (trim_start inner);
                                 target_start = target_start + leading;
                                 target_end = target_start + length trimmed
                             in (reference_end,
                                 push_occurrence
                                   \<lparr>r_kind = kind, r_source = (start, reference_end),
                                    r_target = (target_start, target_end)\<rparr> scan)))))"

lemma find_off_bound: "find_off pat s = Some i \<Longrightarrow> i + length pat \<le> length s \<and> take (length pat) (drop i s) = pat"
proof (induction s arbitrary: i)
  case (Cons c cs)
  show ?case
  proof (cases "take (length pat) (c # cs) = pat")
    case True
    with Cons.prems have "i = 0" by simp
    moreover have "length pat \<le> length (c # cs)" using True by (metis length_take min.cobounded2 min.commute)
    ultimately show ?thesis using True by simp
  next
    case False
    with Cons.prems obtain j where "find_off pat cs = Some j" "i = Suc j" by auto
    with Cons.IH show ?thesis by simp
  qed
qed (simp split: if_splits)

lemma find_off_in_slice:
  assumes "find_off pat (slice s a b) = Some i" and "pat \<noteq> []"
  shows "a + i + length pat \<le> b \<and> a + i + length pat \<le> length s \<and> slice s (a + i) (a + i + length pat) = pat"
proof -
  from find_off_bound [OF assms(1)]
  have b: "i + length pat \<le> length (slice s a b)" and t: "take (length pat) (drop i (slice s a b)) = pat" by auto
  have "0 < length pat" using assms(2) by simp
  moreover have "i + length pat \<le> length s - a" "i + length pat \<le> b - a" using b by (simp_all add: slice_def)
  ultimately have "a + i + length pat \<le> b" "a + i + length pat \<le> length s" by linarith+
  moreover have "slice s (a + i) (a + i + length pat) = take (length pat) (drop i (slice s a b))"
    using calculation(1) by (simp add: slice_def drop_take take_take add.commute min_def)
  ultimately show ?thesis using t by simp
qed

lemma next_opener_sound:
  assumes "next_opener markdown start stop = Some (p, kind)"
  shows "start \<le> p \<and> p + 2 \<le> stop \<and> p + 2 \<le> length markdown \<and> slice markdown p (p + 2) = open_mark kind"
  using assms find_off_in_slice [of "''[[''" markdown start stop]
    find_off_in_slice [of "''((''" markdown start stop]
  by (auto simp: next_opener_def Let_def split: option.splits if_splits)

text \<open>\<open>scan_text_range\<close>; the cursor moves past every opener it looks at.\<close>

function scan_text_range :: "string \<Rightarrow> nat \<Rightarrow> nat \<Rightarrow> reference_scan \<Rightarrow> reference_scan" where
  "scan_text_range markdown cursor stop scan =
     (if cursor + 1 < stop then
        (case next_opener markdown cursor stop of
           None \<Rightarrow> scan
         | Some (start, kind) \<Rightarrow>
             (if is_escaped markdown start then scan_text_range markdown (start + 2) stop scan
              else case scan_candidate markdown start stop kind scan of
                     (nxt, scan) \<Rightarrow> scan_text_range markdown (max nxt (start + 2)) stop scan))
      else scan)"
  by pat_completeness auto

termination
  by (relation "measure (\<lambda>(_, cursor, stop, _). stop - cursor)") (auto dest: next_opener_sound)

declare scan_text_range.simps [simp del]

section \<open>The whole scan\<close>

record event_state =
  excluded :: "(nat \<times> nat) list"
  link_labels :: "(nat \<times> nat) list"
  link_depth :: nat
  image_depth :: nat

fun scan_event :: "md_event \<times> nat \<times> nat \<Rightarrow> event_state \<Rightarrow> event_state" where
  "scan_event (ev, rng) st =
     (case ev of
        EvCodeBlock \<Rightarrow> st\<lparr>excluded := excluded st @ [rng]\<rparr>
      | EvCode \<Rightarrow> st\<lparr>excluded := excluded st @ [rng]\<rparr>
      | EvHtml \<Rightarrow> st\<lparr>excluded := excluded st @ [rng]\<rparr>
      | EvInlineHtml \<Rightarrow> st\<lparr>excluded := excluded st @ [rng]\<rparr>
      | EvStartImage wiki \<Rightarrow>
          (if wiki then st
           else st\<lparr>excluded := excluded st @ [rng], image_depth := image_depth st + 1\<rparr>)
      | EvEndImage \<Rightarrow> (if 0 < image_depth st then st\<lparr>image_depth := image_depth st - 1\<rparr> else st)
      | EvStartLink wiki \<Rightarrow>
          (if wiki then st
           else st\<lparr>excluded := excluded st @ [rng], link_depth := link_depth st + 1\<rparr>)
      | EvEndLink \<Rightarrow> (if 0 < link_depth st then st\<lparr>link_depth := link_depth st - 1\<rparr> else st)
      | EvText \<Rightarrow>
          (if 0 < link_depth st \<and> image_depth st = 0
           then st\<lparr>link_labels := link_labels st @ [rng]\<rparr> else st)
      | EvOther \<Rightarrow> st)"

text \<open>The fold that merges the sorted excluded ranges; the last merged range is in front.\<close>

definition merge_range :: "nat \<times> nat \<Rightarrow> (nat \<times> nat) list \<Rightarrow> (nat \<times> nat) list" where
  "merge_range rng merged =
     (case merged of
        [] \<Rightarrow> [rng]
      | previous # older \<Rightarrow>
          (if fst rng \<le> snd previous
           then (fst previous, max (snd previous) (snd rng)) # older
           else rng # previous # older))"

definition merge_ranges :: "(nat \<times> nat) list \<Rightarrow> (nat \<times> nat) list" where
  "merge_ranges ranges = rev (fold merge_range (sort_key (\<lambda>r. r) ranges) [])"

fun scan_gaps :: "string \<Rightarrow> nat \<Rightarrow> (nat \<times> nat) list \<Rightarrow> reference_scan \<Rightarrow> reference_scan" where
  "scan_gaps markdown start [] scan =
     (if start < length markdown then scan_text_range markdown start (length markdown) scan else scan)"
| "scan_gaps markdown start (rng # ranges) scan =
     scan_gaps markdown (max start (snd rng)) ranges
       (if start < fst rng then scan_text_range markdown start (fst rng) scan else scan)"

fun kind_rank :: "reference_kind \<Rightarrow> nat" where
  "kind_rank WikiLink = 0"
| "kind_rank BlockReference = 1"

fun reason_rank :: "malformed_reason \<Rightarrow> nat" where
  "reason_rank EmptyTarget = 0"
| "reason_rank Unclosed = 1"
| "reason_rank NewlineInTarget = 2"
| "reason_rank NestedDelimiter = 3"

definition scan_references :: "externals \<Rightarrow> string \<Rightarrow> reference_scan" where
  "scan_references ext markdown =
     (let st = fold scan_event (md_events ext markdown)
                 \<lparr>excluded = [], link_labels = [], link_depth = 0, image_depth = 0\<rparr>;
          scan = scan_gaps markdown 0 (merge_ranges (excluded st)) \<lparr>occurrences = [], malformed_refs = []\<rparr>;
          scan = fold (\<lambda>rng. scan_text_range markdown (fst rng) (snd rng)) (link_labels st) scan
      in \<lparr>occurrences = sort_key (\<lambda>r. (fst (r_source r), snd (r_source r), kind_rank (r_kind r))) (occurrences scan),
          malformed_refs = sort_key (\<lambda>m. (fst (m_source m), snd (m_source m), kind_rank (m_kind m), reason_rank (m_reason m)))
                             (malformed_refs scan)\<rparr>)"


section \<open>Sound occurrences\<close>

text \<open>
  What a caller may rely on: the source range is delimited text of the Markdown source, the
  target lies strictly inside it, and the target is trimmed, not blank and on one line, and
  holds no opener.
\<close>

definition sound_occurrence :: "string \<Rightarrow> occurrence \<Rightarrow> bool" where
  "sound_occurrence markdown r \<longleftrightarrow>
     (let (start, stop) = r_source r; (a, b) = r_target r in
      start + 2 \<le> a \<and> a < b \<and> b + 2 \<le> stop \<and> stop \<le> length markdown \<and>
      slice markdown start (start + 2) = open_mark (r_kind r) \<and>
      slice markdown (stop - 2) stop = close_mark (r_kind r) \<and>
      \<not> is_escaped markdown start \<and>
      target_text r markdown = trim (slice markdown (start + 2) (stop - 2)) \<and>
      \<not> list_ex is_newline (slice markdown (start + 2) (stop - 2)) \<and>
      next_opener markdown (start + 2) (stop - 2) = None)"

lemma find_char_None: "find_char P s = None \<longleftrightarrow> \<not> list_ex P s"
  by (induction s) auto

lemma find_char_Some: "find_char P s = Some i \<Longrightarrow> \<not> list_ex P (take i s)"
  by (induction s arbitrary: i) (auto split: if_splits)

text \<open>Trimming takes a contiguous piece; its offset is what \<open>trim_start\<close> removed.\<close>

lemma trim_start_suffix: "drop (length s - length (trim_start s)) s = trim_start s"
proof -
  have "s = concat (takeWhile is_whitespace (chars_of s)) @ trim_start s"
    by (metis concat_append concat_chars_of takeWhile_dropWhile_id trim_start_def)
  then show ?thesis by (metis append_eq_conv_conj append_eq_append_conv_if diff_diff_cancel
        drop_append add_diff_cancel_right' length_append)
qed

lemma trim_prefix: "take (length (trim s)) (trim_start s) = trim s"
proof -
  define e where "e = dropWhile is_whitespace (chars_of s)"
  have "e = rev (dropWhile is_whitespace (rev e)) @ rev (takeWhile is_whitespace (rev e))"
    by (metis rev_append rev_rev_ident takeWhile_dropWhile_id)
  then have "trim_start s = trim s @ concat (rev (takeWhile is_whitespace (rev e)))"
    by (metis concat_append e_def trim_def trim_start_def)
  then show ?thesis by simp
qed

lemma slice_inner:
  assumes "trimmed = trim (slice s a b)" and "leading = length (slice s a b) - length (trim_start (slice s a b))"
  shows "slice s (a + leading) (a + leading + length trimmed) = trimmed"
    and "a + leading + length trimmed \<le> a + length (slice s a b)"
proof -
  let ?i = "slice s a b"
  have len: "length (trim ?i) \<le> length (trim_start ?i)"
    by (metis trim_prefix length_take min.cobounded1)
  have le: "length (trim_start ?i) \<le> length ?i"
    by (metis trim_start_suffix length_drop diff_le_self)
  then show "a + leading + length trimmed \<le> a + length ?i" using len by (simp add: assms)
  have fit: "leading + length trimmed \<le> b - a" using len le by (simp add: assms slice_def)
  have "take (length trimmed) (drop leading ?i) = trimmed"
    unfolding assms trim_start_suffix by (rule trim_prefix)
  moreover have "take (length trimmed) (drop leading ?i) = take (length trimmed) (drop (a + leading) s)"
    using fit by (simp add: slice_def drop_take min_def add.commute)
  ultimately show "slice s (a + leading) (a + leading + length trimmed) = trimmed" by (simp add: slice_def)
qed


definition sound_scan :: "string \<Rightarrow> reference_scan \<Rightarrow> bool" where
  "sound_scan markdown scan \<longleftrightarrow> (\<forall>r \<in> set (occurrences scan). sound_occurrence markdown r)"

lemma sound_push_malformed [simp]:
  "sound_scan markdown (push_malformed kind rng reason scan) \<longleftrightarrow> sound_scan markdown scan"
  by (simp add: sound_scan_def push_malformed_def)

lemma sound_push_occurrence [simp]:
  "sound_scan markdown (push_occurrence r scan) \<longleftrightarrow> sound_occurrence markdown r \<and> sound_scan markdown scan"
  by (auto simp: sound_scan_def push_occurrence_def)

lemma sound_scan_nested:
  "sound_scan markdown (snd (scan_nested markdown start stop kind close ns nk scan)) \<longleftrightarrow> sound_scan markdown scan"
  by (simp add: scan_nested_def Let_def split: option.split)

lemma length_mark [simp]: "length (open_mark k) = 2" "length (close_mark k) = 2" "close_mark k \<noteq> []"
  by (cases k; simp)+

lemma no_newline_before:
  assumes "find_char is_newline (slice s a b) = None \<or>
           (\<exists>n. find_char is_newline (slice s a b) = Some n \<and> c \<le> a + n)" and "c \<le> b"
  shows "\<not> list_ex is_newline (slice s a c)"
proof -
  have sub: "slice s a c = take (c - a) (slice s a b)"
    using assms(2) by (simp add: slice_def min_def)
  from assms(1) show ?thesis
  proof
    assume "find_char is_newline (slice s a b) = None"
    then show ?thesis unfolding find_char_None sub by (auto simp: list_ex_iff dest: in_set_takeD)
  next
    assume "\<exists>n. find_char is_newline (slice s a b) = Some n \<and> c \<le> a + n"
    then obtain n where "\<not> list_ex is_newline (take n (slice s a b))" "c - a \<le> n"
      using find_char_Some by fastforce
    then show ?thesis unfolding sub
      by (auto simp: list_ex_iff dest: set_take_subset_set_take [THEN subsetD])
  qed
qed

lemma candidate_occurrence_sound:
  assumes op: "slice markdown start (start + 2) = open_mark kind" and esc: "\<not> is_escaped markdown start"
    and close: "find_off (close_mark kind) (slice markdown (start + 2) stop) = Some i"
    and nl: "find_char is_newline (slice markdown (start + 2) stop) = None \<or>
             (\<exists>n. find_char is_newline (slice markdown (start + 2) stop) = Some n \<and> start + 2 + i \<le> start + 2 + n)"
    and nested: "next_opener markdown (start + 2) (start + 2 + i) = None"
    and trimmed: "trimmed = trim (slice markdown (start + 2) (start + 2 + i))" "trimmed \<noteq> []"
    and leading: "leading = length (slice markdown (start + 2) (start + 2 + i)) -
                    length (trim_start (slice markdown (start + 2) (start + 2 + i)))"
  shows "sound_occurrence markdown
           \<lparr>r_kind = kind, r_source = (start, start + 2 + i + 2),
            r_target = (start + 2 + leading, start + 2 + leading + length trimmed)\<rparr>"
proof -
  from find_off_in_slice [OF close] have c: "start + 2 + i + 2 \<le> stop" "start + 2 + i + 2 \<le> length markdown"
    "slice markdown (start + 2 + i) (start + 2 + i + 2) = close_mark kind" by simp_all
  have "\<not> list_ex is_newline (slice markdown (start + 2) (start + 2 + i))"
    by (rule no_newline_before [OF nl]) (use c in simp)
  moreover have "length (slice markdown (start + 2) (start + 2 + i)) \<le> i" by (simp add: slice_def)
  ultimately show ?thesis
    using slice_inner [OF trimmed(1) leading] c op esc nested trimmed
    by (simp add: sound_occurrence_def target_text_def)
qed

lemma sound_scan_candidate:
  assumes "slice markdown start (start + 2) = open_mark kind" and "\<not> is_escaped markdown start"
    and "sound_scan markdown scan"
  shows "sound_scan markdown (snd (scan_candidate markdown start stop kind scan))"
proof (cases "find_off (close_mark kind) (slice markdown (start + 2) stop)")
  case None
  with assms(3) show ?thesis
    by (auto simp: scan_candidate_def Let_def sound_scan_nested split: option.split prod.split)
next
  case (Some i)
  then show ?thesis
    using assms candidate_occurrence_sound [OF assms(1,2) Some _ _ refl _ refl]
    by (auto simp: scan_candidate_def Let_def sound_scan_nested not_less split: option.split prod.split)
qed

lemma sound_scan_text_range:
  "sound_scan markdown scan \<Longrightarrow> sound_scan markdown (scan_text_range markdown cursor stop scan)"
proof (induction markdown cursor stop scan rule: scan_text_range.induct)
  case (1 markdown cursor stop scan)
  show ?case
  proof (cases "cursor + 1 < stop")
    case loop: True
    show ?thesis
    proof (cases "next_opener markdown cursor stop")
      case None
      with loop 1(3) show ?thesis by (simp add: scan_text_range.simps)
    next
      case (Some p)
      obtain start kind where p: "p = (start, kind)" by force
      note op = next_opener_sound [OF Some [unfolded p]]
      obtain nxt scan' where c: "scan_candidate markdown start stop kind scan = (nxt, scan')" by force
      have "\<not> is_escaped markdown start \<Longrightarrow> sound_scan markdown scan'"
        using sound_scan_candidate [of markdown start kind scan stop] op 1(3) c by simp
      then show ?thesis
        using 1 loop Some c by (subst scan_text_range.simps) (simp add: p)
    qed
  next
    case False
    with 1(3) show ?thesis by (simp add: scan_text_range.simps)
  qed
qed

lemma sound_scan_gaps: "sound_scan markdown scan \<Longrightarrow> sound_scan markdown (scan_gaps markdown start rngs scan)"
  by (induction rngs arbitrary: start scan) (auto intro: sound_scan_text_range)

lemma sound_fold_labels:
  "sound_scan markdown scan \<Longrightarrow>
     sound_scan markdown (fold (\<lambda>rng. scan_text_range markdown (fst rng) (snd rng)) rngs scan)"
  by (induction rngs arbitrary: scan) (auto intro: sound_scan_text_range)

text \<open>
  C27. Whatever the Markdown parser reports, every reference the scanner returns is a delimited,
  unescaped piece of the source whose target is trimmed, not blank, on one line and free of
  another opener; and the references come in source order.
\<close>

theorem scan_references_sound:
  "list_all (sound_occurrence markdown) (occurrences (scan_references ext markdown)) \<and>
   sorted (map (\<lambda>r. fst (r_source r)) (occurrences (scan_references ext markdown)))"
proof
  have "sound_scan markdown \<lparr>occurrences = [], malformed_refs = []\<rparr>" by (simp add: sound_scan_def)
  then have "sound_scan markdown (fold (\<lambda>rng. scan_text_range markdown (fst rng) (snd rng)) labels
               (scan_gaps markdown 0 gaps \<lparr>occurrences = [], malformed_refs = []\<rparr>))" for labels gaps
    by (intro sound_fold_labels sound_scan_gaps)
  then show "list_all (sound_occurrence markdown) (occurrences (scan_references ext markdown))"
    by (simp add: scan_references_def Let_def list_all_iff sound_scan_def)
  have "sorted (map (\<lambda>r. (fst (r_source r), snd (r_source r), kind_rank (r_kind r)))
          (occurrences (scan_references ext markdown)))"
    by (simp add: scan_references_def Let_def)
  then show "sorted (map (\<lambda>r. fst (r_source r)) (occurrences (scan_references ext markdown)))"
    unfolding sorted_map by (rule sorted_wrt_mono_rel [rotated]) (auto simp: less_eq_prod_def)
qed

end
