(* ===== verification/Apply.thy ===== *)
theory Apply
  imports Ink Stem References
begin

text \<open>
  The apply boundary of \<open>crates/notes-core/src/operation.rs\<close>: validation of an operation, the
  effects that a batch may defer, and one handler per operation kind. A handler takes the
  effects and the database and returns the affected UUIDs with both, or the error that makes
  the caller roll the transaction back. Statistics, tracing and the optional change tracker,
  which only observe, are left out.
\<close>

section \<open>Validation\<close>

definition validate_title :: "string option \<Rightarrow> core_error + unit" where
  "validate_title title =
     guard (case title of None \<Rightarrow> True | Some t \<Rightarrow> trim t \<noteq> [])
       (InvalidInput ''page title cannot be blank'') (Inr ())"

definition forbidden_filename_char :: "string \<Rightarrow> bool" where
  "forbidden_filename_char ch \<longleftrightarrow> code_point ch \<in> {47, 92, 0} \<or> is_control ch"

definition validate_attachment_filename :: "string \<Rightarrow> core_error + unit" where
  "validate_attachment_filename filename =
     guard (\<not> (trim filename = [] \<or> filename = ''.'' \<or> filename = ''..'' \<or>
               list_ex forbidden_filename_char (chars_of filename)))
       (InvalidInput ''attachment filename must be a portable basename'') (Inr ())"

definition not_own_parent :: "uuid \<Rightarrow> uuid option \<Rightarrow> core_error + unit" where
  "not_own_parent u parent =
     guard (parent \<noteq> Some u) (InvalidInput ''a block cannot be its own parent'') (Inr ())"

fun validate_kind :: "op_kind \<Rightarrow> core_error + unit" where
  "validate_kind (InkPublish p) = publish_validate p"
| "validate_kind (PageCreate p) =
     attempt (validate_title (pc_title p)) (\<lambda>_.
       guard (\<not> (is_journal (pc_kind p) \<and> pc_title p \<noteq> None))
         (InvalidInput ''journal pages cannot have a stored title'') (Inr ()))"
| "validate_kind (PageAliasSet p) = Inr ()"
| "validate_kind (PageSetTitle p) = validate_title (pt_title p)"
| "validate_kind (PageSetLayout p) = Inr ()"
| "validate_kind (PageDelete p) = Inr ()"
| "validate_kind (BlockCreate p) = not_own_parent (bc_uuid p) (bc_parent_uuid p)"
| "validate_kind (BlockMove p) = not_own_parent (bv_uuid p) (bv_parent_uuid p)"
| "validate_kind (BlockSetMarkdown p) = Inr ()"
| "validate_kind (BlockSetStyle p) = Inr ()"
| "validate_kind (BlockDelete p) = Inr ()"
| "validate_kind (AttachmentAdd p) =
     attempt (validate_attachment_filename (aa_filename p)) (\<lambda>_.
       guard (trim (aa_mime p) \<noteq> []) (InvalidInput ''attachment MIME type is required'')
         (guard (uint (aa_size p) \<le> i64_max) (InvalidInput ''attachment size is too large'') (Inr ())))"
| "validate_kind (AttachmentRemove p) = Inr ()"

fun needs_format_7 :: "op_kind \<Rightarrow> bool" where
  "needs_format_7 (InkPublish _) = True"
| "needs_format_7 (PageCreate p) \<longleftrightarrow> pc_kind p = Handwriting"
| "needs_format_7 _ = False"

definition validate_op :: "op \<Rightarrow> core_error + unit" where
  "validate_op operation =
     guard (op_workspace operation \<noteq> 0) (InvalidInput ''operation workspace UUID cannot be nil'')
       (guard ((op_format operation = 6 \<or> op_format operation = format_version) \<and>
               \<not> (op_format operation = 6 \<and> needs_format_7 (op_kind operation)))
          (InvalidInput ''unsupported operation format version'')
          (validate_kind (op_kind operation)))"

section \<open>References in the database\<close>

definition parse_refs :: "externals \<Rightarrow> string \<Rightarrow> string list \<times> uuid list" where
  "parse_refs ext markdown =
     (let refs = occurrences (scan_references ext markdown);
          titles = List.map_filter (\<lambda>r. if r_kind r = WikiLink then Some (target_text r markdown) else None) refs;
          targets = List.map_filter (\<lambda>r. if r_kind r = BlockReference then uuid_parse ext (target_text r markdown) else None) refs
      in (keys (fold (\<lambda>t. put t ()) titles tempty), keys (fold (\<lambda>u. put u ()) targets tempty)))"

definition content_references_changed :: "externals \<Rightarrow> string \<Rightarrow> string \<Rightarrow> bool" where
  "content_references_changed ext previous nxt \<longleftrightarrow> parse_refs ext previous \<noteq> parse_refs ext nxt"

definition explicit_page_aliases :: "db \<Rightarrow> uuid \<Rightarrow> string list" where
  "explicit_page_aliases d page =
     List.map_filter (\<lambda>((p, alias), r). if p = page \<and> al_present r then Some alias else None) (rows (aliases d))"

definition page_reference_aliases :: "db \<Rightarrow> uuid \<Rightarrow> string list" where
  "page_reference_aliases d page =
     (let explicit = fold (\<lambda>a. put a ()) (explicit_page_aliases d page) tempty in
      keys (case Option.bind (get (pages d) page) p_normalized of
              None \<Rightarrow> explicit | Some title \<Rightarrow> put title () explicit))"

text \<open>A name resolves when exactly one live page has it as title or explicit alias.\<close>

definition resolve_page_alias :: "db \<Rightarrow> string \<Rightarrow> uuid option" where
  "resolve_page_alias d alias =
     (let named = (\<lambda>(p, r). p_normalized r = Some alias \<or>
                     (case get (aliases d) (p, alias) of None \<Rightarrow> False | Some a \<Rightarrow> al_present a))
      in case take 2 (map fst (filter named (rows (pages d)))) of
           [p] \<Rightarrow> Some p
         | _ \<Rightarrow> None)"

definition reconcile_page_links_for_alias :: "string \<Rightarrow> db \<Rightarrow> db" where
  "reconcile_page_links_for_alias alias d =
     (let target = resolve_page_alias d alias in
      d\<lparr>page_links := mapv (\<lambda>(_, title) (old, at). (if title = alias then target else old, at)) (page_links d)\<rparr>)"

definition put_new :: "'k::linorder \<Rightarrow> 'v \<Rightarrow> ('k, 'v) table \<Rightarrow> ('k, 'v) table" where
  "put_new k v t = (if has t k then t else put k v t)"

definition replace_block_refs :: "externals \<Rightarrow> uuid \<Rightarrow> string \<Rightarrow> int \<Rightarrow> db \<Rightarrow> db" where
  "replace_block_refs ext block markdown now d =
     (let (titles, targets) = parse_refs ext markdown;
          links = filt (\<lambda>(s, _) _. s \<noteq> block) (page_links d);
          refs = filt (\<lambda>(s, _) _. s \<noteq> block) (block_refs d)
      in d\<lparr>page_links := fold (\<lambda>title.
               let name = normalize_title ext title in put_new (block, name) (resolve_page_alias d name, now))
             titles links,
           block_refs := fold (\<lambda>target. put_new (block, target) now)
             (filter (\<lambda>target. target \<noteq> block) targets) refs\<rparr>)"

section \<open>Effects of a batch\<close>

record effects =
  e_deferred :: bool
  e_dirty :: bool
  e_mode :: projection_mode
  e_seeds :: uuids
  e_graph_changed :: uuids
  e_pending_refs :: "(uuid, string \<times> int) table"
  e_pending_links :: "(string, unit) table"

definition effects_immediate :: effects where
  "effects_immediate =
     \<lparr>e_deferred = False, e_dirty = False, e_mode = Full, e_seeds = tempty, e_graph_changed = tempty,
      e_pending_refs = tempty, e_pending_links = tempty\<rparr>"

definition effects_deferred :: effects where
  "effects_deferred = effects_immediate\<lparr>e_deferred := True\<rparr>"

type_synonym state = "effects \<times> db"

definition on_db :: "(db \<Rightarrow> db) \<Rightarrow> state \<Rightarrow> state" where
  "on_db f st = (fst st, f (snd st))"

definition seed_with :: "(db \<Rightarrow> uuids \<Rightarrow> uuids) \<Rightarrow> state \<Rightarrow> state" where
  "seed_with f st =
     (case st of (e, d) \<Rightarrow>
        if e_mode e = Components then (e\<lparr>e_seeds := f d (e_seeds e)\<rparr>, d) else (e, d))"

definition touch_structure_block :: "uuid \<Rightarrow> uuid option \<Rightarrow> state \<Rightarrow> state" where
  "touch_structure_block u new_parent = seed_with (\<lambda>d. touch_block d u new_parent)"

definition touch_structure_page :: "uuid \<Rightarrow> state \<Rightarrow> state" where
  "touch_structure_page p = seed_with (\<lambda>d. touch_page d p)"

definition deleting_structure_block :: "uuid \<Rightarrow> state \<Rightarrow> state" where
  "deleting_structure_block u = seed_with (\<lambda>d. deleting_block d u)"

definition project_structure :: "state \<Rightarrow> state" where
  "project_structure st =
     (case st of (e, d) \<Rightarrow>
        (e\<lparr>e_seeds := tempty, e_dirty := False\<rparr>, reconcile_structure (e_mode e) (e_seeds e) d))"

definition request_structure :: "state \<Rightarrow> state" where
  "request_structure st =
     (if e_deferred (fst st) then ((fst st)\<lparr>e_dirty := True\<rparr>, snd st) else project_structure st)"

definition ensure_structure_current :: "state \<Rightarrow> state" where
  "ensure_structure_current st = (if e_dirty (fst st) then project_structure st else st)"

definition request_block_refs :: "externals \<Rightarrow> uuid \<Rightarrow> string \<Rightarrow> int \<Rightarrow> state \<Rightarrow> state" where
  "request_block_refs ext u markdown timestamp st =
     (case st of (e, d) \<Rightarrow>
        if e_deferred e then (e\<lparr>e_pending_refs := put u (markdown, timestamp) (e_pending_refs e)\<rparr>, d)
        else (e, replace_block_refs ext u markdown timestamp d))"

definition request_page_links :: "string \<Rightarrow> state \<Rightarrow> state" where
  "request_page_links alias st =
     (case st of (e, d) \<Rightarrow>
        if e_deferred e then (e\<lparr>e_pending_links := put alias () (e_pending_links e)\<rparr>, d)
        else (e, reconcile_page_links_for_alias alias d))"

definition discard_block_refs :: "uuid \<Rightarrow> state \<Rightarrow> state" where
  "discard_block_refs u st =
     (case st of (e, d) \<Rightarrow> (e\<lparr>e_pending_refs := del u (e_pending_refs e)\<rparr>, d))"

definition finish_projections :: "externals \<Rightarrow> state \<Rightarrow> state" where
  "finish_projections ext st =
     (case ensure_structure_current st of (e, d) \<Rightarrow>
        (e\<lparr>e_pending_links := tempty, e_pending_refs := tempty\<rparr>,
         fold (\<lambda>(u, (markdown, timestamp)). replace_block_refs ext u markdown timestamp) (rows (e_pending_refs e))
           (fold reconcile_page_links_for_alias (keys (e_pending_links e)) d)))"

section \<open>Columns with their own clock\<close>

text \<open>
  \<open>apply_page_title\<close>. A title that another page took with a later clock is given up: the page
  becomes untitled at the operation's clock; otherwise the other page loses its title and keeps
  its clock.
\<close>

definition title_holder :: "db \<Rightarrow> string \<Rightarrow> uuid \<Rightarrow> (uuid \<times> page_row) option" where
  "title_holder d name u =
     (case filter (\<lambda>(p, r). p_normalized r = Some name \<and> p \<noteq> u) (rows (pages d)) of
        [] \<Rightarrow> None | x # _ \<Rightarrow> Some x)"

definition set_title :: "externals \<Rightarrow> string option \<Rightarrow> hlc \<Rightarrow> int \<Rightarrow> page_row \<Rightarrow> page_row" where
  "set_title ext title t timestamp r =
     r\<lparr>p_title := title, p_normalized := map_option (normalize_title ext) title,
       p_title_stemmed := (case title of None \<Rightarrow> [] | Some s \<Rightarrow> stem ext s),
       p_title_hlc := Some t, p_updated := max (p_updated r) timestamp\<rparr>"

definition clear_title :: "int \<Rightarrow> page_row \<Rightarrow> page_row" where
  "clear_title timestamp r =
     r\<lparr>p_title := None, p_normalized := None, p_title_stemmed := [], p_updated := max (p_updated r) timestamp\<rparr>"

definition apply_page_title :: "externals \<Rightarrow> uuid \<Rightarrow> string option \<Rightarrow> hlc \<Rightarrow> state \<Rightarrow> state" where
  "apply_page_title ext u title t st =
     (case get (pages (snd st)) u of
        None \<Rightarrow> st
      | Some r \<Rightarrow>
          if \<not> hlc_wins (p_title_hlc r) t then st
          else
            let timestamp = timestamp_seconds t;
                name = map_option (normalize_title ext) title;
                previous = (case p_normalized r of None \<Rightarrow> tempty | Some n \<Rightarrow> put n () tempty);
                dirty = keys (case name of None \<Rightarrow> previous | Some n \<Rightarrow> put n () previous);
                holder = (case name of None \<Rightarrow> None | Some n \<Rightarrow> title_holder (snd st) n u);
                set_pages = (\<lambda>f. on_db (\<lambda>d. d\<lparr>pages := f (pages d)\<rparr>));
                win = upd u (set_title ext title t timestamp);
                st = (case holder of
                        None \<Rightarrow> set_pages win st
                      | Some (other, o_row) \<Rightarrow>
                          if \<not> hlc_wins (p_title_hlc o_row) t
                          then set_pages (upd u (\<lambda>r. (clear_title timestamp r)\<lparr>p_title_hlc := Some t\<rparr>)) st
                          else set_pages (\<lambda>ps. win (upd other (clear_title timestamp) ps)) st)
            in fold request_page_links dirty st)"

definition apply_page_layout :: "uuid \<Rightarrow> page_layout \<Rightarrow> hlc \<Rightarrow> db \<Rightarrow> db" where
  "apply_page_layout u layout t d =
     (case get (pages d) u of
        None \<Rightarrow> d
      | Some r \<Rightarrow>
          if hlc_wins (p_layout_hlc r) t
          then d\<lparr>pages := put u (r\<lparr>p_layout := layout, p_layout_hlc := Some t,
                                   p_updated := max (p_updated r) (timestamp_seconds t)\<rparr>) (pages d)\<rparr>
          else d)"

definition apply_block_markdown :: "externals \<Rightarrow> uuid \<Rightarrow> string \<Rightarrow> hlc \<Rightarrow> state \<Rightarrow> state" where
  "apply_block_markdown ext u markdown t st =
     (case st of (e, d) \<Rightarrow>
        case get (blocks d) u of
          None \<Rightarrow> st
        | Some r \<Rightarrow>
            if hlc_wins (b_markdown_hlc r) t
            then let e = (if content_references_changed ext (b_markdown r) markdown
                          then e\<lparr>e_graph_changed := put u () (e_graph_changed e)\<rparr> else e);
                     d = d\<lparr>blocks := put u (r\<lparr>b_markdown := markdown, b_stemmed := stem ext markdown,
                                            b_markdown_hlc := Some t,
                                            b_updated := max (b_updated r) (timestamp_seconds t)\<rparr>) (blocks d)\<rparr>
                 in request_block_refs ext u markdown (timestamp_seconds t) (e, d)
            else st)"

definition apply_block_style :: "uuid \<Rightarrow> block_style \<Rightarrow> hlc \<Rightarrow> db \<Rightarrow> db" where
  "apply_block_style u style t d =
     (case get (blocks d) u of
        None \<Rightarrow> d
      | Some r \<Rightarrow>
          if hlc_wins (b_style_hlc r) t
          then d\<lparr>blocks := put u (r\<lparr>b_style := style, b_style_hlc := Some t,
                                    b_updated := max (b_updated r) (timestamp_seconds t)\<rparr>) (blocks d)\<rparr>
          else d)"


section \<open>Handlers\<close>

type_synonym applied = "core_error + (uuid list \<times> state)"

definition lift_db :: "(db \<Rightarrow> core_error + db) \<Rightarrow> state \<Rightarrow> core_error + state" where
  "lift_db f st = attempt (f (snd st)) (\<lambda>d. Inr (fst st, d))"

definition apply_ink_publish :: "externals \<Rightarrow> op \<Rightarrow> publish \<Rightarrow> state \<Rightarrow> applied" where
  "apply_ink_publish ext operation p st =
     attempt (ensure_object_kind (snd st) (page_uuid p) PageObject) (\<lambda>_.
     attempt (lift_db (apply_version ext
                \<lparr>ve_publication = p, ve_device = op_device operation, ve_hlc = op_hlc operation\<rparr>) st)
       (\<lambda>st. Inr ([page_uuid p], st)))"

text \<open>
  \<open>PageCreate\<close> on a live journal page: concurrent creations of one day share the page, which
  keeps the earliest creation clock; the initial title and layout clocks follow it.
\<close>

definition lower_journal_floor :: "hlc \<Rightarrow> int \<Rightarrow> page_row \<Rightarrow> page_row" where
  "lower_journal_floor t created r =
     (let current = p_existence r in
      r\<lparr>p_existence := t,
        p_title_hlc := (if p_title_hlc r = Some current then Some t else p_title_hlc r),
        p_layout_hlc := (if p_layout_hlc r = Some current then Some t else p_layout_hlc r),
        p_created := min (p_created r) created,
        p_updated := min (p_updated r) (timestamp_seconds t)\<rparr>)"

text \<open>The removal of one block of the generation that a page recreation replaces.\<close>

definition drop_stale_block :: "uuid \<Rightarrow> hlc \<Rightarrow> uuid \<Rightarrow> state \<Rightarrow> state" where
  "drop_stale_block page t block st =
     on_db (\<lambda>d. delete_block block
               ((\<lambda>d. d\<lparr>intents := del block (intents d)\<rparr>) (write_tombstone block BlockObject (Some page) t d)))
       (discard_block_refs block (deleting_structure_block block st))"

definition stale_blocks :: "db \<Rightarrow> uuid \<Rightarrow> hlc \<Rightarrow> uuid list" where
  "stale_blocks d page t =
     map fst (filter (\<lambda>(_, r). b_page r = page \<and> b_existence r < t) (rows (blocks d)))"

definition promote_tombstones :: "uuid \<Rightarrow> hlc \<Rightarrow> db \<Rightarrow> db" where
  "promote_tombstones page t d =
     d\<lparr>tombstones := mapv (\<lambda>_ r. if t_kind r = BlockObject \<and> t_root r = Some page \<and> t_hlc r < t
                                 then r\<lparr>t_hlc := t\<rparr> else r) (tombstones d)\<rparr>"

definition upsert_page :: "page_create \<Rightarrow> hlc \<Rightarrow> db \<Rightarrow> db" where
  "upsert_page p t d =
     (let timestamp = timestamp_seconds t in
      d\<lparr>pages :=
        (case get (pages d) (pc_uuid p) of
           None \<Rightarrow> put (pc_uuid p)
             \<lparr>p_title = None, p_normalized = None, p_title_stemmed = [], p_layout = pc_layout p,
              p_title_hlc = None, p_layout_hlc = None, p_existence = t,
              p_created = pc_created_at p, p_updated = timestamp\<rparr> (pages d)
         | Some r \<Rightarrow>
             if p_existence r < t
             then put (pc_uuid p) (r\<lparr>p_existence := t, p_created := pc_created_at p,
                                     p_updated := max (p_updated r) timestamp\<rparr>) (pages d)
             else pages d)\<rparr>)"

definition drop_older_tombstone :: "uuid \<Rightarrow> hlc \<Rightarrow> db \<Rightarrow> db" where
  "drop_older_tombstone u t d =
     d\<lparr>tombstones := filt (\<lambda>v r. \<not> (v = u \<and> t_hlc r < t)) (tombstones d)\<rparr>"

definition create_page_generation :: "externals \<Rightarrow> hlc \<Rightarrow> page_create \<Rightarrow> state \<Rightarrow> applied" where
  "create_page_generation ext t p st =
     (let u = pc_uuid p;
          replaces = (case get (pages (snd st)) u of None \<Rightarrow> False | Some r \<Rightarrow> p_existence r < t);
          st = (if replaces then ensure_structure_current st else st);
          st = touch_structure_page u st;
          stale = (if replaces then stale_blocks (snd st) u t else []);
          st = fold (drop_stale_block u t) stale st;
          st = on_db (promote_tombstones u t) st;
          st = on_db (upsert_page p t) st;
          st = on_db (drop_older_tombstone u t) st
      in attempt (lift_db (materialize_page_kind u (pc_kind p)) st) (\<lambda>st.
         let st = apply_page_title ext u (pc_title p) t st;
             st = fold request_page_links (explicit_page_aliases (snd st) u) st;
             st = on_db (apply_page_layout u (pc_layout p) t) st;
             st = request_structure st
         in attempt (lift_db (reconcile_attachments_for_owner (PageOwner u)) st) (\<lambda>st.
            Inr (u # stale, st))))"

definition apply_page_create :: "externals \<Rightarrow> op \<Rightarrow> page_create \<Rightarrow> state \<Rightarrow> applied" where
  "apply_page_create ext operation p st =
     (let u = pc_uuid p; t = op_hlc operation in
      attempt (ensure_object_kind (snd st) u PageObject) (\<lambda>_.
      attempt (lift_db (ensure_page_identity ext u (pc_kind p)) st) (\<lambda>st.
      if tombstone_dominates (snd st) u t then Inr ([u], st)
      else
        (case get (pages (snd st)) u of
           Some r \<Rightarrow>
             if is_journal (pc_kind p)
             then Inr ([u], if t < p_existence r
                            then on_db (\<lambda>d. d\<lparr>pages := upd u (lower_journal_floor t (pc_created_at p)) (pages d)\<rparr>) st
                            else st)
             else create_page_generation ext t p st
         | None \<Rightarrow> create_page_generation ext t p st))))"

definition apply_page_alias_set :: "op \<Rightarrow> page_alias_set \<Rightarrow> state \<Rightarrow> applied" where
  "apply_page_alias_set operation p st =
     attempt (ensure_object_kind (snd st) (pa_uuid p) PageObject) (\<lambda>_.
     guard (page_identity (snd st) (pa_uuid p) \<noteq> None) (NotFound ''page for alias was not found'')
       (let changed = (case get (aliases (snd st)) (pa_uuid p, pa_alias p) of
                         None \<Rightarrow> True | Some r \<Rightarrow> al_hlc r < op_hlc operation);
            st = on_db (write_alias (pa_uuid p) (pa_alias p) (op_hlc operation) (pa_present p)) st
        in Inr ([pa_uuid p], if changed then request_page_links (pa_alias p) st else st)))"

definition apply_page_set_title :: "externals \<Rightarrow> op \<Rightarrow> page_set_title \<Rightarrow> state \<Rightarrow> applied" where
  "apply_page_set_title ext operation p st =
     attempt (ensure_object_kind (snd st) (pt_uuid p) PageObject) (\<lambda>_.
     guard (\<not> (case page_identity (snd st) (pt_uuid p) of None \<Rightarrow> False | Some k \<Rightarrow> is_journal k))
       (InvalidInput ''journal page titles are derived from their date'')
       (Inr ([pt_uuid p],
             if is_tombstoned (snd st) (pt_uuid p) then st
             else apply_page_title ext (pt_uuid p) (pt_title p) (op_hlc operation) st)))"

definition apply_page_set_layout :: "op \<Rightarrow> page_set_layout \<Rightarrow> state \<Rightarrow> applied" where
  "apply_page_set_layout operation p st =
     attempt (ensure_text_note_target (snd st) (pl_uuid p)) (\<lambda>_.
     attempt (ensure_object_kind (snd st) (pl_uuid p) PageObject) (\<lambda>_.
     Inr ([pl_uuid p],
          if is_tombstoned (snd st) (pl_uuid p) then st
          else on_db (apply_page_layout (pl_uuid p) (pl_layout p) (op_hlc operation)) st)))"

text \<open>\<open>PageDelete\<close>: the cascade over the page's blocks, then the page itself if this delete won.\<close>

definition delete_page_block :: "uuid \<Rightarrow> hlc \<Rightarrow> uuid \<Rightarrow> state \<Rightarrow> state" where
  "delete_page_block page t block st =
     on_db (\<lambda>d. (\<lambda>d. d\<lparr>intents := del block (intents d)\<rparr>) (write_tombstone block BlockObject (Some page) t d))
       (deleting_structure_block block st)"

definition page_blocks :: "db \<Rightarrow> uuid \<Rightarrow> uuid list" where
  "page_blocks d page = map fst (filter (\<lambda>(_, r). b_page r = page) (rows (blocks d)))"

definition apply_page_delete :: "op \<Rightarrow> page_delete \<Rightarrow> state \<Rightarrow> applied" where
  "apply_page_delete operation p st =
     (let u = pd_uuid p; t = op_hlc operation in
      attempt (ensure_object_kind (snd st) u PageObject) (\<lambda>_.
      if (case get (pages (snd st)) u of None \<Rightarrow> False | Some r \<Rightarrow> t < p_existence r) then Inr ([u], st)
      else
        let st = ensure_structure_current st;
            st = touch_structure_page u st;
            reference_aliases = page_reference_aliases (snd st) u;
            members = page_blocks (snd st) u;
            st = on_db (write_tombstone u PageObject (Some u) t) st;
            st = fold (delete_page_block u t) members st;
            st = (if tombstone_equals (snd st) u t
                  then fold request_page_links reference_aliases
                         (on_db (\<lambda>d. (\<lambda>d. d\<lparr>ink := purge_page u (ink d)\<rparr>) (delete_page u d))
                            (fold discard_block_refs members st))
                  else st)
        in Inr (u # members, st)))"

text \<open>The insertion of a block, or the later existence clock of one that is already there.\<close>

definition upsert_block :: "externals \<Rightarrow> block_create \<Rightarrow> hlc \<Rightarrow> db \<Rightarrow> db" where
  "upsert_block ext p t d =
     (let timestamp = timestamp_seconds t in
      d\<lparr>blocks :=
        (case get (blocks d) (bc_uuid p) of
           None \<Rightarrow> put (bc_uuid p)
             \<lparr>b_page = bc_page_uuid p, b_parent = None, b_order = bc_order_key p, b_style = bc_style p,
              b_markdown = bc_markdown p, b_stemmed = stem ext (bc_markdown p), b_markdown_hlc = None,
              b_style_hlc = None, b_structure_hlc = None, b_existence = t,
              b_created = bc_created_at p, b_updated = timestamp\<rparr> (blocks d)
         | Some r \<Rightarrow>
             if b_existence r < t
             then put (bc_uuid p) (r\<lparr>b_existence := t, b_created := bc_created_at p,
                                     b_updated := max (b_updated r) timestamp\<rparr>) (blocks d)
             else blocks d)\<rparr>)"

definition create_block :: "externals \<Rightarrow> hlc \<Rightarrow> block_create \<Rightarrow> state \<Rightarrow> applied" where
  "create_block ext t p st =
     (let u = bc_uuid p;
          st = touch_structure_block u (bc_parent_uuid p) st;
          st = on_db (upsert_block ext p t) st;
          st = on_db (drop_older_tombstone u t) st;
          st = on_db (write_structure_intent u (bc_page_uuid p) (bc_parent_uuid p) (bc_order_key p) t) st;
          st = apply_block_markdown ext u (bc_markdown p) t st;
          st = on_db (apply_block_style u (bc_style p) t) st;
          st = request_structure st
      in attempt (lift_db (reconcile_attachments_for_owner (BlockOwner u)) st) (\<lambda>st.
         Inr ([u, bc_page_uuid p], st)))"

text \<open>The part of \<open>BlockCreate\<close> after the page's own tombstone was looked up.\<close>

definition create_block_on :: "externals \<Rightarrow> hlc \<Rightarrow> block_create \<Rightarrow> state \<Rightarrow> applied" where
  "create_block_on ext t p st =
     (case get (pages (snd st)) (bc_page_uuid p) of
        None \<Rightarrow> Inl (NotFound ''page for block was not found'')
      | Some r \<Rightarrow>
          if t < p_existence r
          then Inr ([bc_uuid p, bc_page_uuid p],
                    on_db (write_tombstone (bc_uuid p) BlockObject (Some (bc_page_uuid p)) (p_existence r)) st)
          else create_block ext t p st)"

definition ensure_parent_kind :: "db \<Rightarrow> uuid option \<Rightarrow> core_error + unit" where
  "ensure_parent_kind d parent =
     (case parent of None \<Rightarrow> Inr () | Some q \<Rightarrow> ensure_object_kind d q BlockObject)"

definition apply_block_create :: "externals \<Rightarrow> op \<Rightarrow> block_create \<Rightarrow> state \<Rightarrow> applied" where
  "apply_block_create ext operation p st =
     (let u = bc_uuid p; page = bc_page_uuid p; t = op_hlc operation; d = snd st in
      attempt (ensure_text_note_target d page) (\<lambda>_.
      attempt (ensure_object_kind d u BlockObject) (\<lambda>_.
      attempt (ensure_object_kind d page PageObject) (\<lambda>_.
      attempt (ensure_parent_kind d (bc_parent_uuid p)) (\<lambda>_.
      if tombstone_dominates d u t then Inr ([u], st)
      else
        (case get (tombstones d) page of
           Some r \<Rightarrow>
             if t_kind r = PageObject
             then Inr ([u, page], on_db (write_tombstone u BlockObject (Some page) (t_hlc r)) st)
             else create_block_on ext t p st
         | None \<Rightarrow> create_block_on ext t p st))))))"


definition apply_block_set_markdown :: "externals \<Rightarrow> op \<Rightarrow> block_set_markdown \<Rightarrow> state \<Rightarrow> applied" where
  "apply_block_set_markdown ext operation p st =
     attempt (ensure_object_kind (snd st) (bm_uuid p) BlockObject) (\<lambda>_.
     Inr ([bm_uuid p],
          if is_tombstoned (snd st) (bm_uuid p) then st
          else apply_block_markdown ext (bm_uuid p) (bm_markdown p) (op_hlc operation) st))"

definition apply_block_set_style :: "op \<Rightarrow> block_set_style \<Rightarrow> state \<Rightarrow> applied" where
  "apply_block_set_style operation p st =
     attempt (ensure_object_kind (snd st) (bs_uuid p) BlockObject) (\<lambda>_.
     Inr ([bs_uuid p],
          if is_tombstoned (snd st) (bs_uuid p) then st
          else on_db (apply_block_style (bs_uuid p) (bs_style p) (op_hlc operation)) st))"

text \<open>
  A move to a page that is not live first settles the pending placements: the block keeps the
  place it shows, and the new intent waits for the page.
\<close>

definition touch_block_updated :: "uuid \<Rightarrow> hlc \<Rightarrow> db \<Rightarrow> db" where
  "touch_block_updated u t d =
     d\<lparr>blocks := upd u (\<lambda>r. r\<lparr>b_updated := max (b_updated r) (timestamp_seconds t)\<rparr>) (blocks d)\<rparr>"

definition move_block :: "hlc \<Rightarrow> block_move \<Rightarrow> state \<Rightarrow> state" where
  "move_block t p st =
     (let u = bv_uuid p;
          st = (if e_dirty (fst st) \<and> \<not> has (pages (snd st)) (bv_page_uuid p)
                then ensure_structure_current st else st);
          st = touch_structure_block u (bv_parent_uuid p) st;
          st = on_db (write_structure_intent u (bv_page_uuid p) (bv_parent_uuid p) (bv_order_key p) t) st;
          st = request_structure st
      in on_db (touch_block_updated u t) st)"

definition apply_block_move :: "op \<Rightarrow> block_move \<Rightarrow> state \<Rightarrow> applied" where
  "apply_block_move operation p st =
     (let d = snd st in
      attempt (ensure_text_note_target d (bv_page_uuid p)) (\<lambda>_.
      attempt (ensure_object_kind d (bv_uuid p) BlockObject) (\<lambda>_.
      attempt (ensure_object_kind d (bv_page_uuid p) PageObject) (\<lambda>_.
      attempt (ensure_parent_kind d (bv_parent_uuid p)) (\<lambda>_.
      Inr ([bv_uuid p, bv_page_uuid p],
           if is_tombstoned d (bv_uuid p) then st else move_block (op_hlc operation) p st))))))"

definition remove_block :: "uuid \<Rightarrow> bool \<Rightarrow> state \<Rightarrow> state" where
  "remove_block u present st =
     (let st = discard_block_refs u (deleting_structure_block u st);
          st = on_db (\<lambda>d. d\<lparr>intents := del u (intents d)\<rparr>) st;
          st = (if present then on_db (delete_block u) st else st)
      in request_structure st)"

definition apply_block_delete :: "op \<Rightarrow> block_delete \<Rightarrow> state \<Rightarrow> applied" where
  "apply_block_delete operation p st =
     (let u = bd_uuid p; page = bd_page_uuid p; t = op_hlc operation; d = snd st in
      attempt (ensure_object_kind d u BlockObject) (\<lambda>_.
      attempt (ensure_object_kind d page PageObject) (\<lambda>_.
      let current = map_option b_existence (get (blocks d) u) in
      if (case current of None \<Rightarrow> False | Some x \<Rightarrow> t < x) then Inr ([u], st)
      else
        let st = on_db (write_tombstone u BlockObject (Some page) t) st in
        if tombstone_equals (snd st) u t
        then Inr ([u, page], remove_block u (current \<noteq> None) st)
        else Inr ([u], st))))"

definition apply_attachment :: "snapshot_attachment \<Rightarrow> state \<Rightarrow> applied" where
  "apply_attachment a st =
     attempt (ensure_object_kind (snd st) (owner_uuid (sa_owner a)) (owner_kind (sa_owner a))) (\<lambda>_.
     attempt (lift_db (reconcile_attachment (sa_owner a, sa_blob_hash a)) (on_db (write_attachment_intent a) st))
       (\<lambda>st. Inr ([owner_uuid (sa_owner a), sa_uuid a], st)))"

definition added_attachment :: "externals \<Rightarrow> op \<Rightarrow> attachment_add \<Rightarrow> snapshot_attachment" where
  "added_attachment ext operation p =
     \<lparr>sa_owner = aa_owner p, sa_blob_hash = aa_blob_hash p,
      sa_uuid = attachment_uuid ext (aa_owner p) (aa_blob_hash p), sa_hlc = op_hlc operation,
      sa_present = True, sa_filename = Some (aa_filename p), sa_mime = Some (aa_mime p),
      sa_size = Some (aa_size p)\<rparr>"

definition removed_attachment :: "externals \<Rightarrow> op \<Rightarrow> attachment_remove \<Rightarrow> snapshot_attachment" where
  "removed_attachment ext operation p =
     \<lparr>sa_owner = ar_owner p, sa_blob_hash = ar_blob_hash p,
      sa_uuid = attachment_uuid ext (ar_owner p) (ar_blob_hash p), sa_hlc = op_hlc operation,
      sa_present = False, sa_filename = None, sa_mime = None, sa_size = None\<rparr>"

text \<open>\<open>apply_one_with_effects\<close>.\<close>

definition apply_one :: "externals \<Rightarrow> op \<Rightarrow> state \<Rightarrow> applied" where
  "apply_one ext operation st =
     guard (op_workspace operation = workspace (snd st)) (Conflict ''operation belongs to another workspace'')
       (case op_kind operation of
          InkPublish p \<Rightarrow> apply_ink_publish ext operation p st
        | PageCreate p \<Rightarrow> apply_page_create ext operation p st
        | PageAliasSet p \<Rightarrow> apply_page_alias_set operation p st
        | PageSetTitle p \<Rightarrow> apply_page_set_title ext operation p st
        | PageSetLayout p \<Rightarrow> apply_page_set_layout operation p st
        | PageDelete p \<Rightarrow> apply_page_delete operation p st
        | BlockCreate p \<Rightarrow> apply_block_create ext operation p st
        | BlockSetMarkdown p \<Rightarrow> apply_block_set_markdown ext operation p st
        | BlockSetStyle p \<Rightarrow> apply_block_set_style operation p st
        | BlockMove p \<Rightarrow> apply_block_move operation p st
        | BlockDelete p \<Rightarrow> apply_block_delete operation p st
        | AttachmentAdd p \<Rightarrow> apply_attachment (added_attachment ext operation p) st
        | AttachmentRemove p \<Rightarrow> apply_attachment (removed_attachment ext operation p) st)"

end
