(* ===== verification/Integrity.thy ===== *)
theory Integrity
  imports Apply
begin

text \<open>
  The integrity of the replica under the apply boundary. \<open>sound\<close> collects what the schema
  demands of the tables of notes (identities, pages, journal pages, blocks, titles, links,
  references, attachments: their foreign keys, unique indexes and the guards on UUIDs) and that
  the stored parents form a forest. Every handler preserves it, so none of the statements on these
  tables that the model takes as total can be refused by the database. The tables of drawings have
  foreign keys and unique indexes of their own, which \<open>sound\<close> says nothing about.
\<close>

section \<open>The invariant\<close>

definition identities_ok :: "db \<Rightarrow> bool" where
  "identities_ok d \<longleftrightarrow>
     (\<forall>u. has (pages d) u \<longrightarrow> has (identities d) u) \<and>
     (\<forall>u. has (identities d) u \<longrightarrow> \<not> has (blocks d) u) \<and>
     (\<forall>u v k. get (identities d) u = Some k \<longrightarrow> get (identities d) v = Some k \<longrightarrow> is_journal k \<longrightarrow> u = v)"

definition journals_ok :: "db \<Rightarrow> bool" where
  "journals_ok d \<longleftrightarrow>
     (\<forall>u t. get (journal_pages d) u = Some t \<longrightarrow>
            has (pages d) u \<and> get (identities d) u = Some (Journal t))"

definition blocks_ok :: "db \<Rightarrow> bool" where
  "blocks_ok d \<longleftrightarrow>
     (\<forall>u r. get (blocks d) u = Some r \<longrightarrow>
            has (pages d) (b_page r) \<and> (\<forall>p. b_parent r = Some p \<longrightarrow> has (blocks d) p))"

definition titles_ok :: "db \<Rightarrow> bool" where
  "titles_ok d \<longleftrightarrow>
     (\<forall>u v r s n. get (pages d) u = Some r \<longrightarrow> get (pages d) v = Some s \<longrightarrow>
        p_normalized r = Some n \<longrightarrow> p_normalized s = Some n \<longrightarrow> u = v)"

definition links_ok :: "db \<Rightarrow> bool" where
  "links_ok d \<longleftrightarrow>
     (\<forall>s n target at. get (page_links d) (s, n) = Some (target, at) \<longrightarrow>
        has (blocks d) s \<and> (\<forall>p. target = Some p \<longrightarrow> has (pages d) p)) \<and>
     (\<forall>s t at. get (block_refs d) (s, t) = Some at \<longrightarrow> has (blocks d) s \<and> s \<noteq> t)"

definition attachments_ok :: "db \<Rightarrow> bool" where
  "attachments_ok d \<longleftrightarrow>
     (\<forall>u a. get (attachments d) u = Some a \<longrightarrow> owner_exists d (a_owner a)) \<and>
     (\<forall>u v a b. get (attachments d) u = Some a \<longrightarrow> get (attachments d) v = Some b \<longrightarrow>
        a_owner a = a_owner b \<longrightarrow> a_hash a = a_hash b \<longrightarrow> u = v)"

text \<open>The tables of notes; the tables of drawings are not constrained.\<close>

definition sound :: "db \<Rightarrow> bool" where
  "sound d \<longleftrightarrow> identities_ok d \<and> journals_ok d \<and> blocks_ok d \<and> titles_ok d \<and> links_ok d \<and>
     attachments_ok d \<and> forest d"

lemmas sound_defs = sound_def identities_ok_def journals_ok_def blocks_ok_def titles_ok_def
  links_ok_def attachments_ok_def owner_exists_def

lemma sound_frame [simp]:
  "sound (d\<lparr>intents := a\<rparr>) = sound d"
  "sound (d\<lparr>tombstones := b\<rparr>) = sound d"
  "sound (d\<lparr>aliases := c\<rparr>) = sound d"
  "sound (d\<lparr>attachment_lww := e\<rparr>) = sound d"
  "sound (d\<lparr>ink := f\<rparr>) = sound d"
  "sound (d\<lparr>outbox := g\<rparr>) = sound d"
  "sound (d\<lparr>applied_ops := h\<rparr>) = sound d"
  "sound (d\<lparr>last_hlc := i\<rparr>) = sound d"
  "sound (d\<lparr>last_server_seq := j\<rparr>) = sound d"
  "sound (d\<lparr>local_device := k\<rparr>) = sound d"
  by (simp_all add: sound_defs forest_def block_edges_def cong: attachment_owner.case_cong)

subsection \<open>Updates that keep the shape of the rows\<close>

lemma has_map_option: "map_option f (get s u) = map_option f (get t u) \<Longrightarrow> has s u \<longleftrightarrow> has t u"
  by (metis has_def option.map_disc_iff)

lemma sound_blocks_update:
  assumes "sound d"
    and eq: "\<And>u. map_option (\<lambda>r. (b_page r, b_parent r)) (get t u) = map_option (\<lambda>r. (b_page r, b_parent r)) (get (blocks d) u)"
  shows "sound (d\<lparr>blocks := t\<rparr>)"
proof -
  have h: "has t u \<longleftrightarrow> has (blocks d) u" for u using eq [of u] by (rule has_map_option)
  have row: "\<exists>s. get (blocks d) u = Some s \<and> b_page s = b_page r \<and> b_parent s = b_parent r"
    if "get t u = Some r" for u r
    using eq [of u] that by (cases "get (blocks d) u") auto
  have row': "\<exists>s. get t u = Some s \<and> b_page s = b_page r \<and> b_parent s = b_parent r"
    if "get (blocks d) u = Some r" for u r
    using eq [of u] that by (cases "get t u") auto
  have "block_edges (d\<lparr>blocks := t\<rparr>) = block_edges d"
    using row row' by (fastforce simp: block_edges_def)
  then have "forest (d\<lparr>blocks := t\<rparr>)" using assms(1) by (simp add: sound_def forest_def)
  moreover have "blocks_ok (d\<lparr>blocks := t\<rparr>)"
    using assms(1) row h by (fastforce simp: sound_def blocks_ok_def)
  ultimately show ?thesis
    using assms(1) unfolding sound_def
    by (simp add: identities_ok_def journals_ok_def titles_ok_def links_ok_def attachments_ok_def owner_exists_def h
        cong: attachment_owner.case_cong)
qed

lemma sound_pages_update:
  assumes "sound d" and eq: "\<And>u. map_option p_normalized (get t u) = map_option p_normalized (get (pages d) u)"
  shows "sound (d\<lparr>pages := t\<rparr>)"
proof -
  have h: "has t u \<longleftrightarrow> has (pages d) u" for u using eq [of u] by (rule has_map_option)
  have row: "\<exists>s. get (pages d) u = Some s \<and> p_normalized s = p_normalized r" if "get t u = Some r" for u r
    using eq [of u] that by (cases "get (pages d) u") auto
  have "titles_ok (d\<lparr>pages := t\<rparr>)"
    using assms(1) row unfolding sound_def titles_ok_def by (simp, metis)
  then show ?thesis
    using assms(1) unfolding sound_def
    by (simp add: identities_ok_def journals_ok_def blocks_ok_def links_ok_def attachments_ok_def owner_exists_def h
        forest_def block_edges_def cong: attachment_owner.case_cong)
qed

subsection \<open>Projection\<close>

lemma resolve_pages_live:
  "get (resolve_structure (structure_input_for mode seeds d)) u = Some i \<Longrightarrow> has (pages d) (i_page i)"
proof -
  assume "get (resolve_structure (structure_input_for mode seeds d)) u = Some i"
  then obtain j where j: "get (retain_usable (structure_input_for mode seeds d)) u = Some j" "i_page j = i_page i"
    by (auto simp: resolve_rows)
  then have "has (in_pages (structure_input_for mode seeds d)) (i_page i)"
    by (auto simp: retain_usable_def split: option.splits if_splits)
  then show ?thesis
    by (cases mode) (auto simp: structure_input_for_def load_components_def split: prod.splits intro: has_SomeI)
qed

lemma resolve_parent_block:
  assumes "get (resolve_structure (structure_input_for mode seeds d)) u = Some i" and "i_parent i = Some p"
  shows "has (blocks d) p"
proof -
  have "(u, p) \<in> edges (resolve_structure (structure_input_for mode seeds d))"
    using assms by (simp add: edges_iff parent_of_def)
  with resolve_edges_closed have "has (resolve_structure (structure_input_for mode seeds d)) p" by blast
  then obtain j where "get (resolve_structure (structure_input_for mode seeds d)) p = Some j"
    by (auto simp: has_def)
  from resolve_block [OF this] show ?thesis by (auto intro: has_SomeI)
qed

lemma sound_reconcile: "sound d \<Longrightarrow> sound (reconcile_structure mode seeds d)"
proof -
  assume s: "sound d"
  let ?I = "resolve_structure (structure_input_for mode seeds d)"
  let ?d = "place ?I d"
  have h: "has (blocks ?d) u \<longleftrightarrow> has (blocks d) u" for u by (simp add: place_def)
  have "forest ?d" using s by (simp add: sound_def forest_place)
  moreover have "blocks_ok ?d"
    unfolding blocks_ok_def
  proof (intro allI impI conjI)
    fix u r assume "get (blocks ?d) u = Some r"
    then obtain r0 where r0: "get (blocks d) u = Some r0"
      and r: "r = (case get ?I u of None \<Rightarrow> r0 | Some i \<Rightarrow> materialize i r0)"
      by (auto simp: place_def)
    show "has (pages ?d) (b_page r)"
      using s r0 r resolve_pages_live [of mode seeds d u]
      by (cases "get ?I u") (auto simp: sound_def blocks_ok_def place_def materialize_def)
    fix p assume "b_parent r = Some p"
    then show "has (blocks ?d) p"
      unfolding h using s r0 r resolve_parent_block [of mode seeds d u]
      by (cases "get ?I u") (auto simp: sound_def blocks_ok_def)
  qed
  ultimately show ?thesis
    using s unfolding reconcile_place sound_def
    by (simp add: identities_ok_def journals_ok_def titles_ok_def links_ok_def attachments_ok_def owner_exists_def
        place_def cong: attachment_owner.case_cong)
qed


subsection \<open>Deletions\<close>

definition cut_parent :: "(uuid \<Rightarrow> bool) \<Rightarrow> block_row \<Rightarrow> block_row" where
  "cut_parent gone r =
     (case b_parent r of Some p \<Rightarrow> if gone p then r\<lparr>b_parent := None\<rparr> else r | None \<Rightarrow> r)"

lemma cut_parent_simps [simp]:
  "b_page (cut_parent gone r) = b_page r"
  "b_parent (cut_parent gone r) = Some p \<longleftrightarrow> b_parent r = Some p \<and> \<not> gone p"
  by (auto simp: cut_parent_def split: option.split)

lemma get_delete_block:
  "get (blocks (delete_block u d)) v =
     (if v = u then None
      else map_option (cut_parent (\<lambda>p. p = u)) (get (blocks d) v))"
  by (cases "get (blocks d) v") (auto simp: delete_block_def cut_parent_def split: option.split)

lemma delete_block_frame [simp]:
  "identities (delete_block u d) = identities d" "pages (delete_block u d) = pages d"
  "journal_pages (delete_block u d) = journal_pages d" "tombstones (delete_block u d) = tombstones d"
  "intents (delete_block u d) = intents d" "ink (delete_block u d) = ink d"
  "workspace (delete_block u d) = workspace d" "aliases (delete_block u d) = aliases d"
  by (simp_all add: delete_block_def)

lemma forest_subset: "forest d \<Longrightarrow> block_edges d' \<subseteq> block_edges d \<Longrightarrow> forest d'"
  unfolding forest_def by (rule acyclic_subset)

lemma sound_delete_block: "sound d \<Longrightarrow> sound (delete_block u d)"
proof -
  assume s: "sound d"
  have h: "has (blocks (delete_block u d)) v \<longleftrightarrow> v \<noteq> u \<and> has (blocks d) v" for v
    by (simp add: has_def get_delete_block)
  have "block_edges (delete_block u d) \<subseteq> block_edges d"
    by (auto simp: block_edges_def get_delete_block split: if_splits)
  then have "forest (delete_block u d)" using s by (auto simp: sound_def intro: forest_subset)
  moreover have "blocks_ok (delete_block u d)"
    using s by (auto simp: sound_def blocks_ok_def h get_delete_block split: if_splits)
  moreover have "links_ok (delete_block u d)"
    using s unfolding sound_def links_ok_def h
    by (auto simp: delete_block_def split: option.splits if_splits)
  moreover have "attachments_ok (delete_block u d)"
    using s unfolding sound_def attachments_ok_def owner_exists_def h
    by (auto simp: delete_block_def split: option.splits if_splits attachment_owner.splits)
  ultimately show ?thesis
    using s unfolding sound_def
    by (simp add: identities_ok_def journals_ok_def titles_ok_def h)
qed

definition on_page :: "db \<Rightarrow> uuid \<Rightarrow> uuid \<Rightarrow> bool" where
  "on_page d u b = (case get (blocks d) b of Some r \<Rightarrow> b_page r = u | None \<Rightarrow> False)"

lemma get_delete_page:
  "get (blocks (delete_page u d)) b =
     (if on_page d u b then None
      else map_option (cut_parent (on_page d u)) (get (blocks d) b))"
  by (cases "get (blocks d) b")
    (auto simp: delete_page_def Let_def on_page_def [abs_def] cut_parent_def split: option.split)

lemma delete_page_frame [simp]:
  "identities (delete_page u d) = identities d" "pages (delete_page u d) = del u (pages d)"
  "journal_pages (delete_page u d) = del u (journal_pages d)" "tombstones (delete_page u d) = tombstones d"
  "intents (delete_page u d) = intents d" "ink (delete_page u d) = ink d"
  "workspace (delete_page u d) = workspace d" "aliases (delete_page u d) = aliases d"
  by (simp_all add: delete_page_def Let_def)

lemma delete_page_links:
  "get (page_links (delete_page u d)) (s, n) =
     (if on_page d u s then None
      else map_option (\<lambda>(target, at). (if target = Some u then None else target, at)) (get (page_links d) (s, n)))"
  "get (block_refs (delete_page u d)) (s, t) = (if on_page d u s then None else get (block_refs d) (s, t))"
  "get (attachments (delete_page u d)) v =
     (case get (attachments d) v of
        None \<Rightarrow> None
      | Some a \<Rightarrow> if (case a_owner a of PageOwner p \<Rightarrow> p \<noteq> u | BlockOwner b \<Rightarrow> \<not> on_page d u b)
                  then Some a else None)"
  by (auto simp: delete_page_def Let_def on_page_def split: option.splits attachment_owner.splits)

lemma sound_delete_page: "sound d \<Longrightarrow> sound (delete_page u d)"
proof -
  assume s: "sound d"
  have h: "has (blocks (delete_page u d)) v \<longleftrightarrow> \<not> on_page d u v \<and> has (blocks d) v" for v
    by (simp add: has_def get_delete_page)
  have stay: "b_page r \<noteq> u" if "get (blocks d) b = Some r" "\<not> on_page d u b" for b r
    using that by (simp add: on_page_def)
  have "block_edges (delete_page u d) \<subseteq> block_edges d"
    by (auto simp: block_edges_def get_delete_page split: if_splits option.splits)
  then have "forest (delete_page u d)" using s by (auto simp: sound_def intro: forest_subset)
  moreover have "blocks_ok (delete_page u d)"
    unfolding blocks_ok_def
  proof (intro allI impI conjI)
    fix b r assume "get (blocks (delete_page u d)) b = Some r"
    then obtain r0 where r0: "get (blocks d) b = Some r0" "\<not> on_page d u b"
      and r: "r = cut_parent (on_page d u) r0"
      by (auto simp: get_delete_page split: if_splits)
    show "has (pages (delete_page u d)) (b_page r)"
      unfolding r using s r0 stay by (auto simp: sound_def blocks_ok_def)
    fix p assume "b_parent r = Some p"
    then have "b_parent r0 = Some p" "\<not> on_page d u p" by (auto simp: r)
    then show "has (blocks (delete_page u d)) p" using s r0 by (auto simp: sound_def blocks_ok_def h)
  qed
  moreover have "links_ok (delete_page u d)"
    using s unfolding sound_def links_ok_def h delete_page_links
    by (auto split: if_splits)
  moreover have "attachments_ok (delete_page u d)"
  proof -
    have own: "owner_exists (delete_page u d) (a_owner a)"
      if "get (attachments (delete_page u d)) v = Some a" for v a
      using s that unfolding sound_def attachments_ok_def delete_page_links(3) owner_exists_def
      by (auto simp: h split: option.splits if_splits attachment_owner.splits)
    have "get (attachments d) v = Some a" if "get (attachments (delete_page u d)) v = Some a" for v a
      using that unfolding delete_page_links(3) by (auto split: option.splits if_splits)
    with own s show ?thesis unfolding sound_def attachments_ok_def by metis
  qed
  moreover have "titles_ok (delete_page u d)"
    using s unfolding sound_def titles_ok_def by (auto split: if_splits)
  ultimately show ?thesis
    using s unfolding sound_def by (auto simp: identities_ok_def journals_ok_def h split: if_splits)
qed

subsection \<open>Insertions\<close>

lemma sound_upsert_block:
  assumes s: "sound d" and page: "has (pages d) (bc_page_uuid p)" and fresh: "\<not> has (identities d) (bc_uuid p)"
  shows "sound (upsert_block ext p t d)"
proof (cases "get (blocks d) (bc_uuid p)")
  case (Some r)
  have "upsert_block ext p t d = d\<lparr>blocks := blocks (upsert_block ext p t d)\<rparr>"
    by (simp add: upsert_block_def Let_def)
  moreover have "sound (d\<lparr>blocks := blocks (upsert_block ext p t d)\<rparr>)"
    by (rule sound_blocks_update [OF s]) (auto simp: upsert_block_def Let_def Some)
  ultimately show ?thesis by simp
next
  case None
  let ?d = "upsert_block ext p t d"
  have g: "get (blocks ?d) v = (if v = bc_uuid p then get (blocks ?d) (bc_uuid p) else get (blocks d) v)" for v
    by (simp add: upsert_block_def Let_def None)
  obtain r where r: "get (blocks ?d) (bc_uuid p) = Some r" "b_page r = bc_page_uuid p" "b_parent r = None"
    by (simp add: upsert_block_def Let_def None)
  have h: "has (blocks ?d) v \<longleftrightarrow> v = bc_uuid p \<or> has (blocks d) v" for v
    using g [of v] r(1) by (auto simp: has_def)
  have fr: "pages ?d = pages d" "identities ?d = identities d" "journal_pages ?d = journal_pages d"
    "page_links ?d = page_links d" "block_refs ?d = block_refs d" "attachments ?d = attachments d"
    by (simp_all add: upsert_block_def Let_def)
  have "block_edges ?d \<subseteq> block_edges d"
    using r by (subst block_edges_def, subst g) (auto simp: block_edges_def split: if_splits)
  then have "forest ?d" using s by (auto simp: sound_def intro: forest_subset)
  moreover have "blocks_ok ?d"
    using s page r unfolding sound_def blocks_ok_def h fr by (subst g) (auto split: if_splits)
  moreover have "attachments_ok ?d"
    using s unfolding sound_def attachments_ok_def owner_exists_def h fr
    by (auto split: attachment_owner.splits)
  ultimately show ?thesis
    using s fresh unfolding sound_def by (auto simp: identities_ok_def journals_ok_def titles_ok_def links_ok_def h fr)
qed

lemma sound_upsert_page:
  assumes s: "sound d" and ident: "has (identities d) (pc_uuid p)"
  shows "sound (upsert_page p t d)"
proof (cases "get (pages d) (pc_uuid p)")
  case (Some r)
  have "upsert_page p t d = d\<lparr>pages := pages (upsert_page p t d)\<rparr>" by (simp add: upsert_page_def Let_def)
  moreover have "sound (d\<lparr>pages := pages (upsert_page p t d)\<rparr>)"
    by (rule sound_pages_update [OF s]) (auto simp: upsert_page_def Let_def Some)
  ultimately show ?thesis by simp
next
  case None
  let ?d = "upsert_page p t d"
  have g: "get (pages ?d) v = (if v = pc_uuid p then get (pages ?d) (pc_uuid p) else get (pages d) v)" for v
    by (simp add: upsert_page_def Let_def None)
  obtain r where r: "get (pages ?d) (pc_uuid p) = Some r" "p_normalized r = None"
    by (simp add: upsert_page_def Let_def None)
  have h: "has (pages ?d) v \<longleftrightarrow> v = pc_uuid p \<or> has (pages d) v" for v
    using g [of v] r(1) by (auto simp: has_def)
  have fr: "blocks ?d = blocks d" "identities ?d = identities d" "journal_pages ?d = journal_pages d"
    "page_links ?d = page_links d" "block_refs ?d = block_refs d" "attachments ?d = attachments d"
    by (simp_all add: upsert_page_def Let_def)
  have "titles_ok ?d"
    using s r unfolding sound_def titles_ok_def by (metis g option.distinct(1) option.inject)
  moreover have "forest ?d" using s by (simp add: sound_def forest_def block_edges_def fr)
  moreover have "attachments_ok ?d"
    using s unfolding sound_def attachments_ok_def owner_exists_def h fr
    by (auto split: attachment_owner.splits)
  ultimately show ?thesis
    using s ident unfolding sound_def
    by (auto simp: identities_ok_def journals_ok_def blocks_ok_def links_ok_def h fr)
qed


subsection \<open>Titles\<close>

lemma first_of_filter:
  "(case filter P xs of [] \<Rightarrow> None | x # _ \<Rightarrow> Some x) = None \<longleftrightarrow> (\<forall>x \<in> set xs. \<not> P x)"
  "(case filter P xs of [] \<Rightarrow> None | x # _ \<Rightarrow> Some x) = Some y \<Longrightarrow> y \<in> set xs \<and> P y"
proof -
  show "(case filter P xs of [] \<Rightarrow> None | x # _ \<Rightarrow> Some x) = None \<longleftrightarrow> (\<forall>x \<in> set xs. \<not> P x)"
    by (simp add: filter_empty_conv [symmetric] split: list.split)
  assume "(case filter P xs of [] \<Rightarrow> None | x # _ \<Rightarrow> Some x) = Some y"
  then have "y \<in> set (filter P xs)" by (cases "filter P xs") simp_all
  then show "y \<in> set xs \<and> P y" by simp
qed

lemma title_holder_None:
  "title_holder d n u = None \<longleftrightarrow> (\<forall>v r. get (pages d) v = Some r \<longrightarrow> p_normalized r = Some n \<longrightarrow> v = u)"
  unfolding title_holder_def first_of_filter(1) by (auto simp: set_rows)

lemma title_holder_Some:
  "title_holder d n u = Some (v, r) \<Longrightarrow> get (pages d) v = Some r \<and> p_normalized r = Some n \<and> v \<noteq> u"
  unfolding title_holder_def by (drule first_of_filter(2)) (simp add: set_rows)

lemma sound_pages_titles:
  assumes "sound d" and h: "\<And>u. has t u \<longleftrightarrow> has (pages d) u"
    and one: "\<And>u v r s n. get t u = Some r \<Longrightarrow> get t v = Some s \<Longrightarrow>
      p_normalized r = Some n \<Longrightarrow> p_normalized s = Some n \<Longrightarrow> u = v"
  shows "sound (d\<lparr>pages := t\<rparr>)"
proof -
  have "titles_ok (d\<lparr>pages := t\<rparr>)" using one unfolding titles_ok_def by simp
  then show ?thesis
    using assms(1) unfolding sound_def
    by (simp add: identities_ok_def journals_ok_def blocks_ok_def links_ok_def attachments_ok_def owner_exists_def h
        forest_def block_edges_def cong: attachment_owner.case_cong)
qed

lemma normalized_simps [simp]:
  "p_normalized (set_title ext title t ts r) = map_option (normalize_title ext) title"
  "p_normalized (clear_title ts r) = None"
  by (simp_all add: set_title_def clear_title_def)

text \<open>The three outcomes of a title that won its clock.\<close>

lemma sound_title_free:
  assumes "sound d"
    and free: "\<And>v r n. title = Some n \<Longrightarrow> get (pages d) v = Some r \<Longrightarrow>
      p_normalized r = Some (normalize_title ext n) \<Longrightarrow> v = u"
  shows "sound (d\<lparr>pages := upd u (set_title ext title t ts) (pages d)\<rparr>)"
proof (rule sound_pages_titles [OF assms(1)])
  fix v w r s n
  assume "get (upd u (set_title ext title t ts) (pages d)) v = Some r"
    and "get (upd u (set_title ext title t ts) (pages d)) w = Some s"
    and "p_normalized r = Some n" "p_normalized s = Some n"
  moreover have "x = u" if "title = Some m" "normalize_title ext m = n" "get (pages d) x = Some y" "p_normalized y = Some n" for m x y
    using free that by blast
  ultimately show "v = w"
    using assms(1) unfolding sound_def titles_ok_def
    by (cases "v = u"; cases "w = u") auto
qed simp

lemma sound_title_lost:
  assumes "sound d"
  shows "sound (d\<lparr>pages := upd u (\<lambda>r. (clear_title ts r)\<lparr>p_title_hlc := Some t\<rparr>) (pages d)\<rparr>)"
proof (rule sound_pages_titles [OF assms])
  fix v w r s n
  assume "get (upd u (\<lambda>r. (clear_title ts r)\<lparr>p_title_hlc := Some t\<rparr>) (pages d)) v = Some r"
    and "get (upd u (\<lambda>r. (clear_title ts r)\<lparr>p_title_hlc := Some t\<rparr>) (pages d)) w = Some s"
    and "p_normalized r = Some n" "p_normalized s = Some n"
  then show "v = w"
    using assms unfolding sound_def titles_ok_def by (auto split: if_splits)
qed simp

lemma sound_clear_title: "sound d \<Longrightarrow> sound (d\<lparr>pages := upd u (clear_title ts) (pages d)\<rparr>)"
proof (rule sound_pages_titles, assumption)
  fix v w r s n
  assume "sound d" and "get (upd u (clear_title ts) (pages d)) v = Some r"
    and "get (upd u (clear_title ts) (pages d)) w = Some s"
    and "p_normalized r = Some n" "p_normalized s = Some n"
  then show "v = w" unfolding sound_def titles_ok_def by (auto split: if_splits)
qed simp

subsection \<open>References\<close>

lemma resolve_page_alias_live: "resolve_page_alias d alias = Some p \<Longrightarrow> has (pages d) p"
proof -
  assume "resolve_page_alias d alias = Some p"
  then obtain P where "take 2 (map fst (filter P (rows (pages d)))) = [p]"
    unfolding resolve_page_alias_def Let_def by (auto split: list.splits)
  then have "p \<in> set (take 2 (map fst (filter P (rows (pages d)))))" by simp
  then have "p \<in> set (map fst (filter P (rows (pages d))))" by (rule in_set_takeD)
  then have "p \<in> set (map fst (rows (pages d)))" by auto
  then show ?thesis by (simp add: set_keys [symmetric] keys_def)
qed

lemma sound_links:
  assumes "sound d"
    and "\<And>s n target at. get l (s, n) = Some (target, at) \<Longrightarrow> has (blocks d) s \<and> (\<forall>p. target = Some p \<longrightarrow> has (pages d) p)"
    and "\<And>s t at. get r (s, t) = Some at \<Longrightarrow> has (blocks d) s \<and> s \<noteq> t"
  shows "sound (d\<lparr>page_links := l, block_refs := r\<rparr>)"
proof -
  have "links_ok (d\<lparr>page_links := l, block_refs := r\<rparr>)" using assms(2,3) unfolding links_ok_def by auto
  then show ?thesis
    using assms(1) unfolding sound_def
    by (simp add: identities_ok_def journals_ok_def blocks_ok_def titles_ok_def attachments_ok_def owner_exists_def
        forest_def block_edges_def cong: attachment_owner.case_cong)
qed

lemma sound_linksD:
  assumes "sound d"
  shows "get (page_links d) (s, n) = Some (target, at) \<Longrightarrow> has (blocks d) s"
    and "get (page_links d) (s, n) = Some (Some p, at) \<Longrightarrow> has (pages d) p"
    and "get (block_refs d) (s, t) = Some at' \<Longrightarrow> has (blocks d) s \<and> s \<noteq> t"
  using assms unfolding sound_def links_ok_def by blast+

lemma sound_reconcile_links: "sound d \<Longrightarrow> sound (reconcile_page_links_for_alias alias d)"
proof -
  assume s: "sound d"
  have "sound (d\<lparr>page_links := page_links (reconcile_page_links_for_alias alias d), block_refs := block_refs d\<rparr>)"
    by (rule sound_links [OF s])
      (auto simp: reconcile_page_links_for_alias_def Let_def split: if_splits
        intro: resolve_page_alias_live dest: sound_linksD [OF s])
  then show ?thesis by (simp add: reconcile_page_links_for_alias_def Let_def)
qed

lemma get_put_new: "get (put_new k v t) j = (if j = k \<and> get t k = None then Some v else get t j)"
  by (auto simp: put_new_def has_def)

lemma get_fold_put_new:
  "get (fold (\<lambda>x. put_new (f x) (g x)) xs t) k = Some v \<Longrightarrow>
     get t k = Some v \<or> (\<exists>x \<in> set xs. k = f x \<and> v = g x)"
  by (induction xs arbitrary: t) (fastforce simp: get_put_new split: if_splits)+

lemma sound_replace_refs:
  assumes s: "sound d" and b: "has (blocks d) block"
  shows "sound (replace_block_refs ext block markdown now d)"
proof -
  obtain titles targets where pr: "parse_refs ext markdown = (titles, targets)" by force
  let ?d = "replace_block_refs ext block markdown now d"
  have l: "get (filt (\<lambda>(x, _) _. x \<noteq> block) (page_links d)) (x, n) = Some z \<Longrightarrow> get (page_links d) (x, n) = Some z" for x n z
    by (auto split: option.splits if_splits)
  have r: "get (filt (\<lambda>(x, _) _. x \<noteq> block) (block_refs d)) (x, y) = Some z \<Longrightarrow> get (block_refs d) (x, y) = Some z" for x y z
    by (auto split: option.splits if_splits)
  have "sound (d\<lparr>page_links := page_links ?d, block_refs := block_refs ?d\<rparr>)"
  proof (rule sound_links [OF s])
    fix x n target at assume "get (page_links ?d) (x, n) = Some (target, at)"
    then show "has (blocks d) x \<and> (\<forall>p. target = Some p \<longrightarrow> has (pages d) p)"
      using b unfolding replace_block_refs_def pr Let_def
      by (auto dest!: get_fold_put_new l intro: resolve_page_alias_live dest: sound_linksD [OF s])
  next
    fix x y at assume "get (block_refs ?d) (x, y) = Some at"
    then show "has (blocks d) x \<and> x \<noteq> y"
      using b unfolding replace_block_refs_def pr Let_def
      by (auto dest!: get_fold_put_new r dest: sound_linksD [OF s])
  qed
  then show ?thesis by (simp add: replace_block_refs_def pr Let_def)
qed

subsection \<open>Attachments, identities and journal rows\<close>

lemma sound_attachments:
  assumes "sound d" and "attachments_ok (d\<lparr>attachments := t\<rparr>)"
  shows "sound (d\<lparr>attachments := t\<rparr>)"
  using assms unfolding sound_def
  by (simp add: identities_ok_def journals_ok_def blocks_ok_def titles_ok_def links_ok_def forest_def block_edges_def)

lemma sound_reconcile_attachment:
  assumes s: "sound d" and ok: "reconcile_attachment key d = Inr d'"
  shows "sound d'"
proof (cases "get (attachment_lww d) key")
  case None
  with assms show ?thesis by (simp add: reconcile_attachment_def)
next
  case (Some w)
  show ?thesis
  proof (cases "\<not> w_present w \<or> \<not> owner_exists d (fst key)")
    case True
    then have d': "d' = d\<lparr>attachments := del (w_uuid w) (attachments d)\<rparr>"
      using ok by (simp add: reconcile_attachment_def Some)
    show ?thesis unfolding d'
      by (rule sound_attachments [OF s])
        (use s in \<open>auto simp: sound_def attachments_ok_def owner_exists_def split: if_splits attachment_owner.splits\<close>)
  next
    case False
    show ?thesis
    proof (cases "\<exists>f m b. w_filename w = Some f \<and> w_mime w = Some m \<and> w_size w = Some b")
      case True
      then obtain f m b where fmb: "w_filename w = Some f" "w_mime w = Some m" "w_size w = Some b" by blast
      define row where "row = \<lparr>a_owner = fst key, a_hash = snd key, a_filename = f, a_mime = m,
        a_size = b, a_created = timestamp_seconds (w_hlc w)\<rparr>"
      have row: "a_owner row = fst key" by (simp add: row_def)
      have up: "upsert_attachment (w_uuid w) row d = Inr d'"
        using ok False fmb by (simp add: reconcile_attachment_def Some row_def)
      define new where "new = (case get (attachments d) (w_uuid w) of None \<Rightarrow> row
         | Some old \<Rightarrow> old\<lparr>a_owner := a_owner row, a_filename := a_filename row, a_mime := a_mime row, a_size := a_size row\<rparr>)"
      have d': "d' = d\<lparr>attachments := put (w_uuid w) new (attachments d)\<rparr>"
        and uniq: "\<And>v r. get (attachments d) v = Some r \<Longrightarrow> v \<noteq> w_uuid w \<Longrightarrow> a_owner r = a_owner new \<Longrightarrow> a_hash r \<noteq> a_hash new"
        using up by (auto simp: upsert_attachment_def Let_def new_def [symmetric] res set_rows)
      have "a_owner new = fst key" by (simp add: new_def row split: option.split)
      with False have own: "owner_exists d (a_owner new)" by simp
      have "attachments_ok (d\<lparr>attachments := put (w_uuid w) new (attachments d)\<rparr>)"
        unfolding attachments_ok_def
      proof (intro conjI allI impI)
        fix u a assume "get (attachments (d\<lparr>attachments := put (w_uuid w) new (attachments d)\<rparr>)) u = Some a"
        then show "owner_exists (d\<lparr>attachments := put (w_uuid w) new (attachments d)\<rparr>) (a_owner a)"
          using s own by (auto simp: sound_def attachments_ok_def owner_exists_def split: if_splits attachment_owner.splits)
      next
        fix u v a b
        assume "get (attachments (d\<lparr>attachments := put (w_uuid w) new (attachments d)\<rparr>)) u = Some a"
          and "get (attachments (d\<lparr>attachments := put (w_uuid w) new (attachments d)\<rparr>)) v = Some b"
          and "a_owner a = a_owner b" "a_hash a = a_hash b"
        then show "u = v"
          using s uniq [of u a] uniq [of v b]
          by (cases "u = w_uuid w"; cases "v = w_uuid w") (auto simp: sound_def attachments_ok_def)
      qed
      then show ?thesis unfolding d' by (rule sound_attachments [OF s])
    next
      case incomplete: False
      then have "d' = d" using ok False by (auto simp: reconcile_attachment_def Some split: option.splits)
      with s show ?thesis by simp
    qed
  qed
qed

lemma sound_reconcile_owner:
  "sound d \<Longrightarrow> reconcile_attachments_for_owner owner d = Inr d' \<Longrightarrow> sound d'"
  unfolding reconcile_attachments_for_owner_def
  by (erule fold_res_invariant) (auto intro: sound_reconcile_attachment)

lemma sound_ensure_identity:
  assumes s: "sound d" and ok: "ensure_page_identity ext page kind d = Inr d'" and free: "\<not> has (blocks d) page"
  shows "sound d' \<and> get (identities d') page = Some kind \<and>
         (\<forall>u k. get (identities d) u = Some k \<longrightarrow> get (identities d') u = Some k)"
proof (cases "get (identities d) page")
  case (Some k)
  with s ok show ?thesis by (auto simp: ensure_page_identity_def page_identity_def res)
next
  case None
  then have d': "d' = d\<lparr>identities := put page kind (identities d)\<rparr>"
    and uniq: "is_journal kind \<Longrightarrow> get (identities d) u \<noteq> Some kind" for u
    using ok by (auto simp: ensure_page_identity_def page_identity_def insert_page_identity_def res set_rows)
  have "identities_ok d'"
    using s free uniq unfolding d' sound_def identities_ok_def by (auto split: if_splits)
  moreover have "journals_ok d'"
    using s None unfolding d' sound_def journals_ok_def by auto
  ultimately have "sound d'"
    using s unfolding sound_def
    by (simp add: d' blocks_ok_def titles_ok_def links_ok_def attachments_ok_def owner_exists_def forest_def block_edges_def
        cong: attachment_owner.case_cong)
  then show ?thesis using None by (auto simp: d')
qed

lemma sound_materialize_kind:
  assumes s: "sound d" and ok: "materialize_page_kind page kind d = Inr d'"
    and live: "has (pages d) page" and ident: "get (identities d) page = Some kind"
  shows "sound d'"
proof -
  define t where "t = journal_pages d'"
  have d': "d' = d\<lparr>journal_pages := t\<rparr>"
    using ok by (cases kind) (auto simp: materialize_page_kind_def res t_def)
  have t: "get (journal_pages d) u = Some x \<or> (u = page \<and> kind = Journal x)" if "get t u = Some x" for u x
    using ok that by (cases kind) (auto simp: materialize_page_kind_def res t_def split: if_splits)
  have "journals_ok d'"
    using s live ident t unfolding d' sound_def journals_ok_def by fastforce
  then show ?thesis
    using s unfolding sound_def
    by (simp add: d' identities_ok_def blocks_ok_def titles_ok_def links_ok_def attachments_ok_def owner_exists_def
        forest_def block_edges_def cong: attachment_owner.case_cong)
qed


section \<open>Steps on the state of a batch\<close>

text \<open>
  A batch also promises that a deferred reference projection is for a block that still exists;
  otherwise \<open>finish_projections\<close> would insert rows whose source is gone.
\<close>

definition pending_live :: "state \<Rightarrow> bool" where
  "pending_live st \<longleftrightarrow> (\<forall>u. has (e_pending_refs (fst st)) u \<longrightarrow> has (blocks (snd st)) u)"

definition state_sound :: "state \<Rightarrow> bool" where
  "state_sound st \<longleftrightarrow> sound (snd st) \<and> pending_live st"

named_theorems keeps \<comment> \<open>steps that keep \<open>state_sound\<close>\<close>

lemma state_soundD: "state_sound st \<Longrightarrow> sound (snd st)"
  by (simp add: state_sound_def)

lemma state_sound_on_db:
  assumes "state_sound st" and "sound (f (snd st))"
    and "\<And>u. has (blocks (snd st)) u \<Longrightarrow> has (blocks (f (snd st))) u"
  shows "state_sound (on_db f st)"
  using assms by (simp add: state_sound_def pending_live_def on_db_def)

lemma state_sound_lift_db:
  assumes "state_sound st" and "lift_db f st = Inr st'" and "\<And>d. f (snd st) = Inr d \<Longrightarrow> sound d"
    and "\<And>d u. f (snd st) = Inr d \<Longrightarrow> has (blocks (snd st)) u \<Longrightarrow> has (blocks d) u"
  shows "state_sound st'"
  using assms by (auto simp: state_sound_def pending_live_def lift_db_def res)

lemma seed_with_simps [simp]:
  "snd (seed_with f st) = snd st"
  "e_pending_refs (fst (seed_with f st)) = e_pending_refs (fst st)"
  "e_deferred (fst (seed_with f st)) = e_deferred (fst st)"
  "e_dirty (fst (seed_with f st)) = e_dirty (fst st)"
  by (simp_all add: seed_with_def split: prod.split)

lemma touch_simps [simp]:
  "snd (touch_structure_block u q st) = snd st"
  "snd (touch_structure_page u st) = snd st"
  "snd (deleting_structure_block u st) = snd st"
  "snd (discard_block_refs u st) = snd st"
  by (simp_all add: touch_structure_block_def touch_structure_page_def deleting_structure_block_def
      discard_block_refs_def split: prod.split)

lemma keeps_touch [keeps]:
  "state_sound st \<Longrightarrow> state_sound (touch_structure_block u q st)"
  "state_sound st \<Longrightarrow> state_sound (touch_structure_page u st)"
  "state_sound st \<Longrightarrow> state_sound (deleting_structure_block u st)"
  by (simp_all add: state_sound_def pending_live_def touch_structure_block_def touch_structure_page_def
      deleting_structure_block_def)

lemma keeps_discard [keeps]: "state_sound st \<Longrightarrow> state_sound (discard_block_refs u st)"
  by (auto simp: state_sound_def pending_live_def discard_block_refs_def split: prod.splits)

lemma has_reconcile [simp]: "has (blocks (reconcile_structure mode seeds d)) u \<longleftrightarrow> has (blocks d) u"
  by (simp add: reconcile_place place_def)

lemma reconcile_frame [simp]:
  "identities (reconcile_structure mode seeds d) = identities d"
  "pages (reconcile_structure mode seeds d) = pages d"
  "tombstones (reconcile_structure mode seeds d) = tombstones d"
  "journal_pages (reconcile_structure mode seeds d) = journal_pages d"
  "workspace (reconcile_structure mode seeds d) = workspace d"
  by (simp_all add: reconcile_place place_def)

lemma keeps_project [keeps]: "state_sound st \<Longrightarrow> state_sound (project_structure st)"
  by (auto simp: state_sound_def pending_live_def project_structure_def split: prod.splits intro: sound_reconcile)

lemma keeps_structure [keeps]:
  "state_sound st \<Longrightarrow> state_sound (request_structure st)"
  "state_sound st \<Longrightarrow> state_sound (ensure_structure_current st)"
  unfolding request_structure_def ensure_structure_current_def
  by (auto intro: keeps_project) (simp add: state_sound_def pending_live_def)

lemma project_db [simp]:
  "identities (snd (project_structure st)) = identities (snd st)"
  "pages (snd (project_structure st)) = pages (snd st)"
  "tombstones (snd (project_structure st)) = tombstones (snd st)"
  "has (blocks (snd (project_structure st))) u \<longleftrightarrow> has (blocks (snd st)) u"
  by (simp_all add: project_structure_def split: prod.splits)

lemma structure_db [simp]:
  "identities (snd (request_structure st)) = identities (snd st)"
  "pages (snd (request_structure st)) = pages (snd st)"
  "tombstones (snd (request_structure st)) = tombstones (snd st)"
  "has (blocks (snd (request_structure st))) u \<longleftrightarrow> has (blocks (snd st)) u"
  "identities (snd (ensure_structure_current st)) = identities (snd st)"
  "pages (snd (ensure_structure_current st)) = pages (snd st)"
  "tombstones (snd (ensure_structure_current st)) = tombstones (snd st)"
  "has (blocks (snd (ensure_structure_current st))) u \<longleftrightarrow> has (blocks (snd st)) u"
  by (simp_all add: request_structure_def ensure_structure_current_def)

lemma links_frame [simp]:
  "blocks (reconcile_page_links_for_alias a d) = blocks d"
  "pages (reconcile_page_links_for_alias a d) = pages d"
  "identities (reconcile_page_links_for_alias a d) = identities d"
  "tombstones (reconcile_page_links_for_alias a d) = tombstones d"
  by (simp_all add: reconcile_page_links_for_alias_def Let_def)

lemma refs_frame [simp]:
  "blocks (replace_block_refs ext u m n d) = blocks d"
  "pages (replace_block_refs ext u m n d) = pages d"
  "identities (replace_block_refs ext u m n d) = identities d"
  "tombstones (replace_block_refs ext u m n d) = tombstones d"
  by (simp_all add: replace_block_refs_def Let_def split: prod.split)

lemma keeps_request_links [keeps]: "state_sound st \<Longrightarrow> state_sound (request_page_links a st)"
  by (auto simp: state_sound_def pending_live_def request_page_links_def split: prod.splits
      intro: sound_reconcile_links)

lemma request_links_db [simp]:
  "identities (snd (request_page_links a st)) = identities (snd st)"
  "pages (snd (request_page_links a st)) = pages (snd st)"
  "tombstones (snd (request_page_links a st)) = tombstones (snd st)"
  "blocks (snd (request_page_links a st)) = blocks (snd st)"
  by (simp_all add: request_page_links_def split: prod.split)

lemma keeps_fold_links [keeps]: "state_sound st \<Longrightarrow> state_sound (fold request_page_links as st)"
  by (induction as arbitrary: st) (simp_all add: keeps_request_links)

lemma fold_links_db [simp]:
  "identities (snd (fold request_page_links as st)) = identities (snd st)"
  "pages (snd (fold request_page_links as st)) = pages (snd st)"
  "tombstones (snd (fold request_page_links as st)) = tombstones (snd st)"
  "blocks (snd (fold request_page_links as st)) = blocks (snd st)"
  by (induction as arbitrary: st) simp_all

lemma keeps_request_refs:
  "state_sound st \<Longrightarrow> has (blocks (snd st)) u \<Longrightarrow> state_sound (request_block_refs ext u m n st)"
  by (auto simp: state_sound_def pending_live_def request_block_refs_def split: prod.splits
      intro: sound_replace_refs)

lemma request_refs_db [simp]:
  "identities (snd (request_block_refs ext u m n st)) = identities (snd st)"
  "pages (snd (request_block_refs ext u m n st)) = pages (snd st)"
  "tombstones (snd (request_block_refs ext u m n st)) = tombstones (snd st)"
  "blocks (snd (request_block_refs ext u m n st)) = blocks (snd st)"
  by (simp_all add: request_block_refs_def split: prod.split)

text \<open>\<open>finish_projections\<close> keeps the database sound and clears what was pending.\<close>

lemma sound_fold_links: "sound d \<Longrightarrow> sound (fold reconcile_page_links_for_alias as d)"
  by (induction as arbitrary: d) (simp_all add: sound_reconcile_links)

lemma fold_reconcile_blocks [simp]: "blocks (fold reconcile_page_links_for_alias as d) = blocks d"
  by (induction as arbitrary: d) simp_all

lemma sound_fold_refs:
  "sound d \<Longrightarrow> \<forall>(u, x) \<in> set ps. has (blocks d) u \<Longrightarrow>
     sound (fold (\<lambda>(u, (m, t)). replace_block_refs ext u m t) ps d)"
  by (induction ps arbitrary: d) (auto simp: sound_replace_refs)

lemma keeps_finish [keeps]: "state_sound st \<Longrightarrow> state_sound (finish_projections ext st)"
proof -
  assume s: "state_sound st"
  obtain e d where ed: "ensure_structure_current st = (e, d)" by force
  then have ok: "state_sound (e, d)" using keeps_structure(2) [OF s] by simp
  have live: "\<forall>(u, x) \<in> set (rows (e_pending_refs e)). has (blocks d) u"
  proof -
    have "has (e_pending_refs e) u" if "(u, x) \<in> set (rows (e_pending_refs e))" for u x
      using that by (simp add: set_rows has_SomeI)
    with ok show ?thesis by (auto simp: state_sound_def pending_live_def)
  qed
  have "sound (fold reconcile_page_links_for_alias (keys (e_pending_links e)) d)"
    using ok by (auto simp: state_sound_def intro: sound_fold_links)
  then have "sound (fold (\<lambda>(u, (m, t)). replace_block_refs ext u m t) (rows (e_pending_refs e))
      (fold reconcile_page_links_for_alias (keys (e_pending_links e)) d))"
    by (rule sound_fold_refs) (use live in simp)
  then show ?thesis by (simp add: finish_projections_def ed state_sound_def pending_live_def)
qed

subsection \<open>Columns\<close>

lemma keeps_title [keeps]: "state_sound st \<Longrightarrow> state_sound (apply_page_title ext u title t st)"
proof -
  assume s: "state_sound st"
  note d = state_soundD [OF s]
  have pages_step: "state_sound (on_db (\<lambda>d. d\<lparr>pages := f (pages d)\<rparr>) st)"
    if "sound ((snd st)\<lparr>pages := f (pages (snd st))\<rparr>)" for f
    by (rule state_sound_on_db [OF s]) (use that in simp_all)
  let ?ts = "timestamp_seconds t"
  show ?thesis
  proof (cases "map_option (normalize_title ext) title")
    case None
    have "sound ((snd st)\<lparr>pages := upd u (set_title ext title t ?ts) (pages (snd st))\<rparr>)"
      by (rule sound_title_free [OF d]) (use None in simp)
    from pages_step [of "upd u (set_title ext title t ?ts)", OF this] show ?thesis
      using s None by (auto simp: apply_page_title_def Let_def split: option.split intro: keeps_fold_links)
  next
    case (Some n)
    then obtain m where m: "title = Some m" "normalize_title ext m = n" by auto
    show ?thesis
    proof (cases "title_holder (snd st) n u")
      case None
      have "sound ((snd st)\<lparr>pages := upd u (set_title ext title t ?ts) (pages (snd st))\<rparr>)"
        by (rule sound_title_free [OF d]) (use None m in \<open>auto simp: title_holder_None\<close>)
      from pages_step [of "upd u (set_title ext title t ?ts)", OF this] show ?thesis
        using s Some None by (auto simp: apply_page_title_def Let_def m split: option.split intro: keeps_fold_links)
    next
      case (Some x)
      obtain v r where x: "x = (v, r)" by force
      have h: "get (pages (snd st)) v = Some r" "p_normalized r = Some n" "v \<noteq> u"
        using title_holder_Some [OF Some [unfolded x]] by auto
      have "sound ((snd st)\<lparr>pages := upd u (\<lambda>r. (clear_title ?ts r)\<lparr>p_title_hlc := Some t\<rparr>) (pages (snd st))\<rparr>)"
        by (rule sound_title_lost [OF d])
      note lost = pages_step [of "upd u (\<lambda>r. (clear_title ?ts r)\<lparr>p_title_hlc := Some t\<rparr>)", OF this]
      let ?d1 = "(snd st)\<lparr>pages := upd v (clear_title ?ts) (pages (snd st))\<rparr>"
      have d1: "sound ?d1" by (rule sound_clear_title [OF d])
      have "sound (?d1\<lparr>pages := upd u (set_title ext title t ?ts) (pages ?d1)\<rparr>)"
      proof (rule sound_title_free [OF d1])
        fix w q k assume "title = Some k" "get (pages ?d1) w = Some q" "p_normalized q = Some (normalize_title ext k)"
        then show "w = u"
          using m d h unfolding sound_def titles_ok_def by (auto split: if_splits)
      qed
      then have "sound ((snd st)\<lparr>pages := upd u (set_title ext title t ?ts) (upd v (clear_title ?ts) (pages (snd st)))\<rparr>)"
        by simp
      note won = pages_step [of "\<lambda>ps. upd u (set_title ext title t ?ts) (upd v (clear_title ?ts) ps)", OF this]
      show ?thesis
        using s lost won Some m
        by (auto simp: apply_page_title_def Let_def x split: option.split intro: keeps_fold_links)
    qed
  qed
qed

lemma apply_title_db [simp]:
  "identities (snd (apply_page_title ext u title t st)) = identities (snd st)"
  "tombstones (snd (apply_page_title ext u title t st)) = tombstones (snd st)"
  "blocks (snd (apply_page_title ext u title t st)) = blocks (snd st)"
  "has (pages (snd (apply_page_title ext u title t st))) v \<longleftrightarrow> has (pages (snd st)) v"
  by (simp_all add: apply_page_title_def Let_def on_db_def split: option.split prod.split)

lemma sound_layout: "sound d \<Longrightarrow> sound (apply_page_layout u layout t d)"
  by (auto simp: apply_page_layout_def split: option.split intro!: sound_pages_update)

lemma apply_layout_db [simp]:
  "identities (apply_page_layout u l t d) = identities d"
  "tombstones (apply_page_layout u l t d) = tombstones d"
  "blocks (apply_page_layout u l t d) = blocks d"
  "has (pages (apply_page_layout u l t d)) v \<longleftrightarrow> has (pages d) v"
  by (auto simp: apply_page_layout_def split: option.split intro: has_SomeI)

lemma sound_style: "sound d \<Longrightarrow> sound (apply_block_style u style t d)"
  by (auto simp: apply_block_style_def split: option.split intro!: sound_blocks_update)

lemma apply_style_db [simp]:
  "identities (apply_block_style u x t d) = identities d"
  "tombstones (apply_block_style u x t d) = tombstones d"
  "pages (apply_block_style u x t d) = pages d"
  "has (blocks (apply_block_style u x t d)) v \<longleftrightarrow> has (blocks d) v"
  by (auto simp: apply_block_style_def split: option.split intro: has_SomeI)

lemma keeps_markdown [keeps]: "state_sound st \<Longrightarrow> state_sound (apply_block_markdown ext u m t st)"
proof -
  assume s: "state_sound st"
  obtain e d where st: "st = (e, d)" by force
  show ?thesis
  proof (cases "get (blocks d) u")
    case None
    with s show ?thesis by (simp add: apply_block_markdown_def st)
  next
    case (Some r)
    let ?r = "r\<lparr>b_markdown := m, b_stemmed := stem ext m, b_markdown_hlc := Some t,
                b_updated := max (b_updated r) (timestamp_seconds t)\<rparr>"
    have "sound (d\<lparr>blocks := put u ?r (blocks d)\<rparr>)"
      by (rule sound_blocks_update) (use s Some in \<open>auto simp: st state_sound_def\<close>)
    then have "state_sound (e', d\<lparr>blocks := put u ?r (blocks d)\<rparr>)" if "e_pending_refs e' = e_pending_refs e" for e'
      using s that by (auto simp: st state_sound_def pending_live_def)
    then show ?thesis
      using s by (auto simp: apply_block_markdown_def st Some Let_def intro!: keeps_request_refs)
  qed
qed

lemma apply_markdown_db [simp]:
  "identities (snd (apply_block_markdown ext u m t st)) = identities (snd st)"
  "tombstones (snd (apply_block_markdown ext u m t st)) = tombstones (snd st)"
  "pages (snd (apply_block_markdown ext u m t st)) = pages (snd st)"
  "has (blocks (snd (apply_block_markdown ext u m t st))) v \<longleftrightarrow> has (blocks (snd st)) v"
  by (auto simp: apply_block_markdown_def Let_def split: option.split prod.split intro: has_SomeI)


section \<open>Handlers\<close>

lemma ensure_kind_Inr [res]:
  "ensure_object_kind d u k = Inr x \<longleftrightarrow> \<not> kind_conflicts d u k"
  by (simp add: ensure_object_kind_def guard_def)

lemma not_conflicts:
  "\<not> kind_conflicts d u PageObject \<Longrightarrow> \<not> has (blocks d) u"
  "\<not> kind_conflicts d u BlockObject \<Longrightarrow> \<not> has (identities d) u"
  by (simp_all add: kind_conflicts_def Let_def)

lemma sound_apply_version:
  assumes s: "sound d" and free: "\<not> has (blocks d) (page_uuid (ve_publication v))"
    and ok: "apply_version ext v d = Inr d'"
  shows "sound d' \<and> blocks d' = blocks d \<and> tombstones d' = tombstones d \<and>
         (\<forall>u. has (pages d') u \<longleftrightarrow> has (pages d) u)"
proof -
  let ?p = "ve_publication v"
  obtain d1 where d1: "ensure_page_identity ext (page_uuid ?p) Handwriting d = Inr d1"
    using ok by (auto simp: apply_version_def Let_def res)
  have s1: "sound d1" using sound_ensure_identity [OF s d1 free] by simp
  obtain i where i: "d1 = d\<lparr>identities := i\<rparr>" using ensure_identity_frame [OF d1] by blast
  show ?thesis
  proof (cases "get_version (ink d1) (version_uuid ?p)")
    case (Some w)
    then have "d' = d1" using ok d1 by (auto simp: apply_version_def Let_def res)
    then show ?thesis using s1 by (simp add: i)
  next
    case None
    define f where "f = (\<lambda>r :: page_row. r\<lparr>p_updated := max (p_updated r) (uint (wall_ms (ve_hlc v)) div 1000)\<rparr>)"
    have d': "d' = (d1\<lparr>pages := upd (page_uuid ?p) f (pages d1)\<rparr>)\<lparr>ink := ink d'\<rparr>"
      using ok d1 None by (auto simp: apply_version_def Let_def res f_def)
    have f: "p_normalized (f r) = p_normalized r" for r by (simp add: f_def)
    have "sound (d1\<lparr>pages := upd (page_uuid ?p) f (pages d1)\<rparr>)"
      by (rule sound_pages_update [OF s1]) (simp add: f option.map_comp comp_def)
    then show ?thesis by (subst (1 2 3 4) d') (simp add: i)
  qed
qed

lemma handler_ink:
  assumes "state_sound st" and "apply_ink_publish ext operation p st = Inr (us, st')"
  shows "state_sound st'"
proof -
  let ?v = "\<lparr>ve_publication = p, ve_device = op_device operation, ve_hlc = op_hlc operation\<rparr>"
  have free: "\<not> has (blocks (snd st)) (page_uuid (ve_publication ?v))"
    and up: "lift_db (apply_version ext ?v) st = Inr st'"
    using assms(2) by (auto simp: apply_ink_publish_def res dest: not_conflicts)
  note version = sound_apply_version [OF state_soundD [OF assms(1)] free]
  show ?thesis
    by (rule state_sound_lift_db [OF assms(1) up]) (use version in auto)
qed

subsection \<open>Pages\<close>

lemma write_tombstone_db [simp]:
  "blocks (write_tombstone u k root t d) = blocks d" "pages (write_tombstone u k root t d) = pages d"
  "identities (write_tombstone u k root t d) = identities d"
  "sound (write_tombstone u k root t d) = sound d"
  by (simp_all add: write_tombstone_def)

lemma keeps_drop_stale: "state_sound st \<Longrightarrow> state_sound (drop_stale_block page t b st)"
proof -
  assume "state_sound st"
  then have s: "state_sound (discard_block_refs b (deleting_structure_block b st))"
    by (intro keeps_discard keeps_touch)
  have gone: "\<not> has (e_pending_refs (fst (discard_block_refs b x))) b" for x
    by (simp add: discard_block_refs_def split: prod.split)
  have h: "has (blocks (delete_block b d)) u \<longleftrightarrow> u \<noteq> b \<and> has (blocks d) u" for u d
    by (simp add: has_def get_delete_block)
  show ?thesis
    using s gone [of "deleting_structure_block b st"]
    by (auto simp: drop_stale_block_def on_db_def state_sound_def pending_live_def h intro!: sound_delete_block)
qed

lemma drop_stale_db [simp]:
  "identities (snd (drop_stale_block page t b st)) = identities (snd st)"
  "pages (snd (drop_stale_block page t b st)) = pages (snd st)"
  by (simp_all add: drop_stale_block_def on_db_def)

lemma drop_stale_blocks_sub: "has (blocks (snd (drop_stale_block page t b st))) u \<Longrightarrow> has (blocks (snd st)) u"
  by (simp add: drop_stale_block_def on_db_def has_def get_delete_block split: if_splits)

lemma fold_drop_stale:
  "state_sound st \<Longrightarrow> state_sound (fold (drop_stale_block page t) bs st) \<and>
     identities (snd (fold (drop_stale_block page t) bs st)) = identities (snd st) \<and>
     pages (snd (fold (drop_stale_block page t) bs st)) = pages (snd st) \<and>
     (\<forall>u. has (blocks (snd (fold (drop_stale_block page t) bs st))) u \<longrightarrow> has (blocks (snd st)) u)"
proof (induction bs arbitrary: st)
  case (Cons b bs)
  from Cons.IH [OF keeps_drop_stale [OF Cons.prems, of page t b]] show ?case
    by (auto dest: drop_stale_blocks_sub)
qed simp

lemma upsert_page_db [simp]:
  "blocks (upsert_page p t d) = blocks d" "identities (upsert_page p t d) = identities d"
  "has (pages (upsert_page p t d)) u \<longleftrightarrow> u = pc_uuid p \<or> has (pages d) u"
  by (auto simp: upsert_page_def Let_def split: option.split intro: has_SomeI)

lemma tombstone_edit_db [simp]:
  "blocks (promote_tombstones u t d) = blocks d" "pages (promote_tombstones u t d) = pages d"
  "identities (promote_tombstones u t d) = identities d" "sound (promote_tombstones u t d) = sound d"
  "blocks (drop_older_tombstone u t d) = blocks d" "pages (drop_older_tombstone u t d) = pages d"
  "identities (drop_older_tombstone u t d) = identities d" "sound (drop_older_tombstone u t d) = sound d"
  by (simp_all add: promote_tombstones_def drop_older_tombstone_def)

lemma on_db_simps [simp]: "snd (on_db f st) = f (snd st)" "fst (on_db f st) = fst st"
  by (simp_all add: on_db_def)

lemma materialize_frame:
  "materialize_page_kind page kind d = Inr d' \<Longrightarrow> \<exists>t. d' = d\<lparr>journal_pages := t\<rparr>"
  by (cases kind) (auto simp: materialize_page_kind_def res)

lemma lift_db_Inr [res]: "lift_db f st = Inr st' \<longleftrightarrow> (\<exists>d. f (snd st) = Inr d \<and> st' = (fst st, d))"
  by (auto simp: lift_db_def res)

lemma keeps_lift_attachments:
  assumes "state_sound st" and "lift_db (reconcile_attachments_for_owner owner) st = Inr st'"
  shows "state_sound st'"
proof (rule state_sound_lift_db [OF assms])
  fix d assume d: "reconcile_attachments_for_owner owner (snd st) = Inr d"
  then show "sound d" by (rule sound_reconcile_owner [OF state_soundD [OF assms(1)]])
  show "has (blocks d) u" if "has (blocks (snd st)) u" for u
    using reconcile_owner_frame [OF d] that by auto
qed

lemma handler_page_generation:
  assumes s: "state_sound st" and ident: "get (identities (snd st)) (pc_uuid p) = Some (pc_kind p)"
    and ok: "create_page_generation ext t p st = Inr (us, st')"
  shows "state_sound st'"
proof -
  let ?u = "pc_uuid p"
  define replaces where "replaces = (case get (pages (snd st)) ?u of None \<Rightarrow> False | Some r \<Rightarrow> p_existence r < t)"
  define s1 where "s1 = touch_structure_page ?u (if replaces then ensure_structure_current st else st)"
  define stale where "stale = (if replaces then stale_blocks (snd s1) ?u t else [])"
  define s2 where "s2 = fold (drop_stale_block ?u t) stale s1"
  define s3 where "s3 = on_db (drop_older_tombstone ?u t) (on_db (upsert_page p t) (on_db (promote_tombstones ?u t) s2))"
  have "state_sound s1" using s by (simp add: s1_def keeps)
  then have s2: "state_sound s2" "identities (snd s2) = identities (snd st)"
    using fold_drop_stale [of s1 ?u t stale] by (auto simp: s2_def s1_def)
  have up: "sound (upsert_page p t (promote_tombstones ?u t (snd s2)))"
    by (rule sound_upsert_page) (use s2 ident in \<open>auto dest: state_soundD intro: has_SomeI\<close>)
  have s3: "state_sound s3"
    unfolding s3_def by (intro state_sound_on_db) (use s2 up state_soundD in auto)
  obtain s4 where s4: "lift_db (materialize_page_kind ?u (pc_kind p)) s3 = Inr s4"
    and rest: "attempt (lift_db (reconcile_attachments_for_owner (PageOwner ?u))
        (request_structure (on_db (apply_page_layout ?u (pc_layout p) t)
          (fold request_page_links (explicit_page_aliases (snd (apply_page_title ext ?u (pc_title p) t s4)) ?u)
            (apply_page_title ext ?u (pc_title p) t s4)))))
        (\<lambda>st. Inr (?u # stale, st)) = Inr (us, st')"
    using ok unfolding create_page_generation_def Let_def attempt_Inr
      replaces_def [symmetric] s1_def [symmetric] stale_def [symmetric] s2_def [symmetric] s3_def [symmetric]
    by auto
  have "state_sound s4"
  proof (rule state_sound_lift_db [OF s3 s4])
    fix d assume d: "materialize_page_kind ?u (pc_kind p) (snd s3) = Inr d"
    show "sound d"
      by (rule sound_materialize_kind [OF state_soundD [OF s3] d])
        (use s2 ident in \<open>auto simp: s3_def\<close>)
    show "has (blocks d) v" if "has (blocks (snd s3)) v" for v using materialize_frame [OF d] that by auto
  qed
  then have "state_sound (on_db (apply_page_layout ?u (pc_layout p) t)
      (fold request_page_links (explicit_page_aliases (snd (apply_page_title ext ?u (pc_title p) t s4)) ?u)
        (apply_page_title ext ?u (pc_title p) t s4)))"
    by (intro state_sound_on_db keeps_fold_links keeps_title sound_layout) (simp_all add: state_soundD keeps)
  then have "state_sound (request_structure (on_db (apply_page_layout ?u (pc_layout p) t)
      (fold request_page_links (explicit_page_aliases (snd (apply_page_title ext ?u (pc_title p) t s4)) ?u)
        (apply_page_title ext ?u (pc_title p) t s4))))"
    by (rule keeps)
  then show ?thesis using rest by (auto simp: attempt_Inr dest: keeps_lift_attachments)
qed

lemma handler_page_create:
  assumes s: "state_sound st" and ok: "apply_page_create ext operation p st = Inr (us, st')"
  shows "state_sound st'"
proof -
  let ?u = "pc_uuid p"
  obtain d1 where free: "\<not> has (blocks (snd st)) ?u"
    and d1: "ensure_page_identity ext ?u (pc_kind p) (snd st) = Inr d1"
    using ok by (auto simp: apply_page_create_def Let_def res dest: not_conflicts)
  have i: "sound d1" "get (identities d1) ?u = Some (pc_kind p)"
    using sound_ensure_identity [OF state_soundD [OF s] d1 free] by auto
  have s1: "state_sound (fst st, d1)"
    using s i(1) ensure_identity_frame [OF d1] by (auto simp: state_sound_def pending_live_def)
  have floor: "state_sound (on_db (\<lambda>d. d\<lparr>pages := upd ?u (lower_journal_floor (op_hlc operation) (pc_created_at p)) (pages d)\<rparr>) (fst st, d1))"
    by (rule state_sound_on_db [OF s1])
      (auto simp: lower_journal_floor_def Let_def option.map_comp comp_def intro!: sound_pages_update i(1))
  have gen: "create_page_generation ext (op_hlc operation) p (fst st, d1) = Inr (us, st') \<Longrightarrow> ?thesis"
    by (rule handler_page_generation [OF s1]) (use i(2) in auto)
  from ok show ?thesis
    using s1 floor gen d1
    by (auto simp: apply_page_create_def Let_def res split: if_splits option.splits)
qed

lemma write_alias_db [simp]:
  "blocks (write_alias p a t b d) = blocks d" "pages (write_alias p a t b d) = pages d"
  "identities (write_alias p a t b d) = identities d" "tombstones (write_alias p a t b d) = tombstones d"
  "sound (write_alias p a t b d) = sound d"
  by (simp_all add: write_alias_def)

lemma handler_alias:
  assumes s: "state_sound st" and ok: "apply_page_alias_set operation p st = Inr (us, st')"
  shows "state_sound st'"
proof -
  have "state_sound (on_db (write_alias (pa_uuid p) (pa_alias p) (op_hlc operation) (pa_present p)) st)"
    by (rule state_sound_on_db [OF s]) (use s state_soundD in auto)
  with ok show ?thesis by (auto simp: apply_page_alias_set_def Let_def res keeps split: if_splits)
qed

lemma handler_set_title:
  "state_sound st \<Longrightarrow> apply_page_set_title ext operation p st = Inr (us, st') \<Longrightarrow> state_sound st'"
  by (auto simp: apply_page_set_title_def res keeps split: if_splits)

lemma handler_set_layout:
  assumes s: "state_sound st" and ok: "apply_page_set_layout operation p st = Inr (us, st')"
  shows "state_sound st'"
proof -
  have "state_sound (on_db (apply_page_layout (pl_uuid p) (pl_layout p) (op_hlc operation)) st)"
    by (rule state_sound_on_db [OF s]) (use s state_soundD sound_layout in auto)
  with s ok show ?thesis by (auto simp: apply_page_set_layout_def res split: if_splits)
qed


lemma delete_page_block_db [simp]:
  "blocks (snd (delete_page_block page t b st)) = blocks (snd st)"
  "pages (snd (delete_page_block page t b st)) = pages (snd st)"
  "identities (snd (delete_page_block page t b st)) = identities (snd st)"
  by (simp_all add: delete_page_block_def)

lemma keeps_delete_page_block: "state_sound st \<Longrightarrow> state_sound (delete_page_block page t b st)"
proof -
  assume "state_sound st"
  then have s: "state_sound (deleting_structure_block b st)" by (rule keeps)
  show ?thesis
    unfolding delete_page_block_def by (rule state_sound_on_db [OF s]) (use state_soundD [OF s] in auto)
qed

lemma fold_delete_page_block:
  "state_sound st \<Longrightarrow> state_sound (fold (delete_page_block page t) bs st) \<and>
     blocks (snd (fold (delete_page_block page t) bs st)) = blocks (snd st) \<and>
     pages (snd (fold (delete_page_block page t) bs st)) = pages (snd st)"
  by (induction bs arbitrary: st) (simp_all add: keeps_delete_page_block)

lemma fold_discard:
  "snd (fold discard_block_refs bs st) = snd st \<and>
   (\<forall>u. has (e_pending_refs (fst (fold discard_block_refs bs st))) u \<longleftrightarrow>
        has (e_pending_refs (fst st)) u \<and> u \<notin> set bs)"
proof (induction bs arbitrary: st)
  case (Cons b bs)
  have "has (e_pending_refs (fst (discard_block_refs b st))) u \<longleftrightarrow> has (e_pending_refs (fst st)) u \<and> u \<noteq> b" for u
    by (auto simp: discard_block_refs_def split: prod.split)
  with Cons.IH [of "discard_block_refs b st"] show ?case by auto
qed simp

lemma set_page_blocks: "b \<in> set (page_blocks d u) \<longleftrightarrow> on_page d u b"
  by (force simp: page_blocks_def on_page_def set_rows image_iff split: option.splits)

lemma keeps_delete_page:
  assumes s: "state_sound st" and members: "\<And>b. on_page (snd st) u b \<Longrightarrow> b \<in> set bs"
  shows "state_sound (on_db (\<lambda>d. (\<lambda>d. d\<lparr>ink := purge_page u (ink d)\<rparr>) (delete_page u d)) (fold discard_block_refs bs st))"
proof -
  have "has (blocks (delete_page u (snd st))) b" if "has (e_pending_refs (fst (fold discard_block_refs bs st))) b" for b
    using that s members [of b] fold_discard [of bs st]
    by (auto simp: state_sound_def pending_live_def has_def [of "blocks (delete_page u (snd st))"] get_delete_page has_def [of "blocks (snd st)"])
  then show ?thesis
    using s fold_discard [of bs st] by (simp add: state_sound_def pending_live_def sound_delete_page)
qed

lemma handler_page_delete:
  assumes s: "state_sound st" and ok: "apply_page_delete operation p st = Inr (us, st')"
  shows "state_sound st'"
proof -
  let ?u = "pd_uuid p" and ?t = "op_hlc operation"
  let ?s1 = "touch_structure_page ?u (ensure_structure_current st)"
  let ?members = "page_blocks (snd ?s1) ?u"
  let ?s2 = "fold (delete_page_block ?u ?t) ?members (on_db (write_tombstone ?u PageObject (Some ?u) ?t) ?s1)"
  have s1: "state_sound ?s1" using s by (simp add: keeps)
  have "state_sound (on_db (write_tombstone ?u PageObject (Some ?u) ?t) ?s1)"
    by (rule state_sound_on_db [OF s1]) (use state_soundD [OF s1] in auto)
  from fold_delete_page_block [OF this]
  have s2: "state_sound ?s2" "blocks (snd ?s2) = blocks (snd ?s1)" by auto
  have "on_page (snd ?s2) ?u b \<Longrightarrow> b \<in> set ?members" for b
    unfolding set_page_blocks on_page_def s2(2) .
  from keeps_fold_links [OF keeps_delete_page [OF s2(1) this]]
  show ?thesis using ok s s2(1) by (auto simp: apply_page_delete_def Let_def res split: if_splits)
qed

subsection \<open>Blocks\<close>

lemma upsert_block_db [simp]:
  "pages (upsert_block ext p t d) = pages d" "identities (upsert_block ext p t d) = identities d"
  "tombstones (upsert_block ext p t d) = tombstones d"
  "has (blocks (upsert_block ext p t d)) u \<longleftrightarrow> u = bc_uuid p \<or> has (blocks d) u"
  by (auto simp: upsert_block_def Let_def split: option.split intro: has_SomeI)

lemma write_intent_db [simp]:
  "blocks (write_structure_intent u p q k t d) = blocks d" "pages (write_structure_intent u p q k t d) = pages d"
  "identities (write_structure_intent u p q k t d) = identities d"
  "tombstones (write_structure_intent u p q k t d) = tombstones d"
  "sound (write_structure_intent u p q k t d) = sound d"
  by (simp_all add: write_structure_intent_def)

lemma handler_create_block:
  assumes s: "state_sound st" and page: "has (pages (snd st)) (bc_page_uuid p)"
    and free: "\<not> has (identities (snd st)) (bc_uuid p)" and ok: "create_block ext t p st = Inr (us, st')"
  shows "state_sound st'"
proof -
  let ?u = "bc_uuid p"
  let ?s1 = "touch_structure_block ?u (bc_parent_uuid p) st"
  let ?s2 = "on_db (write_structure_intent ?u (bc_page_uuid p) (bc_parent_uuid p) (bc_order_key p) t)
               (on_db (drop_older_tombstone ?u t) (on_db (upsert_block ext p t) ?s1))"
  have s1: "state_sound ?s1" using s by (rule keeps)
  have up: "sound (upsert_block ext p t (snd st))"
    by (rule sound_upsert_block [OF state_soundD [OF s] page free])
  have "state_sound ?s2" by (intro state_sound_on_db [OF state_sound_on_db [OF state_sound_on_db [OF s1]]]) (use up in auto)
  then have s3: "state_sound (apply_block_markdown ext ?u (bc_markdown p) t ?s2)" by (rule keeps)
  have "state_sound (on_db (apply_block_style ?u (bc_style p) t) (apply_block_markdown ext ?u (bc_markdown p) t ?s2))"
    by (rule state_sound_on_db [OF s3]) (use state_soundD [OF s3] sound_style in auto)
  then have "state_sound (request_structure (on_db (apply_block_style ?u (bc_style p) t) (apply_block_markdown ext ?u (bc_markdown p) t ?s2)))"
    by (rule keeps)
  then show ?thesis
    using ok unfolding create_block_def Let_def attempt_Inr by (auto dest: keeps_lift_attachments)
qed

lemma handler_block_create:
  assumes s: "state_sound st" and ok: "apply_block_create ext operation p st = Inr (us, st')"
  shows "state_sound st'"
proof -
  have free: "\<not> has (identities (snd st)) (bc_uuid p)"
    using ok by (auto simp: apply_block_create_def Let_def res dest: not_conflicts)
  have tomb: "state_sound (on_db (write_tombstone (bc_uuid p) BlockObject (Some (bc_page_uuid p)) x) st)" for x
    by (rule state_sound_on_db [OF s]) (use state_soundD [OF s] in auto)
  have "state_sound st'" if "create_block_on ext (op_hlc operation) p st = Inr (us, st')"
  proof (cases "get (pages (snd st)) (bc_page_uuid p)")
    case None
    with that show ?thesis by (simp add: create_block_on_def)
  next
    case (Some r)
    show ?thesis
    proof (cases "op_hlc operation < p_existence r")
      case True
      with that Some tomb show ?thesis by (auto simp: create_block_on_def)
    next
      case False
      with that Some have "create_block ext (op_hlc operation) p st = Inr (us, st')"
        by (simp add: create_block_on_def)
      then show ?thesis by (rule handler_create_block [OF s has_SomeI [OF Some] free])
    qed
  qed
  with ok s tomb show ?thesis
    by (auto simp: apply_block_create_def Let_def res split: if_splits option.splits)
qed

lemma handler_set_markdown:
  "state_sound st \<Longrightarrow> apply_block_set_markdown ext operation p st = Inr (us, st') \<Longrightarrow> state_sound st'"
  by (auto simp: apply_block_set_markdown_def res keeps split: if_splits)

lemma handler_set_style:
  assumes s: "state_sound st" and ok: "apply_block_set_style operation p st = Inr (us, st')"
  shows "state_sound st'"
proof -
  have "state_sound (on_db (apply_block_style (bs_uuid p) (bs_style p) (op_hlc operation)) st)"
    by (rule state_sound_on_db [OF s]) (use state_soundD [OF s] sound_style in auto)
  with s ok show ?thesis by (auto simp: apply_block_set_style_def res split: if_splits)
qed

lemma keeps_move: "state_sound st \<Longrightarrow> state_sound (move_block t p st)"
proof -
  assume s: "state_sound st"
  define s1 where "s1 = touch_structure_block (bv_uuid p) (bv_parent_uuid p)
    (if e_dirty (fst st) \<and> \<not> has (pages (snd st)) (bv_page_uuid p) then ensure_structure_current st else st)"
  have s1: "state_sound s1" using s by (simp add: s1_def keeps)
  have "state_sound (on_db (write_structure_intent (bv_uuid p) (bv_page_uuid p) (bv_parent_uuid p) (bv_order_key p) t) s1)"
    by (rule state_sound_on_db [OF s1]) (use state_soundD [OF s1] in auto)
  then have s2: "state_sound (request_structure (on_db (write_structure_intent (bv_uuid p) (bv_page_uuid p) (bv_parent_uuid p) (bv_order_key p) t) s1))"
    by (rule keeps)
  have "state_sound (on_db (touch_block_updated (bv_uuid p) t) (request_structure (on_db (write_structure_intent (bv_uuid p) (bv_page_uuid p) (bv_parent_uuid p) (bv_order_key p) t) s1)))"
    by (rule state_sound_on_db [OF s2])
      (use state_soundD [OF s2] in \<open>auto simp: touch_block_updated_def option.map_comp comp_def intro!: sound_blocks_update\<close>)
  then show ?thesis by (simp add: move_block_def Let_def s1_def)
qed

lemma handler_block_move:
  "state_sound st \<Longrightarrow> apply_block_move operation p st = Inr (us, st') \<Longrightarrow> state_sound st'"
  by (auto simp: apply_block_move_def Let_def res keeps_move split: if_splits)

lemma keeps_remove_block:
  assumes "state_sound st" and "present = has (blocks (snd st)) u"
  shows "state_sound (remove_block u present st)"
proof -
  let ?s1 = "discard_block_refs u (deleting_structure_block u st)"
  have s1: "state_sound ?s1" using assms(1) by (intro keeps_discard keeps_touch)
  have gone: "\<not> has (e_pending_refs (fst ?s1)) u"
    by (simp add: discard_block_refs_def split: prod.split)
  have s2: "state_sound (on_db (\<lambda>d. d\<lparr>intents := del u (intents d)\<rparr>) ?s1)"
    by (rule state_sound_on_db [OF s1]) (use state_soundD [OF s1] in auto)
  have h: "has (blocks (delete_block u d)) v \<longleftrightarrow> v \<noteq> u \<and> has (blocks d) v" for v d
    by (simp add: has_def get_delete_block)
  have "state_sound (on_db (delete_block u) (on_db (\<lambda>d. d\<lparr>intents := del u (intents d)\<rparr>) ?s1))"
    using s2 gone by (auto simp: state_sound_def pending_live_def h intro!: sound_delete_block)
  with s2 show ?thesis by (simp add: remove_block_def Let_def keeps)
qed

lemma handler_block_delete:
  assumes s: "state_sound st" and ok: "apply_block_delete operation p st = Inr (us, st')"
  shows "state_sound st'"
proof -
  have s1: "state_sound (on_db (write_tombstone (bd_uuid p) BlockObject (Some (bd_page_uuid p)) (op_hlc operation)) st)"
    by (rule state_sound_on_db [OF s]) (use state_soundD [OF s] in auto)
  have "state_sound (remove_block (bd_uuid p) (get (blocks (snd st)) (bd_uuid p) \<noteq> None)
      (on_db (write_tombstone (bd_uuid p) BlockObject (Some (bd_page_uuid p)) (op_hlc operation)) st))"
    by (rule keeps_remove_block [OF s1]) (simp add: has_def)
  with s s1 ok show ?thesis
    by (auto simp: apply_block_delete_def Let_def res split: if_splits)
qed

lemma handler_attachment:
  assumes s: "state_sound st" and ok: "apply_attachment a st = Inr (us, st')"
  shows "state_sound st'"
proof -
  have s1: "state_sound (on_db (write_attachment_intent a) st)"
    by (rule state_sound_on_db [OF s]) (use state_soundD [OF s] in \<open>auto simp: write_attachment_intent_def\<close>)
  obtain x where x: "lift_db (reconcile_attachment (sa_owner a, sa_blob_hash a)) (on_db (write_attachment_intent a) st) = Inr x"
    "st' = x" using ok by (auto simp: apply_attachment_def attempt_Inr)
  show ?thesis unfolding x(2)
  proof (rule state_sound_lift_db [OF s1 x(1)])
    fix d assume d: "reconcile_attachment (sa_owner a, sa_blob_hash a) (snd (on_db (write_attachment_intent a) st)) = Inr d"
    show "sound d" by (rule sound_reconcile_attachment [OF state_soundD [OF s1] d])
    show "has (blocks d) u" if "has (blocks (snd (on_db (write_attachment_intent a) st))) u" for u
      using reconcile_attachment_frame [OF d] that by auto
  qed
qed

lemmas handlers = handler_ink handler_page_create handler_alias handler_set_title handler_set_layout
  handler_page_delete handler_block_create handler_set_markdown handler_set_style handler_block_move
  handler_block_delete handler_attachment

lemma apply_one_sound: "state_sound st \<Longrightarrow> apply_one ext operation st = Inr (us, st') \<Longrightarrow> state_sound st'"
  by (auto simp: apply_one_def res split: op_kind.splits dest: handlers)

lemma sound_empty: "sound (empty_db w)"
  by (simp add: sound_defs empty_db_def forest_def block_edges_def acyclic_def)

lemma state_sound_start:
  "sound d \<Longrightarrow> state_sound (effects_immediate\<lparr>e_mode := m\<rparr>, d)"
  "sound d \<Longrightarrow> state_sound (effects_deferred\<lparr>e_mode := m\<rparr>, d)"
  by (simp_all add: state_sound_def pending_live_def effects_immediate_def effects_deferred_def)

section \<open>Properties\<close>

text \<open>
  Every operation the replica accepts keeps the foreign keys, unique indexes and UUID guards of
  the tables of notes and the forest of blocks, and every deferred projection is for a block that still
  exists; this holds for all thirteen kinds, in both projection modes, immediate or deferred.
\<close>

theorem apply_one_keeps_integrity:
  assumes "state_sound st" and "apply_one ext operation st = Inr (us, st')"
  shows "state_sound st'"
  using assms by (rule apply_one_sound)

definition sample_create_page :: op where
  "sample_create_page =
     \<lparr>op_id = 20, op_workspace = 7, op_device = 3, op_hlc = Hlc 5 0 3, op_format = 7,
      op_kind = PageCreate \<lparr>pc_uuid = 9, pc_kind = Note, pc_title = None, pc_layout = Outline,
                            pc_created_at = 0\<rparr>\<rparr>"

lemma sample_create_applies:
  "\<exists>us st. apply_one ascii_externals sample_create_page (effects_deferred, empty_db 7) = Inr (us, st)"
proof -
  have "is_ok (apply_one ascii_externals sample_create_page (effects_deferred, empty_db 7))" by code_simp
  then show ?thesis unfolding is_ok_iff by (metis surj_pair)
qed

theorem apply_one_keeps_integrity_witness:
  "\<exists>us st. apply_one ascii_externals sample_create_page (effects_deferred, empty_db 7) = Inr (us, st) \<and> state_sound st"
proof -
  obtain us st where ok: "apply_one ascii_externals sample_create_page (effects_deferred, empty_db 7) = Inr (us, st)"
    using sample_create_applies by blast
  have "state_sound st"
    by (rule apply_one_keeps_integrity [OF _ ok])
      (simp add: state_sound_def pending_live_def sound_empty effects_deferred_def effects_immediate_def)
  with ok show ?thesis by blast
qed

end
