(* ===== verification/Replica.thy ===== *)
theory Replica
  imports Integrity
begin

text \<open>
  The batches of \<open>crates/notes-core/src/operation.rs\<close>: authoring local operations, applying
  operations that arrive with or without a server sequence, acknowledging them, and the outbox
  with its quarantine. A batch is one transaction: on an error the caller keeps the old
  database. What the clock, the identifier generator and the file system return is the environment.
\<close>

record env =
  now_ms :: "64 word"      \<comment> \<open>\<open>Utc::now().timestamp_millis().max(0) as u64\<close>\<close>
  now_secs :: int          \<comment> \<open>\<open>Utc::now().timestamp()\<close>\<close>
  new_device :: uuid       \<comment> \<open>the identifier drawn for the device row\<close>
  new_op :: "nat \<Rightarrow> uuid"  \<comment> \<open>the identifiers drawn for the operations of a batch\<close>
  file_written :: "64 word \<Rightarrow> bool"  \<comment> \<open>whether the server's snapshot file of a sequence can be written and renamed\<close>

datatype origin = Local | Remote

datatype projection_policy = Immediate | Deferred

record apply_outcome =
  oc_applied :: bool
  oc_affected :: "uuid list"
  oc_graph_changed :: bool

definition no_outcome :: apply_outcome where
  "no_outcome = \<lparr>oc_applied = False, oc_affected = [], oc_graph_changed = False\<rparr>"

section \<open>Replica metadata\<close>

definition meta_or_insert_device_id :: "env \<Rightarrow> db \<Rightarrow> uuid \<times> db" where
  "meta_or_insert_device_id env d =
     (case local_device d of
        Some u \<Rightarrow> (u, d)
      | None \<Rightarrow> (new_device env, d\<lparr>local_device := Some (new_device env)\<rparr>))"

definition observe_hlc :: "env \<Rightarrow> hlc \<Rightarrow> db \<Rightarrow> db" where
  "observe_hlc env incoming d =
     (case meta_or_insert_device_id env d of
        (device, d') \<Rightarrow> d'\<lparr>last_hlc := Some (receive (last_hlc d) incoming (now_ms env) device)\<rparr>)"

definition replica_role_of :: "db \<Rightarrow> replica_role" where
  "replica_role_of d = (case stored_role d of Some r \<Rightarrow> r | None \<Rightarrow> Client)"

definition sync_is_configured :: "db \<Rightarrow> bool" where
  "sync_is_configured d = (case server_url d of None \<Rightarrow> False | Some url \<Rightarrow> trim url \<noteq> [])"

definition publishes_authored_ops :: "db \<Rightarrow> bool" where
  "publishes_authored_ops d \<longleftrightarrow> replica_role_of d = Server \<or> sync_is_configured d"

definition set_replica_role :: "replica_role \<Rightarrow> db \<Rightarrow> bool \<times> db" where
  "set_replica_role role d =
     (if stored_role d = Some role then (False, d) else (True, d\<lparr>stored_role := Some role\<rparr>))"

definition configure_sync :: "string \<Rightarrow> db \<Rightarrow> bool \<times> db" where
  "configure_sync url d =
     (let url = trim url in
      if server_url d = Some url then (False, d)
      else (True, d\<lparr>bound_workspace := None, server_url := Some url\<rparr>))"

definition validate_server_sequence :: "64 word \<Rightarrow> core_error + unit" where
  "validate_server_sequence seq =
     guard (uint seq \<le> i64_max) (InvalidInput ''server sequence exceeds SQLite integer range'') (Inr ())"

definition bind_sync_workspace :: "string \<Rightarrow> uuid \<Rightarrow> 64 word \<Rightarrow> db \<Rightarrow> core_error + (bool \<times> db)" where
  "bind_sync_workspace url w seq d =
     attempt (validate_server_sequence seq) (\<lambda>_.
       guard (server_url d = Some (trim url))
         (Conflict ''sync server changed while workspace binding was established'')
         (guard (workspace d = w) (Conflict ''cannot bind workspace to remote workspace'')
            (Inr (bound_workspace d \<noteq> Some w \<or> last_server_seq d \<noteq> Some seq,
                  d\<lparr>bound_workspace := Some w, last_server_seq := Some seq\<rparr>))))"

definition read_sync_cursor :: "db \<Rightarrow> 64 word" where
  "read_sync_cursor d = (case last_server_seq d of None \<Rightarrow> 0 | Some seq \<Rightarrow> seq)"

definition structure_projection_version :: int where
  "structure_projection_version = 1"

definition require_initialized_structure_projection :: "db \<Rightarrow> core_error + unit" where
  "require_initialized_structure_projection d =
     guard (structure_version d = structure_projection_version)
       (InvalidInput ''structural projection version is not supported for component updates'') (Inr ())"

definition require_mode :: "projection_mode \<Rightarrow> db \<Rightarrow> core_error + unit" where
  "require_mode mode d =
     (if mode = Components then require_initialized_structure_projection d else Inr ())"

definition initialize_structure_projection :: "db \<Rightarrow> core_error + (bool \<times> db)" where
  "initialize_structure_projection d =
     guard (structure_version d \<le> structure_projection_version)
       (InvalidInput ''unsupported structural projection version'')
       (Inr (if structure_version d = structure_projection_version then (False, d)
             else (True, (reconcile_structure Full tempty d)\<lparr>structure_version := structure_projection_version\<rparr>)))"

section \<open>The outbox\<close>

definition push_outbox :: "op \<Rightarrow> int \<Rightarrow> db \<Rightarrow> core_error + db" where
  "push_outbox operation created d =
     guard (\<not> list_ex (\<lambda>r. o_op_id r = op_id operation) (outbox d)) Database
       (Inr (enqueue_ink operation
          (d\<lparr>outbox := outbox d @ [\<lparr>o_op_id = op_id operation,
             o_envelope = encode_persisted_envelope operation, o_created = created,
             o_quarantined = None, o_reason = None\<rparr>]\<rparr>)))"

definition decode_row :: "outbox_row \<Rightarrow> core_error + op" where
  "decode_row r =
     (case decode_persisted_envelope (o_envelope r) of Inl _ \<Rightarrow> Inl Database | Inr x \<Rightarrow> Inr x)"

fun map_res :: "('a \<Rightarrow> 'e + 'b) \<Rightarrow> 'a list \<Rightarrow> 'e + 'b list" where
  "map_res f [] = Inr []"
| "map_res f (x # xs) = attempt (f x) (\<lambda>y. attempt (map_res f xs) (\<lambda>ys. Inr (y # ys)))"

definition read_pending_outbox :: "nat \<Rightarrow> db \<Rightarrow> core_error + op list" where
  "read_pending_outbox limit d =
     map_res decode_row (take limit (filter (\<lambda>r. o_quarantined r = None) (outbox d)))"

definition quarantine_outbox_op :: "uuid \<Rightarrow> string \<Rightarrow> int \<Rightarrow> db \<Rightarrow> bool \<times> db" where
  "quarantine_outbox_op u reason now d =
     (list_ex (\<lambda>r. o_op_id r = u \<and> o_quarantined r = None) (outbox d),
      d\<lparr>outbox := map (\<lambda>r. if o_op_id r = u \<and> o_quarantined r = None
                           then r\<lparr>o_quarantined := Some now, o_reason := Some reason\<rparr> else r) (outbox d)\<rparr>)"

definition quarantined_outbox :: "nat \<Rightarrow> db \<Rightarrow> core_error + (op \<times> string) list" where
  "quarantined_outbox limit d =
     map_res (\<lambda>r. attempt (decode_row r) (\<lambda>x. Inr (x, case o_reason r of None \<Rightarrow> [] | Some s \<Rightarrow> s)))
       (take limit (filter (\<lambda>r. o_quarantined r \<noteq> None) (outbox d)))"

definition release_quarantined_outbox :: "db \<Rightarrow> nat \<times> db" where
  "release_quarantined_outbox d =
     (length (filter (\<lambda>r. o_quarantined r \<noteq> None) (outbox d)),
      d\<lparr>outbox := map (\<lambda>r. if o_quarantined r \<noteq> None
                           then r\<lparr>o_quarantined := None, o_reason := None\<rparr> else r) (outbox d)\<rparr>)"

section \<open>Authoring\<close>

text \<open>\<open>INSERT INTO applied_ops(op_id, NULL)\<close>.\<close>

definition insert_applied :: "uuid \<Rightarrow> db \<Rightarrow> core_error + db" where
  "insert_applied u d =
     guard (\<not> has (applied_ops d) u) Database (Inr (d\<lparr>applied_ops := put u None (applied_ops d)\<rparr>))"

fun author_ops :: "env \<Rightarrow> uuid \<Rightarrow> uuid \<Rightarrow> hlc option \<Rightarrow> nat \<Rightarrow> op_kind list \<Rightarrow> core_error + op list" where
  "author_ops env w device clock n [] = Inr []"
| "author_ops env w device clock n (k # ks) =
     (let t = send clock (now_ms env) device;
          operation = \<lparr>op_id = new_op env n, op_workspace = w, op_device = device, op_hlc = t,
                       op_format = format_version, op_kind = k\<rparr>
      in attempt (validate_op operation) (\<lambda>_.
         attempt (author_ops env w device (Some t) (Suc n) ks) (\<lambda>ops. Inr (operation # ops))))"

definition effects_for :: "projection_policy \<Rightarrow> projection_mode \<Rightarrow> effects" where
  "effects_for policy mode =
     (case policy of Deferred \<Rightarrow> effects_deferred | Immediate \<Rightarrow> effects_immediate)\<lparr>e_mode := mode\<rparr>"

definition apply_authored :: "externals \<Rightarrow> bool \<Rightarrow> op \<Rightarrow> state \<Rightarrow> core_error + state" where
  "apply_authored ext publishes operation st =
     attempt (apply_one ext operation st) (\<lambda>(_, st).
     attempt (lift_db (insert_applied (op_id operation)) st) (\<lambda>st.
     if publishes then lift_db (push_outbox operation (timestamp_seconds (op_hlc operation))) st else Inr st))"

definition apply_local_kinds ::
  "externals \<Rightarrow> env \<Rightarrow> op_kind list \<Rightarrow> projection_policy \<Rightarrow> projection_mode \<Rightarrow> db \<Rightarrow> core_error + (op list \<times> db)" where
  "apply_local_kinds ext env kinds policy mode d =
     attempt (fold_res (\<lambda>k _. validate_kind k) kinds ()) (\<lambda>_.
     attempt (require_mode mode d) (\<lambda>_.
     case meta_or_insert_device_id env d of (device, d) \<Rightarrow>
     attempt (author_ops env (workspace d) device (last_hlc d) 0 kinds) (\<lambda>ops.
     attempt (fold_res (apply_authored ext (publishes_authored_ops d)) ops (effects_for policy mode, d)) (\<lambda>st.
     let d = snd (finish_projections ext st)
     in Inr (ops, if ops = [] then d else d\<lparr>last_hlc := Some (op_hlc (last ops))\<rparr>)))))"

section \<open>Applying delivered operations\<close>

definition outcome_of :: "uuid list \<Rightarrow> state \<Rightarrow> state \<Rightarrow> apply_outcome" where
  "outcome_of affected before after =
     \<lparr>oc_applied = True, oc_affected = affected,
      oc_graph_changed = (length (keys (e_graph_changed (fst before))) < length (keys (e_graph_changed (fst after))))\<rparr>"

type_synonym batch = "apply_outcome list \<times> bool \<times> state"  \<comment> \<open>outcomes, \<open>durable_changed\<close>, state\<close>

definition apply_batch_op :: "externals \<Rightarrow> env \<Rightarrow> origin \<Rightarrow> bool \<Rightarrow> op \<Rightarrow> batch \<Rightarrow> core_error + batch" where
  "apply_batch_op ext env origin publishes operation b =
     (case b of (outcomes, durable, st) \<Rightarrow>
        if has (applied_ops (snd st)) (op_id operation) then Inr (outcomes @ [no_outcome], durable, st)
        else
          attempt (apply_one ext operation st) (\<lambda>(affected, st').
          attempt (lift_db (insert_applied (op_id operation)) st') (\<lambda>st'.
          attempt (if origin = Local \<and> publishes then lift_db (push_outbox operation (now_secs env)) st' else Inr st') (\<lambda>st'.
          Inr (outcomes @ [outcome_of affected st st'], True,
               if origin = Remote then on_db (observe_hlc env (op_hlc operation)) st' else st')))))"

definition apply_batch ::
  "externals \<Rightarrow> env \<Rightarrow> op list \<Rightarrow> origin \<Rightarrow> projection_mode \<Rightarrow> db \<Rightarrow> core_error + (apply_outcome list \<times> bool \<times> db)" where
  "apply_batch ext env ops origin mode d =
     attempt (fold_res (\<lambda>operation _. validate_op operation) ops ()) (\<lambda>_.
     attempt (require_mode mode d) (\<lambda>_.
     attempt (fold_res (apply_batch_op ext env origin (publishes_authored_ops d)) ops
                ([], False, effects_for Deferred mode, d)) (\<lambda>(outcomes, durable, st).
     Inr (outcomes, durable, snd (finish_projections ext st)))))"

text \<open>
  A sequenced batch: already seen sequences are skipped after checking that they name the same
  operation, the next one must follow the cursor without a gap, and an operation that was
  applied locally is only given its sequence.
\<close>

record sequenced =
  q_cursor :: "64 word"
  q_outcomes :: "apply_outcome list"
  q_durable :: bool
  q_released :: bool
  q_state :: state

definition operation_at_seq :: "db \<Rightarrow> 64 word \<Rightarrow> uuid option" where
  "operation_at_seq d seq =
     (case filter (\<lambda>(_, s). s = Some seq) (rows (applied_ops d)) of [] \<Rightarrow> None | (u, _) # _ \<Rightarrow> Some u)"

definition record_sequence :: "uuid \<Rightarrow> 64 word \<Rightarrow> db \<Rightarrow> core_error + db" where
  "record_sequence u seq d =
     guard (case operation_at_seq d seq of None \<Rightarrow> True | Some v \<Rightarrow> v = u) Database
       (Inr (d\<lparr>applied_ops := put u (Some seq) (applied_ops d)\<rparr>))"

definition apply_sequenced_op :: "externals \<Rightarrow> env \<Rightarrow> 64 word \<times> op \<Rightarrow> sequenced \<Rightarrow> core_error + sequenced" where
  "apply_sequenced_op ext env entry q =
     (let (seq, operation) = entry; cursor = q_cursor q; st = q_state q; d = snd st in
      if seq \<le> cursor then
        guard (case operation_at_seq d seq of None \<Rightarrow> True | Some u \<Rightarrow> u = op_id operation)
          (SyncConflict ''server sequence is assigned to multiple operations'')
          (Inr (q\<lparr>q_outcomes := q_outcomes q @ [no_outcome]\<rparr>))
      else
        guard (seq = saturating_add64 cursor 1) (SyncSequenceGap (saturating_add64 cursor 1) seq)
        (let existing = get (applied_ops d) (op_id operation) in
         guard (case existing of Some (Some s) \<Rightarrow> s = seq | _ \<Rightarrow> True)
           (SyncConflict ''operation has two server sequences'')
         (attempt (if existing \<noteq> None then Inr (no_outcome, st)
                   else attempt (apply_one ext operation st) (\<lambda>(affected, st').
                          Inr (outcome_of affected st st', on_db (observe_hlc env (op_hlc operation)) st'))) (\<lambda>(outcome, st).
          attempt (lift_db (record_sequence (op_id operation) seq) st) (\<lambda>st.
          case remove_operation (op_id operation) (snd st) of
            ((_, released), d) \<Rightarrow>
              Inr \<lparr>q_cursor = max cursor seq, q_outcomes = q_outcomes q @ [outcome], q_durable = True,
                   q_released = (q_released q \<or> released), q_state = (fst st, d)\<rparr>)))))"

definition collect_released :: "bool \<Rightarrow> db \<Rightarrow> db" where
  "collect_released released d = (if released then d\<lparr>ink := collect_ink (ink d)\<rparr> else d)"

definition apply_sequenced_batch ::
  "externals \<Rightarrow> env \<Rightarrow> (64 word \<times> op) list \<Rightarrow> projection_mode \<Rightarrow> db \<Rightarrow> core_error + (apply_outcome list \<times> bool \<times> db)" where
  "apply_sequenced_batch ext env entries mode d =
     attempt (fold_res (\<lambda>(seq, operation) _.
                attempt (validate_server_sequence seq) (\<lambda>_. validate_op operation)) entries ()) (\<lambda>_.
     attempt (require_mode mode d) (\<lambda>_.
     attempt (fold_res (apply_sequenced_op ext env) entries
                \<lparr>q_cursor = read_sync_cursor d, q_outcomes = [], q_durable = False, q_released = False,
                 q_state = (effects_for Deferred mode, d)\<rparr>) (\<lambda>q.
     let d' = collect_released (q_released q) (snd (finish_projections ext (q_state q)))
     in Inr (q_outcomes q, q_durable q \<or> last_server_seq d \<noteq> Some (q_cursor q),
             d'\<lparr>last_server_seq := Some (q_cursor q)\<rparr>))))"

text \<open>Acknowledgements: each gives its operation a sequence and takes it out of the outbox.\<close>

definition acknowledge_one :: "uuid \<times> 64 word \<Rightarrow> bool \<times> bool \<times> db \<Rightarrow> core_error + (bool \<times> bool \<times> db)" where
  "acknowledge_one ack acc =
     (case ack of (u, seq) \<Rightarrow> case acc of (durable, released_any, d) \<Rightarrow>
        let previous = get (applied_ops d) u;
            changed = (case previous of None \<Rightarrow> False | Some s \<Rightarrow> s \<noteq> Some seq)
        in attempt (if previous = None then Inr d else record_sequence u seq d) (\<lambda>d.
           case remove_operation u d of
             ((removed, released), d) \<Rightarrow> Inr (durable \<or> changed \<or> removed, released_any \<or> released, d)))"

definition acknowledge_server_ops :: "(uuid \<times> 64 word) list \<Rightarrow> db \<Rightarrow> core_error + (bool \<times> db)" where
  "acknowledge_server_ops acks d =
     attempt (fold_res (\<lambda>(_, seq) _. validate_server_sequence seq) acks ()) (\<lambda>_.
     attempt (fold_res acknowledge_one acks (False, False, d)) (\<lambda>(durable, released, d).
     Inr (durable, collect_released released d)))"

end
