(* ===== verification/ReplicaProps.thy ===== *)
theory ReplicaProps
  imports Replica
begin

text \<open>
  Properties of the batches: integrity, the clocks and the outbox entries of authored
  operations, contiguity and idempotence of sequenced delivery, and that an operation leaves the
  outbox only by acknowledgement.
\<close>

section \<open>Handlers leave the replica metadata alone\<close>

definition meta :: "db \<Rightarrow> outbox_row list \<times> (uuid, 64 word option) table \<times> hlc option \<times> 64 word option
    \<times> string option \<times> replica_role option \<times> uuid option \<times> uuid option \<times> int \<times> uuid" where
  "meta d = (outbox d, applied_ops d, last_hlc d, last_server_seq d, server_url d, stored_role d,
             bound_workspace d, local_device d, structure_version d, workspace d)"

named_theorems frames \<comment> \<open>steps that leave \<open>meta\<close> unchanged\<close>

lemma meta_fields [frames]:
  "meta (d\<lparr>identities := a\<rparr>) = meta d" "meta (d\<lparr>pages := b\<rparr>) = meta d" "meta (d\<lparr>journal_pages := c\<rparr>) = meta d"
  "meta (d\<lparr>aliases := e\<rparr>) = meta d" "meta (d\<lparr>blocks := f\<rparr>) = meta d" "meta (d\<lparr>tombstones := g\<rparr>) = meta d"
  "meta (d\<lparr>intents := h\<rparr>) = meta d" "meta (d\<lparr>attachment_lww := i\<rparr>) = meta d"
  "meta (d\<lparr>attachments := j\<rparr>) = meta d" "meta (d\<lparr>page_links := k\<rparr>) = meta d"
  "meta (d\<lparr>block_refs := l\<rparr>) = meta d" "meta (d\<lparr>ink := m\<rparr>) = meta d"
  by (simp_all add: meta_def)

lemma meta_deletes [frames]:
  "meta (delete_block u d) = meta d" "meta (delete_page u d) = meta d"
  by (simp_all add: delete_block_def delete_page_def Let_def meta_def)

lemma meta_writers [frames]:
  "meta (write_tombstone u k r t d) = meta d" "meta (write_structure_intent u p q o' t d) = meta d"
  "meta (write_alias p a t b d) = meta d" "meta (write_attachment_intent x d) = meta d"
  "meta (promote_tombstones p t d) = meta d" "meta (drop_older_tombstone p t d) = meta d"
  "meta (upsert_page pc t d) = meta d" "meta (upsert_block ext bc t d) = meta d"
  "meta (apply_page_layout u l t d) = meta d" "meta (apply_block_style u s t d) = meta d"
  "meta (touch_block_updated u t d) = meta d" "meta (reconcile_structure m seeds d) = meta d"
  "meta (replace_block_refs ext u md n d) = meta d" "meta (reconcile_page_links_for_alias al d) = meta d"
  by (simp_all add: frames write_tombstone_def write_structure_intent_def write_alias_def write_attachment_intent_def
      promote_tombstones_def drop_older_tombstone_def upsert_page_def upsert_block_def Let_def
      apply_page_layout_def apply_block_style_def touch_block_updated_def reconcile_place place_def
      replace_block_refs_def reconcile_page_links_for_alias_def split: option.split prod.split)

lemma meta_on_db [frames]: "meta (f (snd st)) = meta (snd st) \<Longrightarrow> meta (snd (on_db f st)) = meta (snd st)"
  by simp

lemma meta_steps [frames]:
  "meta (snd (project_structure st)) = meta (snd st)"
  "meta (snd (request_structure st)) = meta (snd st)"
  "meta (snd (ensure_structure_current st)) = meta (snd st)"
  "meta (snd (request_page_links a st)) = meta (snd st)"
  "meta (snd (request_block_refs ext u m n st)) = meta (snd st)"
  by (simp_all add: frames project_structure_def request_structure_def ensure_structure_current_def
      request_page_links_def request_block_refs_def split: prod.split)

lemma meta_fold_links [frames]: "meta (snd (fold request_page_links as st)) = meta (snd st)"
  by (induction as arbitrary: st) (simp_all add: frames)

lemma meta_columns [frames]:
  "meta (snd (apply_page_title ext u title t st)) = meta (snd st)"
  "meta (snd (apply_block_markdown ext u md t st)) = meta (snd st)"
  by (simp_all add: frames apply_page_title_def apply_block_markdown_def Let_def split: option.split prod.split)

lemma meta_fold_discard [frames]: "meta (snd (fold discard_block_refs bs st)) = meta (snd st)"
  using fold_discard [of bs st] by simp

lemma meta_drop_stale [frames]: "meta (snd (fold (drop_stale_block p t) bs st)) = meta (snd st)"
  by (induction bs arbitrary: st) (simp_all add: frames drop_stale_block_def)

lemma meta_delete_members [frames]: "meta (snd (fold (delete_page_block p t) bs st)) = meta (snd st)"
  by (induction bs arbitrary: st) (simp_all add: frames delete_page_block_def)

lemma meta_ensure_identity: "ensure_page_identity ext p k d = Inr d' \<Longrightarrow> meta d' = meta d"
  by (drule ensure_identity_frame) (auto simp: frames)

lemma meta_materialize: "materialize_page_kind p k d = Inr d' \<Longrightarrow> meta d' = meta d"
  by (drule materialize_frame) (auto simp: frames)

lemma meta_attachment: "reconcile_attachment k d = Inr d' \<Longrightarrow> meta d' = meta d"
  by (drule reconcile_attachment_frame) (auto simp: frames)

lemma meta_attachments_owner: "reconcile_attachments_for_owner w d = Inr d' \<Longrightarrow> meta d' = meta d"
  by (drule reconcile_owner_frame) (auto simp: frames)

lemma meta_apply_version: "apply_version ext v d = Inr d' \<Longrightarrow> meta d' = meta d"
  by (auto simp: apply_version_def Let_def res frames dest!: meta_ensure_identity split: option.splits)

lemma meta_handlers:
  "apply_ink_publish ext op1 p1 st = Inr (us, st') \<Longrightarrow> meta (snd st') = meta (snd st)"
  "create_page_generation ext t p2 st = Inr (us, st') \<Longrightarrow> meta (snd st') = meta (snd st)"
  "apply_page_alias_set op1 p3 st = Inr (us, st') \<Longrightarrow> meta (snd st') = meta (snd st)"
  "apply_page_set_title ext op1 p4 st = Inr (us, st') \<Longrightarrow> meta (snd st') = meta (snd st)"
  "apply_page_set_layout op1 p5 st = Inr (us, st') \<Longrightarrow> meta (snd st') = meta (snd st)"
  "apply_page_delete op1 p6 st = Inr (us, st') \<Longrightarrow> meta (snd st') = meta (snd st)"
  "create_block ext t p7 st = Inr (us, st') \<Longrightarrow> meta (snd st') = meta (snd st)"
  "apply_block_set_markdown ext op1 p8 st = Inr (us, st') \<Longrightarrow> meta (snd st') = meta (snd st)"
  "apply_block_set_style op1 p9 st = Inr (us, st') \<Longrightarrow> meta (snd st') = meta (snd st)"
  "apply_block_move op1 p10 st = Inr (us, st') \<Longrightarrow> meta (snd st') = meta (snd st)"
  "apply_block_delete op1 p11 st = Inr (us, st') \<Longrightarrow> meta (snd st') = meta (snd st)"
  "apply_attachment a st = Inr (us, st') \<Longrightarrow> meta (snd st') = meta (snd st)"
  by (auto simp: apply_ink_publish_def create_page_generation_def apply_page_alias_set_def
      apply_page_set_title_def apply_page_set_layout_def apply_page_delete_def create_block_def
      apply_block_set_markdown_def apply_block_set_style_def apply_block_move_def move_block_def
      apply_block_delete_def remove_block_def apply_attachment_def Let_def res frames split: if_splits
      dest!: meta_apply_version meta_materialize meta_attachments_owner meta_attachment)

lemma meta_page_create: "apply_page_create ext op1 p st = Inr (us, st') \<Longrightarrow> meta (snd st') = meta (snd st)"
  by (auto simp: apply_page_create_def Let_def res frames split: if_splits option.splits
      dest!: meta_ensure_identity meta_handlers(2))

lemma meta_block_create: "apply_block_create ext op1 p st = Inr (us, st') \<Longrightarrow> meta (snd st') = meta (snd st)"
  by (auto simp: apply_block_create_def create_block_on_def Let_def res frames split: if_splits option.splits
      dest!: meta_handlers(7))

lemma apply_one_meta: "apply_one ext operation st = Inr (us, st') \<Longrightarrow> meta (snd st') = meta (snd st)"
  by (auto simp: apply_one_def res split: op_kind.splits dest: meta_handlers meta_page_create meta_block_create)

lemma meta_finish [frames]: "meta (snd (finish_projections ext st)) = meta (snd st)"
proof -
  have links: "meta (fold reconcile_page_links_for_alias as d) = meta d" for as d
    by (induction as arbitrary: d) (simp_all add: frames)
  have refs: "meta (fold (\<lambda>(u, (m, t)). replace_block_refs ext u m t) ps d) = meta d" for ps d
    by (induction ps arbitrary: d) (auto simp: frames)
  obtain e d where ed: "ensure_structure_current st = (e, d)" by force
  moreover have "meta d = meta (snd st)" using meta_steps(3) [of st] by (simp add: ed)
  ultimately show ?thesis by (simp add: finish_projections_def links refs)
qed

end
