(* ===== verification/Ledger.thy ===== *)
theory Ledger
  imports ReplicaProps
begin

text \<open>
  What the replica remembers about operations: the outbox, the applied set with its server
  sequences, and the last clock. \<open>ledger_ok\<close> is the invariant of the three together;
  \<open>advance\<close> says what may happen to them over time. \<open>replica_step\<close> is one public operation of
  the replica, and \<open>reachable\<close> the databases that such steps lead to from a fresh one.
\<close>

section \<open>The invariant and the order of time\<close>

definition queued :: "db \<Rightarrow> uuid \<Rightarrow> bool" where
  "queued d u \<longleftrightarrow> u \<in> o_op_id ` set (outbox d)"

definition sequenced_op :: "db \<Rightarrow> uuid \<Rightarrow> bool" where
  "sequenced_op d u \<longleftrightarrow> (\<exists>s. get (applied_ops d) u = Some (Some s))"

definition seqs_unique :: "(uuid, 64 word option) table \<Rightarrow> bool" where
  "seqs_unique t \<longleftrightarrow> (\<forall>u v s. get t u = Some (Some s) \<longrightarrow> get t v = Some (Some s) \<longrightarrow> u = v)"

definition ledger_ok :: "db \<Rightarrow> bool" where
  "ledger_ok d \<longleftrightarrow>
     distinct (map o_op_id (outbox d)) \<and>
     (\<forall>r \<in> set (outbox d). get (applied_ops d) (o_op_id r) = Some None \<and>
        (\<exists>x. decode_row r = Inr x \<and> op_id x = o_op_id r)) \<and>
     seqs_unique (applied_ops d) \<and>
     (\<forall>h. last_hlc d = Some h \<longrightarrow> local_device d = Some (device_id h))"

definition advance :: "db \<Rightarrow> db \<Rightarrow> bool" where
  "advance d d' \<longleftrightarrow>
     (\<forall>u. has (applied_ops d) u \<longrightarrow> has (applied_ops d') u) \<and>
     (\<forall>u. sequenced_op d u \<longrightarrow> sequenced_op d' u) \<and>
     (\<forall>u. queued d u \<longrightarrow> queued d' u \<or> sequenced_op d' u) \<and>
     last_hlc d \<le> last_hlc d'"

definition evolves :: "db \<Rightarrow> db \<Rightarrow> bool" where
  "evolves d d' \<longleftrightarrow> (ledger_ok d \<longrightarrow> ledger_ok d' \<and> advance d d')"

lemma advance_refl: "advance d d"
  by (simp add: advance_def)

lemma advance_trans: "advance a b \<Longrightarrow> advance b c \<Longrightarrow> advance a c"
  unfolding advance_def by (blast intro: order_trans)

lemma evolves_refl: "evolves d d"
  by (simp add: evolves_def advance_refl)

lemma evolves_trans: "evolves a b \<Longrightarrow> evolves b c \<Longrightarrow> evolves a c"
  unfolding evolves_def by (blast intro: advance_trans)

lemma meta_eqs:
  "meta d = meta d' \<longleftrightarrow> outbox d = outbox d' \<and> applied_ops d = applied_ops d' \<and> last_hlc d = last_hlc d' \<and>
     last_server_seq d = last_server_seq d' \<and> server_url d = server_url d' \<and> stored_role d = stored_role d' \<and>
     bound_workspace d = bound_workspace d' \<and> local_device d = local_device d' \<and>
     structure_version d = structure_version d' \<and> workspace d = workspace d'"
  by (simp add: meta_def)

lemma evolves_meta: "meta d' = meta d \<Longrightarrow> evolves d d'"
  by (simp add: evolves_def ledger_ok_def advance_def sequenced_op_def queued_def meta_eqs)

lemma evolves_same:
  assumes "outbox d' = outbox d" "applied_ops d' = applied_ops d" "last_hlc d' = last_hlc d" "local_device d' = local_device d"
  shows "evolves d d'"
  using assms by (simp add: evolves_def ledger_ok_def advance_def sequenced_op_def queued_def)

section \<open>The primitive updates evolve\<close>

lemma seqs_unique_insert: "\<not> has t u \<Longrightarrow> seqs_unique t \<Longrightarrow> seqs_unique (put u None t)"
  by (auto simp: seqs_unique_def has_def split: if_splits)

lemma seqs_unique_record:
  "seqs_unique t \<Longrightarrow> \<forall>v. get t v = Some (Some s) \<longrightarrow> v = u \<Longrightarrow> seqs_unique (put u (Some s) t)"
  unfolding seqs_unique_def get_put by (metis option.inject)

lemma evolves_insert_applied: "insert_applied u d = Inr d' \<Longrightarrow> evolves d d'"
  by (auto simp: insert_applied_def res evolves_def ledger_ok_def advance_def sequenced_op_def queued_def
      intro: seqs_unique_insert) (auto simp: has_def split: if_splits)

lemma enqueue_ink_meta [simp]: "meta (enqueue_ink x d) = meta d"
  by (simp add: enqueue_ink_def Let_def frames split: op_kind.split)

lemma enqueue_ink_fields [simp]:
  "outbox (enqueue_ink x d) = outbox d" "applied_ops (enqueue_ink x d) = applied_ops d"
  "last_hlc (enqueue_ink x d) = last_hlc d" "local_device (enqueue_ink x d) = local_device d"
  "last_server_seq (enqueue_ink x d) = last_server_seq d" "structure_version (enqueue_ink x d) = structure_version d"
  "blocks (enqueue_ink x d) = blocks d" "sound (enqueue_ink x d) = sound d"
  using enqueue_ink_meta [of x d, unfolded meta_eqs]
  by (auto simp: enqueue_ink_def Let_def split: op_kind.split)

definition outbox_entry :: "op \<Rightarrow> int \<Rightarrow> outbox_row" where
  "outbox_entry x created =
     \<lparr>o_op_id = op_id x, o_envelope = encode_persisted_envelope x, o_created = created,
      o_quarantined = None, o_reason = None\<rparr>"

lemma outbox_entry_simps [simp]:
  "o_op_id (outbox_entry x t) = op_id x" "decode_row (outbox_entry x t) = Inr x"
  "o_quarantined (outbox_entry x t) = None"
  by (simp_all add: outbox_entry_def decode_row_def)

lemma push_outbox_Inr [res]:
  "push_outbox x t d = Inr d' \<longleftrightarrow>
     \<not> queued d (op_id x) \<and> d' = enqueue_ink x (d\<lparr>outbox := outbox d @ [outbox_entry x t]\<rparr>)"
  by (force simp: push_outbox_def res queued_def list_ex_iff outbox_entry_def)

lemma insert_applied_Inr [res]:
  "insert_applied u d = Inr d' \<longleftrightarrow> \<not> has (applied_ops d) u \<and> d' = d\<lparr>applied_ops := put u None (applied_ops d)\<rparr>"
  by (auto simp: insert_applied_def res)

lemma evolves_push:
  assumes "push_outbox x t d = Inr d'" and "get (applied_ops d) (op_id x) = Some None"
  shows "evolves d d'"
  using assms by (auto simp: res evolves_def ledger_ok_def advance_def sequenced_op_def queued_def)

lemma remove_operation_db [simp]:
  "snd (remove_operation u d) =
     d\<lparr>outbox := filter (\<lambda>r. o_op_id r \<noteq> u) (outbox d),
       ink := (ink d)\<lparr>ink_outbox_roots := del u (ink_outbox_roots (ink d))\<rparr>\<rparr>"
  by (simp add: remove_operation_def)

lemma operation_at_seq_None: "operation_at_seq d s = None \<longleftrightarrow> (\<forall>u. get (applied_ops d) u \<noteq> Some (Some s))"
proof -
  have "operation_at_seq d s = None \<longleftrightarrow> filter (\<lambda>(_, x). x = Some s) (rows (applied_ops d)) = []"
    by (simp add: operation_at_seq_def split: list.split)
  also have "\<dots> \<longleftrightarrow> (\<forall>u. (u, Some s) \<notin> set (rows (applied_ops d)))" by (auto simp: filter_empty_conv)
  finally show ?thesis by (simp add: set_rows)
qed

lemma operation_at_seq_Some: "operation_at_seq d s = Some u \<Longrightarrow> get (applied_ops d) u = Some (Some s)"
proof -
  assume "operation_at_seq d s = Some u"
  then have "(u, Some s) \<in> set (filter (\<lambda>(_, x). x = Some s) (rows (applied_ops d)))"
    by (auto simp: operation_at_seq_def split: list.splits)
       (metis (mono_tags, lifting) case_prod_unfold filter_eq_ConsD list.set_intros(1) set_append Un_iff snd_conv)
  then show ?thesis by (simp add: set_rows)
qed

text \<open>The sequence \<open>s\<close> belongs to nobody but \<open>u\<close>.\<close>

definition only_at :: "db \<Rightarrow> 64 word \<Rightarrow> uuid \<Rightarrow> bool" where
  "only_at d s u \<longleftrightarrow> (\<forall>v. get (applied_ops d) v = Some (Some s) \<longrightarrow> v = u)"

lemma only_at_check:
  assumes "ledger_ok d"
  shows "(case operation_at_seq d s of None \<Rightarrow> True | Some v \<Rightarrow> v = u) \<longleftrightarrow> only_at d s u"
proof (cases "operation_at_seq d s")
  case None
  then show ?thesis by (simp add: operation_at_seq_None [THEN iffD1] only_at_def)
next
  case (Some v)
  then have "get (applied_ops d) v = Some (Some s)" by (rule operation_at_seq_Some)
  with assms Some show ?thesis by (auto simp: only_at_def ledger_ok_def seqs_unique_def)
qed

lemma record_sequence_Inr:
  "ledger_ok d \<Longrightarrow> record_sequence u s d = Inr d' \<longleftrightarrow>
     only_at d s u \<and> d' = d\<lparr>applied_ops := put u (Some s) (applied_ops d)\<rparr>"
  by (auto simp: record_sequence_def res only_at_check)

lemma ledger_record_remove:
  assumes "ledger_ok d" and "only_at d s u"
  shows "ledger_ok (snd (remove_operation u (d\<lparr>applied_ops := put u (Some s) (applied_ops d)\<rparr>)))"
proof -
  have "seqs_unique (put u (Some s) (applied_ops d))"
    using assms by (simp add: ledger_ok_def only_at_def seqs_unique_record)
  moreover have "distinct (map o_op_id (filter (\<lambda>r. o_op_id r \<noteq> u) (outbox d)))"
    using assms by (simp add: ledger_ok_def distinct_map_filter)
  ultimately show ?thesis using assms(1) by (simp add: ledger_ok_def)
qed

lemma evolves_record_remove:
  assumes ok: "record_sequence u s d = Inr d1"
  shows "evolves d (snd (remove_operation u d1))"
  unfolding evolves_def
proof
  assume l: "ledger_ok d"
  from ok have d1: "d1 = d\<lparr>applied_ops := put u (Some s) (applied_ops d)\<rparr>" and o: "only_at d s u"
    unfolding record_sequence_Inr [OF l] by auto
  have "queued (snd (remove_operation u d1)) v" if "queued d v" "v \<noteq> u" for v
    using that by (auto simp: queued_def d1)
  then have "advance d (snd (remove_operation u d1))"
    by (simp add: d1 advance_def sequenced_op_def)
  with ledger_record_remove [OF l o] show "ledger_ok (snd (remove_operation u d1)) \<and> advance d (snd (remove_operation u d1))"
    by (simp add: d1)
qed

section \<open>Clocks\<close>

lemma saturating_add32_ge: "c \<le> saturating_add32 c 1"
  by (cases "c = - 1") (auto dest: saturating_add32_greater)

lemma send_ge: "device_id h = device \<Longrightarrow> h \<le> send (Some h) now device"
  using saturating_add32_ge [of "counter h"]
  by (cases h) (auto simp: send_def not_le le_less hlc_less_iff)

lemma receive_ge:
  assumes "device_id h = device"
  shows "h \<le> receive (Some h) remote now device"
proof -
  have w: "wall_ms h \<le> wall_ms (receive (Some h) remote now device)"
    by (simp add: receive_wall le_max_iff_disj)
  have "counter h \<le> counter (receive (Some h) remote now device)" if "wall_ms h = wall_ms (receive (Some h) remote now device)"
    using that saturating_add32_ge [of "counter h"] saturating_add32_ge [of "max (counter h) (counter remote)"]
    by (auto simp: receive_counter Let_def intro: order_trans)
  moreover have "device_id (receive (Some h) remote now device) = device" by (simp add: receive_def Let_def)
  ultimately show ?thesis
    using w assms by (cases h; cases "receive (Some h) remote now device") (auto simp: le_less hlc_less_iff)
qed

lemma send_device [simp]: "device_id (send p now device) = device"
  by (auto simp: send_def split: option.split)

lemma receive_device [simp]: "device_id (receive p r now device) = device"
  by (simp add: receive_def Let_def)

lemma device_row:
  "meta_or_insert_device_id env d = (device, d') \<Longrightarrow>
     local_device d' = Some device \<and> d' = d\<lparr>local_device := Some device\<rparr>"
  by (auto simp: meta_or_insert_device_id_def split: option.splits)

lemma evolves_device: "meta_or_insert_device_id env d = (device, d') \<Longrightarrow> evolves d d'"
  by (auto simp: meta_or_insert_device_id_def evolves_def ledger_ok_def advance_def sequenced_op_def queued_def
      split: option.splits)

lemma evolves_clock:
  assumes "local_device d = Some device" and "last_hlc d \<le> Some h" and "device_id h = device"
  shows "evolves d (d\<lparr>last_hlc := Some h\<rparr>)"
  using assms by (auto simp: evolves_def ledger_ok_def advance_def sequenced_op_def queued_def)

lemma evolves_observe: "evolves d (observe_hlc env h d)"
proof (cases "ledger_ok d")
  case True
  obtain device d1 where m: "meta_or_insert_device_id env d = (device, d1)" by force
  have e: "evolves d d1" using m by (rule evolves_device)
  with True have l1: "ledger_ok d1" by (simp add: evolves_def)
  have d1: "local_device d1 = Some device" "last_hlc d1 = last_hlc d" using device_row [OF m] by auto
  have "last_hlc d1 \<le> Some (receive (last_hlc d) h (now_ms env) device)"
    using l1 d1 receive_ge by (cases "last_hlc d") (auto simp: ledger_ok_def)
  then have "evolves d1 (d1\<lparr>last_hlc := Some (receive (last_hlc d) h (now_ms env) device)\<rparr>)"
    using d1 by (intro evolves_clock [of _ device]) auto
  with e show ?thesis by (auto simp: observe_hlc_def m intro: evolves_trans)
qed (simp add: evolves_def)

section \<open>Authoring\<close>

lemma apply_authored_step:
  assumes "apply_authored ext publishes x st = Inr st'"
  shows "\<not> has (applied_ops (snd st)) (op_id x)"
    "applied_ops (snd st') = put (op_id x) None (applied_ops (snd st))"
    "outbox (snd st') = outbox (snd st) @ (if publishes then [outbox_entry x (timestamp_seconds (op_hlc x))] else [])"
    "last_hlc (snd st') = last_hlc (snd st)" "local_device (snd st') = local_device (snd st)"
    "last_server_seq (snd st') = last_server_seq (snd st)"
  using assms by (auto simp: apply_authored_def res meta_eqs dest!: apply_one_meta split: if_splits)

lemma apply_authored_sound:
  assumes s: "state_sound st" and ok: "apply_authored ext publishes x st = Inr st'"
  shows "state_sound st'"
proof -
  obtain us st1 where a: "apply_one ext x st = Inr (us, st1)" using ok by (auto simp: apply_authored_def res)
  from s a have "state_sound st1" by (rule apply_one_sound)
  with ok a show ?thesis
    by (auto simp: apply_authored_def res state_sound_def pending_live_def split: if_splits)
qed

lemma evolves_authored:
  assumes "apply_authored ext publishes x st = Inr st'"
  shows "evolves (snd st) (snd st')"
proof -
  obtain us st1 where a: "apply_one ext x st = Inr (us, st1)"
    using assms by (auto simp: apply_authored_def res)
  obtain d2 where i: "insert_applied (op_id x) (snd st1) = Inr d2"
    and p: "if publishes then push_outbox x (timestamp_seconds (op_hlc x)) d2 = Inr (snd st') else snd st' = d2"
    using assms a by (auto simp: apply_authored_def res simp del: insert_applied_Inr push_outbox_Inr split: if_splits)
  have "evolves (snd st) (snd st1)" by (rule evolves_meta) (rule apply_one_meta [OF a])
  from evolves_trans [OF this evolves_insert_applied [OF i]] have "evolves (snd st) d2" .
  moreover have "evolves d2 (snd st')"
  proof (cases publishes)
    case True
    moreover have "get (applied_ops d2) (op_id x) = Some None" using i by (auto simp: res)
    ultimately show ?thesis using p by (intro evolves_push) auto
  qed (use p in \<open>simp add: evolves_refl\<close>)
  ultimately show ?thesis by (rule evolves_trans)
qed

lemma fold_evolves:
  assumes "fold_res f xs s = Inr s'" and "\<And>x s s'. f x s = Inr s' \<Longrightarrow> evolves (db_of s) (db_of s')"
  shows "evolves (db_of s) (db_of s')"
  using assms(1)
proof (induction xs arbitrary: s)
  case (Cons x xs)
  then obtain t where "f x s = Inr t" "fold_res f xs t = Inr s'" by (auto simp: res)
  then show ?case using assms(2) Cons.IH by (blast intro: evolves_trans)
qed (simp add: evolves_refl)

lemma fold_authored:
  assumes "fold_res (apply_authored ext publishes) xs st = Inr st'"
  shows "applied_ops (snd st') = fold (\<lambda>x. put (op_id x) None) xs (applied_ops (snd st)) \<and>
     outbox (snd st') = outbox (snd st) @
       (if publishes then map (\<lambda>x. outbox_entry x (timestamp_seconds (op_hlc x))) xs else []) \<and>
     last_hlc (snd st') = last_hlc (snd st) \<and> local_device (snd st') = local_device (snd st) \<and>
     last_server_seq (snd st') = last_server_seq (snd st)"
  using assms
proof (induction xs arbitrary: st)
  case (Cons x xs)
  then obtain t where t: "apply_authored ext publishes x st = Inr t" "fold_res (apply_authored ext publishes) xs t = Inr st'"
    by (auto simp: res)
  show ?case using Cons.IH [OF t(2)] apply_authored_step [OF t(1)] by (cases publishes) simp_all
qed simp

text \<open>The clock an operation of a batch carries follows the one before it.\<close>

definition clock_room :: "hlc option \<Rightarrow> nat \<Rightarrow> bool" where
  "clock_room clock n \<longleftrightarrow> (case clock of None \<Rightarrow> 0 | Some h \<Rightarrow> unat (counter h)) + n < 2 ^ 32"

lemma send_room: "clock_room clock (Suc n) \<Longrightarrow> clock_room (Some (send clock now device)) n"
  by (cases clock)
    (auto simp: clock_room_def send_def saturating_add32_def unat_word_ariths
      intro: le_less_trans [OF mod_less_eq_dividend])

lemma send_above: "clock_room clock (Suc n) \<Longrightarrow> clock < Some (send clock now device)"
proof (cases clock)
  case (Some h)
  assume "clock_room clock (Suc n)"
  then have "unat (counter h) < 2 ^ 32 - 1" using Some by (simp add: clock_room_def)
  then have "counter h \<noteq> - 1"
    by (auto simp: unsigned_minus_1_eq_mask mask_eq_exp_minus_1)
  then have "h < send (Some h) now device" by (intro send_greater) (simp add: can_tick_def)
  with Some show ?thesis by simp
qed simp

lemma author_clocks:
  assumes "author_ops env w device clock n kinds = Inr ops" and "clock_room clock (length kinds)"
  shows "sorted_wrt (<) (map op_hlc ops) \<and> (\<forall>x \<in> set ops. clock < Some (op_hlc x))"
  using assms
proof (induction kinds arbitrary: clock n ops)
  case (Cons k ks)
  let ?t = "send clock (now_ms env) device"
  obtain x rest where ops: "ops = x # rest" "op_hlc x = ?t"
    and rest: "author_ops env w device (Some ?t) (Suc n) ks = Inr rest"
    using Cons.prems(1) by (auto simp: Let_def res)
  have above: "clock < Some ?t" using Cons.prems(2) by (intro send_above [of _ "length ks"]) simp
  have "clock_room (Some ?t) (length ks)" using Cons.prems(2) by (intro send_room) simp
  from Cons.IH [OF rest this] have "sorted_wrt (<) (map op_hlc rest)" and later: "\<forall>y \<in> set rest. ?t < op_hlc y" by auto
  moreover have "\<forall>y \<in> set rest. clock < Some (op_hlc y)"
    using above later by (metis less_trans less_option_Some)
  ultimately show ?case using above ops by simp
qed simp

lemma author_ops_kinds:
  "author_ops env w device clock n kinds = Inr ops \<Longrightarrow>
     map op_kind ops = kinds \<and> map op_id ops = map (new_op env) [n..<n + length kinds] \<and>
     (\<forall>x \<in> set ops. op_workspace x = w \<and> op_device x = device \<and> device_id (op_hlc x) = device \<and> validate_op x = Inr ())"
proof (induction kinds arbitrary: clock n ops)
  case (Cons k ks)
  from Cons.prems obtain x rest where "ops = x # rest"
    "author_ops env w device (Some (send clock (now_ms env) device)) (Suc n) ks = Inr rest"
    "op_kind x = k" "op_id x = new_op env n" "op_workspace x = w" "op_device x = device"
    "device_id (op_hlc x) = device" "validate_op x = Inr ()"
    by (auto simp: Let_def res)
  with Cons.IH [of "Some (send clock (now_ms env) device)" "Suc n" rest] show ?case
    by (simp add: upt_conv_Cons del: upt_Suc)
qed simp

lemma author_last_ge:
  assumes "author_ops env w device clock n kinds = Inr ops" and "\<And>h. clock = Some h \<Longrightarrow> device_id h = device"
    and "ops \<noteq> []"
  shows "clock \<le> Some (op_hlc (last ops))"
  using assms
proof (induction kinds arbitrary: clock n ops)
  case (Cons k ks)
  let ?t = "send clock (now_ms env) device"
  obtain x rest where ops: "ops = x # rest" "op_hlc x = ?t"
    and rest: "author_ops env w device (Some ?t) (Suc n) ks = Inr rest"
    using Cons.prems(1) by (auto simp: Let_def res)
  have le: "clock \<le> Some ?t" using Cons.prems(2) send_ge by (cases clock) auto
  show ?case
  proof (cases "rest = []")
    case False
    from Cons.IH [OF rest _ False] have "Some ?t \<le> Some (op_hlc (last rest))" by simp
    with le False ops show ?thesis by (auto intro: order_trans)
  qed (use le ops in simp)
qed simp

end
