(* ===== verification/Batches.thy ===== *)
theory Batches
  imports Ledger
begin

text \<open>
  The batches as a whole: every public operation of the replica keeps the integrity of the
  database and lets the ledger evolve, so both hold of every reachable database; and what a
  batch of each kind does to the outbox, the applied set, the cursor and the clock.
\<close>

lemma fold_res_pairs_ok:
  "fold_res (\<lambda>(a, b) _. g a b) xs () = Inr () \<longleftrightarrow> (\<forall>(a, b) \<in> set xs. g a b = Inr ())"
  by (induction xs) (auto simp: res)

lemma require_mode_same: "structure_version d' = structure_version d \<Longrightarrow> require_mode mode d' = require_mode mode d"
  by (simp add: require_mode_def require_initialized_structure_projection_def)

section \<open>Local batches\<close>

lemma apply_local_obtain:
  assumes "apply_local_kinds ext env kinds policy mode d = Inr (ops, d')"
  obtains device d1 st where
    "meta_or_insert_device_id env d = (device, d1)"
    "author_ops env (workspace d1) device (last_hlc d1) 0 kinds = Inr ops"
    "fold_res (apply_authored ext (publishes_authored_ops d1)) ops (effects_for policy mode, d1) = Inr st"
    "d' = (if ops = [] then snd (finish_projections ext st)
           else (snd (finish_projections ext st))\<lparr>last_hlc := Some (op_hlc (last ops))\<rparr>)"
proof -
  obtain device d1 where m: "meta_or_insert_device_id env d = (device, d1)" by force
  from assms obtain st where
    "author_ops env (workspace d1) device (last_hlc d1) 0 kinds = Inr ops"
    "fold_res (apply_authored ext (publishes_authored_ops d1)) ops (effects_for policy mode, d1) = Inr st"
    "d' = (if ops = [] then snd (finish_projections ext st)
           else (snd (finish_projections ext st))\<lparr>last_hlc := Some (op_hlc (last ops))\<rparr>)"
    by (auto simp: apply_local_kinds_def m res Let_def)
  with m show thesis by (rule that)
qed

lemma finish_meta:
  "outbox (snd (finish_projections ext st)) = outbox (snd st)"
  "applied_ops (snd (finish_projections ext st)) = applied_ops (snd st)"
  "last_hlc (snd (finish_projections ext st)) = last_hlc (snd st)"
  "local_device (snd (finish_projections ext st)) = local_device (snd st)"
  "last_server_seq (snd (finish_projections ext st)) = last_server_seq (snd st)"
  "structure_version (snd (finish_projections ext st)) = structure_version (snd st)"
  using meta_finish [of ext st] by (simp_all add: meta_eqs)

lemma publishes_device: "publishes_authored_ops (d\<lparr>local_device := x\<rparr>) = publishes_authored_ops d"
  by (simp add: publishes_authored_ops_def replica_role_of_def sync_is_configured_def)

lemma evolves_local:
  assumes "apply_local_kinds ext env kinds policy mode d = Inr (ops, d')"
  shows "evolves d d'"
  unfolding evolves_def
proof
  assume l: "ledger_ok d"
  from assms obtain device d1 st where m: "meta_or_insert_device_id env d = (device, d1)"
    and a: "author_ops env (workspace d1) device (last_hlc d1) 0 kinds = Inr ops"
    and f: "fold_res (apply_authored ext (publishes_authored_ops d1)) ops (effects_for policy mode, d1) = Inr st"
    and d': "d' = (if ops = [] then snd (finish_projections ext st)
           else (snd (finish_projections ext st))\<lparr>last_hlc := Some (op_hlc (last ops))\<rparr>)"
    by (rule apply_local_obtain)
  let ?d2 = "snd (finish_projections ext st)"
  have l1: "ledger_ok d1" using l evolves_device [OF m] by (simp add: evolves_def)
  have dev: "local_device d1 = Some device" using device_row [OF m] by simp
  have "evolves d1 (snd st)"
    using fold_evolves [OF f, of snd] evolves_authored by fastforce
  then have e2: "evolves d ?d2"
    using evolves_device [OF m] evolves_meta [OF meta_finish] by (meson evolves_trans)
  have "evolves ?d2 d'"
  proof (cases "ops = []")
    case False
    have "last_hlc d1 \<le> Some (op_hlc (last ops))"
      using author_last_ge [OF a _ False] l1 dev by (auto simp: ledger_ok_def)
    moreover have "device_id (op_hlc (last ops)) = device"
      using author_ops_kinds [OF a] False by simp
    moreover have "local_device ?d2 = Some device" "last_hlc ?d2 = last_hlc d1"
      using fold_authored [OF f] dev by (auto simp: finish_meta)
    ultimately show ?thesis using False by (simp add: d' evolves_clock)
  qed (simp add: d' evolves_refl)
  with e2 show "ledger_ok d' \<and> advance d d'"
    using l evolves_trans evolves_def by blast
qed

lemma start_sound: "sound d \<Longrightarrow> state_sound (effects_for policy mode, d)"
  by (cases policy) (simp_all add: effects_for_def state_sound_start)

lemma state_sound_update:
  "state_sound st \<Longrightarrow> (sound (snd st) \<Longrightarrow> sound d) \<Longrightarrow> blocks d = blocks (snd st) \<Longrightarrow> state_sound (fst st, d)"
  by (simp add: state_sound_def pending_live_def)

lemma finish_sound: "state_sound st \<Longrightarrow> sound (snd (finish_projections ext st))"
  by (rule state_soundD) (rule keeps_finish)

lemma sound_local:
  assumes s: "sound d" and ok: "apply_local_kinds ext env kinds policy mode d = Inr (ops, d')"
  shows "sound d'"
proof -
  from ok obtain device d1 st where m: "meta_or_insert_device_id env d = (device, d1)"
    and f: "fold_res (apply_authored ext (publishes_authored_ops d1)) ops (effects_for policy mode, d1) = Inr st"
    and d': "d' = (if ops = [] then snd (finish_projections ext st)
           else (snd (finish_projections ext st))\<lparr>last_hlc := Some (op_hlc (last ops))\<rparr>)"
    by (rule apply_local_obtain)
  have "sound d1" using s device_row [OF m] by simp
  then have "state_sound (effects_for policy mode, d1)" by (rule start_sound)
  with f have "state_sound st"
    by (rule fold_res_invariant) (use apply_authored_sound in blast)
  then have "sound (snd (finish_projections ext st))" by (rule finish_sound)
  then show ?thesis by (simp add: d')
qed

section \<open>Delivered batches\<close>

lemma observe_hlc_frame [simp]:
  "sound (observe_hlc env h d) = sound d" "blocks (observe_hlc env h d) = blocks d"
  "outbox (observe_hlc env h d) = outbox d" "applied_ops (observe_hlc env h d) = applied_ops d"
  "last_server_seq (observe_hlc env h d) = last_server_seq d" "structure_version (observe_hlc env h d) = structure_version d"
  by (simp_all add: observe_hlc_def meta_or_insert_device_id_def split: option.split)

lemma batch_op_cases:
  assumes "apply_batch_op ext env origin publishes x b = Inr b'"
  obtains "has (applied_ops (snd (snd (snd b)))) (op_id x)" "b' = (fst b @ [no_outcome], snd b)"
  | us st1 outs st' where "\<not> has (applied_ops (snd (snd (snd b)))) (op_id x)" "b' = (outs, True, st')"
      "apply_one ext x (snd (snd b)) = Inr (us, st1)" "length outs = Suc (length (fst b))"
      "fst st' = fst st1" "evolves (snd st1) (snd st')" "sound (snd st1) \<Longrightarrow> sound (snd st')"
      "blocks (snd st') = blocks (snd st1)"
      "applied_ops (snd st') = put (op_id x) None (applied_ops (snd st1))"
      "last_server_seq (snd st') = last_server_seq (snd st1)"
      "structure_version (snd st') = structure_version (snd st1)"
proof (cases "has (applied_ops (snd (snd (snd b)))) (op_id x)")
  case True
  with assms show thesis by (intro that(1)) (auto simp: apply_batch_op_def split: prod.splits)
next
  case False
  obtain outs0 durable st where b: "b = (outs0, durable, st)" by (cases b) auto
  from assms False obtain us st1 d2 st3 where
    one: "apply_one ext x st = Inr (us, st1)" and ins: "insert_applied (op_id x) (snd st1) = Inr d2"
    and push: "(if origin = Local \<and> publishes then lift_db (push_outbox x (now_secs env)) (fst st1, d2) else Inr (fst st1, d2)) = Inr st3"
    and b': "b' = (outs0 @ [outcome_of us st st3], True, if origin = Remote then on_db (observe_hlc env (op_hlc x)) st3 else st3)"
    by (auto simp: b apply_batch_op_def res simp del: insert_applied_Inr push_outbox_Inr)
  have mid: "get (applied_ops d2) (op_id x) = Some None" using ins by (auto simp: res)
  have e: "evolves (snd st1) (snd st3)"
    using evolves_trans [OF evolves_insert_applied [OF ins] evolves_push [OF _ mid]] evolves_insert_applied [OF ins] push
    by (auto simp: lift_db_Inr simp del: push_outbox_Inr split: if_splits)
  have f: "fst st3 = fst st1" "sound (snd st1) \<Longrightarrow> sound (snd st3)" "blocks (snd st3) = blocks (snd st1)"
    "applied_ops (snd st3) = put (op_id x) None (applied_ops (snd st1))"
    "last_server_seq (snd st3) = last_server_seq (snd st1)" "structure_version (snd st3) = structure_version (snd st1)"
    using ins push by (auto simp: res split: if_splits)
  show thesis
    by (rule that(2) [of "fst b' " "snd (snd b')" us st1])
      (use False one e f evolves_trans [OF e evolves_observe] in \<open>auto simp: b b'\<close>)
qed

lemma batch_op_evolves: "apply_batch_op ext env origin publishes x b = Inr b' \<Longrightarrow> evolves (snd (snd (snd b))) (snd (snd (snd b')))"
  by (elim batch_op_cases) (auto intro: evolves_refl evolves_trans [OF evolves_meta] dest: apply_one_meta)

lemma batch_op_sound:
  assumes "state_sound (snd (snd b))" and "apply_batch_op ext env origin publishes x b = Inr b'"
  shows "state_sound (snd (snd b'))"
  using assms(2)
proof (cases rule: batch_op_cases)
  case (2 us st1 outs st')
  have "state_sound st1" using assms(1) 2(3) by (rule apply_one_sound)
  with 2 show ?thesis by (auto simp: state_sound_def pending_live_def)
qed (use assms(1) in simp)

lemma batch_op_applied:
  assumes "apply_batch_op ext env origin publishes x b = Inr b'"
  shows "has (applied_ops (snd (snd (snd b')))) u \<longleftrightarrow> u = op_id x \<or> has (applied_ops (snd (snd (snd b)))) u"
    "structure_version (snd (snd (snd b'))) = structure_version (snd (snd (snd b)))"
    "last_server_seq (snd (snd (snd b'))) = last_server_seq (snd (snd (snd b)))"
  using assms by (elim batch_op_cases; auto dest!: apply_one_meta simp: meta_eqs)+

lemma fold_batch_applied:
  "fold_res (apply_batch_op ext env origin publishes) xs b = Inr b' \<Longrightarrow>
     (has (applied_ops (snd (snd (snd b')))) u \<longleftrightarrow> u \<in> op_id ` set xs \<or> has (applied_ops (snd (snd (snd b)))) u) \<and>
     structure_version (snd (snd (snd b'))) = structure_version (snd (snd (snd b))) \<and>
     last_server_seq (snd (snd (snd b'))) = last_server_seq (snd (snd (snd b)))"
proof (induction xs arbitrary: b)
  case (Cons x xs)
  then obtain c where c: "apply_batch_op ext env origin publishes x b = Inr c"
    "fold_res (apply_batch_op ext env origin publishes) xs c = Inr b'" by (auto simp: res)
  show ?case using Cons.IH [OF c(2)] batch_op_applied [OF c(1)] by auto
qed simp

lemma apply_batch_obtain:
  assumes "apply_batch ext env ops origin mode d = Inr (outs, durable, d')"
  obtains st where "require_mode mode d = Inr ()"
    "fold_res (\<lambda>operation _. validate_op operation) ops () = Inr ()"
    "fold_res (apply_batch_op ext env origin (publishes_authored_ops d)) ops
       ([], False, effects_for Deferred mode, d) = Inr (outs, durable, st)"
    "d' = snd (finish_projections ext st)"
  using assms by (auto simp: apply_batch_def res)

lemma evolves_batch: "apply_batch ext env ops origin mode d = Inr (outs, durable, d') \<Longrightarrow> evolves d d'"
proof (elim apply_batch_obtain)
  fix st
  assume f: "fold_res (apply_batch_op ext env origin (publishes_authored_ops d)) ops
       ([], False, effects_for Deferred mode, d) = Inr (outs, durable, st)"
    and d': "d' = snd (finish_projections ext st)"
  have "evolves d (snd st)"
    using fold_evolves [OF f, of "\<lambda>b. snd (snd (snd b))"] batch_op_evolves by fastforce
  then show "evolves d d'"
    unfolding d' using evolves_meta [OF meta_finish] by (rule evolves_trans)
qed

lemma sound_batch: "sound d \<Longrightarrow> apply_batch ext env ops origin mode d = Inr (outs, durable, d') \<Longrightarrow> sound d'"
proof (elim apply_batch_obtain)
  fix st
  assume s: "sound d"
    and f: "fold_res (apply_batch_op ext env origin (publishes_authored_ops d)) ops
       ([], False, effects_for Deferred mode, d) = Inr (outs, durable, st)"
    and d': "d' = snd (finish_projections ext st)"
  have "state_sound (snd (snd (outs, durable, st)))"
    using f by (rule fold_res_invariant) (use start_sound [OF s] batch_op_sound in auto)
  then show "sound d'" by (simp add: d' finish_sound)
qed

lemma finish_idle: "snd (finish_projections ext (effects_for policy mode, d)) = d"
  by (cases policy)
    (simp_all add: finish_projections_def ensure_structure_current_def effects_for_def effects_immediate_def
      effects_deferred_def keys_def)

lemma batch_redelivered:
  assumes "\<forall>x \<in> set xs. has (applied_ops (snd st)) (op_id x)"
  shows "fold_res (apply_batch_op ext env origin publishes) xs (outs, durable, st) =
           Inr (outs @ replicate (length xs) no_outcome, durable, st)"
  using assms by (induction xs arbitrary: outs) (simp_all add: apply_batch_op_def)

section \<open>Sequenced batches\<close>

lemma sequenced_op_cases:
  assumes "apply_sequenced_op ext env (seq, x) q = Inr q'"
  obtains "seq \<le> q_cursor q"
      "case operation_at_seq (snd (q_state q)) seq of None \<Rightarrow> True | Some u \<Rightarrow> u = op_id x"
      "q' = q\<lparr>q_outcomes := q_outcomes q @ [no_outcome]\<rparr>"
  | st1 d2 where "q_cursor q < seq" "seq = saturating_add64 (q_cursor q) 1"
      "\<And>s. get (applied_ops (snd (q_state q))) (op_id x) = Some (Some s) \<Longrightarrow> s = seq"
      "evolves (snd (q_state q)) (snd st1)" "state_sound (q_state q) \<Longrightarrow> state_sound st1"
      "applied_ops (snd st1) = applied_ops (snd (q_state q))" "outbox (snd st1) = outbox (snd (q_state q))"
      "structure_version (snd st1) = structure_version (snd (q_state q))"
      "record_sequence (op_id x) seq (snd st1) = Inr d2"
      "q_state q' = (fst st1, snd (remove_operation (op_id x) d2))" "q_cursor q' = seq"
proof (cases "seq \<le> q_cursor q")
  case True
  with assms show thesis by (intro that(1)) (auto simp: apply_sequenced_op_def res)
next
  case False
  then have above: "q_cursor q < seq" by simp
  let ?st = "q_state q" and ?ex = "get (applied_ops (snd (q_state q))) (op_id x)"
  from assms False have next_seq: "seq = saturating_add64 (q_cursor q) 1"
    and same: "case ?ex of Some (Some s) \<Rightarrow> s = seq | _ \<Rightarrow> True"
    by (auto simp: apply_sequenced_op_def Let_def res)
  from assms False obtain outcome st1 d2 where
    step: "(if ?ex \<noteq> None then Inr (no_outcome, ?st)
            else attempt (apply_one ext x ?st) (\<lambda>(affected, st').
                   Inr (outcome_of affected ?st st', on_db (observe_hlc env (op_hlc x)) st'))) = Inr (outcome, st1)"
    and rec: "record_sequence (op_id x) seq (snd st1) = Inr d2"
    and q': "q_state q' = (fst st1, snd (remove_operation (op_id x) d2))" "q_cursor q' = max (q_cursor q) seq"
    by (auto simp: apply_sequenced_op_def Let_def res remove_operation_def)
  have "evolves (snd ?st) (snd st1) \<and> (state_sound ?st \<longrightarrow> state_sound st1) \<and>
      applied_ops (snd st1) = applied_ops (snd ?st) \<and> outbox (snd st1) = outbox (snd ?st) \<and>
      structure_version (snd st1) = structure_version (snd ?st)"
  proof (cases "?ex = None")
    case True
    with step obtain us st2 where one: "apply_one ext x ?st = Inr (us, st2)"
      and st1: "st1 = on_db (observe_hlc env (op_hlc x)) st2" by (auto simp: res)
    have m: "meta (snd st2) = meta (snd ?st)" by (rule apply_one_meta [OF one])
    have "evolves (snd ?st) (snd st1)"
      using evolves_trans [OF evolves_meta [OF m] evolves_observe] by (simp add: st1)
    moreover have "state_sound ?st \<longrightarrow> state_sound st1"
      using apply_one_sound [OF _ one] by (auto simp: st1 state_sound_def pending_live_def)
    ultimately show ?thesis using m by (simp add: st1 meta_eqs)
  qed (use step in \<open>auto simp: evolves_refl\<close>)
  then show thesis
    using above next_seq same rec q' by (intro that(2) [of st1 d2]) (auto simp: max_def)
qed

lemma sequenced_evolves:
  assumes "apply_sequenced_op ext env e q = Inr q'"
  shows "evolves (snd (q_state q)) (snd (q_state q'))"
proof -
  obtain seq x where e: "e = (seq, x)" by force
  from assms [unfolded e] show ?thesis
  proof (cases rule: sequenced_op_cases)
    case (2 st1 d2)
    show ?thesis using evolves_trans [OF 2(4) evolves_record_remove [OF 2(9)]] by (simp add: 2(10))
  qed (simp add: evolves_refl)
qed

lemma sequenced_sound:
  assumes s: "state_sound (q_state q)" and ok: "apply_sequenced_op ext env e q = Inr q'"
  shows "state_sound (q_state q')"
proof -
  obtain seq x where e: "e = (seq, x)" by force
  from ok [unfolded e] show ?thesis
  proof (cases rule: sequenced_op_cases)
    case (2 st1 d2)
    from 2(9) have "d2 = (snd st1)\<lparr>applied_ops := put (op_id x) (Some seq) (applied_ops (snd st1))\<rparr>"
      by (simp add: record_sequence_def res)
    with 2(5) [OF s] show ?thesis by (simp add: 2(10) state_sound_def pending_live_def)
  qed (use s in simp)
qed

lemma apply_sequenced_obtain:
  assumes "apply_sequenced_batch ext env entries mode d = Inr (outs, durable, d')"
  obtains q where "require_mode mode d = Inr ()"
    "fold_res (\<lambda>(seq, operation) _. attempt (validate_server_sequence seq) (\<lambda>_. validate_op operation)) entries () = Inr ()"
    "fold_res (apply_sequenced_op ext env) entries
       \<lparr>q_cursor = read_sync_cursor d, q_outcomes = [], q_durable = False, q_released = False,
        q_state = (effects_for Deferred mode, d)\<rparr> = Inr q"
    "d' = (collect_released (q_released q) (snd (finish_projections ext (q_state q))))\<lparr>last_server_seq := Some (q_cursor q)\<rparr>"
  using assms by (auto simp: apply_sequenced_batch_def res Let_def)

lemma collect_released_fields [simp]:
  "outbox (collect_released b d) = outbox d" "applied_ops (collect_released b d) = applied_ops d"
  "last_hlc (collect_released b d) = last_hlc d" "local_device (collect_released b d) = local_device d"
  "structure_version (collect_released b d) = structure_version d"
  "last_server_seq (collect_released b d) = last_server_seq d" "sound (collect_released b d) = sound d"
  by (simp_all add: collect_released_def)

lemma evolves_sequenced:
  "apply_sequenced_batch ext env entries mode d = Inr (outs, durable, d') \<Longrightarrow> evolves d d'"
proof (elim apply_sequenced_obtain)
  fix q
  assume f: "fold_res (apply_sequenced_op ext env) entries
       \<lparr>q_cursor = read_sync_cursor d, q_outcomes = [], q_durable = False, q_released = False,
        q_state = (effects_for Deferred mode, d)\<rparr> = Inr q"
    and d': "d' = (collect_released (q_released q) (snd (finish_projections ext (q_state q))))\<lparr>last_server_seq := Some (q_cursor q)\<rparr>"
  have "evolves d (snd (q_state q))"
    using fold_evolves [OF f, of "\<lambda>q. snd (q_state q)"] sequenced_evolves by fastforce
  from evolves_trans [OF this evolves_meta [OF meta_finish]]
  have "evolves d (snd (finish_projections ext (q_state q)))" .
  then show "evolves d d'"
    by (rule evolves_trans) (simp add: d' evolves_same)
qed

lemma sound_sequenced:
  assumes s: "sound d" and ok: "apply_sequenced_batch ext env entries mode d = Inr (outs, durable, d')"
  shows "sound d'"
  using ok
proof (rule apply_sequenced_obtain)
  fix q
  assume f: "fold_res (apply_sequenced_op ext env) entries
       \<lparr>q_cursor = read_sync_cursor d, q_outcomes = [], q_durable = False, q_released = False,
        q_state = (effects_for Deferred mode, d)\<rparr> = Inr q"
    and d': "d' = (collect_released (q_released q) (snd (finish_projections ext (q_state q))))\<lparr>last_server_seq := Some (q_cursor q)\<rparr>"
  have "state_sound (q_state q)"
    using f by (rule fold_res_invariant [where P = "\<lambda>q. state_sound (q_state q)"])
      (use start_sound [OF s] sequenced_sound in auto)
  then show "sound d'" by (simp add: d' finish_sound)
qed

text \<open>The cursor moves one sequence at a time, and each one it passes has an operation.\<close>

lemma cursor_step:
  assumes "seq = saturating_add64 c 1" and "c < seq"
  shows "s \<le> seq \<longleftrightarrow> s \<le> c \<or> s = seq"
proof -
  have "unat seq = unat c + 1"
  proof (cases "unat c + 1 < 2 ^ 64")
    case True
    with assms(1) show ?thesis by (simp add: saturating_add64_def unat_word_ariths)
  next
    case False
    moreover have "unat c < 2 ^ 64" using unat_less [of c] by simp
    ultimately have "unat c = 2 ^ 64 - 1" by simp
    moreover have "unat seq < 2 ^ 64" using unat_less [of seq] by simp
    ultimately show ?thesis using assms(2) by (simp add: word_less_nat_alt)
  qed
  then show ?thesis by (auto simp: word_le_nat_alt le_Suc_eq word_unat_eq_iff)
qed

definition recorded :: "(64 word \<times> op) list \<Rightarrow> 64 word \<Rightarrow> sequenced \<Rightarrow> bool" where
  "recorded entries c q \<longleftrightarrow> c \<le> q_cursor q \<and>
     (\<forall>s. c < s \<longrightarrow> s \<le> q_cursor q \<longrightarrow>
        (\<exists>x. (s, x) \<in> set entries \<and> get (applied_ops (snd (q_state q))) (op_id x) = Some (Some s)))"

lemma recorded_step:
  assumes r: "recorded entries c q" and ok: "apply_sequenced_op ext env e q = Inr q'" and mem: "e \<in> set entries"
  shows "recorded entries c q'"
proof -
  obtain seq x where e: "e = (seq, x)" by force
  from ok [unfolded e] show ?thesis
  proof (cases rule: sequenced_op_cases)
    case (2 st1 d2)
    from 2(6,9,10) have ops: "applied_ops (snd (q_state q')) = put (op_id x) (Some seq) (applied_ops (snd (q_state q)))"
      by (auto simp: record_sequence_def res)
    have "\<exists>y. (s, y) \<in> set entries \<and> get (applied_ops (snd (q_state q'))) (op_id y) = Some (Some s)"
      if "c < s" "s \<le> q_cursor q'" for s
    proof (cases "s = seq")
      case True
      with mem e ops show ?thesis by auto
    next
      case False
      with that(2) have "s \<le> q_cursor q" using cursor_step [OF 2(2) 2(1), of s] by (simp add: 2(11))
      with r that(1) obtain y where "(s, y) \<in> set entries" "get (applied_ops (snd (q_state q))) (op_id y) = Some (Some s)"
        by (auto simp: recorded_def)
      with 2(3) [of s] ops False show ?thesis by (cases "op_id y = op_id x") auto
    qed
    moreover have "c \<le> q_cursor q'" using r 2(1) by (auto simp: recorded_def 2(11))
    ultimately show ?thesis by (simp add: recorded_def)
  qed (use r in \<open>simp add: recorded_def\<close>)
qed

lemma sequenced_seen:
  assumes "fold_res (apply_sequenced_op ext env) es q = Inr q'" and "ledger_ok (snd (q_state q))"
  shows "q_cursor q \<le> q_cursor q' \<and>
     (\<forall>(s, x) \<in> set es. s \<le> q_cursor q' \<and> only_at (snd (q_state q')) s (op_id x)) \<and>
     (\<forall>s u. s \<le> q_cursor q \<longrightarrow> only_at (snd (q_state q)) s u \<longrightarrow> only_at (snd (q_state q')) s u) \<and>
     structure_version (snd (q_state q')) = structure_version (snd (q_state q))"
  using assms
proof (induction es arbitrary: q)
  case (Cons e es)
  obtain seq x where e: "e = (seq, x)" by force
  from Cons.prems obtain q1 where q1: "apply_sequenced_op ext env (seq, x) q = Inr q1"
    and rest: "fold_res (apply_sequenced_op ext env) es q1 = Inr q'" by (auto simp: e res)
  have l1: "ledger_ok (snd (q_state q1))"
    using sequenced_evolves [OF q1] Cons.prems(2) by (simp add: evolves_def)
  have "q_cursor q \<le> q_cursor q1 \<and> seq \<le> q_cursor q1 \<and> only_at (snd (q_state q1)) seq (op_id x) \<and>
     (\<forall>s u. s \<le> q_cursor q \<longrightarrow> only_at (snd (q_state q)) s u \<longrightarrow> only_at (snd (q_state q1)) s u) \<and>
     structure_version (snd (q_state q1)) = structure_version (snd (q_state q))"
    using q1
  proof (cases rule: sequenced_op_cases)
    case 1
    with only_at_check [OF Cons.prems(2)] show ?thesis by simp
  next
    case (2 st1 d2)
    have l: "ledger_ok (snd st1)" using 2(4) Cons.prems(2) by (simp add: evolves_def)
    from 2(9) have "only_at (snd st1) seq (op_id x)"
      and d2: "d2 = (snd st1)\<lparr>applied_ops := put (op_id x) (Some seq) (applied_ops (snd st1))\<rparr>"
      unfolding record_sequence_Inr [OF l] by auto
    with 2(1,6,8) show ?thesis
      by (auto simp: 2(10,11) d2 only_at_def split: if_splits)
  qed
  with Cons.IH [OF rest l1] show ?case by (auto simp: e)
qed simp

lemma sequenced_redelivered:
  assumes "\<forall>(s, x) \<in> set es. s \<le> q_cursor q \<and> only_at (snd (q_state q)) s (op_id x)" and "ledger_ok (snd (q_state q))"
  shows "fold_res (apply_sequenced_op ext env) es q =
           Inr (q\<lparr>q_outcomes := q_outcomes q @ replicate (length es) no_outcome\<rparr>)"
  using assms
proof (induction es arbitrary: q)
  case (Cons e es)
  obtain seq x where e: "e = (seq, x)" by force
  have "apply_sequenced_op ext env e q = Inr (q\<lparr>q_outcomes := q_outcomes q @ [no_outcome]\<rparr>)"
    using Cons.prems only_at_check [OF Cons.prems(2), where s = seq and u = "op_id x"]
    by (simp add: e apply_sequenced_op_def Let_def guard_def)
  with Cons.IH [of "q\<lparr>q_outcomes := q_outcomes q @ [no_outcome]\<rparr>"] Cons.prems show ?case by simp
qed simp

lemma ledger_ok_cong:
  "outbox d = outbox d' \<Longrightarrow> applied_ops d = applied_ops d' \<Longrightarrow> last_hlc d = last_hlc d' \<Longrightarrow>
     local_device d = local_device d' \<Longrightarrow> ledger_ok d = ledger_ok d'"
  by (simp add: ledger_ok_def)

lemma sequenced_batch_facts:
  assumes l: "ledger_ok d" and ok: "apply_sequenced_batch ext env entries mode d = Inr (outs, durable, d')"
  shows "(\<forall>(s, x) \<in> set entries. s \<le> read_sync_cursor d' \<and> only_at d' s (op_id x)) \<and>
     last_server_seq d' = Some (read_sync_cursor d') \<and> structure_version d' = structure_version d \<and> ledger_ok d' \<and>
     read_sync_cursor d \<le> read_sync_cursor d' \<and>
     (\<forall>s. read_sync_cursor d < s \<longrightarrow> s \<le> read_sync_cursor d' \<longrightarrow>
        (\<exists>x. (s, x) \<in> set entries \<and> get (applied_ops d') (op_id x) = Some (Some s)))"
proof -
  have l': "ledger_ok d'" using evolves_sequenced [OF ok] l by (simp add: evolves_def)
  let ?q0 = "\<lparr>q_cursor = read_sync_cursor d, q_outcomes = [], q_durable = False, q_released = False,
     q_state = (effects_for Deferred mode, d)\<rparr>"
  from ok obtain q where f: "fold_res (apply_sequenced_op ext env) entries ?q0 = Inr q"
    and d': "d' = (collect_released (q_released q) (snd (finish_projections ext (q_state q))))\<lparr>last_server_seq := Some (q_cursor q)\<rparr>"
    by (rule apply_sequenced_obtain)
  have a: "applied_ops d' = applied_ops (snd (q_state q))" "structure_version d' = structure_version (snd (q_state q))"
    "read_sync_cursor d' = q_cursor q" "last_server_seq d' = Some (q_cursor q)"
    by (simp_all add: d' finish_meta read_sync_cursor_def)
  have "recorded entries (read_sync_cursor d) ?q0" by (auto simp: recorded_def)
  with f have "recorded entries (read_sync_cursor d) q"
    by (rule fold_res_invariant) (use recorded_step in blast)
  with sequenced_seen [OF f] l l' show ?thesis
    by (auto simp: a recorded_def only_at_def)
qed

section \<open>Acknowledgements\<close>

lemma evolves_acknowledge_one:
  assumes "acknowledge_one ack acc = Inr acc'"
  shows "evolves (snd (snd acc)) (snd (snd acc'))"
  unfolding evolves_def
proof
  obtain u s where ack: "ack = (u, s)" by force
  obtain durable released dd where acc: "acc = (durable, released, dd)" by (cases acc) auto
  let ?d = "snd (snd acc)"
  assume l: "ledger_ok ?d"
  from assms obtain d1 where "(if get (applied_ops dd) u = None then Inr dd else record_sequence u s dd) = Inr d1"
    and d': "snd (snd acc') = snd (remove_operation u d1)"
    unfolding ack acc acknowledge_one_def Let_def prod.case attempt_Inr remove_operation_def
    by (metis (no_types, lifting) Inr_inject snd_conv)
  then have d1: "(if get (applied_ops ?d) u = None then Inr ?d else record_sequence u s ?d) = Inr d1"
    by (simp only: acc snd_conv)
  have "evolves ?d (snd (snd acc'))"
  proof (cases "get (applied_ops ?d) u = None")
    case True
    then have "\<forall>r \<in> set (outbox ?d). o_op_id r \<noteq> u" using l by (auto simp: ledger_ok_def)
    then have "filter (\<lambda>r. o_op_id r \<noteq> u) (outbox ?d) = outbox ?d" by (simp add: filter_id_conv)
    with True d1 show ?thesis by (auto simp: d' intro: evolves_same)
  next
    case False
    with d1 show ?thesis unfolding d' by (intro evolves_record_remove) auto
  qed
  with l show "ledger_ok (snd (snd acc')) \<and> advance ?d (snd (snd acc'))" by (simp add: evolves_def)
qed

lemma acknowledge_one_step:
  assumes "acknowledge_one (u, s) acc = Inr acc'"
  shows "outbox (snd (snd acc')) = filter (\<lambda>r. o_op_id r \<noteq> u) (outbox (snd (snd acc)))"
    "get (applied_ops (snd (snd acc'))) v =
       (if v = u \<and> has (applied_ops (snd (snd acc))) u then Some (Some s) else get (applied_ops (snd (snd acc))) v)"
    "sound (snd (snd acc')) = sound (snd (snd acc))" "last_server_seq (snd (snd acc')) = last_server_seq (snd (snd acc))"
  using assms
  by (auto simp: acknowledge_one_def Let_def res remove_operation_def record_sequence_def has_def split: prod.splits if_splits)

lemma fold_acknowledge:
  "fold_res acknowledge_one acks acc = Inr acc' \<Longrightarrow>
     outbox (snd (snd acc')) = filter (\<lambda>r. o_op_id r \<notin> fst ` set acks) (outbox (snd (snd acc))) \<and>
     (\<forall>u. has (applied_ops (snd (snd acc'))) u = has (applied_ops (snd (snd acc))) u) \<and>
     (\<forall>u s. distinct (map fst acks) \<longrightarrow> (u, s) \<in> set acks \<longrightarrow> has (applied_ops (snd (snd acc))) u \<longrightarrow>
        get (applied_ops (snd (snd acc'))) u = Some (Some s)) \<and>
     (\<forall>u. u \<notin> fst ` set acks \<longrightarrow> get (applied_ops (snd (snd acc'))) u = get (applied_ops (snd (snd acc))) u) \<and>
     sound (snd (snd acc')) = sound (snd (snd acc))"
proof (induction acks arbitrary: acc)
  case (Cons a acks)
  obtain u s where a: "a = (u, s)" by force
  from Cons.prems obtain acc1 where one: "acknowledge_one (u, s) acc = Inr acc1"
    and rest: "fold_res acknowledge_one acks acc1 = Inr acc'" by (auto simp: a res)
  note IH = Cons.IH [OF rest] and step = acknowledge_one_step [OF one]
  have h: "has (applied_ops (snd (snd acc1))) v = has (applied_ops (snd (snd acc))) v" for v
    using step(2) [of v] by (simp add: has_def)
  have "get (applied_ops (snd (snd acc'))) v = Some (Some t)"
    if "distinct (map fst (a # acks))" "(v, t) \<in> set (a # acks)" "has (applied_ops (snd (snd acc))) v" for v t
  proof (cases "(v, t) = (u, s)")
    case True
    with that have "v \<notin> fst ` set acks" by (simp add: a)
    with IH step(2) [of v] True that(3) show ?thesis by simp
  qed (use that IH h in \<open>auto simp: a\<close>)
  moreover have "outbox (snd (snd acc')) = filter (\<lambda>r. o_op_id r \<notin> fst ` set (a # acks)) (outbox (snd (snd acc)))"
    using IH step(1) by (auto simp: a intro: filter_cong)
  ultimately show ?case using IH h step(2,3) by (auto simp: a)
qed simp

lemma acknowledge_obtain:
  assumes "acknowledge_server_ops acks d = Inr (durable, d')"
  obtains acc where "fold_res acknowledge_one acks (False, False, d) = Inr acc"
    "d' = collect_released (fst (snd acc)) (snd (snd acc))"
  using assms by (auto simp: acknowledge_server_ops_def res)

lemma evolves_acknowledge: "acknowledge_server_ops acks d = Inr (durable, d') \<Longrightarrow> evolves d d'"
proof (elim acknowledge_obtain)
  fix acc
  assume f: "fold_res acknowledge_one acks (False, False, d) = Inr acc"
    and d': "d' = collect_released (fst (snd acc)) (snd (snd acc))"
  have "evolves d (snd (snd acc))"
    using fold_evolves [OF f, of "\<lambda>a. snd (snd a)"] evolves_acknowledge_one by fastforce
  then show "evolves d d'" by (rule evolves_trans) (simp add: d' evolves_same)
qed

lemma sound_acknowledge: "acknowledge_server_ops acks d = Inr (durable, d') \<Longrightarrow> sound d' = sound d"
  by (elim acknowledge_obtain) (auto dest: fold_acknowledge)

end
