(* ===== verification/Reachable.thy ===== *)
theory Reachable
  imports Batches
begin

text \<open>
  The replica as a transition system: \<open>replica_step\<close> is one committed public operation of
  \<open>operation.rs\<close>, whatever its arguments and whatever the environment returned. The properties
  of the batches are stated here, over single batches or over every reachable database.
\<close>

section \<open>Steps\<close>

inductive replica_step :: "externals \<Rightarrow> db \<Rightarrow> db \<Rightarrow> bool" for ext where
  author: "apply_local_kinds ext env kinds policy mode d = Inr (ops, d') \<Longrightarrow> replica_step ext d d'"
| deliver: "apply_batch ext env ops origin mode d = Inr (outs, durable, d') \<Longrightarrow> replica_step ext d d'"
| deliver_sequenced: "apply_sequenced_batch ext env entries mode d = Inr (outs, durable, d') \<Longrightarrow> replica_step ext d d'"
| acknowledge: "acknowledge_server_ops acks d = Inr (durable, d') \<Longrightarrow> replica_step ext d d'"
| quarantine: "quarantine_outbox_op u reason now d = (changed, d') \<Longrightarrow> replica_step ext d d'"
| release: "release_quarantined_outbox d = (n, d') \<Longrightarrow> replica_step ext d d'"
| configure: "configure_sync url d = (changed, d') \<Longrightarrow> replica_step ext d d'"
| set_role: "set_replica_role role d = (changed, d') \<Longrightarrow> replica_step ext d d'"
| bind: "bind_sync_workspace url w seq d = Inr (changed, d') \<Longrightarrow> replica_step ext d d'"
| initialize: "initialize_structure_projection d = Inr (changed, d') \<Longrightarrow> replica_step ext d d'"

inductive reachable :: "externals \<Rightarrow> uuid \<Rightarrow> db \<Rightarrow> bool" for ext w where
  fresh: "reachable ext w (empty_db w)"
| step: "reachable ext w d \<Longrightarrow> replica_step ext d d' \<Longrightarrow> reachable ext w d'"

lemma evolves_outbox_map:
  assumes "outbox d' = map f (outbox d)" "applied_ops d' = applied_ops d" "last_hlc d' = last_hlc d"
    "local_device d' = local_device d"
    and f: "\<And>r. o_op_id (f r) = o_op_id r" "\<And>r. decode_row (f r) = decode_row r"
  shows "evolves d d'"
proof -
  have "o_op_id \<circ> f = o_op_id" by (auto simp: f)
  moreover have "o_op_id ` set (map f (outbox d)) = o_op_id ` set (outbox d)" by (simp add: image_image f)
  ultimately show ?thesis
    using assms unfolding evolves_def ledger_ok_def advance_def sequenced_op_def queued_def by auto
qed

lemma evolves_quarantine: "evolves d (snd (quarantine_outbox_op u reason now d))"
  by (rule evolves_outbox_map [of _ "\<lambda>r. if o_op_id r = u \<and> o_quarantined r = None
         then r\<lparr>o_quarantined := Some now, o_reason := Some reason\<rparr> else r"])
    (simp_all add: quarantine_outbox_op_def decode_row_def)

lemma evolves_release: "evolves d (snd (release_quarantined_outbox d))"
  by (rule evolves_outbox_map [of _ "\<lambda>r. if o_quarantined r \<noteq> None
         then r\<lparr>o_quarantined := None, o_reason := None\<rparr> else r"])
    (simp_all add: release_quarantined_outbox_def decode_row_def)

lemma evolves_settings:
  "evolves d (snd (configure_sync url d))" "evolves d (snd (set_replica_role role d))"
  "bind_sync_workspace url w seq d = Inr (changed, d') \<Longrightarrow> evolves d d'"
  by (auto simp: configure_sync_def set_replica_role_def bind_sync_workspace_def Let_def res intro: evolves_same)

lemma evolves_initialize: "initialize_structure_projection d = Inr (changed, d') \<Longrightarrow> evolves d d'"
proof -
  have "evolves d (reconcile_structure Full tempty d)" by (rule evolves_meta) (simp add: frames)
  then have "evolves d ((reconcile_structure Full tempty d)\<lparr>structure_version := structure_projection_version\<rparr>)"
    by (rule evolves_trans) (simp add: evolves_same)
  moreover assume "initialize_structure_projection d = Inr (changed, d')"
  ultimately show ?thesis
    by (auto simp: initialize_structure_projection_def res evolves_refl split: if_splits)
qed

lemma step_evolves: "replica_step ext d d' \<Longrightarrow> evolves d d'"
  using evolves_quarantine evolves_release evolves_settings(1,2)
  by (auto elim!: replica_step.cases dest: evolves_local evolves_batch evolves_sequenced evolves_acknowledge
      evolves_settings(3) evolves_initialize) (metis snd_conv)+

lemma sound_settings [simp]:
  "sound (d\<lparr>server_url := a\<rparr>) = sound d" "sound (d\<lparr>bound_workspace := b\<rparr>) = sound d"
  "sound (d\<lparr>stored_role := c\<rparr>) = sound d" "sound (d\<lparr>structure_version := e\<rparr>) = sound d"
  by (simp_all add: sound_defs forest_def block_edges_def cong: attachment_owner.case_cong)

lemma sound_small_steps:
  "sound (snd (quarantine_outbox_op u reason now d)) = sound d" "sound (snd (release_quarantined_outbox d)) = sound d"
  "sound (snd (configure_sync url d)) = sound d" "sound (snd (set_replica_role role d)) = sound d"
  by (simp_all add: quarantine_outbox_op_def release_quarantined_outbox_def configure_sync_def set_replica_role_def Let_def)

lemma step_sound: "replica_step ext d d' \<Longrightarrow> sound d \<Longrightarrow> sound d'"
proof (induction rule: replica_step.induct)
  case (bind url w seq d changed d')
  then show ?case by (auto simp: bind_sync_workspace_def res)
next
  case (initialize d changed d')
  then show ?case by (auto simp: initialize_structure_projection_def res sound_reconcile split: if_splits)
qed (use sound_small_steps in \<open>auto dest: sound_local sound_batch sound_sequenced sound_acknowledge dest!: arg_cong [of _ _ snd]\<close>)

lemma ledger_empty: "ledger_ok (empty_db w)"
  by (simp add: ledger_ok_def empty_db_def seqs_unique_def)

lemma reachable_ok: "reachable ext w d \<Longrightarrow> sound d \<and> ledger_ok d"
  by (induction rule: reachable.induct)
    (use sound_empty ledger_empty step_sound step_evolves in \<open>auto simp: evolves_def\<close>)

lemma steps_evolve: "(replica_step ext)\<^sup>*\<^sup>* d d' \<Longrightarrow> evolves d d'"
  by (induction rule: rtranclp_induct) (auto intro: evolves_refl evolves_trans step_evolves)

section \<open>The pending outbox\<close>

lemma map_res_ok:
  assumes "\<And>x. x \<in> set xs \<Longrightarrow> \<exists>y. f x = Inr y \<and> g y = h x"
  shows "\<exists>ys. map_res f xs = Inr ys \<and> map g ys = map h xs"
  using assms
proof (induction xs)
  case (Cons x xs)
  then obtain y where "f x = Inr y" "g y = h x" by auto
  moreover obtain ys where "map_res f xs = Inr ys" "map g ys = map h xs" using Cons by auto
  ultimately show ?case by simp
qed simp

lemma pending_ids:
  assumes "ledger_ok d"
  shows "\<exists>ops. read_pending_outbox n d = Inr ops \<and>
     map op_id ops = take n (map o_op_id (filter (\<lambda>r. o_quarantined r = None) (outbox d)))"
proof -
  have "\<exists>ops. map_res decode_row (take n (filter (\<lambda>r. o_quarantined r = None) (outbox d))) = Inr ops \<and>
     map op_id ops = map o_op_id (take n (filter (\<lambda>r. o_quarantined r = None) (outbox d)))"
    by (rule map_res_ok) (use assms in \<open>auto simp: ledger_ok_def dest!: in_set_takeD\<close>)
  then show ?thesis by (simp add: read_pending_outbox_def take_map)
qed

lemma reachable_step_from: "reachable ext w d \<Longrightarrow> (replica_step ext)\<^sup>*\<^sup>* d d' \<Longrightarrow> reachable ext w d'"
  by (rotate_tac, induction rule: rtranclp_induct) (auto intro: reachable.step)

inductive_cases replica_stepE: "replica_step ext d d'"

section \<open>Sample runs\<close>

definition sample_env :: env where
  "sample_env = \<lparr>now_ms = 5, now_secs = 0, new_device = 3, new_op = (\<lambda>n. of_nat (n + 20)),
     file_written = (\<lambda>_. True)\<rparr>"

definition sample_kinds :: "op_kind list" where
  "sample_kinds = [op_kind sample_create_page]"

definition sample_server :: db where
  "sample_server = snd (set_replica_role Server (empty_db 7))"

lemma sample_server_eq: "sample_server = (empty_db 7)\<lparr>stored_role := Some Server\<rparr>"
  by (simp add: sample_server_def set_replica_role_def empty_db_def)

lemma sample_server_reachable: "reachable ext 7 sample_server"
proof -
  have "set_replica_role Server (empty_db 7) = (fst (set_replica_role Server (empty_db 7)), sample_server)"
    by (simp add: sample_server_def)
  then show ?thesis by (rule reachable.step [OF reachable.fresh replica_step.set_role])
qed

lemma sample_create_valid: "validate_op sample_create_page = Inr ()"
  by code_simp

lemma sample_create_here:
  "\<exists>us st. apply_one ascii_externals sample_create_page (effects_deferred, sample_server\<lparr>local_device := Some 3\<rparr>) = Inr (us, st)"
proof -
  have "is_ok (apply_one ascii_externals sample_create_page (effects_deferred, sample_server\<lparr>local_device := Some 3\<rparr>))"
    by code_simp
  then show ?thesis unfolding is_ok_iff by (metis surj_pair)
qed

lemma deferred_full [simp]: "effects_for Deferred Full = effects_deferred"
  by (simp add: effects_for_def effects_deferred_def effects_immediate_def)

lemma sample_authored: "author_ops sample_env 7 3 None 0 sample_kinds = Inr [sample_create_page]"
proof -
  have "\<lparr>op_id = new_op sample_env 0, op_workspace = 7, op_device = 3, op_hlc = send None (now_ms sample_env) 3,
         op_format = format_version, op_kind = op_kind sample_create_page\<rparr> = sample_create_page"
    by (simp add: sample_env_def sample_create_page_def send_def format_version_def)
  with sample_create_valid show ?thesis by (simp add: sample_kinds_def Let_def)
qed

lemma sample_local:
  "\<exists>ops d. apply_local_kinds ascii_externals sample_env sample_kinds Deferred Full sample_server = Inr (ops, d)"
proof -
  obtain us st where one: "apply_one ascii_externals sample_create_page (effects_deferred, sample_server\<lparr>local_device := Some 3\<rparr>) = Inr (us, st)"
    using sample_create_here by blast
  have "applied_ops (snd st) = tempty" "outbox (snd st) = []"
    using apply_one_meta [OF one] by (simp_all add: meta_eqs sample_server_eq empty_db_def)
  moreover have v: "fold_res (\<lambda>k _. validate_kind k) sample_kinds () = Inr ()"
    using sample_create_valid unfolding fold_res_all_ok by (auto simp: validate_op_def res sample_kinds_def)
  moreover have "meta_or_insert_device_id sample_env sample_server = (3, sample_server\<lparr>local_device := Some 3\<rparr>)"
    by (simp add: meta_or_insert_device_id_def sample_server_eq empty_db_def sample_env_def)
  moreover have "workspace sample_server = 7" "last_hlc sample_server = None"
    by (simp_all add: sample_server_eq empty_db_def)
  moreover have "\<exists>st'. apply_authored ascii_externals publishes sample_create_page
      (effects_deferred, sample_server\<lparr>local_device := Some 3\<rparr>) = Inr st'" for publishes
    using calculation(1,2) one
    by (simp add: apply_authored_def lift_db_def insert_applied_def push_outbox_def cong del: attempt_cong)
  then obtain st' where "apply_authored ascii_externals (publishes_authored_ops (sample_server\<lparr>local_device := Some 3\<rparr>)) sample_create_page
      (effects_deferred, sample_server\<lparr>local_device := Some 3\<rparr>) = Inr st'" by blast
  ultimately show ?thesis
    unfolding apply_local_kinds_def v using sample_authored
    by (simp add: require_mode_def Let_def cong del: attempt_cong)
qed

lemma sample_sequenced:
  "\<exists>outs du d. apply_sequenced_batch ascii_externals sample_env [(1, sample_create_page)] Full (empty_db 7) = Inr (outs, du, d)"
proof -
  obtain us st where one: "apply_one ascii_externals sample_create_page (effects_deferred, empty_db 7) = Inr (us, st)"
    using sample_create_applies by blast
  have "applied_ops (snd st) = tempty"
    using apply_one_meta [OF one] by (simp add: meta_eqs empty_db_def)
  then have "operation_at_seq (observe_hlc sample_env h (snd st)) 1 = None" for h by (simp add: operation_at_seq_None)
  moreover have "saturating_add64 0 1 = 1" "read_sync_cursor (empty_db 7) = 0" "get (applied_ops (empty_db 7)) u = None" for u
    by (simp_all add: saturating_add64_def read_sync_cursor_def empty_db_def)
  ultimately have "\<exists>q'. apply_sequenced_op ascii_externals sample_env (1, sample_create_page)
      \<lparr>q_cursor = read_sync_cursor (empty_db 7), q_outcomes = [], q_durable = False, q_released = False,
       q_state = (effects_deferred, empty_db 7)\<rparr> = Inr q'"
    using one by (simp add: apply_sequenced_op_def Let_def lift_db_def record_sequence_def remove_operation_def
        cong del: attempt_cong)
  moreover have v: "fold_res (\<lambda>(seq, operation) _. attempt (validate_server_sequence seq) (\<lambda>_. validate_op operation))
      [(1, sample_create_page)] () = Inr ()"
    unfolding fold_res_pairs_ok using sample_create_valid by (simp add: validate_server_sequence_def i64_max_def)
  ultimately show ?thesis
    unfolding apply_sequenced_batch_def v by (auto simp: require_mode_def Let_def cong del: attempt_cong)
qed

lemma sample_batch:
  "\<exists>outs du d. apply_batch ascii_externals sample_env [sample_create_page] Remote Full (empty_db 7) = Inr (outs, du, d)"
proof -
  obtain us st where one: "apply_one ascii_externals sample_create_page (effects_deferred, empty_db 7) = Inr (us, st)"
    using sample_create_applies by blast
  have "applied_ops (snd st) = tempty"
    using apply_one_meta [OF one] by (simp add: meta_eqs empty_db_def)
  moreover have "\<not> has (applied_ops (empty_db 7)) u" for u by (simp add: empty_db_def)
  ultimately have "\<exists>b. apply_batch_op ascii_externals sample_env Remote p sample_create_page
      ([], False, effects_deferred, empty_db 7) = Inr b" for p
    using one by (simp add: apply_batch_op_def lift_db_def insert_applied_def ex_bool_eq cong del: attempt_cong)
  then obtain outs du st' where "apply_batch_op ascii_externals sample_env Remote (publishes_authored_ops (empty_db 7))
      sample_create_page ([], False, effects_deferred, empty_db 7) = Inr (outs, du, st')" by (metis prod_cases3)
  moreover have v: "fold_res (\<lambda>operation _. validate_op operation) [sample_create_page] () = Inr ()"
    unfolding fold_res_all_ok using sample_create_valid by simp
  ultimately show ?thesis
    unfolding apply_batch_def v by (simp add: require_mode_def ex_bool_eq cong del: attempt_cong)
qed

section \<open>Properties\<close>

text \<open>
  C1. Every database a replica can reach from a fresh one, by any sequence of authored,
  delivered, sequenced and acknowledged batches, quarantines and settings, keeps the integrity of
  its notes: every page has an identity, no identity is a block's, and at most one page is the
  journal of a date; a journal row belongs to the journal of its date; the page and the parent of a
  block exist; no two pages share a normalized title; links and references start at blocks that
  exist, links lead to pages that exist or to none, and no block refers to itself; the owner of an attachment
  exists and holds a blob once; and the parents of the blocks form a forest. Its outbox has one
  entry per operation, each decodable, applied and not yet sequenced; no server sequence belongs
  to two operations; and the stored clock carries this device. The foreign keys and unique
  indexes of the tables of drawings are not part of the claim.
\<close>

theorem reachable_replicas_are_sound:
  assumes "reachable ext w d"
  shows "sound d \<and> ledger_ok d"
  using assms by (rule reachable_ok)

theorem reachable_replicas_are_sound_witness:
  "\<exists>ops d. apply_local_kinds ascii_externals sample_env sample_kinds Deferred Full sample_server = Inr (ops, d) \<and>
     sound d \<and> ledger_ok d"
proof -
  obtain ops d where ok: "apply_local_kinds ascii_externals sample_env sample_kinds Deferred Full sample_server = Inr (ops, d)"
    using sample_local by blast
  have "reachable ascii_externals 7 d"
    by (rule reachable.step [OF sample_server_reachable replica_step.author [OF ok]])
  from reachable_replicas_are_sound [OF this] ok show ?thesis by blast
qed



text \<open>
  The operations of a local batch carry strictly increasing clocks, all above the stored
  clock, as long as the 32-bit counter has room for the batch; the last of them becomes the stored
  clock, and the operations are those asked for, in order, of this workspace.
\<close>

theorem authored_clocks_ascend:
  assumes "apply_local_kinds ext env kinds policy mode d = Inr (ops, d')"
    and "clock_room (last_hlc d) (length kinds)"
  shows "sorted_wrt (<) (map op_hlc ops) \<and> (\<forall>x \<in> set ops. last_hlc d < Some (op_hlc x) \<and> op_workspace x = workspace d) \<and>
         map op_kind ops = kinds \<and> last_hlc d' = (if kinds = [] then last_hlc d else Some (op_hlc (last ops)))"
proof -
  from assms(1) obtain device d1 st where m: "meta_or_insert_device_id env d = (device, d1)"
    and a: "author_ops env (workspace d1) device (last_hlc d1) 0 kinds = Inr ops"
    and f: "fold_res (apply_authored ext (publishes_authored_ops d1)) ops (effects_for policy mode, d1) = Inr st"
    and d': "d' = (if ops = [] then snd (finish_projections ext st)
           else (snd (finish_projections ext st))\<lparr>last_hlc := Some (op_hlc (last ops))\<rparr>)"
    by (rule apply_local_obtain)
  have d1: "last_hlc d1 = last_hlc d" "workspace d1 = workspace d" using device_row [OF m] by auto
  have "last_hlc (snd (finish_projections ext st)) = last_hlc d"
    using fold_authored [OF f] d1 by (simp add: finish_meta)
  moreover have "kinds = [] \<longleftrightarrow> ops = []" using author_ops_kinds [OF a] by auto
  ultimately show ?thesis
    using author_clocks [OF a] author_ops_kinds [OF a] assms(2) by (auto simp: d1 d')
qed

theorem authored_clocks_ascend_witness:
  "\<exists>ops d. apply_local_kinds ascii_externals sample_env sample_kinds Deferred Full sample_server = Inr (ops, d) \<and>
     sorted_wrt (<) (map op_hlc ops) \<and> length ops = 1"
proof -
  obtain ops d where ok: "apply_local_kinds ascii_externals sample_env sample_kinds Deferred Full sample_server = Inr (ops, d)"
    using sample_local by blast
  have "clock_room (last_hlc sample_server) (length sample_kinds)"
    by (simp add: clock_room_def sample_server_def set_replica_role_def empty_db_def sample_kinds_def)
  from authored_clocks_ascend [OF ok this] ok show ?thesis
    by (auto simp: sample_kinds_def dest: arg_cong [of _ _ length])
qed

text \<open>
  A replica that publishes (a server, or a client with a server configured) appends exactly
  the operations of a local batch to its outbox, in order and decodable; one that does not leaves
  the outbox as it was. Each operation is recorded as applied and not yet sequenced.
\<close>

theorem authored_operations_are_queued:
  assumes "apply_local_kinds ext env kinds policy mode d = Inr (ops, d')"
  shows "map decode_row (outbox d') =
           map decode_row (outbox d) @ (if publishes_authored_ops d then map Inr ops else []) \<and>
         (\<forall>u. get (applied_ops d') u = (if u \<in> op_id ` set ops then Some None else get (applied_ops d) u))"
proof -
  from assms obtain device d1 st where m: "meta_or_insert_device_id env d = (device, d1)"
    and f: "fold_res (apply_authored ext (publishes_authored_ops d1)) ops (effects_for policy mode, d1) = Inr st"
    and d': "d' = (if ops = [] then snd (finish_projections ext st)
           else (snd (finish_projections ext st))\<lparr>last_hlc := Some (op_hlc (last ops))\<rparr>)"
    by (rule apply_local_obtain)
  have d1: "d1 = d\<lparr>local_device := Some device\<rparr>" using device_row [OF m] by simp
  have g: "get (fold (\<lambda>x. put (op_id x) None) xs t) u = (if u \<in> op_id ` set xs then Some None else get t u)"
    for xs and t :: "(uuid, 64 word option) table" and u
    by (induction xs arbitrary: t) auto
  have "outbox d' = outbox (snd st)" "applied_ops d' = applied_ops (snd st)"
    by (simp_all add: d' finish_meta)
  with fold_authored [OF f] show ?thesis by (simp add: d1 publishes_device g comp_def)
qed

theorem authored_operations_are_queued_witness:
  "\<exists>ops d. apply_local_kinds ascii_externals sample_env sample_kinds Deferred Full sample_server = Inr (ops, d) \<and>
     map decode_row (outbox d) = map Inr ops"
proof -
  obtain ops d where ok: "apply_local_kinds ascii_externals sample_env sample_kinds Deferred Full sample_server = Inr (ops, d)"
    using sample_local by blast
  have "publishes_authored_ops sample_server" "outbox sample_server = []"
    by (simp_all add: publishes_authored_ops_def replica_role_of_def sample_server_def set_replica_role_def empty_db_def)
  with authored_operations_are_queued [OF ok] ok show ?thesis by auto
qed

text \<open>
  C21. The sync cursor never skips: after a sequenced batch every sequence between the old and the
  new cursor was in the batch and is recorded for its operation, no sequence of the batch is
  beyond the cursor, and none belongs to an operation other than the one it came with.
\<close>

theorem sequenced_batch_is_contiguous:
  assumes "ledger_ok d" and "apply_sequenced_batch ext env entries mode d = Inr (outs, durable, d')"
  shows "read_sync_cursor d \<le> read_sync_cursor d' \<and>
         (\<forall>s. read_sync_cursor d < s \<longrightarrow> s \<le> read_sync_cursor d' \<longrightarrow>
            (\<exists>x. (s, x) \<in> set entries \<and> get (applied_ops d') (op_id x) = Some (Some s))) \<and>
         (\<forall>(s, x) \<in> set entries. s \<le> read_sync_cursor d' \<and> only_at d' s (op_id x))"
  using sequenced_batch_facts [OF assms] by blast

theorem sequenced_batch_is_contiguous_witness:
  "\<exists>outs du d. apply_sequenced_batch ascii_externals sample_env [(1, sample_create_page)] Full (empty_db 7) = Inr (outs, du, d) \<and>
     1 \<le> read_sync_cursor d"
proof -
  obtain outs du d where ok: "apply_sequenced_batch ascii_externals sample_env [(1, sample_create_page)] Full (empty_db 7) = Inr (outs, du, d)"
    using sample_sequenced by blast
  from sequenced_batch_is_contiguous [OF ledger_empty ok] ok show ?thesis by auto
qed

text \<open>
  Delivering a sequenced batch again changes nothing: it is accepted, reports no outcome, is
  not durable, and returns the very same database.
\<close>

theorem sequenced_redelivery_is_a_no_op:
  assumes "ledger_ok d" and "apply_sequenced_batch ext env entries mode d = Inr (outs, durable, d')"
  shows "apply_sequenced_batch ext env' entries mode d' = Inr (replicate (length entries) no_outcome, False, d')"
proof -
  from assms(2) obtain q where m: "require_mode mode d = Inr ()"
    and v: "fold_res (\<lambda>(seq, operation) _. attempt (validate_server_sequence seq) (\<lambda>_. validate_op operation)) entries () = Inr ()"
    by (rule apply_sequenced_obtain)
  note facts = sequenced_batch_facts [OF assms]
  from m facts have m': "require_mode mode d' = Inr ()" by (simp add: require_mode_same [of d' d])
  have "d'\<lparr>last_server_seq := Some (read_sync_cursor d')\<rparr> = d'" using facts by simp
  moreover have "fold_res (apply_sequenced_op ext env') entries
      \<lparr>q_cursor = read_sync_cursor d', q_outcomes = [], q_durable = False, q_released = False,
       q_state = (effects_for Deferred mode, d')\<rparr> =
    Inr \<lparr>q_cursor = read_sync_cursor d', q_outcomes = replicate (length entries) no_outcome, q_durable = False,
         q_released = False, q_state = (effects_for Deferred mode, d')\<rparr>"
    using facts by (subst sequenced_redelivered) auto
  ultimately show ?thesis
    using facts by (simp add: apply_sequenced_batch_def m' v finish_idle collect_released_def Let_def cong del: attempt_cong)
qed

theorem sequenced_redelivery_is_a_no_op_witness:
  "\<exists>outs du d. apply_sequenced_batch ascii_externals sample_env [(1, sample_create_page)] Full (empty_db 7) = Inr (outs, du, d) \<and>
     apply_sequenced_batch ascii_externals sample_env [(1, sample_create_page)] Full d = Inr ([no_outcome], False, d)"
proof -
  obtain outs du d where ok: "apply_sequenced_batch ascii_externals sample_env [(1, sample_create_page)] Full (empty_db 7) = Inr (outs, du, d)"
    using sample_sequenced by blast
  from sequenced_redelivery_is_a_no_op [OF ledger_empty ok, of sample_env] ok show ?thesis by auto
qed

text \<open>
  Delivering an unsequenced batch again, from any origin, changes nothing either.
\<close>

theorem batch_redelivery_is_a_no_op:
  assumes "apply_batch ext env ops origin mode d = Inr (outs, durable, d')"
  shows "apply_batch ext env' ops origin' mode d' = Inr (replicate (length ops) no_outcome, False, d')"
proof -
  from assms obtain st where m: "require_mode mode d = Inr ()"
    and v: "fold_res (\<lambda>operation _. validate_op operation) ops () = Inr ()"
    and f: "fold_res (apply_batch_op ext env origin (publishes_authored_ops d)) ops
       ([], False, effects_for Deferred mode, d) = Inr (outs, durable, st)"
    and d': "d' = snd (finish_projections ext st)"
    by (rule apply_batch_obtain)
  have m': "require_mode mode d' = Inr ()"
    using m fold_batch_applied [OF f, of undefined] by (simp add: require_mode_same [of "snd (finish_projections ext st)" d] d' finish_meta)
  have "\<forall>x \<in> set ops. has (applied_ops d') (op_id x)"
    using fold_batch_applied [OF f] by (auto simp: d' finish_meta)
  then have "fold_res (apply_batch_op ext env' origin' (publishes_authored_ops d')) ops ([], False, effects_for Deferred mode, d') =
      Inr (replicate (length ops) no_outcome, False, effects_for Deferred mode, d')"
    by (simp add: batch_redelivered)
  then show ?thesis
    by (simp add: apply_batch_def m' v finish_idle cong del: attempt_cong)
qed

theorem batch_redelivery_is_a_no_op_witness:
  "\<exists>outs du d. apply_batch ascii_externals sample_env [sample_create_page] Remote Full (empty_db 7) = Inr (outs, du, d) \<and>
     apply_batch ascii_externals sample_env [sample_create_page] Local Full d = Inr ([no_outcome], False, d)"
proof -
  obtain outs du d where ok: "apply_batch ascii_externals sample_env [sample_create_page] Remote Full (empty_db 7) = Inr (outs, du, d)"
    using sample_batch by blast
  from batch_redelivery_is_a_no_op [OF ok, of sample_env Local] ok show ?thesis by auto
qed

text \<open>
  A first entry that jumps over the next sequence is refused with the gap it leaves, and
  nothing of the batch is applied.
\<close>

theorem sequence_gap_is_refused:
  assumes "saturating_add64 (read_sync_cursor d) 1 < s" and "uint s \<le> i64_max" and "validate_op x = Inr ()"
    and "require_mode mode d = Inr ()"
  shows "apply_sequenced_batch ext env [(s, x)] mode d =
           Inl (SyncSequenceGap (saturating_add64 (read_sync_cursor d) 1) s)"
proof -
  have "c \<le> saturating_add64 c 1" for c
    using unat_less [of c] by (auto simp: saturating_add64_def word_le_nat_alt unat_word_ariths
        unsigned_minus_1_eq_mask mask_eq_exp_minus_1)
  with assms(1) have "\<not> s \<le> read_sync_cursor d" "s \<noteq> saturating_add64 (read_sync_cursor d) 1"
    by (meson leD order_trans) (use assms(1) in simp)
  moreover have "fold_res (\<lambda>(seq, operation) _. attempt (validate_server_sequence seq) (\<lambda>_. validate_op operation)) [(s, x)] () = Inr ()"
    unfolding fold_res_pairs_ok using assms(2,3) by (simp add: validate_server_sequence_def)
  ultimately show ?thesis
    unfolding apply_sequenced_batch_def using assms(1,4)
    by (auto simp: apply_sequenced_op_def Let_def cong del: attempt_cong)
qed

theorem sequence_gap_is_refused_witness:
  "apply_sequenced_batch ascii_externals sample_env [(3, sample_create_page)] Full (empty_db 7) = Inl (SyncSequenceGap 1 3)"
proof -
  have "validate_op sample_create_page = Inr ()" by code_simp
  moreover have "read_sync_cursor (empty_db 7) = 0" by (simp add: read_sync_cursor_def empty_db_def)
  moreover have "uint (3 :: 64 word) \<le> i64_max" by (simp add: i64_max_def)
  moreover have "saturating_add64 0 1 = 1" by (simp add: saturating_add64_def)
  ultimately show ?thesis
    using sequence_gap_is_refused [of "empty_db 7" 3 sample_create_page Full ascii_externals sample_env]
    by (simp add: require_mode_def)
qed

text \<open>
  Acknowledging operations takes exactly those out of the outbox, keeping the order of the
  rest, and records the given sequence for each one that is known.
\<close>

theorem acknowledge_removes_exactly:
  assumes "acknowledge_server_ops acks d = Inr (durable, d')" and "distinct (map fst acks)"
  shows "outbox d' = filter (\<lambda>r. o_op_id r \<notin> fst ` set acks) (outbox d) \<and>
         (\<forall>u s. (u, s) \<in> set acks \<longrightarrow> has (applied_ops d) u \<longrightarrow> get (applied_ops d') u = Some (Some s)) \<and>
         (\<forall>u. u \<notin> fst ` set acks \<longrightarrow> get (applied_ops d') u = get (applied_ops d) u)"
  using assms(1)
proof (rule acknowledge_obtain)
  fix acc
  assume f: "fold_res acknowledge_one acks (False, False, d) = Inr acc"
    and d': "d' = collect_released (fst (snd acc)) (snd (snd acc))"
  from fold_acknowledge [OF f] assms(2) show ?thesis by (simp add: d')
qed

theorem acknowledge_removes_exactly_witness:
  "\<exists>du d. acknowledge_server_ops [(20, 1)] (sample_server\<lparr>applied_ops := put 20 None tempty\<rparr>) = Inr (du, d) \<and>
     get (applied_ops d) 20 = Some (Some 1)"
proof -
  have v: "fold_res (\<lambda>(_, seq) _. validate_server_sequence seq) [(20 :: uuid, 1)] () = Inr ()"
    unfolding fold_res_pairs_ok by (simp add: validate_server_sequence_def i64_max_def)
  have "\<exists>acc. acknowledge_one (20, 1) (False, False, sample_server\<lparr>applied_ops := put 20 None tempty\<rparr>) = Inr acc"
    by (simp add: acknowledge_one_def Let_def record_sequence_def remove_operation_def operation_at_seq_def ex_bool_eq)
  then have "is_ok (acknowledge_server_ops [(20, 1)] (sample_server\<lparr>applied_ops := put 20 None tempty\<rparr>))"
    unfolding acknowledge_server_ops_def v by (auto simp: is_ok_def split: prod.split cong del: attempt_cong)
  then obtain du d where ok: "acknowledge_server_ops [(20, 1)] (sample_server\<lparr>applied_ops := put 20 None tempty\<rparr>) = Inr (du, d)"
    unfolding is_ok_iff by (metis surj_pair)
  from acknowledge_removes_exactly [OF ok] ok show ?thesis by auto
qed

text \<open>
  Quarantining an operation hides it from the pending outbox, whatever the limit, without
  forgetting it; releasing the quarantine makes every operation pending again in its original
  order.
\<close>

theorem quarantine_hides_and_release_restores:
  assumes "ledger_ok d"
  shows "(\<exists>ops. read_pending_outbox n (snd (quarantine_outbox_op u reason now d)) = Inr ops \<and> u \<notin> op_id ` set ops) \<and>
         (\<exists>ops. read_pending_outbox n (snd (release_quarantined_outbox (snd (quarantine_outbox_op u reason now d)))) = Inr ops \<and>
                map op_id ops = take n (map o_op_id (outbox d)))"
proof -
  let ?q = "snd (quarantine_outbox_op u reason now d)"
  let ?r = "snd (release_quarantined_outbox ?q)"
  have q: "ledger_ok ?q" using evolves_quarantine assms by (simp add: evolves_def)
  then have r: "ledger_ok ?r" using evolves_release by (simp add: evolves_def)
  have "o_op_id r \<noteq> u" if "r \<in> set (outbox ?q)" "o_quarantined r = None" for r
  proof -
    let ?f = "\<lambda>r. if o_op_id r = u \<and> o_quarantined r = None
        then r\<lparr>o_quarantined := Some now, o_reason := Some reason\<rparr> else r"
    have "r \<in> ?f ` set (outbox d)" using that(1) by (simp add: quarantine_outbox_op_def)
    then obtain r' where "r = ?f r'" by blast
    with that(2) show ?thesis by (cases "o_op_id r' = u \<and> o_quarantined r' = None") auto
  qed
  then have "u \<notin> set (map o_op_id (filter (\<lambda>r. o_quarantined r = None) (outbox ?q)))"
    by auto
  then have "u \<notin> set (take n (map o_op_id (filter (\<lambda>r. o_quarantined r = None) (outbox ?q))))"
    by (meson in_set_takeD)
  moreover have "filter (\<lambda>r. o_quarantined r = None) (outbox ?r) = outbox ?r"
    by (auto simp: release_quarantined_outbox_def filter_id_conv)
  moreover have "map o_op_id (outbox ?r) = map o_op_id (outbox d)"
    by (simp add: release_quarantined_outbox_def quarantine_outbox_op_def comp_def if_distrib [of o_op_id])
  moreover obtain ops where ops: "read_pending_outbox n ?q = Inr ops"
    "map op_id ops = take n (map o_op_id (filter (\<lambda>r. o_quarantined r = None) (outbox ?q)))"
    using pending_ids [OF q, of n] by blast
  moreover have "op_id ` set ops = set (map op_id ops)" by simp
  ultimately show ?thesis using pending_ids [OF r, of n] by (simp only: ops) auto
qed

theorem quarantine_hides_and_release_restores_witness:
  "\<exists>ops. read_pending_outbox 5 (snd (quarantine_outbox_op 20 ''bad'' 1 sample_server)) = Inr ops \<and> 20 \<notin> op_id ` set ops"
proof -
  have "ledger_ok sample_server" using reachable_ok [OF sample_server_reachable] by blast
  from quarantine_hides_and_release_restores [OF this, of 5 20 "''bad''" 1] show ?thesis by blast
qed

end
