(* ===== verification/Snapshot.thy ===== *)
theory Snapshot
  imports Reachable
begin

text \<open>
  Sync snapshots: \<open>SyncSnapshot\<close>, its export and validation in
  \<open>crates/notes-core/src/operation.rs\<close>, and its installation in \<open>operation/snapshot.rs\<close>.
\<close>

section \<open>The payload\<close>

record snapshot_page_identity =
  ni_uuid :: uuid
  ni_kind :: page_kind

record snapshot_page =
  np_uuid :: uuid
  np_kind :: page_kind
  np_title :: "string option"
  np_layout :: page_layout
  np_title_hlc :: "hlc option"
  np_layout_hlc :: "hlc option"
  np_existence :: hlc
  np_created :: int
  np_updated :: int

record snapshot_page_alias =
  na_page :: uuid
  na_alias :: string
  na_hlc :: hlc
  na_present :: bool

record snapshot_block =
  nb_uuid :: uuid
  nb_page :: uuid
  nb_parent :: "uuid option"
  nb_order :: order_key
  nb_style :: block_style
  nb_markdown :: string
  nb_markdown_hlc :: "hlc option"
  nb_style_hlc :: "hlc option"
  nb_structure_hlc :: "hlc option"
  nb_existence :: hlc
  nb_created :: int
  nb_updated :: int

record snapshot_block_structure =
  ns_block :: uuid
  ns_page :: uuid
  ns_parent :: "uuid option"
  ns_order :: order_key
  ns_hlc :: hlc

record snapshot_tombstone =
  nt_uuid :: uuid
  nt_kind :: object_kind
  nt_hlc :: hlc
  nt_root :: "uuid option"

record sync_snapshot =
  sn_ink_versions :: "version list"
  sn_format :: "32 word"
  sn_workspace :: uuid
  sn_seq :: "64 word"
  sn_identities :: "snapshot_page_identity list"
  sn_pages :: "snapshot_page list"
  sn_aliases :: "snapshot_page_alias list"
  sn_blocks :: "snapshot_block list"
  sn_structures :: "snapshot_block_structure list"
  sn_tombstones :: "snapshot_tombstone list"
  sn_attachments :: "snapshot_attachment list"

section \<open>Export\<close>

text \<open>A page without an identity has no \<open>page_kind\<close> column to read.\<close>

definition export_page :: "db \<Rightarrow> uuid \<times> page_row \<Rightarrow> core_error + snapshot_page" where
  "export_page d entry =
     (case entry of (u, r) \<Rightarrow>
        case get (identities d) u of
          None \<Rightarrow> Inl Database
        | Some kind \<Rightarrow>
            Inr \<lparr>np_uuid = u, np_kind = kind, np_title = p_title r, np_layout = p_layout r,
                 np_title_hlc = p_title_hlc r, np_layout_hlc = p_layout_hlc r, np_existence = p_existence r,
                 np_created = p_created r, np_updated = p_updated r\<rparr>)"

definition export_block :: "uuid \<times> block_row \<Rightarrow> snapshot_block" where
  "export_block entry =
     (case entry of (u, r) \<Rightarrow>
        \<lparr>nb_uuid = u, nb_page = b_page r, nb_parent = b_parent r, nb_order = b_order r, nb_style = b_style r,
         nb_markdown = b_markdown r, nb_markdown_hlc = b_markdown_hlc r, nb_style_hlc = b_style_hlc r,
         nb_structure_hlc = b_structure_hlc r, nb_existence = b_existence r, nb_created = b_created r,
         nb_updated = b_updated r\<rparr>)"

text \<open>\<open>snapshot_attachment_from_row\<close>: a negative size is read as no size.\<close>

definition export_attachment :: "(attachment_owner \<times> blob_hash) \<times> attachment_lww_row \<Rightarrow> snapshot_attachment" where
  "export_attachment entry =
     (case entry of ((owner, hash), w) \<Rightarrow>
        \<lparr>sa_owner = owner, sa_blob_hash = hash, sa_uuid = w_uuid w, sa_hlc = w_hlc w, sa_present = w_present w,
         sa_filename = w_filename w, sa_mime = w_mime w,
         sa_size = (case w_size w of None \<Rightarrow> None | Some n \<Rightarrow> if 0 \<le> n then Some (of_int n) else None)\<rparr>)"

definition export_snapshot :: "64 word \<Rightarrow> db \<Rightarrow> core_error + sync_snapshot" where
  "export_snapshot seq d =
     attempt (map_res (export_page d) (rows (pages d))) (\<lambda>ps.
     Inr \<lparr>sn_ink_versions = all_versions (ink d), sn_format = format_version, sn_workspace = workspace d,
          sn_seq = seq,
          sn_identities = map (\<lambda>(u, k). \<lparr>ni_uuid = u, ni_kind = k\<rparr>) (rows (identities d)),
          sn_pages = ps,
          sn_aliases = map (\<lambda>((u, al), r). \<lparr>na_page = u, na_alias = al, na_hlc = al_hlc r, na_present = al_present r\<rparr>)
                         (rows (aliases d)),
          sn_blocks = map export_block (rows (blocks d)),
          sn_structures = map (\<lambda>(u, i). \<lparr>ns_block = u, ns_page = i_page i, ns_parent = i_parent i,
                                         ns_order = i_order i, ns_hlc = i_hlc i\<rparr>) (rows (intents d)),
          sn_tombstones = map (\<lambda>(u, r). \<lparr>nt_uuid = u, nt_kind = t_kind r, nt_hlc = t_hlc r, nt_root = t_root r\<rparr>)
                            (rows (tombstones d)),
          sn_attachments = map export_attachment (rows (attachment_lww d))\<rparr>)"

section \<open>Validation\<close>

text \<open>
  \<open>validate_snapshot\<close> fills a hash map per table while it checks each row against those before
  it. The maps are tables here; the loop over \<open>blocks.values()\<close> runs in key order.
\<close>

definition bad :: "string \<Rightarrow> core_error" where
  "bad message = InvalidInput message"

definition check_identity ::
  "externals \<Rightarrow> uuid \<Rightarrow> snapshot_page_identity \<Rightarrow> (uuid, page_kind) table \<times> (string, unit) table \<Rightarrow>
     core_error + ((uuid, page_kind) table \<times> (string, unit) table)" where
  "check_identity ext w x acc =
     (case acc of (ids, dates) \<Rightarrow>
        attempt (validate_page_identity ext w (ni_uuid x) (ni_kind x)) (\<lambda>_.
        guard (\<not> has ids (ni_uuid x)) (bad ''snapshot contains duplicate page identity UUID'')
          (case ni_kind x of
             Journal date \<Rightarrow>
               guard (\<not> has dates date) (bad ''snapshot contains duplicate journal date'')
                 (Inr (put (ni_uuid x) (ni_kind x) ids, put date () dates))
           | _ \<Rightarrow> Inr (put (ni_uuid x) (ni_kind x) ids, dates))))"

definition check_version :: "(uuid, page_kind) table \<Rightarrow> version \<Rightarrow> (uuid, unit) table \<Rightarrow> core_error + (uuid, unit) table" where
  "check_version ids v seen =
     (let p = ve_publication v in
      attempt (publish_validate p) (\<lambda>_.
      guard (\<not> (has seen (version_uuid p) \<or> get ids (page_uuid p) \<noteq> Some Handwriting))
        (bad ''Invalid handwriting version in snapshot'')
        (Inr (put (version_uuid p) () seen))))"

definition check_page :: "(uuid, page_kind) table \<Rightarrow> snapshot_page \<Rightarrow> (uuid, snapshot_page) table \<Rightarrow>
    core_error + (uuid, snapshot_page) table" where
  "check_page ids x seen =
     guard (get ids (np_uuid x) = Some (np_kind x)) (bad ''snapshot page is missing its matching immutable identity'')
     (guard (\<not> (is_journal (np_kind x) \<and> np_title x \<noteq> None)) (bad ''snapshot journal page cannot have a stored title'')
     (guard (\<not> has seen (np_uuid x)) (bad ''snapshot contains duplicate page UUID'')
        (Inr (put (np_uuid x) x seen))))"

definition check_alias :: "(uuid, page_kind) table \<Rightarrow> snapshot_page_alias \<Rightarrow> (uuid \<times> string, unit) table \<Rightarrow>
    core_error + (uuid \<times> string, unit) table" where
  "check_alias ids x seen =
     guard (has ids (na_page x)) (bad ''snapshot alias references unknown page identity'')
     (guard (\<not> has seen (na_page x, na_alias x)) (bad ''snapshot contains duplicate alias for page'')
        (Inr (put (na_page x, na_alias x) () seen)))"

definition check_block :: "(uuid, page_kind) table \<Rightarrow> (uuid, snapshot_page) table \<Rightarrow> snapshot_block \<Rightarrow>
    (uuid, snapshot_block) table \<Rightarrow> core_error + (uuid, snapshot_block) table" where
  "check_block ids ps x seen =
     guard (\<not> has ids (nb_uuid x)) (bad ''snapshot UUID is reserved by both a page identity and a block'')
     (guard (\<not> has seen (nb_uuid x)) (bad ''snapshot contains duplicate block UUID'')
     (guard (get ids (nb_page x) \<noteq> Some Handwriting) (bad ''Handwritten notes cannot contain text blocks'')
     (guard (has ps (nb_page x)) (bad ''snapshot block references missing page'')
        (Inr (put (nb_uuid x) x seen)))))"

definition check_tombstone ::
  "(uuid, page_kind) table \<Rightarrow> (uuid, snapshot_page) table \<Rightarrow> (uuid, snapshot_block) table \<Rightarrow> snapshot_tombstone \<Rightarrow>
     (uuid, snapshot_tombstone) table \<Rightarrow> core_error + (uuid, snapshot_tombstone) table" where
  "check_tombstone ids ps bs x seen =
     guard (\<not> has seen (nt_uuid x)) (bad ''snapshot contains duplicate tombstone UUID'')
     (guard (\<not> (case nt_kind x of
                  PageObject \<Rightarrow> has ps (nt_uuid x) \<or> has bs (nt_uuid x)
                | BlockObject \<Rightarrow> has bs (nt_uuid x) \<or> has ids (nt_uuid x)))
        (bad ''snapshot UUID is both live and tombstoned or changes object kind'')
     (case nt_kind x of
        PageObject \<Rightarrow>
          guard (has ids (nt_uuid x)) (bad ''page tombstone is missing its immutable page identity'')
          (guard (nt_root x = Some (nt_uuid x)) (bad ''page tombstone root must equal the page UUID'')
             (Inr (put (nt_uuid x) x seen)))
      | BlockObject \<Rightarrow>
          guard (nt_root x \<noteq> None) (bad ''block tombstone must retain its root page UUID'')
            (Inr (put (nt_uuid x) x seen))))"

definition check_parent :: "(uuid, snapshot_block) table \<Rightarrow> snapshot_block \<Rightarrow> core_error + unit" where
  "check_parent bs x =
     (case nb_parent x of
        None \<Rightarrow> Inr ()
      | Some p \<Rightarrow>
          (case get bs p of
             None \<Rightarrow> Inl (bad ''snapshot block has missing materialized parent'')
           | Some parent \<Rightarrow>
               guard (nb_page parent = nb_page x) (bad ''snapshot materialized parent belongs to another page'') (Inr ())))"

definition check_raw_parent :: "(uuid, snapshot_block) table \<Rightarrow> (uuid, snapshot_tombstone) table \<Rightarrow>
    snapshot_block_structure \<Rightarrow> core_error + unit" where
  "check_raw_parent bs ts x =
     (case ns_parent x of
        None \<Rightarrow> Inr ()
      | Some p \<Rightarrow>
          (case get bs p of
             Some parent \<Rightarrow> guard (nb_page parent = ns_page x) (bad ''snapshot raw parent belongs to another page'') (Inr ())
           | None \<Rightarrow>
               guard (case get ts p of None \<Rightarrow> False | Some t \<Rightarrow> nt_kind t = BlockObject)
                 (bad ''snapshot raw parent is neither live nor tombstoned'') (Inr ())))"

definition check_structure ::
  "(uuid, page_kind) table \<Rightarrow> (uuid, snapshot_page) table \<Rightarrow> (uuid, snapshot_block) table \<Rightarrow>
   (uuid, snapshot_tombstone) table \<Rightarrow> snapshot_block_structure \<Rightarrow> (uuid, snapshot_block_structure) table \<Rightarrow>
     core_error + (uuid, snapshot_block_structure) table" where
  "check_structure ids ps bs ts x seen =
     guard (get ids (ns_page x) \<noteq> Some Handwriting) (bad ''Cannot move text blocks into a handwritten note'')
     (guard (\<not> has seen (ns_block x)) (bad ''snapshot contains duplicate structure intent'')
     (case get bs (ns_block x) of
        None \<Rightarrow> Inl (bad ''snapshot structure references missing block'')
      | Some b \<Rightarrow>
          guard (ns_page x = nb_page b \<and> has ps (ns_page x)) (bad ''snapshot structure and block disagree on their page'')
          (guard (nb_structure_hlc b = Some (ns_hlc x) \<and> nb_order b = ns_order x)
             (bad ''snapshot block does not match its raw structure intent'')
          (attempt (check_raw_parent bs ts x) (\<lambda>_. Inr (put (ns_block x) x seen))))))"

definition check_attachment ::
  "(uuid, snapshot_page) table \<Rightarrow> (uuid, snapshot_block) table \<Rightarrow> (uuid, snapshot_tombstone) table \<Rightarrow>
   snapshot_attachment \<Rightarrow> (attachment_owner \<times> blob_hash, unit) table \<times> (uuid, unit) table \<Rightarrow>
     core_error + ((attachment_owner \<times> blob_hash, unit) table \<times> (uuid, unit) table)" where
  "check_attachment ps bs ts x acc =
     (case acc of (seen, uuids) \<Rightarrow>
        guard (\<not> (has seen (sa_owner x, sa_blob_hash x) \<or> has uuids (sa_uuid x)))
          (bad ''snapshot contains duplicate attachment identity'')
        (guard (case sa_owner x of
                  PageOwner u \<Rightarrow> has ps u \<or> (case get ts u of None \<Rightarrow> False | Some t \<Rightarrow> nt_kind t = PageObject)
                | BlockOwner u \<Rightarrow> has bs u \<or> (case get ts u of None \<Rightarrow> False | Some t \<Rightarrow> nt_kind t = BlockObject))
          (bad ''snapshot attachment owner is neither live nor tombstoned'')
          (Inr (put (sa_owner x, sa_blob_hash x) () seen, put (sa_uuid x) () uuids))))"

definition validate_snapshot :: "externals \<Rightarrow> sync_snapshot \<Rightarrow> core_error + unit" where
  "validate_snapshot ext s =
     guard (sn_workspace s \<noteq> 0) (bad ''snapshot workspace UUID cannot be nil'')
     (attempt (fold_res (check_identity ext (sn_workspace s)) (sn_identities s) (tempty, tempty)) (\<lambda>(ids, _).
      attempt (fold_res (check_version ids) (sn_ink_versions s) tempty) (\<lambda>_.
      attempt (fold_res (check_page ids) (sn_pages s) tempty) (\<lambda>ps.
      attempt (fold_res (check_alias ids) (sn_aliases s) tempty) (\<lambda>_.
      attempt (fold_res (check_block ids ps) (sn_blocks s) tempty) (\<lambda>bs.
      attempt (fold_res (check_tombstone ids ps bs) (sn_tombstones s) tempty) (\<lambda>ts.
      attempt (fold_res (\<lambda>x _. check_parent bs x) (map snd (rows bs)) ()) (\<lambda>_.
      attempt (fold_res (check_structure ids ps bs ts) (sn_structures s) tempty) (\<lambda>ss.
      guard (list_all (\<lambda>(u, _). has ss u) (rows bs)) (bad ''snapshot block has no raw structure intent'')
     (attempt (fold_res (check_attachment ps bs ts) (sn_attachments s) (tempty, tempty)) (\<lambda>_.
      Inr ())))))))))))"

section \<open>Preparation\<close>

datatype import_guard = Replace | RequireEmpty

definition prepare_attachment :: "externals \<Rightarrow> snapshot_attachment \<Rightarrow> core_error + unit" where
  "prepare_attachment ext x =
     guard (sa_uuid x = attachment_uuid ext (sa_owner x) (sa_blob_hash x))
       (bad ''attachment UUID does not match its owner and hash'')
     (if \<not> sa_present x then Inr ()
      else case sa_filename x of
        None \<Rightarrow> Inl (bad ''present attachment is missing its filename'')
      | Some filename \<Rightarrow>
          attempt (validate_attachment_filename filename) (\<lambda>_.
          guard (case sa_mime x of None \<Rightarrow> False | Some m \<Rightarrow> trim m \<noteq> [])
            (bad ''present attachment is missing its MIME type'')
          (guard (case sa_size x of None \<Rightarrow> False | Some n \<Rightarrow> uint n \<le> i64_max)
            (bad ''present attachment has an invalid size'') (Inr ()))))"

definition prepare_snapshot :: "externals \<Rightarrow> sync_snapshot \<Rightarrow> core_error + unit" where
  "prepare_snapshot ext s =
     guard (\<not> ((sn_format s \<noteq> 6 \<and> sn_format s \<noteq> format_version) \<or>
               (sn_format s = 6 \<and> (sn_ink_versions s \<noteq> [] \<or> list_ex (\<lambda>x. ni_kind x = Handwriting) (sn_identities s)))))
       (bad ''unsupported snapshot format version'')
     (attempt (validate_server_sequence (sn_seq s)) (\<lambda>_.
      attempt (validate_snapshot ext s) (\<lambda>_.
      attempt (fold_res (\<lambda>x _. validate_title (np_title x)) (sn_pages s) ()) (\<lambda>_.
      guard (list_all (\<lambda>x. ns_parent x \<noteq> Some (ns_block x)) (sn_structures s)) (bad ''a block cannot be its own parent'')
        (fold_res (\<lambda>x _. prepare_attachment ext x) (sn_attachments s) ())))))"

section \<open>Installation\<close>

text \<open>
  The local tables outside \<open>db\<close> that an installation reads or empties: the two history stacks
  and the receipts of imports from other applications, as their row counts.
\<close>

record local_rows =
  undo_rows :: nat
  redo_rows :: nat
  receipt_rows :: nat

definition replica_is_empty :: "local_rows \<Rightarrow> db \<Rightarrow> bool" where
  "replica_is_empty side d \<longleftrightarrow>
     rows (pages d) = [] \<and> rows (identities d) = [] \<and> rows (aliases d) = [] \<and> rows (blocks d) = [] \<and>
     rows (intents d) = [] \<and> rows (tombstones d) = [] \<and> rows (attachment_lww d) = [] \<and>
     rows (attachments d) = [] \<and> rows (ink_documents (ink d)) = [] \<and> rows (ink_versions (ink d)) = [] \<and>
     rows (applied_ops d) = [] \<and> outbox d = [] \<and> undo_rows side = 0 \<and> redo_rows side = 0 \<and> receipt_rows side = 0"

definition require_empty_replica :: "local_rows \<Rightarrow> db \<Rightarrow> core_error + unit" where
  "require_empty_replica side d =
     guard (replica_is_empty side d)
       (Conflict ''local workspace changed before the sync bootstrap snapshot could be imported'') (Inr ())"

definition has_source_state :: "db \<Rightarrow> bool" where
  "has_source_state d \<longleftrightarrow> rows (pages d) \<noteq> [] \<or> rows (tombstones d) \<noteq> [] \<or> rows (identities d) \<noteq> []"

definition active_ink :: "db \<Rightarrow> uuid list" where
  "active_ink d =
     map fst (filter (\<lambda>(p, r). has (pages d) p \<and> (d_dirty r \<or> d_editing r \<or> d_publication_requested r))
                (rows (ink_documents (ink d))))"

definition stored_ink :: "ink_tables \<Rightarrow> uuid list" where
  "stored_ink t = keys (ink_documents t) @ map (\<lambda>(_, r). v_page r) (rows (ink_versions t))"

text \<open>The \<open>DELETE\<close> batch, with the cascades of the schema.\<close>

definition clear_replica :: "db \<Rightarrow> db" where
  "clear_replica d =
     d\<lparr>page_links := tempty, block_refs := tempty, attachments := tempty, blocks := tempty, pages := tempty,
       journal_pages := tempty,
       identities := filt (\<lambda>p _. p \<in> set (stored_ink (ink d))) (identities d),
       aliases := tempty, intents := tempty, attachment_lww := tempty, tombstones := tempty,
       applied_ops := tempty, outbox := [],
       ink := (ink d)\<lparr>ink_outbox_roots := tempty\<rparr>\<rparr>"

definition insert_page :: "externals \<Rightarrow> snapshot_page \<Rightarrow> db \<Rightarrow> core_error + db" where
  "insert_page ext x d =
     (let normalized = map_option (normalize_title ext) (np_title x) in
      guard (\<not> has (pages d) (np_uuid x) \<and> \<not> has (blocks d) (np_uuid x) \<and> has (identities d) (np_uuid x) \<and>
             \<not> (normalized \<noteq> None \<and> list_ex (\<lambda>(_, r). p_normalized r = normalized) (rows (pages d)))) Database
        (materialize_page_kind (np_uuid x) (np_kind x)
          (d\<lparr>pages := put (np_uuid x)
              \<lparr>p_title = np_title x, p_normalized = normalized,
               p_title_stemmed = (case np_title x of None \<Rightarrow> [] | Some t \<Rightarrow> stem ext t), p_layout = np_layout x,
               p_title_hlc = np_title_hlc x, p_layout_hlc = np_layout_hlc x, p_existence = np_existence x,
               p_created = np_created x, p_updated = np_updated x\<rparr> (pages d)\<rparr>)))"

definition insert_alias :: "snapshot_page_alias \<Rightarrow> db \<Rightarrow> core_error + db" where
  "insert_alias x d =
     guard (\<not> has (aliases d) (na_page x, na_alias x) \<and> na_alias x \<noteq> []) Database
       (Inr (d\<lparr>aliases := put (na_page x, na_alias x) \<lparr>al_hlc = na_hlc x, al_present = na_present x\<rparr> (aliases d)\<rparr>))"

definition insert_block :: "externals \<Rightarrow> snapshot_block \<Rightarrow> db \<Rightarrow> core_error + db" where
  "insert_block ext x d =
     guard (\<not> has (blocks d) (nb_uuid x) \<and> \<not> has (pages d) (nb_uuid x) \<and> \<not> has (identities d) (nb_uuid x) \<and>
            has (pages d) (nb_page x)) Database
       (Inr (d\<lparr>blocks := put (nb_uuid x)
          \<lparr>b_page = nb_page x, b_parent = None, b_order = nb_order x, b_style = nb_style x, b_markdown = nb_markdown x,
           b_stemmed = stem ext (nb_markdown x), b_markdown_hlc = nb_markdown_hlc x, b_style_hlc = nb_style_hlc x,
           b_structure_hlc = nb_structure_hlc x, b_existence = nb_existence x, b_created = nb_created x,
           b_updated = nb_updated x\<rparr> (blocks d)\<rparr>))"

definition insert_structure :: "snapshot_block_structure \<Rightarrow> db \<Rightarrow> core_error + db" where
  "insert_structure x d =
     guard (\<not> has (intents d) (ns_block x)) Database
       (Inr (d\<lparr>intents := put (ns_block x)
          \<lparr>i_page = ns_page x, i_parent = ns_parent x, i_order = ns_order x, i_hlc = ns_hlc x\<rparr> (intents d)\<rparr>))"

definition insert_tombstone :: "snapshot_tombstone \<Rightarrow> db \<Rightarrow> core_error + db" where
  "insert_tombstone x d =
     guard (\<not> has (tombstones d) (nt_uuid x)) Database
       (Inr (d\<lparr>tombstones := put (nt_uuid x)
          \<lparr>t_kind = nt_kind x, t_hlc = nt_hlc x, t_root = nt_root x\<rparr> (tombstones d)\<rparr>))"

text \<open>\<open>SELECT uuid, markdown, COALESCE(markdown_hlc, existence_hlc) FROM blocks\<close>.\<close>

definition rescan_refs :: "externals \<Rightarrow> db \<Rightarrow> db" where
  "rescan_refs ext d =
     fold (\<lambda>(u, r). replace_block_refs ext u (b_markdown r)
             (timestamp_seconds (case b_markdown_hlc r of None \<Rightarrow> b_existence r | Some t \<Rightarrow> t))) (rows (blocks d)) d"

definition some_list :: "'a option \<Rightarrow> 'a list" where
  "some_list x = (case x of None \<Rightarrow> [] | Some a \<Rightarrow> [a])"

definition persisted_hlcs :: "db \<Rightarrow> hlc list" where
  "persisted_hlcs d =
     concat (map (\<lambda>(_, r). some_list (p_title_hlc r) @ some_list (p_layout_hlc r) @ [p_existence r]) (rows (pages d))) @
     concat (map (\<lambda>(_, r). some_list (b_markdown_hlc r) @ some_list (b_style_hlc r) @ some_list (b_structure_hlc r) @
                           [b_existence r]) (rows (blocks d))) @
     map (\<lambda>(_, r). t_hlc r) (rows (tombstones d)) @ map (\<lambda>(_, r). al_hlc r) (rows (aliases d)) @
     map (\<lambda>(_, i). i_hlc i) (rows (intents d)) @ map (\<lambda>(_, w). w_hlc w) (rows (attachment_lww d))"

definition observe_max_persisted_hlc :: "env \<Rightarrow> db \<Rightarrow> db" where
  "observe_max_persisted_hlc env d =
     (case persisted_hlcs d of [] \<Rightarrow> d | x # xs \<Rightarrow> observe_hlc env (fold max xs x) d)"

text \<open>The inserts, and the projections from them.\<close>

definition install_rows :: "externals \<Rightarrow> sync_snapshot \<Rightarrow> db \<Rightarrow> core_error + db" where
  "install_rows ext s d =
     attempt (fold_res (\<lambda>x. ensure_page_identity ext (ni_uuid x) (ni_kind x)) (sn_identities s) d) (\<lambda>d.
     attempt (fold_res (apply_version ext) (sn_ink_versions s) d) (\<lambda>d.
     attempt (fold_res (insert_page ext) (sn_pages s) d) (\<lambda>d.
     attempt (fold_res insert_alias (sn_aliases s) d) (\<lambda>d.
     attempt (fold_res (insert_block ext) (sn_blocks s) d) (\<lambda>d.
     attempt (fold_res insert_structure (sn_structures s) d) (\<lambda>d.
     attempt (fold_res insert_tombstone (sn_tombstones s) d) (\<lambda>d.
     Inr (fold write_attachment_intent (sn_attachments s) d))))))))"

definition install_projections :: "externals \<Rightarrow> env \<Rightarrow> 64 word \<Rightarrow> db \<Rightarrow> core_error + db" where
  "install_projections ext env seq d =
     attempt (reconcile_all_attachments (rescan_refs ext (reconcile_structure Full tempty d))) (\<lambda>d.
     let d = observe_max_persisted_hlc env d;
         d = d\<lparr>last_server_seq := Some seq\<rparr>
     in Inr (d\<lparr>ink := collect_ink ((ink d)\<lparr>history_ink_roots := tempty\<rparr>)\<rparr>))"

definition apply_snapshot ::
  "externals \<Rightarrow> env \<Rightarrow> import_guard \<Rightarrow> sync_snapshot \<Rightarrow> local_rows \<Rightarrow> db \<Rightarrow> core_error + (local_rows \<times> db)" where
  "apply_snapshot ext env g s side d =
     attempt (if g = RequireEmpty then require_empty_replica side d else Inr ()) (\<lambda>_.
     let other = workspace d \<noteq> sn_workspace s in
     guard (\<not> (other \<and> has_source_state d)) (Conflict ''snapshot belongs to a different non-empty workspace'')
     (let incoming = map np_uuid (sn_pages s) in
      guard (\<not> list_ex (\<lambda>p. p \<notin> set incoming) (active_ink d))
        (Conflict ''Snapshot would remove an open or unpublished handwritten note'')
      (let retained = map ni_uuid (sn_identities s) @ incoming;
           gone = filter (\<lambda>p. p \<notin> set retained) (remdups (stored_ink (ink d)));
           d = clear_replica (d\<lparr>ink := fold purge_page gone (ink d)\<rparr>);
           side = \<lparr>undo_rows = 0, redo_rows = 0, receipt_rows = (if other then 0 else receipt_rows side)\<rparr>
       in attempt (install_rows ext s (d\<lparr>workspace := sn_workspace s\<rparr>)) (\<lambda>d.
          attempt (install_projections ext env (sn_seq s) d) (\<lambda>d.
          Inr (side, d))))))"

definition import_sync_snapshot ::
  "externals \<Rightarrow> env \<Rightarrow> import_guard \<Rightarrow> sync_snapshot \<Rightarrow> local_rows \<Rightarrow> db \<Rightarrow> core_error + (local_rows \<times> db)" where
  "import_sync_snapshot ext env g s side d =
     attempt (prepare_snapshot ext s) (\<lambda>_. apply_snapshot ext env g s side d)"

definition project_sync_snapshot ::
  "externals \<Rightarrow> env \<Rightarrow> db \<Rightarrow> sync_snapshot \<Rightarrow> op list \<Rightarrow> core_error + sync_snapshot" where
  "project_sync_snapshot ext env fresh s ops =
     attempt (import_sync_snapshot ext env Replace s \<lparr>undo_rows = 0, redo_rows = 0, receipt_rows = 0\<rparr> fresh) (\<lambda>(_, d).
     attempt (apply_batch ext env ops Remote Full d) (\<lambda>(_, _, d).
     export_snapshot (sn_seq s) d))"

end
