(* ===== verification/Protocol.thy ===== *)
theory Protocol
  imports Snapshot
begin

text \<open>
  What host and server tell each other when an exchange fails: the codes of
  \<open>crates/notes-protocol/src/lib.rs\<close>, the server's refusals (\<open>ApiError\<close> in
  \<open>server/src/api.rs\<close>), and what the client reads back from them
  (\<open>crates/notes-sync/src/transport.rs\<close>).
\<close>

section \<open>Failures\<close>

datatype api_error_code =
    InvalidRequest | UnauthorizedCode | Forbidden | NotFoundCode | ConflictCode | PayloadTooLarge
  | FormatUnsupported | Unavailable | Internal

datatype server_error_code =
    CatchUpFailed | UnsupportedMessage | IngestFailed | BatchTooLarge | InvalidMessage
  | ResyncRequired | SocketConflict | InvalidOperation | QuotaExceeded

text \<open>\<open>StatusCode\<close> as its number.\<close>

datatype transport_error =
    Unauthorized
  | TransportConflict string
  | Http (http_status: "16 word") (http_code: "api_error_code option") (http_message: string)

text \<open>
  \<open>anyhow::Error\<close>: what the callers downcast to, or any other failure. A chain of contexts does
  not change what it downcasts to.
\<close>

datatype fault =
    Domain core_error
  | Transport transport_error
  | Failure string

definition is_terminal_rejection :: "server_error_code \<Rightarrow> bool" where
  "is_terminal_rejection code \<longleftrightarrow> code = SocketConflict \<or> code = InvalidOperation \<or> code = QuotaExceeded"

fun server_error_code_str :: "server_error_code \<Rightarrow> string" where
  "server_error_code_str CatchUpFailed = ''catch_up_failed''"
| "server_error_code_str UnsupportedMessage = ''unsupported_message''"
| "server_error_code_str IngestFailed = ''ingest_failed''"
| "server_error_code_str BatchTooLarge = ''batch_too_large''"
| "server_error_code_str InvalidMessage = ''invalid_message''"
| "server_error_code_str ResyncRequired = ''resync_required''"
| "server_error_code_str SocketConflict = ''conflict''"
| "server_error_code_str InvalidOperation = ''invalid_operation''"
| "server_error_code_str QuotaExceeded = ''quota_exceeded''"

section \<open>The client's reading of a failure\<close>

definition is_permanent :: "transport_error \<Rightarrow> bool" where
  "is_permanent error =
     (case error of
        Unauthorized \<Rightarrow> True
      | TransportConflict _ \<Rightarrow> True
      | Http status _ _ \<Rightarrow> \<not> (status = 408 \<or> status = 429 \<or> (500 \<le> status \<and> status \<le> 599)))"

definition transport_error_of :: "fault \<Rightarrow> transport_error option" where
  "transport_error_of f = (case f of Transport e \<Rightarrow> Some e | _ \<Rightarrow> None)"

definition terminal_rejection :: "fault \<Rightarrow> string option" where
  "terminal_rejection f =
     (case transport_error_of f of
        None \<Rightarrow> None
      | Some (TransportConflict message) \<Rightarrow> Some message
      | Some (Http status _ message) \<Rightarrow>
          if status = 400 \<or> status = 413 \<or> status = 422 then Some message else None
      | Some Unauthorized \<Rightarrow> None)"

text \<open>
  A refusal's body: the server's structured one, or text that is not, of which the first 500
  characters are kept.
\<close>

datatype response_body = Structured api_error_code string | Unstructured string

definition transport_error_from_response :: "16 word \<Rightarrow> response_body \<Rightarrow> transport_error" where
  "transport_error_from_response status body =
     (let code = (case body of Structured c _ \<Rightarrow> Some c | Unstructured _ \<Rightarrow> None);
          message = (case body of Structured _ m \<Rightarrow> m | Unstructured text \<Rightarrow> concat (take 500 (chars_of text)))
      in if status = 401 then Unauthorized
         else if status = 409 then TransportConflict message
         else Http status code message)"

section \<open>The server's refusals\<close>

record api_error =
  ae_status :: "16 word"
  ae_code :: api_error_code
  ae_message :: string

definition bad_request :: "string \<Rightarrow> api_error" where
  "bad_request m = \<lparr>ae_status = 400, ae_code = InvalidRequest, ae_message = m\<rparr>"

definition unauthorized :: api_error where
  "unauthorized = \<lparr>ae_status = 401, ae_code = UnauthorizedCode, ae_message = ''a valid bearer token is required''\<rparr>"

definition forbidden :: "string \<Rightarrow> api_error" where
  "forbidden m = \<lparr>ae_status = 403, ae_code = Forbidden, ae_message = m\<rparr>"

definition not_found :: "string \<Rightarrow> api_error" where
  "not_found m = \<lparr>ae_status = 404, ae_code = NotFoundCode, ae_message = m\<rparr>"

definition api_conflict :: "string \<Rightarrow> api_error" where
  "api_conflict m = \<lparr>ae_status = 409, ae_code = ConflictCode, ae_message = m\<rparr>"

definition format_unsupported :: "string \<Rightarrow> api_error" where
  "format_unsupported m = \<lparr>ae_status = 426, ae_code = FormatUnsupported, ae_message = m\<rparr>"

definition too_large :: "string \<Rightarrow> api_error" where
  "too_large m = \<lparr>ae_status = 413, ae_code = PayloadTooLarge, ae_message = m\<rparr>"

definition unavailable :: "string \<Rightarrow> api_error" where
  "unavailable m = \<lparr>ae_status = 503, ae_code = Unavailable, ae_message = m\<rparr>"

definition internal :: "fault \<Rightarrow> api_error" where
  "internal _ = \<lparr>ae_status = 500, ae_code = Internal, ae_message = ''the server could not complete the request''\<rparr>"

definition from_domain :: "fault \<Rightarrow> api_error" where
  "from_domain f =
     (case f of
        Domain (InvalidInput m) \<Rightarrow> bad_request m
      | Domain (NotFound m) \<Rightarrow> not_found m
      | Domain (Conflict m) \<Rightarrow> api_conflict m
      | Domain (SyncConflict m) \<Rightarrow> api_conflict m
      | Domain (SyncSequenceGap _ _) \<Rightarrow> api_conflict ''sync sequence gap''
      | _ \<Rightarrow> internal f)"

definition into_response :: "api_error \<Rightarrow> 16 word \<times> response_body" where
  "into_response e = (ae_status e, Structured (ae_code e) (ae_message e))"

text \<open>Carries the HTTP refusal's meaning onto the socket.\<close>

definition socket_rejection :: "api_error \<Rightarrow> server_error_code" where
  "socket_rejection e =
     (if ae_status e = 409 then SocketConflict
      else if ae_status e = 400 then InvalidOperation
      else if ae_status e = 413 then QuotaExceeded
      else IngestFailed)"

text \<open>
  The format gate. The header's text is trimmed and read as a decimal \<open>u32\<close>: an optional plus
  sign and at least one digit.
\<close>

definition parse_u32 :: "string \<Rightarrow> nat option" where
  "parse_u32 s =
     (let digits = (case s of c # cs \<Rightarrow> if c = CHR ''+'' then cs else s | [] \<Rightarrow> []) in
      if digits \<noteq> [] \<and> list_all (\<lambda>c. 48 \<le> byte c \<and> byte c \<le> 57) digits
      then let n = foldl (\<lambda>n c. 10 * n + (byte c - 48)) 0 digits in if n < 2 ^ 32 then Some n else None
      else None)"

definition require_supported_format :: "string option \<Rightarrow> api_error + unit" where
  "require_supported_format header =
     (case header of
        None \<Rightarrow> Inl (format_unsupported ''update the app to keep syncing'')
      | Some text \<Rightarrow>
          (case parse_u32 (trim text) of
             None \<Rightarrow> Inl (format_unsupported ''update the app to keep syncing'')
           | Some n \<Rightarrow>
               if unat format_version \<le> n then Inr ()
               else Inl (format_unsupported ''update the app to keep syncing'')))"

section \<open>The client's end\<close>

text \<open>What the client makes of a refusal that comes back over HTTP.\<close>

definition http_fault :: "api_error \<Rightarrow> fault" where
  "http_fault e = (case into_response e of (status, body) \<Rightarrow> Transport (transport_error_from_response status body))"

text \<open>The refusals that the server's code can make: the results of the constructors above.\<close>

inductive api_refusal :: "api_error \<Rightarrow> bool" where
  "api_refusal (bad_request m)"
| "api_refusal unauthorized"
| "api_refusal (forbidden m)"
| "api_refusal (not_found m)"
| "api_refusal (api_conflict m)"
| "api_refusal (format_unsupported m)"
| "api_refusal (too_large m)"
| "api_refusal (unavailable m)"
| "api_refusal (internal f)"

lemma from_domain_refusal: "api_refusal (from_domain f)"
  by (auto simp: from_domain_def intro: api_refusal.intros split: fault.split core_error.split)

text \<open>Of such a refusal the client reads the same over both channels.\<close>

lemma refusal_terminal:
  assumes "api_refusal e"
  shows "terminal_rejection (http_fault e) =
    (if is_terminal_rejection (socket_rejection e) then Some (ae_message e) else None)"
  using assms
  by cases (simp_all add: http_fault_def into_response_def transport_error_from_response_def terminal_rejection_def
      transport_error_of_def socket_rejection_def is_terminal_rejection_def bad_request_def unauthorized_def forbidden_def
      not_found_def api_conflict_def format_unsupported_def too_large_def unavailable_def internal_def)

end
