(* ===== verification/Oplog.thy ===== *)
theory Oplog
  imports Protocol
begin

text \<open>
  The server's side of one user: the append-only log of \<open>server/src/oplog.rs\<close> and the actor of
  \<open>server/src/state.rs\<close> that appends a batch to it, applies the batch to the user's replica and
  takes the append back when either fails.
\<close>

section \<open>The log\<close>

record seq_op =
  so_seq :: "64 word"
  so_envelope :: op

record oplog_row =
  ol_op_id :: uuid
  ol_envelope :: "op persisted_envelope"

type_synonym oplog = "(64 word, oplog_row) table"

record append_outcome =
  ao_operation :: seq_op
  ao_inserted :: bool

definition decode_envelope :: "op persisted_envelope \<Rightarrow> fault + op" where
  "decode_envelope e = (case decode_persisted_envelope e of Inl _ \<Rightarrow> Inl (Domain Database) | Inr x \<Rightarrow> Inr x)"

text \<open>\<open>SELECT COALESCE(MAX(seq), 0)\<close>.\<close>

definition latest_seq :: "oplog \<Rightarrow> 64 word" where
  "latest_seq t = (if rows t = [] then 0 else fst (last (rows t)))"

definition find_logged :: "uuid \<Rightarrow> oplog \<Rightarrow> (64 word \<times> oplog_row) option" where
  "find_logged u t = List.find (\<lambda>(_, r). ol_op_id r = u) (rows t)"

definition oplog_append :: "op \<Rightarrow> oplog \<Rightarrow> fault + (append_outcome \<times> oplog)" where
  "oplog_append x t =
     (case find_logged (op_id x) t of
        Some (seq, r) \<Rightarrow>
          attempt (decode_envelope (ol_envelope r)) (\<lambda>existing.
          guard (existing = x) (Domain (SyncConflict ''operation id was reused with a different payload''))
            (Inr (\<lparr>ao_operation = \<lparr>so_seq = seq, so_envelope = existing\<rparr>, ao_inserted = False\<rparr>, t)))
      | None \<Rightarrow>
          let seq = latest_seq t + 1 in
          guard (uint (latest_seq t) < i64_max) (Domain Database)
            (Inr (\<lparr>ao_operation = \<lparr>so_seq = seq, so_envelope = x\<rparr>, ao_inserted = True\<rparr>,
                  put seq \<lparr>ol_op_id = op_id x, ol_envelope = encode_persisted_envelope x\<rparr> t)))"

definition remove_tail :: "seq_op \<Rightarrow> oplog \<Rightarrow> fault + oplog" where
  "remove_tail x t =
     guard (uint (so_seq x) \<le> i64_max) (Failure ''oplog sequence exceeds SQLite integer'')
     (guard (latest_seq t = so_seq x) (Domain Database)
       (Inr (filt (\<lambda>k r. \<not> (k = so_seq x \<and> ol_op_id r = op_id (so_envelope x))) t)))"

definition oplog_since :: "64 word \<Rightarrow> nat \<Rightarrow> oplog \<Rightarrow> fault + seq_op list" where
  "oplog_since since limit t =
     guard (uint since \<le> i64_max) (Failure ''oplog cursor exceeds SQLite integer'')
     (guard (int limit \<le> i64_max) (Failure ''oplog limit exceeds SQLite integer'')
       (map_res (\<lambda>(seq, r). attempt (decode_envelope (ol_envelope r)) (\<lambda>x. Inr \<lparr>so_seq = seq, so_envelope = x\<rparr>))
         (take limit (filter (\<lambda>(seq, _). since < seq) (rows t)))))"

definition assert_gapless :: "oplog \<Rightarrow> fault + unit" where
  "assert_gapless t =
     guard (int (length (rows t)) = uint (latest_seq t)) (Failure ''oplog contains a sequence gap'') (Inr ())"

section \<open>The user's actor\<close>

text \<open>
  The replica, the log, the snapshot files by sequence, and what was broadcast to the connected
  sockets.
\<close>

record user_state =
  us_notes :: db
  us_oplog :: oplog
  us_files :: "(64 word, sync_snapshot) table"
  us_sent :: "seq_op list"

text \<open>The loop over a batch: the outcomes so far, and the first error.\<close>

fun append_all :: "op list \<Rightarrow> append_outcome list \<Rightarrow> oplog \<Rightarrow> fault option \<times> append_outcome list \<times> oplog" where
  "append_all [] appends t = (None, appends, t)"
| "append_all (x # xs) appends t =
     (case oplog_append x t of
        Inl e \<Rightarrow> (Some e, appends, t)
      | Inr (a, t) \<Rightarrow> append_all xs (appends @ [a]) t)"

text \<open>The rollback; an error of it leaves the rest of the tail in the log.\<close>

fun remove_all :: "append_outcome list \<Rightarrow> oplog \<Rightarrow> fault option \<times> oplog" where
  "remove_all [] t = (None, t)"
| "remove_all (a # as) t =
     (case remove_tail (ao_operation a) t of
        Inl e \<Rightarrow> (Some e, t)
      | Inr t \<Rightarrow> remove_all as t)"

definition roll_back :: "append_outcome list \<Rightarrow> oplog \<Rightarrow> fault option \<times> oplog" where
  "roll_back appends t = remove_all (rev (filter ao_inserted appends)) t"

definition lift_core :: "core_error + 'a \<Rightarrow> fault + 'a" where
  "lift_core r = (case r of Inl e \<Rightarrow> Inl (Domain e) | Inr x \<Rightarrow> Inr x)"

text \<open>
  Serializing the snapshot, writing it to a temporary file and renaming that can each fail; then
  there is no file of that sequence, and the caller gets the error.
\<close>

definition write_snapshot_at :: "env \<Rightarrow> 64 word \<Rightarrow> user_state \<Rightarrow> fault + (sync_snapshot \<times> user_state)" where
  "write_snapshot_at env seq s =
     attempt (lift_core (export_snapshot seq (us_notes s))) (\<lambda>snap.
     guard (file_written env seq) (Failure ''writing snapshot file'')
       (Inr (snap, s\<lparr>us_files := put seq snap (us_files s)\<rparr>)))"

definition write_current_snapshot :: "env \<Rightarrow> user_state \<Rightarrow> fault + (sync_snapshot \<times> user_state)" where
  "write_current_snapshot env s = write_snapshot_at env (latest_seq (us_oplog s)) s"

text \<open>The loop over the outcomes of an applied batch.\<close>

fun publish_appends :: "env \<Rightarrow> 64 word \<Rightarrow> append_outcome list \<Rightarrow> seq_op list \<Rightarrow> user_state \<Rightarrow> (fault + seq_op list) \<times> user_state" where
  "publish_appends env every [] accepted s = (Inr accepted, s)"
| "publish_appends env every (a # as) accepted s =
     (let x = ao_operation a;
          s = (if ao_inserted a then s\<lparr>us_sent := us_sent s @ [x]\<rparr> else s)
      in if ao_inserted a \<and> every > 0 \<and> so_seq x mod every = 0
         then case write_snapshot_at env (so_seq x) s of
                Inl e \<Rightarrow> (Inl e, s)
              | Inr (_, s) \<Rightarrow> publish_appends env every as (accepted @ [x]) s
         else publish_appends env every as (accepted @ [x]) s)"

definition ingest_operations ::
  "externals \<Rightarrow> env \<Rightarrow> 64 word \<Rightarrow> op list \<Rightarrow> user_state \<Rightarrow> (fault + seq_op list) \<times> user_state" where
  "ingest_operations ext env every ops s =
     (if 256 < length ops then (Inl (Failure ''a sync batch cannot contain more than 256 operations''), s)
      else case append_all ops [] (us_oplog s) of
        (Some e, appends, t) \<Rightarrow>
          (case roll_back appends t of (failed, t) \<Rightarrow>
             (Inl (case failed of None \<Rightarrow> e | Some f \<Rightarrow> f), s\<lparr>us_oplog := t\<rparr>))
      | (None, appends, t) \<Rightarrow>
          let sequenced = map (\<lambda>a. (so_seq (ao_operation a), so_envelope (ao_operation a))) appends in
          (case apply_sequenced_batch ext env sequenced Components (us_notes s) of
             Inl e \<Rightarrow>
               (case roll_back appends t of (failed, t) \<Rightarrow>
                  (Inl (case failed of None \<Rightarrow> Domain e | Some f \<Rightarrow> f), s\<lparr>us_oplog := t\<rparr>))
           | Inr (_, _, d) \<Rightarrow> publish_appends env every appends [] (s\<lparr>us_oplog := t, us_notes := d\<rparr>)))"

definition replay_batch_size :: nat where
  "replay_batch_size = 1000"

text \<open>
  \<open>replay_oplog\<close>: the replica is brought up to the log after a restart. The environment of each
  transaction comes from the number of the round.
\<close>

definition rows_after :: "64 word \<Rightarrow> oplog \<Rightarrow> nat" where
  "rows_after cursor t = length (filter (\<lambda>(seq, _). cursor < seq) (rows t))"

lemma map_res_length: "map_res f xs = Inr ys \<Longrightarrow> length ys = length xs"
  by (induction xs arbitrary: ys) (auto simp: res)

lemma map_res_mem: "map_res f xs = Inr ys \<Longrightarrow> y \<in> set ys \<Longrightarrow> \<exists>x \<in> set xs. f x = Inr y"
  by (induction xs arbitrary: ys) (auto simp: res)

lemma oplog_since_mem:
  assumes "oplog_since cursor n t = Inr ops" "y \<in> set ops"
  shows "\<exists>r. (so_seq y, r) \<in> set (rows t) \<and> cursor < so_seq y"
proof -
  from assms(1) have "map_res (\<lambda>(seq, r). attempt (decode_envelope (ol_envelope r)) (\<lambda>x. Inr \<lparr>so_seq = seq, so_envelope = x\<rparr>))
      (take n (filter (\<lambda>(seq, _). cursor < seq) (rows t))) = Inr ops"
    by (simp add: oplog_since_def guard_Inr)
  from map_res_mem [OF this assms(2)] obtain k r where "(k, r) \<in> set (take n (filter (\<lambda>(seq, _). cursor < seq) (rows t)))"
      "attempt (decode_envelope (ol_envelope r)) (\<lambda>x. Inr \<lparr>so_seq = k, so_envelope = x\<rparr>) = Inr y"
    by auto
  then show ?thesis by (auto simp: res dest!: in_set_takeD)
qed

lemma rows_after_less:
  assumes "(k, r) \<in> set (rows t)" "cursor < k"
  shows "rows_after k t < rows_after cursor t"
proof -
  have "filter (\<lambda>(seq, _). k < seq) (rows t) = filter (\<lambda>(seq, _). k < seq) (filter (\<lambda>(seq, _). cursor < seq) (rows t))"
    using assms(2) by (auto intro: filter_cong)
  moreover have "length (filter (\<lambda>(seq, _). k < seq) (filter (\<lambda>(seq, _). cursor < seq) (rows t))) <
      length (filter (\<lambda>(seq, _). cursor < seq) (rows t))"
    by (rule length_filter_less [of "(k, r)"]) (use assms in auto)
  ultimately show ?thesis unfolding rows_after_def by metis
qed

function replay_oplog :: "externals \<Rightarrow> (nat \<Rightarrow> env) \<Rightarrow> nat \<Rightarrow> oplog \<Rightarrow> 64 word \<Rightarrow> db \<Rightarrow> fault option \<times> db" where
  "replay_oplog ext envs n t cursor d =
     (case oplog_since cursor replay_batch_size t of
        Inl e \<Rightarrow> (Some e, d)
      | Inr ops \<Rightarrow>
          if ops = [] then (None, d)
          else
            let cursor = so_seq (last ops) in
            (case apply_sequenced_batch ext (envs n) (map (\<lambda>x. (so_seq x, so_envelope x)) ops) Components d of
               Inl e \<Rightarrow> (Some (Domain e), d)
             | Inr (_, _, d) \<Rightarrow> replay_oplog ext envs (Suc n) t cursor d))"
  by pat_completeness auto

termination replay_oplog
  by (relation "measure (\<lambda>(ext, envs, n, t, cursor, d). rows_after cursor t)")
    (auto dest!: oplog_since_mem [where y = "last _"] intro: rows_after_less)

text \<open>
  \<open>publish_authored_ops\<close> runs until a batch is not full; \<open>None\<close> would be a loop that never returns.
\<close>

definition outbox_batch_size :: nat where
  "outbox_batch_size = 256"

partial_function (option) publish_authored_ops ::
  "externals \<Rightarrow> (nat \<Rightarrow> env) \<Rightarrow> 64 word \<Rightarrow> nat \<Rightarrow> user_state \<Rightarrow> (fault option \<times> user_state) option" where
  "publish_authored_ops ext envs every n s =
     (case read_pending_outbox outbox_batch_size (us_notes s) of
        Inl e \<Rightarrow> Some (Some (Domain e), s)
      | Inr ops \<Rightarrow>
          if ops = [] then Some (None, s)
          else
            (case ingest_operations ext (envs n) every ops s of
               (Inl e, s) \<Rightarrow> Some (Some e, s)
             | (Inr _, s) \<Rightarrow>
                 if length ops = outbox_batch_size then publish_authored_ops ext envs every (Suc n) s
                 else Some (None, s)))"

text \<open>\<open>UserState::write\<close>: a mutation of the replica, then the publication of what it authored.\<close>

definition user_write ::
  "externals \<Rightarrow> (nat \<Rightarrow> env) \<Rightarrow> 64 word \<Rightarrow> (db \<Rightarrow> (fault + 'a) \<times> db) \<Rightarrow> user_state \<Rightarrow> ((fault + 'a) \<times> user_state) option" where
  "user_write ext envs every mutate s =
     (case mutate (us_notes s) of
        (mutated, d) \<Rightarrow>
          map_option (\<lambda>(failed, s). (case (mutated, failed) of
              (Inr v, None) \<Rightarrow> Inr v
            | (Inr _, Some e) \<Rightarrow> Inl e
            | (Inl e, _) \<Rightarrow> Inl e, s))
            (publish_authored_ops ext envs every 0 (s\<lparr>us_notes := d\<rparr>)))"

definition snapshot_is_empty :: "sync_snapshot \<Rightarrow> bool" where
  "snapshot_is_empty s \<longleftrightarrow>
     sn_identities s = [] \<and> sn_pages s = [] \<and> sn_blocks s = [] \<and> sn_tombstones s = [] \<and> sn_attachments s = []"

definition bootstrap_replica ::
  "externals \<Rightarrow> env \<Rightarrow> sync_snapshot \<Rightarrow> local_rows \<Rightarrow> user_state \<Rightarrow> (fault + sync_snapshot) \<times> user_state" where
  "bootstrap_replica ext env snap side s =
     (let fail = (\<lambda>e. (Inl e, s)) in
      if sn_seq snap \<noteq> 0 then fail (Failure ''bootstrap snapshot sequence must be zero'')
      else if snapshot_is_empty snap
      then fail (Domain (Conflict ''an empty client cannot replace the server workspace identity''))
      else if latest_seq (us_oplog s) \<noteq> 0 then fail (Domain (Conflict ''server workspace has already been initialized''))
      else case export_snapshot 0 (us_notes s) of
        Inl e \<Rightarrow> fail (Domain e)
      | Inr current \<Rightarrow>
          if \<not> snapshot_is_empty current then fail (Domain (Conflict ''server workspace has already been initialized''))
          else case import_sync_snapshot ext env Replace snap side (us_notes s) of
            Inl e \<Rightarrow> fail (Domain e)
          | Inr (_, d) \<Rightarrow>
              (case write_snapshot_at env 0 (s\<lparr>us_notes := d\<rparr>) of
                 Inl e \<Rightarrow> (Inl e, s\<lparr>us_notes := d\<rparr>)
               | Inr (written, s) \<Rightarrow> (Inr written, s)))"

text \<open>\<open>audit_unpublished_ops\<close>: applied, without a sequence, and not queued.\<close>

definition unpublished_ops :: "db \<Rightarrow> nat" where
  "unpublished_ops d =
     length (filter (\<lambda>(u, seq). seq = None \<and> u \<notin> o_op_id ` set (outbox d)) (rows (applied_ops d)))"

definition open_user_state :: "externals \<Rightarrow> (nat \<Rightarrow> env) \<Rightarrow> db \<Rightarrow> oplog \<Rightarrow> fault + db" where
  "open_user_state ext envs notes t =
     attempt (assert_gapless t) (\<lambda>_.
     let d = snd (set_replica_role Server notes) in
     case replay_oplog ext envs 0 t (read_sync_cursor d) d of
       (Some e, _) \<Rightarrow> Inl e
     | (None, d) \<Rightarrow> Inr d)"

end
