(* ===== verification/SyncMachine.thy ===== *)
theory SyncMachine
  imports Oplog
begin

text \<open>
  The client's side of an exchange (\<open>crates/notes-sync/src/machine.rs\<close>): the passes of
  \<open>SyncClient\<close> over any transport, the in-memory server, and the HTTP endpoints of
  \<open>server/src/api.rs\<close> as a transport. A pass mutates the client's database one transaction at a
  time, so its result carries the database also when it fails.
\<close>

section \<open>Transports\<close>

text \<open>\<open>SyncTransport\<close>, over the state \<open>'s\<close> of whatever is at the other end.\<close>

record 's transport =
  tr_ops_since :: "64 word \<Rightarrow> nat \<Rightarrow> 's \<Rightarrow> (fault + seq_op list) \<times> 's"
  tr_push :: "op list \<Rightarrow> 's \<Rightarrow> (fault + seq_op list) \<times> 's"
  tr_prepare_push :: "op list \<Rightarrow> 's \<Rightarrow> fault option \<times> 's"
  tr_prepare_pull :: "seq_op list \<Rightarrow> 's \<Rightarrow> fault option \<times> 's"

text \<open>The default hooks.\<close>

definition no_preparation :: "'a \<Rightarrow> 's \<Rightarrow> fault option \<times> 's" where
  "no_preparation _ s = (None, s)"

section \<open>The in-memory server\<close>

record loopback =
  lb_workspace :: "uuid option"
  lb_log :: "seq_op list"
  lb_by_op_id :: "(uuid, 64 word) table"

definition loopback_new :: loopback where
  "loopback_new = \<lparr>lb_workspace = None, lb_log = [], lb_by_op_id = tempty\<rparr>"

definition from_log_step :: "seq_op \<Rightarrow> loopback \<Rightarrow> fault + loopback" where
  "from_log_step item s =
     guard (so_seq item = of_nat (length (lb_log s)) + 1) (Failure ''loopback oplog has a gap'')
     (guard (\<not> has (lb_by_op_id s) (op_id (so_envelope item))) (Failure ''loopback oplog contains a duplicate op_id'')
     (guard (case lb_workspace s of None \<Rightarrow> True | Some w \<Rightarrow> w = op_workspace (so_envelope item))
        (Failure ''loopback oplog contains operations from multiple workspaces'')
        (Inr \<lparr>lb_workspace = Some (op_workspace (so_envelope item)), lb_log = lb_log s @ [item],
              lb_by_op_id = put (op_id (so_envelope item)) (so_seq item) (lb_by_op_id s)\<rparr>)))"

definition from_log :: "seq_op list \<Rightarrow> fault + loopback" where
  "from_log log = fold_res from_log_step log loopback_new"

text \<open>
  One envelope. A \<open>Vec\<close> holds at most \<open>isize::MAX\<close> bytes: pushing to a full one panics before the
  length leaves the range of the sequences.
\<close>

definition loopback_ingest_one :: "op \<Rightarrow> loopback \<Rightarrow> (fault + seq_op) \<times> loopback" where
  "loopback_ingest_one x s =
     (if (case lb_workspace s of None \<Rightarrow> False | Some w \<Rightarrow> w \<noteq> op_workspace x)
      then (Inl (Failure ''operation belongs to another workspace''), s)
      else
        let s = s\<lparr>lb_workspace := Some (op_workspace x)\<rparr> in
        case get (lb_by_op_id s) (op_id x) of
          Some seq \<Rightarrow> (Inr (lb_log s ! (unat seq - 1)), s)
        | None \<Rightarrow>
            if int (length (lb_log s)) < i64_max
            then let seq = of_nat (length (lb_log s)) + 1; item = \<lparr>so_seq = seq, so_envelope = x\<rparr>
                 in (Inr item, s\<lparr>lb_by_op_id := put (op_id x) seq (lb_by_op_id s), lb_log := lb_log s @ [item]\<rparr>)
            else (Inl (Failure ''capacity overflow''), s))"

fun loopback_ingest :: "op list \<Rightarrow> loopback \<Rightarrow> (fault + seq_op list) \<times> loopback" where
  "loopback_ingest [] s = (Inr [], s)"
| "loopback_ingest (x # xs) s =
     (case loopback_ingest_one x s of
        (Inl e, s) \<Rightarrow> (Inl e, s)
      | (Inr y, s) \<Rightarrow>
          (case loopback_ingest xs s of
             (Inl e, s) \<Rightarrow> (Inl e, s)
           | (Inr ys, s) \<Rightarrow> (Inr (y # ys), s)))"

definition loopback_ops_since :: "64 word \<Rightarrow> nat \<Rightarrow> loopback \<Rightarrow> seq_op list" where
  "loopback_ops_since seq limit s = take limit (drop (min (unat seq) (length (lb_log s))) (lb_log s))"

definition loopback_transport :: "loopback transport" where
  "loopback_transport =
     \<lparr>tr_ops_since = (\<lambda>since limit s. (Inr (loopback_ops_since since limit s), s)),
      tr_push = loopback_ingest, tr_prepare_push = no_preparation, tr_prepare_pull = no_preparation\<rparr>"

section \<open>The HTTP endpoints\<close>

definition max_ops_page :: nat where
  "max_ops_page = 1000"

definition get_ops :: "string option \<Rightarrow> 64 word \<Rightarrow> nat \<Rightarrow> user_state \<Rightarrow> api_error + seq_op list" where
  "get_ops header since limit s =
     attempt (require_supported_format header) (\<lambda>_.
     let limit = min (max 1 limit) max_ops_page in
     case oplog_since since limit (us_oplog s) of
       Inl e \<Rightarrow> Inl (internal e)
     | Inr ops \<Rightarrow> Inr ops)"

text \<open>
  \<open>checks\<close> stands for \<open>validate_operation_blobs\<close> and \<open>ink::validate\<close>, which compare the batch
  with the files of the blob store and its ownership records.
\<close>

definition push_ops ::
  "externals \<Rightarrow> env \<Rightarrow> 64 word \<Rightarrow> (op list \<Rightarrow> api_error + unit) \<Rightarrow> string option \<Rightarrow> op list \<Rightarrow> user_state \<Rightarrow>
     (api_error + seq_op list) \<times> user_state" where
  "push_ops ext env every checks header ops s =
     (case require_supported_format header of
        Inl e \<Rightarrow> (Inl e, s)
      | Inr _ \<Rightarrow>
          if 256 < length ops
          then (Inl (bad_request ''a sync batch cannot contain more than 256 operations''), s)
          else case checks ops of
            Inl e \<Rightarrow> (Inl e, s)
          | Inr _ \<Rightarrow>
              (case ingest_operations ext env every ops s of
                 (Inl e, s) \<Rightarrow> (Inl (from_domain e), s)
               | (Inr xs, s) \<Rightarrow> (Inr xs, s)))"

text \<open>
  The arm of \<open>websocket_session\<close> for a pushed batch, after the format was checked when the socket
  was opened.
\<close>

datatype socket_reply = Ack "seq_op list" | SocketError server_error_code string

definition ingest_ink_checked ::
  "externals \<Rightarrow> env \<Rightarrow> 64 word \<Rightarrow> (op list \<Rightarrow> api_error + unit) \<Rightarrow> op list \<Rightarrow> user_state \<Rightarrow>
     (api_error + seq_op list) \<times> user_state" where
  "ingest_ink_checked ext env every checks ops s =
     (case checks ops of
        Inl e \<Rightarrow> (Inl e, s)
      | Inr _ \<Rightarrow>
          (case ingest_operations ext env every ops s of
             (Inl e, s) \<Rightarrow> (Inl (from_domain e), s)
           | (Inr xs, s) \<Rightarrow> (Inr xs, s)))"

definition socket_push ::
  "externals \<Rightarrow> env \<Rightarrow> 64 word \<Rightarrow> (op list \<Rightarrow> api_error + unit) \<Rightarrow> op list \<Rightarrow> user_state \<Rightarrow>
     socket_reply \<times> user_state" where
  "socket_push ext env every checks ops s =
     (if length ops \<le> 256
      then (case ingest_ink_checked ext env every checks ops s of
              (Inr xs, s) \<Rightarrow> (Ack xs, s)
            | (Inl e, s) \<Rightarrow> (SocketError (socket_rejection e) (ae_message e), s))
      else (SocketError BatchTooLarge ''a batch cannot exceed 256 operations'', s))"

text \<open>The header that the client sends with every request: \<open>FORMAT_VERSION\<close> in decimal.\<close>

definition format_header :: string where
  "format_header = ''7''"

definition read_reply :: "api_error + 'a \<Rightarrow> fault + 'a" where
  "read_reply r = (case r of Inl e \<Rightarrow> Inl (http_fault e) | Inr x \<Rightarrow> Inr x)"

definition http_transport ::
  "externals \<Rightarrow> env \<Rightarrow> 64 word \<Rightarrow> (op list \<Rightarrow> api_error + unit) \<Rightarrow> user_state transport" where
  "http_transport ext env every checks =
     \<lparr>tr_ops_since = (\<lambda>since limit s. (read_reply (get_ops (Some format_header) since limit s), s)),
      tr_push = (\<lambda>ops s. case push_ops ext env every checks (Some format_header) ops s of (r, s) \<Rightarrow> (read_reply r, s)),
      tr_prepare_push = no_preparation, tr_prepare_pull = no_preparation\<rparr>"

section \<open>The client\<close>

record applied_remote =
  ar_operation :: op
  ar_graph_changed :: bool

record sync_stats =
  ss_pushed :: nat
  ss_received :: nat
  ss_applied :: nat
  ss_cursor :: "64 word"
  ss_applied_operations :: "applied_remote list"

definition no_stats :: sync_stats where
  "no_stats = \<lparr>ss_pushed = 0, ss_received = 0, ss_applied = 0, ss_cursor = 0, ss_applied_operations = []\<rparr>"

definition count_batch :: "seq_op list \<Rightarrow> apply_outcome list \<Rightarrow> sync_stats \<Rightarrow> sync_stats" where
  "count_batch batch outcomes stats =
     stats\<lparr>ss_received := ss_received stats + length batch,
           ss_applied := ss_applied stats + length (filter oc_applied outcomes),
           ss_applied_operations := ss_applied_operations stats @
             map (\<lambda>(x, r). \<lparr>ar_operation = so_envelope x, ar_graph_changed = oc_graph_changed r\<rparr>)
               (filter (\<lambda>(_, r). oc_applied r) (zip batch outcomes))\<rparr>"

text \<open>
  \<open>catch_up\<close> runs until a reply is empty or not full; \<open>None\<close> would be a loop that never returns.
  The environment of each transaction comes from the number of the round.
\<close>

partial_function (option) catch_up ::
  "'s transport \<Rightarrow> externals \<Rightarrow> (nat \<Rightarrow> env) \<Rightarrow> nat \<Rightarrow> nat \<Rightarrow> 's \<Rightarrow> db \<Rightarrow> sync_stats \<Rightarrow>
     (fault option \<times> 's \<times> db \<times> sync_stats) option" where
  "catch_up T ext envs batch_size n s d stats =
     (case tr_ops_since T (read_sync_cursor d) batch_size s of
        (Inl e, s) \<Rightarrow> Some (Some e, s, d, stats)
      | (Inr batch, s) \<Rightarrow>
          if batch = [] then Some (None, s, d, stats)
          else
            (case tr_prepare_pull T batch s of
               (Some e, s) \<Rightarrow> Some (Some e, s, d, stats)
             | (None, s) \<Rightarrow>
                 (case apply_sequenced_batch ext (envs n) (map (\<lambda>x. (so_seq x, so_envelope x)) batch) Components d of
                    Inl e \<Rightarrow> Some (Some (Domain e), s, d, stats)
                  | Inr (outcomes, _, d) \<Rightarrow>
                      if length batch = batch_size
                      then catch_up T ext envs batch_size (Suc n) s d (count_batch batch outcomes stats)
                      else Some (None, s, d, count_batch batch outcomes stats))))"

definition quarantine_reason :: "string \<Rightarrow> string" where
  "quarantine_reason message = (if trim message = [] then ''The server rejected this change.'' else trim message)"

definition host_now_ms :: "env \<Rightarrow> int" where
  "host_now_ms env = min (uint (now_ms env)) i64_max"

fun isolate_rejected_batch ::
  "'s transport \<Rightarrow> (nat \<Rightarrow> env) \<Rightarrow> nat \<Rightarrow> op list \<Rightarrow> seq_op list \<Rightarrow> bool \<Rightarrow> 's \<Rightarrow> db \<Rightarrow>
     (fault + seq_op list) \<times> 's \<times> db" where
  "isolate_rejected_batch T envs n [] accepted progressed s d = (Inr accepted, s, d)"
| "isolate_rejected_batch T envs n (x # xs) accepted progressed s d =
     (case tr_push T [x] s of
        (Inr ys, s) \<Rightarrow> isolate_rejected_batch T envs (Suc n) xs (accepted @ ys) True s d
      | (Inl e, s) \<Rightarrow>
          (case terminal_rejection e of
             Some reason \<Rightarrow>
               isolate_rejected_batch T envs (Suc n) xs accepted True s
                 (snd (quarantine_outbox_op (op_id x) (quarantine_reason reason) (host_now_ms (envs n)) d))
           | None \<Rightarrow> if progressed then (Inr accepted, s, d) else (Inl e, s, d)))"

definition push_batch :: "'s transport \<Rightarrow> (nat \<Rightarrow> env) \<Rightarrow> op list \<Rightarrow> 's \<Rightarrow> db \<Rightarrow> (fault + seq_op list) \<times> 's \<times> db" where
  "push_batch T envs queue s d =
     (case tr_push T queue s of
        (Inr accepted, s) \<Rightarrow> (Inr accepted, s, d)
      | (Inl e, s) \<Rightarrow>
          if terminal_rejection e \<noteq> None then isolate_rejected_batch T envs 0 queue [] False s d else (Inl e, s, d))"

text \<open>The middle of a pass: what is queued goes out, and what comes back is acknowledged.\<close>

definition push_outbox_once ::
  "'s transport \<Rightarrow> (nat \<Rightarrow> env) \<Rightarrow> nat \<Rightarrow> 's \<Rightarrow> db \<Rightarrow> (fault + nat) \<times> 's \<times> db" where
  "push_outbox_once T envs batch_size s d =
     (case read_pending_outbox batch_size d of
        Inl e \<Rightarrow> (Inl (Domain e), s, d)
      | Inr queue \<Rightarrow>
          if queue = [] then (Inr 0, s, d)
          else case tr_prepare_push T queue s of
            (Some e, s) \<Rightarrow> (Inl e, s, d)
          | (None, s) \<Rightarrow>
              (case push_batch T envs queue s d of
                 (Inl e, s, d) \<Rightarrow> (Inl e, s, d)
               | (Inr accepted, s, d) \<Rightarrow>
                   (case acknowledge_server_ops (map (\<lambda>x. (op_id (so_envelope x), so_seq x)) accepted) d of
                      Inl e \<Rightarrow> (Inl (Domain e), s, d)
                    | Inr (_, d) \<Rightarrow> (Inr (length queue), s, d))))"

definition sync_once ::
  "'s transport \<Rightarrow> externals \<Rightarrow> (nat \<Rightarrow> nat \<Rightarrow> env) \<Rightarrow> nat \<Rightarrow> 's \<Rightarrow> db \<Rightarrow> ((fault + sync_stats) \<times> 's \<times> db) option" where
  "sync_once T ext envs batch_size s d =
     Option.bind (catch_up T ext (envs 0) batch_size 0 s d no_stats) (\<lambda>(failed, s, d, stats).
     case failed of
       Some e \<Rightarrow> Some (Inl e, s, d)
     | None \<Rightarrow>
         (case push_outbox_once T (envs 1) batch_size s d of
            (Inl e, s, d) \<Rightarrow> Some (Inl e, s, d)
          | (Inr pushed, s, d) \<Rightarrow>
              map_option (\<lambda>(failed, s, d, stats).
                  (case failed of Some e \<Rightarrow> Inl e | None \<Rightarrow> Inr (stats\<lparr>ss_cursor := read_sync_cursor d\<rparr>), s, d))
                (catch_up T ext (envs 2) batch_size 0 s d (stats\<lparr>ss_pushed := pushed\<rparr>))))"

definition add_stats :: "sync_stats \<Rightarrow> sync_stats \<Rightarrow> sync_stats" where
  "add_stats overall stats =
     \<lparr>ss_pushed = ss_pushed overall + ss_pushed stats, ss_received = ss_received overall + ss_received stats,
      ss_applied = ss_applied overall + ss_applied stats, ss_cursor = ss_cursor stats,
      ss_applied_operations = ss_applied_operations overall @ ss_applied_operations stats\<rparr>"

partial_function (option) sync_until_idle ::
  "'s transport \<Rightarrow> externals \<Rightarrow> (nat \<Rightarrow> nat \<Rightarrow> nat \<Rightarrow> env) \<Rightarrow> nat \<Rightarrow> nat \<Rightarrow> 's \<Rightarrow> db \<Rightarrow> sync_stats \<Rightarrow>
     ((fault + sync_stats) \<times> 's \<times> db) option" where
  "sync_until_idle T ext envs batch_size n s d overall =
     (case sync_once T ext (envs n) batch_size s d of
        None \<Rightarrow> None
      | Some (Inl e, s, d) \<Rightarrow> Some (Inl e, s, d)
      | Some (Inr stats, s, d) \<Rightarrow>
          if ss_pushed stats < batch_size
          then (case tr_ops_since T (ss_cursor stats) 1 s of
                  (Inl e, s) \<Rightarrow> Some (Inl e, s, d)
                | (Inr rest, s) \<Rightarrow>
                    if rest = [] then Some (Inr (add_stats overall stats), s, d)
                    else sync_until_idle T ext envs batch_size (Suc n) s d (add_stats overall stats))
          else sync_until_idle T ext envs batch_size (Suc n) s d (add_stats overall stats))"

end
