(* ===== verification/History.thy ===== *)
theory History
  imports Oplog
begin

text \<open>
  The abstract history that server and replicas share: a list of operations, in which an
  operation's position is its sequence. \<open>agrees\<close> says what a replica may have recorded about a
  history, and that applying or acknowledging operations of the history keeps it.
\<close>

section \<open>Numbered operations\<close>

definition number :: "op list \<Rightarrow> seq_op list" where
  "number L = map (\<lambda>i. \<lparr>so_seq = of_nat (Suc i), so_envelope = L ! i\<rparr>) [0..<length L]"

definition history_ok :: "op list \<Rightarrow> bool" where
  "history_ok L \<longleftrightarrow> int (length L) \<le> i64_max \<and> distinct (map op_id L)"

text \<open>The operation with the sequence \<open>k\<close> is \<open>x\<close>.\<close>

definition at_seq :: "op list \<Rightarrow> 64 word \<Rightarrow> op \<Rightarrow> bool" where
  "at_seq L k x \<longleftrightarrow> 0 < unat k \<and> unat k \<le> length L \<and> L ! (unat k - 1) = x"

lemma history_length: "history_ok L \<Longrightarrow> length L < 2 ^ 63"
  by (simp add: history_ok_def i64_max_def)

lemma unat_seq: "history_ok L \<Longrightarrow> i \<le> length L \<Longrightarrow> unat (of_nat i :: 64 word) = i"
  using history_length [of L] by (simp add: unat_of_nat take_bit_nat_eq_self)

lemma length_number [simp]: "length (number L) = length L"
  by (simp add: number_def)

lemma number_Nil [simp]: "number [] = []"
  by (simp add: number_def)

lemma number_append: "number (L @ [x]) = number L @ [\<lparr>so_seq = of_nat (Suc (length L)), so_envelope = x\<rparr>]"
  by (simp add: number_def nth_append)

lemma number_nth: "i < length L \<Longrightarrow> number L ! i = \<lparr>so_seq = of_nat (Suc i), so_envelope = L ! i\<rparr>"
  by (simp add: number_def)

lemma number_envelopes [simp]: "map so_envelope (number L) = L"
  by (simp add: number_def comp_def map_nth)

lemma in_number:
  assumes "history_ok L"
  shows "y \<in> set (number L) \<longleftrightarrow> at_seq L (so_seq y) (so_envelope y)"
proof
  assume "y \<in> set (number L)"
  then obtain i where i: "i < length L" "y = \<lparr>so_seq = of_nat (Suc i), so_envelope = L ! i\<rparr>"
    by (auto simp: number_def)
  with unat_seq [OF assms, of "Suc i"] show "at_seq L (so_seq y) (so_envelope y)"
    by (simp add: at_seq_def del: of_nat_Suc)
next
  assume a: "at_seq L (so_seq y) (so_envelope y)"
  then have "unat (so_seq y) - 1 < length L" by (simp add: at_seq_def) linarith
  moreover have "y = \<lparr>so_seq = of_nat (Suc (unat (so_seq y) - 1)), so_envelope = L ! (unat (so_seq y) - 1)\<rparr>"
    using a by (cases y) (simp add: at_seq_def del: of_nat_Suc)
  ultimately show "y \<in> set (number L)" by (auto simp: number_def)
qed

lemma at_seq_unique: "at_seq L k x \<Longrightarrow> at_seq L k y \<Longrightarrow> x = y"
  by (simp add: at_seq_def)

lemma at_seq_id:
  assumes "history_ok L" "at_seq L k x" "at_seq L k' y" "op_id x = op_id y"
  shows "k = k'"
proof -
  from assms(2,3) have b: "0 < unat k" "unat k - 1 < length (map op_id L)" "0 < unat k'" "unat k' - 1 < length (map op_id L)"
    by (simp_all add: at_seq_def) linarith+
  have "map op_id L ! (unat k - 1) = map op_id L ! (unat k' - 1)"
    using assms(2,3,4) b by (simp add: at_seq_def)
  moreover have "distinct (map op_id L)" using assms(1) by (simp add: history_ok_def)
  ultimately have "unat k - 1 = unat k' - 1" using b(2,4) nth_eq_iff_index_eq by blast
  with b have "unat k = unat k'" by linarith
  then show ?thesis by (simp add: word_unat_eq_iff)
qed

lemma at_seq_append: "at_seq L k x \<Longrightarrow> at_seq (L @ M) k x"
  by (auto simp: at_seq_def nth_append)

lemma at_seq_prefix: "at_seq (L @ M) k x \<Longrightarrow> unat k \<le> length L \<Longrightarrow> at_seq L k x"
  by (auto simp: at_seq_def nth_append split: if_splits)

section \<open>A replica and a history\<close>

text \<open>
  \<open>base\<close> is the sequence of the snapshot the replica started from, or zero. Above it, up to the
  cursor, every operation of the history is recorded; and no other sequence ever is.
\<close>

definition agrees :: "nat \<Rightarrow> op list \<Rightarrow> db \<Rightarrow> bool" where
  "agrees base L d \<longleftrightarrow>
     unat (read_sync_cursor d) \<le> length L \<and>
     (\<forall>u k. get (applied_ops d) u = Some (Some k) \<longrightarrow> (\<exists>x. at_seq L k x \<and> op_id x = u)) \<and>
     (\<forall>k x. at_seq L k x \<longrightarrow> base < unat k \<longrightarrow> k \<le> read_sync_cursor d \<longrightarrow>
        get (applied_ops d) (op_id x) = Some (Some k))"

lemma agrees_append:
  assumes "agrees base L d"
  shows "agrees base (L @ M) d"
proof -
  have "get (applied_ops d) (op_id x) = Some (Some k)"
    if "at_seq (L @ M) k x" "base < unat k" "k \<le> read_sync_cursor d" for k x
  proof -
    have "unat k \<le> length L" using that(3) assms by (simp add: agrees_def word_le_nat_alt)
    with that(1) have "at_seq L k x" by (rule at_seq_prefix)
    with that assms show ?thesis by (simp add: agrees_def)
  qed
  with assms show ?thesis unfolding agrees_def by (fastforce intro: at_seq_append)
qed

text \<open>What a sequenced batch records, exactly.\<close>

definition kept_or_given :: "db \<Rightarrow> (64 word \<times> op) list \<Rightarrow> sequenced \<Rightarrow> bool" where
  "kept_or_given d entries q \<longleftrightarrow>
     (\<forall>u k. get (applied_ops d) u = Some (Some k) \<longrightarrow> get (applied_ops (snd (q_state q))) u = Some (Some k)) \<and>
     (\<forall>u k. get (applied_ops (snd (q_state q))) u = Some (Some k) \<longrightarrow>
        get (applied_ops d) u = Some (Some k) \<or> (\<exists>x. (k, x) \<in> set entries \<and> op_id x = u))"

lemma kept_or_given_step:
  assumes r: "kept_or_given d entries q" and ok: "apply_sequenced_op ext env e q = Inr q'" and mem: "e \<in> set entries"
  shows "kept_or_given d entries q'"
proof -
  obtain seq x where e: "e = (seq, x)" by force
  from ok [unfolded e] show ?thesis
  proof (cases rule: sequenced_op_cases)
    case (2 st1 d2)
    from 2(6,9,10) have ops: "applied_ops (snd (q_state q')) = put (op_id x) (Some seq) (applied_ops (snd (q_state q)))"
      by (auto simp: record_sequence_def res)
    have "get (applied_ops (snd (q_state q'))) u = Some (Some k)" if "get (applied_ops d) u = Some (Some k)" for u k
    proof -
      have "get (applied_ops (snd (q_state q))) u = Some (Some k)" using r that by (simp add: kept_or_given_def)
      with 2(3) [of k] show ?thesis by (auto simp: ops)
    qed
    moreover have "get (applied_ops d) u = Some (Some k) \<or> (\<exists>x. (k, x) \<in> set entries \<and> op_id x = u)"
      if "get (applied_ops (snd (q_state q'))) u = Some (Some k)" for u k
      using that r mem by (auto simp: ops kept_or_given_def e split: if_splits)
    ultimately show ?thesis unfolding kept_or_given_def by blast
  qed (use r in \<open>simp add: kept_or_given_def\<close>)
qed

lemma sequenced_batch_records:
  assumes "apply_sequenced_batch ext env entries mode d = Inr (outs, durable, d')"
  shows "(\<forall>u k. get (applied_ops d) u = Some (Some k) \<longrightarrow> get (applied_ops d') u = Some (Some k)) \<and>
     (\<forall>u k. get (applied_ops d') u = Some (Some k) \<longrightarrow>
        get (applied_ops d) u = Some (Some k) \<or> (\<exists>x. (k, x) \<in> set entries \<and> op_id x = u))"
proof -
  let ?q0 = "\<lparr>q_cursor = read_sync_cursor d, q_outcomes = [], q_durable = False, q_released = False,
     q_state = (effects_for Deferred mode, d)\<rparr>"
  from assms obtain q where f: "fold_res (apply_sequenced_op ext env) entries ?q0 = Inr q"
    and d': "d' = (collect_released (q_released q) (snd (finish_projections ext (q_state q))))\<lparr>last_server_seq := Some (q_cursor q)\<rparr>"
    by (rule apply_sequenced_obtain)
  have "kept_or_given d entries ?q0" by (simp add: kept_or_given_def)
  with f have "kept_or_given d entries q"
    by (rule fold_res_invariant) (use kept_or_given_step in blast)
  moreover have "applied_ops d' = applied_ops (snd (q_state q))" by (simp add: d' finish_meta)
  ultimately show ?thesis by (simp add: kept_or_given_def)
qed

lemma agrees_sequenced:
  assumes h: "history_ok L" and a: "agrees base L d" and l: "ledger_ok d"
    and entries: "\<forall>(k, x) \<in> set entries. at_seq L k x"
    and ok: "apply_sequenced_batch ext env entries mode d = Inr (outs, durable, d')"
  shows "agrees base L d'" "ledger_ok d'" "read_sync_cursor d \<le> read_sync_cursor d'"
    "\<forall>(k, x) \<in> set entries. k \<le> read_sync_cursor d'"
    "read_sync_cursor d' = read_sync_cursor d \<or> (\<exists>x. (read_sync_cursor d', x) \<in> set entries)"
proof -
  note facts = sequenced_batch_facts [OF l ok] and recs = sequenced_batch_records [OF ok]
  have new: "\<exists>x. (k, x) \<in> set entries \<and> get (applied_ops d') (op_id x) = Some (Some k)"
    if "read_sync_cursor d < k" "k \<le> read_sync_cursor d'" for k
    using facts that by blast
  show "ledger_ok d'" "read_sync_cursor d \<le> read_sync_cursor d'" "\<forall>(k, x) \<in> set entries. k \<le> read_sync_cursor d'"
    using facts by auto
  show last: "read_sync_cursor d' = read_sync_cursor d \<or> (\<exists>x. (read_sync_cursor d', x) \<in> set entries)"
  proof (cases "read_sync_cursor d < read_sync_cursor d'")
    case True
    with new [of "read_sync_cursor d'"] show ?thesis by blast
  next
    case False
    moreover have "read_sync_cursor d \<le> read_sync_cursor d'" using facts by blast
    ultimately have "read_sync_cursor d' = read_sync_cursor d" by simp
    then show ?thesis ..
  qed
  have "unat (read_sync_cursor d') \<le> length L"
    using last a entries by (auto simp: agrees_def at_seq_def)
  moreover have "\<exists>x. at_seq L k x \<and> op_id x = u" if "get (applied_ops d') u = Some (Some k)" for u k
    using recs that a entries unfolding agrees_def by blast
  moreover have "get (applied_ops d') (op_id x) = Some (Some k)"
    if x: "at_seq L k x" "base < unat k" "k \<le> read_sync_cursor d'" for k x
  proof (cases "k \<le> read_sync_cursor d")
    case True
    with x a recs show ?thesis unfolding agrees_def by blast
  next
    case False
    then have "read_sync_cursor d < k" by (rule not_le_imp_less)
    from new [OF this x(3)] obtain y where y: "(k, y) \<in> set entries" "get (applied_ops d') (op_id y) = Some (Some k)"
      by blast
    with entries have "at_seq L k y" by blast
    with x(1) y(2) show ?thesis using at_seq_unique by blast
  qed
  ultimately show "agrees base L d'" unfolding agrees_def by blast
qed

lemma agrees_same:
  "applied_ops d' = applied_ops d \<Longrightarrow> last_server_seq d' = last_server_seq d \<Longrightarrow> agrees base L d' = agrees base L d"
  by (simp add: agrees_def read_sync_cursor_def)

lemma agrees_acknowledged:
  assumes h: "history_ok L" and a: "agrees base L d"
    and acks: "\<forall>(u, k) \<in> set acks. \<exists>x. at_seq L k x \<and> op_id x = u"
    and ok: "acknowledge_server_ops acks d = Inr (durable, d')"
  shows "agrees base L d'"
proof -
  from ok obtain acc where f: "fold_res acknowledge_one acks (False, False, d) = Inr acc"
    and d': "d' = collect_released (fst (snd acc)) (snd (snd acc))" by (rule acknowledge_obtain)
  have "agrees base L (snd (snd acc))"
    using f
  proof (rule fold_res_invariant [where P = "\<lambda>acc. agrees base L (snd (snd acc))"])
    fix e acc0 acc1
    assume e: "e \<in> set acks" and b: "agrees base L (snd (snd acc0))" and step: "acknowledge_one e acc0 = Inr acc1"
    obtain u s where us: "e = (u, s)" by force
    with acks e obtain x where x: "at_seq L s x" "op_id x = u" by blast
    note st = acknowledge_one_step [OF step [unfolded us]]
    have ops: "get (applied_ops (snd (snd acc1))) v =
       (if v = u \<and> has (applied_ops (snd (snd acc0))) u then Some (Some s) else get (applied_ops (snd (snd acc0))) v)" for v
      by (rule st(2))
    have c: "read_sync_cursor (snd (snd acc1)) = read_sync_cursor (snd (snd acc0))"
      by (simp add: read_sync_cursor_def st(4))
    have "\<exists>x. at_seq L k x \<and> op_id x = v" if "get (applied_ops (snd (snd acc1))) v = Some (Some k)" for v k
    proof (cases "v = u \<and> has (applied_ops (snd (snd acc0))) u")
      case True
      with that x show ?thesis using ops [of v] by auto
    next
      case False
      with that ops [of v] have "get (applied_ops (snd (snd acc0))) v = Some (Some k)" by presburger
      with b show ?thesis unfolding agrees_def by blast
    qed
    moreover have "get (applied_ops (snd (snd acc1))) (op_id y) = Some (Some k)"
      if y: "at_seq L k y" "base < unat k" "k \<le> read_sync_cursor (snd (snd acc1))" for k y
    proof -
      have "get (applied_ops (snd (snd acc0))) (op_id y) = Some (Some k)"
        using y b by (auto simp: agrees_def c)
      moreover have "k = s" if "op_id y = u" using at_seq_id [OF h y(1) x(1)] that x(2) by simp
      ultimately show ?thesis by (auto simp: ops)
    qed
    ultimately show "agrees base L (snd (snd acc1))" using b unfolding agrees_def c by blast
  qed (use a in simp)
  moreover have "agrees base L d' = agrees base L (snd (snd acc))" by (rule agrees_same) (simp_all add: d')
  ultimately show ?thesis by simp
qed

text \<open>Two replicas at the same place in the same history hold the same operations of it.\<close>

lemma agrees_same_operations:
  assumes h: "history_ok L" and a: "agrees b1 L d1" "agrees b2 L d2"
    and k: "max b1 b2 < unat k" "k \<le> read_sync_cursor d1" "k \<le> read_sync_cursor d2"
  shows "get (applied_ops d1) u = Some (Some k) \<longleftrightarrow> get (applied_ops d2) u = Some (Some k)"
  using a k unfolding agrees_def by (metis max_less_iff_conj)

text \<open>A page of the history after a cursor.\<close>

definition page_after :: "op list \<Rightarrow> 64 word \<Rightarrow> nat \<Rightarrow> seq_op list" where
  "page_after L c n = take n (drop (unat c) (number L))"

lemma page_nth:
  assumes "j < length (page_after L c n)"
  shows "page_after L c n ! j = number L ! (unat c + j)" "unat c + j < length L"
proof -
  from assms have j: "j < length L - unat c" "j < n" by (simp_all add: page_after_def)
  then have len: "unat c + j < length L" by linarith
  then show "unat c + j < length L" .
  from j len show "page_after L c n ! j = number L ! (unat c + j)" by (simp add: page_after_def)
qed

lemma page_entries:
  assumes h: "history_ok L" and y: "y \<in> set (page_after L c n)"
  shows "at_seq L (so_seq y) (so_envelope y)" "c < so_seq y"
proof -
  from y have "y \<in> set (number L)" by (auto simp: page_after_def dest: in_set_takeD in_set_dropD)
  then show "at_seq L (so_seq y) (so_envelope y)" using in_number [OF h] by blast
  from y obtain j where "j < length (page_after L c n)" "y = page_after L c n ! j" by (auto simp: in_set_conv_nth)
  with page_nth [OF this(1)] have i: "unat c + j < length L" "y = number L ! (unat c + j)" by simp_all
  then show "c < so_seq y"
    using unat_seq [OF h, of "Suc (unat c + j)"] by (simp add: number_nth word_less_nat_alt del: of_nat_Suc)
qed

lemma page_last:
  assumes h: "history_ok L" and ne: "page_after L c n \<noteq> []"
  shows "unat (so_seq (last (page_after L c n))) = unat c + length (page_after L c n)"
proof -
  let ?xs = "page_after L c n"
  have j: "length ?xs - 1 < length ?xs" using ne by simp
  note nth = page_nth [OF j]
  have "last ?xs = number L ! (unat c + (length ?xs - 1))" using ne nth(1) by (simp add: last_conv_nth)
  moreover have s: "Suc (unat c + (length ?xs - 1)) = unat c + length ?xs" using ne j by linarith
  ultimately have "so_seq (last ?xs) = of_nat (unat c + length ?xs)"
    using number_nth [OF nth(2)] by (metis seq_op.select_convs(1))
  moreover have "unat c + length ?xs \<le> length L" using nth(2) s by linarith
  ultimately show ?thesis by (simp only: unat_seq [OF h])
qed

lemma page_short: "length (page_after L c n) < n \<Longrightarrow> length L \<le> unat c + length (page_after L c n)"
  by (simp add: page_after_def)

text \<open>The replica that applies the next page of the history has its cursor at the end of the page.\<close>

definition entries_of :: "seq_op list \<Rightarrow> (64 word \<times> op) list" where
  "entries_of xs = map (\<lambda>y. (so_seq y, so_envelope y)) xs"

lemma agrees_page:
  assumes h: "history_ok L" and a: "agrees base L d" and l: "ledger_ok d" and ne: "page_after L (read_sync_cursor d) n \<noteq> []"
    and ok: "apply_sequenced_batch ext env (entries_of (page_after L (read_sync_cursor d) n)) mode d = Inr (outs, durable, d')"
  shows "agrees base L d'" "ledger_ok d'" "read_sync_cursor d' = so_seq (last (page_after L (read_sync_cursor d) n))"
    "unat (read_sync_cursor d') = unat (read_sync_cursor d) + length (page_after L (read_sync_cursor d) n)"
proof -
  let ?xs = "page_after L (read_sync_cursor d) n"
  have es: "\<forall>(k, x) \<in> set (entries_of ?xs). at_seq L k x" using page_entries(1) [OF h] by (auto simp: entries_of_def)
  note step = agrees_sequenced [OF h a l es ok]
  show "agrees base L d'" "ledger_ok d'" by (fact step(1), fact step(2))
  have "(so_seq (last ?xs), so_envelope (last ?xs)) \<in> set (entries_of ?xs)" using ne by (simp add: entries_of_def)
  then have ge: "so_seq (last ?xs) \<le> read_sync_cursor d'" using step(4) by blast
  have "c' \<le> so_seq (last ?xs)" if "(c', x) \<in> set (entries_of ?xs)" for c' x
  proof -
    from that obtain j where j: "j < length ?xs" "?xs ! j = \<lparr>so_seq = c', so_envelope = x\<rparr>"
      by (auto simp: entries_of_def in_set_conv_nth)
    note nth = page_nth [OF j(1)]
    with j have "c' = of_nat (Suc (unat (read_sync_cursor d) + j))"
      using number_nth [OF nth(2)] by (metis seq_op.select_convs(1))
    moreover have "unat (of_nat (Suc (unat (read_sync_cursor d) + j)) :: 64 word) = Suc (unat (read_sync_cursor d) + j)"
      by (rule unat_seq [OF h]) (use nth(2) in simp)
    ultimately show ?thesis using page_last [OF h ne] j(1) by (simp add: word_le_nat_alt)
  qed
  moreover have "read_sync_cursor d \<le> so_seq (last ?xs)" using page_last [OF h ne] by (simp add: word_le_nat_alt)
  ultimately have "read_sync_cursor d' \<le> so_seq (last ?xs)" using step(5) by auto
  with ge show c: "read_sync_cursor d' = so_seq (last ?xs)" by simp
  show "unat (read_sync_cursor d') = unat (read_sync_cursor d) + length ?xs" unfolding c by (rule page_last [OF h ne])
qed

text \<open>A sequenced batch only takes rows out of the outbox.\<close>

lemma sequenced_outbox:
  assumes "apply_sequenced_batch ext env entries mode d = Inr (outs, durable, d')"
  shows "\<exists>P. outbox d' = filter P (outbox d)"
proof -
  let ?q0 = "\<lparr>q_cursor = read_sync_cursor d, q_outcomes = [], q_durable = False, q_released = False,
     q_state = (effects_for Deferred mode, d)\<rparr>"
  from assms obtain q where f: "fold_res (apply_sequenced_op ext env) entries ?q0 = Inr q"
    and d': "d' = (collect_released (q_released q) (snd (finish_projections ext (q_state q))))\<lparr>last_server_seq := Some (q_cursor q)\<rparr>"
    by (rule apply_sequenced_obtain)
  have "\<exists>P. outbox (snd (q_state q)) = filter P (outbox d)"
    using f
  proof (rule fold_res_invariant [where P = "\<lambda>q. \<exists>P. outbox (snd (q_state q)) = filter P (outbox d)"])
    show "\<exists>P. outbox (snd (q_state ?q0)) = filter P (outbox d)" by (intro exI [of _ "\<lambda>_. True"]) simp
  next
    fix e q q'
    assume IH: "\<exists>P. outbox (snd (q_state q)) = filter P (outbox d)" and ok: "apply_sequenced_op ext env e q = Inr q'"
    obtain seq x where e: "e = (seq, x)" by force
    from ok [unfolded e] show "\<exists>P. outbox (snd (q_state q')) = filter P (outbox d)"
    proof (cases rule: sequenced_op_cases)
      case (2 st1 d2)
      from 2(9) have "outbox d2 = outbox (snd st1)" by (auto simp: record_sequence_def res)
      with 2(7,10) have "outbox (snd (q_state q')) = filter (\<lambda>r. o_op_id r \<noteq> op_id x) (outbox (snd (q_state q)))" by simp
      with IH show ?thesis by (auto simp: filter_filter)
    qed (use IH in simp)
  qed
  moreover have "outbox d' = outbox (snd (q_state q))" by (simp add: d' finish_meta)
  ultimately show ?thesis by simp
qed

section \<open>Servers as sequencers\<close>

text \<open>
  What a replica relies on when it talks to a server, whichever server it is: a reply to
  \<open>ops_since\<close> is the part of the history after the given sequence, up to the limit as the server
  clamps it (\<open>page\<close>); a push appends
  operations to the history at most, and an accepted batch is answered with the place of each of its
  operations.
\<close>

locale sequencer =
  fixes since :: "64 word \<Rightarrow> nat \<Rightarrow> 's \<Rightarrow> (fault + seq_op list) \<times> 's"
    and push :: "op list \<Rightarrow> 's \<Rightarrow> (fault + seq_op list) \<times> 's"
    and history :: "'s \<Rightarrow> op list" and invariant :: "'s \<Rightarrow> bool" and page :: "nat \<Rightarrow> nat"
  assumes sequencer_history: "invariant s \<Longrightarrow> history_ok (history s)"
    and since_reply: "invariant s \<Longrightarrow> 0 < n \<Longrightarrow> since c n s = (r, s') \<Longrightarrow>
          invariant s' \<and> history s' = history s \<and>
          (\<forall>xs. r = Inr xs \<longrightarrow> xs = page_after (history s) c (page n))"
    and push_reply: "invariant s \<Longrightarrow> push ops s = (r, s') \<Longrightarrow>
          invariant s' \<and> (\<exists>new. history s' = history s @ new) \<and>
          (\<forall>xs. r = Inr xs \<longrightarrow> map (\<lambda>y. op_id (so_envelope y)) xs = map op_id ops \<and>
             (\<forall>y \<in> set xs. at_seq (history s') (so_seq y) (so_envelope y)))"
begin

end

end
