(* ===== verification/SnapshotProps.thy ===== *)
theory SnapshotProps
  imports Snapshot
begin

text \<open>
  What a valid snapshot is, declaratively, and that \<open>validate_snapshot\<close> accepts exactly those:
  each of its loops checks every row and that no key comes twice, so acceptance does not depend
  on the order of the rows.
\<close>

section \<open>Loops that fill a keyed table\<close>

definition tab :: "('a \<Rightarrow> 'k::linorder) \<Rightarrow> ('a \<Rightarrow> 'v) \<Rightarrow> 'a list \<Rightarrow> ('k, 'v) table" where
  "tab key val xs = fold (\<lambda>x. put (key x) (val x)) xs tempty"

lemma has_fold_tab: "has (fold (\<lambda>x. put (key x) (val x)) xs t) k \<longleftrightarrow> k \<in> key ` set xs \<or> has t k"
  by (induction xs arbitrary: t) auto

lemma get_fold_tab:
  "distinct (map key xs) \<Longrightarrow>
     get (fold (\<lambda>x. put (key x) (val x)) xs t) k = Some v \<longleftrightarrow>
       (\<exists>x \<in> set xs. key x = k \<and> val x = v) \<or> (k \<notin> key ` set xs \<and> get t k = Some v)"
  by (induction xs arbitrary: t) (auto simp: rev_image_eqI)

lemma has_tab [simp]: "has (tab key val xs) k \<longleftrightarrow> k \<in> key ` set xs"
  by (simp add: tab_def has_fold_tab)

lemma get_tab: "distinct (map key xs) \<Longrightarrow> get (tab key val xs) k = Some v \<longleftrightarrow> (\<exists>x \<in> set xs. key x = k \<and> val x = v)"
  by (simp add: tab_def get_fold_tab)

lemma get_tab_at: "distinct (map key xs) \<Longrightarrow> x \<in> set xs \<Longrightarrow> get (tab key val xs) (key x) = Some (val x)"
  by (auto simp: get_tab)

locale keyed_check =
  fixes check :: "'a \<Rightarrow> ('k::linorder, 'v) table \<Rightarrow> core_error + ('k, 'v) table"
    and good :: "'a \<Rightarrow> bool" and key :: "'a \<Rightarrow> 'k" and val :: "'a \<Rightarrow> 'v"
  assumes check_iff: "check x t = Inr t' \<longleftrightarrow> good x \<and> \<not> has t (key x) \<and> t' = put (key x) (val x) t"
begin

lemma fold_check:
  "fold_res check xs t = Inr t' \<longleftrightarrow>
     (\<forall>x \<in> set xs. good x \<and> \<not> has t (key x)) \<and> distinct (map key xs) \<and>
     t' = fold (\<lambda>x. put (key x) (val x)) xs t"
proof (induction xs arbitrary: t)
  case (Cons x xs)
  show ?case by (auto simp: res check_iff Cons.IH image_iff)
qed (auto simp: eq_commute)

lemma run: "fold_res check xs tempty = Inr t \<longleftrightarrow> (\<forall>x \<in> set xs. good x) \<and> distinct (map key xs) \<and> t = tab key val xs"
  by (simp add: fold_check tab_def)

end

interpretation version_check: keyed_check "check_version ids"
  "\<lambda>v. publish_validate (ve_publication v) = Inr () \<and> get ids (page_uuid (ve_publication v)) = Some Handwriting"
  "\<lambda>v. version_uuid (ve_publication v)" "\<lambda>_. ()" for ids
  by unfold_locales (auto simp: check_version_def Let_def res)

interpretation page_check: keyed_check "check_page ids"
  "\<lambda>x. get ids (np_uuid x) = Some (np_kind x) \<and> (is_journal (np_kind x) \<longrightarrow> np_title x = None)"
  np_uuid "\<lambda>x. x" for ids
  by unfold_locales (auto simp: check_page_def res)

interpretation alias_check: keyed_check "check_alias ids" "\<lambda>x. has ids (na_page x)"
  "\<lambda>x. (na_page x, na_alias x)" "\<lambda>_. ()" for ids
  by unfold_locales (auto simp: check_alias_def res)

interpretation block_check: keyed_check "check_block ids ps"
  "\<lambda>x. \<not> has ids (nb_uuid x) \<and> get ids (nb_page x) \<noteq> Some Handwriting \<and> has ps (nb_page x)"
  nb_uuid "\<lambda>x. x" for ids ps
  by unfold_locales (auto simp: check_block_def res)

interpretation tombstone_check: keyed_check "check_tombstone ids ps bs"
  "\<lambda>x. case nt_kind x of
         PageObject \<Rightarrow> \<not> has ps (nt_uuid x) \<and> \<not> has bs (nt_uuid x) \<and> has ids (nt_uuid x) \<and> nt_root x = Some (nt_uuid x)
       | BlockObject \<Rightarrow> \<not> has bs (nt_uuid x) \<and> \<not> has ids (nt_uuid x) \<and> nt_root x \<noteq> None"
  nt_uuid "\<lambda>x. x" for ids ps bs
  by unfold_locales (auto simp: check_tombstone_def res split: object_kind.splits)

interpretation structure_check: keyed_check "check_structure ids ps bs ts"
  "\<lambda>x. get ids (ns_page x) \<noteq> Some Handwriting \<and> check_raw_parent bs ts x = Inr () \<and>
       (\<exists>b. get bs (ns_block x) = Some b \<and> ns_page x = nb_page b \<and> has ps (ns_page x) \<and>
            nb_structure_hlc b = Some (ns_hlc x) \<and> nb_order b = ns_order x)"
  ns_block "\<lambda>x. x" for ids ps bs ts
  by unfold_locales (auto simp: check_structure_def res split: option.splits)

text \<open>The two loops with a second set of keys.\<close>

definition journal_dates :: "snapshot_page_identity list \<Rightarrow> string list" where
  "journal_dates xs = List.map_filter (\<lambda>x. case ni_kind x of Journal date \<Rightarrow> Some date | _ \<Rightarrow> None) xs"

lemma journal_dates_Cons [simp]:
  "journal_dates (x # xs) = (case ni_kind x of Journal date \<Rightarrow> date # journal_dates xs | _ \<Rightarrow> journal_dates xs)"
  by (simp add: journal_dates_def map_filter_simps split: page_kind.split)

lemma check_identity_iff:
  "check_identity ext w x (ids, dates) = Inr (ids', dates') \<longleftrightarrow>
     validate_page_identity ext w (ni_uuid x) (ni_kind x) = Inr () \<and> \<not> has ids (ni_uuid x) \<and>
     ids' = put (ni_uuid x) (ni_kind x) ids \<and>
     (case ni_kind x of Journal date \<Rightarrow> \<not> has dates date \<and> dates' = put date () dates | _ \<Rightarrow> dates' = dates)"
  by (auto simp: check_identity_def res split: page_kind.splits)

lemma fold_identities:
  "(\<exists>dates'. fold_res (check_identity ext w) xs (ids, dates) = Inr (ids', dates')) \<longleftrightarrow>
     (\<forall>x \<in> set xs. validate_page_identity ext w (ni_uuid x) (ni_kind x) = Inr () \<and> \<not> has ids (ni_uuid x)) \<and>
     distinct (map ni_uuid xs) \<and> distinct (journal_dates xs) \<and> (\<forall>t \<in> set (journal_dates xs). \<not> has dates t) \<and>
     ids' = fold (\<lambda>x. put (ni_uuid x) (ni_kind x)) xs ids"
proof (induction xs arbitrary: ids dates)
  case Nil
  then show ?case by (auto simp: journal_dates_def map_filter_simps)
next
  case (Cons x xs)
  have unroll: "(\<exists>dates'. fold_res (check_identity ext w) (x # xs) (ids, dates) = Inr (ids', dates')) \<longleftrightarrow>
      (\<exists>i1 t1. check_identity ext w x (ids, dates) = Inr (i1, t1) \<and>
         (\<exists>dates'. fold_res (check_identity ext w) xs (i1, t1) = Inr (ids', dates')))"
    by (auto simp: res)
  have fresh: "(\<forall>y \<in> set xs. P y \<and> \<not> has (put (ni_uuid x) k ids) (ni_uuid y)) \<longleftrightarrow>
      (\<forall>y \<in> set xs. P y \<and> \<not> has ids (ni_uuid y)) \<and> ni_uuid x \<notin> ni_uuid ` set xs" for P k
    by (auto simp: image_iff)
  show ?case unfolding unroll check_identity_iff Cons.IH fresh by (cases "ni_kind x") (auto simp: image_iff)
qed

definition attachment_good ::
  "(uuid, snapshot_page) table \<Rightarrow> (uuid, snapshot_block) table \<Rightarrow> (uuid, snapshot_tombstone) table \<Rightarrow> snapshot_attachment \<Rightarrow> bool" where
  "attachment_good ps bs ts x \<longleftrightarrow>
     (case sa_owner x of
        PageOwner u \<Rightarrow> has ps u \<or> (\<exists>t. get ts u = Some t \<and> nt_kind t = PageObject)
      | BlockOwner u \<Rightarrow> has bs u \<or> (\<exists>t. get ts u = Some t \<and> nt_kind t = BlockObject))"

lemma check_attachment_iff:
  "check_attachment ps bs ts x (seen, uuids) = Inr (seen', uuids') \<longleftrightarrow>
     attachment_good ps bs ts x \<and> \<not> has seen (sa_owner x, sa_blob_hash x) \<and> \<not> has uuids (sa_uuid x) \<and>
     seen' = put (sa_owner x, sa_blob_hash x) () seen \<and> uuids' = put (sa_uuid x) () uuids"
  by (auto simp: check_attachment_def attachment_good_def res split: attachment_owner.splits option.splits)

lemma fold_attachments:
  "(\<exists>acc. fold_res (check_attachment ps bs ts) xs (seen, uuids) = Inr acc) \<longleftrightarrow>
     (\<forall>x \<in> set xs. attachment_good ps bs ts x \<and> \<not> has seen (sa_owner x, sa_blob_hash x) \<and> \<not> has uuids (sa_uuid x)) \<and>
     distinct (map (\<lambda>x. (sa_owner x, sa_blob_hash x)) xs) \<and> distinct (map sa_uuid xs)"
proof (induction xs arbitrary: seen uuids)
  case (Cons x xs)
  have unroll: "(\<exists>acc. fold_res (check_attachment ps bs ts) (x # xs) (seen, uuids) = Inr acc) \<longleftrightarrow>
      (\<exists>s1 u1. check_attachment ps bs ts x (seen, uuids) = Inr (s1, u1) \<and>
         (\<exists>acc. fold_res (check_attachment ps bs ts) xs (s1, u1) = Inr acc))"
    by (auto simp: res)
  have fresh: "(\<forall>y \<in> set xs. P y \<and> \<not> has (put (sa_owner x, sa_blob_hash x) () seen) (sa_owner y, sa_blob_hash y) \<and>
        \<not> has (put (sa_uuid x) () uuids) (sa_uuid y)) \<longleftrightarrow>
      (\<forall>y \<in> set xs. P y \<and> \<not> has seen (sa_owner y, sa_blob_hash y) \<and> \<not> has uuids (sa_uuid y)) \<and>
      (sa_owner x, sa_blob_hash x) \<notin> (\<lambda>y. (sa_owner y, sa_blob_hash y)) ` set xs \<and> sa_uuid x \<notin> sa_uuid ` set xs" for P
    by (auto simp: image_iff)
  show ?case unfolding unroll check_attachment_iff by (simp only: ex_simps simp_thms Cons.IH fresh) (auto simp: image_iff)
qed simp

section \<open>Valid snapshots\<close>

definition identity_of :: "sync_snapshot \<Rightarrow> uuid \<Rightarrow> page_kind \<Rightarrow> bool" where
  "identity_of s u kind \<longleftrightarrow> (\<exists>x \<in> set (sn_identities s). ni_uuid x = u \<and> ni_kind x = kind)"

definition live_page :: "sync_snapshot \<Rightarrow> uuid \<Rightarrow> bool" where
  "live_page s u \<longleftrightarrow> u \<in> np_uuid ` set (sn_pages s)"

definition live_block :: "sync_snapshot \<Rightarrow> uuid \<Rightarrow> uuid \<Rightarrow> bool" where
  "live_block s u page \<longleftrightarrow> (\<exists>x \<in> set (sn_blocks s). nb_uuid x = u \<and> nb_page x = page)"

definition buried :: "sync_snapshot \<Rightarrow> uuid \<Rightarrow> object_kind \<Rightarrow> bool" where
  "buried s u kind \<longleftrightarrow> (\<exists>x \<in> set (sn_tombstones s). nt_uuid x = u \<and> nt_kind x = kind)"

definition pages_valid :: "externals \<Rightarrow> sync_snapshot \<Rightarrow> bool" where
  "pages_valid ext s \<longleftrightarrow>
     distinct (map ni_uuid (sn_identities s)) \<and> distinct (journal_dates (sn_identities s)) \<and>
     (\<forall>x \<in> set (sn_identities s). validate_page_identity ext (sn_workspace s) (ni_uuid x) (ni_kind x) = Inr ()) \<and>
     distinct (map (\<lambda>v. version_uuid (ve_publication v)) (sn_ink_versions s)) \<and>
     (\<forall>v \<in> set (sn_ink_versions s). publish_validate (ve_publication v) = Inr () \<and>
        identity_of s (page_uuid (ve_publication v)) Handwriting) \<and>
     distinct (map np_uuid (sn_pages s)) \<and>
     (\<forall>x \<in> set (sn_pages s). identity_of s (np_uuid x) (np_kind x) \<and> (is_journal (np_kind x) \<longrightarrow> np_title x = None)) \<and>
     distinct (map (\<lambda>x. (na_page x, na_alias x)) (sn_aliases s)) \<and>
     (\<forall>x \<in> set (sn_aliases s). na_page x \<in> ni_uuid ` set (sn_identities s))"

definition blocks_valid :: "sync_snapshot \<Rightarrow> bool" where
  "blocks_valid s \<longleftrightarrow>
     distinct (map nb_uuid (sn_blocks s)) \<and>
     (\<forall>x \<in> set (sn_blocks s). nb_uuid x \<notin> ni_uuid ` set (sn_identities s) \<and>
        \<not> identity_of s (nb_page x) Handwriting \<and> live_page s (nb_page x) \<and>
        (\<forall>p. nb_parent x = Some p \<longrightarrow> live_block s p (nb_page x)) \<and>
        nb_uuid x \<in> ns_block ` set (sn_structures s))"

definition tombstones_valid :: "sync_snapshot \<Rightarrow> bool" where
  "tombstones_valid s \<longleftrightarrow>
     distinct (map nt_uuid (sn_tombstones s)) \<and>
     (\<forall>x \<in> set (sn_tombstones s). nt_uuid x \<notin> nb_uuid ` set (sn_blocks s) \<and>
        (case nt_kind x of
           PageObject \<Rightarrow> \<not> live_page s (nt_uuid x) \<and> nt_uuid x \<in> ni_uuid ` set (sn_identities s) \<and>
                         nt_root x = Some (nt_uuid x)
         | BlockObject \<Rightarrow> nt_uuid x \<notin> ni_uuid ` set (sn_identities s) \<and> nt_root x \<noteq> None))"

definition structures_valid :: "sync_snapshot \<Rightarrow> bool" where
  "structures_valid s \<longleftrightarrow>
     distinct (map ns_block (sn_structures s)) \<and>
     (\<forall>x \<in> set (sn_structures s). \<not> identity_of s (ns_page x) Handwriting \<and> live_page s (ns_page x) \<and>
        (\<exists>b \<in> set (sn_blocks s). nb_uuid b = ns_block x \<and> nb_page b = ns_page x \<and>
            nb_structure_hlc b = Some (ns_hlc x) \<and> nb_order b = ns_order x) \<and>
        (\<forall>p. ns_parent x = Some p \<longrightarrow> live_block s p (ns_page x) \<or> buried s p BlockObject))"

definition attachments_valid :: "sync_snapshot \<Rightarrow> bool" where
  "attachments_valid s \<longleftrightarrow>
     distinct (map (\<lambda>x. (sa_owner x, sa_blob_hash x)) (sn_attachments s)) \<and> distinct (map sa_uuid (sn_attachments s)) \<and>
     (\<forall>x \<in> set (sn_attachments s).
        case sa_owner x of
          PageOwner u \<Rightarrow> live_page s u \<or> buried s u PageObject
        | BlockOwner u \<Rightarrow> u \<in> nb_uuid ` set (sn_blocks s) \<or> buried s u BlockObject)"

definition valid_snapshot :: "externals \<Rightarrow> sync_snapshot \<Rightarrow> bool" where
  "valid_snapshot ext s \<longleftrightarrow> sn_workspace s \<noteq> 0 \<and> pages_valid ext s \<and> blocks_valid s \<and> tombstones_valid s \<and>
     structures_valid s \<and> attachments_valid s"

lemmas valid_defs = valid_snapshot_def pages_valid_def blocks_valid_def tombstones_valid_def structures_valid_def
  attachments_valid_def

definition id_table :: "sync_snapshot \<Rightarrow> (uuid, page_kind) table" where
  "id_table s = tab ni_uuid ni_kind (sn_identities s)"

definition page_table :: "sync_snapshot \<Rightarrow> (uuid, snapshot_page) table" where
  "page_table s = tab np_uuid (\<lambda>x. x) (sn_pages s)"

definition block_table :: "sync_snapshot \<Rightarrow> (uuid, snapshot_block) table" where
  "block_table s = tab nb_uuid (\<lambda>x. x) (sn_blocks s)"

definition tomb_table :: "sync_snapshot \<Rightarrow> (uuid, snapshot_tombstone) table" where
  "tomb_table s = tab nt_uuid (\<lambda>x. x) (sn_tombstones s)"

lemma table_has [simp]:
  "has (id_table s) u \<longleftrightarrow> u \<in> ni_uuid ` set (sn_identities s)"
  "has (page_table s) u \<longleftrightarrow> live_page s u"
  "has (block_table s) u \<longleftrightarrow> u \<in> nb_uuid ` set (sn_blocks s)"
  by (simp_all add: id_table_def page_table_def block_table_def live_page_def)

lemma get_id_table: "distinct (map ni_uuid (sn_identities s)) \<Longrightarrow> get (id_table s) u = Some kind \<longleftrightarrow> identity_of s u kind"
  by (auto simp: id_table_def get_tab identity_of_def)

lemma get_block_table:
  "distinct (map nb_uuid (sn_blocks s)) \<Longrightarrow> get (block_table s) u = Some b \<longleftrightarrow> b \<in> set (sn_blocks s) \<and> nb_uuid b = u"
  by (auto simp: block_table_def get_tab)

lemma get_tomb_table:
  "distinct (map nt_uuid (sn_tombstones s)) \<Longrightarrow>
     (\<exists>t. get (tomb_table s) u = Some t \<and> nt_kind t = kind) \<longleftrightarrow> buried s u kind"
  by (auto simp: tomb_table_def get_tab buried_def)

text \<open>The validation with its loops run.\<close>

lemma validate_unfolded:
  "validate_snapshot ext s = Inr () \<longleftrightarrow>
     sn_workspace s \<noteq> 0 \<and>
     (\<forall>x \<in> set (sn_identities s). validate_page_identity ext (sn_workspace s) (ni_uuid x) (ni_kind x) = Inr ()) \<and>
     distinct (map ni_uuid (sn_identities s)) \<and> distinct (journal_dates (sn_identities s)) \<and>
     (\<exists>t. fold_res (check_version (id_table s)) (sn_ink_versions s) tempty = Inr t) \<and>
     (\<exists>t. fold_res (check_page (id_table s)) (sn_pages s) tempty = Inr t) \<and>
     (\<exists>t. fold_res (check_alias (id_table s)) (sn_aliases s) tempty = Inr t) \<and>
     (\<exists>t. fold_res (check_block (id_table s) (page_table s)) (sn_blocks s) tempty = Inr t) \<and>
     (\<exists>t. fold_res (check_tombstone (id_table s) (page_table s) (block_table s)) (sn_tombstones s) tempty = Inr t) \<and>
     (\<forall>b \<in> snd ` set (rows (block_table s)). check_parent (block_table s) b = Inr ()) \<and>
     (\<exists>t. fold_res (check_structure (id_table s) (page_table s) (block_table s) (tomb_table s)) (sn_structures s) tempty = Inr t) \<and>
     (\<forall>b \<in> fst ` set (rows (block_table s)). b \<in> ns_block ` set (sn_structures s)) \<and>
     (\<exists>acc. fold_res (check_attachment (page_table s) (block_table s) (tomb_table s)) (sn_attachments s) (tempty, tempty) = Inr acc)"
proof -
  have ids: "(\<exists>dates. fold_res (check_identity ext (sn_workspace s)) (sn_identities s) (tempty, tempty) = Inr (ids, dates)) \<longleftrightarrow>
      (\<forall>x \<in> set (sn_identities s). validate_page_identity ext (sn_workspace s) (ni_uuid x) (ni_kind x) = Inr ()) \<and>
      distinct (map ni_uuid (sn_identities s)) \<and> distinct (journal_dates (sn_identities s)) \<and> ids = id_table s" for ids
    by (auto simp: fold_identities id_table_def tab_def)
  have parents: "fold_res (\<lambda>x _. check_parent bs x) (map snd (rows bs)) () = Inr () \<longleftrightarrow>
      (\<forall>b \<in> snd ` set (rows bs). check_parent bs b = Inr ())" for bs
    unfolding fold_res_all_ok by simp
  have all: "list_all (\<lambda>(u, _). has ss u) (rows bs) \<longleftrightarrow> (\<forall>b \<in> fst ` set (rows bs). has ss b)"
    for bs :: "(uuid, snapshot_block) table" and ss :: "(uuid, snapshot_block_structure) table"
    by (force simp: list_all_iff)
  have tabs: "tab ni_uuid ni_kind (sn_identities s) = id_table s" "tab np_uuid (\<lambda>x. x) (sn_pages s) = page_table s"
    "tab nb_uuid (\<lambda>x. x) (sn_blocks s) = block_table s" "tab nt_uuid (\<lambda>x. x) (sn_tombstones s) = tomb_table s"
    by (simp_all add: id_table_def page_table_def block_table_def tomb_table_def)
  show ?thesis
    by (simp add: validate_snapshot_def guard_Inr attempt_Inr ids parents all version_check.run page_check.run
        alias_check.run block_check.run tombstone_check.run structure_check.run tabs conj_assoc
        del: fold_res.simps cong del: attempt_cong)
qed

lemma rows_block_table:
  assumes "distinct (map nb_uuid (sn_blocks s))"
  shows "snd ` set (rows (block_table s)) = set (sn_blocks s)" "fst ` set (rows (block_table s)) = nb_uuid ` set (sn_blocks s)"
proof -
  have mem: "(u, b) \<in> set (rows (block_table s)) \<longleftrightarrow> b \<in> set (sn_blocks s) \<and> nb_uuid b = u" for u b
    using assms by (simp add: set_rows get_block_table)
  have "snd ` set (rows (block_table s)) = {b. \<exists>u. (u, b) \<in> set (rows (block_table s))}"
    "fst ` set (rows (block_table s)) = {u. \<exists>b. (u, b) \<in> set (rows (block_table s))}" by force+
  then show "snd ` set (rows (block_table s)) = set (sn_blocks s)" "fst ` set (rows (block_table s)) = nb_uuid ` set (sn_blocks s)"
    by (auto simp: mem)
qed

lemma live_block_at:
  assumes "distinct (map nb_uuid (sn_blocks s))" and "get (block_table s) p = Some c"
  shows "live_block s p q \<longleftrightarrow> nb_page c = q"
proof -
  have c: "c \<in> set (sn_blocks s)" "nb_uuid c = p" using assms by (simp_all add: get_block_table)
  have eq: "b = c" if "b \<in> set (sn_blocks s)" "nb_uuid b = p" for b
    using that assms(2) get_block_table [OF assms(1), of p b] by simp
  show ?thesis unfolding live_block_def using c eq by blast
qed

lemma check_parent_iff:
  assumes "distinct (map nb_uuid (sn_blocks s))"
  shows "check_parent (block_table s) b = Inr () \<longleftrightarrow> (\<forall>p. nb_parent b = Some p \<longrightarrow> live_block s p (nb_page b))"
proof (cases "nb_parent b")
  case (Some p)
  show ?thesis
  proof (cases "get (block_table s) p")
    case None
    then have "\<not> live_block s p (nb_page b)"
      using get_block_table [OF assms, of p] by (auto simp: live_block_def)
    with None Some show ?thesis by (simp add: check_parent_def)
  next
    case (Some c)
    have "live_block s p (nb_page b) \<longleftrightarrow> nb_page c = nb_page b" by (rule live_block_at [OF assms Some])
    with \<open>nb_parent b = Some p\<close> Some show ?thesis by (auto simp: check_parent_def res)
  qed
qed (simp add: check_parent_def)

lemma check_raw_parent_iff:
  assumes b: "distinct (map nb_uuid (sn_blocks s))" and t: "distinct (map nt_uuid (sn_tombstones s))"
    and disjoint: "\<forall>x \<in> set (sn_tombstones s). nt_uuid x \<notin> nb_uuid ` set (sn_blocks s)"
  shows "check_raw_parent (block_table s) (tomb_table s) x = Inr () \<longleftrightarrow>
     (\<forall>p. ns_parent x = Some p \<longrightarrow> live_block s p (ns_page x) \<or> buried s p BlockObject)"
proof (cases "ns_parent x")
  case (Some p)
  show ?thesis
  proof (cases "get (block_table s) p")
    case None
    then have "\<not> live_block s p (ns_page x)"
      using get_block_table [OF b, of p] by (auto simp: live_block_def)
    moreover have "(case get (tomb_table s) p of None \<Rightarrow> False | Some t \<Rightarrow> nt_kind t = BlockObject) \<longleftrightarrow> buried s p BlockObject"
      using get_tomb_table [OF t, of p BlockObject] by (auto split: option.splits)
    ultimately show ?thesis using None Some by (simp add: check_raw_parent_def res)
  next
    case (Some c)
    have "live_block s p (ns_page x) \<longleftrightarrow> nb_page c = ns_page x" by (rule live_block_at [OF b Some])
    moreover have "p \<in> nb_uuid ` set (sn_blocks s)" using get_block_table [OF b, of p c] Some by auto
    then have "\<not> buried s p BlockObject" using disjoint by (auto simp: buried_def)
    ultimately show ?thesis using \<open>ns_parent x = Some p\<close> Some by (auto simp: check_raw_parent_def res)
  qed
qed (simp add: check_raw_parent_def)

lemma attachment_good_iff:
  assumes "distinct (map nt_uuid (sn_tombstones s))"
  shows "attachment_good (page_table s) (block_table s) (tomb_table s) x \<longleftrightarrow>
     (case sa_owner x of
        PageOwner u \<Rightarrow> live_page s u \<or> buried s u PageObject
      | BlockOwner u \<Rightarrow> u \<in> nb_uuid ` set (sn_blocks s) \<or> buried s u BlockObject)"
  unfolding attachment_good_def get_tomb_table [OF assms] by (simp split: attachment_owner.split)

lemma tombstone_good_iff:
  "(case nt_kind x of
      PageObject \<Rightarrow> \<not> live_page s (nt_uuid x) \<and> nt_uuid x \<notin> B \<and> nt_uuid x \<in> I \<and> nt_root x = Some (nt_uuid x)
    | BlockObject \<Rightarrow> nt_uuid x \<notin> B \<and> nt_uuid x \<notin> I \<and> nt_root x \<noteq> None) \<longleftrightarrow>
   nt_uuid x \<notin> B \<and>
   (case nt_kind x of
      PageObject \<Rightarrow> \<not> live_page s (nt_uuid x) \<and> nt_uuid x \<in> I \<and> nt_root x = Some (nt_uuid x)
    | BlockObject \<Rightarrow> nt_uuid x \<notin> I \<and> nt_root x \<noteq> None)"
  by (auto split: object_kind.split)

lemma structure_good_iff:
  assumes "distinct (map nb_uuid (sn_blocks s))"
  shows "(\<exists>b. get (block_table s) (ns_block x) = Some b \<and> ns_page x = nb_page b \<and> L \<and>
            nb_structure_hlc b = Some (ns_hlc x) \<and> nb_order b = ns_order x) \<longleftrightarrow>
     L \<and> (\<exists>b \<in> set (sn_blocks s). nb_uuid b = ns_block x \<and> nb_page b = ns_page x \<and>
            nb_structure_hlc b = Some (ns_hlc x) \<and> nb_order b = ns_order x)"
  unfolding get_block_table [OF assms] by auto

lemma validate_valid: "validate_snapshot ext s = Inr () \<longleftrightarrow> valid_snapshot ext s"
proof (cases "distinct (map ni_uuid (sn_identities s)) \<and> distinct (map nb_uuid (sn_blocks s)) \<and>
              distinct (map nt_uuid (sn_tombstones s))")
  case False
  then show ?thesis
    by (auto simp: validate_unfolded block_check.run tombstone_check.run valid_defs)
next
  case True
  then have d: "distinct (map ni_uuid (sn_identities s))" "distinct (map nb_uuid (sn_blocks s))"
    "distinct (map nt_uuid (sn_tombstones s))" by auto
  have hand: "get (id_table s) u \<noteq> Some Handwriting \<longleftrightarrow> \<not> identity_of s u Handwriting" for u
    by (simp add: get_id_table d)
  show ?thesis
  proof (cases "\<forall>x \<in> set (sn_tombstones s). nt_uuid x \<notin> nb_uuid ` set (sn_blocks s)")
    case True
    show ?thesis
      unfolding validate_unfolded version_check.run page_check.run alias_check.run block_check.run tombstone_check.run
        structure_check.run fold_attachments rows_block_table [OF d(2)] check_parent_iff [OF d(2)] hand
        check_raw_parent_iff [OF d(2,3) True] attachment_good_iff [OF d(3)] get_id_table [OF d(1)] table_has
        structure_good_iff [OF d(2)] tombstone_good_iff valid_defs
      by auto
  next
    case False
    then show ?thesis
      unfolding validate_unfolded tombstone_check.run table_has tombstone_good_iff valid_defs by blast
  qed
qed

end
