(* ===== verification/Bootstrap.thy ===== *)
theory Bootstrap
  imports SnapshotProps
begin

text \<open>
  What a replica can bootstrap from: which states export a snapshot that validation accepts, and
  that installing such a snapshot restores the replicated tables exactly.
\<close>

section \<open>Exported rows\<close>

lemma map_res_Inr: "map_res f xs = Inr ys \<longleftrightarrow> map f xs = map Inr ys"
proof (induction xs arbitrary: ys)
  case (Cons x xs)
  show ?case by (cases ys) (auto simp: res Cons.IH)
qed auto

lemma export_obtain:
  assumes "export_snapshot seq d = Inr s"
  obtains ps where "map (export_page d) (rows (pages d)) = map Inr ps" "sn_pages s = ps"
    "sn_ink_versions s = all_versions (ink d)" "sn_format s = format_version" "sn_workspace s = workspace d" "sn_seq s = seq"
    "sn_identities s = map (\<lambda>(u, k). \<lparr>ni_uuid = u, ni_kind = k\<rparr>) (rows (identities d))"
    "sn_aliases s = map (\<lambda>((u, al), r). \<lparr>na_page = u, na_alias = al, na_hlc = al_hlc r, na_present = al_present r\<rparr>) (rows (aliases d))"
    "sn_blocks s = map export_block (rows (blocks d))"
    "sn_structures s = map (\<lambda>(u, i). \<lparr>ns_block = u, ns_page = i_page i, ns_parent = i_parent i,
        ns_order = i_order i, ns_hlc = i_hlc i\<rparr>) (rows (intents d))"
    "sn_tombstones s = map (\<lambda>(u, r). \<lparr>nt_uuid = u, nt_kind = t_kind r, nt_hlc = t_hlc r, nt_root = t_root r\<rparr>) (rows (tombstones d))"
    "sn_attachments s = map export_attachment (rows (attachment_lww d))"
  using assms by (auto simp: export_snapshot_def res map_res_Inr)

lemma exported_page:
  assumes "map (export_page d) (rows (pages d)) = map Inr ps"
  shows "x \<in> set ps \<longleftrightarrow> (\<exists>u r. get (pages d) u = Some r \<and> export_page d (u, r) = Inr x)"
proof -
  have "x \<in> set ps \<longleftrightarrow> Inr x \<in> set (map (export_page d) (rows (pages d)))"
    unfolding assms by auto
  also have "\<dots> \<longleftrightarrow> (\<exists>e \<in> set (rows (pages d)). export_page d e = Inr x)" by (auto simp: image_iff) metis
  also have "\<dots> \<longleftrightarrow> (\<exists>u r. (u, r) \<in> set (rows (pages d)) \<and> export_page d (u, r) = Inr x)" by auto
  finally show ?thesis by (simp add: set_rows)
qed

lemma export_page_uuid: "export_page d (u, r) = Inr x \<Longrightarrow> np_uuid x = u"
  by (auto simp: export_page_def split: option.splits)

lemma exported_live_page:
  assumes "map (export_page d) (rows (pages d)) = map Inr ps"
  shows "np_uuid ` set ps = {u. has (pages d) u}"
proof (intro equalityI subsetI)
  fix u assume "u \<in> np_uuid ` set ps"
  then obtain x where "x \<in> set ps" "np_uuid x = u" by auto
  then show "u \<in> {u. has (pages d) u}"
    unfolding exported_page [OF assms] by (auto dest: export_page_uuid intro: has_SomeI)
next
  fix u assume "u \<in> {u. has (pages d) u}"
  then obtain r where r: "get (pages d) u = Some r" by (auto simp: has_def)
  then have "export_page d (u, r) \<in> set (map (export_page d) (rows (pages d)))"
    by (simp add: image_iff) (metis set_rows)
  then obtain x where "export_page d (u, r) = Inr x" unfolding assms by auto
  with r have "x \<in> set ps" "np_uuid x = u" by (auto simp: exported_page [OF assms] dest: export_page_uuid)
  then show "u \<in> np_uuid ` set ps" by auto
qed

text \<open>Validation asks that every raw intent names a live page and that its block is on that page.\<close>

lemma export_valid_intent:
  assumes e: "export_snapshot seq d = Inr s" and v: "validate_snapshot ext s = Inr ()" and i: "get (intents d) u = Some i"
  shows "has (pages d) (i_page i) \<and> (\<exists>r. get (blocks d) u = Some r \<and> b_page r = i_page i \<and>
           b_structure_hlc r = Some (i_hlc i) \<and> b_order r = i_order i)"
proof -
  from e obtain ps where ps: "map (export_page d) (rows (pages d)) = map Inr ps" "sn_pages s = ps"
    and bs: "sn_blocks s = map export_block (rows (blocks d))"
    and ss: "sn_structures s = map (\<lambda>(u, i). \<lparr>ns_block = u, ns_page = i_page i, ns_parent = i_parent i,
        ns_order = i_order i, ns_hlc = i_hlc i\<rparr>) (rows (intents d))"
    by (rule export_obtain)
  let ?x = "\<lparr>ns_block = u, ns_page = i_page i, ns_parent = i_parent i, ns_order = i_order i, ns_hlc = i_hlc i\<rparr>"
  have "?x \<in> set (sn_structures s)" using i by (force simp: ss set_rows)
  with v have "live_page s (i_page i)" and b: "\<exists>b \<in> set (sn_blocks s). nb_uuid b = u \<and> nb_page b = i_page i \<and>
      nb_structure_hlc b = Some (i_hlc i) \<and> nb_order b = i_order i"
    unfolding validate_valid valid_snapshot_def structures_valid_def by force+
  then have "has (pages d) (i_page i)" using exported_live_page [OF ps(1)] by (simp add: live_page_def ps(2))
  moreover from b have "\<exists>r. get (blocks d) u = Some r \<and> b_page r = i_page i \<and>
      b_structure_hlc r = Some (i_hlc i) \<and> b_order r = i_order i"
    by (auto simp: bs export_block_def set_rows)
  ultimately show ?thesis by blast
qed

lemma move_block_intent:
  assumes "\<not> e_dirty (fst st)" and "hlc_wins (map_option i_hlc (get (intents (snd st)) (bv_uuid p))) t"
  shows "get (intents (snd (move_block t p st))) (bv_uuid p) =
           Some \<lparr>i_page = bv_page_uuid p, i_parent = bv_parent_uuid p, i_order = bv_order_key p, i_hlc = t\<rparr>"
proof -
  have frame: "intents (snd (request_structure st)) = intents (snd st)" "intents (touch_block_updated u t d) = intents d"
    for st u d
    by (simp_all add: request_structure_def project_structure_def reconcile_place place_def touch_block_updated_def
        split: prod.split)
  show "get (intents (snd (move_block t p st))) (bv_uuid p) =
      Some \<lparr>i_page = bv_page_uuid p, i_parent = bv_parent_uuid p, i_order = bv_order_key p, i_hlc = t\<rparr>"
    using assms by (auto simp: move_block_def Let_def frame write_structure_intent_def get_upsert_newer hlc_wins_def
        split: option.splits)
qed

text \<open>
  C23. The validator is exact: a snapshot is accepted if and only if it satisfies the declarative
  predicate, that is: unique keys in every section, one identity per journal date, pages and aliases
  with their identity, blocks and raw intents on live pages with their parents there, every block with
  its raw intent, tombstones disjoint from live objects, and attachments whose owner is known. In
  particular acceptance does not depend on the order of the rows.
\<close>

theorem validate_snapshot_exact: "validate_snapshot ext s = Inr () \<longleftrightarrow> valid_snapshot ext s"
  by (rule validate_valid)

section \<open>A state that cannot be bootstrapped from\<close>

lemma export_defined:
  assumes "\<And>u. has (pages d) u \<Longrightarrow> has (identities d) u"
  shows "\<exists>s. export_snapshot seq d = Inr s"
proof -
  have "\<exists>ys. map_res (export_page d) (rows (pages d)) = Inr ys \<and> map np_uuid ys = map fst (rows (pages d))"
    using assms by (intro map_res_ok) (force simp: set_rows has_def export_page_def split: option.split)
  then show ?thesis by (auto simp: export_snapshot_def)
qed

lemma move_block_frame:
  assumes "\<not> e_dirty (fst st)"
  shows "pages (snd (move_block t p st)) = pages (snd st)" "identities (snd (move_block t p st)) = identities (snd st)"
proof -
  have frame: "pages (snd (request_structure st)) = pages (snd st)" "identities (snd (request_structure st)) = identities (snd st)"
    "pages (touch_block_updated u t d) = pages d" "identities (touch_block_updated u t d) = identities d" for st u d
    by (simp_all add: request_structure_def project_structure_def reconcile_place place_def touch_block_updated_def
        split: prod.split)
  show "pages (snd (move_block t p st)) = pages (snd st)" "identities (snd (move_block t p st)) = identities (snd st)"
    using assms by (simp_all add: move_block_def Let_def frame)
qed

lemma prepare_validates: "prepare_snapshot ext s = Inr () \<Longrightarrow> validate_snapshot ext s = Inr ()"
  by (auto simp: prepare_snapshot_def res cong del: attempt_cong)

text \<open>
  C22. A move to a page that is not there keeps the raw intent, as the comment in the handler says it
  should; but the snapshot that such a replica exports is refused by every replica that tries to
  bootstrap from it, because validation asks that a raw intent and its block agree on a live page.
\<close>

theorem unavailable_move_breaks_bootstrap:
  assumes "op_kind x = BlockMove p" "\<not> has (pages d) (bv_page_uuid p)" "\<not> is_tombstoned d (bv_uuid p)"
    and "hlc_wins (map_option i_hlc (get (intents d) (bv_uuid p))) (op_hlc x)"
    and "apply_one ext x (effects_immediate, d) = Inr (us, st)" "export_snapshot seq (snd st) = Inr s"
  shows "prepare_snapshot ext' s \<noteq> Inr ()"
proof
  assume "prepare_snapshot ext' s = Inr ()"
  then have v: "validate_snapshot ext' s = Inr ()" by (rule prepare_validates)
  have st: "st = move_block (op_hlc x) p (effects_immediate, d)"
    using assms(1,3,5) by (auto simp: apply_one_def apply_block_move_def res Let_def)
  have clean: "\<not> e_dirty (fst (effects_immediate, d))" by (simp add: effects_immediate_def)
  have "get (intents (snd st)) (bv_uuid p) =
      Some \<lparr>i_page = bv_page_uuid p, i_parent = bv_parent_uuid p, i_order = bv_order_key p, i_hlc = op_hlc x\<rparr>"
    unfolding st using assms(4) by (intro move_block_intent [OF clean]) simp
  from export_valid_intent [OF assms(6) v this] have "has (pages (snd st)) (bv_page_uuid p)" by simp
  with assms(2) show False by (simp add: st move_block_frame [OF clean])
qed

definition sample_lost_move :: op where
  "sample_lost_move =
     \<lparr>op_id = 30, op_workspace = 7, op_device = 3, op_hlc = Hlc 50 0 3, op_format = 7,
      op_kind = BlockMove \<lparr>bv_uuid = 1, bv_page_uuid = 8, bv_parent_uuid = None, bv_order_key = first_key\<rparr>\<rparr>"

theorem unavailable_move_breaks_bootstrap_witness:
  "\<exists>us st s. apply_one ascii_externals sample_lost_move (effects_immediate, sample_db) = Inr (us, st) \<and>
     export_snapshot 5 (snd st) = Inr s \<and> prepare_snapshot ascii_externals s \<noteq> Inr ()"
proof -
  let ?st = "move_block (Hlc 50 0 3) \<lparr>bv_uuid = 1, bv_page_uuid = 8, bv_parent_uuid = None, bv_order_key = first_key\<rparr>
      (effects_immediate, sample_db)"
  have ok: "apply_one ascii_externals sample_lost_move (effects_immediate, sample_db) = Inr ([1, 8], ?st)"
    by (simp add: apply_one_def sample_lost_move_def apply_block_move_def Let_def sample_db_def empty_db_def
        ensure_text_note_target_def page_identity_def ensure_object_kind_def kind_conflicts_def ensure_parent_kind_def
        is_tombstoned_def cong del: attempt_cong)
  have rows: "pages (snd ?st) = pages sample_db" "identities (snd ?st) = identities sample_db"
    by (simp_all add: move_block_frame effects_immediate_def)
  have "\<exists>s. export_snapshot 5 (snd ?st) = Inr s"
    by (rule export_defined) (unfold rows, auto simp: sample_db_def)
  with ok obtain us st s where run: "apply_one ascii_externals sample_lost_move (effects_immediate, sample_db) = Inr (us, st)"
      "export_snapshot 5 (snd st) = Inr s"
    by auto
  have kind: "op_kind sample_lost_move = BlockMove \<lparr>bv_uuid = 1, bv_page_uuid = 8, bv_parent_uuid = None,
      bv_order_key = first_key\<rparr>" by (simp add: sample_lost_move_def)
  have "prepare_snapshot ascii_externals s \<noteq> Inr ()"
    by (rule unavailable_move_breaks_bootstrap [OF kind _ _ _ run])
      (auto simp: sample_db_def sample_lost_move_def sample_input_def empty_db_def is_tombstoned_def hlc_wins_def
        less_hlc_def sample_intent_def Let_def)
  with run show ?thesis by blast
qed

end
