(* ===== verification/OplogProps.thy ===== *)
theory OplogProps
  imports History Bootstrap
begin

text \<open>
  The server's log as a refinement of the abstract history, and the actor that feeds it: a batch is
  ingested whole or leaves no trace, and the user's replica always holds exactly what the log says.
\<close>

section \<open>The table represents a history\<close>

definition row_matches :: "64 word \<times> oplog_row \<Rightarrow> seq_op \<Rightarrow> bool" where
  "row_matches row y \<longleftrightarrow>
     fst row = so_seq y \<and> ol_op_id (snd row) = op_id (so_envelope y) \<and>
     decode_envelope (ol_envelope (snd row)) = Inr (so_envelope y)"

definition represents :: "oplog \<Rightarrow> op list \<Rightarrow> bool" where
  "represents t L \<longleftrightarrow> history_ok L \<and> list_all2 row_matches (rows t) (number L)"

definition history_of :: "oplog \<Rightarrow> op list" where
  "history_of t = map (\<lambda>(_, r). projr (decode_envelope (ol_envelope r))) (rows t)"

lemma represents_history:
  assumes "represents t L"
  shows "history_of t = L"
proof -
  have "list_all2 row_matches (rows t) (number L)" using assms by (simp add: represents_def)
  then have "map (\<lambda>(_, r). projr (decode_envelope (ol_envelope r))) (rows t) = map so_envelope (number L)"
    by (induction rule: list_all2_induct) (auto simp: row_matches_def)
  then show ?thesis by (simp add: history_of_def)
qed

lemma represents_length: "represents t L \<Longrightarrow> length (rows t) = length L"
  by (auto simp: represents_def dest: list_all2_lengthD)

lemma represents_key:
  assumes "represents t L" "i < length L"
  shows "fst (rows t ! i) = of_nat (Suc i)" "ol_op_id (snd (rows t ! i)) = op_id (L ! i)"
    "decode_envelope (ol_envelope (snd (rows t ! i))) = Inr (L ! i)"
proof -
  have "row_matches (rows t ! i) (number L ! i)"
    using assms represents_length [OF assms(1)] by (simp add: represents_def list_all2_conv_all_nth)
  then show "fst (rows t ! i) = of_nat (Suc i)" "ol_op_id (snd (rows t ! i)) = op_id (L ! i)"
    "decode_envelope (ol_envelope (snd (rows t ! i))) = Inr (L ! i)"
    by (simp_all add: row_matches_def number_nth [OF assms(2)])
qed

lemma represents_latest:
  assumes "represents t L"
  shows "latest_seq t = of_nat (length L)"
proof (cases "L = []")
  case False
  then have "rows t \<noteq> []" using represents_length [OF assms] by auto
  then have "last (rows t) = rows t ! (length L - 1)" using represents_length [OF assms] by (simp add: last_conv_nth)
  moreover have "length L - 1 < length L" using False by simp
  ultimately show ?thesis
    using represents_key(1) [OF assms] \<open>rows t \<noteq> []\<close> by (simp add: latest_seq_def)
qed (use represents_length [OF assms] in \<open>simp add: latest_seq_def\<close>)

lemma represents_in_rows:
  assumes "represents t L" "(k, r) \<in> set (rows t)"
  obtains x where "at_seq L k x" "ol_op_id r = op_id x" "decode_envelope (ol_envelope r) = Inr x"
proof -
  from assms(2) obtain i where i: "i < length L" "rows t ! i = (k, r)"
    using represents_length [OF assms(1)] by (auto simp: in_set_conv_nth)
  have h: "history_ok L" using assms(1) by (simp add: represents_def)
  have "at_seq L k (L ! i)"
    using represents_key(1) [OF assms(1) i(1)] i unat_seq [OF h, of "Suc i"]
    by (simp add: at_seq_def del: of_nat_Suc)
  moreover have "ol_op_id r = op_id (L ! i)" "decode_envelope (ol_envelope r) = Inr (L ! i)"
    using represents_key(2,3) [OF assms(1) i(1)] i(2) by simp_all
  ultimately show thesis by (rule that)
qed

lemma represents_ids:
  assumes "represents t L"
  shows "(\<lambda>(_, r). ol_op_id r) ` set (rows t) = op_id ` set L"
proof -
  have "list_all2 row_matches (rows t) (number L)" using assms by (simp add: represents_def)
  then have "map (\<lambda>(_, r). ol_op_id r) (rows t) = map (\<lambda>y. op_id (so_envelope y)) (number L)"
    by (induction rule: list_all2_induct) (auto simp: row_matches_def)
  also have "\<dots> = map op_id L" by (metis (no_types, lifting) map_eq_conv map_map comp_apply number_envelopes)
  finally show ?thesis by (metis set_map)
qed

lemma ins_row_last: "\<forall>k' \<in> fst ` set rs. k' < k \<Longrightarrow> ins_row k v rs = rs @ [(k, v)]"
  by (induction k v rs rule: ins_row.induct) auto

section \<open>Appending and taking back\<close>

lemma find_logged_cases:
  assumes "represents t L"
  obtains "find_logged u t = None" "u \<notin> op_id ` set L"
  | k r x where "find_logged u t = Some (k, r)" "at_seq L k x" "op_id x = u" "decode_envelope (ol_envelope r) = Inr x"
proof (cases "find_logged u t")
  case None
  then have "u \<notin> (\<lambda>(_, r). ol_op_id r) ` set (rows t)" by (auto simp: find_logged_def find_None_iff)
  with None that(1) represents_ids [OF assms] show thesis by simp
next
  case (Some e)
  obtain k r where e: "e = (k, r)" by force
  from Some e have "(k, r) \<in> set (rows t)" "ol_op_id r = u"
    by (auto simp: find_logged_def find_Some_iff in_set_conv_nth)
  from represents_in_rows [OF assms this(1)] this(2) Some e that(2) show thesis by metis
qed

lemma history_extend:
  assumes "history_ok L" "op_id x \<notin> op_id ` set L" "uint (of_nat (length L) :: 64 word) < i64_max"
  shows "history_ok (L @ [x])"
proof -
  have "uint (of_nat (length L) :: 64 word) = int (length L)"
    using unat_seq [OF assms(1) le_refl] by (metis uint_nat)
  with assms show ?thesis by (auto simp: history_ok_def)
qed

lemma append_new:
  assumes r: "represents t L" and new: "op_id x \<notin> op_id ` set L" and room: "uint (latest_seq t) < i64_max"
    and row: "row = \<lparr>ol_op_id = op_id x, ol_envelope = encode_persisted_envelope x\<rparr>"
  shows "rows (put (latest_seq t + 1) row t) = rows t @ [(of_nat (Suc (length L)), row)]"
    "represents (put (latest_seq t + 1) row t) (L @ [x])"
proof -
  have h: "history_ok L" using r by (simp add: represents_def)
  have h': "history_ok (L @ [x])"
    using history_extend [OF h new] room by (simp add: represents_latest [OF r])
  have key: "latest_seq t + 1 = of_nat (Suc (length L))" by (simp add: represents_latest [OF r])
  have "k < of_nat (Suc (length L))" if "k \<in> fst ` set (rows t)" for k
  proof -
    from that obtain v where "(k, v) \<in> set (rows t)" by auto
    then obtain y where "at_seq L k y" using represents_in_rows [OF r] by metis
    then show ?thesis
      using unat_seq [OF h', of "Suc (length L)"] by (simp add: at_seq_def word_less_nat_alt del: of_nat_Suc)
  qed
  then show rows: "rows (put (latest_seq t + 1) row t) = rows t @ [(of_nat (Suc (length L)), row)]"
    by (simp add: key ins_row_last del: of_nat_Suc)
  have "row_matches (of_nat (Suc (length L)), row) \<lparr>so_seq = of_nat (Suc (length L)), so_envelope = x\<rparr>"
    by (simp add: row_matches_def row decode_envelope_def)
  then show "represents (put (latest_seq t + 1) row t) (L @ [x])"
    using r h' by (simp add: represents_def rows number_append list_all2_appendI del: of_nat_Suc rows_put)
qed

lemma oplog_append_cases:
  assumes r: "represents t L" and ok: "oplog_append x t = Inr (a, t')"
  obtains "\<not> ao_inserted a" "t' = t" "at_seq L (so_seq (ao_operation a)) x" "so_envelope (ao_operation a) = x"
  | "ao_inserted a" "represents t' (L @ [x])" "ao_operation a = \<lparr>so_seq = of_nat (Suc (length L)), so_envelope = x\<rparr>"
      "remove_tail (ao_operation a) t' = Inr t"
  using r
proof (cases rule: find_logged_cases [of t L "op_id x"])
  case 1
  have key: "latest_seq t + 1 = of_nat (Suc (length L))" by (simp add: represents_latest [OF r])
  let ?row = "\<lparr>ol_op_id = op_id x, ol_envelope = encode_persisted_envelope x\<rparr>"
  from ok 1 have room: "uint (latest_seq t) < i64_max" and t': "t' = put (latest_seq t + 1) ?row t"
    and a: "a = \<lparr>ao_operation = \<lparr>so_seq = latest_seq t + 1, so_envelope = x\<rparr>, ao_inserted = True\<rparr>"
    by (auto simp: oplog_append_def Let_def res)
  note new = append_new [OF r 1(2) room refl]
  have h': "history_ok (L @ [x])" using new(2) by (simp add: represents_def)
  have latest: "latest_seq t' = of_nat (Suc (length L))" using represents_latest [OF new(2)] by (simp add: t')
  have "uint (of_nat (Suc (length L)) :: 64 word) \<le> i64_max"
  proof -
    have "uint (of_nat (Suc (length L)) :: 64 word) = int (Suc (length L))"
      using unat_seq [OF h', of "Suc (length L)"] by (metis length_append_singleton le_refl uint_nat)
    with h' show ?thesis by (simp add: history_ok_def)
  qed
  moreover have "filter (\<lambda>(k, r). \<not> (k = of_nat (Suc (length L)) \<and> ol_op_id r = op_id x)) (rows t') = rows t"
  proof -
    have "\<not> (k = of_nat (Suc (length L)) \<and> ol_op_id r = op_id x)" if "(k, r) \<in> set (rows t)" for k r
    proof -
      from that obtain y where "at_seq L k y" "ol_op_id r = op_id y" using represents_in_rows [OF r] by metis
      then have "y \<in> set L" by (auto simp: at_seq_def)
      with \<open>ol_op_id r = op_id y\<close> 1(2) show ?thesis by (metis imageI)
    qed
    then have "filter (\<lambda>(k, r). \<not> (k = of_nat (Suc (length L)) \<and> ol_op_id r = op_id x)) (rows t) = rows t"
      by (auto simp: filter_id_conv)
    then show ?thesis by (simp add: t' new(1) del: rows_put of_nat_Suc)
  qed
  then have "filt (\<lambda>k r. \<not> (k = of_nat (Suc (length L)) \<and> ol_op_id r = op_id x)) t' = t"
    by (simp add: rows_inject [symmetric])
  ultimately have "remove_tail (ao_operation a) t' = Inr t"
    by (simp add: remove_tail_def latest a key del: of_nat_Suc)
  with new(2) show thesis by (intro that(2)) (simp_all add: a t' key del: of_nat_Suc)
next
  case (2 k r y)
  from ok 2 have "y = x" "t' = t" "a = \<lparr>ao_operation = \<lparr>so_seq = k, so_envelope = y\<rparr>, ao_inserted = False\<rparr>"
    by (auto simp: oplog_append_def res)
  with 2 show thesis by (intro that(1)) auto
qed

section \<open>Reading\<close>

lemma map_res_prefix_ok:
  assumes "list_all2 (\<lambda>x y. f x = Inr y) xs ys"
  shows "map_res f xs = Inr ys"
  using assms by (induction rule: list_all2_induct) simp_all

lemma rows_above:
  assumes r: "represents t L"
  shows "filter (\<lambda>(k, _). c < k) (rows t) = drop (unat c) (rows t)"
proof -
  have h: "history_ok L" using r by (simp add: represents_def)
  let ?n = "min (unat c) (length L)"
  have split: "rows t = take ?n (rows t) @ drop ?n (rows t)" by simp
  have idx: "c < fst (rows t ! i) \<longleftrightarrow> unat c \<le> i" if "i < length L" for i
    using represents_key(1) [OF r that] unat_seq [OF h, of "Suc i"] that
    by (auto simp: word_less_nat_alt simp del: of_nat_Suc)
  have "\<forall>e \<in> set (take ?n (rows t)). \<not> c < fst e"
  proof
    fix e assume "e \<in> set (take ?n (rows t))"
    then obtain i where "i < ?n" "e = rows t ! i"
      using represents_length [OF r] by (auto simp: in_set_conv_nth)
    with idx [of i] show "\<not> c < fst e" by simp
  qed
  then have "filter (\<lambda>(k, _). c < k) (take ?n (rows t)) = []" by (auto simp: filter_empty_conv)
  moreover have "\<forall>e \<in> set (drop ?n (rows t)). c < fst e"
  proof
    fix e assume "e \<in> set (drop ?n (rows t))"
    then obtain j where j: "j < length (rows t) - ?n" "e = rows t ! (?n + j)"
      by (auto simp: in_set_conv_nth)
    then have "?n + j < length L" using represents_length [OF r] by linarith
    then have "unat c \<le> ?n + j" by linarith
    with idx [OF \<open>?n + j < length L\<close>] j show "c < fst e" by simp
  qed
  then have "filter (\<lambda>(k, _). c < k) (drop ?n (rows t)) = drop ?n (rows t)" by (auto simp: filter_id_conv)
  moreover have "drop ?n (rows t) = drop (unat c) (rows t)"
    using represents_length [OF r] by (simp add: min_def)
  ultimately show ?thesis by (subst split) (simp only: filter_append append_Nil)
qed

lemma since_page:
  assumes r: "represents t L"
  shows "oplog_since c n t =
     guard (uint c \<le> i64_max) (Failure ''oplog cursor exceeds SQLite integer'')
     (guard (int n \<le> i64_max) (Failure ''oplog limit exceeds SQLite integer'') (Inr (page_after L c n)))"
proof -
  let ?f = "\<lambda>(seq, r). attempt (decode_envelope (ol_envelope r)) (\<lambda>x. Inr \<lparr>so_seq = seq, so_envelope = x\<rparr>)"
  have all: "list_all2 (\<lambda>x y. ?f x = Inr y) (rows t) (number L)"
  proof (rule list_all2_mono)
    show "list_all2 row_matches (rows t) (number L)" using r by (simp add: represents_def)
    fix x y assume "row_matches x y"
    then show "?f x = Inr y" by (cases x, cases y) (simp add: row_matches_def)
  qed
  have "map_res ?f (take n (drop (unat c) (rows t))) = Inr (take n (drop (unat c) (number L)))"
    by (rule map_res_prefix_ok) (intro list_all2_takeI list_all2_dropI all)
  then show ?thesis by (simp add: oplog_since_def rows_above [OF r] page_after_def)
qed

lemma since_represents: "represents t L \<Longrightarrow> oplog_since c n t = Inr xs \<Longrightarrow> xs = page_after L c n"
  by (simp add: since_page guard_Inr)

section \<open>A batch on the log\<close>

lemma remove_all_append:
  "remove_all xs t = (None, t1) \<Longrightarrow> remove_all (xs @ ys) t = remove_all ys t1"
proof (induction xs arbitrary: t)
  case (Cons a xs)
  then show ?case by (cases "remove_tail (ao_operation a) t") auto
qed simp

definition appended :: "oplog \<Rightarrow> op list \<Rightarrow> append_outcome list \<Rightarrow> op list \<Rightarrow> oplog \<Rightarrow> bool" where
  "appended t L as new t' \<longleftrightarrow>
     represents t' (L @ new) \<and> remove_all (rev (filter ao_inserted as)) t' = (None, t) \<and>
     map ao_operation (filter ao_inserted as) = drop (length L) (number (L @ new)) \<and>
     (\<forall>a \<in> set as. at_seq (L @ new) (so_seq (ao_operation a)) (so_envelope (ao_operation a)))"

lemma appended_Nil: "represents t L \<Longrightarrow> appended t L [] [] t"
  by (simp add: appended_def)

lemma appended_step:
  assumes a: "appended t L as new t1" and ok: "oplog_append x t1 = Inr (a, t2)"
  shows "(\<exists>new'. appended t L (as @ [a]) new' t2) \<and> so_envelope (ao_operation a) = x"
proof -
  have r: "represents t1 (L @ new)" using a by (simp add: appended_def)
  from oplog_append_cases [OF r ok] show ?thesis
  proof cases
    case 1
    with a have "appended t L (as @ [a]) new t2" by (auto simp: appended_def)
    with 1 show ?thesis by blast
  next
    case 2
    have h: "history_ok (L @ new @ [x])" using 2(2) by (simp add: represents_def)
    have "remove_all (rev (filter ao_inserted (as @ [a]))) t2 = (None, t)"
      using a 2 by (simp add: appended_def)
    moreover have "map ao_operation (filter ao_inserted (as @ [a])) = drop (length L) (number (L @ new @ [x]))"
      using a 2(1,3) number_append [of "L @ new" x] by (simp add: appended_def del: of_nat_Suc)
    moreover have "at_seq (L @ new @ [x]) (so_seq (ao_operation a)) (so_envelope (ao_operation a))"
    proof -
      have "ao_operation a \<in> set (number ((L @ new) @ [x]))" unfolding number_append by (simp add: 2(3))
      with in_number [of "(L @ new) @ [x]"] h show ?thesis by simp
    qed
    moreover have "at_seq (L @ new @ [x]) (so_seq (ao_operation b)) (so_envelope (ao_operation b))" if "b \<in> set as" for b
      using a that at_seq_append [of "L @ new" _ _ "[x]"] by (simp add: appended_def)
    ultimately have "appended t L (as @ [a]) (new @ [x]) t2" using 2(2) by (auto simp: appended_def)
    with 2(3) show ?thesis by auto
  qed
qed

lemma append_all_spec:
  assumes "appended t L as new t1" and "append_all xs as t1 = (e, as', t')"
  shows "\<exists>bs new'. as' = as @ bs \<and> appended t L as' new' t' \<and>
     (e = None \<longrightarrow> map (\<lambda>a. so_envelope (ao_operation a)) bs = xs)"
  using assms
proof (induction xs arbitrary: as new t1)
  case (Cons x xs)
  show ?case
  proof (cases "oplog_append x t1")
    case (Inl f)
    with Cons.prems show ?thesis by auto
  next
    case (Inr p)
    obtain a t2 where p: "p = (a, t2)" by force
    from appended_step [OF Cons.prems(1) Inr [unfolded p]] obtain new2 where
      "appended t L (as @ [a]) new2 t2" and env: "so_envelope (ao_operation a) = x" by blast
    from Cons.IH [OF this(1)] Cons.prems(2) obtain bs new' where
      "as' = (as @ [a]) @ bs" "appended t L as' new' t'" "e = None \<longrightarrow> map (\<lambda>a. so_envelope (ao_operation a)) bs = xs"
      by (auto simp: Inr p)
    with env show ?thesis by (intro exI [of _ "a # bs"] exI [of _ new']) auto
  qed
qed auto

section \<open>The actor\<close>

definition user_ok :: "user_state \<Rightarrow> bool" where
  "user_ok s \<longleftrightarrow>
     (let L = history_of (us_oplog s) in
      represents (us_oplog s) L \<and> agrees 0 L (us_notes s) \<and>
      read_sync_cursor (us_notes s) = of_nat (length L)) \<and>
     sound (us_notes s) \<and> ledger_ok (us_notes s)"

lemma user_okD:
  assumes "user_ok s"
  shows "represents (us_oplog s) (history_of (us_oplog s))" "agrees 0 (history_of (us_oplog s)) (us_notes s)"
    "read_sync_cursor (us_notes s) = of_nat (length (history_of (us_oplog s)))"
    "sound (us_notes s)" "ledger_ok (us_notes s)"
  using assms by (simp_all add: user_ok_def Let_def)

lemma write_snapshot_ok:
  assumes "sound (us_notes s)"
  shows "\<exists>snap. write_snapshot_at env seq s =
    (if file_written env seq then Inr (snap, s\<lparr>us_files := put seq snap (us_files s)\<rparr>)
     else Inl (Failure ''writing snapshot file''))"
proof -
  obtain snap where "export_snapshot seq (us_notes s) = Inr snap"
    using export_defined [of "us_notes s" seq] assms by (auto simp: sound_def identities_ok_def)
  then show ?thesis by (simp add: write_snapshot_at_def lift_core_def)
qed

text \<open>
  The loop over the outcomes of an applied batch: it answers all of them, or it stops at the first
  one whose snapshot file cannot be written, after that one was broadcast.
\<close>

definition write_fails :: "env \<Rightarrow> 64 word \<Rightarrow> append_outcome \<Rightarrow> bool" where
  "write_fails env every a \<longleftrightarrow>
     ao_inserted a \<and> 0 < every \<and> so_seq (ao_operation a) mod every = 0 \<and> \<not> file_written env (so_seq (ao_operation a))"

lemma publish_appends_ok:
  assumes "sound (us_notes s)"
  shows "(\<exists>files. publish_appends env every as accepted s =
      (Inr (accepted @ map ao_operation as),
       s\<lparr>us_files := files, us_sent := us_sent s @ map ao_operation (filter ao_inserted as)\<rparr>)) \<or>
    (\<exists>files pre a rest. as = pre @ a # rest \<and> write_fails env every a \<and>
       publish_appends env every as accepted s =
         (Inl (Failure ''writing snapshot file''),
          s\<lparr>us_files := files, us_sent := us_sent s @ map ao_operation (filter ao_inserted (pre @ [a]))\<rparr>))"
    (is "?all as accepted s \<or> ?stop as accepted s")
  using assms
proof (induction as arbitrary: accepted s)
  case Nil
  have "?all [] accepted s" by (intro exI [of _ "us_files s"]) simp
  then show ?case ..
next
  case (Cons a as)
  let ?s = "if ao_inserted a then s\<lparr>us_sent := us_sent s @ [ao_operation a]\<rparr> else s"
  have sound: "sound (us_notes ?s)" using Cons.prems by simp
  have step: "?all (a # as) accepted s \<or> ?stop (a # as) accepted s"
    if go: "publish_appends env every (a # as) accepted s = publish_appends env every as (accepted @ [ao_operation a]) s1"
      and s1: "s1 = ?s\<lparr>us_files := files\<rparr>" for s1 files
  proof -
    have "sound (us_notes s1)" using sound by (simp add: s1)
    from Cons.IH [OF this, of "accepted @ [ao_operation a]"] show ?thesis
    proof
      assume "?all as (accepted @ [ao_operation a]) s1"
      then have "?all (a # as) accepted s" unfolding go by (auto simp: s1)
      then show ?thesis ..
    next
      assume "?stop as (accepted @ [ao_operation a]) s1"
      then obtain files' pre b rest where st: "as = pre @ b # rest" "write_fails env every b"
        "publish_appends env every as (accepted @ [ao_operation a]) s1 =
         (Inl (Failure ''writing snapshot file''),
          s1\<lparr>us_files := files', us_sent := us_sent s1 @ map ao_operation (filter ao_inserted (pre @ [b]))\<rparr>)" by blast
      have "?stop (a # as) accepted s"
        unfolding go by (intro exI [of _ files'] exI [of _ "a # pre"] exI [of _ b] exI [of _ rest]) (use st in \<open>simp add: s1\<close>)
      then show ?thesis ..
    qed
  qed
  show ?case
  proof (cases "ao_inserted a \<and> every > 0 \<and> so_seq (ao_operation a) mod every = 0")
    case True
    let ?k = "so_seq (ao_operation a)"
    from write_snapshot_ok [OF sound] obtain snap where w:
      "write_snapshot_at env ?k ?s =
        (if file_written env ?k then Inr (snap, ?s\<lparr>us_files := put ?k snap (us_files ?s)\<rparr>)
         else Inl (Failure ''writing snapshot file''))"
      by blast
    show ?thesis
    proof (cases "file_written env ?k")
      case written: True
      show ?thesis by (rule step [OF _ refl, where files = "put ?k snap (us_files ?s)"]) (use True w written in \<open>auto simp: Let_def\<close>)
    next
      case False
      then have "write_fails env every a" using True by (simp add: write_fails_def)
      moreover have "publish_appends env every (a # as) accepted s =
          (Inl (Failure ''writing snapshot file''), s\<lparr>us_sent := us_sent s @ [ao_operation a]\<rparr>)"
        using True w False by (simp add: Let_def)
      ultimately have "?stop (a # as) accepted s"
        by (intro exI [of _ "us_files s"] exI [of _ "[]"] exI [of _ a] exI [of _ as]) (use True in simp)
      then show ?thesis ..
    qed
  next
    case False
    show ?thesis by (rule step [OF _ refl, where files = "us_files s"]) (use False in \<open>auto simp: Let_def\<close>)
  qed
qed

definition ingested :: "user_state \<Rightarrow> op list \<Rightarrow> seq_op list \<Rightarrow> user_state \<Rightarrow> bool" where
  "ingested s ops xs s' \<longleftrightarrow>
     user_ok s' \<and> map so_envelope xs = ops \<and>
     (\<forall>x \<in> set xs. at_seq (history_of (us_oplog s')) (so_seq x) (so_envelope x)) \<and>
     (\<exists>new. history_of (us_oplog s') = history_of (us_oplog s) @ new) \<and>
     evolves (us_notes s) (us_notes s') \<and> (\<exists>P. outbox (us_notes s') = filter P (outbox (us_notes s))) \<and>
     us_sent s' = us_sent s @ drop (length (history_of (us_oplog s))) (number (history_of (us_oplog s')))"

text \<open>
  A batch that is in the log and in the replica although the answer is an error: the snapshot file
  of one of the operations it added could not be written. The sockets were sent what the batch
  added up to that operation, and not what follows it.
\<close>

definition stopped :: "env \<Rightarrow> 64 word \<Rightarrow> user_state \<Rightarrow> op list \<Rightarrow> user_state \<Rightarrow> bool" where
  "stopped env every s ops s' \<longleftrightarrow>
     user_ok s' \<and> set ops \<subseteq> set (history_of (us_oplog s')) \<and>
     (\<exists>new. history_of (us_oplog s') = history_of (us_oplog s) @ new) \<and>
     evolves (us_notes s) (us_notes s') \<and> (\<exists>P. outbox (us_notes s') = filter P (outbox (us_notes s))) \<and>
     (\<exists>sent x unsent. drop (length (history_of (us_oplog s))) (number (history_of (us_oplog s'))) = sent @ x # unsent \<and>
        us_sent s' = us_sent s @ sent @ [x] \<and> 0 < every \<and> so_seq x mod every = 0 \<and> \<not> file_written env (so_seq x))"

lemma at_seq_mem: "at_seq L k x \<Longrightarrow> x \<in> set L"
  by (auto simp: at_seq_def)

lemma ingest_cases:
  assumes u: "user_ok s" and ok: "ingest_operations ext env every ops s = (r, s')"
  obtains e where "r = Inl e" "s' = s" | xs where "r = Inr xs" "ingested s ops xs s'"
  | "r = Inl (Failure ''writing snapshot file'')" "stopped env every s ops s'"
proof (cases "256 < length ops")
  case True
  with ok that(1) show thesis by (auto simp: ingest_operations_def)
next
  case False
  let ?t = "us_oplog s" and ?L = "history_of (us_oplog s)"
  note uD = user_okD [OF u]
  obtain e as t' where app: "append_all ops [] ?t = (e, as, t')" by (metis prod_cases3)
  from append_all_spec [OF appended_Nil [OF uD(1)] app] obtain new where
    a: "appended ?t ?L as new t'" and env: "e = None \<longrightarrow> map (\<lambda>a. so_envelope (ao_operation a)) as = ops"
    by auto
  have rb: "roll_back as t' = (None, ?t)" using a by (simp add: appended_def roll_back_def)
  show thesis
  proof (cases e)
    case (Some f)
    with ok False app rb that(1) show thesis by (auto simp: ingest_operations_def)
  next
    case None
    let ?es = "map (\<lambda>a. (so_seq (ao_operation a), so_envelope (ao_operation a))) as"
    show thesis
    proof (cases "apply_sequenced_batch ext env ?es Components (us_notes s)")
      case (Inl f)
      with ok False app rb None that(1) show thesis by (auto simp: ingest_operations_def Let_def)
    next
      case (Inr p)
      obtain outs durable d where p: "p = (outs, durable, d)" by (metis prod_cases3)
      note batch = Inr [unfolded p]
      have r': "represents t' (?L @ new)" using a by (simp add: appended_def)
      have h: "history_ok (?L @ new)" using r' by (simp add: represents_def)
      have hist: "history_of t' = ?L @ new" by (rule represents_history [OF r'])
      have es: "\<forall>(k, x) \<in> set ?es. at_seq (?L @ new) k x" using a by (auto simp: appended_def)
      note step = agrees_sequenced [OF h agrees_append [OF uD(2)] uD(5) es batch]
      have cursor: "read_sync_cursor d = of_nat (length (?L @ new))"
      proof (cases "new = []")
        case True
        have "unat (read_sync_cursor d) \<le> length ?L" using step(1) True by (simp add: agrees_def)
        moreover have len: "unat (of_nat (length ?L) :: 64 word) = length ?L" using unat_seq [OF h, of "length ?L"] by simp
        moreover have "length ?L \<le> unat (read_sync_cursor d)"
          using step(3) uD(3) len by (simp add: word_le_nat_alt)
        ultimately show ?thesis using True by (simp add: word_unat_eq_iff)
      next
        case False
        then have "drop (length ?L) (number (?L @ new)) \<noteq> []" by simp
        have "last (number (?L @ new)) = \<lparr>so_seq = of_nat (length (?L @ new)), so_envelope = last (?L @ new)\<rparr>"
        proof -
          obtain N x where N: "new = N @ [x]" using False by (metis rev_exhaust)
          have "number (?L @ new) = number (?L @ N) @ [\<lparr>so_seq = of_nat (Suc (length (?L @ N))), so_envelope = x\<rparr>]"
            using number_append [of "?L @ N" x] by (simp add: N)
          then show ?thesis by (simp add: N)
        qed
        moreover have "last (drop (length ?L) (number (?L @ new))) = last (number (?L @ new))"
          using False by (simp add: last_drop)
        moreover have "last (drop (length ?L) (number (?L @ new))) \<in> set (map ao_operation (filter ao_inserted as))"
          using a \<open>drop _ _ \<noteq> []\<close> by (metis appended_def last_in_set)
        ultimately have "\<lparr>so_seq = of_nat (length (?L @ new)), so_envelope = last (?L @ new)\<rparr> \<in>
            set (map ao_operation (filter ao_inserted as))" by simp
        then obtain b where "b \<in> set as" "ao_operation b = \<lparr>so_seq = of_nat (length (?L @ new)), so_envelope = last (?L @ new)\<rparr>"
          by auto
        then have "(of_nat (length (?L @ new)), last (?L @ new)) \<in> set ?es"
          by (metis (mono_tags, lifting) image_eqI list.set_map seq_op.select_convs)
        then have "of_nat (length (?L @ new)) \<le> read_sync_cursor d" using step(4) by blast
        moreover have "unat (read_sync_cursor d) \<le> length (?L @ new)" using step(1) by (simp only: agrees_def)
        moreover note unat_seq [OF h le_refl]
        ultimately show ?thesis by (simp only: word_le_nat_alt word_unat_eq_iff)
      qed
      let ?s = "s\<lparr>us_oplog := t', us_notes := d\<rparr>"
      have sound: "sound (us_notes ?s)" using sound_sequenced [OF uD(4) batch] by simp
      have envs: "map so_envelope (map ao_operation as) = ops" using env None by (simp add: comp_def)
      have grown: "map ao_operation (filter ao_inserted as) = drop (length ?L) (number (?L @ new))"
        using a by (simp add: appended_def)
      have ok': "user_ok (?s\<lparr>us_files := files, us_sent := sent\<rparr>)" for files sent
        using r' step(1,2) cursor sound by (simp add: user_ok_def hist Let_def)
      have answer: "(r, s') = publish_appends env every as [] ?s"
        using ok False app None batch by (auto simp: ingest_operations_def Let_def)
      from publish_appends_ok [OF sound, of env every as "[]"] show thesis
      proof (elim disjE exE conjE)
        fix files assume "publish_appends env every as [] ?s = (Inr ([] @ map ao_operation as),
           ?s\<lparr>us_files := files, us_sent := us_sent ?s @ map ao_operation (filter ao_inserted as)\<rparr>)"
        with answer have r: "r = Inr (map ao_operation as)"
          and s': "s' = ?s\<lparr>us_files := files, us_sent := us_sent s @ map ao_operation (filter ao_inserted as)\<rparr>" by auto
        have "ingested s ops (map ao_operation as) s'"
          using a envs ok' evolves_sequenced [OF batch] sequenced_outbox [OF batch] by (auto simp: ingested_def s' hist appended_def)
        with r show thesis by (rule that(2))
      next
        fix files pre b rest
        assume split: "as = pre @ b # rest" and fails: "write_fails env every b"
          and "publish_appends env every as [] ?s = (Inl (Failure ''writing snapshot file''),
            ?s\<lparr>us_files := files, us_sent := us_sent ?s @ map ao_operation (filter ao_inserted (pre @ [b]))\<rparr>)"
        with answer have r: "r = Inl (Failure ''writing snapshot file'')"
          and s': "s' = ?s\<lparr>us_files := files, us_sent := us_sent s @ map ao_operation (filter ao_inserted (pre @ [b]))\<rparr>"
          by auto
        have "drop (length ?L) (number (?L @ new)) =
            map ao_operation (filter ao_inserted pre) @ ao_operation b # map ao_operation (filter ao_inserted rest)"
          unfolding grown [symmetric] split using fails by (simp add: write_fails_def)
        moreover have "set ops \<subseteq> set (?L @ new)"
        proof
          fix x assume "x \<in> set ops"
          then obtain c where "c \<in> set as" "so_envelope (ao_operation c) = x" using envs by auto
          then have "at_seq (?L @ new) (so_seq (ao_operation c)) x" using es by auto
          then show "x \<in> set (?L @ new)" by (rule at_seq_mem)
        qed
        ultimately have "stopped env every s ops s'"
          using ok' evolves_sequenced [OF batch] sequenced_outbox [OF batch] fails
          by (auto simp: stopped_def s' hist write_fails_def)
        with r show thesis by (rule that(3))
      qed
    qed
  qed
qed

end
