(* ===== verification/ServerProps.thy ===== *)
theory ServerProps
  imports OplogProps
begin

text \<open>
  Properties of the server: what its log promises, that a refused batch leaves no trace, that an
  accepted one is in the log and in the replica at once, and that a restart catches up.
\<close>

section \<open>The log against the list\<close>

text \<open>The specification: an operation is given the next place, unless it has one.\<close>

definition place_of :: "uuid \<Rightarrow> op list \<Rightarrow> seq_op option" where
  "place_of u L = List.find (\<lambda>y. op_id (so_envelope y) = u) (number L)"

definition append_spec :: "op \<Rightarrow> op list \<Rightarrow> fault + (append_outcome \<times> op list)" where
  "append_spec x L =
     (case place_of (op_id x) L of
        Some y \<Rightarrow>
          guard (so_envelope y = x) (Domain (SyncConflict ''operation id was reused with a different payload''))
            (Inr (\<lparr>ao_operation = y, ao_inserted = False\<rparr>, L))
      | None \<Rightarrow>
          guard (int (length L) < i64_max) (Domain Database)
            (Inr (\<lparr>ao_operation = \<lparr>so_seq = of_nat (Suc (length L)), so_envelope = x\<rparr>, ao_inserted = True\<rparr>, L @ [x])))"

lemma uint_length: "history_ok L \<Longrightarrow> uint (of_nat (length L) :: 64 word) = int (length L)"
  using unat_seq [OF _ le_refl] by (metis uint_nat)

lemma find_same:
  "list_all2 row_matches xs ys \<Longrightarrow>
     (case List.find (\<lambda>(_, r). ol_op_id r = u) xs of
        None \<Rightarrow> List.find (\<lambda>y. op_id (so_envelope y) = u) ys = None
      | Some e \<Rightarrow> \<exists>y. List.find (\<lambda>y. op_id (so_envelope y) = u) ys = Some y \<and> row_matches e y)"
proof (induction rule: list_all2_induct)
  case (Cons e xs y ys)
  then have "ol_op_id (snd e) = op_id (so_envelope y)" by (simp add: row_matches_def)
  with Cons show ?case by (cases e) (auto split: option.splits)
qed simp

text \<open>
  C20. The log table implements a list of operations in which the position is the sequence: appending
  finds the place an operation already has, refuses a different operation with the same identifier,
  and otherwise puts the operation at the end, exactly as on the list.
\<close>

theorem oplog_append_refines:
  assumes "represents t L"
  shows "(case oplog_append x t of
            Inl e \<Rightarrow> append_spec x L = Inl e
          | Inr (a, t') \<Rightarrow> append_spec x L = Inr (a, history_of t') \<and> represents t' (history_of t'))"
proof -
  have h: "history_ok L" and m: "list_all2 row_matches (rows t) (number L)" using assms by (simp_all add: represents_def)
  have latest: "latest_seq t = of_nat (length L)" by (rule represents_latest [OF assms])
  show ?thesis
  proof (cases "find_logged (op_id x) t")
    case None
    with find_same [OF m, of "op_id x"] have p: "place_of (op_id x) L = None"
      by (simp add: find_logged_def place_of_def)
    then have new: "op_id x \<notin> op_id ` set L"
    proof -
      have "\<forall>y \<in> set (number L). op_id (so_envelope y) \<noteq> op_id x" using p by (simp add: place_of_def find_None_iff)
      then have "op_id x \<notin> op_id ` so_envelope ` set (number L)" by auto
      then show ?thesis by (metis list.set_map number_envelopes)
    qed
    show ?thesis
    proof (cases "int (length L) < i64_max")
      case True
      then have room: "uint (latest_seq t) < i64_max" by (simp add: latest uint_length [OF h])
      note app = append_new(2) [OF assms new room refl]
      from room True show ?thesis
        using app represents_history [OF app] by (simp add: oplog_append_def append_spec_def None p Let_def latest)
    next
      case False
      then show ?thesis by (simp add: oplog_append_def append_spec_def None p latest uint_length [OF h])
    qed
  next
    case (Some e)
    with find_same [OF m, of "op_id x"] obtain y where p: "place_of (op_id x) L = Some y" and e: "row_matches e y"
      by (auto simp: find_logged_def place_of_def)
    obtain k r where kr: "e = (k, r)" by force
    from e have "k = so_seq y" "decode_envelope (ol_envelope r) = Inr (so_envelope y)" by (simp_all add: row_matches_def kr)
    with Some p assms represents_history [OF assms] show ?thesis
      by (cases y) (auto simp: oplog_append_def append_spec_def kr guard_def)
  qed
qed

lemma empty_represents: "represents tempty []"
  by (simp add: represents_def history_ok_def i64_max_def)

theorem oplog_append_refines_witness:
  "case oplog_append sample_create_page tempty of
     Inl e \<Rightarrow> append_spec sample_create_page [] = Inl e
   | Inr (a, t') \<Rightarrow> append_spec sample_create_page [] = Inr (a, history_of t') \<and> represents t' (history_of t')"
  by (rule oplog_append_refines [OF empty_represents])

section \<open>Sample\<close>

lemma first_sequenced:
  assumes one: "apply_one ext x (effects_for Deferred mode, d) = Inr (us, st)"
    and "applied_ops d = tempty" "last_server_seq d = None" "require_mode mode d = Inr ()" "validate_op x = Inr ()"
  shows "\<exists>outs du d'. apply_sequenced_batch ext env [(1, x)] mode d = Inr (outs, du, d')"
proof -
  have "applied_ops (snd st) = tempty"
    using apply_one_meta [OF one] assms(2) by (simp add: meta_eqs)
  then have "operation_at_seq (observe_hlc env h (snd st)) 1 = None" for h by (simp add: operation_at_seq_None)
  moreover have "saturating_add64 0 1 = 1" "read_sync_cursor d = 0" "get (applied_ops d) u = None" for u
    using assms(2,3) by (simp_all add: saturating_add64_def read_sync_cursor_def)
  ultimately have "\<exists>q'. apply_sequenced_op ext env (1, x)
      \<lparr>q_cursor = read_sync_cursor d, q_outcomes = [], q_durable = False, q_released = False,
       q_state = (effects_for Deferred mode, d)\<rparr> = Inr q'"
    using one by (simp add: apply_sequenced_op_def Let_def lift_db_def record_sequence_def remove_operation_def
        cong del: attempt_cong)
  moreover have v: "fold_res (\<lambda>(seq, operation) _. attempt (validate_server_sequence seq) (\<lambda>_. validate_op operation))
      [(1, x)] () = Inr ()"
    unfolding fold_res_pairs_ok using assms(5) by (simp add: validate_server_sequence_def i64_max_def)
  ultimately show ?thesis
    unfolding apply_sequenced_batch_def v using assms(4) by (auto simp: Let_def cong del: attempt_cong)
qed

definition sample_notes :: db where
  "sample_notes = (empty_db 7)\<lparr>structure_version := 1\<rparr>"

definition sample_user :: user_state where
  "sample_user = \<lparr>us_notes = sample_notes, us_oplog = tempty, us_files = tempty, us_sent = []\<rparr>"

lemma sample_user_ok: "user_ok sample_user"
proof -
  have "agrees 0 [] sample_notes" by (simp add: agrees_def sample_notes_def empty_db_def read_sync_cursor_def at_seq_def)
  moreover have "sound sample_notes" "ledger_ok sample_notes"
    using sound_empty [of 7] ledger_empty [of 7]
    by (simp_all add: sample_notes_def sound_defs forest_def block_edges_def ledger_ok_def cong: attachment_owner.case_cong)
  moreover have "history_of tempty = []" by (simp add: history_of_def)
  ultimately show ?thesis
    using empty_represents by (simp add: user_ok_def sample_user_def sample_notes_def empty_db_def read_sync_cursor_def)
qed

lemma sample_notes_apply:
  "\<exists>us st. apply_one ascii_externals sample_create_page (effects_for Deferred Components, sample_notes) = Inr (us, st)"
proof -
  have "is_ok (apply_one ascii_externals sample_create_page (effects_for Deferred Components, sample_notes))" by code_simp
  then show ?thesis unfolding is_ok_iff by (metis surj_pair)
qed

lemma sample_ingest:
  "\<exists>xs s'. ingest_operations ascii_externals sample_env 0 [sample_create_page] sample_user = (Inr xs, s')"
proof -
  obtain us st where one: "apply_one ascii_externals sample_create_page (effects_for Deferred Components, sample_notes) = Inr (us, st)"
    using sample_notes_apply by blast
  have "applied_ops sample_notes = tempty" "last_server_seq sample_notes = None" "require_mode Components sample_notes = Inr ()"
    by (simp_all add: sample_notes_def empty_db_def require_mode_def require_initialized_structure_projection_def
        structure_projection_version_def)
  from first_sequenced [OF one this sample_create_valid, of sample_env]
  obtain outs du d where "apply_sequenced_batch ascii_externals sample_env [(1, sample_create_page)] Components sample_notes = Inr (outs, du, d)"
    by blast
  moreover have "oplog_append sample_create_page tempty =
      Inr (\<lparr>ao_operation = \<lparr>so_seq = 1, so_envelope = sample_create_page\<rparr>, ao_inserted = True\<rparr>,
        put 1 \<lparr>ol_op_id = 20, ol_envelope = encode_persisted_envelope sample_create_page\<rparr> tempty)"
    by (simp add: oplog_append_def find_logged_def latest_seq_def i64_max_def sample_create_page_def)
  ultimately show ?thesis by (simp add: ingest_operations_def sample_user_def Let_def)
qed

definition sample_stranger :: op where
  "sample_stranger = sample_create_page\<lparr>op_workspace := 8\<rparr>"

lemma sample_refuses:
  assumes v: "validate_op x = Inr ()"
    and one: "apply_one ascii_externals x (effects_for Deferred Components, sample_notes) = Inl e"
  shows "ingest_operations ascii_externals sample_env 0 [x] sample_user = (Inl (Domain e), sample_user)"
proof -
  have "get (applied_ops sample_notes) u = None" "read_sync_cursor sample_notes = 0" for u
    by (simp_all add: sample_notes_def empty_db_def read_sync_cursor_def)
  with one have "apply_sequenced_op ascii_externals sample_env (1, x)
      \<lparr>q_cursor = read_sync_cursor sample_notes, q_outcomes = [], q_durable = False, q_released = False,
       q_state = (effects_for Deferred Components, sample_notes)\<rparr> = Inl e"
    by (simp add: apply_sequenced_op_def Let_def saturating_add64_def lift_db_def cong del: attempt_cong)
  moreover have "require_mode Components sample_notes = Inr ()"
    by (simp add: sample_notes_def empty_db_def require_mode_def require_initialized_structure_projection_def structure_projection_version_def)
  ultimately have batch: "apply_sequenced_batch ascii_externals sample_env [(1, x)] Components sample_notes = Inl e"
    unfolding apply_sequenced_batch_def
    using v by (simp add: validate_server_sequence_def i64_max_def Let_def cong del: attempt_cong)
  let ?t = "put 1 \<lparr>ol_op_id = op_id x, ol_envelope = encode_persisted_envelope x\<rparr> tempty :: oplog"
  have app: "oplog_append x tempty = Inr (\<lparr>ao_operation = \<lparr>so_seq = 1, so_envelope = x\<rparr>, ao_inserted = True\<rparr>, ?t)"
    by (simp add: oplog_append_def find_logged_def latest_seq_def i64_max_def)
  have "roll_back [\<lparr>ao_operation = \<lparr>so_seq = 1, so_envelope = x\<rparr>, ao_inserted = True\<rparr>] ?t = (None, tempty)"
    by (simp add: roll_back_def remove_tail_def latest_seq_def i64_max_def guard_def filter_empty_conv table_eqI)
  with app batch show ?thesis by (simp add: ingest_operations_def sample_user_def Let_def)
qed

lemma sample_stranger_refused:
  "ingest_operations ascii_externals sample_env 0 [sample_stranger] sample_user =
     (Inl (Domain (Conflict ''operation belongs to another workspace'')), sample_user)"
proof (rule sample_refuses)
  show "validate_op sample_stranger = Inr ()" by code_simp
  have "workspace sample_notes = 7" by (simp add: sample_notes_def empty_db_def)
  then show "apply_one ascii_externals sample_stranger (effects_for Deferred Components, sample_notes) =
      Inl (Conflict ''operation belongs to another workspace'')"
    by (simp add: apply_one_def sample_stranger_def)
qed

section \<open>Ingesting\<close>

text \<open>
  C12. A batch that the server refuses (for its size, an identifier reused for another operation, an
  operation that does not validate or apply) leaves the log, the replica, the snapshot files and the
  broadcast untouched. The only other error is that of a snapshot file that cannot be written while
  the batch is published: then the whole batch is in the log and in the replica, which agree, and the
  sockets were sent what it added up to the operation of that file and nothing of what follows it.
\<close>

theorem refused_batch_leaves_no_trace:
  assumes "user_ok s" and "ingest_operations ext env every ops s = (Inl e, s')"
  shows "s' = s \<or>
    e = Failure ''writing snapshot file'' \<and> user_ok s' \<and> set ops \<subseteq> set (history_of (us_oplog s')) \<and>
    (\<exists>sent x unsent. drop (length (history_of (us_oplog s))) (number (history_of (us_oplog s'))) = sent @ x # unsent \<and>
       us_sent s' = us_sent s @ sent @ [x] \<and> 0 < every \<and> so_seq x mod every = 0 \<and> \<not> file_written env (so_seq x))"
  using assms(1,2) by (rule ingest_cases) (simp_all add: stopped_def)

theorem refused_batch_leaves_no_trace_witness:
  "\<exists>e. ingest_operations ascii_externals sample_env 0 [sample_stranger] sample_user = (Inl e, sample_user)"
  using refused_batch_leaves_no_trace [OF sample_user_ok sample_stranger_refused] sample_stranger_refused by auto

text \<open>
  C13. An accepted batch is answered with the place of each of its operations in the log; the log only
  grew at its end, the sockets are sent exactly what it grew by, in order, and the user's replica has
  applied the whole log again: every operation is recorded with its sequence and the cursor is at the
  end.
\<close>

theorem accepted_batch_is_logged_and_applied:
  assumes "user_ok s" and "ingest_operations ext env every ops s = (Inr xs, s')"
  shows "user_ok s' \<and> map so_envelope xs = ops \<and>
     (\<forall>x \<in> set xs. at_seq (history_of (us_oplog s')) (so_seq x) (so_envelope x)) \<and>
     (\<exists>new. history_of (us_oplog s') = history_of (us_oplog s) @ new) \<and>
     us_sent s' = us_sent s @ drop (length (history_of (us_oplog s))) (number (history_of (us_oplog s')))"
  using assms(1,2) by (rule ingest_cases) (auto simp: ingested_def)

theorem accepted_batch_is_logged_and_applied_witness:
  "\<exists>xs s'. ingest_operations ascii_externals sample_env 0 [sample_create_page] sample_user = (Inr xs, s') \<and>
     user_ok s' \<and> map so_envelope xs = [sample_create_page]"
proof -
  obtain xs s' where ok: "ingest_operations ascii_externals sample_env 0 [sample_create_page] sample_user = (Inr xs, s')"
    using sample_ingest by blast
  have "user_ok s' \<and> map so_envelope xs = [sample_create_page]"
    using accepted_batch_is_logged_and_applied [OF sample_user_ok ok] by simp
  with ok show ?thesis by (intro exI [of _ xs] exI [of _ s'] conjI) simp_all
qed

section \<open>Publishing\<close>

definition pending :: "db \<Rightarrow> outbox_row list" where
  "pending d = filter (\<lambda>r. o_quarantined r = None) (outbox d)"

lemma ingested_settles:
  assumes u: "user_ok s" and ing: "ingested s ops xs s'"
  shows "\<forall>r \<in> set (outbox (us_notes s')). o_op_id r \<notin> op_id ` set ops"
    "\<forall>x \<in> set ops. op_id x \<in> op_id ` set (history_of (us_oplog s'))"
proof -
  let ?L = "history_of (us_oplog s')"
  have u': "user_ok s'" and env: "map so_envelope xs = ops"
    and at: "\<forall>x \<in> set xs. at_seq ?L (so_seq x) (so_envelope x)" using ing by (simp_all add: ingested_def)
  note uD = user_okD [OF u']
  have h: "history_ok ?L" using uD(1) by (simp add: represents_def)
  have rec: "\<exists>k. at_seq ?L k x \<and> get (applied_ops (us_notes s')) (op_id x) = Some (Some k)" if "x \<in> set ops" for x
  proof -
    from that env obtain y where y: "y \<in> set xs" "so_envelope y = x" by auto
    with at have k: "at_seq ?L (so_seq y) x" by blast
    then have "so_seq y \<le> read_sync_cursor (us_notes s')"
      using uD(3) unat_seq [OF h le_refl] by (simp add: at_seq_def word_le_nat_alt)
    with uD(2) k have "get (applied_ops (us_notes s')) (op_id x) = Some (Some (so_seq y))"
      unfolding agrees_def by (auto simp: at_seq_def)
    with k show ?thesis by blast
  qed
  show "\<forall>x \<in> set ops. op_id x \<in> op_id ` set ?L"
  proof
    fix x assume "x \<in> set ops"
    with rec obtain k where "at_seq ?L k x" by blast
    then have "x \<in> set ?L" by (auto simp: at_seq_def)
    then show "op_id x \<in> op_id ` set ?L" by simp
  qed
  show "\<forall>r \<in> set (outbox (us_notes s')). o_op_id r \<notin> op_id ` set ops"
  proof
    fix r assume "r \<in> set (outbox (us_notes s'))"
    then have "get (applied_ops (us_notes s')) (o_op_id r) = Some None" using uD(5) by (simp add: ledger_ok_def)
    with rec show "o_op_id r \<notin> op_id ` set ops" by force
  qed
qed

lemma pending_read:
  assumes "ledger_ok d"
  obtains ops where "read_pending_outbox n d = Inr ops" "map op_id ops = take n (map o_op_id (pending d))"
  using pending_ids [OF assms, of n] by (auto simp: pending_def)

text \<open>A pending row is still pending after a batch, or its operation is in the log.\<close>

lemma ingested_row:
  assumes u: "user_ok s" and ing: "ingested s ops xs s'" and r: "r \<in> set (pending (us_notes s))"
  shows "r \<in> set (pending (us_notes s')) \<or> o_op_id r \<in> op_id ` set (history_of (us_oplog s'))"
proof -
  have l: "ledger_ok (us_notes s)" by (rule user_okD(5) [OF u])
  obtain P where P: "outbox (us_notes s') = filter P (outbox (us_notes s))" using ing by (auto simp: ingested_def)
  have row: "r \<in> set (outbox (us_notes s))" "queued (us_notes s) (o_op_id r)"
    using r by (auto simp: queued_def pending_def)
  have "advance (us_notes s) (us_notes s')" using ing l by (simp add: ingested_def evolves_def)
  then consider "queued (us_notes s') (o_op_id r)" | "sequenced_op (us_notes s') (o_op_id r)"
    using row(2) by (auto simp: advance_def)
  then show ?thesis
  proof cases
    case 1
    then obtain r' where r': "r' \<in> set (outbox (us_notes s))" "P r'" "o_op_id r' = o_op_id r"
      by (auto simp: queued_def P)
    moreover have "distinct (map o_op_id (outbox (us_notes s)))" using l by (simp add: ledger_ok_def)
    ultimately have "r' = r" using row(1) by (metis distinct_map inj_onD)
    with r' r have "r \<in> set (pending (us_notes s'))" by (simp add: pending_def P)
    then show ?thesis ..
  next
    case 2
    then obtain k where "get (applied_ops (us_notes s')) (o_op_id r) = Some (Some k)" by (auto simp: sequenced_op_def)
    moreover have "agrees 0 (history_of (us_oplog s')) (us_notes s')" using ing by (simp add: ingested_def user_okD)
    ultimately obtain x where "at_seq (history_of (us_oplog s')) k x" "op_id x = o_op_id r" unfolding agrees_def by blast
    then have "o_op_id r \<in> op_id ` set (history_of (us_oplog s'))" by (metis at_seq_mem imageI)
    then show ?thesis ..
  qed
qed

text \<open>The outcome of a publication that returned.\<close>

definition published :: "user_state \<Rightarrow> fault option \<Rightarrow> user_state \<Rightarrow> bool" where
  "published s failed s' \<longleftrightarrow>
     user_ok s' \<and> (\<exists>new. history_of (us_oplog s') = history_of (us_oplog s) @ new) \<and>
     (failed = None \<longrightarrow> pending (us_notes s') = [] \<and>
        (\<forall>r \<in> set (pending (us_notes s)). o_op_id r \<in> op_id ` set (history_of (us_oplog s'))))"

lemma publish_terminates:
  assumes "user_ok s"
  shows "\<exists>failed s'. publish_authored_ops ext envs every n s = Some (failed, s') \<and> published s failed s'"
  using assms
proof (induction "length (pending (us_notes s))" arbitrary: n s rule: less_induct)
  case less
  note uD = user_okD [OF less.prems]
  obtain ops where ops: "read_pending_outbox outbox_batch_size (us_notes s) = Inr ops"
    and ids: "map op_id ops = take outbox_batch_size (map o_op_id (pending (us_notes s)))" by (rule pending_read [OF uD(5)])
  have len: "length ops = min outbox_batch_size (length (pending (us_notes s)))"
    using arg_cong [OF ids, of length] by simp
  show ?case
  proof (cases "ops = []")
    case True
    then have "pending (us_notes s) = []" using len by (simp add: outbox_batch_size_def min_def split: if_splits)
    with less.prems have "published s None s" by (simp add: published_def)
    with ops True show ?thesis by (subst publish_authored_ops.simps) simp
  next
    case False
    obtain r s1 where ing: "ingest_operations ext (envs n) every ops s = (r, s1)" by force
    from ingest_cases [OF less.prems ing] show ?thesis
    proof cases
      case (1 e)
      with less.prems have "published s (Some e) s1" by (simp add: published_def)
      with ops False ing 1 show ?thesis by (subst publish_authored_ops.simps) simp
    next
      case 3
      then have "published s (Some (Failure ''writing snapshot file'')) s1" by (simp add: published_def stopped_def)
      with ops False ing 3(1) show ?thesis by (subst publish_authored_ops.simps) simp
    next
      case (2 xs)
      then have u1: "user_ok s1" and grow: "\<exists>new. history_of (us_oplog s1) = history_of (us_oplog s) @ new"
        by (simp_all add: ingested_def)
      note settled = ingested_settles [OF less.prems 2(2)]
      obtain P where P: "outbox (us_notes s1) = filter P (outbox (us_notes s))" using 2(2) by (auto simp: ingested_def)
      have pend: "pending (us_notes s1) = filter P (pending (us_notes s))"
        by (simp add: pending_def P filter_filter conj_commute)
      have gone: "\<not> P r" if "r \<in> set (pending (us_notes s))" "o_op_id r \<in> op_id ` set ops" for r
      proof
        assume "P r"
        with that(1) have "r \<in> set (outbox (us_notes s1))" by (simp add: P pending_def)
        with settled(1) that(2) show False by blast
      qed
      have sent: "o_op_id r \<in> op_id ` set ops" if "r \<in> set (take outbox_batch_size (pending (us_notes s)))" for r
      proof -
        have "o_op_id r \<in> set (map op_id ops)" unfolding ids take_map using that by simp
        then show ?thesis by simp
      qed
      show ?thesis
      proof (cases "length ops = outbox_batch_size")
        case full: True
        have "pending (us_notes s) \<noteq> []" using False len by auto
        then obtain r0 where r0: "r0 \<in> set (take outbox_batch_size (pending (us_notes s)))"
          by (cases "pending (us_notes s)") (auto simp: outbox_batch_size_def)
        then have "r0 \<in> set (pending (us_notes s))" by (rule in_set_takeD)
        with gone [OF this sent [OF r0]] have "length (pending (us_notes s1)) < length (pending (us_notes s))"
          unfolding pend by (intro length_filter_less)
        from less.hyps [OF this u1] obtain failed s' where
          run: "publish_authored_ops ext envs every (Suc n) s1 = Some (failed, s')" and p: "published s1 failed s'" by blast
        have "o_op_id r \<in> op_id ` set (history_of (us_oplog s'))"
          if "failed = None" "r \<in> set (pending (us_notes s))" for r
          using ingested_row [OF less.prems 2(2) that(2)] that(1) p by (auto simp: published_def)
        with p grow have "published s failed s'" by (auto simp: published_def)
        with run ops False ing 2(1) full show ?thesis by (subst publish_authored_ops.simps) simp
      next
        case part: False
        then have all: "take outbox_batch_size (pending (us_notes s)) = pending (us_notes s)" using len by simp
        have "pending (us_notes s1) = []"
          unfolding pend filter_empty_conv using gone sent all by metis
        moreover have "o_op_id r \<in> op_id ` set (history_of (us_oplog s1))" if "r \<in> set (pending (us_notes s))" for r
          using sent [of r] settled(2) that all by force
        ultimately have "published s None s1" using u1 grow by (simp add: published_def)
        with ops False ing 2(1) part show ?thesis by (subst publish_authored_ops.simps) simp
      qed
    qed
  qed
qed

text \<open>
  C14. Publishing what a server-side write authored always returns, however many operations are queued:
  the loop over the outbox ends. If it reports no error, then nothing is pending any more and every
  operation that was pending is in the log; in any case the replica and the log agree.
\<close>

theorem publishing_drains_the_outbox:
  assumes "user_ok s"
  shows "\<exists>failed s'. publish_authored_ops ext envs every n s = Some (failed, s') \<and> user_ok s' \<and>
     (failed = None \<longrightarrow> pending (us_notes s') = [] \<and>
        (\<forall>r \<in> set (pending (us_notes s)). o_op_id r \<in> op_id ` set (history_of (us_oplog s'))))"
  using publish_terminates [OF assms, of ext envs every n] by (auto simp: published_def)

theorem publishing_drains_the_outbox_witness:
  "\<exists>failed s'. publish_authored_ops ascii_externals (\<lambda>_. sample_env) 0 0 sample_user = Some (failed, s') \<and> user_ok s'"
  using publishing_drains_the_outbox [OF sample_user_ok, of ascii_externals "\<lambda>_. sample_env" 0 0] by blast

section \<open>Restarting\<close>

lemma replay_catches_up:
  "represents t L \<Longrightarrow> agrees 0 L d \<Longrightarrow> ledger_ok d \<Longrightarrow> sound d \<Longrightarrow> cursor = read_sync_cursor d \<Longrightarrow>
     replay_oplog ext envs n t cursor d = (None, d') \<Longrightarrow>
     agrees 0 L d' \<and> ledger_ok d' \<and> sound d' \<and> read_sync_cursor d' = of_nat (length L) \<and> advance d d'"
proof (induction ext envs n t cursor d arbitrary: d' rule: replay_oplog.induct)
  case (1 ext envs n t cursor d)
  have h: "history_ok L" using "1.prems"(1) by (simp add: represents_def)
  note run = "1.prems"(6) [unfolded replay_oplog.simps [of ext envs n t cursor d]]
  from run obtain ops where ops: "oplog_since cursor replay_batch_size t = Inr ops"
    by (cases "oplog_since cursor replay_batch_size t") auto
  have slice: "ops = page_after L (read_sync_cursor d) replay_batch_size"
    using since_represents [OF "1.prems"(1) ops] "1.prems"(5) by simp
  show ?case
  proof (cases "ops = []")
    case True
    with run ops have d': "d' = d" by simp
    from True slice have "length L \<le> unat (read_sync_cursor d)"
      using page_short [of L "read_sync_cursor d" replay_batch_size] by (simp add: replay_batch_size_def)
    moreover have "unat (read_sync_cursor d) \<le> length L" using "1.prems"(2) by (simp add: agrees_def)
    ultimately have "read_sync_cursor d = of_nat (length L)"
      using unat_seq [OF h le_refl] by (simp add: word_unat_eq_iff)
    with "1.prems" d' show ?thesis by (simp add: advance_refl)
  next
    case False
    let ?es = "map (\<lambda>x. (so_seq x, so_envelope x)) ops"
    from run ops False obtain outs durable d1 where
      batch: "apply_sequenced_batch ext (envs n) ?es Components d = Inr (outs, durable, d1)"
      by (cases "apply_sequenced_batch ext (envs n) ?es Components d") (auto simp: Let_def)
    from run ops False batch have rest: "replay_oplog ext envs (Suc n) t (so_seq (last ops)) d1 = (None, d')"
      by (simp add: Let_def)
    note step = agrees_page [OF h "1.prems"(2,3) False [unfolded slice] batch [folded entries_of_def, unfolded slice]]
    have "advance d d1" using evolves_sequenced [OF batch] "1.prems"(3) by (simp add: evolves_def)
    moreover have "agrees 0 L d' \<and> ledger_ok d' \<and> sound d' \<and> read_sync_cursor d' = of_nat (length L) \<and> advance d1 d'"
      by (rule "1.IH" [OF ops False refl batch refl refl "1.prems"(1) step(1,2) sound_sequenced [OF "1.prems"(4) batch] _ rest])
        (simp add: step(3) slice)
    ultimately show ?thesis by (blast intro: advance_trans)
  qed
qed

text \<open>
  C15. A server that stopped between logging a batch and applying it, or anywhere else, comes back
  consistent: when opening the user's state succeeds, the replica has applied the whole log, whatever
  prefix of it it held before, and nothing it knew is lost.
\<close>

theorem restart_catches_up:
  assumes "represents t L" and "agrees 0 L d" "ledger_ok d" "sound d"
    and "open_user_state ext envs d t = Inr d'"
  shows "user_ok \<lparr>us_notes = d', us_oplog = t, us_files = files, us_sent = sent\<rparr> \<and> advance d d'"
proof -
  let ?d = "snd (set_replica_role Server d)"
  from assms(5) have run: "replay_oplog ext envs 0 t (read_sync_cursor ?d) ?d = (None, d')"
    by (auto simp: open_user_state_def res Let_def split: prod.splits option.splits simp del: replay_oplog.simps)
  have same: "applied_ops ?d = applied_ops d" "last_server_seq ?d = last_server_seq d" "sound ?d = sound d"
    by (simp_all add: set_replica_role_def sound_defs forest_def block_edges_def cong: attachment_owner.case_cong)
  have "evolves d ?d" by (rule evolves_settings)
  with assms(3) have "ledger_ok ?d" "advance d ?d" by (simp_all add: evolves_def)
  moreover have "agrees 0 L ?d" using assms(2) agrees_same [OF same(1,2), of 0 L] by simp
  ultimately have "agrees 0 L d' \<and> ledger_ok d' \<and> sound d' \<and> read_sync_cursor d' = of_nat (length L) \<and> advance ?d d'"
    using replay_catches_up [OF assms(1) _ _ _ refl run] same(3) assms(4) by blast
  with \<open>advance d ?d\<close> represents_history [OF assms(1)] assms(1) show ?thesis
    by (auto simp: user_ok_def Let_def intro: advance_trans)
qed

theorem restart_catches_up_witness:
  "\<exists>d'. open_user_state ascii_externals (\<lambda>_. sample_env) sample_notes tempty = Inr d' \<and>
     user_ok \<lparr>us_notes = d', us_oplog = tempty, us_files = tempty, us_sent = []\<rparr>"
proof -
  have ok: "represents tempty []" "agrees 0 [] sample_notes" "ledger_ok sample_notes" "sound sample_notes"
    using empty_represents user_okD [OF sample_user_ok] by (simp_all add: sample_user_def history_of_def)
  have "open_user_state ascii_externals (\<lambda>_. sample_env) sample_notes tempty =
      Inr (snd (set_replica_role Server sample_notes))"
    by (simp add: open_user_state_def assert_gapless_def latest_seq_def oplog_since_def read_sync_cursor_def
        set_replica_role_def sample_notes_def empty_db_def i64_max_def replay_batch_size_def guard_def Let_def)
  with restart_catches_up [OF ok, of ascii_externals "\<lambda>_. sample_env" _ tempty "[]"] show ?thesis by blast
qed

end
