(* ===== verification/SyncProps.thy ===== *)
theory SyncProps
  imports SyncMachine ServerProps
begin

text \<open>
  The passes of the client, proved once for every server that is a \<open>sequencer\<close> (the locale
  \<open>exchange\<close>), and the two servers as instances of it.
\<close>

section \<open>The client over any sequencer\<close>

text \<open>A replica that has started from a snapshot at \<open>base\<close> and knows a prefix of the history.\<close>

definition replica_at :: "nat \<Rightarrow> op list \<Rightarrow> db \<Rightarrow> bool" where
  "replica_at base L d \<longleftrightarrow> agrees base L d \<and> ledger_ok d \<and> sound d"

lemma replica_at_append: "replica_at base L d \<Longrightarrow> replica_at base (L @ M) d"
  by (simp add: replica_at_def agrees_append)

text \<open>What a pass may do to the client's database.\<close>

definition progresses :: "nat \<Rightarrow> op list \<Rightarrow> db \<Rightarrow> db \<Rightarrow> bool" where
  "progresses base L d d' \<longleftrightarrow> replica_at base L d' \<and> advance d d'"

lemma progresses_trans:
  "progresses base L d d' \<Longrightarrow> progresses base (L @ M) d' d'' \<Longrightarrow> progresses base (L @ M) d d''"
  by (auto simp: progresses_def intro: advance_trans)

lemma quarantine_progresses:
  assumes "replica_at base L d"
  shows "progresses base L d (snd (quarantine_outbox_op u reason now d))"
proof -
  let ?d = "snd (quarantine_outbox_op u reason now d)"
  have "evolves d ?d" by (rule evolves_quarantine)
  moreover have "agrees base L ?d = agrees base L d" by (rule agrees_same) (simp_all add: quarantine_outbox_op_def)
  moreover have "sound ?d = sound d"
    by (simp add: quarantine_outbox_op_def)
  ultimately show ?thesis using assms by (simp add: progresses_def replica_at_def evolves_def)
qed

locale exchange = sequencer "tr_ops_since T" "tr_push T" history invariant page
  for T :: "'s transport" and history and invariant and page +
  assumes prepare_push_keeps: "invariant s \<Longrightarrow> tr_prepare_push T ops s = (r, s') \<Longrightarrow> invariant s' \<and> history s' = history s"
    and prepare_pull_keeps: "invariant s \<Longrightarrow> tr_prepare_pull T xs s = (r, s') \<Longrightarrow> invariant s' \<and> history s' = history s"
begin

lemma catch_up_reaches_end:
  assumes "invariant s" and "replica_at base (history s) d" and "0 < bs" "page bs = bs"
  shows "\<exists>failed s' d' stats'. catch_up T ext envs bs n s d stats = Some (failed, s', d', stats') \<and>
     invariant s' \<and> history s' = history s \<and> progresses base (history s) d d' \<and>
     (failed = None \<longrightarrow> unat (read_sync_cursor d') = length (history s))"
  using assms(1,2)
proof (induction "length (history s) - unat (read_sync_cursor d)" arbitrary: n s d stats rule: less_induct)
  case less
  have h: "history_ok (history s)" by (rule sequencer_history) (rule less.prems)
  have here: "progresses base (history s) d d" using less.prems by (simp add: progresses_def advance_refl)
  obtain r s1 where reply: "tr_ops_since T (read_sync_cursor d) bs s = (r, s1)" by force
  from since_reply [OF less.prems(1) assms(3) reply] have s1: "invariant s1" "history s1 = history s"
    and xs: "\<And>xs. r = Inr xs \<Longrightarrow> xs = page_after (history s) (read_sync_cursor d) bs"
    using assms(4) by auto
  show ?case
  proof (cases r)
    case (Inl e)
    with reply s1 here show ?thesis by (subst catch_up.simps) auto
  next
    case (Inr batch)
    note batch = xs [OF Inr]
    show ?thesis
    proof (cases "batch = []")
      case True
      then have "length (history s) \<le> unat (read_sync_cursor d)"
        using page_short [of "history s" "read_sync_cursor d" bs] batch assms(3) by simp
      moreover have "unat (read_sync_cursor d) \<le> length (history s)"
        using less.prems(2) by (simp add: replica_at_def agrees_def)
      ultimately show ?thesis using reply Inr True s1 here by (subst catch_up.simps) auto
    next
      case False
      obtain f s2 where prep: "tr_prepare_pull T batch s1 = (f, s2)" by force
      from prepare_pull_keeps [OF s1(1) prep] s1(2) have s2: "invariant s2" "history s2 = history s" by auto
      show ?thesis
      proof (cases f)
        case (Some e)
        with reply Inr False prep s2 here show ?thesis by (subst catch_up.simps) auto
      next
        case None
        let ?es = "map (\<lambda>x. (so_seq x, so_envelope x)) batch"
        show ?thesis
        proof (cases "apply_sequenced_batch ext (envs n) ?es Components d")
          case (Inl e)
          with reply Inr False prep None s2 here show ?thesis by (subst catch_up.simps) auto
        next
          case ok: (Inr p)
          obtain outs du d1 where p: "p = (outs, du, d1)" by (metis prod_cases3)
          have l: "ledger_ok d" and a: "agrees base (history s) d" and so: "sound d"
            using less.prems(2) by (simp_all add: replica_at_def)
          note run = ok [unfolded p]
          note step = agrees_page [OF h a l False [unfolded batch] run [folded entries_of_def, unfolded batch]]
          have d1: "replica_at base (history s) d1" using step(1,2) sound_sequenced [OF so run] by (simp add: replica_at_def)
          have adv: "advance d d1" using evolves_sequenced [OF run] l by (simp add: evolves_def)
          have len: "unat (read_sync_cursor d1) = unat (read_sync_cursor d) + length batch" using step(4) batch by simp
          show ?thesis
          proof (cases "length batch = bs")
            case True
            have "unat (read_sync_cursor d1) \<le> length (history s)" using d1 by (simp add: replica_at_def agrees_def)
            then have "length (history s2) - unat (read_sync_cursor d1) < length (history s) - unat (read_sync_cursor d)"
              using len True assms(3) unfolding s2(2) by linarith
            from less.hyps [OF this s2(1), unfolded s2(2), OF d1, of "Suc n" "count_batch batch outs stats"]
            obtain failed s' d' stats' where
              "catch_up T ext envs bs (Suc n) s2 d1 (count_batch batch outs stats) = Some (failed, s', d', stats')"
              "invariant s'" "history s' = history s" "progresses base (history s) d1 d'"
              "failed = None \<longrightarrow> unat (read_sync_cursor d') = length (history s)" by blast
            with reply Inr False prep None run True adv show ?thesis
              by (subst catch_up.simps) (auto simp: progresses_def intro: advance_trans)
          next
            case part: False
            then have "length batch < bs" using batch by (simp add: page_after_def)
            then have "length (history s) \<le> unat (read_sync_cursor d1)"
              using page_short [of "history s" "read_sync_cursor d" bs] batch len by simp
            moreover have "unat (read_sync_cursor d1) \<le> length (history s)" using d1 by (simp add: replica_at_def agrees_def)
            ultimately show ?thesis using reply Inr False prep None run part d1 adv s2
              by (subst catch_up.simps) (auto simp: progresses_def)
          qed
        qed
      qed
    qed
  qed
qed

text \<open>Operations with a place in the history.\<close>

definition placed :: "'s \<Rightarrow> seq_op list \<Rightarrow> bool" where
  "placed s ys \<longleftrightarrow> (\<forall>y \<in> set ys. at_seq (history s) (so_seq y) (so_envelope y))"

lemma push_placed:
  assumes "invariant s" "tr_push T ops s = (Inr ys, s')"
  shows "placed s' ys" "op_id ` so_envelope ` set ys = op_id ` set ops"
proof -
  have "map (\<lambda>y. op_id (so_envelope y)) ys = map op_id ops" and p: "placed s' ys"
    using push_reply [OF assms] by (auto simp: placed_def)
  then have "(\<lambda>y. op_id (so_envelope y)) ` set ys = op_id ` set ops" by (metis list.set_map)
  then show "op_id ` so_envelope ` set ys = op_id ` set ops" by (simp add: image_image)
  show "placed s' ys" by (rule p)
qed

lemma placed_grow: "placed s ys \<Longrightarrow> history s' = history s @ new \<Longrightarrow> placed s' ys"
  by (auto simp: placed_def intro: at_seq_append)

lemma isolate_progresses:
  assumes "isolate_rejected_batch T envs n xs acc prog s d = (r, s', d')"
    and "invariant s" "replica_at base (history s) d" "placed s acc"
  shows "invariant s' \<and> (\<exists>new. history s' = history s @ new) \<and> progresses base (history s') d d' \<and>
     (\<forall>ys. r = Inr ys \<longrightarrow> placed s' ys)"
  using assms
proof (induction xs arbitrary: n acc prog s d)
  case Nil
  then show ?case by (auto simp: progresses_def advance_refl)
next
  case (Cons x xs)
  obtain q s1 where push: "tr_push T [x] s = (q, s1)" by force
  from push_reply [OF Cons.prems(2) push] obtain new where s1: "invariant s1" "history s1 = history s @ new" by blast
  have d1: "replica_at base (history s1) d" using Cons.prems(3) by (simp add: s1(2) replica_at_append)
  have acc1: "placed s1 acc" by (rule placed_grow [OF Cons.prems(4) s1(2)])
  show ?case
  proof (cases q)
    case (Inr ys)
    have "placed s1 (acc @ ys)" using acc1 push_placed(1) [OF Cons.prems(2) push [unfolded Inr]] by (auto simp: placed_def)
    from Cons.IH [OF _ s1(1) d1 this] Cons.prems(1) push Inr s1(2) show ?thesis by force
  next
    case (Inl e)
    show ?thesis
    proof (cases "terminal_rejection e")
      case None
      with Cons.prems(1) push Inl s1 d1 acc1 show ?thesis
        by (auto simp: progresses_def advance_refl split: if_splits)
    next
      case (Some reason)
      let ?d = "snd (quarantine_outbox_op (op_id x) (quarantine_reason reason) (host_now_ms (envs n)) d)"
      have q: "progresses base (history s1) d ?d" by (rule quarantine_progresses [OF d1])
      then have "replica_at base (history s1) ?d" by (simp add: progresses_def)
      moreover have "isolate_rejected_batch T envs (Suc n) xs acc True s1 ?d = (r, s', d')"
        using Cons.prems(1) push Inl Some by simp
      ultimately have IH: "invariant s' \<and> (\<exists>new. history s' = history s1 @ new) \<and> progresses base (history s') ?d d' \<and>
          (\<forall>ys. r = Inr ys \<longrightarrow> placed s' ys)"
        using Cons.IH s1(1) acc1 by blast
      then obtain new' where "history s' = history s1 @ new'" by blast
      with IH q s1(2) show ?thesis using progresses_trans [of base "history s1" d ?d new' d'] by auto
    qed
  qed
qed

lemma push_batch_progresses:
  assumes ok: "push_batch T envs queue s d = (r, s', d')" and i: "invariant s" and d: "replica_at base (history s) d"
  shows "invariant s' \<and> (\<exists>new. history s' = history s @ new) \<and> progresses base (history s') d d' \<and>
     (\<forall>ys. r = Inr ys \<longrightarrow> placed s' ys)"
proof -
  obtain q s1 where push: "tr_push T queue s = (q, s1)" by force
  from push_reply [OF i push] obtain new where s1: "invariant s1" "history s1 = history s @ new" by blast
  have d1: "replica_at base (history s1) d" using d by (simp add: s1(2) replica_at_append)
  then have here: "progresses base (history s1) d d" by (simp add: progresses_def advance_refl)
  show ?thesis
  proof (cases q)
    case (Inr ys)
    with ok push s1 here push_placed(1) [OF i push [unfolded Inr]] show ?thesis by (auto simp: push_batch_def)
  next
    case (Inl e)
    show ?thesis
    proof (cases "terminal_rejection e = None")
      case True
      with ok push Inl s1 here show ?thesis by (auto simp: push_batch_def)
    next
      case False
      with ok push Inl have "isolate_rejected_batch T envs 0 queue [] False s1 d = (r, s', d')" by (simp add: push_batch_def)
      from isolate_progresses [OF this s1(1) d1] s1(2) show ?thesis by (auto simp: placed_def)
    qed
  qed
qed

lemma push_outbox_progresses:
  assumes ok: "push_outbox_once T envs bs s d = (r, s', d')" and i: "invariant s" and d: "replica_at base (history s) d"
  shows "invariant s' \<and> (\<exists>new. history s' = history s @ new) \<and> progresses base (history s') d d'"
proof -
  have here: "progresses base (history s) d d" using d by (simp add: progresses_def advance_refl)
  show ?thesis
  proof (cases "read_pending_outbox bs d")
    case (Inl e)
    with ok i here show ?thesis by (auto simp: push_outbox_once_def)
  next
    case (Inr queue)
    obtain f s1 where prep: "tr_prepare_push T queue s = (f, s1)" by force
    from prepare_push_keeps [OF i prep] have s1: "invariant s1" "history s1 = history s" by auto
    obtain q s2 d2 where push: "push_batch T envs queue s1 d = (q, s2, d2)" by (metis prod_cases3)
    note step = push_batch_progresses [OF push s1(1), unfolded s1(2), OF d]
    have "invariant s' \<and> (\<exists>new. history s' = history s @ new) \<and> progresses base (history s') d d'"
      if a: "q = Inr ys" "acknowledge_server_ops (map (\<lambda>x. (op_id (so_envelope x), so_seq x)) ys) d2 = Inr (du, d')" "s' = s2" for ys du
    proof -
      have i2: "invariant s2" and p2: "progresses base (history s2) d d2" and y: "placed s2 ys" using step a(1) by auto
      have h2: "history_ok (history s2)" by (rule sequencer_history) (rule i2)
      have "\<forall>(u, k) \<in> set (map (\<lambda>x. (op_id (so_envelope x), so_seq x)) ys). \<exists>x. at_seq (history s2) k x \<and> op_id x = u"
        using y by (auto simp: placed_def)
      with agrees_acknowledged [OF h2 _ _ a(2)] p2 have "agrees base (history s2) d'" by (simp add: progresses_def replica_at_def)
      moreover have "evolves d2 d'" "sound d' = sound d2" using evolves_acknowledge [OF a(2)] sound_acknowledge [OF a(2)] by auto
      ultimately have "progresses base (history s2) d d'"
        using p2 by (auto simp: progresses_def replica_at_def evolves_def intro: advance_trans)
      with step a(3) show ?thesis by simp
    qed
    moreover have "push_outbox_once T envs bs s d =
        (if queue = [] then (Inr 0, s, d)
         else case f of Some e \<Rightarrow> (Inl e, s1, d)
         | None \<Rightarrow> (case q of Inl e \<Rightarrow> (Inl e, s2, d2)
             | Inr ys \<Rightarrow> (case acknowledge_server_ops (map (\<lambda>x. (op_id (so_envelope x), so_seq x)) ys) d2 of
                  Inl e \<Rightarrow> (Inl (Domain e), s2, d2) | Inr (_, d3) \<Rightarrow> (Inr (length queue), s2, d3))))"
      using Inr prep push by (simp add: push_outbox_once_def split: option.split sum.split)
    ultimately show ?thesis
      using ok here i s1 step
      by (cases "queue = []"; cases f; cases q;
          cases "acknowledge_server_ops (map (\<lambda>x. (op_id (so_envelope x), so_seq x)) (projr q)) d2") auto
  qed
qed

lemma sync_once_returns:
  assumes i: "invariant s" and d: "replica_at base (history s) d" and b: "0 < bs" "page bs = bs"
  shows "\<exists>r s' d'. sync_once T ext envs bs s d = Some (r, s', d') \<and> invariant s' \<and>
     (\<exists>new. history s' = history s @ new) \<and> progresses base (history s') d d' \<and>
     (\<forall>stats. r = Inr stats \<longrightarrow> unat (read_sync_cursor d') = length (history s') \<and> ss_cursor stats = read_sync_cursor d')"
proof -
  from catch_up_reaches_end [OF i d b, of ext "envs 0" 0 no_stats] obtain f1 s1 d1 stats1 where
    up1: "catch_up T ext (envs 0) bs 0 s d no_stats = Some (f1, s1, d1, stats1)"
    and s1: "invariant s1" "history s1 = history s" and p1: "progresses base (history s) d d1" by blast
  show ?thesis
  proof (cases f1)
    case (Some e)
    with up1 s1 p1 show ?thesis by (simp add: sync_once_def)
  next
    case None
    obtain r2 s2 d2 where push: "push_outbox_once T (envs 1) bs s1 d1 = (r2, s2, d2)" by (metis prod_cases3)
    have "replica_at base (history s1) d1" using p1 s1(2) by (simp add: progresses_def)
    from push_outbox_progresses [OF push s1(1) this] s1(2) obtain new where
      s2: "invariant s2" "history s2 = history s @ new" and p2: "progresses base (history s2) d1 d2" by auto
    have p12: "progresses base (history s2) d d2" using progresses_trans [OF p1] p2 by (simp add: s2(2))
    show ?thesis
    proof (cases r2)
      case (Inl e)
      with up1 None push s2 p12 show ?thesis by (simp add: sync_once_def)
    next
      case (Inr pushed)
      have "replica_at base (history s2) d2" using p2 by (simp add: progresses_def)
      from catch_up_reaches_end [OF s2(1) this b, of ext "envs 2" 0 "stats1\<lparr>ss_pushed := pushed\<rparr>"]
      obtain f3 s3 d3 stats3 where
        up3: "catch_up T ext (envs 2) bs 0 s2 d2 (stats1\<lparr>ss_pushed := pushed\<rparr>) = Some (f3, s3, d3, stats3)"
        and s3: "invariant s3" "history s3 = history s2" and p3: "progresses base (history s2) d2 d3"
        and c: "f3 = None \<longrightarrow> unat (read_sync_cursor d3) = length (history s2)" by blast
      have "progresses base (history s2) d d3" using progresses_trans [OF p12, of "[]" d3] p3 by simp
      with up1 None push Inr up3 s2 s3 c show ?thesis by (cases f3) (simp_all add: sync_once_def)
    qed
  qed
qed

end

section \<open>The in-memory server is a sequencer\<close>

definition loopback_history :: "loopback \<Rightarrow> op list" where
  "loopback_history s = map so_envelope (lb_log s)"

definition loopback_ok :: "loopback \<Rightarrow> bool" where
  "loopback_ok s \<longleftrightarrow> history_ok (loopback_history s) \<and> lb_log s = number (loopback_history s) \<and>
     (\<forall>u k. get (lb_by_op_id s) u = Some k \<longleftrightarrow> (\<exists>x. at_seq (loopback_history s) k x \<and> op_id x = u))"

lemma at_seq_snoc:
  assumes "history_ok (L @ [x])"
  shows "at_seq (L @ [x]) k y \<longleftrightarrow> at_seq L k y \<or> (k = of_nat (Suc (length L)) \<and> y = x)"
proof -
  have "unat (of_nat (Suc (length L)) :: 64 word) = Suc (length L)" by (rule unat_seq [OF assms]) simp
  moreover have "k = of_nat (Suc (length L)) \<longleftrightarrow> unat k = Suc (length L)"
    using calculation by (metis word_unat_eq_iff)
  ultimately show ?thesis by (auto simp: at_seq_def nth_append le_Suc_eq)
qed

lemma loopback_ingest_one_reply:
  assumes i: "loopback_ok s" and ok: "loopback_ingest_one x s = (r, s')"
  shows "loopback_ok s' \<and> (\<exists>new. loopback_history s' = loopback_history s @ new) \<and>
     (\<forall>y. r = Inr y \<longrightarrow> op_id (so_envelope y) = op_id x \<and> at_seq (loopback_history s') (so_seq y) (so_envelope y))"
proof -
  let ?L = "loopback_history s" and ?w = "s\<lparr>lb_workspace := Some (op_workspace x)\<rparr>"
  have h: "history_ok ?L" and log: "lb_log s = number ?L" and ids: "get (lb_by_op_id s) u = Some k \<longleftrightarrow>
      (\<exists>x. at_seq ?L k x \<and> op_id x = u)" for u k using i by (simp_all add: loopback_ok_def)
  have w: "loopback_ok ?w" "loopback_history ?w = ?L" using i by (simp_all add: loopback_ok_def loopback_history_def)
  show ?thesis
  proof (cases "case lb_workspace s of None \<Rightarrow> False | Some w \<Rightarrow> w \<noteq> op_workspace x")
    case True
    with ok i show ?thesis by (auto simp: loopback_ingest_one_def)
  next
    case same: False
    show ?thesis
    proof (cases "get (lb_by_op_id s) (op_id x)")
      case (Some k)
      with ids obtain y where y: "at_seq ?L k y" "op_id y = op_id x" by blast
      then have "unat k - 1 < length ?L" "0 < unat k" by (auto simp: at_seq_def)
      with y have "lb_log s ! (unat k - 1) = \<lparr>so_seq = k, so_envelope = y\<rparr>"
        by (simp add: log number_nth at_seq_def del: of_nat_Suc)
      with ok same Some w y show ?thesis by (auto simp: loopback_ingest_one_def Let_def)
    next
      case None
      show ?thesis
      proof (cases "int (length (lb_log s)) < i64_max")
        case False
        with ok same None w show ?thesis by (auto simp: loopback_ingest_one_def Let_def)
      next
        case True
        let ?k = "of_nat (Suc (length ?L)) :: 64 word"
        have "length (lb_log s) = length ?L" by (simp add: loopback_history_def)
        moreover have new: "op_id x \<notin> op_id ` set ?L"
        proof
          assume "op_id x \<in> op_id ` set ?L"
          then obtain i where i: "i < length ?L" "op_id (?L ! i) = op_id x" by (auto simp: in_set_conv_nth)
          then have "at_seq ?L (of_nat (Suc i)) (?L ! i)"
            using unat_seq [OF h, of "Suc i"] by (simp add: at_seq_def del: of_nat_Suc)
          with i(2) ids None show False by (metis option.distinct(1))
        qed
        ultimately have h': "history_ok (?L @ [x])" using h True by (simp add: history_ok_def)
        from ok same None True have r: "r = Inr \<lparr>so_seq = ?k, so_envelope = x\<rparr>"
          and s': "s' = ?w\<lparr>lb_by_op_id := put (op_id x) ?k (lb_by_op_id s), lb_log := lb_log s @ [\<lparr>so_seq = ?k, so_envelope = x\<rparr>]\<rparr>"
          by (auto simp: loopback_ingest_one_def Let_def loopback_history_def add.commute)
        have hist: "loopback_history s' = ?L @ [x]" by (simp add: s' loopback_history_def)
        have "get (lb_by_op_id s') u = Some k \<longleftrightarrow> (\<exists>y. at_seq (?L @ [x]) k y \<and> op_id y = u)" for u k
        proof (cases "u = op_id x")
          case True
          have "\<not> at_seq ?L k y" if "op_id y = op_id x" for y
          proof
            assume "at_seq ?L k y"
            then have "op_id y \<in> op_id ` set ?L" by (intro imageI at_seq_mem)
            with new that show False by simp
          qed
          with True show ?thesis by (auto simp: s' at_seq_snoc [OF h'] simp del: of_nat_Suc)
        next
          case False
          with ids [of u k] show ?thesis by (auto simp: s' at_seq_snoc [OF h'] simp del: of_nat_Suc)
        qed
        moreover have "lb_log s' = number (?L @ [x])" by (simp add: s' log number_append del: of_nat_Suc)
        ultimately show ?thesis using h' by (simp add: loopback_ok_def hist r at_seq_snoc [OF h'] del: of_nat_Suc)
      qed
    qed
  qed
qed

lemma loopback_ingest_reply:
  assumes "loopback_ok s" "loopback_ingest ops s = (r, s')"
  shows "loopback_ok s' \<and> (\<exists>new. loopback_history s' = loopback_history s @ new) \<and>
     (\<forall>xs. r = Inr xs \<longrightarrow> map (\<lambda>y. op_id (so_envelope y)) xs = map op_id ops \<and>
        (\<forall>y \<in> set xs. at_seq (loopback_history s') (so_seq y) (so_envelope y)))"
  using assms
proof (induction ops arbitrary: s r s')
  case (Cons x ops)
  obtain q s1 where one: "loopback_ingest_one x s = (q, s1)" by force
  note step = loopback_ingest_one_reply [OF Cons.prems(1) one]
  show ?case
  proof (cases q)
    case (Inl e)
    with Cons.prems(2) one step show ?thesis by auto
  next
    case (Inr y)
    obtain q2 s2 where rest: "loopback_ingest ops s1 = (q2, s2)" by force
    note IH = Cons.IH [OF _ rest]
    from Cons.prems(2) one Inr rest have s': "s' = s2" and r: "r = (case q2 of Inl e \<Rightarrow> Inl e | Inr ys \<Rightarrow> Inr (y # ys))"
      by (auto split: sum.splits)
    from step obtain n1 where n1: "loopback_ok s1" "loopback_history s1 = loopback_history s @ n1" by blast
    with IH obtain n2 where n2: "loopback_history s2 = loopback_history s1 @ n2" by blast
    have "at_seq (loopback_history s2) (so_seq y) (so_envelope y)" using step Inr n2 at_seq_append by auto
    with IH n1 n2 step Inr show ?thesis by (auto simp: s' r split: sum.splits)
  qed
qed auto

interpretation loopback: exchange loopback_transport loopback_history loopback_ok "\<lambda>n. n"
proof (unfold_locales, goal_cases)
  case (1 s)
  then show ?case by (simp add: loopback_ok_def)
next
  case (2 s n c r s')
  then have "lb_log s = number (loopback_history s)" by (simp add: loopback_ok_def)
  with 2 show ?case
    by (auto simp: loopback_transport_def loopback_ops_since_def page_after_def min_def)
next
  case (3 s ops r s')
  then show ?case using loopback_ingest_reply [of s ops r s'] by (simp add: loopback_transport_def)
qed (auto simp: loopback_transport_def no_preparation_def)

section \<open>The server behind its HTTP endpoints is a sequencer\<close>

definition user_history :: "user_state \<Rightarrow> op list" where
  "user_history s = history_of (us_oplog s)"

lemma push_ops_reply:
  assumes u: "user_ok s" and ok: "push_ops ext env every checks header ops s = (r, s')"
  shows "user_ok s' \<and> (\<exists>new. user_history s' = user_history s @ new) \<and>
     (\<forall>xs. r = Inr xs \<longrightarrow> map so_envelope xs = ops \<and>
        (\<forall>y \<in> set xs. at_seq (user_history s') (so_seq y) (so_envelope y)))"
proof -
  obtain q s1 where ing: "ingest_operations ext env every ops s = (q, s1)" by force

  from ingest_cases [OF u ing] show ?thesis
  proof cases
    case (1 e)
    with ok ing u show ?thesis by (auto simp: push_ops_def split: sum.splits if_splits)
  next
    case 3
    with ok ing u show ?thesis
      by (auto simp: push_ops_def stopped_def user_history_def split: sum.splits if_splits)
  next
    case (2 xs)
    with ok ing u show ?thesis
      by (auto simp: push_ops_def ingested_def user_history_def split: sum.splits if_splits)
  qed
qed

interpretation http: exchange "http_transport ext env every checks" user_history user_ok "\<lambda>n. min n max_ops_page"
  for ext env every checks
proof (unfold_locales, goal_cases)
  case (1 s)
  then show ?case using user_okD(1) by (simp add: represents_def user_history_def)
next
  case (2 s n c r s')
  have "max 1 n = n" using 2(2) by simp
  with 2 since_represents [OF user_okD(1) [OF 2(1)]] show ?case
    by (auto simp: http_transport_def read_reply_def get_ops_def user_history_def Let_def attempt_def split: sum.splits)
next
  case (3 s ops r s')
  obtain q s1 where push: "push_ops ext env every checks (Some format_header) ops s = (q, s1)" by force
  from push_ops_reply [OF 3(1) push] 3(2) push show ?case
    by (auto simp: http_transport_def read_reply_def split: sum.splits)
qed (auto simp: http_transport_def no_preparation_def)

section \<open>Both channels of the server\<close>

lemma format_header_supported: "require_supported_format (Some format_header) = Inr ()"
proof -
  have "trim ''7'' = ''7''" by code_simp
  then show ?thesis
    by (simp add: require_supported_format_def format_header_def parse_u32_def format_version_def byte_def)
qed



end
