(* ===== verification/Exchange.thy ===== *)
theory Exchange
  imports SyncProps
begin

text \<open>
  Properties of a whole exchange: a pass of the client against the server's endpoints returns and
  reaches the end of the log, two synchronised clients have the same operations, and what a pass
  holds back is exactly what the server refused for good.
\<close>

section \<open>What the endpoints answer\<close>

lemma header_supported: "require_supported_format (Some format_header) = Inr ()"
  by (simp add: require_supported_format_def format_header_def parse_u32_def trim_def is_whitespace_def
      chars_of.simps utf8_width_def byte_def format_version_def)

lemma cursor_range: "unat c \<le> length L \<Longrightarrow> history_ok L \<Longrightarrow> uint c \<le> i64_max"
  unfolding history_ok_def uint_nat by linarith

lemma pull_answers:
  assumes "user_ok s" and "unat c \<le> length (user_history s)" and "0 < n" and "n \<le> max_ops_page"
  shows "tr_ops_since (http_transport ext env every checks) c n s = (Inr (page_after (user_history s) c n), s)"
proof -
  have r: "represents (us_oplog s) (user_history s)" using user_okD(1) [OF assms(1)] by (simp add: user_history_def)
  then have "history_ok (user_history s)" by (simp add: represents_def)
  then have "uint c \<le> i64_max" by (rule cursor_range [OF assms(2)])
  moreover have "int n \<le> i64_max" "min (max 1 n) max_ops_page = n" using assms(3,4) by (simp_all add: max_ops_page_def i64_max_def)
  ultimately have "get_ops (Some format_header) c n s = Inr (page_after (user_history s) c n)"
    using since_page [OF r] by (simp add: get_ops_def header_supported guard_def)
  then show ?thesis by (simp add: http_transport_def read_reply_def)
qed

section \<open>A pass against the server\<close>

text \<open>
  C10. A pass of the client against the server's endpoints always returns: the loops that fetch pages
  end, whatever the server answers to the push. Afterwards the server is still consistent and its log
  only grew, the client has lost no operation of its own (every one it had queued is still queued or
  has a sequence), and if the pass reports success then its cursor is at the end of the log, as are
  the statistics it returns.
\<close>

theorem sync_pass_reaches_the_head:
  assumes "user_ok s" and "replica_at base (user_history s) d" and "0 < batch_size" and "batch_size \<le> max_ops_page"
  shows "\<exists>r s' d'. sync_once (http_transport ext env every checks) ext' envs batch_size s d = Some (r, s', d') \<and>
     user_ok s' \<and> (\<exists>new. user_history s' = user_history s @ new) \<and>
     replica_at base (user_history s') d' \<and> advance d d' \<and>
     (\<forall>stats. r = Inr stats \<longrightarrow>
        unat (read_sync_cursor d') = length (user_history s') \<and> ss_cursor stats = read_sync_cursor d')"
proof -
  have "min batch_size max_ops_page = batch_size" using assms(4) by simp
  from http.sync_once_returns [OF assms(1,2,3) this, of ext env every checks ext' envs] show ?thesis
    by (auto simp: progresses_def)
qed

lemma sample_user_history: "user_history sample_user = []"
  by (simp add: user_history_def sample_user_def history_of_def)

lemma sample_replica: "replica_at 0 (user_history sample_user) sample_notes"
  using user_okD [OF sample_user_ok] by (simp add: replica_at_def user_history_def) (simp add: sample_user_def)

theorem sync_pass_reaches_the_head_witness:
  "\<exists>r s' d'. sync_once (http_transport ascii_externals sample_env 0 (\<lambda>_. Inr ())) ascii_externals (\<lambda>_ _. sample_env)
     256 sample_user sample_notes = Some (r, s', d') \<and> user_ok s' \<and> advance sample_notes d'"
  using sync_pass_reaches_the_head [OF sample_user_ok sample_replica, of 256] by (fastforce simp: max_ops_page_def)

section \<open>Two clients\<close>

text \<open>
  C11. Two clients whose passes succeed one after the other have recorded the same operations: whatever
  place the log had when the first of them finished, above the snapshots they started from, both
  have recorded the operation of that place under its sequence and no other operation.
\<close>

theorem synchronised_clients_record_the_same_operations:
  assumes "user_ok s" and "replica_at base1 (user_history s) d1" and "replica_at base2 (user_history s) d2"
    and "0 < batch_size" and "batch_size \<le> max_ops_page"
    and "sync_once (http_transport ext env every checks) ext1 envs1 batch_size s d1 = Some (Inr stats1, s1, d1')"
    and "sync_once (http_transport ext env every checks) ext2 envs2 batch_size s1 d2 = Some (Inr stats2, s2, d2')"
    and "max base1 base2 < unat k" and "unat k \<le> length (user_history s1)"
  shows "(get (applied_ops d1') u = Some (Some k) \<longleftrightarrow> op_id (user_history s1 ! (unat k - 1)) = u) \<and>
     (get (applied_ops d2') u = Some (Some k) \<longleftrightarrow> op_id (user_history s1 ! (unat k - 1)) = u)"
proof -
  from sync_pass_reaches_the_head [OF assms(1,2,4,5), of ext env every checks ext1 envs1] assms(6)
  have one: "user_ok s1" "\<exists>new. user_history s1 = user_history s @ new" "replica_at base1 (user_history s1) d1'"
      "unat (read_sync_cursor d1') = length (user_history s1)" by auto
  have "replica_at base2 (user_history s1) d2" using one(2) assms(3) replica_at_append by auto
  from sync_pass_reaches_the_head [OF one(1) this assms(4,5), of ext env every checks ext2 envs2] assms(7)
  obtain new where two: "replica_at base2 (user_history s2) d2'" "unat (read_sync_cursor d2') = length (user_history s2)"
      "user_history s2 = user_history s1 @ new" by auto
  have at: "at_seq (user_history s1) k (user_history s1 ! (unat k - 1))" using assms(8,9) by (simp add: at_seq_def)
  then have at2: "at_seq (user_history s2) k (user_history s1 ! (unat k - 1))" by (simp add: two(3) at_seq_append)
  have "k \<le> read_sync_cursor d1'" "k \<le> read_sync_cursor d2'"
    using assms(9) one(4) two(2,3) by (simp_all add: word_le_nat_alt)
  have "get (applied_ops d) u = Some (Some k) \<longleftrightarrow> op_id (user_history s1 ! (unat k - 1)) = u"
    if "agrees b L d" "at_seq L k (user_history s1 ! (unat k - 1))" "b < unat k" "k \<le> read_sync_cursor d" for b L d
    using that at_seq_unique [OF that(2)] unfolding agrees_def by blast
  from this [of base1 "user_history s1" d1'] this [of base2 "user_history s2" d2'] show ?thesis
    using at at2 one(3) two(1) assms(8) \<open>k \<le> read_sync_cursor d1'\<close> \<open>k \<le> read_sync_cursor d2'\<close>
    unfolding replica_at_def max_less_iff_conj by blast
qed

text \<open>A server whose log holds one operation, and a client that has nothing.\<close>

lemma sample_history:
  assumes "ingest_operations ascii_externals sample_env 0 [sample_create_page] sample_user = (Inr xs, s)"
  shows "user_ok s \<and> user_history s = [sample_create_page]"
proof -
  from ingest_cases [OF sample_user_ok assms] have ing: "ingested sample_user [sample_create_page] xs s" by auto
  have L0: "history_of (us_oplog sample_user) = []" by (simp add: sample_user_def history_of_def)
  have "oplog_append sample_create_page tempty =
      Inr (\<lparr>ao_operation = \<lparr>so_seq = 1, so_envelope = sample_create_page\<rparr>, ao_inserted = True\<rparr>,
        put 1 \<lparr>ol_op_id = 20, ol_envelope = encode_persisted_envelope sample_create_page\<rparr> tempty)"
    by (simp add: oplog_append_def find_logged_def latest_seq_def i64_max_def sample_create_page_def)
  then have "us_oplog s = put 1 \<lparr>ol_op_id = 20, ol_envelope = encode_persisted_envelope sample_create_page\<rparr> tempty"
    using assms by (auto simp add: ingest_operations_def sample_user_def Let_def split: sum.splits prod.splits)
  then have "user_history s = [sample_create_page]"
    by (simp add: user_history_def history_of_def decode_envelope_def)
  with ing show ?thesis by (simp add: ingested_def)
qed

lemma sample_pass:
  assumes u: "user_ok s" and L: "user_history s = [sample_create_page]"
  shows "\<exists>stats d. sync_once (http_transport ascii_externals sample_env 0 (\<lambda>_. Inr ())) ascii_externals (\<lambda>_ _. sample_env)
     256 s sample_notes = Some (Inr stats, s, d)"
proof -
  let ?T = "http_transport ascii_externals sample_env 0 (\<lambda>_. Inr ())" and ?envs = "\<lambda>_. sample_env"
  obtain us st where one: "apply_one ascii_externals sample_create_page (effects_for Deferred Components, sample_notes) = Inr (us, st)"
    using sample_notes_apply by blast
  have "applied_ops sample_notes = tempty" "last_server_seq sample_notes = None" "require_mode Components sample_notes = Inr ()"
    by (simp_all add: sample_notes_def empty_db_def require_mode_def require_initialized_structure_projection_def
        structure_projection_version_def)
  from first_sequenced [OF one this sample_create_valid, of sample_env] obtain outs du d where
    run: "apply_sequenced_batch ascii_externals sample_env [(1, sample_create_page)] Components sample_notes = Inr (outs, du, d)"
    by blast
  have c0: "read_sync_cursor sample_notes = 0" by (simp add: sample_notes_def empty_db_def read_sync_cursor_def)
  have h: "history_ok [sample_create_page]" by (simp add: history_ok_def i64_max_def)
  have page: "page_after [sample_create_page] 0 256 = [\<lparr>so_seq = 1, so_envelope = sample_create_page\<rparr>]"
    by (simp add: page_after_def number_def)
  have "replica_at 0 [sample_create_page] sample_notes"
    using replica_at_append [OF sample_replica, of "[sample_create_page]"] by (simp add: sample_user_history)
  then have "agrees 0 [sample_create_page] sample_notes" "ledger_ok sample_notes" by (simp_all add: replica_at_def)
  from agrees_page [OF h this(1,2), of 256] run page c0 have c1: "unat (read_sync_cursor d) = 1"
    by (simp add: entries_of_def)
  have "outbox sample_notes = []" by (simp add: sample_notes_def empty_db_def)
  with sequenced_outbox [OF run] have "outbox d = []" by auto
  then have out: "read_pending_outbox 256 d = Inr []" by (simp add: read_pending_outbox_def)
  have pull0: "tr_ops_since ?T 0 256 s = (Inr [\<lparr>so_seq = 1, so_envelope = sample_create_page\<rparr>], s)"
    using pull_answers [OF u, of 0 256] page by (simp add: L max_ops_page_def)
  have pull1: "tr_ops_since ?T (read_sync_cursor d) 256 s = (Inr [], s)"
    using pull_answers [OF u, of "read_sync_cursor d" 256] c1 by (simp add: L max_ops_page_def page_after_def)
  have prep: "tr_prepare_pull ?T xs t = (None, t)" for xs t by (simp add: http_transport_def no_preparation_def)
  have "catch_up ?T ascii_externals ?envs 256 0 s sample_notes stats =
      Some (None, s, d, count_batch [\<lparr>so_seq = 1, so_envelope = sample_create_page\<rparr>] outs stats)" for stats
    using pull0 run prep c0 by (subst catch_up.simps) simp
  moreover have "catch_up ?T ascii_externals ?envs 256 0 s d stats = Some (None, s, d, stats)" for stats
    using pull1 by (subst catch_up.simps) simp
  ultimately show ?thesis by (simp add: sync_once_def push_outbox_once_def out)
qed

theorem synchronised_clients_record_the_same_operations_witness:
  "\<exists>s stats d. sync_once (http_transport ascii_externals sample_env 0 (\<lambda>_. Inr ())) ascii_externals (\<lambda>_ _. sample_env)
     256 s sample_notes = Some (Inr stats, s, d) \<and> user_history s = [sample_create_page] \<and>
     get (applied_ops d) 20 = Some (Some 1)"
proof -
  obtain xs s where "ingest_operations ascii_externals sample_env 0 [sample_create_page] sample_user = (Inr xs, s)"
    using sample_ingest by blast
  from sample_history [OF this] have s: "user_ok s" "user_history s = [sample_create_page]" by auto
  have r: "replica_at 0 (user_history s) sample_notes"
    using replica_at_append [OF sample_replica, of "[sample_create_page]"]
    by (simp add: s(2) sample_user_history)
  obtain stats d where p: "sync_once (http_transport ascii_externals sample_env 0 (\<lambda>_. Inr ())) ascii_externals
      (\<lambda>_ _. sample_env) 256 s sample_notes = Some (Inr stats, s, d)" using sample_pass [OF s] by blast
  have "get (applied_ops d) 20 = Some (Some 1)"
    using synchronised_clients_record_the_same_operations [OF s(1) r r _ _ p p, of 1 20] s(2)
    by (simp add: max_ops_page_def sample_create_page_def)
  with p s(2) show ?thesis by blast
qed

section \<open>What is held back\<close>

text \<open>
  An outbox row after a refused batch: as it was, or quarantined with the reason that the server gave
  when it refused the row's operation sent alone.
\<close>

inductive held_back :: "'s transport \<Rightarrow> op list \<Rightarrow> outbox_row \<Rightarrow> outbox_row \<Rightarrow> bool" for T queue where
  kept: "held_back T queue r r"
| refused: "o_quarantined r = None \<Longrightarrow> x \<in> set queue \<Longrightarrow> op_id x = o_op_id r \<Longrightarrow>
    tr_push T [x] s = (Inl e, s') \<Longrightarrow> terminal_rejection e = Some m \<Longrightarrow>
    held_back T queue r (r\<lparr>o_quarantined := Some now, o_reason := Some (quarantine_reason m)\<rparr>)"

definition holds_back :: "'s transport \<Rightarrow> op list \<Rightarrow> db \<Rightarrow> db \<Rightarrow> bool" where
  "holds_back T queue d d' \<longleftrightarrow> (\<exists>rs. d' = d\<lparr>outbox := rs\<rparr> \<and> list_all2 (held_back T queue) (outbox d) rs)"

lemma held_back_trans: "held_back T queue r r' \<Longrightarrow> held_back T queue r' r'' \<Longrightarrow> held_back T queue r r''"
  by (elim held_back.cases) (auto intro: held_back.intros)

lemma held_back_mono: "held_back T xs r r' \<Longrightarrow> set xs \<subseteq> set ys \<Longrightarrow> held_back T ys r r'"
  by (elim held_back.cases) (auto intro: held_back.intros)

lemma holds_back_refl: "holds_back T queue d d"
  by (auto simp: holds_back_def intro!: exI [of _ "outbox d"] list.rel_refl kept)

lemma holds_back_trans:
  assumes "holds_back T queue d d1" "holds_back T queue d1 d2"
  shows "holds_back T queue d d2"
proof -
  from assms obtain rs rs2 where r: "d1 = d\<lparr>outbox := rs\<rparr>" "list_all2 (held_back T queue) (outbox d) rs"
      "d2 = d\<lparr>outbox := rs2\<rparr>" "list_all2 (held_back T queue) rs rs2" by (auto simp: holds_back_def)
  have "list_all2 (held_back T queue) (outbox d) rs2"
    by (rule list_all2_trans [OF held_back_trans r(2,4)])
  with r(3) show ?thesis by (auto simp: holds_back_def)
qed

lemma holds_back_mono: "holds_back T xs d d' \<Longrightarrow> set xs \<subseteq> set ys \<Longrightarrow> holds_back T ys d d'"
  unfolding holds_back_def using held_back_mono list_all2_mono by metis

lemma quarantine_holds_back:
  assumes "tr_push T [x] s = (Inl e, s')" "terminal_rejection e = Some m" "x \<in> set queue"
  shows "holds_back T queue d (snd (quarantine_outbox_op (op_id x) (quarantine_reason m) now d))"
proof -
  let ?f = "\<lambda>r. if o_op_id r = op_id x \<and> o_quarantined r = None
      then r\<lparr>o_quarantined := Some now, o_reason := Some (quarantine_reason m)\<rparr> else r"
  have "held_back T queue r (?f r)" for r using refused [OF _ assms(3) _ assms(1,2)] kept by auto
  then have "list_all2 (held_back T queue) (outbox d) (map ?f (outbox d))"
    unfolding list_all2_map2 by (intro list.rel_refl)
  then show ?thesis by (auto simp: holds_back_def quarantine_outbox_op_def)
qed

lemma isolate_holds_back:
  "isolate_rejected_batch T envs n xs acc prog s d = (r, s', d') \<Longrightarrow> holds_back T xs d d'"
proof (induction xs arbitrary: n acc prog s d)
  case (Cons x xs)
  obtain q s1 where push: "tr_push T [x] s = (q, s1)" by force
  show ?case
  proof (cases q)
    case (Inr ys)
    with Cons.IH Cons.prems push have "holds_back T xs d d'" by simp
    then show ?thesis by (rule holds_back_mono) auto
  next
    case (Inl e)
    show ?thesis
    proof (cases "terminal_rejection e")
      case None
      with Cons.prems push Inl show ?thesis by (auto simp: holds_back_refl split: if_splits)
    next
      case (Some m)
      let ?d = "snd (quarantine_outbox_op (op_id x) (quarantine_reason m) (host_now_ms (envs n)) d)"
      have "holds_back T (x # xs) d ?d" by (rule quarantine_holds_back [OF push [unfolded Inl] Some]) simp
      moreover have "holds_back T xs ?d d'" using Cons.IH Cons.prems push Inl Some by simp
      then have "holds_back T (x # xs) ?d d'" by (rule holds_back_mono) auto
      ultimately show ?thesis by (rule holds_back_trans)
    qed
  qed
qed (simp add: holds_back_refl)

text \<open>
  C16. Whatever the server does with a batch, pushing it changes nothing in the client's database but
  the quarantine of outbox rows: every row is still there in its place with its operation, and a row
  is newly held back only if its operation is of this batch and the server refused it for good when
  it was sent alone; the row then carries that refusal's reason.
\<close>

theorem only_refused_operations_are_held_back:
  assumes "push_batch T envs queue s d = (r, s', d')"
  shows "\<exists>rs. d' = d\<lparr>outbox := rs\<rparr> \<and> list_all2 (held_back T queue) (outbox d) rs"
proof -
  obtain q s1 where push: "tr_push T queue s = (q, s1)" by force
  have "holds_back T queue d d'"
    using assms push isolate_holds_back
    by (auto simp: push_batch_def holds_back_refl split: sum.splits if_splits)
  then show ?thesis by (simp add: holds_back_def)
qed

definition sample_refused :: outbox_row where
  "sample_refused = \<lparr>o_op_id = 20, o_envelope = encode_persisted_envelope sample_stranger, o_created = 0,
     o_quarantined = None, o_reason = None\<rparr>"

lemma sample_refusal:
  "tr_push (http_transport ascii_externals sample_env 0 (\<lambda>_. Inr ())) [sample_stranger] sample_user =
     (Inl (Transport (TransportConflict ''operation belongs to another workspace'')), sample_user)"
  by (simp add: http_transport_def push_ops_def header_supported sample_stranger_refused read_reply_def http_fault_def
      from_domain_def api_conflict_def into_response_def transport_error_from_response_def)

theorem only_refused_operations_are_held_back_witness:
  "\<exists>rs. snd (snd (push_batch (http_transport ascii_externals sample_env 0 (\<lambda>_. Inr ())) (\<lambda>_. sample_env)
      [sample_stranger] sample_user (sample_notes\<lparr>outbox := [sample_refused]\<rparr>))) =
      sample_notes\<lparr>outbox := rs\<rparr> \<and> rs \<noteq> [sample_refused] \<and>
      list_all2 (held_back (http_transport ascii_externals sample_env 0 (\<lambda>_. Inr ())) [sample_stranger]) [sample_refused] rs"
proof -
  let ?T = "http_transport ascii_externals sample_env 0 (\<lambda>_. Inr ())" and ?d = "sample_notes\<lparr>outbox := [sample_refused]\<rparr>"
  let ?rs = "[sample_refused\<lparr>o_quarantined := Some (host_now_ms sample_env),
      o_reason := Some (quarantine_reason ''operation belongs to another workspace'')\<rparr>]"
  have "op_id sample_stranger = 20" by (simp add: sample_stranger_def sample_create_page_def)
  then have run: "push_batch ?T (\<lambda>_. sample_env) [sample_stranger] sample_user ?d = (Inr [], sample_user, ?d\<lparr>outbox := ?rs\<rparr>)"
    by (simp add: push_batch_def sample_refusal terminal_rejection_def transport_error_of_def quarantine_outbox_op_def
        sample_refused_def)
  from only_refused_operations_are_held_back [OF run] obtain rs where
    rs: "?d\<lparr>outbox := ?rs\<rparr> = ?d\<lparr>outbox := rs\<rparr>" "list_all2 (held_back ?T [sample_stranger]) [sample_refused] rs" by auto
  from arg_cong [OF rs(1), of outbox] have "rs \<noteq> [sample_refused]" by (auto simp: sample_refused_def)
  with rs show ?thesis unfolding run by (intro exI [of _ rs]) simp
qed

section \<open>What blocks the queue\<close>

text \<open>
  C24. A refusal with \<open>NotFound\<close> stops the queue for good: if the operations at the head of a client's
  queue make the server answer that an object is missing (a block on a page whose creation is held
  back is enough), then a pass of a client that is up to date fails with a status that does not count
  as a terminal rejection and changes neither side, so nothing is held back and nothing behind
  the head is ever sent.
\<close>

theorem not_found_blocks_the_queue:
  assumes "user_ok s" and "replica_at base (user_history s) d"
    and "unat (read_sync_cursor d) = length (user_history s)"
    and "0 < batch_size" and "batch_size \<le> max_ops_page"
    and "read_pending_outbox batch_size d = Inr (x # queue)" and "checks (x # queue) = Inr ()"
    and "ingest_operations ext env every (x # queue) s = (Inl (Domain (NotFound m)), s)"
  shows "sync_once (http_transport ext env every checks) ext' envs batch_size s d =
     Some (Inl (Transport (Http 404 (Some NotFoundCode) m)), s, d)"
proof -
  let ?T = "http_transport ext env every checks" and ?e = "Transport (Http 404 (Some NotFoundCode) m)"
  have "page_after (user_history s) (read_sync_cursor d) batch_size = []" using assms(3) by (simp add: page_after_def)
  with pull_answers [OF assms(1) _ assms(4,5), of "read_sync_cursor d" ext env every checks] assms(3)
  have "tr_ops_since ?T (read_sync_cursor d) batch_size s = (Inr [], s)" by simp
  then have up: "catch_up ?T ext' (envs 0) batch_size 0 s d no_stats = Some (None, s, d, no_stats)"
    by (subst catch_up.simps) simp
  have "\<not> 256 < length (x # queue)" using assms(8) by (auto simp: ingest_operations_def split: if_splits)
  then have push: "tr_push ?T (x # queue) s = (Inl ?e, s)"
    using assms(7,8) by (simp add: http_transport_def push_ops_def header_supported read_reply_def http_fault_def
        from_domain_def not_found_def into_response_def transport_error_from_response_def)
  have "terminal_rejection ?e = None" by (simp add: terminal_rejection_def transport_error_of_def)
  with push have "push_batch ?T (envs 1) (x # queue) s d = (Inl ?e, s, d)" by (simp add: push_batch_def)
  moreover have "tr_prepare_push ?T (x # queue) s = (None, s)" by (simp add: http_transport_def no_preparation_def)
  ultimately show ?thesis using up assms(6) by (simp add: sync_once_def push_outbox_once_def)
qed

definition sample_orphan :: op where
  "sample_orphan = sample_create_page\<lparr>op_id := 21, op_kind := BlockCreate \<lparr>bc_uuid = 30, bc_page_uuid = 9,
     bc_parent_uuid = None, bc_order_key = first_key, bc_style = Paragraph, bc_markdown = [], bc_created_at = 0\<rparr>\<rparr>"

definition sample_orphaned :: db where
  "sample_orphaned = sample_notes\<lparr>applied_ops := put 21 None tempty,
     outbox := [\<lparr>o_op_id = 21, o_envelope = encode_persisted_envelope sample_orphan, o_created = 0,
       o_quarantined = None, o_reason = None\<rparr>]\<rparr>"

lemma sample_orphan_refused:
  "ingest_operations ascii_externals sample_env 0 [sample_orphan] sample_user =
     (Inl (Domain (NotFound ''page for block was not found'')), sample_user)"
proof (rule sample_refuses)
  show "validate_op sample_orphan = Inr ()"
    by (simp add: validate_op_def sample_orphan_def sample_create_page_def format_version_def not_own_parent_def)
  show "apply_one ascii_externals sample_orphan (effects_for Deferred Components, sample_notes) =
      Inl (NotFound ''page for block was not found'')"
    by (simp add: apply_one_def sample_orphan_def sample_create_page_def apply_block_create_def Let_def
        ensure_text_note_target_def ensure_object_kind_def kind_conflicts_def ensure_parent_kind_def tombstone_dominates_def
        create_block_on_def page_identity_def sample_notes_def empty_db_def cong del: attempt_cong)
qed

lemma sample_orphaned_ok: "replica_at 0 (user_history sample_user) sample_orphaned"
proof -
  have "op_id sample_orphan = 21" by (simp add: sample_orphan_def)
  then show ?thesis using sample_replica
    by (auto simp: replica_at_def agrees_def ledger_ok_def seqs_unique_def sample_orphaned_def sample_user_history at_seq_def
        read_sync_cursor_def decode_row_def sound_defs forest_def block_edges_def cong: attachment_owner.case_cong)
qed

theorem not_found_blocks_the_queue_witness:
  "sync_once (http_transport ascii_externals sample_env 0 (\<lambda>_. Inr ())) ascii_externals (\<lambda>_ _. sample_env) 256
     sample_user sample_orphaned =
   Some (Inl (Transport (Http 404 (Some NotFoundCode) ''page for block was not found'')), sample_user, sample_orphaned)"
proof (rule not_found_blocks_the_queue [OF sample_user_ok sample_orphaned_ok])
  show "unat (read_sync_cursor sample_orphaned) = length (user_history sample_user)"
    by (simp add: sample_orphaned_def sample_notes_def empty_db_def read_sync_cursor_def sample_user_history)
  show "read_pending_outbox 256 sample_orphaned = Inr [sample_orphan]"
    by (simp add: read_pending_outbox_def sample_orphaned_def decode_row_def)
qed (simp_all add: sample_orphan_refused max_ops_page_def)

end
