(* ===== verification/Placement.thy ===== *)
theory Placement
  imports Replica
begin

text \<open>
  Where a block goes among its siblings (\<open>crates/notes-core/src/db/blocks.rs\<close>): the reads of the
  outliner commands, and the allocation of order keys for new or moved siblings, with the
  rebalancing of all siblings when a gap is exhausted.
\<close>

section \<open>Reading blocks\<close>

text \<open>\<open>Block\<close>, a row of \<open>BLOCK_COLUMNS\<close>; a \<open>ContentRevision\<close> is a clock.\<close>

record block_view =
  bk_uuid :: uuid
  bk_page :: uuid
  bk_parent :: "uuid option"
  bk_order :: order_key
  bk_style :: block_style
  bk_markdown :: string
  bk_revision :: hlc
  bk_created :: int
  bk_updated :: int

definition row_to_block :: "uuid \<Rightarrow> block_row \<Rightarrow> block_view" where
  "row_to_block u r =
     \<lparr>bk_uuid = u, bk_page = b_page r, bk_parent = b_parent r, bk_order = b_order r, bk_style = b_style r,
      bk_markdown = b_markdown r,
      bk_revision = (case b_markdown_hlc r of Some t \<Rightarrow> t | None \<Rightarrow> b_existence r),
      bk_created = b_created r, bk_updated = b_updated r\<rparr>"

definition get_block :: "db \<Rightarrow> uuid \<Rightarrow> block_view option" where
  "get_block d u = map_option (row_to_block u) (get (blocks d) u)"

definition require_block :: "db \<Rightarrow> uuid \<Rightarrow> core_error + block_view" where
  "require_block d u = (case get_block d u of None \<Rightarrow> Inl (NotFound ''block was not found'') | Some b \<Rightarrow> Inr b)"

definition get_blocks :: "db \<Rightarrow> uuid list \<Rightarrow> block_view list" where
  "get_blocks d us = List.map_filter (get_block d) us"

text \<open>\<open>WHERE page_uuid = ? AND parent_uuid IS ? AND uuid IS NOT ? ORDER BY order_key, uuid\<close>.\<close>

type_synonym position = "uuid \<times> order_key"

definition sort_position :: "position \<Rightarrow> order_key \<times> uuid" where
  "sort_position p = (snd p, fst p)"

definition siblings :: "db \<Rightarrow> uuid \<Rightarrow> uuid option \<Rightarrow> uuid option \<Rightarrow> position list" where
  "siblings d page parent without =
     sort_key sort_position
       (map (\<lambda>(u, r). (u, b_order r))
         (filter (\<lambda>(u, r). b_page r = page \<and> b_parent r = parent \<and> Some u \<noteq> without) (rows (blocks d))))"

definition list_block_children :: "db \<Rightarrow> uuid \<Rightarrow> uuid option \<Rightarrow> block_view list" where
  "list_block_children d page parent = get_blocks d (map fst (siblings d page parent None))"

section \<open>Allocating keys\<close>

datatype sibling_insertion = AtEnd | Before uuid | After uuid

definition first_of :: "'a list \<Rightarrow> 'a option" where
  "first_of xs = (case xs of [] \<Rightarrow> None | x # _ \<Rightarrow> Some x)"

definition sibling_neighbor ::
  "db \<Rightarrow> uuid \<Rightarrow> uuid option \<Rightarrow> position option \<Rightarrow> bool \<Rightarrow> uuid option \<Rightarrow> position option" where
  "sibling_neighbor d page parent anchor backwards without =
     (let xs = filter (\<lambda>p. case anchor of
                          None \<Rightarrow> True
                        | Some a \<Rightarrow> if backwards then sort_position p < sort_position a else sort_position a < sort_position p)
                 (siblings d page parent without)
      in first_of (if backwards then rev xs else xs))"

text \<open>The keys after the last sibling, or \<open>None\<close> when the key space ends.\<close>

fun keys_after :: "order_key \<Rightarrow> nat \<Rightarrow> order_key list option" where
  "keys_after previous 0 = Some []"
| "keys_after previous (Suc n) =
     (let next = key_after previous in
      if next = previous then None else map_option ((#) next) (keys_after next n))"

definition allocate_sibling_keys :: "order_key option \<Rightarrow> order_key option \<Rightarrow> nat \<Rightarrow> order_key list option" where
  "allocate_sibling_keys lower upper count =
     (if upper \<noteq> None then keys_between lower upper count
      else case lower of
        None \<Rightarrow> Some (map (\<lambda>i. key_from_ordinal (of_nat i)) [1..<count + 1])
      | Some k \<Rightarrow> keys_after k count)"

definition find_anchor :: "db \<Rightarrow> uuid \<Rightarrow> uuid option \<Rightarrow> uuid option \<Rightarrow> uuid \<Rightarrow> position option" where
  "find_anchor d page parent without u =
     (case get (blocks d) u of
        None \<Rightarrow> None
      | Some r \<Rightarrow> if b_page r = page \<and> b_parent r = parent \<and> Some u \<noteq> without then Some (u, b_order r) else None)"

definition insertion_bounds ::
  "db \<Rightarrow> uuid \<Rightarrow> uuid option \<Rightarrow> sibling_insertion \<Rightarrow> uuid option \<Rightarrow> core_error \<Rightarrow>
     core_error + (position option \<times> position option)" where
  "insertion_bounds d page parent insertion without invalid =
     (case insertion of
        AtEnd \<Rightarrow> Inr (sibling_neighbor d page parent None True without, None)
      | After u \<Rightarrow>
          (case find_anchor d page parent without u of
             None \<Rightarrow> Inl invalid
           | Some a \<Rightarrow> Inr (Some a, sibling_neighbor d page parent (Some a) False without))
      | Before u \<Rightarrow>
          (case find_anchor d page parent without u of
             None \<Rightarrow> Inl invalid
           | Some a \<Rightarrow> Inr (sibling_neighbor d page parent (Some a) True without, Some a)))"

definition insertion_index :: "sibling_insertion \<Rightarrow> position list \<Rightarrow> core_error + nat" where
  "insertion_index insertion xs =
     (let at = (\<lambda>u. case index_of u (map fst xs) of
                  None \<Rightarrow> Inl (Conflict ''placement anchor disappeared'') | Some i \<Rightarrow> Inr i)
      in case insertion of
        AtEnd \<Rightarrow> Inr (length xs)
      | Before u \<Rightarrow> at u
      | After u \<Rightarrow> attempt (at u) (\<lambda>i. Inr (i + 1)))"

text \<open>Every sibling gets the key of its place; a move is written where that changes its key.\<close>

definition rebalance_ordinal :: "nat \<Rightarrow> nat \<Rightarrow> nat \<Rightarrow> nat" where
  "rebalance_ordinal at count i = i + 1 + (if at \<le> i then count else 0)"

definition rebalance :: "uuid \<Rightarrow> uuid option \<Rightarrow> position list \<Rightarrow> nat \<Rightarrow> nat \<Rightarrow> op_kind list" where
  "rebalance page parent xs at count =
     List.map_filter (\<lambda>(i, u, key).
         let next = key_from_ordinal (of_nat (rebalance_ordinal at count i)) in
         if next \<noteq> key
         then Some (BlockMove \<lparr>bv_uuid = u, bv_page_uuid = page, bv_parent_uuid = parent, bv_order_key = next\<rparr>)
         else None)
       (enumerate 0 xs)"

definition sibling_placement ::
  "db \<Rightarrow> uuid \<Rightarrow> uuid option \<Rightarrow> sibling_insertion \<Rightarrow> uuid option \<Rightarrow> nat \<Rightarrow> core_error \<Rightarrow>
     core_error + (order_key list \<times> op_kind list)" where
  "sibling_placement d page parent insertion without count invalid =
     (if count = 0 then Inr ([], [])
      else
        attempt (insertion_bounds d page parent insertion without invalid) (\<lambda>(lower, upper).
        case allocate_sibling_keys (map_option snd lower) (map_option snd upper) count of
          Some allocated \<Rightarrow> Inr (allocated, [])
        | None \<Rightarrow>
            let xs = siblings d page parent without in
            attempt (insertion_index insertion xs) (\<lambda>at.
            Inr (map (\<lambda>offset. key_from_ordinal (of_nat (at + offset))) [1..<count + 1],
                 rebalance page parent xs at count))))"

definition append_root_placement :: "db \<Rightarrow> uuid \<Rightarrow> core_error + (order_key \<times> op_kind list)" where
  "append_root_placement d page =
     attempt (sibling_placement d page None AtEnd None 1 (InvalidInput ''invalid root append position'')) (\<lambda>(allocated, moves).
     Inr (hd allocated, moves))"

definition next_append_order_key :: "order_key option \<Rightarrow> core_error + order_key" where
  "next_append_order_key k =
     (case k of
        None \<Rightarrow> Inr first_key
      | Some previous \<Rightarrow>
          let next = key_after previous in
          guard (next \<noteq> previous) (Conflict ''sibling order-key space is exhausted'') (Inr next))"

end
