(* ===== verification/PlacementProps.thy ===== *)
theory PlacementProps
  imports Placement
begin

text \<open>
  The placement of siblings is right: the allocated keys, together with the moves that come with
  them, put the new siblings exactly where they were asked for and change no other order.
\<close>

section \<open>Ordered positions\<close>

definition ordered :: "position list \<Rightarrow> bool" where
  "ordered xs \<longleftrightarrow> sorted_wrt (\<lambda>p q. sort_position p < sort_position q) xs"

lemma ordered_append:
  "ordered (xs @ ys) \<longleftrightarrow> ordered xs \<and> ordered ys \<and> (\<forall>p \<in> set xs. \<forall>q \<in> set ys. sort_position p < sort_position q)"
  by (auto simp: ordered_def sorted_wrt_append)

lemma ordered_Cons: "ordered (p # xs) \<longleftrightarrow> (\<forall>q \<in> set xs. sort_position p < sort_position q) \<and> ordered xs"
  by (simp add: ordered_def)

lemma ordered_keys: "sorted_wrt (<) (map snd xs) \<Longrightarrow> ordered xs"
  by (auto simp: ordered_def sorted_wrt_map sort_position_def elim!: sorted_wrt_mono_rel [rotated])

lemma sort_position_less: "snd p < snd q \<Longrightarrow> sort_position p < sort_position q"
  by (simp add: sort_position_def)

lemma set_siblings:
  "p \<in> set (siblings d page parent without) \<longleftrightarrow>
     (\<exists>r. get (blocks d) (fst p) = Some r \<and> b_page r = page \<and> b_parent r = parent \<and> Some (fst p) \<noteq> without \<and> snd p = b_order r)"
  by (cases p) (auto simp: siblings_def set_rows image_iff)

lemma distinct_siblings: "distinct (map fst (siblings d page parent without))"
proof -
  let ?rows = "filter (\<lambda>(u, r). b_page r = page \<and> b_parent r = parent \<and> Some u \<noteq> without) (rows (blocks d))"
  have "distinct (map fst ?rows)" by (rule distinct_map_filter) (rule rows_distinct)
  then have "distinct (map fst (map (\<lambda>(u, r). (u, b_order r)) ?rows))"
    by (simp add: comp_def split_beta)
  then show ?thesis unfolding siblings_def distinct_map set_sort distinct_sort .
qed

lemma ordered_siblings: "ordered (siblings d page parent without)"
proof -
  let ?xs = "siblings d page parent without"
  have "sorted (map sort_position ?xs)" by (simp add: siblings_def)
  moreover have "distinct (map sort_position ?xs)"
    using distinct_siblings [of d page parent without]
    by (auto simp: distinct_map inj_on_def sort_position_def)
  ultimately have "sorted_wrt (<) (map sort_position ?xs)" by (simp add: strict_sorted_iff)
  then show ?thesis by (simp add: ordered_def sorted_wrt_map)
qed

section \<open>Neighbours\<close>

lemma split_ordered:
  assumes "ordered (ys @ a # zs)"
  shows "filter (\<lambda>p. sort_position p < sort_position a) (ys @ a # zs) = ys"
    and "filter (\<lambda>p. sort_position a < sort_position p) (ys @ a # zs) = zs"
  using assms by (auto simp: ordered_append ordered_Cons filter_empty_conv filter_id_conv intro: order.asym)

text \<open>The anchors of an insertion are the siblings on both sides of its index.\<close>

definition before_index :: "'a list \<Rightarrow> nat \<Rightarrow> 'a option" where
  "before_index xs i = (if i = 0 then None else Some (xs ! (i - 1)))"

definition at_index :: "'a list \<Rightarrow> nat \<Rightarrow> 'a option" where
  "at_index xs i = (if i < length xs then Some (xs ! i) else None)"

lemma index_of_append: "distinct (map fst (ys @ a # zs)) \<Longrightarrow> index_of (fst a) (map fst (ys @ a # zs)) = Some (length ys)"
  by (induction ys) auto

lemma find_anchor_sibling:
  "find_anchor d page parent without u = Some a \<longleftrightarrow> a \<in> set (siblings d page parent without) \<and> fst a = u"
  by (cases a) (auto simp: find_anchor_def set_siblings split: option.splits)

lemma find_anchor_None:
  "find_anchor d page parent without u = None \<longleftrightarrow> u \<notin> fst ` set (siblings d page parent without)"
  by (force simp: find_anchor_sibling simp flip: not_Some_eq)

lemma bounds_at_index:
  assumes "insertion_bounds d page parent insertion without invalid = Inr (lower, upper)"
  defines "xs \<equiv> siblings d page parent without"
  shows "\<exists>at \<le> length xs. insertion_index insertion xs = Inr at \<and> lower = before_index xs at \<and> upper = at_index xs at"
proof -
  have o: "ordered xs" and dist: "distinct (map fst xs)" by (simp_all add: xs_def ordered_siblings distinct_siblings)
  have neighbour: "sibling_neighbor d page parent (Some a) False without = first_of zs"
    "sibling_neighbor d page parent (Some a) True without = first_of (rev ys)" if "xs = ys @ a # zs" for ys a zs
    using split_ordered [of ys a zs] o that by (simp_all add: sibling_neighbor_def xs_def [symmetric])
  show ?thesis
  proof (cases insertion)
    case AtEnd
    with assms(1) have "lower = first_of (rev xs)" "upper = None"
      by (auto simp: insertion_bounds_def sibling_neighbor_def xs_def)
    moreover have "first_of (rev xs) = before_index xs (length xs)"
      by (cases xs rule: rev_cases) (auto simp: first_of_def before_index_def nth_append)
    ultimately show ?thesis using AtEnd by (auto simp: insertion_index_def at_index_def)
  next
    case (After u)
    then obtain a where a: "find_anchor d page parent without u = Some a"
      and b: "lower = Some a" "upper = sibling_neighbor d page parent (Some a) False without"
      using assms(1) by (auto simp: insertion_bounds_def split: option.splits)
    then have "a \<in> set xs" "fst a = u" by (simp_all add: find_anchor_sibling xs_def)
    then obtain ys zs where s: "xs = ys @ a # zs" by (auto dest: split_list)
    have "index_of u (map fst xs) = Some (length ys)" using index_of_append dist s \<open>fst a = u\<close> by metis
    moreover have "upper = at_index xs (Suc (length ys))"
      unfolding b(2) neighbour(1) [OF s] by (cases zs) (auto simp: s first_of_def at_index_def nth_append)
    ultimately show ?thesis using After b(1)
      by (intro exI [of _ "Suc (length ys)"]) (simp add: s insertion_index_def before_index_def)
  next
    case (Before u)
    then obtain a where a: "find_anchor d page parent without u = Some a"
      and b: "upper = Some a" "lower = sibling_neighbor d page parent (Some a) True without"
      using assms(1) by (auto simp: insertion_bounds_def split: option.splits)
    then have "a \<in> set xs" "fst a = u" by (simp_all add: find_anchor_sibling xs_def)
    then obtain ys zs where s: "xs = ys @ a # zs" by (auto dest: split_list)
    have "index_of u (map fst xs) = Some (length ys)" using index_of_append dist s \<open>fst a = u\<close> by metis
    moreover have "lower = before_index xs (length ys)"
      unfolding b(2) neighbour(2) [OF s] by (cases ys rule: rev_cases) (auto simp: s first_of_def before_index_def nth_append)
    ultimately show ?thesis using Before b(1)
      by (intro exI [of _ "length ys"]) (simp add: s insertion_index_def at_index_def)
  qed
qed

section \<open>Allocated keys\<close>

text \<open>Ordinals within 32 bits are far from saturating, so their keys ascend.\<close>

lemma ordinal_value: "i < 2 ^ 32 \<Longrightarrow> unat (key_value (key_from_ordinal (of_nat i))) = i * 2 ^ 32"
proof -
  assume i: "i < 2 ^ 32"
  then have u: "unat (of_nat i :: 64 word) = i" by (simp add: unat_of_nat take_bit_nat_eq_self)
  have s: "unat order_step = 2 ^ 32" by (simp add: order_step_def)
  from i have "i * 2 ^ 32 < (2 :: nat) ^ 64" by simp
  then show ?thesis
    by (simp add: key_from_ordinal_def saturating_mul64_def u s unat_word_ariths del: of_nat_mult)
qed

lemma ordinal_less: "i < j \<Longrightarrow> j < 2 ^ 32 \<Longrightarrow> key_from_ordinal (of_nat i) < key_from_ordinal (of_nat j)"
  by (simp add: key_less_iff word_less_nat_alt ordinal_value)

lemma ordinals_ascend: "n \<le> 2 ^ 32 \<Longrightarrow> sorted_wrt (<) (map (\<lambda>i. key_from_ordinal (of_nat i)) [m..<n])"
  unfolding sorted_wrt_map
  by (rule sorted_wrt_mono_rel [OF _ sorted_wrt_upt]) (auto intro: ordinal_less)

lemma key_after_progress: "key_after k \<noteq> k \<Longrightarrow> k < key_after k"
proof -
  assume a: "key_after k \<noteq> k"
  have "key_value k \<noteq> - 1"
  proof
    assume m: "key_value k = - 1"
    then have "key_after k = key_of_value (- 1)"
      by (simp add: key_after_def saturating_add64_def order_step_def unsigned_minus_1_eq_mask mask_eq_exp_minus_1)
    with m a show False by (metis key_of_value_value)
  qed
  then show ?thesis by (rule key_after_greater)
qed

lemma keys_after_ascend:
  "keys_after k n = Some ks \<Longrightarrow> length ks = n \<and> sorted_wrt (<) ks \<and> (\<forall>x \<in> set ks. k < x)"
proof (induction n arbitrary: k ks)
  case (Suc n)
  from Suc.prems obtain rest where "key_after k \<noteq> k" and rest: "keys_after (key_after k) n = Some rest"
    and ks: "ks = key_after k # rest" by (auto simp: Let_def split: if_splits)
  then have k: "k < key_after k" by (intro key_after_progress)
  note IH = Suc.IH [OF rest]
  have "k < x" if "x \<in> set rest" for x using IH that k by (meson order.strict_trans)
  with IH k show ?case by (simp add: ks)
qed simp

lemma allocate_ascend:
  assumes "allocate_sibling_keys lower upper count = Some ks" and "count < 2 ^ 32"
  shows "length ks = count \<and> sorted_wrt (<) ks \<and>
    (\<forall>k \<in> set ks. (\<forall>l. lower = Some l \<longrightarrow> l < k) \<and> (\<forall>u. upper = Some u \<longrightarrow> k < u))"
proof (cases "upper = None")
  case True
  show ?thesis
  proof (cases lower)
    case None
    with True assms have ks: "ks = map (\<lambda>i. key_from_ordinal (of_nat i)) [1..<count + 1]"
      by (auto simp: allocate_sibling_keys_def simp del: upt_Suc)
    have "sorted_wrt (<) ks" unfolding ks by (rule ordinals_ascend) (use assms(2) in simp)
    with True None show ?thesis by (simp add: ks del: upt_Suc)
  next
    case (Some l)
    with True assms(1) keys_after_ascend [of l count ks] show ?thesis by (auto simp: allocate_sibling_keys_def)
  qed
next
  case False
  with assms(1) keys_between_ascend [of lower upper count ks] show ?thesis by (simp add: allocate_sibling_keys_def)
qed

section \<open>The order after a placement\<close>

text \<open>What the moves of a placement do to a position.\<close>

definition rekey :: "op_kind list \<Rightarrow> position \<Rightarrow> position" where
  "rekey moves p =
     (case List.find (\<lambda>m. case m of BlockMove b \<Rightarrow> bv_uuid b = fst p | _ \<Rightarrow> False) moves of
        Some (BlockMove b) \<Rightarrow> (fst p, bv_order_key b)
      | _ \<Rightarrow> p)"

lemma rekey_Nil [simp]: "rekey [] = id"
  by (simp add: rekey_def fun_eq_iff)

lemma find_map_filter:
  "List.find P (List.map_filter f xs) = Option.bind (List.find (\<lambda>x. case f x of None \<Rightarrow> False | Some y \<Rightarrow> P y) xs) f"
  by (induction xs) (auto simp: map_filter_simps split: option.splits)

lemma find_enumerate:
  assumes "distinct (map fst xs)" "i < length xs"
  shows "List.find (\<lambda>(j, u, key). Q j u key \<and> u = fst (xs ! i)) (enumerate 0 xs) =
     (if Q i (fst (xs ! i)) (snd (xs ! i)) then Some (i, xs ! i) else None)"
proof -
  have only: "j = i" if "j < length xs" "fst (xs ! j) = fst (xs ! i)" for j
    using assms that nth_eq_iff_index_eq [of "map fst xs" j i] by simp
  show ?thesis
  proof (cases "Q i (fst (xs ! i)) (snd (xs ! i))")
    case True
    have "fst (xs ! j) \<noteq> fst (xs ! i)" if "j < i" for j using only [of j] that assms(2) by auto
    with True assms(2) show ?thesis
      by (auto simp: find_Some_iff nth_enumerate_eq split_beta intro!: exI [of _ i])
  next
    case False
    have "\<not> (Q j (fst (xs ! j)) (snd (xs ! j)) \<and> fst (xs ! j) = fst (xs ! i))" if "j < length xs" for j
      using only [OF that] False by auto
    then have "List.find (\<lambda>(j, u, key). Q j u key \<and> u = fst (xs ! i)) (enumerate 0 xs) = None"
      by (auto simp: find_None_iff in_set_enumerate_eq) (metis fst_conv snd_conv)
    with False show ?thesis by simp
  qed
qed

lemma rekey_rebalance:
  assumes "distinct (map fst xs)" "i < length xs"
  shows "rekey (rebalance page parent xs at count) (xs ! i) =
     (fst (xs ! i), key_from_ordinal (of_nat (rebalance_ordinal at count i)))"
proof -
  let ?next = "\<lambda>i. key_from_ordinal (of_nat (rebalance_ordinal at count i))"
  let ?f = "\<lambda>(i, u, key). if ?next i \<noteq> key
     then Some (BlockMove \<lparr>bv_uuid = u, bv_page_uuid = page, bv_parent_uuid = parent, bv_order_key = ?next i\<rparr>) else None"
  let ?P = "\<lambda>m. case m of BlockMove b \<Rightarrow> bv_uuid b = fst (xs ! i) | _ \<Rightarrow> False"
  have r: "rebalance page parent xs at count = List.map_filter ?f (enumerate 0 xs)"
    by (simp add: rebalance_def Let_def)
  have "(\<lambda>x. case ?f x of None \<Rightarrow> False | Some y \<Rightarrow> ?P y) = (\<lambda>(j, u, key). ?next j \<noteq> key \<and> u = fst (xs ! i))"
    by (auto simp: fun_eq_iff)
  with find_enumerate [OF assms, of "\<lambda>j u key. ?next j \<noteq> key"]
  have found: "List.find ?P (List.map_filter ?f (enumerate 0 xs)) =
      (if ?next i \<noteq> snd (xs ! i) then ?f (i, xs ! i) else None)"
    unfolding find_map_filter by simp
  show ?thesis
    unfolding rekey_def r found by (simp add: prod_eq_iff split_beta)
qed

lemma rebalanced_order:
  assumes "distinct (map fst xs)" and "at \<le> length xs" and "length xs + count < 2 ^ 32" and "length us = count"
    and "allocated = map (\<lambda>offset. key_from_ordinal (of_nat (at + offset))) [1..<count + 1]"
    and "moves = rebalance page parent xs at count"
  shows "ordered (map (rekey moves) (take at xs) @ zip us allocated @ map (rekey moves) (drop at xs))"
proof (rule ordered_keys)
  let ?key = "\<lambda>i. key_from_ordinal (of_nat i) :: order_key"
  have k: "snd (rekey moves (xs ! i)) = ?key (rebalance_ordinal at count i)" if "i < length xs" for i
    unfolding assms(6) rekey_rebalance [OF assms(1) that] by simp
  have "map snd (map (rekey moves) (take at xs)) = map ?key [1..<at + 1]"
    using assms(2) by (intro nth_equalityI) (auto simp: k rebalance_ordinal_def simp del: upt_Suc)
  moreover have "map snd (map (rekey moves) (drop at xs)) = map ?key [at + count + 1..<length xs + count + 1]"
    using assms(2) by (intro nth_equalityI) (auto simp: k rebalance_ordinal_def add.commute add.left_commute simp del: upt_Suc)
  moreover have "map snd (zip us allocated) = map ?key [at + 1..<at + count + 1]"
    using assms(4) by (intro nth_equalityI) (auto simp: assms(5) add.commute add.left_commute simp del: upt_Suc of_nat_add of_nat_Suc)
  ultimately have "map snd (map (rekey moves) (take at xs) @ zip us allocated @ map (rekey moves) (drop at xs)) =
      map ?key ([1..<at + 1] @ [at + 1..<at + count + 1] @ [at + count + 1..<length xs + count + 1])"
    by (simp del: upt_Suc)
  also have "[1..<at + 1] @ [at + 1..<at + count + 1] @ [at + count + 1..<length xs + count + 1] = [1..<length xs + count + 1]"
    using assms(2) upt_add_eq_append [of 1 "at + 1" count] upt_add_eq_append [of 1 "at + count + 1" "length xs - at"]
    by (simp del: upt_Suc add: add.commute add.left_commute)
  finally show "sorted_wrt (<) (map snd (map (rekey moves) (take at xs) @ zip us allocated @ map (rekey moves) (drop at xs)))"
    using assms(3) by (simp only:) (rule ordinals_ascend, simp)
qed

lemma before_greatest:
  assumes "p \<in> set (take at xs)" "at \<le> length xs" "ordered xs" "lower = before_index xs at"
  obtains l where "lower = Some l" "sort_position p \<le> sort_position l" "l \<in> set xs"
proof -
  from assms(1) obtain i where i: "i < at" "p = xs ! i" by (auto simp: in_set_conv_nth)
  have "sort_position p \<le> sort_position (xs ! (at - 1))"
  proof (cases "i = at - 1")
    case False
    then have "i < at - 1" "at - 1 < length xs" using i(1) assms(2) by simp_all
    with assms(3) have "sort_position (xs ! i) < sort_position (xs ! (at - 1))"
      unfolding ordered_def by (rule sorted_wrt_nth_less)
    then show ?thesis by (simp add: i(2))
  qed (simp add: i(2))
  moreover have "lower = Some (xs ! (at - 1))" "xs ! (at - 1) \<in> set xs"
    using assms(2,4) i(1) by (auto simp: before_index_def)
  ultimately show thesis using that by blast
qed

lemma at_least:
  assumes "p \<in> set (drop at xs)" "at \<le> length xs" "ordered xs" "upper = at_index xs at"
  obtains u where "upper = Some u" "sort_position u \<le> sort_position p"
proof -
  from assms(1) obtain i where "i < length (drop at xs)" "p = drop at xs ! i" by (auto simp: in_set_conv_nth)
  with assms(2) have i: "at + i < length xs" "p = xs ! (at + i)" by simp_all
  have "sort_position (xs ! at) \<le> sort_position p"
  proof (cases "i = 0")
    case False
    with i(1) assms(3) have "sort_position (xs ! at) < sort_position (xs ! (at + i))"
      unfolding ordered_def by (intro sorted_wrt_nth_less) auto
    then show ?thesis by (simp add: i(2))
  qed (simp add: i(2))
  moreover have "upper = Some (xs ! at)" using i(1) by (simp add: assms(4) at_index_def)
  ultimately show thesis using that by blast
qed

text \<open>
  C8. A placement puts the new siblings exactly where they were asked for. For at most \<open>2 ^ 32\<close>
  siblings, the order of the siblings after it (their keys changed by the moves that come with the
  placement, ties broken by identifier as the queries do) is the old order with the new ones in one
  piece at the insertion's index: before or after the anchor, or at the end.
\<close>

theorem placement_lands_at_the_anchor:
  assumes "sibling_placement d page parent insertion without count invalid = Inr (allocated, moves)"
    and "0 < count" and "length (siblings d page parent without) + count < 2 ^ 32" and "length us = count"
  shows "\<exists>at. insertion_index insertion (siblings d page parent without) = Inr at \<and>
     length allocated = count \<and> sorted_wrt (<) allocated \<and>
     ordered (map (rekey moves) (take at (siblings d page parent without)) @ zip us allocated @
              map (rekey moves) (drop at (siblings d page parent without)))"
proof -
  let ?xs = "siblings d page parent without"
  have o: "ordered ?xs" and dist: "distinct (map fst ?xs)" by (simp_all add: ordered_siblings distinct_siblings)
  from assms(1,2) obtain lower upper where b: "insertion_bounds d page parent insertion without invalid = Inr (lower, upper)"
    and run: "(case allocate_sibling_keys (map_option snd lower) (map_option snd upper) count of
          Some allocated \<Rightarrow> Inr (allocated, [])
        | None \<Rightarrow> attempt (insertion_index insertion ?xs) (\<lambda>at.
            Inr (map (\<lambda>offset. key_from_ordinal (of_nat (at + offset))) [1..<count + 1],
                 rebalance page parent ?xs at count))) = Inr (allocated, moves)"
    unfolding sibling_placement_def Let_def
    by (cases "insertion_bounds d page parent insertion without invalid") (auto simp del: upt_Suc)
  from bounds_at_index [OF b] obtain at where at: "at \<le> length ?xs" "insertion_index insertion ?xs = Inr at"
    and lu: "lower = before_index ?xs at" "upper = at_index ?xs at" by blast
  show ?thesis
  proof (cases "allocate_sibling_keys (map_option snd lower) (map_option snd upper) count")
    case None
    with run at(2) have a: "allocated = map (\<lambda>offset. key_from_ordinal (of_nat (at + offset))) [1..<count + 1]"
      and m: "moves = rebalance page parent ?xs at count" by (simp_all del: upt_Suc)
    have "sorted_wrt (<) allocated"
      unfolding a sorted_wrt_map
      by (rule sorted_wrt_mono_rel [OF _ sorted_wrt_upt]) (use assms(3) at(1) in \<open>auto intro!: ordinal_less simp del: of_nat_add\<close>)
    then show ?thesis using at(2) rebalanced_order [OF dist at(1) assms(3,4) a m] by (auto simp: a simp del: upt_Suc)
  next
    case (Some ks)
    with run have m: "moves = []" and a: "allocated = ks" by auto
    have ks: "length ks = count" "sorted_wrt (<) ks"
      "\<And>k l. k \<in> set ks \<Longrightarrow> map_option snd lower = Some l \<Longrightarrow> l < k"
      "\<And>k u. k \<in> set ks \<Longrightarrow> map_option snd upper = Some u \<Longrightarrow> k < u"
      using allocate_ascend [OF Some] assms(3) by auto
    let ?new = "zip us ks"
    have n: "ordered ?new" using ks(1,2) assms(4) by (intro ordered_keys) simp
    have split: "ordered (take at ?xs)" "ordered (drop at ?xs)"
        "\<forall>p \<in> set (take at ?xs). \<forall>q \<in> set (drop at ?xs). sort_position p < sort_position q"
      using o ordered_append [of "take at ?xs" "drop at ?xs"] by simp_all
    have left: "sort_position p < sort_position q" if "p \<in> set (take at ?xs)" "q \<in> set ?new" for p q
    proof -
      from that(1) at(1) obtain l where l: "lower = Some l" "sort_position p \<le> sort_position l" "l \<in> set ?xs"
        using o lu(1) by (rule before_greatest)
      have "snd q \<in> set ks" using that(2) by (metis set_zip_rightD prod.collapse)
      with ks(3) l(1) have "snd l < snd q" by simp
      then have "sort_position l < sort_position q" by (rule sort_position_less)
      with l(2) show ?thesis by (rule order.strict_trans1)
    qed
    have right: "sort_position q < sort_position p" if "p \<in> set (drop at ?xs)" "q \<in> set ?new" for p q
    proof -
      from that(1) at(1) obtain u where u: "upper = Some u" "sort_position u \<le> sort_position p"
        using o lu(2) by (rule at_least)
      have "snd q \<in> set ks" using that(2) by (metis set_zip_rightD prod.collapse)
      with ks(4) u(1) have "snd q < snd u" by simp
      then have "sort_position q < sort_position u" by (rule sort_position_less)
      then show ?thesis using u(2) by (rule order.strict_trans2)
    qed
    have "ordered (take at ?xs @ ?new @ drop at ?xs)"
      unfolding ordered_append set_append using split n left right by blast
    then show ?thesis using at(2) ks(1,2) by (simp add: m a)
  qed
qed

text \<open>Two siblings with neighbouring keys: a place between them needs a rebalance.\<close>

definition tight_row :: "64 word \<Rightarrow> block_row" where
  "tight_row k = sample_block\<lparr>b_page := 9, b_parent := None, b_order := key_of_value k\<rparr>"

definition tight_db :: db where
  "tight_db = (empty_db 7)\<lparr>blocks := put 31 (tight_row 10) (put 32 (tight_row 11) tempty)\<rparr>"

lemma tight_siblings: "siblings tight_db 9 None None = [(31, key_of_value 10), (32, key_of_value 11)]"
proof -
  have "key_of_value 10 < key_of_value 11" by (simp add: key_less_iff)
  then show ?thesis
    by (simp add: siblings_def tight_db_def tight_row_def empty_db_def sort_position_def put.rep_eq)
qed

lemma tight_placement:
  "\<exists>allocated moves. sibling_placement tight_db 9 None (After 31) None 1 Database = Inr (allocated, moves) \<and> moves \<noteq> []"
proof -
  have a: "find_anchor tight_db 9 None None 31 = Some (31, key_of_value 10)"
    by (simp add: find_anchor_sibling tight_siblings)
  have less: "key_of_value 10 < key_of_value 11" by (simp add: key_less_iff)
  have n: "sibling_neighbor tight_db 9 None (Some (31, key_of_value 10)) False None = Some (32, key_of_value 11)"
    using less by (simp add: sibling_neighbor_def tight_siblings sort_position_def first_of_def)
  have "keys_between (Some (key_of_value 10)) (Some (key_of_value 11)) 1 = None"
    by (simp add: keys_between_None_iff lower_bound_def upper_bound_def)
  with a n have "sibling_placement tight_db 9 None (After 31) None 1 Database =
      Inr ([key_from_ordinal 2], rebalance 9 None [(31, key_of_value 10), (32, key_of_value 11)] 1 1)"
    by (simp add: sibling_placement_def insertion_bounds_def allocate_sibling_keys_def tight_siblings insertion_index_def Let_def)
  moreover have "key_from_ordinal 1 \<noteq> key_of_value 10"
    using ordinal_value [of 1] by (auto dest: arg_cong [of _ _ "\<lambda>k. unat (key_value k)"])
  then have "rebalance 9 None [(31, key_of_value 10), (32, key_of_value 11)] 1 1 \<noteq> []"
    by (simp add: rebalance_def rebalance_ordinal_def map_filter_simps)
  ultimately show ?thesis by blast
qed

theorem placement_lands_at_the_anchor_witness:
  "\<exists>allocated moves. sibling_placement tight_db 9 None (After 31) None 1 Database = Inr (allocated, moves) \<and>
     moves \<noteq> [] \<and>
     ordered ([rekey moves (31, key_of_value 10)] @ zip [40] allocated @ [rekey moves (32, key_of_value 11)])"
proof -
  obtain allocated moves where p: "sibling_placement tight_db 9 None (After 31) None 1 Database = Inr (allocated, moves)" "moves \<noteq> []"
    using tight_placement by blast
  from placement_lands_at_the_anchor [OF p(1), of "[40]"] p show ?thesis
    by (auto simp: tight_siblings insertion_index_def)
qed

text \<open>
  A placement is refused only for an anchor that is not among the siblings, and then with the
  error that the command chose; an exhausted key space never refuses one.
\<close>

theorem placement_refuses_only_foreign_anchors:
  assumes "0 < count"
  shows "sibling_placement d page parent insertion without count invalid = Inl e \<longleftrightarrow>
     e = invalid \<and> (\<exists>u. insertion \<in> {Before u, After u} \<and> u \<notin> fst ` set (siblings d page parent without))"
proof (cases "insertion_bounds d page parent insertion without invalid")
  case (Inl e')
  then have "e' = invalid" "\<exists>u. insertion \<in> {Before u, After u} \<and> u \<notin> fst ` set (siblings d page parent without)"
    by (auto simp: insertion_bounds_def find_anchor_None split: sibling_insertion.splits option.splits)
  with Inl assms show ?thesis by (auto simp: sibling_placement_def)
next
  case (Inr b)
  obtain lower upper where b: "b = (lower, upper)" by force
  from bounds_at_index [OF Inr [unfolded b]] have
    "\<exists>at. insertion_index insertion (siblings d page parent without) = Inr at" by blast
  then have "\<exists>r. sibling_placement d page parent insertion without count invalid = Inr r"
    using Inr assms unfolding sibling_placement_def b Let_def
    by (cases "allocate_sibling_keys (map_option snd lower) (map_option snd upper) count") auto
  moreover have "u \<in> fst ` set (siblings d page parent without)" if "insertion \<in> {Before u, After u}" for u
    using Inr that find_anchor_None [of d page parent without u]
    by (auto simp: insertion_bounds_def split: option.splits)
  ultimately show ?thesis by auto
qed

theorem placement_refuses_only_foreign_anchors_witness:
  "sibling_placement tight_db 9 None (After 33) None 1 Database = Inl Database"
  using placement_refuses_only_foreign_anchors [of 1 tight_db 9 None "After 33" None Database Database]
  by (simp add: tight_siblings)

end
