(* ===== verification/Retention.thy ===== *)
theory Retention
  imports Replica
begin

text \<open>
  The retention of drawings by the local history (\<open>crates/notes-core/src/ink/history_retention.rs\<close>):
  what an action that deletes a handwritten page keeps of it, and how the page comes back. Reading a
  stored root (its digest, the objects it names) is the \<open>ink-format\<close> decoder over the bytes of
  the records, which the tables of this model do not hold: the record \<open>ink_reader\<close>.
\<close>

record ink_reader =
  validate_root :: "ink_tables \<Rightarrow> ink_id \<Rightarrow> core_error + blob_hash"
  root_objects :: "ink_tables \<Rightarrow> ink_id \<Rightarrow> core_error + (ink_id list \<times> ink_id list)"  \<comment> \<open>records, chunks\<close>

section \<open>The state of a drawing\<close>

record semantic_state =
  sm_revision :: "string option"
  sm_cursor :: int
  sm_dirty :: bool
  sm_heads :: "(uuid \<times> blob_hash) list"

definition semantic_state_of :: "ink_tables \<Rightarrow> uuid \<Rightarrow> core_error + semantic_state" where
  "semantic_state_of t page =
     (let (revision, cursor, dirty) =
        (case get (ink_documents t) page of
           None \<Rightarrow> (None, 0, False) | Some r \<Rightarrow> (d_revision r, d_cursor r, d_dirty r))
      in attempt (map_res (\<lambda>v. case get_version t v of
                             None \<Rightarrow> Inl (NotFound ''Missing ink head'')
                           | Some x \<Rightarrow> Inr (v, root_hash (ve_publication x))) (head_ids t page)) (\<lambda>heads.
         Inr \<lparr>sm_revision = revision, sm_cursor = cursor, sm_dirty = dirty, sm_heads = heads\<rparr>))"

definition is_ink_page :: "db \<Rightarrow> uuid \<Rightarrow> bool" where
  "is_ink_page d page \<longleftrightarrow> page_identity d page = Some Handwriting"

definition is_untouched_empty :: "ink_tables \<Rightarrow> uuid \<Rightarrow> core_error + bool" where
  "is_untouched_empty t page =
     attempt (semantic_state_of t page) (\<lambda>s.
     Inr (sm_revision s = None \<and> sm_cursor s = 0 \<and> \<not> sm_dirty s \<and> sm_heads s = []))"

section \<open>Retained pages\<close>

record variant =
  vr_root :: ink_id
  vr_hash :: blob_hash
  vr_device_name :: string

record retained_page =
  rp_version :: nat
  rp_page :: uuid
  rp_working_root :: "ink_id option"
  rp_cursor :: int
  rp_history :: "(int \<times> ink_id) list"
  rp_previous_heads :: "uuid list"
  rp_variants :: "variant list"

text \<open>A row of \<open>history_ink_snapshots\<close>: the text, and whether the stored digest is its digest.\<close>

record retained_row =
  rr_retained :: retained_page
  rr_intact :: bool

type_synonym retained_rows = "(uuid \<times> uuid, retained_row) table"

definition has_retention :: "retained_rows \<Rightarrow> uuid \<Rightarrow> uuid \<Rightarrow> bool" where
  "has_retention rows_of action page \<longleftrightarrow> has rows_of (action, page)"

definition cursor_in_history :: "retained_page \<Rightarrow> bool" where
  "cursor_in_history p \<longleftrightarrow> list_ex (\<lambda>(seq, root). seq = rp_cursor p \<and> Some root = rp_working_root p) (rp_history p)"

definition validate_metadata :: "(nat \<Rightarrow> uuid) \<Rightarrow> retained_page \<Rightarrow> core_error + unit" where
  "validate_metadata fresh p =
     guard (\<not> (rp_version p \<noteq> 1 \<or> rp_page p = 0 \<or> rp_cursor p < 0 \<or>
               128 < length (rp_previous_heads p) \<or> list_ex (\<lambda>v. v = 0) (rp_previous_heads p) \<or>
               length (remdups (rp_previous_heads p)) \<noteq> length (rp_previous_heads p) \<or>
               list_ex (\<lambda>(seq, _). seq < 0) (rp_history p) \<or>
               \<not> sorted_wrt (<) (map fst (rp_history p)) \<or>
               (rp_history p \<noteq> [] \<and> \<not> cursor_in_history p) \<or>
               (rp_working_root p = None \<and> rp_history p \<noteq> []) \<or>
               length (remdups (map vr_hash (rp_variants p))) \<noteq> length (rp_variants p)))
       (InvalidInput ''Invalid drawing recovery metadata or history cursor'')
     (fold_res (\<lambda>(i, v) _. publish_validate
          \<lparr>version_uuid = fresh i, page_uuid = rp_page p, parents = rp_previous_heads p,
           root_hash = vr_hash v, device_name = vr_device_name v\<rparr>)
        (enumerate 0 (rp_variants p)) ())"

definition retained_roots :: "retained_page \<Rightarrow> ink_id list" where
  "retained_roots p =
     remdups (sort ((case rp_working_root p of None \<Rightarrow> [] | Some r \<Rightarrow> [r]) @ map snd (rp_history p) @
                    map vr_root (rp_variants p)))"

section \<open>Capturing\<close>

text \<open>A graph installed after its publication fulfils the outbox owners that wait for it.\<close>

definition chunks_of_root :: "ink_tables \<Rightarrow> ink_id \<Rightarrow> ink_id list" where
  "chunks_of_root t root = map snd (filter (\<lambda>(r, _). r = root) (keys (ink_chunk_refs t)))"

definition seal_chunks :: "ink_id \<Rightarrow> ink_tables \<Rightarrow> ink_tables" where
  "seal_chunks root t = t\<lparr>ink_sealed := fold (\<lambda>c. put_new c ()) (chunks_of_root t root) (ink_sealed t)\<rparr>"

definition attach_root :: "ink_id \<Rightarrow> ink_tables \<Rightarrow> ink_tables" where
  "attach_root root t =
     (let waits = (\<lambda>(h, r). get (ink_records t) root = Some h \<and> r = None);
          filled = list_ex (\<lambda>(_, held). waits held) (rows (ink_outbox_roots t));
          t' = t\<lparr>ink_outbox_roots := mapv (\<lambda>_ held. if waits held then (fst held, Some root) else held) (ink_outbox_roots t)\<rparr>
      in if filled then seal_chunks root t' else t')"

definition index_root :: "ink_id \<Rightarrow> ink_id list \<Rightarrow> ink_id list \<Rightarrow> ink_tables \<Rightarrow> ink_tables" where
  "index_root root record_ids chunk_ids t =
     attach_root root
       (t\<lparr>ink_record_refs := fold (\<lambda>i. put_new (root, i) ()) record_ids (ink_record_refs t),
          ink_chunk_refs := fold (\<lambda>i. put_new (root, i) ()) chunk_ids (ink_chunk_refs t)\<rparr>)"

definition swap_first :: "nat \<Rightarrow> 'a list \<Rightarrow> 'a list" where
  "swap_first i xs = xs[0 := xs ! i, i := xs ! 0]"

definition working_variant :: "ink_reader \<Rightarrow> ink_tables \<Rightarrow> ink_id option \<Rightarrow> bool \<Rightarrow> core_error + variant list" where
  "working_variant rd t working keep =
     (case working of
        Some root \<Rightarrow>
          if keep then attempt (validate_root rd t root) (\<lambda>hash.
            Inr [\<lparr>vr_root = root, vr_hash = hash, vr_device_name = ''Recovered working copy''\<rparr>])
          else Inr []
      | None \<Rightarrow> Inr [])"

definition head_variant ::
  "ink_reader \<Rightarrow> ink_tables \<Rightarrow> bool \<Rightarrow> uuid option \<Rightarrow> uuid \<Rightarrow> variant list \<Rightarrow> core_error + variant list" where
  "head_variant rd t dirty base head variants =
     (if dirty \<and> base = Some head then Inr variants
      else case get_version t head of
        None \<Rightarrow> Inl (NotFound ''Missing ink version'')
      | Some v \<Rightarrow>
          let hash = root_hash (ve_publication v) in
          if hash \<in> vr_hash ` set variants then Inr variants
          else case Option.bind (get (ink_versions t) head) v_root of
            None \<Rightarrow> Inl (NotFound ''Download all handwriting versions before deleting the page'')
          | Some root \<Rightarrow>
              attempt (validate_root rd t root) (\<lambda>h.
              guard (h = hash) (InvalidInput ''Retained handwriting version hash mismatch'')
                (Inr (variants @ [\<lparr>vr_root = root, vr_hash = hash, vr_device_name = device_name (ve_publication v)\<rparr>]))))"

definition working_first :: "ink_reader \<Rightarrow> ink_tables \<Rightarrow> ink_id option \<Rightarrow> variant list \<Rightarrow> core_error + variant list" where
  "working_first rd t working variants =
     (case working of
        None \<Rightarrow> Inr variants
      | Some root \<Rightarrow>
          attempt (validate_root rd t root) (\<lambda>hash.
          Inr (case index_of hash (map vr_hash variants) of None \<Rightarrow> variants | Some i \<Rightarrow> swap_first i variants)))"

definition retain_page :: "ink_reader \<Rightarrow> ink_tables \<Rightarrow> uuid \<Rightarrow> core_error + retained_page" where
  "retain_page rd t page =
     (let doc = get (ink_documents t) page;
          working = Option.bind doc d_root;
          dirty = (case doc of None \<Rightarrow> False | Some r \<Rightarrow> d_dirty r);
          base = Option.bind doc d_base;
          heads = head_ids t page
      in attempt (working_variant rd t working (dirty \<or> heads = [])) (\<lambda>variants.
         attempt (fold_res (head_variant rd t dirty base) heads variants) (\<lambda>variants.
         attempt (working_first rd t working variants) (\<lambda>variants.
         Inr \<lparr>rp_version = 1, rp_page = page, rp_working_root = working,
              rp_cursor = (case doc of None \<Rightarrow> 0 | Some r \<Rightarrow> d_cursor r),
              rp_history = List.map_filter (\<lambda>((p, seq), root). if p = page then Some (seq, root) else None) (rows (ink_history t)),
              rp_previous_heads = heads, rp_variants = variants\<rparr>))))"

definition pin_root :: "ink_reader \<Rightarrow> uuid \<Rightarrow> uuid \<Rightarrow> ink_id \<Rightarrow> ink_tables \<Rightarrow> core_error + ink_tables" where
  "pin_root rd action page root t =
     attempt (validate_root rd t root) (\<lambda>_.
     attempt (root_objects rd t root) (\<lambda>(record_ids, chunk_ids).
     let t = index_root root record_ids chunk_ids t in
     guard (has (ink_records t) root) Database
       (Inr (t\<lparr>history_ink_roots := put ((action, page), root) () (history_ink_roots t)\<rparr>))))"

definition capture ::
  "ink_reader \<Rightarrow> (nat \<Rightarrow> uuid) \<Rightarrow> uuid \<Rightarrow> uuid \<Rightarrow> retained_rows \<times> ink_tables \<Rightarrow> core_error + (retained_rows \<times> ink_tables)" where
  "capture rd fresh action page st =
     (case st of (retained, t) \<Rightarrow>
        attempt (retain_page rd t page) (\<lambda>p.
        attempt (validate_metadata fresh p) (\<lambda>_.
        guard (\<not> has retained (action, page)) Database
        (attempt (fold_res (pin_root rd action page) (retained_roots p) t) (\<lambda>t.
         Inr (put (action, page) \<lparr>rr_retained = p, rr_intact = True\<rparr> retained, t))))))"

section \<open>Restoring\<close>

text \<open>The pages with the version that each follows, and the publications of their variants.\<close>

record restore =
  rs_pages :: "(retained_page \<times> uuid option) list"
  rs_operations :: "op_kind list"

definition pinned_roots :: "ink_tables \<Rightarrow> uuid \<Rightarrow> uuid \<Rightarrow> ink_id list" where
  "pinned_roots t action page = map snd (filter (\<lambda>(owner, _). owner = (action, page)) (keys (history_ink_roots t)))"

definition restage_variant ::
  "ink_reader \<Rightarrow> (nat \<Rightarrow> uuid) \<Rightarrow> retained_page \<Rightarrow> nat \<times> variant \<Rightarrow> op_kind list \<times> ink_tables \<Rightarrow>
     core_error + (op_kind list \<times> ink_tables)" where
  "restage_variant rd fresh p entry acc =
     (case entry of (i, v) \<Rightarrow> case acc of (operations, t) \<Rightarrow>
        attempt (validate_root rd t (vr_root v)) (\<lambda>hash.
        guard (hash = vr_hash v) (InvalidInput ''Drawing recovery root hash mismatch'')
          (Inr (operations @ [InkPublish \<lparr>version_uuid = fresh i, page_uuid = rp_page p,
                  parents = rp_previous_heads p, root_hash = vr_hash v, device_name = vr_device_name v\<rparr>],
                seal_chunks (vr_root v) (t\<lparr>ink_staged := put (vr_hash v) (vr_root v) (ink_staged t)\<rparr>)))))"

definition prepare_restore_page ::
  "ink_reader \<Rightarrow> (uuid \<Rightarrow> nat \<Rightarrow> uuid) \<Rightarrow> retained_rows \<Rightarrow> uuid \<Rightarrow> uuid \<Rightarrow> restore \<times> ink_tables \<Rightarrow>
     core_error + (restore \<times> ink_tables)" where
  "prepare_restore_page rd fresh retained action page acc =
     (case acc of (result, t) \<Rightarrow>
        (case get retained (action, page) of
           None \<Rightarrow> Inl (NotFound ''Drawing recovery data is missing; restore a backup'')
         | Some r \<Rightarrow>
             let p = rr_retained r in
             guard (rr_intact r) (InvalidInput ''Drawing recovery metadata is corrupt'')
             (attempt (validate_metadata (fresh page) p) (\<lambda>_.
              guard (rp_page p = page) (InvalidInput ''Unsupported drawing recovery metadata'')
              (guard (set (pinned_roots t action page) = set (retained_roots p) \<and>
                      (rp_history p = [] \<or> cursor_in_history p))
                (InvalidInput ''Drawing recovery root pins or history cursor are corrupt'')
              (attempt (fold_res (\<lambda>root _. attempt (validate_root rd t root) (\<lambda>_. Inr ())) (pinned_roots t action page) ()) (\<lambda>_.
               attempt (case rp_working_root p of None \<Rightarrow> Inr () | Some root \<Rightarrow> attempt (validate_root rd t root) (\<lambda>_. Inr ())) (\<lambda>_.
               attempt (fold_res (restage_variant rd (fresh page) p) (enumerate 0 (rp_variants p)) (rs_operations result, t)) (\<lambda>(operations, t).
               Inr (\<lparr>rs_pages = rs_pages result @ [(p, if rp_variants p = [] then None else Some (fresh page 0))],
                     rs_operations = operations\<rparr>, t))))))))))"

definition prepare_restore ::
  "ink_reader \<Rightarrow> (uuid \<Rightarrow> nat \<Rightarrow> uuid) \<Rightarrow> retained_rows \<Rightarrow> uuid \<Rightarrow> uuid list \<Rightarrow> ink_tables \<Rightarrow>
     core_error + (restore \<times> ink_tables)" where
  "prepare_restore rd fresh retained action restore_pages t =
     fold_res (prepare_restore_page rd fresh retained action) restore_pages
       (\<lparr>rs_pages = [], rs_operations = []\<rparr>, t)"

text \<open>\<open>revisions\<close> are the identifiers drawn for the restored working copies.\<close>

definition restore_page :: "(uuid \<Rightarrow> string) \<Rightarrow> retained_page \<times> uuid option \<Rightarrow> ink_tables \<Rightarrow> ink_tables" where
  "restore_page revisions entry t =
     (case entry of (p, publication) \<Rightarrow>
        t\<lparr>ink_history := fold (\<lambda>(seq, root). put (rp_page p, seq) root) (rp_history p)
            (filt (\<lambda>(q, _) _. q \<noteq> rp_page p) (ink_history t)),
          ink_documents := put (rp_page p)
            \<lparr>d_root = rp_working_root p,
             d_revision = (case rp_working_root p of None \<Rightarrow> None | Some _ \<Rightarrow> Some (revisions (rp_page p))),
             d_cursor = rp_cursor p, d_dirty = False, d_editing = False, d_publication_requested = False,
             d_base = publication\<rparr> (ink_documents t)\<rparr>)"

definition restore_native :: "(uuid \<Rightarrow> string) \<Rightarrow> restore \<Rightarrow> ink_tables \<Rightarrow> ink_tables" where
  "restore_native revisions plan t = fold (restore_page revisions) (rs_pages plan) t"

text \<open>Retentions of actions that are on neither stack go, with their pins.\<close>

definition cleanup :: "uuid list \<Rightarrow> retained_rows \<times> ink_tables \<Rightarrow> retained_rows \<times> ink_tables" where
  "cleanup actions st =
     (case st of (retained, t) \<Rightarrow>
        if list_ex (\<lambda>(action, _). action \<notin> set actions) (keys retained)
        then (filt (\<lambda>(action, _) _. action \<in> set actions) retained,
              collect_ink (t\<lparr>history_ink_roots :=
                filt (\<lambda>((action, page), _) _. action \<in> set actions \<or> \<not> has retained (action, page)) (history_ink_roots t)\<rparr>))
        else (retained, t))"

end
