(* ===== verification/Undo.thy ===== *)
theory Undo
  imports Retention
begin

text \<open>
  The local undo and redo history (\<open>crates/note_store-core/src/db/history.rs\<close>): what an action records
  about its inverse, the guards that decide whether a step may still be taken, and the
  movement of an entry between the two stacks.
\<close>

section \<open>Entries\<close>

datatype history_field =
    PageExistence uuid
  | PageTitle uuid
  | PageLayoutField uuid
  | PageAliasField uuid string
  | BlockExistence uuid
  | BlockMarkdown uuid
  | BlockStyleField uuid
  | BlockStructure uuid
  | AttachmentField attachment_owner blob_hash

record history_guard =
  hg_field :: history_field
  hg_expected :: "hlc option"

datatype scope_guard =
    InkState uuid semantic_state
  | PageBlocks uuid "uuid list"
  | BlockDescendants uuid "uuid list"

record history_payload =
  hp_format :: nat
  hp_operations :: "op_kind list"
  hp_policy :: "projection_policy option"
  hp_guards :: "history_guard list"
  hp_scopes :: "scope_guard list"
  hp_ink_pages :: "uuid list"

definition history_payload_version :: nat where
  "history_payload_version = 2"

definition ink_history_payload_version :: nat where
  "ink_history_payload_version = 3"

text \<open>The untagged JSON of a column: a guarded payload, or the plain operations of old releases.\<close>

datatype stored_payload = Guarded history_payload | Legacy "op_kind list"

record history_row =
  hr_action_uuid :: uuid
  hr_action :: string
  hr_forward :: "stored_payload persisted_envelope"
  hr_inverse :: "stored_payload persisted_envelope"

datatype history_move_result = Applied | Empty | Skipped

definition resolve_projection_policy :: "string \<Rightarrow> history_payload \<Rightarrow> projection_policy" where
  "resolve_projection_policy action p =
     (case hp_policy p of Some policy \<Rightarrow> policy | None \<Rightarrow> if action = ''split block'' then Deferred else Immediate)"

definition encode_history_payload :: "history_payload \<Rightarrow> stored_payload persisted_envelope" where
  "encode_history_payload p = encode_persisted_envelope (Guarded p)"

definition has_ink_scope :: "scope_guard list \<Rightarrow> bool" where
  "has_ink_scope scopes \<longleftrightarrow> list_ex (\<lambda>g. case g of InkState _ _ \<Rightarrow> True | _ \<Rightarrow> False) scopes"

definition decode_history_payload :: "stored_payload persisted_envelope \<Rightarrow> core_error + history_payload" where
  "decode_history_payload e =
     (case decode_persisted_envelope e of
        Inl _ \<Rightarrow> Inl Database
      | Inr (Guarded p) \<Rightarrow>
          guard (hp_format p \<in> {history_payload_version, ink_history_payload_version} \<and>
                 (hp_format p = ink_history_payload_version \<or>
                  (hp_ink_pages p = [] \<and> \<not> has_ink_scope (hp_scopes p)))) Database (Inr p)
      | Inr (Legacy ops) \<Rightarrow>
          Inr \<lparr>hp_format = history_payload_version, hp_operations = ops, hp_policy = None, hp_guards = [],
               hp_scopes = [], hp_ink_pages = []\<rparr>)"

section \<open>Inverses\<close>

definition capture_page :: "db \<Rightarrow> uuid \<Rightarrow> core_error + page_create option" where
  "capture_page d u =
     (case get (pages d) u of
        None \<Rightarrow> Inr None
      | Some r \<Rightarrow>
          (case page_identity d u of
             None \<Rightarrow> Inl Database
           | Some kind \<Rightarrow> Inr (Some \<lparr>pc_uuid = u, pc_kind = kind, pc_title = p_title r, pc_layout = p_layout r,
                                pc_created_at = p_created r\<rparr>)))"

definition capture_block :: "db \<Rightarrow> uuid \<Rightarrow> block_create option" where
  "capture_block d u =
     map_option (\<lambda>r. \<lparr>bc_uuid = u, bc_page_uuid = b_page r, bc_parent_uuid = b_parent r, bc_order_key = b_order r,
                      bc_style = b_style r, bc_markdown = b_markdown r, bc_created_at = b_created r\<rparr>)
       (get (blocks d) u)"

text \<open>A present intent has its three columns; the size is read as a \<open>u64\<close>.\<close>

definition attachment_intent :: "db \<Rightarrow> attachment_owner \<Rightarrow> blob_hash \<Rightarrow> core_error + attachment_add option" where
  "attachment_intent d owner hash =
     (case get (attachment_lww d) (owner, hash) of
        None \<Rightarrow> Inr None
      | Some w \<Rightarrow>
          if \<not> w_present w then Inr None
          else (case (w_filename w, w_mime w, w_size w) of
            (Some filename, Some mime, Some bytes) \<Rightarrow>
              guard (0 \<le> bytes) Database
                (Inr (Some \<lparr>aa_owner = owner, aa_blob_hash = hash, aa_filename = filename, aa_mime = mime,
                            aa_size = of_int bytes\<rparr>))
          | _ \<Rightarrow> Inl Database))"

definition if_present :: "('a \<Rightarrow> 'b) \<Rightarrow> 'a option \<Rightarrow> 'e + 'b list" where
  "if_present f v = Inr (case v of None \<Rightarrow> [] | Some x \<Rightarrow> [f x])"

fun capture_inverse :: "db \<Rightarrow> op_kind \<Rightarrow> core_error + op_kind list" where
  "capture_inverse d (InkPublish _) = Inl Database"
| "capture_inverse d (PageCreate p) = Inr [PageDelete \<lparr>pd_uuid = pc_uuid p\<rparr>]"
| "capture_inverse d (PageAliasSet p) =
     Inr [PageAliasSet (p\<lparr>pa_present :=
       (case get (aliases d) (pa_uuid p, pa_alias p) of None \<Rightarrow> False | Some r \<Rightarrow> al_present r)\<rparr>)]"
| "capture_inverse d (PageSetTitle p) =
     if_present (\<lambda>r. PageSetTitle \<lparr>pt_uuid = pt_uuid p, pt_title = p_title r\<rparr>) (get (pages d) (pt_uuid p))"
| "capture_inverse d (PageSetLayout p) =
     if_present (\<lambda>r. PageSetLayout \<lparr>pl_uuid = pl_uuid p, pl_layout = p_layout r\<rparr>) (get (pages d) (pl_uuid p))"
| "capture_inverse d (PageDelete p) =
     attempt (capture_page d (pd_uuid p)) (\<lambda>page. if_present PageCreate page)"
| "capture_inverse d (BlockCreate p) =
     Inr [BlockDelete \<lparr>bd_uuid = bc_uuid p, bd_page_uuid = bc_page_uuid p\<rparr>]"
| "capture_inverse d (BlockSetMarkdown p) =
     if_present (\<lambda>r. BlockSetMarkdown \<lparr>bm_uuid = bm_uuid p, bm_markdown = b_markdown r\<rparr>) (get (blocks d) (bm_uuid p))"
| "capture_inverse d (BlockSetStyle p) =
     if_present (\<lambda>r. BlockSetStyle \<lparr>bs_uuid = bs_uuid p, bs_style = b_style r\<rparr>) (get (blocks d) (bs_uuid p))"
| "capture_inverse d (BlockMove p) =
     if_present (\<lambda>r. BlockMove \<lparr>bv_uuid = bv_uuid p, bv_page_uuid = b_page r, bv_parent_uuid = b_parent r,
                               bv_order_key = b_order r\<rparr>) (get (blocks d) (bv_uuid p))"
| "capture_inverse d (BlockDelete p) = if_present BlockCreate (capture_block d (bd_uuid p))"
| "capture_inverse d (AttachmentAdd p) =
     attempt (attachment_intent d (aa_owner p) (aa_blob_hash p)) (\<lambda>previous.
     Inr [case previous of
            Some q \<Rightarrow> AttachmentAdd q
          | None \<Rightarrow> AttachmentRemove \<lparr>ar_owner = aa_owner p, ar_blob_hash = aa_blob_hash p\<rparr>])"
| "capture_inverse d (AttachmentRemove p) =
     attempt (attachment_intent d (ar_owner p) (ar_blob_hash p)) (\<lambda>previous. if_present AttachmentAdd previous)"

definition capture_inverse_kinds :: "db \<Rightarrow> op_kind list \<Rightarrow> core_error + op_kind list" where
  "capture_inverse_kinds d kinds =
     attempt (fold_res (\<lambda>k acc. attempt (capture_inverse d k) (\<lambda>ks. Inr (acc @ ks))) kinds []) (\<lambda>inverse. Inr (rev inverse))"

section \<open>Guards\<close>

fun owner_existence :: "attachment_owner \<Rightarrow> history_field" where
  "owner_existence (PageOwner u) = PageExistence u"
| "owner_existence (BlockOwner u) = BlockExistence u"

definition parent_existence :: "uuid option \<Rightarrow> history_field list" where
  "parent_existence parent = (case parent of None \<Rightarrow> [] | Some u \<Rightarrow> [BlockExistence u])"

fun history_guard_fields :: "op_kind \<Rightarrow> history_field list" where
  "history_guard_fields (InkPublish _) = []"
| "history_guard_fields (PageCreate p) =
     [PageExistence (pc_uuid p), PageTitle (pc_uuid p), PageLayoutField (pc_uuid p)]"
| "history_guard_fields (PageAliasSet p) = [PageAliasField (pa_uuid p) (pa_alias p), PageExistence (pa_uuid p)]"
| "history_guard_fields (PageSetTitle p) = [PageTitle (pt_uuid p), PageExistence (pt_uuid p)]"
| "history_guard_fields (PageSetLayout p) = [PageLayoutField (pl_uuid p), PageExistence (pl_uuid p)]"
| "history_guard_fields (PageDelete p) =
     [PageExistence (pd_uuid p), PageTitle (pd_uuid p), PageLayoutField (pd_uuid p)]"
| "history_guard_fields (BlockCreate p) =
     [BlockExistence (bc_uuid p), BlockMarkdown (bc_uuid p), BlockStyleField (bc_uuid p), BlockStructure (bc_uuid p),
      PageExistence (bc_page_uuid p)] @ parent_existence (bc_parent_uuid p)"
| "history_guard_fields (BlockSetMarkdown p) = [BlockMarkdown (bm_uuid p), BlockExistence (bm_uuid p)]"
| "history_guard_fields (BlockSetStyle p) = [BlockStyleField (bs_uuid p), BlockExistence (bs_uuid p)]"
| "history_guard_fields (BlockMove p) =
     [BlockStructure (bv_uuid p), BlockExistence (bv_uuid p), PageExistence (bv_page_uuid p)] @
     parent_existence (bv_parent_uuid p)"
| "history_guard_fields (BlockDelete p) =
     [BlockExistence (bd_uuid p), BlockMarkdown (bd_uuid p), BlockStyleField (bd_uuid p), BlockStructure (bd_uuid p),
      PageExistence (bd_page_uuid p)]"
| "history_guard_fields (AttachmentAdd p) = [AttachmentField (aa_owner p) (aa_blob_hash p), owner_existence (aa_owner p)]"
| "history_guard_fields (AttachmentRemove p) = [AttachmentField (ar_owner p) (ar_blob_hash p), owner_existence (ar_owner p)]"

text \<open>\<open>SELECT MAX(value)\<close> over at most two clocks.\<close>

definition max_hlc :: "hlc option \<Rightarrow> hlc option \<Rightarrow> hlc option" where
  "max_hlc a b = (case (a, b) of (Some x, Some y) \<Rightarrow> Some (max x y) | (None, y) \<Rightarrow> y | (x, None) \<Rightarrow> x)"

definition deleted_hlc :: "db \<Rightarrow> uuid \<Rightarrow> object_kind \<Rightarrow> hlc option" where
  "deleted_hlc d u kind =
     (case get (tombstones d) u of None \<Rightarrow> None | Some r \<Rightarrow> if t_kind r = kind then Some (t_hlc r) else None)"

fun current_field_hlc :: "db \<Rightarrow> history_field \<Rightarrow> hlc option" where
  "current_field_hlc d (PageExistence u) = max_hlc (map_option p_existence (get (pages d) u)) (deleted_hlc d u PageObject)"
| "current_field_hlc d (PageTitle u) = Option.bind (get (pages d) u) p_title_hlc"
| "current_field_hlc d (PageLayoutField u) = Option.bind (get (pages d) u) p_layout_hlc"
| "current_field_hlc d (PageAliasField u alias) = map_option al_hlc (get (aliases d) (u, alias))"
| "current_field_hlc d (BlockExistence u) = max_hlc (map_option b_existence (get (blocks d) u)) (deleted_hlc d u BlockObject)"
| "current_field_hlc d (BlockMarkdown u) = Option.bind (get (blocks d) u) b_markdown_hlc"
| "current_field_hlc d (BlockStyleField u) = Option.bind (get (blocks d) u) b_style_hlc"
| "current_field_hlc d (BlockStructure u) = map_option i_hlc (get (intents d) u)"
| "current_field_hlc d (AttachmentField owner hash) = map_option w_hlc (get (attachment_lww d) (owner, hash))"

text \<open>Each field once, in the order of its first mention.\<close>

definition first_mentions :: "'a list \<Rightarrow> 'a list" where
  "first_mentions xs = rev (remdups (rev xs))"

definition capture_history_guards :: "db \<Rightarrow> op_kind list \<Rightarrow> history_guard list" where
  "capture_history_guards d operations =
     map (\<lambda>f. \<lparr>hg_field = f, hg_expected = current_field_hlc d f\<rparr>)
       (first_mentions (concat (map history_guard_fields operations)))"

definition page_block_uuids :: "db \<Rightarrow> uuid \<Rightarrow> uuid list" where
  "page_block_uuids d page = map fst (filter (\<lambda>(_, r). b_page r = page) (rows (blocks d)))"

definition parent_rows :: "db \<Rightarrow> (uuid \<times> uuid) list" where
  "parent_rows d = List.map_filter (\<lambda>(u, r). map_option (\<lambda>p. (u, p)) (b_parent r)) (rows (blocks d))"

definition block_descendant_uuids :: "db \<Rightarrow> uuid \<Rightarrow> uuid list" where
  "block_descendant_uuids d block = filter (\<lambda>u. (u, block) \<in> (set (parent_rows d))\<^sup>+) (keys (blocks d))"

text \<open>The scopes recorded so far, and the pages and blocks already looked at.\<close>

record scope_scan =
  sc_scopes :: "scope_guard list"
  sc_ink :: "uuid list"
  sc_pages :: "uuid list"
  sc_blocks :: "uuid list"

fun ink_scope_page :: "op_kind \<Rightarrow> uuid option" where
  "ink_scope_page (PageDelete p) = Some (pd_uuid p)"
| "ink_scope_page (PageCreate p) = (if pc_kind p = Handwriting then Some (pc_uuid p) else None)"
| "ink_scope_page _ = None"

definition scan_ink_scope :: "db \<Rightarrow> op_kind \<Rightarrow> scope_scan \<Rightarrow> core_error + scope_scan" where
  "scan_ink_scope d operation s =
     (case ink_scope_page operation of
        None \<Rightarrow> Inr s
      | Some page \<Rightarrow>
          if page \<in> set (sc_ink s) then Inr s
          else
            let s = s\<lparr>sc_ink := page # sc_ink s\<rparr> in
            if is_ink_page d page
            then attempt (semantic_state_of (ink d) page) (\<lambda>state.
                 Inr (s\<lparr>sc_scopes := sc_scopes s @ [InkState page state]\<rparr>))
            else Inr s)"

definition scan_block_scope :: "db \<Rightarrow> op_kind \<Rightarrow> scope_scan \<Rightarrow> scope_scan" where
  "scan_block_scope d operation s =
     (case operation of
        PageDelete p \<Rightarrow>
          if pd_uuid p \<in> set (sc_pages s) then s
          else s\<lparr>sc_pages := pd_uuid p # sc_pages s,
                 sc_scopes := sc_scopes s @ [PageBlocks (pd_uuid p) (page_block_uuids d (pd_uuid p))]\<rparr>
      | BlockDelete p \<Rightarrow>
          if bd_uuid p \<in> set (sc_blocks s) then s
          else s\<lparr>sc_blocks := bd_uuid p # sc_blocks s,
                 sc_scopes := sc_scopes s @ [BlockDescendants (bd_uuid p) (block_descendant_uuids d (bd_uuid p))]\<rparr>
      | _ \<Rightarrow> s)"

definition capture_history_scope_guards :: "db \<Rightarrow> op_kind list \<Rightarrow> core_error + scope_guard list" where
  "capture_history_scope_guards d operations =
     attempt (fold_res (\<lambda>k s. attempt (scan_ink_scope d k s) (\<lambda>s. Inr (scan_block_scope d k s))) operations
        \<lparr>sc_scopes = [], sc_ink = [], sc_pages = [], sc_blocks = []\<rparr>) (\<lambda>s. Inr (sc_scopes s))"

definition guards_match :: "db \<Rightarrow> history_guard list \<Rightarrow> bool" where
  "guards_match d guards \<longleftrightarrow> list_all (\<lambda>g. current_field_hlc d (hg_field g) = hg_expected g) guards"

fun scope_matches :: "db \<Rightarrow> scope_guard \<Rightarrow> core_error + bool" where
  "scope_matches d (InkState page expected) = attempt (semantic_state_of (ink d) page) (\<lambda>s. Inr (s = expected))"
| "scope_matches d (PageBlocks page expected) = Inr (set (page_block_uuids d page) \<subseteq> set expected)"
| "scope_matches d (BlockDescendants block expected) = Inr (set (block_descendant_uuids d block) \<subseteq> set expected)"

fun scope_guards_match :: "db \<Rightarrow> scope_guard list \<Rightarrow> core_error + bool" where
  "scope_guards_match d [] = Inr True"
| "scope_guards_match d (g # gs) =
     attempt (scope_matches d g) (\<lambda>ok. if ok then scope_guards_match d gs else Inr False)"

section \<open>The store\<close>

text \<open>
  The database with the tables of the local history: the rows of \<open>history_undo\<close> and
  \<open>history_redo\<close> in the order of their identifiers, and the counters of \<open>store_state\<close>.
\<close>

record note_store =
  nt_db :: db
  nt_undo :: "history_row list"
  nt_redo :: "history_row list"
  nt_retained :: retained_rows
  nt_version :: int
  nt_epoch :: int

definition clean_retention :: "note_store \<Rightarrow> note_store" where
  "clean_retention s =
     (case cleanup (map hr_action_uuid (nt_undo s @ nt_redo s)) (nt_retained s, ink (nt_db s)) of
        (retained, t) \<Rightarrow> s\<lparr>nt_retained := retained, nt_db := (nt_db s)\<lparr>ink := t\<rparr>\<rparr>)"

text \<open>
  What a command takes from outside: the environment of its operations, the identifiers drawn
  for its action, for the objects it creates and for the drawings it restores, the libraries,
  the reader of ink graphs, and the store's projection mode.
\<close>

record world =
  w_env :: env
  w_action :: uuid
  w_object :: "nat \<Rightarrow> uuid"
  w_check :: "nat \<Rightarrow> uuid"
  w_restored :: "uuid \<Rightarrow> nat \<Rightarrow> uuid"
  w_revision :: "uuid \<Rightarrow> string"
  w_ext :: externals
  w_reader :: ink_reader
  w_mode :: projection_mode

section \<open>Recording an action\<close>

record prepared_action =
  pr_inverse :: "op_kind list"
  pr_ink_pages :: "uuid list"

definition has_history :: "prepared_action \<Rightarrow> bool" where
  "has_history p \<longleftrightarrow> pr_inverse p \<noteq> []"

definition capture_into :: "world \<Rightarrow> uuid \<Rightarrow> uuid \<Rightarrow> note_store \<Rightarrow> core_error + note_store" where
  "capture_into w action page s =
     attempt (capture (w_reader w) (w_check w) action page (nt_retained s, ink (nt_db s))) (\<lambda>(retained, t).
     Inr (s\<lparr>nt_retained := retained, nt_db := (nt_db s)\<lparr>ink := t\<rparr>\<rparr>))"

definition prepare_action :: "world \<Rightarrow> op_kind list \<Rightarrow> note_store \<Rightarrow> core_error + (prepared_action \<times> note_store)" where
  "prepare_action w forward s =
     attempt (capture_inverse_kinds (nt_db s) forward) (\<lambda>inverse.
     attempt (fold_res (\<lambda>k (done, s).
          case k of
            PageDelete p \<Rightarrow>
              if is_ink_page (nt_db s) (pd_uuid p) \<and> pd_uuid p \<notin> set done
              then attempt (capture_into w (w_action w) (pd_uuid p) s) (\<lambda>s. Inr (done @ [pd_uuid p], s))
              else Inr (done, s)
          | _ \<Rightarrow> Inr (done, s)) forward ([], s)) (\<lambda>(done, s).
     Inr (\<lparr>pr_inverse = inverse, pr_ink_pages = done\<rparr>, s)))"

definition history_limit :: nat where
  "history_limit = 50"

definition keep_last :: "nat \<Rightarrow> 'a list \<Rightarrow> 'a list" where
  "keep_last n xs = drop (length xs - n) xs"

definition record_action :: "string \<Rightarrow> op_kind list \<Rightarrow> prepared_action \<Rightarrow> projection_policy \<Rightarrow> uuid \<Rightarrow> note_store \<Rightarrow> core_error + note_store" where
  "record_action action forward prepared policy action_uuid s =
     (let inverse = pr_inverse prepared; d = nt_db s in
      if inverse = [] then Inr s
      else
        attempt (capture_history_scope_guards d inverse) (\<lambda>scopes.
        let version = (if has_ink_scope scopes \<or> pr_ink_pages prepared \<noteq> []
                       then ink_history_payload_version else history_payload_version);
            fwd = \<lparr>hp_format = version, hp_operations = forward, hp_policy = Some policy, hp_guards = [],
                   hp_scopes = [], hp_ink_pages = []\<rparr>;
            inv = \<lparr>hp_format = version, hp_operations = inverse, hp_policy = Some policy,
                   hp_guards = capture_history_guards d inverse, hp_scopes = scopes,
                   hp_ink_pages = pr_ink_pages prepared\<rparr>
        in guard (action_uuid \<notin> hr_action_uuid ` set (nt_undo s)) Database
          (Inr (s\<lparr>nt_undo := keep_last history_limit (nt_undo s @
                    [\<lparr>hr_action_uuid = action_uuid, hr_action = action,
                      hr_forward = encode_history_payload fwd, hr_inverse = encode_history_payload inv\<rparr>]),
                  nt_redo := []\<rparr>))))"

definition record_prepared_action :: "string \<Rightarrow> op_kind list \<Rightarrow> prepared_action \<Rightarrow> projection_policy \<Rightarrow> uuid \<Rightarrow> note_store \<Rightarrow> core_error + note_store" where
  "record_prepared_action action forward prepared policy action_uuid s =
     attempt (record_action action forward prepared policy action_uuid s) (\<lambda>s. Inr (clean_retention s))"

end
