(* ===== verification/Commit.thy ===== *)
theory Commit
  imports Undo
begin

text \<open>
  The transaction boundary of \<open>crates/notes-core/src/store.rs\<close>: a command works on the store
  inside a transaction, applies at most one ordered batch, and commits as a whole; and the
  undo and redo commands of \<open>db/history.rs\<close> on top of it.
\<close>

section \<open>The transaction of a command\<close>

text \<open>
  \<open>NotesTransaction\<close>. A command that fails is rolled back: it returns an error and no
  transaction, so the flag \<open>failed\<close> of the code, which stops a command that swallowed an
  error from committing, is never set in a transaction that is returned.
\<close>

record transaction =
  tx_store :: note_store
  tx_operations :: "op_kind list"
  tx_durable :: bool
  tx_history :: bool
  tx_applied :: bool

abbreviation tx_db :: "transaction \<Rightarrow> db" where
  "tx_db tx \<equiv> nt_db (tx_store tx)"

type_synonym 'a command = "transaction \<Rightarrow> core_error + ('a \<times> transaction)"

definition begin_write :: "note_store \<Rightarrow> transaction" where
  "begin_write s = \<lparr>tx_store = s, tx_operations = [], tx_durable = False, tx_history = False, tx_applied = False\<rparr>"

definition mark_history_changed :: "transaction \<Rightarrow> transaction" where
  "mark_history_changed tx = tx\<lparr>tx_history := True\<rparr>"

definition on_store :: "(note_store \<Rightarrow> core_error + note_store) \<Rightarrow> transaction \<Rightarrow> core_error + transaction" where
  "on_store f tx = attempt (f (tx_store tx)) (\<lambda>s. Inr (tx\<lparr>tx_store := s\<rparr>))"

definition publishes_ink :: "op_kind list \<Rightarrow> bool" where
  "publishes_ink kinds \<longleftrightarrow> list_ex (\<lambda>k. case k of InkPublish _ \<Rightarrow> True | _ \<Rightarrow> False) kinds"

text \<open>Every entry point of a transaction refuses to be the second one.\<close>

definition one_batch :: "(transaction \<Rightarrow> core_error + 'a) \<Rightarrow> transaction \<Rightarrow> core_error + 'a" where
  "one_batch f tx = guard (\<not> tx_applied tx) (InvalidInput ''a store command must apply one ordered batch'') (f tx)"

definition put_db :: "db \<Rightarrow> transaction \<Rightarrow> transaction" where
  "put_db d tx = tx\<lparr>tx_store := (tx_store tx)\<lparr>nt_db := d\<rparr>, tx_applied := True\<rparr>"

definition apply_kinds :: "world \<Rightarrow> op_kind list \<Rightarrow> projection_policy \<Rightarrow> bool \<Rightarrow> transaction \<Rightarrow> core_error + transaction" where
  "apply_kinds w kinds policy history_restore =
     one_batch (\<lambda>tx.
       guard (history_restore \<or> \<not> publishes_ink kinds) (InvalidInput ''ink writes have not migrated to the text store'')
       (attempt (apply_local_kinds (w_ext w) (w_env w) kinds policy (w_mode w) (tx_db tx)) (\<lambda>(ops, d).
        Inr ((put_db d tx)\<lparr>tx_operations := map op_kind ops, tx_durable := (tx_durable tx \<or> ops \<noteq> [])\<rparr>))))"

definition apply_local :: "world \<Rightarrow> op_kind list \<Rightarrow> projection_policy \<Rightarrow> transaction \<Rightarrow> core_error + transaction" where
  "apply_local w kinds policy tx = apply_kinds w kinds policy False tx"

definition apply_history_restore ::
  "world \<Rightarrow> op_kind list \<Rightarrow> restore \<Rightarrow> projection_policy \<Rightarrow> transaction \<Rightarrow> core_error + transaction" where
  "apply_history_restore w operations plan policy tx =
     attempt (apply_kinds w operations policy True tx) (\<lambda>tx.
     on_store (\<lambda>s. Inr (s\<lparr>nt_db := (nt_db s)\<lparr>ink := restore_native (w_revision w) plan (ink (nt_db s))\<rparr>\<rparr>)) tx)"

definition apply_action :: "world \<Rightarrow> string \<Rightarrow> op_kind list \<Rightarrow> projection_policy \<Rightarrow> transaction \<Rightarrow> core_error + transaction" where
  "apply_action w action kinds policy tx =
     attempt (prepare_action w kinds (tx_store tx)) (\<lambda>(prepared, s).
     attempt (apply_local w kinds policy (tx\<lparr>tx_store := s\<rparr>)) (\<lambda>tx.
     attempt (on_store (record_prepared_action action kinds prepared policy (w_action w)) tx) (\<lambda>tx.
     Inr (if has_history prepared then mark_history_changed tx else tx))))"

text \<open>Delivered operations keep their identifiers and clocks; the replica metadata has its own commands.\<close>

definition applied_kinds :: "op list \<Rightarrow> apply_outcome list \<Rightarrow> op_kind list" where
  "applied_kinds ops outcomes = map (\<lambda>(x, _). op_kind x) (filter (\<lambda>(_, outcome). oc_applied outcome) (zip ops outcomes))"

definition apply_replicated_batch :: "world \<Rightarrow> op list \<Rightarrow> origin \<Rightarrow> apply_outcome list command" where
  "apply_replicated_batch w ops origin =
     one_batch (\<lambda>tx.
       attempt (apply_batch (w_ext w) (w_env w) ops origin (w_mode w) (tx_db tx)) (\<lambda>(outcomes, durable, d).
       Inr (outcomes, (put_db d tx)\<lparr>tx_operations := applied_kinds ops outcomes, tx_durable := (tx_durable tx \<or> durable)\<rparr>)))"

definition apply_sequenced :: "world \<Rightarrow> (64 word \<times> op) list \<Rightarrow> apply_outcome list command" where
  "apply_sequenced w entries =
     one_batch (\<lambda>tx.
       attempt (apply_sequenced_batch (w_ext w) (w_env w) entries (w_mode w) (tx_db tx)) (\<lambda>(outcomes, durable, d).
       Inr (outcomes, (put_db d tx)\<lparr>tx_operations := applied_kinds (map snd entries) outcomes,
                                    tx_durable := (tx_durable tx \<or> durable)\<rparr>)))"

text \<open>\<open>apply_sync_metadata\<close>: a value, whether the metadata changed, and the database.\<close>

definition apply_sync_metadata :: "(db \<Rightarrow> core_error + ('a \<times> bool \<times> db)) \<Rightarrow> 'a command" where
  "apply_sync_metadata f =
     one_batch (\<lambda>tx. attempt (f (tx_db tx)) (\<lambda>(v, changed, d).
       Inr (v, (put_db d tx)\<lparr>tx_durable := (tx_durable tx \<or> changed)\<rparr>)))"

definition store_acknowledge :: "(uuid \<times> 64 word) list \<Rightarrow> unit command" where
  "store_acknowledge acks =
     apply_sync_metadata (\<lambda>d. attempt (acknowledge_server_ops acks d) (\<lambda>(changed, d). Inr ((), changed, d)))"

definition store_set_replica_role :: "replica_role \<Rightarrow> unit command" where
  "store_set_replica_role role = apply_sync_metadata (\<lambda>d. case set_replica_role role d of (changed, d) \<Rightarrow> Inr ((), changed, d))"

definition store_configure_sync :: "string \<Rightarrow> unit command" where
  "store_configure_sync url = apply_sync_metadata (\<lambda>d. case configure_sync url d of (changed, d) \<Rightarrow> Inr ((), changed, d))"

definition store_bind_sync_workspace :: "string \<Rightarrow> uuid \<Rightarrow> 64 word \<Rightarrow> unit command" where
  "store_bind_sync_workspace url remote seq =
     apply_sync_metadata (\<lambda>d. attempt (bind_sync_workspace url remote seq d) (\<lambda>(changed, d). Inr ((), changed, d)))"

definition store_quarantine :: "uuid \<Rightarrow> string \<Rightarrow> int \<Rightarrow> bool command" where
  "store_quarantine u reason now =
     apply_sync_metadata (\<lambda>d. case quarantine_outbox_op u reason now d of (changed, d) \<Rightarrow> Inr (changed, changed, d))"

definition store_release :: "nat command" where
  "store_release =
     apply_sync_metadata (\<lambda>d. case release_quarantined_outbox d of (released, d) \<Rightarrow> Inr (released, released \<noteq> 0, d))"

section \<open>Committing\<close>

text \<open>
  A commit counts when durable state or an observable projection changed. The change set of the
  code is a set of invalidation facts about rows that applied operations touched; a batch that
  applies an operation is durable, so the facts add nothing to the test.
\<close>

record 'a committed =
  cm_value :: 'a
  cm_operations :: "op_kind list"
  cm_version :: "int option"
  cm_epoch :: int

definition store_changed :: "transaction \<Rightarrow> bool" where
  "store_changed tx \<longleftrightarrow> tx_durable tx \<or> tx_history tx"

text \<open>\<open>NotesStore::write\<close>: the version of the store counts its changing commits.\<close>

definition write_store :: "world \<Rightarrow> 'a command \<Rightarrow> note_store \<Rightarrow> core_error + ('a committed \<times> note_store)" where
  "write_store w command s =
     attempt (require_mode (w_mode w) (nt_db s)) (\<lambda>_.
     attempt (command (begin_write s)) (\<lambda>(v, tx).
     let s = tx_store tx in
     if store_changed tx
     then guard (nt_version s < i64_max) Database
       (Inr (\<lparr>cm_value = v, cm_operations = tx_operations tx, cm_version = Some (nt_version s + 1), cm_epoch = nt_epoch s\<rparr>,
             s\<lparr>nt_version := nt_version s + 1\<rparr>))
     else Inr (\<lparr>cm_value = v, cm_operations = tx_operations tx, cm_version = None, cm_epoch = nt_epoch s\<rparr>, s)))"

section \<open>Undo and redo\<close>

definition source_stack :: "bool \<Rightarrow> note_store \<Rightarrow> history_row list" where
  "source_stack undo s = (if undo then nt_undo s else nt_redo s)"

definition drop_entry :: "bool \<Rightarrow> note_store \<Rightarrow> note_store" where
  "drop_entry undo s = (if undo then s\<lparr>nt_undo := butlast (nt_undo s)\<rparr> else s\<lparr>nt_redo := butlast (nt_redo s)\<rparr>)"

definition push_target :: "bool \<Rightarrow> history_row \<Rightarrow> note_store \<Rightarrow> core_error + note_store" where
  "push_target undo r s =
     guard (hr_action_uuid r \<notin> hr_action_uuid ` set (source_stack (\<not> undo) s)) Database
       (Inr (if undo then s\<lparr>nt_redo := nt_redo s @ [r]\<rparr> else s\<lparr>nt_undo := nt_undo s @ [r]\<rparr>))"

definition settle_policy :: "string \<Rightarrow> history_payload \<Rightarrow> history_payload" where
  "settle_policy action p = p\<lparr>hp_policy := Some (resolve_projection_policy action p)\<rparr>"

definition guarded_drawing :: "history_payload \<Rightarrow> uuid \<Rightarrow> bool" where
  "guarded_drawing p page \<longleftrightarrow>
     list_ex (\<lambda>g. case g of InkState q _ \<Rightarrow> q = page | _ \<Rightarrow> False) (hp_scopes p)"

definition restored_drawings :: "op_kind list \<Rightarrow> uuid list" where
  "restored_drawings kinds =
     List.map_filter (\<lambda>k. case k of PageCreate p \<Rightarrow> if pc_kind p = Handwriting then Some (pc_uuid p) else None
                             | _ \<Rightarrow> None) kinds"

text \<open>
  The drawings that the operations delete are kept for the way back. \<open>None\<close> is the early
  return: an unguarded deletion of a drawing that is not provably empty is skipped.
\<close>

fun keep_deleted_drawings ::
  "world \<Rightarrow> history_payload \<Rightarrow> uuid \<Rightarrow> op_kind list \<Rightarrow> uuid list \<Rightarrow> note_store \<Rightarrow>
     core_error + (uuid list option \<times> note_store)" where
  "keep_deleted_drawings w selected action [] deleted s = Inr (Some deleted, s)"
| "keep_deleted_drawings w selected action (k # ks) deleted s =
     (case k of
        PageDelete p \<Rightarrow>
          if is_ink_page (nt_db s) (pd_uuid p)
          then
            attempt (if guarded_drawing selected (pd_uuid p) then Inr True
                     else is_untouched_empty (ink (nt_db s)) (pd_uuid p)) (\<lambda>allowed.
            if \<not> allowed then Inr (None, s)
            else
              attempt (if has_retention (nt_retained s) action (pd_uuid p) then Inr s
                       else capture_into w action (pd_uuid p) s) (\<lambda>s.
              keep_deleted_drawings w selected action ks (deleted @ [pd_uuid p]) s))
          else keep_deleted_drawings w selected action ks deleted s
      | _ \<Rightarrow> keep_deleted_drawings w selected action ks deleted s)"

definition settle_payload :: "history_payload \<Rightarrow> history_payload" where
  "settle_payload p =
     (let restored = remdups (sort (hp_ink_pages p)) in
      p\<lparr>hp_ink_pages := restored,
        hp_format := if restored \<noteq> [] \<or> has_ink_scope (hp_scopes p) then ink_history_payload_version else hp_format p\<rparr>)"

text \<open>The payload for the way back, guarded by the clocks that the step just wrote.\<close>

definition arm_payload :: "db \<Rightarrow> history_guard list \<Rightarrow> uuid list \<Rightarrow> history_payload \<Rightarrow> core_error + history_payload" where
  "arm_payload d guards deleted p =
     attempt (capture_history_scope_guards d (hp_operations p)) (\<lambda>scopes.
     Inr (p\<lparr>hp_guards := guards, hp_scopes := scopes, hp_ink_pages := hp_ink_pages p @ deleted\<rparr>))"

text \<open>
  \<open>refresh_sibling_guards\<close>: the other entries expect the clocks that a neighbouring step wrote.
\<close>

definition refresh_payload_guards :: "(history_field \<times> hlc option) list \<Rightarrow> history_payload \<Rightarrow> history_payload" where
  "refresh_payload_guards replacements p =
     p\<lparr>hp_guards := map (\<lambda>g. case map_of replacements (hg_field g) of
                                None \<Rightarrow> g | Some expected \<Rightarrow> g\<lparr>hg_expected := expected\<rparr>) (hp_guards p)\<rparr>"

definition refresh_row :: "(history_field \<times> hlc option) list \<Rightarrow> history_row \<Rightarrow> core_error + history_row" where
  "refresh_row replacements r =
     attempt (decode_history_payload (hr_forward r)) (\<lambda>forward.
     attempt (decode_history_payload (hr_inverse r)) (\<lambda>inverse.
     let forward' = refresh_payload_guards replacements forward;
         inverse' = refresh_payload_guards replacements inverse
     in Inr (if forward' = forward \<and> inverse' = inverse then r
             else r\<lparr>hr_forward := encode_history_payload forward', hr_inverse := encode_history_payload inverse'\<rparr>)))"

definition refresh_sibling_guards :: "history_guard list \<Rightarrow> note_store \<Rightarrow> core_error + note_store" where
  "refresh_sibling_guards next_guards s =
     (let replacements = map (\<lambda>g. (hg_field g, hg_expected g)) next_guards in
      if replacements = [] then Inr s
      else
        attempt (map_res (refresh_row replacements) (nt_undo s)) (\<lambda>undo.
        attempt (map_res (refresh_row replacements) (nt_redo s)) (\<lambda>redo.
        Inr (s\<lparr>nt_undo := undo, nt_redo := redo\<rparr>))))"

definition skip_entry :: "bool \<Rightarrow> transaction \<Rightarrow> history_move_result \<times> transaction" where
  "skip_entry undo tx =
     (Skipped, mark_history_changed (tx\<lparr>tx_store := clean_retention (drop_entry undo (tx_store tx))\<rparr>))"

definition guards_hold :: "db \<Rightarrow> history_payload \<Rightarrow> core_error + bool" where
  "guards_hold d p = (if guards_match d (hp_guards p) then scope_guards_match d (hp_scopes p) else Inr False)"

text \<open>The operations, with those of a restored drawing, and the native part of the restoration.\<close>

definition apply_selected ::
  "world \<Rightarrow> uuid \<Rightarrow> history_payload \<Rightarrow> projection_policy \<Rightarrow> transaction \<Rightarrow> core_error + (op_kind list \<times> transaction)" where
  "apply_selected w action_uuid selected policy tx =
     (let kinds = hp_operations selected in
      if hp_ink_pages selected = []
      then attempt (apply_local w kinds policy tx) (\<lambda>tx. Inr (kinds, tx))
      else
        attempt (prepare_restore (w_reader w) (w_restored w) (nt_retained (tx_store tx)) action_uuid
                   (hp_ink_pages selected) (ink (tx_db tx))) (\<lambda>(plan, t).
        let kinds = kinds @ rs_operations plan;
            tx = tx\<lparr>tx_store := (tx_store tx)\<lparr>nt_db := (tx_db tx)\<lparr>ink := t\<rparr>\<rparr>\<rparr>
        in attempt (apply_history_restore w kinds plan policy tx) (\<lambda>tx. Inr (kinds, tx))))"

definition record_move ::
  "bool \<Rightarrow> history_row \<Rightarrow> history_payload \<Rightarrow> history_payload \<Rightarrow> op_kind list \<Rightarrow> uuid list \<Rightarrow> note_store \<Rightarrow>
     core_error + note_store" where
  "record_move undo entry forward backward kinds deleted s =
     (let d = nt_db s; next_guards = capture_history_guards d kinds in
      attempt (if undo then arm_payload d next_guards deleted forward else Inr forward) (\<lambda>forward.
      attempt (if undo then Inr backward else arm_payload d next_guards deleted backward) (\<lambda>backward.
      let forward = settle_payload forward; backward = settle_payload backward in
      attempt (refresh_sibling_guards (if undo then hp_guards forward else hp_guards backward) (drop_entry undo s)) (\<lambda>s.
      attempt (push_target undo (entry\<lparr>hr_forward := encode_history_payload forward,
                                       hr_inverse := encode_history_payload backward\<rparr>) s) (\<lambda>s.
      Inr (clean_retention s))))))"

definition move_history :: "world \<Rightarrow> bool \<Rightarrow> history_move_result command" where
  "move_history w undo tx =
     (case rev (source_stack undo (tx_store tx)) of
        [] \<Rightarrow> Inr (Empty, tx)
      | entry # _ \<Rightarrow>
          attempt (decode_history_payload (hr_forward entry)) (\<lambda>forward.
          attempt (decode_history_payload (hr_inverse entry)) (\<lambda>inverse.
          let forward = settle_policy (hr_action entry) forward;
              inverse = settle_policy (hr_action entry) inverse;
              selected = (if undo then inverse else forward);
              policy = resolve_projection_policy (hr_action entry) selected
          in attempt (guards_hold (tx_db tx) selected) (\<lambda>unchanged.
          if \<not> unchanged then Inr (skip_entry undo tx)
          else
            guard (distinct (hp_ink_pages selected) \<and>
                   set (restored_drawings (hp_operations selected)) = set (hp_ink_pages selected))
              (NotFound ''Drawing recovery data is unavailable for this older history entry; restore a backup'')
            (attempt (keep_deleted_drawings w selected (hr_action_uuid entry) (hp_operations selected) [] (tx_store tx)) (\<lambda>(kept, s).
             let tx = tx\<lparr>tx_store := s\<rparr> in
             case kept of
               None \<Rightarrow> Inr (skip_entry undo tx)
             | Some deleted \<Rightarrow>
                 attempt (apply_selected w (hr_action_uuid entry) selected policy tx) (\<lambda>(kinds, tx).
                 attempt (on_store (record_move undo entry forward inverse kinds deleted) tx) (\<lambda>tx.
                 Inr (Applied, mark_history_changed tx)))))))))"

definition undo_command :: "world \<Rightarrow> note_store \<Rightarrow> core_error + (history_move_result committed \<times> note_store)" where
  "undo_command w s = write_store w (move_history w True) s"

definition redo_command :: "world \<Rightarrow> note_store \<Rightarrow> core_error + (history_move_result committed \<times> note_store)" where
  "redo_command w s = write_store w (move_history w False) s"

definition history_status :: "note_store \<Rightarrow> nat \<times> nat" where
  "history_status s = (length (nt_undo s), length (nt_redo s))"

end
