(* ===== verification/Outliner.thy ===== *)
theory Outliner
  imports Commit Placement
begin

text \<open>
  The commands of the outliner (\<open>crates/notes-core/src/db/blocks.rs\<close>): creating, editing,
  styling, moving, deleting and splitting blocks. Each is one transaction of \<open>NotesStore\<close>.
\<close>

section \<open>Creating and editing\<close>

definition placed_after :: "uuid option \<Rightarrow> sibling_insertion" where
  "placed_after after_uuid = (case after_uuid of None \<Rightarrow> AtEnd | Some u \<Rightarrow> After u)"

definition check_new_parent :: "db \<Rightarrow> uuid \<Rightarrow> uuid option \<Rightarrow> core_error + unit" where
  "check_new_parent d page parent =
     (case parent of
        None \<Rightarrow> Inr ()
      | Some p \<Rightarrow>
          (case get_block d p of
             None \<Rightarrow> Inl (NotFound ''parent block was not found'')
           | Some b \<Rightarrow> guard (bk_page b = page) (Conflict ''parent block belongs to a different page'') (Inr ())))"

definition create_block :: "world \<Rightarrow> uuid \<Rightarrow> uuid option \<Rightarrow> uuid option \<Rightarrow> block_style \<Rightarrow> string \<Rightarrow> block_view command" where
  "create_block w page parent after_uuid style markdown tx =
     guard (has (pages (tx_db tx)) page) (NotFound ''page was not found'')
     (attempt (check_new_parent (tx_db tx) page parent) (\<lambda>_.
      attempt (sibling_placement (tx_db tx) page parent (placed_after after_uuid) None 1
                 (InvalidInput ''after block is not a sibling of the new block'')) (\<lambda>(allocated, moves).
      attempt (apply_action w ''create block''
                 (BlockCreate \<lparr>bc_uuid = w_object w 0, bc_page_uuid = page, bc_parent_uuid = parent,
                               bc_order_key = allocated ! 0, bc_style = style, bc_markdown = markdown,
                               bc_created_at = now_secs (w_env w)\<rparr> # moves) Immediate tx) (\<lambda>tx.
      attempt (require_block (tx_db tx) (w_object w 0)) (\<lambda>b. Inr (b, tx))))))"

text \<open>
  \<open>save_block_content\<close>: equal text is accepted whatever the revision; other text only at the
  expected revision, when one is given. The flag says whether references changed.
\<close>

definition save_block_content :: "world \<Rightarrow> uuid \<Rightarrow> string \<Rightarrow> hlc option \<Rightarrow> (block_view \<times> bool) command" where
  "save_block_content w u markdown expected_revision tx =
     attempt (require_block (tx_db tx) u) (\<lambda>b.
     if bk_markdown b = markdown then Inr ((b, False), tx)
     else
       guard (case expected_revision of None \<Rightarrow> True | Some expected \<Rightarrow> bk_revision b = expected)
         (Conflict ''block content changed since editing began'')
       (attempt (apply_local w [BlockSetMarkdown \<lparr>bm_uuid = u, bm_markdown = markdown\<rparr>] Immediate tx) (\<lambda>tx.
        attempt (require_block (tx_db tx) u) (\<lambda>b'.
        Inr ((b', content_references_changed (w_ext w) (bk_markdown b) markdown), tx)))))"

definition set_block_content :: "world \<Rightarrow> uuid \<Rightarrow> string \<Rightarrow> (block_view \<times> bool) command" where
  "set_block_content w u markdown = save_block_content w u markdown None"

definition set_block_content_if_revision :: "world \<Rightarrow> uuid \<Rightarrow> string \<Rightarrow> hlc \<Rightarrow> (block_view \<times> bool) command" where
  "set_block_content_if_revision w u markdown expected = save_block_content w u markdown (Some expected)"

definition apply_block_style :: "world \<Rightarrow> block_view \<Rightarrow> block_style \<Rightarrow> block_view command" where
  "apply_block_style w b style tx =
     (if bk_style b = style then Inr (b, tx)
      else
        attempt (apply_action w ''set block style'' [BlockSetStyle \<lparr>bs_uuid = bk_uuid b, bs_style = style\<rparr>] Immediate tx) (\<lambda>tx.
        attempt (require_block (tx_db tx) (bk_uuid b)) (\<lambda>b. Inr (b, tx))))"

definition set_block_style :: "world \<Rightarrow> uuid \<Rightarrow> block_style \<Rightarrow> block_view command" where
  "set_block_style w u style tx =
     attempt (require_block (tx_db tx) u) (\<lambda>b. apply_block_style w b style tx)"

definition set_task_state :: "world \<Rightarrow> uuid \<Rightarrow> task_state \<Rightarrow> block_view command" where
  "set_task_state w u state tx =
     attempt (require_block (tx_db tx) u) (\<lambda>b.
     guard (task_state_of_style (bk_style b) \<noteq> None) (InvalidInput ''task state requires a task block'')
       (apply_block_style w b (Task state) tx))"

section \<open>Moving\<close>

text \<open>The descendants of a block in the projection, as the recursive query collects them.\<close>

definition moves_below_itself :: "db \<Rightarrow> uuid \<Rightarrow> uuid \<Rightarrow> bool" where
  "moves_below_itself d u parent \<longleftrightarrow> parent \<in> set (block_descendant_uuids d u)"

definition check_move_parent :: "db \<Rightarrow> block_view \<Rightarrow> uuid option \<Rightarrow> core_error + unit" where
  "check_move_parent d b parent =
     guard (parent \<noteq> Some (bk_uuid b)) (Conflict ''a block cannot be its own parent'')
     (attempt (check_new_parent d (bk_page b) parent) (\<lambda>_.
      guard (case parent of None \<Rightarrow> True | Some p \<Rightarrow> \<not> moves_below_itself d (bk_uuid b) p)
        (Conflict ''a block cannot be moved under one of its descendants'') (Inr ())))"

text \<open>Place a block anew and read it back: the common end of the moving commands.\<close>

definition replace_block ::
  "world \<Rightarrow> string \<Rightarrow> block_view \<Rightarrow> uuid option \<Rightarrow> sibling_insertion \<Rightarrow> core_error \<Rightarrow> block_view command" where
  "replace_block w action b parent insertion invalid tx =
     attempt (sibling_placement (tx_db tx) (bk_page b) parent insertion (Some (bk_uuid b)) 1 invalid) (\<lambda>(allocated, moves).
     attempt (apply_action w action
                (BlockMove \<lparr>bv_uuid = bk_uuid b, bv_page_uuid = bk_page b, bv_parent_uuid = parent,
                            bv_order_key = allocated ! 0\<rparr> # moves) Immediate tx) (\<lambda>tx.
     attempt (require_block (tx_db tx) (bk_uuid b)) (\<lambda>b. Inr (b, tx))))"

definition move_block_in_transaction :: "world \<Rightarrow> block_view \<Rightarrow> uuid option \<Rightarrow> uuid option \<Rightarrow> block_view command" where
  "move_block_in_transaction w b parent after_uuid tx =
     attempt (check_move_parent (tx_db tx) b parent) (\<lambda>_.
     replace_block w ''move block'' b parent (placed_after after_uuid)
       (InvalidInput ''after block is not a sibling of the moved block'') tx)"

definition move_block :: "world \<Rightarrow> uuid \<Rightarrow> uuid option \<Rightarrow> uuid option \<Rightarrow> block_view command" where
  "move_block w u parent after_uuid tx =
     attempt (require_block (tx_db tx) u) (\<lambda>b. move_block_in_transaction w b parent after_uuid tx)"

datatype reorder_direction = Up | Down

definition own_position :: "block_view \<Rightarrow> position" where
  "own_position b = (bk_uuid b, bk_order b)"

definition reorder_block :: "world \<Rightarrow> uuid \<Rightarrow> reorder_direction \<Rightarrow> block_view command" where
  "reorder_block w u direction tx =
     attempt (require_block (tx_db tx) u) (\<lambda>b.
     case sibling_neighbor (tx_db tx) (bk_page b) (bk_parent b) (Some (own_position b)) (direction = Up) None of
       None \<Rightarrow> Inr (b, tx)
     | Some neighbor \<Rightarrow>
         replace_block w ''reorder block'' b (bk_parent b)
           (if direction = Up then Before (fst neighbor) else After (fst neighbor))
           (Conflict ''block is absent from its parent'') tx)"

definition indent_block :: "world \<Rightarrow> uuid \<Rightarrow> block_view command" where
  "indent_block w u tx =
     attempt (require_block (tx_db tx) u) (\<lambda>b.
     case sibling_neighbor (tx_db tx) (bk_page b) (bk_parent b) (Some (own_position b)) True None of
       None \<Rightarrow> Inr (b, tx)
     | Some previous \<Rightarrow> move_block_in_transaction w b (Some (fst previous)) None tx)"

definition outdent_block :: "world \<Rightarrow> uuid \<Rightarrow> block_view command" where
  "outdent_block w u tx =
     attempt (require_block (tx_db tx) u) (\<lambda>b.
     case bk_parent b of
       None \<Rightarrow> Inl (Conflict ''top-level blocks cannot be outdented'')
     | Some p \<Rightarrow>
         (case get_block (tx_db tx) p of
            None \<Rightarrow> Inl Database
          | Some parent \<Rightarrow> move_block_in_transaction w b (bk_parent parent) (Some p) tx))"

section \<open>Deleting and splitting\<close>

definition has_children :: "db \<Rightarrow> uuid \<Rightarrow> bool" where
  "has_children d u \<longleftrightarrow> list_ex (\<lambda>(_, r). b_parent r = Some u) (rows (blocks d))"

definition delete_block :: "world \<Rightarrow> uuid \<Rightarrow> bool command" where
  "delete_block w u tx =
     (case get_block (tx_db tx) u of
        None \<Rightarrow> Inr (False, tx)
      | Some b \<Rightarrow>
          if has_children (tx_db tx) u then Inr (False, tx)
          else attempt (apply_action w ''delete block''
                          [BlockDelete \<lparr>bd_uuid = u, bd_page_uuid = bk_page b\<rparr>] Immediate tx) (\<lambda>tx. Inr (True, tx)))"

definition split_placement :: "db \<Rightarrow> block_view \<Rightarrow> nat \<Rightarrow> core_error + (order_key list \<times> op_kind list)" where
  "split_placement d b count =
     sibling_placement d (bk_page b) (bk_parent b) (After (bk_uuid b)) None count
       (Conflict ''split source is absent from its siblings'')"

definition split_kinds :: "world \<Rightarrow> block_view \<Rightarrow> string list \<Rightarrow> order_key list \<Rightarrow> op_kind list" where
  "split_kinds w b parts allocated =
     BlockSetMarkdown \<lparr>bm_uuid = bk_uuid b, bm_markdown = hd parts\<rparr> #
     map (\<lambda>(i, markdown, key).
        BlockCreate \<lparr>bc_uuid = w_object w i, bc_page_uuid = bk_page b, bc_parent_uuid = bk_parent b,
                     bc_order_key = key, bc_style = bk_style b, bc_markdown = markdown,
                     bc_created_at = now_secs (w_env w)\<rparr>)
       (enumerate 0 (zip (tl parts) allocated))"

definition split_block :: "world \<Rightarrow> uuid \<Rightarrow> string list \<Rightarrow> hlc \<Rightarrow> block_view list command" where
  "split_block w u parts expected_revision tx =
     attempt (require_block (tx_db tx) u) (\<lambda>b.
     guard (bk_revision b = expected_revision) (Conflict ''block content changed since split began'')
     (attempt (split_placement (tx_db tx) b (length parts - 1)) (\<lambda>(allocated, moves).
      attempt (apply_action w ''split block'' (split_kinds w b parts allocated @ moves) Deferred tx) (\<lambda>tx.
      attempt (map_res (\<lambda>v. case get_block (tx_db tx) v of None \<Rightarrow> Inl Database | Some b \<Rightarrow> Inr b)
                 (u # map (\<lambda>i. w_object w i) [0..<length (zip (tl parts) allocated)])) (\<lambda>bs.
      Inr (bs, tx))))))"

text \<open>The check on \<open>parts\<close> comes before the transaction.\<close>

definition split_block_command ::
  "world \<Rightarrow> uuid \<Rightarrow> string list \<Rightarrow> hlc \<Rightarrow> note_store \<Rightarrow> core_error + (block_view list committed \<times> note_store)" where
  "split_block_command w u parts expected_revision s =
     guard (parts \<noteq> []) (InvalidInput ''split requires at least one part'')
       (write_store w (split_block w u parts expected_revision) s)"

end
