(* ===== verification/Pages.thy ===== *)
theory Pages
  imports Outliner
begin

text \<open>
  The commands on pages, journals and attachments (\<open>crates/notes-core/src/db/pages.rs\<close>,
  \<open>db/journals.rs\<close>, \<open>db/attachments.rs\<close>), and the reads they share.
\<close>

section \<open>Reading pages\<close>

record page_view =
  pg_uuid :: uuid
  pg_kind :: page_kind
  pg_title :: "string option"
  pg_layout :: page_layout
  pg_revision :: hlc
  pg_created :: int
  pg_updated :: int

definition row_to_page :: "db \<Rightarrow> uuid \<Rightarrow> page_row \<Rightarrow> core_error + page_view" where
  "row_to_page d u r =
     (case page_identity d u of
        None \<Rightarrow> Inl Database
      | Some kind \<Rightarrow>
          Inr \<lparr>pg_uuid = u, pg_kind = kind, pg_title = p_title r, pg_layout = p_layout r,
               pg_revision = (case p_title_hlc r of Some t \<Rightarrow> t | None \<Rightarrow> p_existence r),
               pg_created = p_created r, pg_updated = p_updated r\<rparr>)"

definition get_page :: "db \<Rightarrow> uuid \<Rightarrow> core_error + page_view option" where
  "get_page d u =
     (case get (pages d) u of None \<Rightarrow> Inr None | Some r \<Rightarrow> attempt (row_to_page d u r) (\<lambda>v. Inr (Some v)))"

text \<open>\<open>query_row\<close> without \<open>optional\<close>: no row is an error.\<close>

definition read_page :: "db \<Rightarrow> uuid \<Rightarrow> core_error \<Rightarrow> core_error + page_view" where
  "read_page d u missing =
     attempt (get_page d u) (\<lambda>v. case v of None \<Rightarrow> Inl missing | Some page \<Rightarrow> Inr page)"

definition page_by_normalized_title :: "db \<Rightarrow> string \<Rightarrow> core_error + page_view option" where
  "page_by_normalized_title d name =
     (case resolve_page_alias d name of None \<Rightarrow> Inr None | Some u \<Rightarrow> get_page d u)"

definition get_page_by_title :: "externals \<Rightarrow> db \<Rightarrow> string \<Rightarrow> core_error + page_view option" where
  "get_page_by_title ext d title =
     (if trim title = [] then Inr None else page_by_normalized_title d (normalize_title ext (trim title)))"

datatype page_list_filter = NotePages | JournalPages | AllPages

fun kind_listed :: "page_list_filter \<Rightarrow> page_kind \<Rightarrow> bool" where
  "kind_listed NotePages kind \<longleftrightarrow> \<not> is_journal kind"
| "kind_listed JournalPages kind \<longleftrightarrow> is_journal kind"
| "kind_listed AllPages kind \<longleftrightarrow> True"

text \<open>\<open>ORDER BY updated_at DESC, uuid\<close>.\<close>

definition list_pages_filtered :: "db \<Rightarrow> page_list_filter \<Rightarrow> nat \<Rightarrow> core_error + page_view list" where
  "list_pages_filtered d filtering limit =
     map_res (\<lambda>(u, r). row_to_page d u r)
       (take limit (sort_key (\<lambda>(u, r). (- p_updated r, u))
          (filter (\<lambda>(u, r). case page_identity d u of None \<Rightarrow> False | Some kind \<Rightarrow> kind_listed filtering kind)
             (rows (pages d)))))"

definition get_containing_page :: "db \<Rightarrow> uuid \<Rightarrow> core_error + page_view option" where
  "get_containing_page d block =
     (case get (blocks d) block of None \<Rightarrow> Inr None | Some r \<Rightarrow> get_page d (b_page r))"

section \<open>Creating pages\<close>

definition clean_title :: "string option \<Rightarrow> string option" where
  "clean_title title =
     (case title of None \<Rightarrow> None | Some s \<Rightarrow> if trim s = [] then None else Some (trim s))"

definition new_page :: "world \<Rightarrow> uuid \<Rightarrow> page_kind \<Rightarrow> string option \<Rightarrow> op_kind" where
  "new_page w u kind title =
     PageCreate \<lparr>pc_uuid = u, pc_kind = kind, pc_title = title, pc_layout = Outline,
                 pc_created_at = now_secs (w_env w)\<rparr>"

definition new_root_block :: "world \<Rightarrow> uuid \<Rightarrow> uuid \<Rightarrow> order_key \<Rightarrow> block_style \<Rightarrow> string \<Rightarrow> op_kind" where
  "new_root_block w u page key style markdown =
     BlockCreate \<lparr>bc_uuid = u, bc_page_uuid = page, bc_parent_uuid = None, bc_order_key = key, bc_style = style,
                  bc_markdown = markdown, bc_created_at = now_secs (w_env w)\<rparr>"

definition create_page :: "world \<Rightarrow> string \<Rightarrow> page_view command" where
  "create_page w title tx =
     attempt (page_by_normalized_title (tx_db tx) (normalize_title (w_ext w) title)) (\<lambda>existing.
     case existing of
       Some page \<Rightarrow> Inr (page, tx)
     | None \<Rightarrow>
         attempt (apply_action w ''create page'' [new_page w (w_object w 0) Note (Some title)] Immediate tx) (\<lambda>tx.
         attempt (read_page (tx_db tx) (w_object w 0) Database) (\<lambda>page. Inr (page, tx))))"

definition create_page_command :: "world \<Rightarrow> string \<Rightarrow> note_store \<Rightarrow> core_error + (page_view committed \<times> note_store)" where
  "create_page_command w title s =
     guard (trim title \<noteq> []) (InvalidInput ''title is required'') (write_store w (create_page w (trim title)) s)"

definition create_page_with_markdown :: "world \<Rightarrow> string \<Rightarrow> string \<Rightarrow> page_view command" where
  "create_page_with_markdown w title markdown tx =
     attempt (page_by_normalized_title (tx_db tx) (normalize_title (w_ext w) title)) (\<lambda>existing.
     case (existing, trim markdown = []) of
       (Some page, True) \<Rightarrow> Inr (page, tx)
     | (_, blank) \<Rightarrow>
         let page = (case existing of Some p \<Rightarrow> pg_uuid p | None \<Rightarrow> w_object w 0);
             created = (if existing = None then [new_page w page Note (Some title)] else [])
         in attempt (if blank then Inr []
                     else attempt (append_root_placement (tx_db tx) page) (\<lambda>(key, moves).
                          Inr (new_root_block w (w_object w 1) page key Paragraph markdown # moves))) (\<lambda>appended.
            attempt (apply_action w ''capture note'' (created @ appended) Immediate tx) (\<lambda>tx.
            attempt (read_page (tx_db tx) page Database) (\<lambda>v. Inr (v, tx)))))"

definition create_page_with_markdown_command ::
  "world \<Rightarrow> string \<Rightarrow> string \<Rightarrow> note_store \<Rightarrow> core_error + (page_view committed \<times> note_store)" where
  "create_page_with_markdown_command w title markdown s =
     guard (trim title \<noteq> []) (InvalidInput ''title is required'')
       (write_store w (create_page_with_markdown w (trim title) markdown) s)"

datatype create_note_result = Created page_view block_view | Existing page_view

definition create_note :: "world \<Rightarrow> string option \<Rightarrow> create_note_result command" where
  "create_note w title tx =
     (let title = clean_title title in
      attempt (case title of
                 None \<Rightarrow> Inr None
               | Some s \<Rightarrow> page_by_normalized_title (tx_db tx) (normalize_title (w_ext w) s)) (\<lambda>existing.
      case existing of
        Some page \<Rightarrow> Inr (Existing page, tx)
      | None \<Rightarrow>
          attempt (apply_action w ''create note''
                     [new_page w (w_object w 0) Note title,
                      new_root_block w (w_object w 1) (w_object w 0) first_key Paragraph []] Immediate tx) (\<lambda>tx.
          attempt (read_page (tx_db tx) (w_object w 0) (NotFound ''created page disappeared'')) (\<lambda>page.
          case get_block (tx_db tx) (w_object w 1) of
            None \<Rightarrow> Inl (NotFound ''created initial block disappeared'')
          | Some b \<Rightarrow> Inr (Created page b, tx)))))"

definition create_handwritten_note :: "world \<Rightarrow> string option \<Rightarrow> page_view command" where
  "create_handwritten_note w title tx =
     attempt (apply_local w [new_page w (w_object w 0) Handwriting (clean_title title)] Immediate tx) (\<lambda>tx.
     attempt (read_page (tx_db tx) (w_object w 0) Database) (\<lambda>page. Inr (page, tx)))"

section \<open>Changing and deleting pages\<close>

definition rename_page :: "world \<Rightarrow> uuid \<Rightarrow> string option \<Rightarrow> hlc option \<Rightarrow> page_view command" where
  "rename_page w u title expected_revision tx =
     (let title = clean_title title in
      attempt (read_page (tx_db tx) u (NotFound ''page not found'')) (\<lambda>page.
      guard (\<not> is_journal (pg_kind page)) (InvalidInput ''journal page titles are derived from their date'')
      (if pg_title page = title then Inr (page, tx)
       else
         attempt (case expected_revision of
             None \<Rightarrow> Inr ()
           | Some expected \<Rightarrow>
               guard (pg_revision page = expected) (Conflict ''page title changed since editing began'')
               (guard (case title of
                    None \<Rightarrow> True
                  | Some s \<Rightarrow>
                      (case resolve_page_alias (tx_db tx) (normalize_title (w_ext w) s) of
                         None \<Rightarrow> True | Some holder \<Rightarrow> holder = u))
                  (Conflict ''another page already owns this title'') (Inr ()))) (\<lambda>_.
         attempt (apply_local w [PageSetTitle \<lparr>pt_uuid = u, pt_title = title\<rparr>] Immediate tx) (\<lambda>tx.
         attempt (read_page (tx_db tx) u Database) (\<lambda>page. Inr (page, tx)))))))"

definition set_page_layout :: "world \<Rightarrow> uuid \<Rightarrow> page_layout \<Rightarrow> page_view command" where
  "set_page_layout w u layout tx =
     attempt (read_page (tx_db tx) u (NotFound ''page not found'')) (\<lambda>page.
     if pg_layout page = layout then Inr (page, tx)
     else
       attempt (apply_local w [PageSetLayout \<lparr>pl_uuid = u, pl_layout = layout\<rparr>] Immediate tx) (\<lambda>tx.
       attempt (read_page (tx_db tx) u Database) (\<lambda>page. Inr (page, tx))))"

text \<open>
  The blocks below the roots of a page with their depths: the recursive query, level by level.
  A level beyond the number of blocks is empty when the placements form a forest.
\<close>

fun tree_levels :: "db \<Rightarrow> nat \<Rightarrow> nat \<Rightarrow> uuid list \<Rightarrow> (nat \<times> uuid) list" where
  "tree_levels d 0 depth level = []"
| "tree_levels d (Suc fuel) depth level =
     (if level = [] then []
      else map (\<lambda>u. (depth, u)) level @
        tree_levels d fuel (Suc depth)
          (concat (map (\<lambda>p. map fst (filter (\<lambda>(_, r). b_parent r = Some p) (rows (blocks d)))) level)))"

definition page_tree :: "db \<Rightarrow> uuid \<Rightarrow> (nat \<times> uuid) list" where
  "page_tree d page =
     tree_levels d (Suc (length (keys (blocks d)))) 0
       (map fst (filter (\<lambda>(_, r). b_page r = page \<and> b_parent r = None) (rows (blocks d))))"

text \<open>\<open>ORDER BY tree.depth DESC, blocks.order_key, blocks.uuid\<close>: children before their parents.\<close>

definition blocks_bottom_up :: "db \<Rightarrow> uuid \<Rightarrow> block_view list" where
  "blocks_bottom_up d page =
     map snd (sort_key (\<lambda>(depth, b). (- int depth, bk_order b, bk_uuid b))
       (List.map_filter (\<lambda>(depth, u). map_option (\<lambda>b. (depth, b)) (get_block d u)) (page_tree d page)))"

record attachment_view =
  at_uuid :: uuid
  at_owner :: attachment_owner
  at_hash :: blob_hash
  at_filename :: string
  at_mime :: string
  at_size :: int
  at_created :: int

definition row_to_attachment :: "uuid \<times> attachment_row \<Rightarrow> core_error + attachment_view" where
  "row_to_attachment row =
     (case row of (u, r) \<Rightarrow>
        guard (0 \<le> a_size r) Database
          (Inr \<lparr>at_uuid = u, at_owner = a_owner r, at_hash = a_hash r, at_filename = a_filename r,
                at_mime = a_mime r, at_size = a_size r, at_created = a_created r\<rparr>))"

definition owned_by_page :: "db \<Rightarrow> uuid \<Rightarrow> attachment_owner \<Rightarrow> bool" where
  "owned_by_page d page holder =
     (case holder of
        PageOwner u \<Rightarrow> u = page
      | BlockOwner u \<Rightarrow> (case get (blocks d) u of None \<Rightarrow> False | Some r \<Rightarrow> b_page r = page))"

definition attachments_where :: "db \<Rightarrow> (attachment_owner \<Rightarrow> bool) \<Rightarrow> core_error + attachment_view list" where
  "attachments_where d chosen =
     map_res row_to_attachment
       (sort_key (\<lambda>(u, r). (a_created r, u)) (filter (\<lambda>(_, r). chosen (a_owner r)) (rows (attachments d))))"

record deleted_page =
  dp_blocks :: "uuid list"
  dp_attachments :: "attachment_view list"
  dp_operations :: "op_kind list"

definition page_removals :: "uuid \<Rightarrow> block_view list \<Rightarrow> attachment_view list \<Rightarrow> op_kind list" where
  "page_removals page bs files =
     map (\<lambda>a. AttachmentRemove \<lparr>ar_owner = at_owner a, ar_blob_hash = at_hash a\<rparr>) files @
     map (\<lambda>b. BlockDelete \<lparr>bd_uuid = bk_uuid b, bd_page_uuid = bk_page b\<rparr>) bs @ [PageDelete \<lparr>pd_uuid = page\<rparr>]"

definition delete_page :: "world \<Rightarrow> uuid \<Rightarrow> deleted_page option command" where
  "delete_page w u tx =
     (if \<not> has (pages (tx_db tx)) u then Inr (None, tx)
      else
        let bs = blocks_bottom_up (tx_db tx) u in
        attempt (attachments_where (tx_db tx) (owned_by_page (tx_db tx) u)) (\<lambda>files.
        let kinds = page_removals u bs files in
        attempt (apply_action w ''delete page'' kinds Immediate tx) (\<lambda>tx.
        Inr (Some \<lparr>dp_blocks = map bk_uuid bs, dp_attachments = files, dp_operations = kinds\<rparr>, tx))))"

section \<open>Journals\<close>

definition journal_limit_max :: nat where
  "journal_limit_max = 200"

definition journal_list_limit :: "nat \<Rightarrow> core_error + nat" where
  "journal_list_limit value =
     guard (1 \<le> value \<and> value \<le> journal_limit_max)
       (InvalidInput ''journal list limit must be between 1 and 200'') (Inr value)"

text \<open>A journal row must read as an untitled journal.\<close>

definition row_to_journal_page :: "db \<Rightarrow> uuid \<Rightarrow> page_row \<Rightarrow> core_error + page_view" where
  "row_to_journal_page d u r =
     attempt (row_to_page d u r) (\<lambda>page.
     guard (is_journal (pg_kind page) \<and> pg_title page = None) Database (Inr page))"

definition get_journal :: "db \<Rightarrow> string \<Rightarrow> core_error + page_view option" where
  "get_journal d date =
     (case filter (\<lambda>(u, _). page_identity d u = Some (Journal date)) (rows (pages d)) of
        [] \<Rightarrow> Inr None
      | (u, r) # _ \<Rightarrow> attempt (row_to_journal_page d u r) (\<lambda>page. Inr (Some page)))"

definition journal_dates :: "db \<Rightarrow> (string \<times> uuid \<times> page_row) list" where
  "journal_dates d =
     List.map_filter (\<lambda>(u, r). case page_identity d u of Some (Journal date) \<Rightarrow> Some (date, u, r) | _ \<Rightarrow> None)
       (rows (pages d))"

text \<open>\<open>ORDER BY journal_date DESC LIMIT\<close>, before a date.\<close>

definition list_journals :: "db \<Rightarrow> string option \<Rightarrow> nat \<Rightarrow> core_error + page_view list" where
  "list_journals d before limit =
     map_res (\<lambda>(_, u, r). row_to_journal_page d u r)
       (take limit (rev (sort_key fst
          (filter (\<lambda>(date, _). case before of None \<Rightarrow> True | Some bound \<Rightarrow> date < bound) (journal_dates d)))))"

definition new_journal :: "world \<Rightarrow> db \<Rightarrow> string \<Rightarrow> op_kind" where
  "new_journal w d date = new_page w (journal_page_uuid (w_ext w) (workspace d) date) (Journal date) None"

definition ensure_journal :: "world \<Rightarrow> string \<Rightarrow> page_view command" where
  "ensure_journal w date tx =
     attempt (get_journal (tx_db tx) date) (\<lambda>existing.
     case existing of
       Some page \<Rightarrow> Inr (page, tx)
     | None \<Rightarrow>
         attempt (apply_action w ''ensure journal'' [new_journal w (tx_db tx) date] Immediate tx) (\<lambda>tx.
         attempt (get_journal (tx_db tx) date) (\<lambda>page.
         case page of None \<Rightarrow> Inl (NotFound ''ensured journal page disappeared'') | Some p \<Rightarrow> Inr (p, tx))))"

definition append_to_journal :: "world \<Rightarrow> string \<Rightarrow> string \<Rightarrow> block_style \<Rightarrow> block_view command" where
  "append_to_journal w date markdown style tx =
     attempt (get_journal (tx_db tx) date) (\<lambda>existing.
     let page = journal_page_uuid (w_ext w) (workspace (tx_db tx)) date;
         created = (if existing = None then [new_journal w (tx_db tx) date] else [])
     in attempt (next_append_order_key (map_option snd (sibling_neighbor (tx_db tx) page None None True None))) (\<lambda>key.
        attempt (apply_action w ''append to journal''
                   (created @ [new_root_block w (w_object w 0) page key style markdown]) Immediate tx) (\<lambda>tx.
        case get_block (tx_db tx) (w_object w 0) of
          None \<Rightarrow> Inl (NotFound ''appended journal block disappeared'')
        | Some b \<Rightarrow> Inr (b, tx))))"

definition append_to_journal_command ::
  "world \<Rightarrow> string \<Rightarrow> string \<Rightarrow> block_style \<Rightarrow> note_store \<Rightarrow> core_error + (block_view committed \<times> note_store)" where
  "append_to_journal_command w date markdown style s =
     guard (trim markdown \<noteq> []) (InvalidInput ''journal capture cannot be blank'')
       (write_store w (append_to_journal w date markdown style) s)"

section \<open>Attachments\<close>

definition owner_exists :: "db \<Rightarrow> attachment_owner \<Rightarrow> bool" where
  "owner_exists d holder =
     (case holder of PageOwner u \<Rightarrow> has (pages d) u | BlockOwner u \<Rightarrow> has (blocks d) u)"

definition list_attachments :: "db \<Rightarrow> attachment_owner \<Rightarrow> core_error + attachment_view list" where
  "list_attachments d holder = attachments_where d (\<lambda>a. a = holder)"

definition create_attachment ::
  "world \<Rightarrow> attachment_owner \<Rightarrow> blob_hash \<Rightarrow> string \<Rightarrow> string \<Rightarrow> 64 word \<Rightarrow> attachment_view command" where
  "create_attachment w holder hash filename mime bytes tx =
     guard (owner_exists (tx_db tx) holder) (NotFound ''attachment owner was not found'')
     (attempt (apply_local w [AttachmentAdd \<lparr>aa_owner = holder, aa_blob_hash = hash, aa_filename = filename,
                                             aa_mime = mime, aa_size = bytes\<rparr>] Immediate tx) (\<lambda>tx.
      case filter (\<lambda>(_, r). a_hash r = hash \<and> owner_uuid (a_owner r) = owner_uuid holder) (rows (attachments (tx_db tx))) of
        [] \<Rightarrow> Inl Database
      | row # _ \<Rightarrow> attempt (row_to_attachment row) (\<lambda>a. Inr (a, tx))))"

definition delete_attachment :: "world \<Rightarrow> uuid \<Rightarrow> attachment_view option command" where
  "delete_attachment w u tx =
     (case get (attachments (tx_db tx)) u of
        None \<Rightarrow> Inr (None, tx)
      | Some r \<Rightarrow>
          attempt (row_to_attachment (u, r)) (\<lambda>a.
          attempt (apply_local w [AttachmentRemove \<lparr>ar_owner = at_owner a, ar_blob_hash = at_hash a\<rparr>] Immediate tx) (\<lambda>tx.
          Inr (Some a, tx))))"

end
