(* ===== verification/Document.thy ===== *)
theory Document
  imports Outliner
begin

text \<open>
  The continuous document of a page (\<open>crates/notes-core/src/db/document.rs\<close>): its revision, the
  preorder in which its blocks are read, the checks on a replacement, and the plan of
  operations that turns the current document into the desired one.
\<close>

section \<open>Reading a document\<close>

record revision_block =
  rv_block :: block_view
  rv_markdown :: "hlc option"
  rv_style :: "hlc option"
  rv_structure :: "hlc option"
  rv_existence :: hlc

abbreviation rv_uuid :: "revision_block \<Rightarrow> uuid" where
  "rv_uuid r \<equiv> bk_uuid (rv_block r)"

definition row_to_revision_block :: "uuid \<Rightarrow> block_row \<Rightarrow> revision_block" where
  "row_to_revision_block u r =
     \<lparr>rv_block = row_to_block u r, rv_markdown = b_markdown_hlc r, rv_style = b_style_hlc r,
      rv_structure = b_structure_hlc r, rv_existence = b_existence r\<rparr>"

definition children_in :: "revision_block list \<Rightarrow> uuid option \<Rightarrow> uuid list" where
  "children_in rs parent = map rv_uuid (filter (\<lambda>r. bk_parent (rv_block r) = parent) rs)"

text \<open>The loop over the stack; the top of the stack is the head of the list.\<close>

definition take_row :: "uuid \<Rightarrow> revision_block list \<Rightarrow> (revision_block \<times> revision_block list) option" where
  "take_row u remaining =
     (case filter (\<lambda>r. rv_uuid r = u) remaining of
        [] \<Rightarrow> None
      | r # _ \<Rightarrow> Some (r, filter (\<lambda>r. rv_uuid r \<noteq> u) remaining))"

lemma take_row_shrinks: "take_row u remaining = Some (r, rest) \<Longrightarrow> length rest < length remaining"
  by (auto simp: take_row_def filter_eq_Cons_iff split: list.splits)
    (metis (mono_tags, lifting) le_imp_less_Suc length_filter_le length_append add_le_mono le_SucI)

function walk ::
  "revision_block list \<Rightarrow> revision_block list \<Rightarrow> uuid list \<Rightarrow> revision_block list \<Rightarrow>
     core_error + (revision_block list \<times> revision_block list)" where
  "walk rs remaining [] ordered = Inr (remaining, ordered)"
| "walk rs remaining (u # stack) ordered =
     (case take_row u remaining of
        None \<Rightarrow> Inl (Conflict ''page document contains a repeated structural membership'')
      | Some (r, rest) \<Rightarrow> walk rs rest (children_in rs (Some u) @ stack) (ordered @ [r]))"
  by pat_completeness auto
termination
  by (relation "measure (\<lambda>(rs, remaining, stack, ordered). length remaining)") (auto dest: take_row_shrinks)

definition deterministic_preorder :: "revision_block list \<Rightarrow> core_error + revision_block list" where
  "deterministic_preorder rs =
     guard (distinct (map rv_uuid rs)) (Conflict ''page document contains a duplicate block UUID'')
     (attempt (walk rs rs (children_in rs None) []) (\<lambda>(remaining, ordered).
      guard (remaining = []) (Conflict ''page document contains an orphaned or cyclic block structure'')
        (Inr ordered)))"

section \<open>The revision\<close>

text \<open>\<open>Sha256\<close> is a parameter; what is fed to it is not.\<close>

definition be_bytes :: "nat \<Rightarrow> nat \<Rightarrow> 8 word list" where
  "be_bytes n v = map (\<lambda>i. of_nat (v div 256 ^ i)) (rev [0..<n])"

definition text_bytes :: "string \<Rightarrow> 8 word list" where
  "text_bytes s = map (\<lambda>c. of_nat (byte c)) s"

definition uuid_bytes :: "uuid \<Rightarrow> 8 word list" where
  "uuid_bytes u = be_bytes 16 (unat u)"

definition digest_field :: "8 word list \<Rightarrow> 8 word list" where
  "digest_field value = be_bytes 8 (length value) @ value"

definition digest_optional_uuid :: "uuid option \<Rightarrow> 8 word list" where
  "digest_optional_uuid v =
     (case v of None \<Rightarrow> digest_field [0] | Some u \<Rightarrow> digest_field [1] @ digest_field (uuid_bytes u))"

definition hlc_bytes :: "hlc \<Rightarrow> 8 word list" where
  "hlc_bytes t = text_bytes (hlc_to_string simple_hex t)"

definition digest_optional_hlc :: "hlc option \<Rightarrow> 8 word list" where
  "digest_optional_hlc v =
     (case v of None \<Rightarrow> digest_field [0] | Some t \<Rightarrow> digest_field [1] @ digest_field (hlc_bytes t))"

definition digest_row :: "revision_block \<Rightarrow> 8 word list" where
  "digest_row r =
     (let b = rv_block r in
      digest_field (uuid_bytes (bk_uuid b)) @ digest_field (uuid_bytes (bk_page b)) @
      digest_optional_uuid (bk_parent b) @ digest_field (text_bytes (key_text (bk_order b))) @
      digest_field (text_bytes (storage_value (bk_style b))) @ digest_field (text_bytes (bk_markdown b)) @
      digest_optional_hlc (rv_markdown r) @ digest_optional_hlc (rv_style r) @ digest_optional_hlc (rv_structure r) @
      digest_field (hlc_bytes (rv_existence r)))"

definition document_revision_domain :: string where
  "document_revision_domain = ''tangleaf/page-document/v1''"

definition digest_stream :: "uuid \<Rightarrow> hlc \<Rightarrow> revision_block list \<Rightarrow> 8 word list" where
  "digest_stream page generation rs =
     digest_field (text_bytes document_revision_domain) @ digest_field (uuid_bytes page) @
     digest_field (hlc_bytes generation) @ digest_field (be_bytes 8 (length rs)) @ concat (map digest_row rs)"

type_synonym hasher = "8 word list \<Rightarrow> 8 word list"

definition document_revision :: "hasher \<Rightarrow> uuid \<Rightarrow> hlc \<Rightarrow> revision_block list \<Rightarrow> string" where
  "document_revision sha256 page generation rs = revision_of_digest (sha256 (digest_stream page generation rs))"

record document_snapshot =
  ds_page :: uuid
  ds_revision :: string
  ds_blocks :: "block_view list"

definition document_rows :: "db \<Rightarrow> uuid \<Rightarrow> revision_block list" where
  "document_rows d page =
     map (\<lambda>(u, r). row_to_revision_block u r)
       (sort_key (\<lambda>(u, r). (b_order r, u)) (filter (\<lambda>(_, r). b_page r = page) (rows (blocks d))))"

definition read_page_document :: "hasher \<Rightarrow> db \<Rightarrow> uuid \<Rightarrow> core_error + document_snapshot option" where
  "read_page_document sha256 d page =
     (case get (pages d) page of
        None \<Rightarrow> Inr None
      | Some p \<Rightarrow>
          attempt (deterministic_preorder (document_rows d page)) (\<lambda>rs.
          Inr (Some \<lparr>ds_page = page, ds_revision = document_revision sha256 page (p_existence p) rs,
                     ds_blocks = map rv_block rs\<rparr>)))"

section \<open>The desired document\<close>

record document_unit =
  un_previous :: "uuid option"
  un_parent :: "nat option"
  un_style :: block_style
  un_markdown :: string

definition max_document_units :: nat where "max_document_units = 20000"
definition max_document_markdown_bytes :: nat where "max_document_markdown_bytes = 16 * 1024 * 1024"
definition max_document_depth :: nat where "max_document_depth = 128"

record unit_scan =
  us_bytes :: nat
  us_depths :: "nat list"
  us_previous :: "uuid list"

definition unit_depth :: "nat list \<Rightarrow> nat option \<Rightarrow> core_error + nat" where
  "unit_depth depths parent =
     (case parent of
        None \<Rightarrow> Inr 1
      | Some i \<Rightarrow>
          guard (i < length depths) (InvalidInput ''document parent index must reference an earlier unit'')
            (Inr (depths ! i + 1)))"

definition validate_unit :: "db \<Rightarrow> uuid \<Rightarrow> uuid list \<Rightarrow> document_unit \<Rightarrow> unit_scan \<Rightarrow> core_error + unit_scan" where
  "validate_unit d page current u s =
     (let total_bytes = us_bytes s + length (un_markdown u) in
      guard (total_bytes \<le> max_document_markdown_bytes)
        (InvalidInput ''page document exceeds the byte Markdown limit'')
      (attempt (unit_depth (us_depths s) (un_parent u)) (\<lambda>depth.
       guard (depth \<le> max_document_depth) (InvalidInput ''page document exceeds the level depth limit'')
       (let s' = s\<lparr>us_bytes := total_bytes, us_depths := us_depths s @ [depth]\<rparr> in
        case un_previous u of
          None \<Rightarrow> Inr s'
        | Some previous \<Rightarrow>
            guard (previous \<notin> set (us_previous s)) (InvalidInput ''document contains a duplicate previous block UUID'')
            (if previous \<in> set current then Inr (s'\<lparr>us_previous := previous # us_previous s\<rparr>)
             else
               (case get (blocks d) previous of
                  Some r \<Rightarrow>
                    if b_page r \<noteq> page
                    then Inl (InvalidInput ''document previous block belongs to a different page'')
                    else Inl (InvalidInput ''document previous block is not current on this page'')
                | None \<Rightarrow> Inl (InvalidInput ''document previous block is not current on this page'')))))))"

definition validate_document_units ::
  "db \<Rightarrow> uuid \<Rightarrow> document_snapshot \<Rightarrow> document_unit list \<Rightarrow> core_error + unit" where
  "validate_document_units d page current us =
     guard (length us \<le> max_document_units) (InvalidInput ''page document exceeds the unit limit'')
     (attempt (fold_res (validate_unit d page (map bk_uuid (ds_blocks current))) us
                 \<lparr>us_bytes = 0, us_depths = [], us_previous = []\<rparr>) (\<lambda>_. Inr ()))"

section \<open>The plan\<close>

record desired_unit =
  du_uuid :: uuid
  du_parent :: "uuid option"
  du_order :: "order_key option"
  du_style :: block_style
  du_markdown :: string
  du_existing :: bool

text \<open>The key of a unit; \<open>expect\<close> in the code, as every unit has received one by then.\<close>

definition du_key :: "desired_unit \<Rightarrow> order_key" where
  "du_key u = (case du_order u of Some k \<Rightarrow> k | None \<Rightarrow> first_key)"

definition current_block :: "document_snapshot \<Rightarrow> uuid \<Rightarrow> block_view option" where
  "current_block current u = map_of (map (\<lambda>b. (bk_uuid b, b)) (ds_blocks current)) u"

definition assigned_uuids :: "(nat \<Rightarrow> uuid) \<Rightarrow> document_unit list \<Rightarrow> uuid list" where
  "assigned_uuids fresh us =
     map (\<lambda>(i, u). case un_previous u of Some v \<Rightarrow> v | None \<Rightarrow> fresh i) (enumerate 0 us)"

definition desired_units :: "(nat \<Rightarrow> uuid) \<Rightarrow> document_snapshot \<Rightarrow> document_unit list \<Rightarrow> desired_unit list" where
  "desired_units fresh current us =
     (let assigned = assigned_uuids fresh us in
      map (\<lambda>(u, v).
        \<lparr>du_uuid = v, du_parent = map_option (\<lambda>i. assigned ! i) (un_parent u), du_order = None,
         du_style = un_style u, du_markdown = un_markdown u,
         du_existing = (current_block current v \<noteq> None)\<rparr>) (zip us assigned))"

text \<open>
  \<open>fill_order_key_gaps\<close>: each run of missing keys is filled between its neighbours; \<open>None\<close> when
  a gap is too small.
\<close>

function fill_gaps :: "order_key option \<Rightarrow> order_key option list \<Rightarrow> order_key list option" where
  "fill_gaps lower [] = Some []"
| "fill_gaps lower (Some k # ks) = map_option ((#) k) (fill_gaps (Some k) ks)"
| "fill_gaps lower (None # ks) =
     (let missing = length (takeWhile (\<lambda>k. k = None) ks) + 1;
          rest = dropWhile (\<lambda>k. k = None) ks;
          upper = (case rest of [] \<Rightarrow> None | k # _ \<Rightarrow> k)
      in case keys_between lower upper missing of
           None \<Rightarrow> None
         | Some filled \<Rightarrow> map_option ((@) filled) (fill_gaps (Some (last filled)) rest))"
  by pat_completeness auto
termination
  by (relation "measure (\<lambda>(lower, ks). length ks)") (auto simp: length_dropWhile_le le_imp_less_Suc)

definition group_keys :: "order_key option list \<Rightarrow> order_key list" where
  "group_keys ks =
     (case fill_gaps None ks of
        Some filled \<Rightarrow> filled
      | None \<Rightarrow> map (\<lambda>ordinal. key_from_ordinal (of_nat (ordinal + 1))) [0..<length ks])"

text \<open>Units whose parent stays keep their keys when their order stays.\<close>

definition group_anchors :: "document_snapshot \<Rightarrow> uuid option \<Rightarrow> uuid list \<Rightarrow> order_key option list" where
  "group_anchors current parent us =
     (let stable = filter (\<lambda>u. case current_block current u of
                               None \<Rightarrow> False | Some b \<Rightarrow> bk_parent b = parent) us;
          current_order = map bk_uuid (filter (\<lambda>b. bk_parent b = parent \<and> bk_uuid b \<in> set stable) (ds_blocks current))
      in if stable = current_order
         then map (\<lambda>u. if u \<in> set stable then map_option bk_order (current_block current u) else None) us
         else map (\<lambda>_. None) us)"

definition group_indices :: "desired_unit list \<Rightarrow> uuid option \<Rightarrow> nat list" where
  "group_indices ds parent = filter (\<lambda>i. du_parent (ds ! i) = parent) [0..<length ds]"

definition assign_group :: "document_snapshot \<Rightarrow> uuid option \<Rightarrow> desired_unit list \<Rightarrow> desired_unit list" where
  "assign_group current parent ds =
     (let indices = group_indices ds parent;
          allocated = group_keys (group_anchors current parent (map (\<lambda>i. du_uuid (ds ! i)) indices))
      in fold (\<lambda>(i, k) ds. ds[i := (ds ! i)\<lparr>du_order := Some k\<rparr>]) (zip indices allocated) ds)"

text \<open>The groups are disjoint, so the order in which the map yields them does not matter.\<close>

definition assign_desired_order_keys :: "document_snapshot \<Rightarrow> desired_unit list \<Rightarrow> desired_unit list" where
  "assign_desired_order_keys current ds =
     fold (assign_group current) (remdups (map du_parent ds)) ds"

definition plan_creates :: "int \<Rightarrow> uuid \<Rightarrow> desired_unit list \<Rightarrow> op_kind list" where
  "plan_creates now page ds =
     map (\<lambda>u. BlockCreate \<lparr>bc_uuid = du_uuid u, bc_page_uuid = page, bc_parent_uuid = du_parent u,
                           bc_order_key = du_key u, bc_style = du_style u, bc_markdown = du_markdown u,
                           bc_created_at = now\<rparr>)
       (filter (\<lambda>u. \<not> du_existing u) ds)"

text \<open>The units that keep a block, each with the block it keeps.\<close>

definition retained_units :: "document_snapshot \<Rightarrow> desired_unit list \<Rightarrow> (desired_unit \<times> block_view) list" where
  "retained_units current ds =
     List.map_filter (\<lambda>u. map_option (\<lambda>b. (u, b)) (current_block current (du_uuid u))) (filter du_existing ds)"

definition plan_edits :: "(desired_unit \<times> block_view) list \<Rightarrow> op_kind list" where
  "plan_edits kept =
     concat (map (\<lambda>(u, b).
       (if bk_markdown b \<noteq> du_markdown u
        then [BlockSetMarkdown \<lparr>bm_uuid = du_uuid u, bm_markdown = du_markdown u\<rparr>] else []) @
       (if bk_style b \<noteq> du_style u
        then [BlockSetStyle \<lparr>bs_uuid = du_uuid u, bs_style = du_style u\<rparr>] else [])) kept)"

definition plan_moves :: "uuid \<Rightarrow> (desired_unit \<times> block_view) list \<Rightarrow> op_kind list" where
  "plan_moves page kept =
     map (\<lambda>(u, b). BlockMove \<lparr>bv_uuid = du_uuid u, bv_page_uuid = page, bv_parent_uuid = du_parent u,
                             bv_order_key = du_key u\<rparr>)
       (filter (\<lambda>(u, b). bk_parent b \<noteq> du_parent u \<or> bk_order b \<noteq> du_key u) kept)"

definition dropped_blocks :: "document_snapshot \<Rightarrow> desired_unit list \<Rightarrow> block_view list" where
  "dropped_blocks current ds =
     filter (\<lambda>b. bk_uuid b \<notin> du_uuid ` set (filter du_existing ds)) (rev (ds_blocks current))"

definition plan_deletes :: "uuid \<Rightarrow> block_view list \<Rightarrow> op_kind list" where
  "plan_deletes page dropped = map (\<lambda>b. BlockDelete \<lparr>bd_uuid = bk_uuid b, bd_page_uuid = page\<rparr>) dropped"

definition plan_document_replace ::
  "(nat \<Rightarrow> uuid) \<Rightarrow> int \<Rightarrow> uuid \<Rightarrow> document_snapshot \<Rightarrow> document_unit list \<Rightarrow> op_kind list" where
  "plan_document_replace fresh now page current us =
     (let ds = assign_desired_order_keys current (desired_units fresh current us);
          kept = retained_units current ds
      in plan_creates now page ds @ plan_edits kept @ plan_moves page kept @
         plan_deletes page (dropped_blocks current ds))"

section \<open>The command\<close>

definition read_document :: "hasher \<Rightarrow> db \<Rightarrow> uuid \<Rightarrow> string \<Rightarrow> core_error + document_snapshot" where
  "read_document sha256 d page missing =
     attempt (read_page_document sha256 d page) (\<lambda>s. case s of None \<Rightarrow> Inl (NotFound missing) | Some s \<Rightarrow> Inr s)"

text \<open>The snapshot after the edit, and whether anything changed.\<close>

definition replace_page_document ::
  "world \<Rightarrow> hasher \<Rightarrow> uuid \<Rightarrow> string \<Rightarrow> document_unit list \<Rightarrow> (document_snapshot \<times> bool) command" where
  "replace_page_document w sha256 page expected_revision us tx =
     attempt (read_document sha256 (tx_db tx) page ''page was not found'') (\<lambda>current.
     guard (ds_revision current = expected_revision) (Conflict ''page document changed since editing began'')
     (attempt (validate_document_units (tx_db tx) page current us) (\<lambda>_.
      let kinds = plan_document_replace (w_object w) (now_secs (w_env w)) page current us in
      if kinds = [] then Inr ((current, False), tx)
      else
        attempt (apply_action w ''edit document'' kinds Immediate tx) (\<lambda>tx.
        attempt (read_document sha256 (tx_db tx) page ''edited page disappeared'') (\<lambda>s. Inr ((s, True), tx))))))"

end
