(* ===== verification/Clocks.thy ===== *)
theory Clocks
  imports Reachable
begin

text \<open>
  The clocks in the database: applying an operation writes no other clock than its own, so the
  clock of the replica stays above every clock it stores, and an operation that the replica
  authors wins against everything the replica has seen.
\<close>

section \<open>Clocks under a bound\<close>

definition tab_all :: "('v \<Rightarrow> bool) \<Rightarrow> ('k::linorder, 'v) table \<Rightarrow> bool" where
  "tab_all P t \<longleftrightarrow> (\<forall>k v. get t k = Some v \<longrightarrow> P v)"

named_theorems under \<comment> \<open>steps that write no clock above a bound\<close>

lemma tab_allD: "tab_all P t \<Longrightarrow> get t k = Some v \<Longrightarrow> P v"
  by (auto simp: tab_all_def)

lemma tab_all_tempty [simp]: "tab_all P tempty"
  by (simp add: tab_all_def)

lemma tab_all_put [under]: "tab_all P t \<Longrightarrow> P v \<Longrightarrow> tab_all P (put k v t)"
  by (auto simp: tab_all_def)

lemma tab_all_sub [under]: "tab_all P t \<Longrightarrow> tab_all P (del k t)" "tab_all P t \<Longrightarrow> tab_all P (filt Q t)"
  by (auto simp: tab_all_def split: if_splits option.splits)

lemma tab_all_mapv [under]: "tab_all P t \<Longrightarrow> (\<And>k v. get t k = Some v \<Longrightarrow> P v \<Longrightarrow> P (f k v)) \<Longrightarrow> tab_all P (mapv f t)"
  by (auto simp: tab_all_def)

lemma tab_all_upd [under]: "tab_all P t \<Longrightarrow> (\<And>v. get t k = Some v \<Longrightarrow> P v \<Longrightarrow> P (f v)) \<Longrightarrow> tab_all P (upd k f t)"
  by (auto simp: tab_all_def)

lemma tab_all_newer [under]: "tab_all P t \<Longrightarrow> P v \<Longrightarrow> tab_all P (upsert_newer clock k v t)"
  by (auto simp: tab_all_def get_upsert_newer split: option.splits if_splits)

text \<open>
  A clock whose counter is saturated cannot be exceeded by the rules of the clock, so the bound
  is on the others.
\<close>

definition held :: "hlc option \<Rightarrow> hlc \<Rightarrow> bool" where
  "held T t \<longleftrightarrow> (can_tick t \<longrightarrow> Some t \<le> T)"

definition under_opt :: "hlc option \<Rightarrow> hlc option \<Rightarrow> bool" where
  "under_opt T v \<longleftrightarrow> (\<forall>t. v = Some t \<longrightarrow> held T t)"

lemma under_opt_simps [simp]: "under_opt T None" "under_opt T (Some t) \<longleftrightarrow> held T t"
  by (simp_all add: under_opt_def)

definition page_under :: "hlc option \<Rightarrow> page_row \<Rightarrow> bool" where
  "page_under T r \<longleftrightarrow> held T (p_existence r) \<and> under_opt T (p_title_hlc r) \<and> under_opt T (p_layout_hlc r)"

definition block_under :: "hlc option \<Rightarrow> block_row \<Rightarrow> bool" where
  "block_under T r \<longleftrightarrow> held T (b_existence r) \<and> under_opt T (b_markdown_hlc r) \<and> under_opt T (b_style_hlc r) \<and>
     under_opt T (b_structure_hlc r)"

definition below :: "hlc option \<Rightarrow> db \<Rightarrow> bool" where
  "below T d \<longleftrightarrow> tab_all (page_under T) (pages d) \<and> tab_all (block_under T) (blocks d) \<and>
     tab_all (\<lambda>r. held T (t_hlc r)) (tombstones d) \<and> tab_all (\<lambda>i. held T (i_hlc i)) (intents d) \<and>
     tab_all (\<lambda>r. held T (al_hlc r)) (aliases d) \<and> tab_all (\<lambda>r. held T (w_hlc r)) (attachment_lww d)"

lemma below_mono: "below T d \<Longrightarrow> T \<le> T' \<Longrightarrow> below T' d"
proof -
  assume "below T d" and "T \<le> T'"
  moreover have "held T t \<Longrightarrow> held T' t" for t using \<open>T \<le> T'\<close> by (auto simp: held_def)
  ultimately show "below T' d"
    unfolding below_def tab_all_def page_under_def block_under_def under_opt_def by blast
qed

lemma below_frame [simp]:
  "below T (d\<lparr>identities := a\<rparr>) = below T d" "below T (d\<lparr>journal_pages := b\<rparr>) = below T d"
  "below T (d\<lparr>attachments := c\<rparr>) = below T d" "below T (d\<lparr>page_links := e\<rparr>) = below T d"
  "below T (d\<lparr>block_refs := f\<rparr>) = below T d" "below T (d\<lparr>outbox := g\<rparr>) = below T d"
  "below T (d\<lparr>applied_ops := h\<rparr>) = below T d" "below T (d\<lparr>last_hlc := i\<rparr>) = below T d"
  "below T (d\<lparr>last_server_seq := j\<rparr>) = below T d" "below T (d\<lparr>server_url := k\<rparr>) = below T d"
  "below T (d\<lparr>stored_role := l\<rparr>) = below T d" "below T (d\<lparr>bound_workspace := m\<rparr>) = below T d"
  "below T (d\<lparr>local_device := n\<rparr>) = below T d" "below T (d\<lparr>structure_version := p\<rparr>) = below T d"
  "below T (d\<lparr>ink := q\<rparr>) = below T d"
  by (simp_all add: below_def)

lemma below_tables:
  "below T (d\<lparr>pages := ps\<rparr>) \<longleftrightarrow> below T (d\<lparr>pages := tempty\<rparr>) \<and> tab_all (page_under T) ps"
  "below T (d\<lparr>blocks := bs\<rparr>) \<longleftrightarrow> below T (d\<lparr>blocks := tempty\<rparr>) \<and> tab_all (block_under T) bs"
  by (auto simp: below_def)

lemma belowD:
  assumes "below T d"
  shows "tab_all (page_under T) (pages d)" "tab_all (block_under T) (blocks d)"
    "tab_all (\<lambda>r. held T (t_hlc r)) (tombstones d)" "tab_all (\<lambda>i. held T (i_hlc i)) (intents d)"
    "tab_all (\<lambda>r. held T (al_hlc r)) (aliases d)" "tab_all (\<lambda>r. held T (w_hlc r)) (attachment_lww d)"
  using assms by (simp_all add: below_def)

lemma below_updates [under]:
  "below T d \<Longrightarrow> tab_all (page_under T) ps \<Longrightarrow> below T (d\<lparr>pages := ps\<rparr>)"
  "below T d \<Longrightarrow> tab_all (block_under T) bs \<Longrightarrow> below T (d\<lparr>blocks := bs\<rparr>)"
  "below T d \<Longrightarrow> tab_all (\<lambda>r. held T (t_hlc r)) ts \<Longrightarrow> below T (d\<lparr>tombstones := ts\<rparr>)"
  "below T d \<Longrightarrow> tab_all (\<lambda>i. held T (i_hlc i)) is \<Longrightarrow> below T (d\<lparr>intents := is\<rparr>)"
  "below T d \<Longrightarrow> tab_all (\<lambda>r. held T (al_hlc r)) as \<Longrightarrow> below T (d\<lparr>aliases := as\<rparr>)"
  "below T d \<Longrightarrow> tab_all (\<lambda>r. held T (w_hlc r)) ws \<Longrightarrow> below T (d\<lparr>attachment_lww := ws\<rparr>)"
  by (simp_all add: below_def)

lemma below_row:
  assumes "below T d"
  shows "get (pages d) u = Some r \<Longrightarrow> held T (p_existence r)" "get (pages d) u = Some r \<Longrightarrow> under_opt T (p_title_hlc r)"
    "get (pages d) u = Some r \<Longrightarrow> under_opt T (p_layout_hlc r)" "get (blocks d) u = Some b \<Longrightarrow> held T (b_existence b)"
    "get (blocks d) u = Some b \<Longrightarrow> under_opt T (b_markdown_hlc b)" "get (blocks d) u = Some b \<Longrightarrow> under_opt T (b_style_hlc b)"
    "get (blocks d) u = Some b \<Longrightarrow> under_opt T (b_structure_hlc b)" "get (tombstones d) u = Some x \<Longrightarrow> held T (t_hlc x)"
  using assms by (auto simp: below_def tab_all_def page_under_def block_under_def)

section \<open>The writers\<close>

lemma below_delete_block [under]: "below T d \<Longrightarrow> below T (delete_block u d)"
  by (auto simp: delete_block_def block_under_def intro!: under dest: belowD)

lemma below_delete_page [under]: "below T d \<Longrightarrow> below T (delete_page u d)"
  by (auto simp: delete_page_def Let_def block_under_def intro!: under dest: belowD split: option.split)

lemma below_lww [under]:
  "below T d \<Longrightarrow> held T t \<Longrightarrow> below T (write_tombstone u k root t d)"
  "below T d \<Longrightarrow> held T t \<Longrightarrow> below T (write_structure_intent u p q key t d)"
  "below T d \<Longrightarrow> held T t \<Longrightarrow> below T (write_alias p a t b d)"
  "below T d \<Longrightarrow> held T (sa_hlc x) \<Longrightarrow> below T (write_attachment_intent x d)"
  by (auto simp: write_tombstone_def write_structure_intent_def write_alias_def write_attachment_intent_def
      attachment_lww_of_def intro!: under dest: belowD)

lemma below_forget [under]: "below T d \<Longrightarrow> below T (d\<lparr>intents := del b (intents d)\<rparr>)"
  by (auto intro!: under dest: belowD)

lemma resolved_hlc:
  assumes "get (resolve_structure (structure_input_for mode seeds d)) u = Some i"
  shows "\<exists>j. get (intents d) u = Some j \<and> i_hlc i = i_hlc j"
proof -
  obtain j where "get (retain_usable (structure_input_for mode seeds d)) u = Some j" "i_hlc i = i_hlc j"
    using assms by (auto simp: resolve_rows split: if_splits)
  then have "get (in_intents (structure_input_for mode seeds d)) u = Some j" by (auto simp: retain_usable_def split: if_splits option.splits)
  then have "get (intents d) u = Some j"
    by (cases mode) (auto simp: structure_input_for_def load_full_structure_def get_load_components split: if_splits)
  with \<open>i_hlc i = i_hlc j\<close> show ?thesis by auto
qed

lemma below_reconcile [under]: "below T d \<Longrightarrow> below T (reconcile_structure mode seeds d)"
proof -
  assume b: "below T d"
  have "block_under T (materialize i r)"
    if "get (resolve_structure (structure_input_for mode seeds d)) u = Some i" "block_under T r" for u i r
    using resolved_hlc [OF that(1)] that(2) tab_allD [OF belowD(4) [OF b]]
    by (auto simp: block_under_def materialize_def)
  with b show ?thesis
    by (auto simp: reconcile_place place_def intro!: under dest: belowD split: option.split)
qed

lemma below_rows [under]:
  "below T d \<Longrightarrow> below T (promote_tombstones p t d)" if "held T t" for t
  using that by (auto simp: promote_tombstones_def intro!: under dest: belowD)

lemma below_older [under]: "below T d \<Longrightarrow> below T (drop_older_tombstone u t d)"
  by (auto simp: drop_older_tombstone_def intro!: under dest: belowD)

lemma below_touch [under]: "below T d \<Longrightarrow> below T (touch_block_updated u t d)"
  by (auto simp: touch_block_updated_def block_under_def intro!: under dest: belowD)

lemma below_upserts [under]:
  "below T d \<Longrightarrow> held T t \<Longrightarrow> below T (upsert_page p t d)"
  "below T d \<Longrightarrow> held T t \<Longrightarrow> below T (upsert_block ext q t d)"
  "below T d \<Longrightarrow> held T t \<Longrightarrow> below T (apply_page_layout u l t d)"
  "below T d \<Longrightarrow> held T t \<Longrightarrow> below T (apply_block_style u s t d)"
  by (auto simp: upsert_page_def upsert_block_def apply_page_layout_def apply_block_style_def Let_def
      page_under_def block_under_def intro!: under dest: belowD intro: below_row split: option.split)

lemma below_refs [under]: "below T d \<Longrightarrow> below T (replace_block_refs ext u m n d)"
  "below T d \<Longrightarrow> below T (reconcile_page_links_for_alias al d)"
  by (simp_all add: replace_block_refs_def reconcile_page_links_for_alias_def Let_def split: prod.split)

lemma below_fold: "(\<And>x d. below T d \<Longrightarrow> below T (f x d)) \<Longrightarrow> below T d \<Longrightarrow> below T (fold f xs d)"
  by (induction xs arbitrary: d) auto


text \<open>States, as the handlers pass them.\<close>

lemma below_on_db [under]: "(below T (snd st) \<Longrightarrow> below T (f (snd st))) \<Longrightarrow> below T (snd st) \<Longrightarrow> below T (snd (on_db f st))"
  by simp

lemma below_steps [under]:
  "below T (snd st) \<Longrightarrow> below T (snd (project_structure st))"
  "below T (snd st) \<Longrightarrow> below T (snd (request_structure st))"
  "below T (snd st) \<Longrightarrow> below T (snd (ensure_structure_current st))"
  "below T (snd st) \<Longrightarrow> below T (snd (request_page_links a st))"
  "below T (snd st) \<Longrightarrow> below T (snd (request_block_refs ext u m n st))"
  by (auto simp: project_structure_def request_structure_def ensure_structure_current_def
      request_page_links_def request_block_refs_def intro: under split: prod.split)

lemma below_touches [simp]:
  "snd (touch_structure_block u p st) = snd st" "snd (touch_structure_page q st) = snd st"
  "snd (deleting_structure_block u st) = snd st" "snd (discard_block_refs u st) = snd st"
  "snd (fold discard_block_refs us st) = snd st"
  by (simp_all add: touch_structure_block_def touch_structure_page_def deleting_structure_block_def seed_with_def
      discard_block_refs_def fold_discard split: prod.split)

lemma below_fold_state: "(\<And>x st. below T (snd st) \<Longrightarrow> below T (snd (f x st))) \<Longrightarrow> below T (snd st) \<Longrightarrow> below T (snd (fold f xs st))"
  by (induction xs arbitrary: st) auto

lemma below_folds [under]:
  "below T (snd st) \<Longrightarrow> below T (snd (fold request_page_links as st))"
  "below T (snd st) \<Longrightarrow> held T t \<Longrightarrow> below T (snd (fold (drop_stale_block p t) bs st))"
  "below T (snd st) \<Longrightarrow> held T t \<Longrightarrow> below T (snd (fold (delete_page_block p t) bs st))"
  by (rule below_fold_state, auto simp: drop_stale_block_def delete_page_block_def intro!: under)+

lemma below_title [under]:
  assumes b: "below T (snd st)" and t: "held T t"
  shows "below T (snd (apply_page_title ext u title t st))"
proof -
  have pages: "below T (snd (on_db (\<lambda>d. d\<lparr>pages := f (pages d)\<rparr>) st))"
    if "tab_all (page_under T) (f (pages (snd st)))" for f
    using b that by (auto intro: under)
  have p: "tab_all (page_under T) (pages (snd st))" using b by (rule belowD)
  show ?thesis
    unfolding apply_page_title_def Let_def
    using b t p by (auto simp: set_title_def clear_title_def page_under_def simp del: on_db_simps
        intro!: under pages split: option.split)
qed

lemma below_markdown [under]:
  assumes b: "below T (snd st)" and t: "held T t"
  shows "below T (snd (apply_block_markdown ext u md t st))"
proof (cases st)
  case (Pair e d)
  with b have d: "below T d" by simp
  have "below T (d\<lparr>blocks := put u (r\<lparr>b_markdown := md, b_stemmed := stem ext md, b_markdown_hlc := Some t,
      b_updated := n\<rparr>) (blocks d)\<rparr>)" if "get (blocks d) u = Some r" for r n
    using d t below_row(4-7) [OF d that] by (auto simp: block_under_def intro!: under belowD)
  then show ?thesis
    using d by (auto simp: apply_block_markdown_def Pair Let_def intro!: under split: option.split)
qed

lemma below_finish [under]: "below T (snd st) \<Longrightarrow> below T (snd (finish_projections ext st))"
  by (auto simp: finish_projections_def intro!: below_fold under split: prod.split dest: below_steps(3))

section \<open>Operations\<close>

lemma below_identity: "ensure_page_identity ext p k d = Inr d' \<Longrightarrow> below T d \<Longrightarrow> below T d'"
  by (drule ensure_identity_frame) auto

lemma below_materialize: "materialize_page_kind p k d = Inr d' \<Longrightarrow> below T d \<Longrightarrow> below T d'"
  by (drule materialize_frame) auto

lemma below_attachments:
  "reconcile_attachment k d = Inr d' \<Longrightarrow> below T d \<Longrightarrow> below T d'"
  "reconcile_attachments_for_owner w d = Inr d' \<Longrightarrow> below T d \<Longrightarrow> below T d'"
  by (auto dest!: reconcile_attachment_frame reconcile_owner_frame)

lemma below_version: "apply_version ext v d = Inr d' \<Longrightarrow> below T d \<Longrightarrow> below T d'"
  by (auto simp: apply_version_def Let_def res page_under_def intro!: under belowD dest!: below_identity split: option.splits)

lemma below_journal_floor:
  assumes "below T d" and "held T t"
  shows "below T (d\<lparr>pages := upd u (lower_journal_floor t c) (pages d)\<rparr>)"
  using assms by (auto simp: lower_journal_floor_def Let_def page_under_def intro!: under belowD)

lemma below_generation:
  assumes "create_page_generation ext t p st = Inr (us, st')" and "below T (snd st)" and t: "held T t"
  shows "below T (snd st')"
  using assms unfolding create_page_generation_def Let_def
  by (auto simp: res dest!: below_materialize below_attachments intro!: under simp del: on_db_simps split: if_splits)

lemma below_handlers:
  assumes "held T (op_hlc x)" and b: "below T (snd st)"
  shows "apply_ink_publish ext x p1 st = Inr (us, st') \<Longrightarrow> below T (snd st')"
    "apply_page_create ext x p2 st = Inr (us, st') \<Longrightarrow> below T (snd st')"
    "apply_page_alias_set x p3 st = Inr (us, st') \<Longrightarrow> below T (snd st')"
    "apply_page_set_title ext x p4 st = Inr (us, st') \<Longrightarrow> below T (snd st')"
    "apply_page_set_layout x p5 st = Inr (us, st') \<Longrightarrow> below T (snd st')"
    "apply_page_delete x p6 st = Inr (us, st') \<Longrightarrow> below T (snd st')"
    "apply_block_create ext x p7 st = Inr (us, st') \<Longrightarrow> below T (snd st')"
    "apply_block_set_markdown ext x p8 st = Inr (us, st') \<Longrightarrow> below T (snd st')"
    "apply_block_set_style x p9 st = Inr (us, st') \<Longrightarrow> below T (snd st')"
    "apply_block_move x p10 st = Inr (us, st') \<Longrightarrow> below T (snd st')"
    "apply_block_delete x p11 st = Inr (us, st') \<Longrightarrow> below T (snd st')"
proof -
  show "apply_ink_publish ext x p1 st = Inr (us, st') \<Longrightarrow> below T (snd st')"
    using b by (auto simp: apply_ink_publish_def res dest: below_version)
  show "apply_page_create ext x p2 st = Inr (us, st') \<Longrightarrow> below T (snd st')"
    using assms by (auto simp: apply_page_create_def Let_def res dest!: below_identity
        intro: below_generation below_journal_floor split: if_splits option.splits)
  show "apply_page_alias_set x p3 st = Inr (us, st') \<Longrightarrow> below T (snd st')"
    using assms by (auto simp: apply_page_alias_set_def Let_def res intro!: under simp del: on_db_simps split: if_splits)
  show "apply_page_set_title ext x p4 st = Inr (us, st') \<Longrightarrow> below T (snd st')"
    "apply_page_set_layout x p5 st = Inr (us, st') \<Longrightarrow> below T (snd st')"
    "apply_block_set_markdown ext x p8 st = Inr (us, st') \<Longrightarrow> below T (snd st')"
    "apply_block_set_style x p9 st = Inr (us, st') \<Longrightarrow> below T (snd st')"
    using assms by (auto simp: apply_page_set_title_def apply_page_set_layout_def apply_block_set_markdown_def
        apply_block_set_style_def res intro!: under)
  show "apply_page_delete x p6 st = Inr (us, st') \<Longrightarrow> below T (snd st')"
    using assms by (auto simp: apply_page_delete_def Let_def res intro!: under simp del: on_db_simps split: if_splits)
  show "apply_block_move x p10 st = Inr (us, st') \<Longrightarrow> below T (snd st')"
    using assms by (auto simp: apply_block_move_def move_block_def Let_def res intro!: under simp del: on_db_simps split: if_splits)
  show "apply_block_delete x p11 st = Inr (us, st') \<Longrightarrow> below T (snd st')"
    using assms by (auto simp: apply_block_delete_def remove_block_def Let_def res intro!: under simp del: on_db_simps split: if_splits)
  show "apply_block_create ext x p7 st = Inr (us, st') \<Longrightarrow> below T (snd st')"
    using assms by (auto simp: apply_block_create_def create_block_on_def create_block_def Let_def res
        dest!: below_attachments intro!: under simp del: on_db_simps intro: below_row split: if_splits option.splits)
qed

lemma below_attachment_op:
  "apply_attachment a st = Inr (us, st') \<Longrightarrow> below T (snd st) \<Longrightarrow> held T (sa_hlc a) \<Longrightarrow> below T (snd st')"
  by (auto simp: apply_attachment_def res dest!: below_attachments intro!: under)

lemma apply_one_below:
  "apply_one ext x st = Inr (us, st') \<Longrightarrow> below T (snd st) \<Longrightarrow> held T (op_hlc x) \<Longrightarrow> below T (snd st')"
  by (auto simp: apply_one_def res added_attachment_def removed_attachment_def split: op_kind.splits
      dest: below_handlers below_attachment_op)

section \<open>The replica's clock stays above the clocks it stores\<close>

definition clocks_ok :: "db \<Rightarrow> bool" where
  "clocks_ok d \<longleftrightarrow> (\<forall>T. last_hlc d \<le> T \<longrightarrow> below T d)"

lemma receive_above_remote:
  assumes "can_tick remote"
  shows "remote < receive loc remote now device"
proof (cases "wall_ms remote = wall_ms (receive loc remote now device)")
  case True
  have "counter remote < saturating_add32 (max c (counter remote)) 1" for c
  proof (cases "c = - 1")
    case True
    then have "max c (counter remote) = - 1" by (simp add: max_absorb1 word_order.extremum)
    moreover have "counter remote < - 1" using assms by (simp add: can_tick_def word_order.not_eq_extremum)
    moreover have "saturating_add32 (- 1) 1 = - 1" by (simp add: saturating_add32_def unsigned_minus_1_eq_mask mask_eq_exp_minus_1)
    ultimately show ?thesis by simp
  next
    case False
    with assms show ?thesis by (simp add: can_tick_def saturating_add32_above_max)
  qed
  moreover have "counter remote < saturating_add32 (counter remote) 1"
    using assms by (simp add: can_tick_def saturating_add32_greater)
  ultimately have "counter remote < counter (receive loc remote now device)"
    using True unfolding receive_counter by (auto simp: Let_def split: option.split)
  with True show ?thesis by (simp add: hlc_less_iff)
next
  case False
  moreover have "wall_ms remote \<le> wall_ms (receive loc remote now device)"
    by (simp add: receive_wall)
  ultimately show ?thesis by (simp add: hlc_less_iff order_less_le)
qed

lemma observed_above: "can_tick t \<Longrightarrow> Some t \<le> last_hlc (observe_hlc env t d)"
  by (auto simp: observe_hlc_def split: prod.split intro: less_imp_le receive_above_remote)

lemma below_observe [simp]: "below T (observe_hlc env t d) = below T d"
  by (auto simp: observe_hlc_def meta_or_insert_device_id_def split: option.split)

lemma clocks_empty: "clocks_ok (empty_db w)"
  by (simp add: clocks_ok_def below_def empty_db_def)

lemma clocks_frame: "(\<And>T. below T d' = below T d) \<Longrightarrow> last_hlc d' = last_hlc d \<Longrightarrow> clocks_ok d' = clocks_ok d"
  by (simp add: clocks_ok_def)

text \<open>The clocks of a local batch ascend to the last one.\<close>

lemma author_le_last:
  assumes "author_ops env w device clock n kinds = Inr ops" and "x \<in> set ops"
  shows "op_hlc x \<le> op_hlc (last ops)"
  using assms
proof (induction kinds arbitrary: clock n ops)
  case (Cons k ks)
  let ?t = "send clock (now_ms env) device"
  obtain y rest where ops: "ops = y # rest" "op_hlc y = ?t"
    and rest: "author_ops env w device (Some ?t) (Suc n) ks = Inr rest"
    using Cons.prems(1) by (auto simp: Let_def res)
  show ?case
  proof (cases "rest = []")
    case False
    have "device_id ?t = device" by (auto simp: send_def split: option.split)
    with author_last_ge [OF rest _ False] have "?t \<le> op_hlc (last rest)" by auto
    with Cons.IH [OF rest] Cons.prems(2) ops False show ?thesis by auto
  qed (use Cons.prems(2) ops in simp)
qed simp

lemma below_enqueue [simp]: "below T (enqueue_ink x d) = below T d"
  by (simp add: enqueue_ink_def Let_def split: op_kind.split)

lemma below_ledger_writes:
  "insert_applied v d = Inr d' \<Longrightarrow> below T d' = below T d"
  "push_outbox x created d = Inr d' \<Longrightarrow> below T d' = below T d"
  "record_sequence v seq d = Inr d' \<Longrightarrow> below T d' = below T d"
  by (auto simp: insert_applied_def push_outbox_def record_sequence_def res)

lemma fold_authored_below:
  assumes "fold_res (apply_authored ext publishes) ops st = Inr st'" and "below T (snd st)"
    and "\<forall>x \<in> set ops. Some (op_hlc x) \<le> T"
  shows "below T (snd st')"
proof -
  have "below T (snd u)" if x: "x \<in> set ops" and t: "below T (snd t)" and u: "apply_authored ext publishes x t = Inr u" for x t u
  proof -
    have h: "held T (op_hlc x)" using assms(3) x by (simp add: held_def)
    obtain us t1 t2 where one: "apply_one ext x t = Inr (us, t1)"
      and ins: "lift_db (insert_applied (op_id x)) t1 = Inr t2"
      and push: "(if publishes then lift_db (push_outbox x (timestamp_seconds (op_hlc x))) t2 else Inr t2) = Inr u"
      using u by (auto simp: apply_authored_def attempt_Inr)
    have b: "below T (snd t1) \<longrightarrow> below T (snd u)"
      using ins push below_ledger_writes(1,2) by (auto simp: lift_db_def attempt_Inr split: if_splits)
    from apply_one_below [OF one t h] b show ?thesis by simp
  qed
  then show ?thesis using fold_res_invariant [OF assms(1), of "\<lambda>st. below T (snd st)"] assms(2) by blast
qed

lemma clocks_local:
  assumes ok: "apply_local_kinds ext env kinds policy mode d = Inr (ops, d')" and l: "ledger_ok d" and c: "clocks_ok d"
  shows "clocks_ok d'"
  unfolding clocks_ok_def
proof (intro allI impI)
  fix T assume T: "last_hlc d' \<le> T"
  from ok obtain device d1 st where m: "meta_or_insert_device_id env d = (device, d1)"
    and a: "author_ops env (workspace d1) device (last_hlc d1) 0 kinds = Inr ops"
    and f: "fold_res (apply_authored ext (publishes_authored_ops d1)) ops (effects_for policy mode, d1) = Inr st"
    and d': "d' = (if ops = [] then snd (finish_projections ext st)
           else (snd (finish_projections ext st))\<lparr>last_hlc := Some (op_hlc (last ops))\<rparr>)"
    by (rule apply_local_obtain)
  have "last_hlc d \<le> last_hlc d'" using evolves_local [OF ok] l by (simp add: evolves_def advance_def)
  with T c have "below T d" by (auto simp: clocks_ok_def)
  then have b1: "below T (snd (effects_for policy mode, d1))" using device_row [OF m] by auto
  have "\<forall>x \<in> set ops. Some (op_hlc x) \<le> T"
  proof
    fix x assume x: "x \<in> set ops"
    then have "Some (op_hlc x) \<le> Some (op_hlc (last ops))" using author_le_last [OF a] by simp
    also have "Some (op_hlc (last ops)) \<le> T" using T x by (cases ops) (simp_all add: d')
    finally show "Some (op_hlc x) \<le> T" .
  qed
  from fold_authored_below [OF f b1 this] show "below T d'" by (auto simp: d' intro: under)
qed

text \<open>One delivered operation: the clock moves past it before it counts as stored.\<close>

definition ledger_clocks :: "db \<Rightarrow> bool" where
  "ledger_clocks d \<longleftrightarrow> ledger_ok d \<and> clocks_ok d"

lemma delivered_clocks:
  assumes K: "ledger_clocks (snd st)" and one: "apply_one ext x st = Inr (us, st1)"
    and same: "\<And>T. below T d = below T (snd st1)" and e: "evolves (snd st1) d"
    and seen: "can_tick (op_hlc x) \<Longrightarrow> Some (op_hlc x) \<le> last_hlc d"
  shows "ledger_clocks d"
proof -
  have ev: "evolves (snd st) d" using evolves_meta [OF apply_one_meta [OF one]] e by (rule evolves_trans)
  have "clocks_ok d"
    unfolding clocks_ok_def
  proof (intro allI impI)
    fix T assume T: "last_hlc d \<le> T"
    have "last_hlc (snd st) \<le> last_hlc d" using ev K by (simp add: evolves_def advance_def ledger_clocks_def)
    with T K have "below T (snd st)" by (auto simp: clocks_ok_def ledger_clocks_def)
    moreover have "held T (op_hlc x)"
      unfolding held_def using order_trans [OF seen T] by auto
    ultimately show "below T d" using apply_one_below [OF one] same by blast
  qed
  with ev K show ?thesis by (simp add: ledger_clocks_def evolves_def)
qed

lemma batch_op_clocks:
  assumes K: "ledger_clocks (snd (snd (snd b)))" and ok: "apply_batch_op ext env Remote publishes x b = Inr b'"
  shows "ledger_clocks (snd (snd (snd b')))"
proof (cases "has (applied_ops (snd (snd (snd b)))) (op_id x)")
  case True
  with assms show ?thesis by (auto simp: apply_batch_op_def split: prod.splits)
next
  case False
  obtain outs0 durable st where b: "b = (outs0, durable, st)" by (cases b) auto
  from ok False obtain us st1 d2 where one: "apply_one ext x st = Inr (us, st1)"
    and ins: "insert_applied (op_id x) (snd st1) = Inr d2"
    and b': "snd (snd b') = on_db (observe_hlc env (op_hlc x)) (fst st1, d2)"
    by (auto simp: b apply_batch_op_def lift_db_def attempt_Inr)
  have "evolves (snd st1) (observe_hlc env (op_hlc x) d2)"
    using evolves_insert_applied [OF ins] evolves_observe by (rule evolves_trans)
  from delivered_clocks [OF _ one _ this observed_above] K b' b below_ledger_writes(1) [OF ins]
  show ?thesis by simp
qed

lemma clocks_batch:
  assumes "apply_batch ext env ops Remote mode d = Inr (outs, durable, d')" and "ledger_clocks d"
  shows "ledger_clocks d'"
proof -
  obtain st where f: "fold_res (apply_batch_op ext env Remote (publishes_authored_ops d)) ops
       ([], False, effects_for Deferred mode, d) = Inr (outs, durable, st)"
    and d': "d' = snd (finish_projections ext st)"
    using assms(1) by (auto simp: apply_batch_def attempt_Inr)
  have "ledger_clocks (snd (snd (snd (outs, durable, st))))"
    using f by (rule fold_res_invariant [where P = "\<lambda>b. ledger_clocks (snd (snd (snd b)))"])
      (use assms(2) batch_op_clocks in auto)
  then have l: "ledger_ok (snd st)" and c: "clocks_ok (snd st)" by (simp_all add: ledger_clocks_def)
  have "evolves (snd st) d'" unfolding d' by (rule evolves_meta) (rule meta_finish)
  with l have "ledger_ok d'" by (simp add: evolves_def)
  moreover have "clocks_ok d'" using c by (auto simp: clocks_ok_def d' finish_meta intro: under)
  ultimately show ?thesis by (simp add: ledger_clocks_def)
qed

lemma remove_clocks: "below T (snd (remove_operation u d)) = below T d" "last_hlc (snd (remove_operation u d)) = last_hlc d"
  by (simp_all add: remove_operation_def)

lemma record_last: "record_sequence u seq d = Inr d' \<Longrightarrow> last_hlc d' = last_hlc d"
  by (auto simp: record_sequence_def attempt_Inr guard_Inr)

lemma sequenced_op_clocks:
  assumes K: "ledger_clocks (snd (q_state q))" and ok: "apply_sequenced_op ext env e q = Inr q'"
  shows "ledger_clocks (snd (q_state q'))"
proof (cases "fst e \<le> q_cursor q")
  case True
  with assms show ?thesis by (auto simp: apply_sequenced_op_def res split: prod.splits)
next
  case False
  obtain seq x where e: "e = (seq, x)" by force
  let ?st = "q_state q" and ?ex = "get (applied_ops (snd (q_state q))) (op_id x)"
  from ok False e obtain outcome st1 d2 where
    step: "(if ?ex \<noteq> None then Inr (no_outcome, ?st)
            else attempt (apply_one ext x ?st) (\<lambda>(affected, st').
                   Inr (outcome_of affected ?st st', on_db (observe_hlc env (op_hlc x)) st'))) = Inr (outcome, st1)"
    and rec: "record_sequence (op_id x) seq (snd st1) = Inr d2"
    and q': "snd (q_state q') = snd (remove_operation (op_id x) d2)"
    by (auto simp: apply_sequenced_op_def Let_def attempt_Inr guard_Inr lift_db_def remove_operation_def split: prod.splits)
  have "ledger_clocks (snd st1)"
  proof (cases "?ex = None")
    case True
    with step obtain us st2 where one: "apply_one ext x ?st = Inr (us, st2)"
      and st1: "st1 = on_db (observe_hlc env (op_hlc x)) st2" by (auto simp: attempt_Inr)
    from delivered_clocks [OF K one _ evolves_observe observed_above] show ?thesis by (simp add: st1)
  qed (use step K in auto)
  then have c: "clocks_ok (snd (q_state q'))"
    by (simp add: ledger_clocks_def clocks_ok_def q' remove_clocks below_ledger_writes(3) [OF rec] record_last [OF rec])
  moreover have "ledger_ok (snd (q_state q'))"
    using sequenced_evolves [OF ok] K by (simp add: evolves_def ledger_clocks_def)
  ultimately show ?thesis by (simp add: ledger_clocks_def)
qed

lemma clocks_sequenced:
  assumes ok: "apply_sequenced_batch ext env entries mode d = Inr (outs, durable, d')" and K: "ledger_clocks d"
  shows "ledger_clocks d'"
  using ok
proof (rule apply_sequenced_obtain)
  fix q
  assume f: "fold_res (apply_sequenced_op ext env) entries
       \<lparr>q_cursor = read_sync_cursor d, q_outcomes = [], q_durable = False, q_released = False,
        q_state = (effects_for Deferred mode, d)\<rparr> = Inr q"
    and d': "d' = (collect_released (q_released q) (snd (finish_projections ext (q_state q))))\<lparr>last_server_seq := Some (q_cursor q)\<rparr>"
  have "ledger_clocks (snd (q_state q))"
    using f by (rule fold_res_invariant [where P = "\<lambda>q. ledger_clocks (snd (q_state q))"])
      (use K sequenced_op_clocks in auto)
  then have "clocks_ok d'"
    by (auto simp: clocks_ok_def ledger_clocks_def d' collect_released_def finish_meta intro: under)
  then show ?thesis using evolves_sequenced [OF ok] K by (simp add: ledger_clocks_def evolves_def)
qed

lemma acknowledge_one_clocks:
  assumes ok: "acknowledge_one ack acc = Inr acc'" and c: "clocks_ok (snd (snd acc))"
  shows "clocks_ok (snd (snd acc'))"
proof -
  obtain u seq where ack: "ack = (u, seq)" by (cases ack)
  obtain a b d where acc: "acc = (a, b, d)" by (cases acc)
  define step where "step = (if get (applied_ops d) u = None then Inr d else record_sequence u seq d)"
  obtain d1 where d1: "step = Inr d1"
    using ok by (cases step) (auto simp: acknowledge_one_def ack acc step_def[symmetric] Let_def attempt_Inr)
  then have acc': "snd (snd acc') = snd (remove_operation u d1)"
    using ok by (cases "remove_operation u d1") (auto simp: acknowledge_one_def ack acc step_def[symmetric] Let_def attempt_Inr)
  have "clocks_ok d1 = clocks_ok d"
    using d1 by (auto simp: step_def clocks_ok_def below_ledger_writes(3) record_last split: if_splits)
  with c show "clocks_ok (snd (snd acc'))" by (simp add: acc acc' clocks_ok_def remove_clocks)
qed

lemma clocks_acknowledge:
  assumes "acknowledge_server_ops acks d = Inr (durable, d')" and "clocks_ok d"
  shows "clocks_ok d'"
proof -
  obtain b released d1 where f: "fold_res acknowledge_one acks (False, False, d) = Inr (b, released, d1)"
    and d': "d' = collect_released released d1"
    using assms(1) by (auto simp: acknowledge_server_ops_def attempt_Inr)
  have "clocks_ok (snd (snd (b, released, d1)))"
    using f by (rule fold_res_invariant [where P = "\<lambda>a. clocks_ok (snd (snd a))"])
      (use assms(2) acknowledge_one_clocks in auto)
  then show ?thesis by (simp add: d' collect_released_def clocks_ok_def)
qed

end
