(* ===== verification/Commands.thy ===== *)
theory Commands
  imports Pages Document Clocks
begin

text \<open>
  What holds of the store whatever commands are given to it. \<open>store_step\<close> is one committed
  command of \<open>NotesStore\<close>; the locale \<open>store_law\<close> is the contract between the few places that
  write the store and the commands built on them.
\<close>

section \<open>Steps of the store\<close>

text \<open>
  The commands of \<open>NotesStore\<close> with their arguments. Batches from elsewhere arrive with the
  origin \<open>Remote\<close>, the only one that is passed outside the tests.
\<close>

inductive store_step :: "note_store \<Rightarrow> note_store \<Rightarrow> bool" where
  create_block: "write_store w (create_block w page parent after_uuid style markdown) s = Inr (c, s') \<Longrightarrow> store_step s s'"
| save_block: "write_store w (save_block_content w u markdown expected) s = Inr (c, s') \<Longrightarrow> store_step s s'"
| set_style: "write_store w (set_block_style w u style) s = Inr (c, s') \<Longrightarrow> store_step s s'"
| set_task: "write_store w (set_task_state w u state) s = Inr (c, s') \<Longrightarrow> store_step s s'"
| move: "write_store w (move_block w u parent after_uuid) s = Inr (c, s') \<Longrightarrow> store_step s s'"
| reorder: "write_store w (reorder_block w u direction) s = Inr (c, s') \<Longrightarrow> store_step s s'"
| indent: "write_store w (indent_block w u) s = Inr (c, s') \<Longrightarrow> store_step s s'"
| outdent: "write_store w (outdent_block w u) s = Inr (c, s') \<Longrightarrow> store_step s s'"
| delete_block: "write_store w (delete_block w u) s = Inr (c, s') \<Longrightarrow> store_step s s'"
| split: "split_block_command w u parts revision s = Inr (c, s') \<Longrightarrow> store_step s s'"
| edit_document: "write_store w (replace_page_document w sha256 page revision units) s = Inr (c, s') \<Longrightarrow> store_step s s'"
| create_page: "create_page_command w title s = Inr (c, s') \<Longrightarrow> store_step s s'"
| capture: "create_page_with_markdown_command w title markdown s = Inr (c, s') \<Longrightarrow> store_step s s'"
| create_note: "write_store w (create_note w title') s = Inr (c, s') \<Longrightarrow> store_step s s'"
| create_drawing: "write_store w (create_handwritten_note w title') s = Inr (c, s') \<Longrightarrow> store_step s s'"
| rename: "write_store w (rename_page w u title' expected) s = Inr (c, s') \<Longrightarrow> store_step s s'"
| set_layout: "write_store w (set_page_layout w u layout) s = Inr (c, s') \<Longrightarrow> store_step s s'"
| delete_page: "write_store w (delete_page w u) s = Inr (c, s') \<Longrightarrow> store_step s s'"
| ensure_journal: "write_store w (ensure_journal w date) s = Inr (c, s') \<Longrightarrow> store_step s s'"
| append_journal: "append_to_journal_command w date markdown style s = Inr (c, s') \<Longrightarrow> store_step s s'"
| attach: "write_store w (create_attachment w holder hash filename mime bytes) s = Inr (c, s') \<Longrightarrow> store_step s s'"
| detach: "write_store w (delete_attachment w u) s = Inr (c, s') \<Longrightarrow> store_step s s'"
| undo: "undo_command w s = Inr (c, s') \<Longrightarrow> store_step s s'"
| redo: "redo_command w s = Inr (c, s') \<Longrightarrow> store_step s s'"
| replicate: "write_store w (apply_replicated_batch w ops Remote) s = Inr (c, s') \<Longrightarrow> store_step s s'"
| sequence: "write_store w (apply_sequenced w entries) s = Inr (c, s') \<Longrightarrow> store_step s s'"
| acknowledge: "write_store w (store_acknowledge acks) s = Inr (c, s') \<Longrightarrow> store_step s s'"
| set_role: "write_store w (store_set_replica_role role) s = Inr (c, s') \<Longrightarrow> store_step s s'"
| configure: "write_store w (store_configure_sync url) s = Inr (c, s') \<Longrightarrow> store_step s s'"
| bind: "write_store w (store_bind_sync_workspace url remote seq) s = Inr (c, s') \<Longrightarrow> store_step s s'"
| quarantine: "write_store w (store_quarantine u reason now) s = Inr (c, s') \<Longrightarrow> store_step s s'"
| release: "write_store w store_release s = Inr (c, s') \<Longrightarrow> store_step s s'"

text \<open>What these commands do to the database: the steps of a replica, batches being remote.\<close>

inductive command_step :: "externals \<Rightarrow> db \<Rightarrow> db \<Rightarrow> bool" for ext where
  author: "apply_local_kinds ext env kinds policy mode d = Inr (ops, d') \<Longrightarrow> command_step ext d d'"
| deliver: "apply_batch ext env ops Remote mode d = Inr (outs, durable, d') \<Longrightarrow> command_step ext d d'"
| deliver_sequenced: "apply_sequenced_batch ext env entries mode d = Inr (outs, durable, d') \<Longrightarrow> command_step ext d d'"
| acknowledge: "acknowledge_server_ops acks d = Inr (durable, d') \<Longrightarrow> command_step ext d d'"
| quarantine: "quarantine_outbox_op u reason now d = (changed, d') \<Longrightarrow> command_step ext d d'"
| release: "release_quarantined_outbox d = (n, d') \<Longrightarrow> command_step ext d d'"
| configure: "configure_sync url d = (changed, d') \<Longrightarrow> command_step ext d d'"
| set_role: "set_replica_role role d = (changed, d') \<Longrightarrow> command_step ext d d'"
| bind: "bind_sync_workspace url w seq d = Inr (changed, d') \<Longrightarrow> command_step ext d d'"

lemma command_replica: "command_step ext d d' \<Longrightarrow> replica_step ext d d'"
  by (induction rule: command_step.induct) (rule replica_step.intros, assumption)+

text \<open>A store on a freshly opened database: migrated, with its projection initialized.\<close>

definition fresh_store :: "uuid \<Rightarrow> note_store" where
  "fresh_store wid =
     \<lparr>nt_db = (empty_db wid)\<lparr>structure_version := structure_projection_version\<rparr>, nt_undo = [], nt_redo = [],
      nt_retained = tempty, nt_version = 0, nt_epoch = 0\<rparr>"

inductive store_reachable :: "uuid \<Rightarrow> note_store \<Rightarrow> bool" for wid where
  fresh: "store_reachable wid (fresh_store wid)"
| step: "store_reachable wid s \<Longrightarrow> store_step s s' \<Longrightarrow> store_reachable wid s'"

section \<open>The contract of the writers\<close>

definition keeps_store :: "(note_store \<Rightarrow> bool) \<Rightarrow> 'a command \<Rightarrow> bool" where
  "keeps_store J command \<longleftrightarrow>
     (\<forall>tx v tx'. J (tx_store tx) \<longrightarrow> command tx = Inr (v, tx') \<longrightarrow> J (tx_store tx'))"

lemma keeps_storeI:
  "(\<And>tx v tx'. J (tx_store tx) \<Longrightarrow> command tx = Inr (v, tx') \<Longrightarrow> J (tx_store tx')) \<Longrightarrow> keeps_store J command"
  by (auto simp: keeps_store_def)

lemma keeps_storeD: "keeps_store J command \<Longrightarrow> J (tx_store tx) \<Longrightarrow> command tx = Inr (v, tx') \<Longrightarrow> J (tx_store tx')"
  by (auto simp: keeps_store_def)

locale store_law =
  fixes J :: "note_store \<Rightarrow> bool"
  assumes replica: "J s \<Longrightarrow> command_step ext (nt_db s) d \<Longrightarrow> J (s\<lparr>nt_db := d\<rparr>)"
    and drawings: "J s \<Longrightarrow> J (s\<lparr>nt_db := (nt_db s)\<lparr>ink := t\<rparr>\<rparr>)"
    and retention: "J s \<Longrightarrow> capture_into w action page s = Inr s' \<Longrightarrow> J s'"
    and recorded: "J s \<Longrightarrow> record_prepared_action title kinds prepared policy u s = Inr s' \<Longrightarrow> J s'"
    and skipped: "J s \<Longrightarrow> J (clean_retention (drop_entry undo s))"
    and moved: "J s \<Longrightarrow> rev (source_stack undo s) = entry # older \<Longrightarrow>
      decode_history_payload (hr_forward entry) = Inr f \<Longrightarrow> decode_history_payload (hr_inverse entry) = Inr b \<Longrightarrow>
      record_move undo entry (settle_policy (hr_action entry) f) (settle_policy (hr_action entry) b) kinds deleted s = Inr s' \<Longrightarrow>
      J s'"
    and counted: "J s \<Longrightarrow> J (s\<lparr>nt_version := n\<rparr>)"
begin

lemma apply_kinds_law: "J (tx_store tx) \<Longrightarrow> apply_kinds w kinds policy restored tx = Inr tx' \<Longrightarrow> J (tx_store tx')"
  by (auto simp: apply_kinds_def one_batch_def put_db_def res intro!: replica command_step.author)

lemma apply_local_law: "J (tx_store tx) \<Longrightarrow> apply_local w kinds policy tx = Inr tx' \<Longrightarrow> J (tx_store tx')"
  unfolding apply_local_def by (rule apply_kinds_law)

lemma apply_restore_law:
  "J (tx_store tx) \<Longrightarrow> apply_history_restore w kinds plan policy tx = Inr tx' \<Longrightarrow> J (tx_store tx')"
  by (auto simp: apply_history_restore_def on_store_def res intro!: drawings dest: apply_kinds_law)

lemma prepare_law:
  assumes "J s" and "prepare_action w kinds s = Inr (prepared, s')"
  shows "J s'"
proof -
  obtain taken where "fold_res (\<lambda>k (done, s).
          case k of
            PageDelete p \<Rightarrow>
              if is_ink_page (nt_db s) (pd_uuid p) \<and> pd_uuid p \<notin> set done
              then attempt (capture_into w (w_action w) (pd_uuid p) s) (\<lambda>s. Inr (done @ [pd_uuid p], s))
              else Inr (done, s)
          | _ \<Rightarrow> Inr (done, s)) kinds ([], s) = Inr (taken, s')"
    using assms(2) by (auto simp: prepare_action_def res)
  then have "J (snd (taken, s'))"
    by (rule fold_res_invariant [where P = "\<lambda>acc. J (snd acc)"])
      (use assms(1) retention in \<open>auto simp: res split: op_kind.splits if_splits\<close>)
  then show ?thesis by simp
qed

lemma apply_action_law:
  assumes J: "J (tx_store tx)" and ok: "apply_action w action kinds policy tx = Inr tx'"
  shows "J (tx_store tx')"
proof -
  obtain prepared s tx1 s2 where 1: "prepare_action w kinds (tx_store tx) = Inr (prepared, s)"
    and 2: "apply_local w kinds policy (tx\<lparr>tx_store := s\<rparr>) = Inr tx1"
    and 3: "record_prepared_action action kinds prepared policy (w_action w) (tx_store tx1) = Inr s2"
    and 4: "tx_store tx' = s2"
    using ok by (auto simp: apply_action_def on_store_def mark_history_changed_def res split: if_splits)
  from J 1 have "J (tx_store (tx\<lparr>tx_store := s\<rparr>))" by (auto dest: prepare_law)
  from this 2 have "J (tx_store tx1)" by (rule apply_local_law)
  from recorded [OF this 3] show ?thesis by (simp add: 4)
qed

lemma keep_drawings_law:
  "J s \<Longrightarrow> keep_deleted_drawings w selected action kinds deleted s = Inr (kept, s') \<Longrightarrow> J s'"
proof (induction kinds arbitrary: s deleted)
  case (Cons k ks)
  then show ?case
    by (cases k) (auto simp: res split: if_splits dest: retention)
qed simp

lemma apply_selected_law:
  "J (tx_store tx) \<Longrightarrow> apply_selected w u selected policy tx = Inr (kinds, tx') \<Longrightarrow> J (tx_store tx')"
  by (auto simp: apply_selected_def Let_def res split: if_splits prod.splits
      dest: apply_local_law apply_restore_law [rotated] intro!: drawings)

end

text \<open>Applying the selected operations leaves the stacks as they are.\<close>

lemma capture_into_stack: "capture_into w action page s = Inr s' \<Longrightarrow> source_stack undo s' = source_stack undo s"
  by (auto simp: capture_into_def res source_stack_def)

lemma keep_drawings_stack:
  "keep_deleted_drawings w selected action kinds deleted s = Inr (kept, s') \<Longrightarrow> source_stack undo s' = source_stack undo s"
proof (induction kinds arbitrary: s deleted)
  case (Cons k ks)
  then show ?case by (cases k) (auto simp: res split: if_splits dest: capture_into_stack)
qed simp

lemma apply_kinds_stack:
  "apply_kinds w kinds policy restored tx = Inr tx' \<Longrightarrow> source_stack undo (tx_store tx') = source_stack undo (tx_store tx)"
  by (auto simp: apply_kinds_def one_batch_def put_db_def res source_stack_def)

lemma apply_selected_stack:
  "apply_selected w u selected policy tx = Inr (kinds, tx') \<Longrightarrow>
     source_stack undo (tx_store tx') = source_stack undo (tx_store tx)"
  by (auto simp: apply_selected_def apply_history_restore_def apply_local_def on_store_def Let_def res
      split: if_splits prod.splits dest!: apply_kinds_stack [of _ _ _ _ _ _ undo])
    (auto simp: source_stack_def)

text \<open>The cases of a movement: nothing to move, an entry skipped, an entry moved.\<close>

lemma move_history_cases:
  assumes "move_history w undo tx = Inr (v, tx')"
  obtains (empty) "v = Empty" "tx' = tx" "source_stack undo (tx_store tx) = []"
  | (skip) entry older selected where "rev (source_stack undo (tx_store tx)) = entry # older"
      "guards_hold (tx_db tx) selected = Inr False" "v = Skipped"
      "tx_store tx' = clean_retention (drop_entry undo (tx_store tx))"
  | (unsafe) entry older selected s where "rev (source_stack undo (tx_store tx)) = entry # older"
      "guards_hold (tx_db tx) selected = Inr True"
      "keep_deleted_drawings w selected (hr_action_uuid entry) (hp_operations selected) [] (tx_store tx) = Inr (None, s)"
      "v = Skipped" "tx_store tx' = clean_retention (drop_entry undo s)"
  | (step) entry older f b selected policy s deleted kinds tx1 where
      "rev (source_stack undo (tx_store tx)) = entry # older"
      "guards_hold (tx_db tx) selected = Inr True"
      "keep_deleted_drawings w selected (hr_action_uuid entry) (hp_operations selected) [] (tx_store tx) = Inr (Some deleted, s)"
      "apply_selected w (hr_action_uuid entry) selected policy (tx\<lparr>tx_store := s\<rparr>) = Inr (kinds, tx1)"
      "decode_history_payload (hr_forward entry) = Inr f" "decode_history_payload (hr_inverse entry) = Inr b"
      "record_move undo entry (settle_policy (hr_action entry) f) (settle_policy (hr_action entry) b) kinds deleted (tx_store tx1) = Inr (tx_store tx')"
      "v = Applied"
      "selected = (if undo then settle_policy (hr_action entry) b else settle_policy (hr_action entry) f)"
proof (cases "rev (source_stack undo (tx_store tx))")
  case Nil
  then show ?thesis using assms empty by (auto simp: move_history_def)
next
  case (Cons entry older)
  with assms obtain f b where fb: "decode_history_payload (hr_forward entry) = Inr f"
      "decode_history_payload (hr_inverse entry) = Inr b"
    by (auto simp: move_history_def res Let_def)
  let ?f = "settle_policy (hr_action entry) f" and ?b = "settle_policy (hr_action entry) b"
  let ?sel = "if undo then ?b else ?f"
  obtain ok where ok: "guards_hold (tx_db tx) ?sel = Inr ok"
    using assms fb Cons by (auto simp: move_history_def res Let_def)
  show ?thesis
  proof (cases ok)
    case False
    then show ?thesis
      using skip [OF Cons, of ?sel] ok fb assms Cons
      by (auto simp: move_history_def res Let_def skip_entry_def mark_history_changed_def)
  next
    case True
    then obtain kept s where k: "keep_deleted_drawings w ?sel (hr_action_uuid entry) (hp_operations ?sel) [] (tx_store tx) = Inr (kept, s)"
      using ok fb assms Cons by (auto simp: move_history_def res Let_def)
    show ?thesis
    proof (cases kept)
      case None
      then show ?thesis
        using unsafe [OF Cons, of ?sel s] ok k True fb assms Cons
        by (auto simp: move_history_def res Let_def skip_entry_def mark_history_changed_def)
    next
      case (Some deleted)
      then obtain kinds tx1 tx2 where
        "apply_selected w (hr_action_uuid entry) ?sel (resolve_projection_policy (hr_action entry) ?sel) (tx\<lparr>tx_store := s\<rparr>) = Inr (kinds, tx1)"
        "on_store (record_move undo entry ?f ?b kinds deleted) tx1 = Inr tx2"
        "v = Applied" "tx' = mark_history_changed tx2"
        using ok k True fb assms Cons by (auto simp: move_history_def res Let_def)
      then show ?thesis
        using step [OF Cons, of ?sel deleted s _ kinds tx1 f b] ok k True Some fb
        by (auto simp: on_store_def mark_history_changed_def res)
    qed
  qed
qed

context store_law
begin

lemma move_history_law: "keeps_store J (move_history w undo)"
proof (rule keeps_storeI)
  fix tx v tx'
  assume J: "J (tx_store tx)" and ok: "move_history w undo tx = Inr (v, tx')"
  from ok show "J (tx_store tx')"
  proof (cases rule: move_history_cases)
    case empty
    with J show ?thesis by simp
  next
    case skip
    with J show ?thesis by (simp add: skipped)
  next
    case (unsafe entry older selected s)
    with keep_drawings_law [OF J] show ?thesis by (simp add: skipped)
  next
    case (step entry older f b selected policy s deleted kinds tx1)
    from keep_drawings_law [OF J step(3)] have "J (tx_store (tx\<lparr>tx_store := s\<rparr>))" by simp
    then have "J (tx_store tx1)" using step(4) by (rule apply_selected_law)
    moreover have "source_stack undo (tx_store tx1) = source_stack undo (tx_store tx)"
      using apply_selected_stack [OF step(4)] keep_drawings_stack [OF step(3)] by simp
    ultimately show ?thesis using moved [OF _ _ step(5-7)] step(1) by metis
  qed
qed

lemma replace_block_law: "keeps_store J (replace_block w action b parent insertion invalid)"
  by (rule keeps_storeI) (auto simp: replace_block_def res dest: apply_action_law)

lemma move_block_law: "keeps_store J (move_block_in_transaction w b parent after_uuid)"
  by (rule keeps_storeI)
    (auto simp: move_block_in_transaction_def res elim!: keeps_storeD [OF replace_block_law, rotated])

lemma apply_style_law: "keeps_store J (apply_block_style w b style)"
  by (rule keeps_storeI) (auto simp: apply_block_style_def res split: if_splits dest: apply_action_law)

lemma block_command_laws:
  "keeps_store J (create_block w page parent after_uuid style markdown)"
  "keeps_store J (save_block_content w u markdown expected)"
  "keeps_store J (set_block_style w u style)"
  "keeps_store J (set_task_state w u state)"
  "keeps_store J (move_block w u parent after_uuid)"
  "keeps_store J (reorder_block w u direction)"
  "keeps_store J (indent_block w u)"
  "keeps_store J (outdent_block w u)"
  "keeps_store J (delete_block w u)"
  "keeps_store J (split_block w u parts revision)"
  "keeps_store J (replace_page_document w sha256 page revision' units)"
  by (rule keeps_storeI, auto simp: create_block_def save_block_content_def set_block_style_def set_task_state_def
      move_block_def reorder_block_def indent_block_def outdent_block_def delete_block_def split_block_def
      replace_page_document_def Let_def res split: if_splits option.splits prod.splits
      dest: apply_action_law apply_local_law
      elim!: keeps_storeD [OF replace_block_law, rotated] keeps_storeD [OF move_block_law, rotated]
        keeps_storeD [OF apply_style_law, rotated])+

lemma page_command_laws:
  "keeps_store J (create_page w title)"
  "keeps_store J (create_page_with_markdown w title markdown)"
  "keeps_store J (create_note w title')"
  "keeps_store J (create_handwritten_note w title')"
  "keeps_store J (rename_page w u title' expected)"
  "keeps_store J (set_page_layout w u layout)"
  "keeps_store J (delete_page w u)"
  "keeps_store J (ensure_journal w date)"
  "keeps_store J (append_to_journal w date markdown style)"
  "keeps_store J (delete_attachment w u)"
  by (rule keeps_storeI, auto simp: create_page_def create_page_with_markdown_def create_note_def
      create_handwritten_note_def rename_page_def set_page_layout_def delete_page_def ensure_journal_def
      append_to_journal_def delete_attachment_def Let_def res
      split: if_splits option.splits prod.splits bool.splits list.splits
      dest: apply_action_law apply_local_law)+

lemma create_attachment_law: "keeps_store J (create_attachment w holder hash filename mime bytes)"
proof (rule keeps_storeI)
  fix tx v tx'
  assume J: "J (tx_store tx)" and ok: "create_attachment w holder hash filename mime bytes tx = Inr (v, tx')"
  obtain tx1 where 1: "apply_local w [AttachmentAdd \<lparr>aa_owner = holder, aa_blob_hash = hash, aa_filename = filename,
      aa_mime = mime, aa_size = bytes\<rparr>] Immediate tx = Inr tx1"
    using ok by (auto simp: create_attachment_def res)
  have "tx1 = tx'"
    using ok 1 by (cases "filter (\<lambda>(_, r). a_hash r = hash \<and> owner_uuid (a_owner r) = owner_uuid holder) (rows (attachments (tx_db tx1)))")
      (auto simp: create_attachment_def res)
  with apply_local_law [OF J 1] show "J (tx_store tx')" by simp
qed

lemma metadata_law:
  assumes "\<And>d v changed d'. f d = Inr (v, changed, d') \<Longrightarrow> \<exists>ext. command_step ext d d'"
  shows "keeps_store J (apply_sync_metadata f)"
  by (rule keeps_storeI) (auto simp: apply_sync_metadata_def one_batch_def put_db_def res intro: replica dest!: assms)

lemma sync_command_laws:
  "keeps_store J (apply_replicated_batch w ops Remote)"
  "keeps_store J (apply_sequenced w entries)"
  "keeps_store J (store_acknowledge acks)"
  "keeps_store J (store_set_replica_role role)"
  "keeps_store J (store_configure_sync url)"
  "keeps_store J (store_bind_sync_workspace url remote seq)"
  "keeps_store J (store_quarantine u reason now)"
  "keeps_store J store_release"
proof -
  show "keeps_store J (apply_replicated_batch w ops Remote)"
    by (rule keeps_storeI) (auto simp: apply_replicated_batch_def one_batch_def put_db_def res intro!: replica command_step.deliver)
  show "keeps_store J (apply_sequenced w entries)"
    by (rule keeps_storeI) (auto simp: apply_sequenced_def one_batch_def put_db_def res intro!: replica command_step.deliver_sequenced)
  show "keeps_store J (store_acknowledge acks)" "keeps_store J (store_set_replica_role role)"
    "keeps_store J (store_configure_sync url)" "keeps_store J (store_bind_sync_workspace url remote seq)"
    "keeps_store J (store_quarantine u reason now)" "keeps_store J store_release"
    unfolding store_acknowledge_def store_set_replica_role_def store_configure_sync_def
      store_bind_sync_workspace_def store_quarantine_def store_release_def
    by (rule metadata_law, force simp: res split: prod.splits
        intro: command_step.intros)+
qed

lemma write_law:
  assumes k: "keeps_store J command" and J: "J s" and ok: "write_store w command s = Inr (c, s')"
  shows "J s'"
proof -
  obtain v tx where tx: "command (begin_write s) = Inr (v, tx)"
    and s': "s' = tx_store tx \<or> s' = (tx_store tx)\<lparr>nt_version := nt_version (tx_store tx) + 1\<rparr>"
    using ok by (auto simp: write_store_def Let_def res split: if_splits)
  have "J (tx_store tx)" by (rule keeps_storeD [OF k _ tx]) (simp add: begin_write_def J)
  with s' show ?thesis by (auto intro: counted)
qed

lemmas command_laws = block_command_laws page_command_laws create_attachment_law sync_command_laws move_history_law

lemma step_law: "store_step s s' \<Longrightarrow> J s \<Longrightarrow> J s'"
  by (induction rule: store_step.induct)
    (auto simp: split_block_command_def create_page_command_def create_page_with_markdown_command_def
      append_to_journal_command_def undo_command_def redo_command_def res elim!: write_law [rotated -1] intro: command_laws)

lemma reachable_law: "store_reachable wid s \<Longrightarrow> J (fresh_store wid) \<Longrightarrow> J s"
  by (induction rule: store_reachable.induct) (auto intro: step_law)

end

section \<open>Laws of the database\<close>

text \<open>Some facts about the writers: which parts of the store each of them touches.\<close>

lemma clean_retention_frame [simp]:
  "nt_undo (clean_retention s) = nt_undo s" "nt_redo (clean_retention s) = nt_redo s"
  "nt_version (clean_retention s) = nt_version s" "nt_epoch (clean_retention s) = nt_epoch s"
  by (simp_all add: clean_retention_def split: prod.split)

lemma clean_retention_db: "\<exists>t. nt_db (clean_retention s) = (nt_db s)\<lparr>ink := t\<rparr>"
  by (simp add: clean_retention_def split: prod.split) blast

lemma drop_entry_frame [simp]: "nt_db (drop_entry undo s) = nt_db s"
  by (simp add: drop_entry_def)

lemma capture_into_db: "capture_into w action page s = Inr s' \<Longrightarrow> \<exists>t. nt_db s' = (nt_db s)\<lparr>ink := t\<rparr>"
  by (auto simp: capture_into_def res)

lemma record_prepared_db:
  "record_prepared_action title kinds prepared policy u s = Inr s' \<Longrightarrow> \<exists>t. nt_db s' = (nt_db s)\<lparr>ink := t\<rparr>"
proof -
  assume "record_prepared_action title kinds prepared policy u s = Inr s'"
  then obtain s1 where s1: "record_action title kinds prepared policy u s = Inr s1" "s' = clean_retention s1"
    by (auto simp: record_prepared_action_def res)
  then have "nt_db s1 = nt_db s" by (auto simp: record_action_def Let_def res split: if_splits)
  with s1 clean_retention_db [of s1] show ?thesis by simp
qed

lemma refresh_siblings_db: "refresh_sibling_guards gs s = Inr s' \<Longrightarrow> nt_db s' = nt_db s"
  by (auto simp: refresh_sibling_guards_def Let_def res split: if_splits)

lemma push_target_db: "push_target undo r s = Inr s' \<Longrightarrow> nt_db s' = nt_db s"
  by (auto simp: push_target_def res split: if_splits)

lemma record_move_db:
  assumes "record_move undo entry forward backward kinds deleted s = Inr s'"
  shows "\<exists>t. nt_db s' = (nt_db s)\<lparr>ink := t\<rparr>"
proof -
  obtain gs r s1 s2 where 1: "refresh_sibling_guards gs (drop_entry undo s) = Inr s1" and 2: "push_target undo r s1 = Inr s2"
    and 3: "s' = clean_retention s2"
    using assms unfolding record_move_def Let_def by (auto simp: res)
  have "nt_db s2 = nt_db s" using refresh_siblings_db [OF 1] push_target_db [OF 2] by simp
  with 3 clean_retention_db [of s2] show ?thesis by simp
qed

text \<open>What every step of a replica keeps, and no drawing matters to, every command keeps.\<close>

locale database_law =
  fixes I :: "db \<Rightarrow> bool"
  assumes step: "I d \<Longrightarrow> command_step ext d d' \<Longrightarrow> I d'"
    and drawn: "I (d\<lparr>ink := t\<rparr>) \<longleftrightarrow> I d"

sublocale database_law \<subseteq> store_law "\<lambda>s. I (nt_db s)"
proof
  fix s s' :: note_store and action u :: uuid and w page title kinds prepared policy undo entry older f b deleted t
  show "I (nt_db s')" if "I (nt_db s)" "capture_into w action page s = Inr s'"
    using that capture_into_db by (fastforce simp: drawn)
  show "I (nt_db s')" if "I (nt_db s)" "record_prepared_action title kinds prepared policy u s = Inr s'"
    using that record_prepared_db by (fastforce simp: drawn)
  show "I (nt_db (clean_retention (drop_entry undo s)))" if "I (nt_db s)"
    using that clean_retention_db [of "drop_entry undo s"] by (fastforce simp: drawn)
  show "I (nt_db s')" if "I (nt_db s)"
    "record_move undo entry (settle_policy (hr_action entry) f) (settle_policy (hr_action entry) b) kinds deleted s = Inr s'"
    using that record_move_db by (fastforce simp: drawn)
qed (auto simp: drawn intro: step)

lemma ledger_ink: "ledger_ok (d\<lparr>ink := t\<rparr>) = ledger_ok d" "advance d0 (d\<lparr>ink := t\<rparr>) = advance d0 d"
  by (rule ledger_ok_cong, simp_all) (simp add: advance_def sequenced_op_def queued_def)

interpretation sound: database_law sound
  by unfold_locales (auto simp: step_sound dest: command_replica)

interpretation ledger: database_law "\<lambda>d. ledger_ok d \<and> advance d0 d" for d0
  by unfold_locales (auto simp: ledger_ink evolves_def dest!: command_replica step_evolves intro: advance_trans)

lemma command_clocks:
  assumes "command_step ext d d'" and "ledger_clocks d"
  shows "ledger_clocks d'"
  using assms
proof (induction rule: command_step.induct)
  case (author env kinds policy mode d ops d')
  then have "ledger_ok d'" using step_evolves [OF replica_step.author] by (auto simp: evolves_def ledger_clocks_def)
  with author show ?case by (simp add: ledger_clocks_def clocks_local)
next
  case (deliver env ops mode d outs durable d')
  then show ?case by (rule clocks_batch)
next
  case (deliver_sequenced env entries mode d outs durable d')
  then show ?case by (rule clocks_sequenced)
next
  case (acknowledge acks d durable d')
  then have "ledger_ok d'" using step_evolves [OF replica_step.acknowledge] by (auto simp: evolves_def ledger_clocks_def)
  with acknowledge show ?case by (simp add: ledger_clocks_def clocks_acknowledge)
next
  case (quarantine u reason now d changed d')
  then have "ledger_ok d'" using step_evolves [OF replica_step.quarantine] by (auto simp: evolves_def ledger_clocks_def)
  with quarantine show ?case by (auto simp: ledger_clocks_def clocks_ok_def quarantine_outbox_op_def)
next
  case (release d n d')
  then have "ledger_ok d'" using step_evolves [OF replica_step.release] by (auto simp: evolves_def ledger_clocks_def)
  with release show ?case by (auto simp: ledger_clocks_def clocks_ok_def release_quarantined_outbox_def)
next
  case (configure url d changed d')
  then have "ledger_ok d'" using step_evolves [OF replica_step.configure] by (auto simp: evolves_def ledger_clocks_def)
  with configure show ?case by (auto simp: ledger_clocks_def clocks_ok_def configure_sync_def Let_def split: if_splits)
next
  case (set_role role d changed d')
  then have "ledger_ok d'" using step_evolves [OF replica_step.set_role] by (auto simp: evolves_def ledger_clocks_def)
  with set_role show ?case by (auto simp: ledger_clocks_def clocks_ok_def set_replica_role_def split: if_splits)
next
  case (bind url w seq d changed d')
  then have "ledger_ok d'" using step_evolves [OF replica_step.bind] by (auto simp: evolves_def ledger_clocks_def)
  with bind show ?case by (auto simp: ledger_clocks_def clocks_ok_def bind_sync_workspace_def res Let_def split: if_splits)
qed

interpretation clocks: database_law ledger_clocks
proof
  show "ledger_clocks (d\<lparr>ink := t\<rparr>) \<longleftrightarrow> ledger_clocks d" for d t
    by (simp add: ledger_clocks_def ledger_ink clocks_ok_def)
qed (rule command_clocks)

end
