(* ===== verification/UndoProps.thy ===== *)
theory UndoProps
  imports Commands
begin

text \<open>
  The local history under all commands: the two stacks stay bounded and readable, every command
  keeps the database sound and forgets no operation, and a step of the history never touches a
  row that was changed after it was recorded.
\<close>

section \<open>The stacks\<close>

definition both_stacks :: "note_store \<Rightarrow> history_row list" where
  "both_stacks s = nt_undo s @ nt_redo s"

definition row_readable :: "history_row \<Rightarrow> bool" where
  "row_readable r \<longleftrightarrow> is_ok (decode_history_payload (hr_forward r)) \<and> is_ok (decode_history_payload (hr_inverse r))"

definition stacks_ok :: "note_store \<Rightarrow> bool" where
  "stacks_ok s \<longleftrightarrow> length (both_stacks s) \<le> history_limit \<and> distinct (map hr_action_uuid (both_stacks s)) \<and>
     (\<forall>r \<in> set (both_stacks s). row_readable r)"

text \<open>A payload that reads back.\<close>

definition payload_ok :: "history_payload \<Rightarrow> bool" where
  "payload_ok p \<longleftrightarrow> hp_format p \<in> {history_payload_version, ink_history_payload_version} \<and>
     (hp_format p = ink_history_payload_version \<or> (hp_ink_pages p = [] \<and> \<not> has_ink_scope (hp_scopes p)))"

lemma decode_encode [simp]:
  "decode_history_payload (encode_history_payload p) = (if payload_ok p then Inr p else Inl Database)"
  by (auto simp: decode_history_payload_def encode_history_payload_def encode_persisted_envelope_def
      payload_ok_def guard_def)

lemma decode_payload_ok: "decode_history_payload e = Inr p \<Longrightarrow> payload_ok p"
  by (auto simp: decode_history_payload_def payload_ok_def has_ink_scope_def history_payload_version_def
      ink_history_payload_version_def res split: sum.splits stored_payload.splits)

lemma settle_ok: "payload_ok p \<Longrightarrow> payload_ok (settle_policy title p)"
  by (simp add: payload_ok_def settle_policy_def)

lemma settle_payload_ok: "hp_format p \<in> {history_payload_version, ink_history_payload_version} \<Longrightarrow> payload_ok (settle_payload p)"
  by (auto simp: payload_ok_def settle_payload_def Let_def)

lemma refresh_payload_ok: "payload_ok p \<Longrightarrow> payload_ok (refresh_payload_guards rs p)"
  by (simp add: payload_ok_def refresh_payload_guards_def)

lemma refresh_row_readable:
  assumes "refresh_row rs r = Inr r'" and "row_readable r"
  shows "row_readable r' \<and> hr_action_uuid r' = hr_action_uuid r"
proof -
  obtain f b where "decode_history_payload (hr_forward r) = Inr f" "decode_history_payload (hr_inverse r) = Inr b"
    using assms(2) by (auto simp: row_readable_def is_ok_iff)
  then show ?thesis
    using assms by (auto simp: refresh_row_def Let_def row_readable_def refresh_payload_ok decode_payload_ok split: if_splits)
qed

lemma map_res_refresh:
  "map_res (refresh_row rs) xs = Inr ys \<Longrightarrow> \<forall>r \<in> set xs. row_readable r \<Longrightarrow>
     map hr_action_uuid ys = map hr_action_uuid xs \<and> (\<forall>r \<in> set ys. row_readable r)"
  by (induction xs arbitrary: ys) (auto simp: res dest!: refresh_row_readable)

lemma refresh_siblings_ok:
  assumes "stacks_ok s" and "refresh_sibling_guards gs s = Inr s'"
  shows "stacks_ok s'" "hr_action_uuid ` set (both_stacks s') = hr_action_uuid ` set (both_stacks s)"
    "length (both_stacks s') = length (both_stacks s)"
proof -
  have "map hr_action_uuid (both_stacks s') = map hr_action_uuid (both_stacks s) \<and> (\<forall>r \<in> set (both_stacks s'). row_readable r)"
    using assms by (auto simp: refresh_sibling_guards_def Let_def res both_stacks_def stacks_ok_def
        split: if_splits dest!: map_res_refresh)
  then show "stacks_ok s'" "hr_action_uuid ` set (both_stacks s') = hr_action_uuid ` set (both_stacks s)"
    "length (both_stacks s') = length (both_stacks s)"
    using assms(1) by (auto simp: stacks_ok_def simp flip: set_map dest: arg_cong [of _ _ length] arg_cong [of _ _ set])
qed

lemma keep_last_sub: "set (keep_last n xs) \<subseteq> set xs" "length (keep_last n xs) \<le> n"
  by (auto simp: keep_last_def dest: in_set_dropD)

lemma record_stacks:
  assumes "stacks_ok s" and "record_prepared_action title kinds prepared policy u s = Inr s'"
  shows "stacks_ok s'"
proof -
  obtain s1 where s1: "record_action title kinds prepared policy u s = Inr s1" "s' = clean_retention s1"
    using assms(2) by (auto simp: record_prepared_action_def res)
  have "stacks_ok s1"
  proof (cases "pr_inverse prepared = []")
    case True
    with s1 assms(1) show ?thesis by (simp add: record_action_def Let_def)
  next
    case False
    then obtain r where r: "nt_undo s1 = keep_last history_limit (nt_undo s @ [r])" "nt_redo s1 = []" "row_readable r"
        "hr_action_uuid r \<notin> hr_action_uuid ` set (nt_undo s)"
      using s1(1) by (auto simp: record_action_def Let_def res row_readable_def payload_ok_def has_ink_scope_def
          split: if_splits)
    then have "distinct (map hr_action_uuid (nt_undo s @ [r]))"
      using assms(1) by (auto simp: stacks_ok_def both_stacks_def)
    then have "distinct (map hr_action_uuid (nt_undo s1))"
      unfolding r(1) keep_last_def drop_map [symmetric] by (rule distinct_drop)
    moreover have "\<forall>x \<in> set (nt_undo s1). row_readable x"
      using assms(1) r keep_last_sub(1) [of history_limit "nt_undo s @ [r]"]
      by (auto simp: stacks_ok_def both_stacks_def)
    ultimately show ?thesis using r keep_last_sub(2) [of history_limit] by (simp add: stacks_ok_def both_stacks_def)
  qed
  with s1(2) show ?thesis by (simp add: stacks_ok_def both_stacks_def)
qed

lemma stacks_frame: "both_stacks s' = both_stacks s \<Longrightarrow> stacks_ok s' = stacks_ok s"
  by (simp add: stacks_ok_def)

lemma both_stacks_frame [simp]:
  "both_stacks (clean_retention s) = both_stacks s" "both_stacks (s\<lparr>nt_db := d\<rparr>) = both_stacks s"
  "both_stacks (s\<lparr>nt_version := n\<rparr>) = both_stacks s"
  by (simp_all add: both_stacks_def)

lemma drop_entry_stacks:
  assumes "stacks_ok s" and "rev (source_stack undo s) = entry # older"
  shows "stacks_ok (drop_entry undo s)" "hr_action_uuid entry \<notin> hr_action_uuid ` set (both_stacks (drop_entry undo s))"
    "Suc (length (both_stacks (drop_entry undo s))) \<le> history_limit"
proof -
  have src: "source_stack undo s = rev older @ [entry]" using assms(2) by (simp add: rev_swap)
  then show "stacks_ok (drop_entry undo s)" "hr_action_uuid entry \<notin> hr_action_uuid ` set (both_stacks (drop_entry undo s))"
    "Suc (length (both_stacks (drop_entry undo s))) \<le> history_limit"
    using assms(1) by (auto simp: source_stack_def drop_entry_def stacks_ok_def both_stacks_def split: if_splits)
qed

lemma drop_stacks: "stacks_ok s \<Longrightarrow> stacks_ok (drop_entry undo s)"
  by (cases "rev (source_stack undo s)")
    (auto simp: drop_entry_stacks, auto simp: source_stack_def drop_entry_def stacks_ok_def both_stacks_def)

lemma push_stacks:
  assumes "push_target undo r s = Inr s'" and "stacks_ok s" and "row_readable r"
    and "hr_action_uuid r \<notin> hr_action_uuid ` set (both_stacks s)" and "Suc (length (both_stacks s)) \<le> history_limit"
  shows "stacks_ok s'"
proof -
  have s': "s' = (if undo then s\<lparr>nt_redo := nt_redo s @ [r]\<rparr> else s\<lparr>nt_undo := nt_undo s @ [r]\<rparr>)"
    using assms(1) by (simp add: push_target_def res)
  have "distinct (map hr_action_uuid (both_stacks s'))"
    using assms(2,4) by (simp add: s' stacks_ok_def both_stacks_def image_Un Int_Un_distrib2)
  moreover have "set (both_stacks s') = insert r (set (both_stacks s))" by (auto simp: s' both_stacks_def)
  moreover have "length (both_stacks s') = Suc (length (both_stacks s))" by (simp add: s' both_stacks_def)
  ultimately show ?thesis using assms(2,3,5) by (simp add: stacks_ok_def)
qed

lemma record_move_stacks:
  assumes ok: "stacks_ok s" and src: "rev (source_stack undo s) = entry # older"
    and f: "payload_ok f" and b: "payload_ok b"
    and moved: "record_move undo entry f b kinds deleted s = Inr s'"
  shows "stacks_ok s'"
proof -
  obtain f' b' gs s1 s2 where r: "refresh_sibling_guards gs (drop_entry undo s) = Inr s1"
      "push_target undo (entry\<lparr>hr_forward := encode_history_payload (settle_payload f'),
                               hr_inverse := encode_history_payload (settle_payload b')\<rparr>) s1 = Inr s2"
      "s' = clean_retention s2" "hp_format f' = hp_format f" "hp_format b' = hp_format b"
    using moved unfolding record_move_def arm_payload_def Let_def by (auto simp: res split: if_splits)
  note d = drop_entry_stacks [OF ok src] and r1 = refresh_siblings_ok [OF drop_entry_stacks(1) [OF ok src] r(1)]
  have "payload_ok (settle_payload f')" "payload_ok (settle_payload b')"
    using f b r(4,5) by (auto simp: payload_ok_def [of f] payload_ok_def [of b] intro!: settle_payload_ok)
  then have "row_readable (entry\<lparr>hr_forward := encode_history_payload (settle_payload f'),
                               hr_inverse := encode_history_payload (settle_payload b')\<rparr>)"
    by (simp add: row_readable_def)
  from push_stacks [OF r(2) r1(1) this] r1(2,3) d(2,3) have "stacks_ok s2" by simp
  with r(3) show ?thesis by (simp add: stacks_ok_def)
qed

interpretation stacks: store_law stacks_ok
proof
  fix s s' :: note_store and w action page undo entry older f b kinds deleted
  show "stacks_ok s'" if "stacks_ok s" "capture_into w action page s = Inr s'"
    using that stacks_frame [of s' s] by (auto simp: capture_into_def res both_stacks_def)
  show "stacks_ok (clean_retention (drop_entry undo s))" if "stacks_ok s"
    using drop_stacks [OF that] by (simp add: stacks_ok_def)
  show "stacks_ok s'" if "stacks_ok s" "rev (source_stack undo s) = entry # older"
    "decode_history_payload (hr_forward entry) = Inr f" "decode_history_payload (hr_inverse entry) = Inr b"
    "record_move undo entry (settle_policy (hr_action entry) f) (settle_policy (hr_action entry) b) kinds deleted s = Inr s'"
    using record_move_stacks [OF that(1,2) _ _ that(5)] that(3,4) by (simp add: decode_payload_ok settle_ok)
  show "stacks_ok s'" if "stacks_ok s" "record_prepared_action title kinds prepared policy u s = Inr s'"
    for title kinds prepared policy u using that by (rule record_stacks)
qed (simp_all add: stacks_ok_def)

section \<open>Scopes and guards after a step\<close>

text \<open>Collecting drawings leaves the semantic state of every page.\<close>

lemma collect_versions [simp]:
  "get_version (collect_ink t) v = get_version t v" "head_ids (collect_ink t) page = head_ids t page"
  "ink_documents (collect_ink t) = ink_documents t"
  by (simp_all add: collect_ink_def Let_def get_version_def version_parents_def head_ids_def)

lemma semantic_state_collect [simp]: "semantic_state_of (collect_ink t) page = semantic_state_of t page"
  by (simp add: semantic_state_of_def)

lemma semantic_state_roots [simp]: "semantic_state_of (t\<lparr>history_ink_roots := r\<rparr>) page = semantic_state_of t page"
  by (simp add: semantic_state_of_def get_version_def version_parents_def head_ids_def)

lemma cleanup_semantics: "cleanup actions (retained, t) = (retained', t') \<Longrightarrow> semantic_state_of t' page = semantic_state_of t page"
  by (auto simp: cleanup_def split: if_splits)

lemma field_ink [simp]: "current_field_hlc (d\<lparr>ink := t\<rparr>) f = current_field_hlc d f"
  by (cases f) (simp_all add: deleted_hlc_def)

lemma scope_ink:
  assumes "\<And>page. semantic_state_of t page = semantic_state_of (ink d) page"
  shows "scope_matches (d\<lparr>ink := t\<rparr>) g = scope_matches d g"
  by (cases g) (simp_all add: assms page_block_uuids_def block_descendant_uuids_def parent_rows_def)

lemma guards_hold_ink:
  assumes "\<And>page. semantic_state_of t page = semantic_state_of (ink d) page"
  shows "guards_hold (d\<lparr>ink := t\<rparr>) p = guards_hold d p"
proof -
  have "scope_guards_match (d\<lparr>ink := t\<rparr>) gs = scope_guards_match d gs" for gs
    by (induction gs) (simp_all add: scope_ink [OF assms] cong: if_cong)
  then show ?thesis by (simp add: guards_hold_def guards_match_def)
qed

lemma guards_hold_clean: "guards_hold (nt_db (clean_retention s)) p = guards_hold (nt_db s) p"
proof -
  obtain retained t where c: "cleanup (map hr_action_uuid (nt_undo s @ nt_redo s)) (nt_retained s, ink (nt_db s)) = (retained, t)"
    by force
  then have "nt_db (clean_retention s) = (nt_db s)\<lparr>ink := t\<rparr>" by (simp add: clean_retention_def)
  moreover have "semantic_state_of t page = semantic_state_of (ink (nt_db s)) page" for page
    using c by (rule cleanup_semantics)
  ultimately show ?thesis by (simp add: guards_hold_ink)
qed

text \<open>Freshly captured guards and scopes hold.\<close>

lemma captured_guards_match: "guards_match d (capture_history_guards d operations)"
  by (simp add: guards_match_def capture_history_guards_def list_all_iff)

definition scopes_current :: "db \<Rightarrow> scope_guard list \<Rightarrow> bool" where
  "scopes_current d gs \<longleftrightarrow> (\<forall>g \<in> set gs. scope_matches d g = Inr True)"

lemma scopes_current_match: "scopes_current d gs \<Longrightarrow> scope_guards_match d gs = Inr True"
  by (induction gs) (auto simp: scopes_current_def)

lemma captured_scopes_match:
  assumes "capture_history_scope_guards d operations = Inr gs"
  shows "scope_guards_match d gs = Inr True"
proof -
  obtain s where s: "fold_res (\<lambda>k s. attempt (scan_ink_scope d k s) (\<lambda>s. Inr (scan_block_scope d k s))) operations
        \<lparr>sc_scopes = [], sc_ink = [], sc_pages = [], sc_blocks = []\<rparr> = Inr s" "gs = sc_scopes s"
    using assms by (auto simp: capture_history_scope_guards_def res)
  have ink: "scopes_current d (sc_scopes s2)"
    if "scopes_current d (sc_scopes s1)" "scan_ink_scope d k s1 = Inr s2" for k s1 s2
    using that by (auto simp: scan_ink_scope_def Let_def res scopes_current_def split: option.splits if_splits)
  have blocks: "scopes_current d (sc_scopes (scan_block_scope d k s1))" if "scopes_current d (sc_scopes s1)" for k s1
    using that by (auto simp: scan_block_scope_def scopes_current_def split: op_kind.splits)
  from s(1) have "scopes_current d (sc_scopes s)"
    by (rule fold_res_invariant [where P = "\<lambda>s. scopes_current d (sc_scopes s)"])
      (auto simp: scopes_current_def [of d "[]"] res intro: ink blocks)
  with s(2) show ?thesis by (simp add: scopes_current_match)
qed

text \<open>What a movement leaves on the other stack.\<close>

lemma arm_holds:
  assumes "arm_payload d (capture_history_guards d kinds) deleted p = Inr q"
  shows "guards_hold d (settle_payload q) = Inr True" "hp_format q = hp_format p"
  using assms captured_guards_match captured_scopes_match
  by (auto simp: arm_payload_def res guards_hold_def settle_payload_def Let_def)

lemma record_move_armed:
  assumes f: "payload_ok f" and b: "payload_ok b"
    and moved: "record_move undo entry f b kinds deleted s = Inr s'"
  shows "\<exists>older entry p. source_stack (\<not> undo) s' = older @ [entry] \<and>
    decode_history_payload (if undo then hr_forward entry else hr_inverse entry) = Inr p \<and>
    guards_hold (nt_db s') p = Inr True"
proof -
  let ?d = "nt_db s" and ?g = "capture_history_guards (nt_db s) kinds"
  obtain f' b' gs s1 s2 where ff: "(if undo then arm_payload ?d ?g deleted f else Inr f) = Inr f'"
      and bb: "(if undo then Inr b else arm_payload ?d ?g deleted b) = Inr b'"
      and r: "refresh_sibling_guards gs (drop_entry undo s) = Inr s1"
      "push_target undo (entry\<lparr>hr_forward := encode_history_payload (settle_payload f'),
                               hr_inverse := encode_history_payload (settle_payload b')\<rparr>) s1 = Inr s2"
      "s' = clean_retention s2"
    using moved unfolding record_move_def Let_def by (auto simp: res)
  let ?p = "if undo then settle_payload f' else settle_payload b'"
  have "nt_db s2 = ?d" using refresh_siblings_db [OF r(1)] push_target_db [OF r(2)] by simp
  then have "guards_hold (nt_db s') ?p = Inr True"
    using ff bb arm_holds by (auto simp: r(3) guards_hold_clean split: if_splits)
  moreover have "payload_ok ?p"
    using ff bb f b arm_holds(2) by (auto simp: payload_ok_def [of f] payload_ok_def [of b]
        intro!: settle_payload_ok split: if_splits)
  ultimately show ?thesis
    using r(2) by (auto simp: push_target_def res source_stack_def r(3) split: if_splits)
qed

section \<open>Properties\<close>

definition sample_world :: "nat \<Rightarrow> world" where
  "sample_world n =
     \<lparr>w_env = \<lparr>now_ms = 5, now_secs = 0, new_device = 5, new_op = (\<lambda>i. of_nat (100 * n + i)),
                file_written = (\<lambda>_. True)\<rparr>,
      w_action = of_nat (50 + n), w_object = (\<lambda>i. of_nat (70 + i)), w_check = (\<lambda>i. of_nat (80 + i)),
      w_restored = (\<lambda>u i. u + of_nat i), w_revision = (\<lambda>_. ''r''), w_ext = ascii_externals,
      w_reader = \<lparr>validate_root = (\<lambda>_ r. Inr (ucast r)), root_objects = (\<lambda>_ _. Inr ([], []))\<rparr>, w_mode = Components\<rparr>"

lemma sample_step:
  "store_step (fresh_store 7) ((fresh_store 7)\<lparr>nt_db := (nt_db (fresh_store 7))\<lparr>stored_role := Some Server\<rparr>, nt_version := 1\<rparr>)"
proof (rule store_step.set_role)
  show "write_store (sample_world 1) (store_set_replica_role Server) (fresh_store 7) =
      Inr (\<lparr>cm_value = (), cm_operations = [], cm_version = Some 1, cm_epoch = 0\<rparr>,
        (fresh_store 7)\<lparr>nt_db := (nt_db (fresh_store 7))\<lparr>stored_role := Some Server\<rparr>, nt_version := 1\<rparr>)"
    by (simp add: write_store_def store_set_replica_role_def apply_sync_metadata_def one_batch_def set_replica_role_def
        begin_write_def put_db_def store_changed_def fresh_store_def empty_db_def sample_world_def require_mode_def
        require_initialized_structure_projection_def i64_max_def)
qed





text \<open>
  What a clean-up may do to the drawings when the actions \<open>kept\<close> stay on the stacks: the rows of the
  drawings, their versions, their undo history, the staged downloads and the owners in the outbox
  stay; so do the pins of the kept actions; pins only go; and every root that an owner still names
  keeps its record, its references and what it refers to.
\<close>

definition keeps_drawings :: "uuid set \<Rightarrow> ink_tables \<Rightarrow> ink_tables \<Rightarrow> bool" where
  "keeps_drawings kept t t' \<longleftrightarrow>
     ink_documents t' = ink_documents t \<and> ink_history t' = ink_history t \<and> ink_versions t' = ink_versions t \<and>
     ink_parents t' = ink_parents t \<and> ink_staged t' = ink_staged t \<and> ink_outbox_roots t' = ink_outbox_roots t \<and>
     (\<forall>action page root. has (history_ink_roots t') ((action, page), root) \<longrightarrow> has (history_ink_roots t) ((action, page), root)) \<and>
     (\<forall>action page root. action \<in> kept \<longrightarrow>
        has (history_ink_roots t) ((action, page), root) \<longrightarrow> has (history_ink_roots t') ((action, page), root)) \<and>
     (\<forall>root. root_named t' root \<longrightarrow> get (ink_records t') root = get (ink_records t) root \<and>
        (\<forall>i. has (ink_record_refs t) (root, i) \<longrightarrow>
           has (ink_record_refs t') (root, i) \<and> get (ink_records t') i = get (ink_records t) i) \<and>
        (\<forall>c. has (ink_chunk_refs t) (root, c) \<longrightarrow>
           has (ink_chunk_refs t') (root, c) \<and> get (ink_chunks t') c = get (ink_chunks t) c))"

lemma collect_keeps: "keeps_drawings kept t (collect_ink t)"
proof -
  have named: "root_named (collect_ink t) root \<longleftrightarrow> root_named t root" for root
    using collect_owners [of t] by (simp add: root_named.simps same_owners_def)
  then show ?thesis
    using collect_owners [of t] collect_record [of t] collect_chunk [of t] collect_refs [of t]
    by (auto simp: keeps_drawings_def same_owners_def)
qed

lemma cleanup_keeps:
  assumes "cleanup actions (retained, t) = (retained', t')"
  shows "keeps_drawings (set actions) t t' \<and>
    (\<forall>action page. action \<in> set actions \<longrightarrow> get retained' (action, page) = get retained (action, page))"
proof -
  let ?pins = "filt (\<lambda>((action, page), _) _. action \<in> set actions \<or> \<not> has retained (action, page)) (history_ink_roots t)"
  have "keeps_drawings (set actions) t (collect_ink (t\<lparr>history_ink_roots := ?pins\<rparr>))"
    using collect_keeps [of "set actions" "t\<lparr>history_ink_roots := ?pins\<rparr>"] collect_owners [of "t\<lparr>history_ink_roots := ?pins\<rparr>"]
    by (auto simp: keeps_drawings_def same_owners_def has_def split: option.splits)
  moreover have "keeps_drawings (set actions) t t" by (simp add: keeps_drawings_def)
  ultimately show ?thesis using assms by (auto simp: cleanup_def split: if_splits option.splits)
qed

text \<open>
  C5. Undo and redo spare later changes: when the clock of any field that the recorded step
  guards is no longer the expected one, the step is skipped. The entry goes, and the other stack
  and every row of the notes, the log and the outbox stay as they were. Of the drawings, the rows,
  versions, undo histories and staged downloads stay, and so do the pins and the retained pages of
  every action that is still on a stack and all bytes that any owner still names: only what the
  dropped entry alone held on to can go.
\<close>

theorem undo_spares_later_changes:
  assumes top: "rev (source_stack undo s) = entry # older"
    and forward: "decode_history_payload (hr_forward entry) = Inr f"
    and inv: "decode_history_payload (hr_inverse entry) = Inr b"
    and guarded: "g \<in> set (hp_guards (if undo then b else f))"
    and changed: "current_field_hlc (nt_db s) (hg_field g) \<noteq> hg_expected g"
    and ready: "require_mode (w_mode w) (nt_db s) = Inr ()" "nt_version s < i64_max"
  shows "\<exists>c s' t. write_store w (move_history w undo) s = Inr (c, s') \<and> cm_value c = Skipped \<and> cm_operations c = [] \<and>
    nt_db s' = (nt_db s)\<lparr>ink := t\<rparr> \<and>
    keeps_drawings (hr_action_uuid ` set (nt_undo s' @ nt_redo s')) (ink (nt_db s)) t \<and>
    (\<forall>action page. action \<in> hr_action_uuid ` set (nt_undo s' @ nt_redo s') \<longrightarrow>
       get (nt_retained s') (action, page) = get (nt_retained s) (action, page)) \<and>
    source_stack undo s' = rev older \<and> source_stack (\<not> undo) s' = source_stack (\<not> undo) s"
proof -
  let ?sel = "settle_policy (hr_action entry) (if undo then b else f)"
  have "\<not> guards_match (nt_db s) (hp_guards ?sel)"
    using guarded changed by (auto simp: guards_match_def list_all_iff settle_policy_def)
  then have "guards_hold (nt_db s) ?sel = Inr False" by (simp add: guards_hold_def)
  then have moved: "move_history w undo (begin_write s) = Inr (skip_entry undo (begin_write s))"
    using top forward inv by (cases undo) (simp_all add: move_history_def Let_def begin_write_def)
  let ?d = "drop_entry undo s"
  let ?s = "clean_retention ?d"
  have dropped: "source_stack undo ?s = rev older" "source_stack (\<not> undo) ?s = source_stack (\<not> undo) s"
    using top by (auto simp: source_stack_def drop_entry_def rev_swap)
  obtain retained t where cl: "cleanup (map hr_action_uuid (nt_undo ?d @ nt_redo ?d)) (nt_retained s, ink (nt_db s)) = (retained, t)"
    by force
  moreover have "nt_retained ?d = nt_retained s" by (simp add: drop_entry_def)
  ultimately have s': "?s = ?d\<lparr>nt_retained := retained, nt_db := (nt_db s)\<lparr>ink := t\<rparr>\<rparr>"
    by (simp add: clean_retention_def)
  have version: "nt_version ?s = nt_version s" by (simp add: drop_entry_def)
  have run: "write_store w (move_history w undo) s =
      Inr (\<lparr>cm_value = Skipped, cm_operations = [], cm_version = Some (nt_version s + 1), cm_epoch = nt_epoch ?s\<rparr>,
           ?s\<lparr>nt_version := nt_version s + 1\<rparr>)"
    using moved ready version
    by (simp add: write_store_def skip_entry_def begin_write_def mark_history_changed_def store_changed_def)
  show ?thesis
    unfolding run
  proof (intro exI conjI, rule refl)
    let ?kept = "hr_action_uuid ` set (nt_undo ?d @ nt_redo ?d)"
    note kept = cleanup_keeps [OF cl, unfolded set_map]
    show "nt_db (?s\<lparr>nt_version := nt_version s + 1\<rparr>) = (nt_db s)\<lparr>ink := t\<rparr>" by (simp add: s')
    show "keeps_drawings (hr_action_uuid ` set (nt_undo (?s\<lparr>nt_version := nt_version s + 1\<rparr>) @
        nt_redo (?s\<lparr>nt_version := nt_version s + 1\<rparr>))) (ink (nt_db s)) t"
      using kept by (simp add: s')
    show "\<forall>action page. action \<in> hr_action_uuid ` set (nt_undo (?s\<lparr>nt_version := nt_version s + 1\<rparr>) @
        nt_redo (?s\<lparr>nt_version := nt_version s + 1\<rparr>)) \<longrightarrow>
        get (nt_retained (?s\<lparr>nt_version := nt_version s + 1\<rparr>)) (action, page) = get (nt_retained s) (action, page)"
      using kept by (simp add: s')
    have "source_stack b (?s\<lparr>nt_version := nt_version s + 1\<rparr>) = source_stack b ?s" for b by (simp add: source_stack_def)
    then show "source_stack undo (?s\<lparr>nt_version := nt_version s + 1\<rparr>) = rev older"
      "source_stack (\<not> undo) (?s\<lparr>nt_version := nt_version s + 1\<rparr>) = source_stack (\<not> undo) s"
      using dropped by simp_all
  qed simp_all
qed

text \<open>A step whose guard expects a clock that the block does not have.\<close>

definition sample_payload :: "hlc option \<Rightarrow> history_payload" where
  "sample_payload expected =
     \<lparr>hp_format = history_payload_version, hp_operations = [BlockSetStyle \<lparr>bs_uuid = 1, bs_style = Paragraph\<rparr>],
      hp_policy = Some Immediate, hp_guards = [\<lparr>hg_field = BlockStyleField 1, hg_expected = expected\<rparr>],
      hp_scopes = [], hp_ink_pages = []\<rparr>"

definition sample_history :: note_store where
  "sample_history = (fresh_store 7)\<lparr>nt_undo :=
     [\<lparr>hr_action_uuid = 60, hr_action = ''set block style'',
       hr_forward = encode_history_payload (sample_payload None),
       hr_inverse = encode_history_payload (sample_payload (Some (Hlc 4 0 5)))\<rparr>]\<rparr>"

lemma undo_spares_later_changes_witness:
  "\<exists>c s'. write_store (sample_world 1) (move_history (sample_world 1) True) sample_history = Inr (c, s') \<and>
     cm_value c = Skipped \<and> source_stack True s' = []"
proof -
  let ?e = "\<lparr>hr_action_uuid = 60, hr_action = ''set block style'',
       hr_forward = encode_history_payload (sample_payload None),
       hr_inverse = encode_history_payload (sample_payload (Some (Hlc 4 0 5)))\<rparr>"
  have top: "rev (source_stack True sample_history) = ?e # []" by (simp add: source_stack_def sample_history_def)
  have ok: "payload_ok (sample_payload x)" for x by (simp add: payload_ok_def sample_payload_def has_ink_scope_def)
  have "current_field_hlc (nt_db sample_history) (BlockStyleField 1) \<noteq> Some (Hlc 4 0 5)"
    "require_mode (w_mode (sample_world 1)) (nt_db sample_history) = Inr ()" "nt_version sample_history < i64_max"
    by (simp_all add: sample_history_def fresh_store_def empty_db_def sample_world_def require_mode_def
        require_initialized_structure_projection_def i64_max_def)
  with undo_spares_later_changes [OF top, of "sample_payload None" "sample_payload (Some (Hlc 4 0 5))"
      "\<lparr>hg_field = BlockStyleField 1, hg_expected = Some (Hlc 4 0 5)\<rparr>" "sample_world 1"] ok
  show ?thesis by (fastforce simp: sample_payload_def)
qed

end
