(* ===== verification/EditProps.thy ===== *)
theory EditProps
  imports UndoProps
begin

text \<open>
  What an edit does, from the command to the rows: the authored clock is later than every clock
  the replica has seen, so the edit wins, touches the one block and nothing else, and undo brings
  the old value back.
\<close>

section \<open>The rows that a local operation writes\<close>

text \<open>The tables that hold notes.\<close>

definition content where
  "content (d :: db) = (pages d, blocks d, tombstones d, intents d, aliases d, attachment_lww d, attachments d,
                identities d, journal_pages d)"

lemma content_frame [simp]:
  "content (d\<lparr>outbox := a\<rparr>) = content d" "content (d\<lparr>applied_ops := b\<rparr>) = content d"
  "content (d\<lparr>last_hlc := c\<rparr>) = content d" "content (d\<lparr>local_device := e\<rparr>) = content d"
  "content (d\<lparr>page_links := f\<rparr>) = content d" "content (d\<lparr>block_refs := g\<rparr>) = content d"
  "content (d\<lparr>ink := h\<rparr>) = content d"
  by (simp_all add: content_def)

lemma contentD:
  assumes "content d = content d'"
  shows "pages d = pages d'" "blocks d = blocks d'" "tombstones d = tombstones d'" "intents d = intents d'"
    "aliases d = aliases d'" "attachment_lww d = attachment_lww d'" "identities d = identities d'"
  using assms by (simp_all add: content_def)

lemma content_field: "content d = content d' \<Longrightarrow> current_field_hlc d f = current_field_hlc d' f"
  by (cases f) (simp_all add: deleted_hlc_def contentD [of d d'])

lemma content_refs [simp]:
  "content (replace_block_refs ext u m n d) = content d" "content (reconcile_page_links_for_alias a d) = content d"
  by (simp_all add: replace_block_refs_def reconcile_page_links_for_alias_def Let_def split: prod.split)

lemma content_fold: "(\<And>x d. content (f x d) = content d) \<Longrightarrow> content (fold f xs d) = content d"
  by (induction xs arbitrary: d) auto

lemma content_finish: "\<not> e_dirty (fst st) \<Longrightarrow> content (snd (finish_projections ext st)) = content (snd st)"
  by (cases st) (auto simp: finish_projections_def ensure_structure_current_def content_fold split: prod.split)

lemma content_enqueue [simp]: "content (enqueue_ink x d) = content d"
  by (simp add: enqueue_ink_def Let_def split: op_kind.split)

lemma effects_clean [simp]: "\<not> e_dirty (effects_for policy mode)"
  by (simp add: effects_for_def effects_immediate_def effects_deferred_def split: projection_policy.split)

text \<open>An authored clock is later than every stored clock that a clock can exceed.\<close>

lemma authored_above:
  assumes l: "ledger_ok d" and m: "meta_or_insert_device_id env d = (device, d1)"
    and r: "held (last_hlc d) r" "can_tick r"
  shows "r < send (last_hlc d) (now_ms env) device"
proof (cases "last_hlc d")
  case None
  with r show ?thesis by (simp add: held_def)
next
  case (Some h)
  have dev: "device_id h = device"
  proof -
    have "ledger_ok d1" "local_device d1 = Some device" "last_hlc d1 = Some h"
      using l evolves_device [OF m] device_row [OF m] Some by (auto simp: evolves_def)
    then show ?thesis by (auto simp: ledger_ok_def)
  qed
  have le: "r \<le> h" using r Some by (simp add: held_def)
  show ?thesis
  proof (cases "can_tick h")
    case True
    from le_less_trans [OF le send_greater [OF True]] Some show ?thesis by simp
  next
    case False
    with r(2) have "r \<noteq> h" by auto
    with le have "r < h" by simp
    with send_ge [OF dev] Some show ?thesis by (auto intro: less_le_trans)
  qed
qed

lemma local_one:
  assumes ok: "apply_local_kinds ext env [k] policy mode d = Inr (ops, d')" and l: "ledger_ok d"
  obtains x us st d1 where "op_kind x = k" "content d1 = content d"
    "apply_one ext x (effects_for policy mode, d1) = Inr (us, st)"
    "\<And>r. held (last_hlc d) r \<Longrightarrow> can_tick r \<Longrightarrow> r < op_hlc x"
    "\<And>n. clock_room (last_hlc d) (Suc n) \<Longrightarrow> clock_room (Some (op_hlc x)) n"
    "last_hlc d' = Some (op_hlc x)"
    "\<not> e_dirty (fst st) \<Longrightarrow> content d' = content (snd st)"
proof -
  obtain device d1 st where m: "meta_or_insert_device_id env d = (device, d1)"
    and a: "author_ops env (workspace d1) device (last_hlc d1) 0 [k] = Inr ops"
    and f: "fold_res (apply_authored ext (publishes_authored_ops d1)) ops (effects_for policy mode, d1) = Inr st"
    and d': "d' = (if ops = [] then snd (finish_projections ext st)
           else (snd (finish_projections ext st))\<lparr>last_hlc := Some (op_hlc (last ops))\<rparr>)"
    using ok by (rule apply_local_obtain)
  have last: "last_hlc d1 = last_hlc d" and same: "content d1 = content d" using device_row [OF m] by auto
  obtain x where x: "ops = [x]" "op_kind x = k" "op_hlc x = send (last_hlc d) (now_ms env) device"
    using a by (auto simp: Let_def res last)
  obtain us st1 st2 where one: "apply_one ext x (effects_for policy mode, d1) = Inr (us, st1)"
    and ins: "lift_db (insert_applied (op_id x)) st1 = Inr st2"
    and push: "(if publishes_authored_ops d1 then lift_db (push_outbox x (timestamp_seconds (op_hlc x))) st2 else Inr st2) = Inr st"
    using f by (auto simp: x apply_authored_def res)
  have st: "fst st = fst st1" "content (snd st) = content (snd st1)"
    using ins push by (auto simp: lift_db_def insert_applied_def push_outbox_def res split: if_splits)
  show ?thesis
  proof (rule that)
    show "op_kind x = k" "content d1 = content d" "apply_one ext x (effects_for policy mode, d1) = Inr (us, st1)" by fact+
    show "r < op_hlc x" if "held (last_hlc d) r" "can_tick r" for r
      using authored_above [OF l m that] x by simp
    show "clock_room (Some (op_hlc x)) n" if "clock_room (last_hlc d) (Suc n)" for n
      using send_room [OF that] x by simp
    show "last_hlc d' = Some (op_hlc x)" by (simp add: d' x)
    show "content d' = content (snd st1)" if "\<not> e_dirty (fst st1)"
      using that st content_finish [of st ext] by (simp add: d' x)
  qed
qed

text \<open>One edit of a live block, column by column.\<close>

definition set_markdown :: "externals \<Rightarrow> string \<Rightarrow> hlc \<Rightarrow> block_row \<Rightarrow> block_row" where
  "set_markdown ext markdown t r =
     r\<lparr>b_markdown := markdown, b_stemmed := stem ext markdown, b_markdown_hlc := Some t,
       b_updated := max (b_updated r) (timestamp_seconds t)\<rparr>"

definition set_style :: "block_style \<Rightarrow> hlc \<Rightarrow> block_row \<Rightarrow> block_row" where
  "set_style style t r =
     r\<lparr>b_style := style, b_style_hlc := Some t, b_updated := max (b_updated r) (timestamp_seconds t)\<rparr>"

lemma markdown_wins:
  assumes "get (blocks (snd st)) u = Some r" and "hlc_wins (b_markdown_hlc r) t"
  shows "content (snd (apply_block_markdown ext u md t st)) =
      content (snd st\<lparr>blocks := put u (set_markdown ext md t r) (blocks (snd st))\<rparr>)"
    "e_dirty (fst (apply_block_markdown ext u md t st)) = e_dirty (fst st)"
  using assms by (cases st; simp add: apply_block_markdown_def request_block_refs_def set_markdown_def Let_def)+

lemma style_wins:
  assumes "get (blocks d) u = Some r" and "hlc_wins (b_style_hlc r) t"
  shows "Apply.apply_block_style u style t d = d\<lparr>blocks := put u (set_style style t r) (blocks d)\<rparr>"
  using assms by (simp add: Apply.apply_block_style_def set_style_def)

definition overtaken :: "hlc option \<Rightarrow> bool" where
  "overtaken stored \<longleftrightarrow> (\<forall>t. stored = Some t \<longrightarrow> can_tick t)"

lemma winning_clock:
  assumes "clocks_ok d" and "under_opt (last_hlc d) stored" and "overtaken stored"
    and "\<And>r. held (last_hlc d) r \<Longrightarrow> can_tick r \<Longrightarrow> r < t"
  shows "hlc_wins stored t"
  using assms by (auto simp: hlc_wins_def overtaken_def split: option.split)

text \<open>The clock of an edit: above all the others, and no closer to the end than one step.\<close>

definition fresh_clock :: "db \<Rightarrow> hlc \<Rightarrow> bool" where
  "fresh_clock d t \<longleftrightarrow> (\<forall>r. held (last_hlc d) r \<longrightarrow> can_tick r \<longrightarrow> r < t) \<and>
     (\<forall>n. clock_room (last_hlc d) (Suc n) \<longrightarrow> clock_room (Some t) n)"

lemma fresh_wins:
  assumes "below (last_hlc d) d" and "under_opt (last_hlc d) stored" and "overtaken stored" and "fresh_clock d t"
  shows "hlc_wins stored t"
  using assms by (auto simp: hlc_wins_def overtaken_def fresh_clock_def split: option.split)

lemma local_edit:
  assumes ok: "apply_local_kinds ext env [k] policy mode d = Inr (ops, d')" and l: "ledger_ok d"
    and effect: "\<And>x d1 us st. op_kind x = k \<Longrightarrow> content d1 = content d \<Longrightarrow> fresh_clock d (op_hlc x) \<Longrightarrow>
      apply_one ext x (effects_for policy mode, d1) = Inr (us, st) \<Longrightarrow>
      \<not> e_dirty (fst st) \<and> content (snd st) = C (op_hlc x)"
  shows "\<exists>t. fresh_clock d t \<and> last_hlc d' = Some t \<and> content d' = C t"
  using ok l
proof (rule local_one)
  fix x us st d1
  assume x: "op_kind x = k" and same: "content d1 = content d"
    and one: "apply_one ext x (effects_for policy mode, d1) = Inr (us, st)"
    and above: "\<And>r. held (last_hlc d) r \<Longrightarrow> can_tick r \<Longrightarrow> r < op_hlc x"
    and room: "\<And>n. clock_room (last_hlc d) (Suc n) \<Longrightarrow> clock_room (Some (op_hlc x)) n"
    and at: "last_hlc d' = Some (op_hlc x)"
    and after_finish: "\<not> e_dirty (fst st) \<Longrightarrow> content d' = content (snd st)"
  have "fresh_clock d (op_hlc x)" using above room by (simp add: fresh_clock_def)
  moreover from effect [OF x same this one] have "\<not> e_dirty (fst st)" "content (snd st) = C (op_hlc x)" by simp_all
  ultimately show ?thesis using after_finish at by auto
qed

lemma content_blocks: "content d1 = content d \<Longrightarrow> content (d1\<lparr>blocks := b\<rparr>) = content (d\<lparr>blocks := b\<rparr>)"
  by (simp add: content_def)

lemma local_markdown:
  assumes ok: "apply_local_kinds ext env [BlockSetMarkdown \<lparr>bm_uuid = u, bm_markdown = md\<rparr>] policy mode d = Inr (ops, d')"
    and k: "ledger_clocks d" and r: "get (blocks d) u = Some r" and live: "\<not> is_tombstoned d u"
    and old: "overtaken (b_markdown_hlc r)"
  shows "\<exists>t. fresh_clock d t \<and> last_hlc d' = Some t \<and> content d' = content (d\<lparr>blocks := put u (set_markdown ext md t r) (blocks d)\<rparr>)"
  using ok
proof (rule local_edit)
  show "ledger_ok d" using k by (simp add: ledger_clocks_def)
  have below: "below (last_hlc d) d" using k by (simp add: clocks_ok_def ledger_clocks_def)
  fix x d1 us st
  assume x: "op_kind x = BlockSetMarkdown \<lparr>bm_uuid = u, bm_markdown = md\<rparr>" and d1: "content d1 = content d"
    and t: "fresh_clock d (op_hlc x)" and one: "apply_one ext x (effects_for policy mode, d1) = Inr (us, st)"
  have wins: "hlc_wins (b_markdown_hlc r) (op_hlc x)" using fresh_wins [OF below below_row(5) [OF below r] old t] .
  have "st = apply_block_markdown ext u md (op_hlc x) (effects_for policy mode, d1)"
    using one live contentD(3) [OF d1] by (simp add: apply_one_def x apply_block_set_markdown_def is_tombstoned_def res)
  then show "\<not> e_dirty (fst st) \<and> content (snd st) = content (d\<lparr>blocks := put u (set_markdown ext md (op_hlc x) r) (blocks d)\<rparr>)"
    using markdown_wins [of "(effects_for policy mode, d1)" u r "op_hlc x" ext md] r wins
    by (simp add: contentD(2) [OF d1] content_blocks [OF d1])
qed

lemma local_style:
  assumes ok: "apply_local_kinds ext env [BlockSetStyle \<lparr>bs_uuid = u, bs_style = style\<rparr>] policy mode d = Inr (ops, d')"
    and k: "ledger_clocks d" and r: "get (blocks d) u = Some r" and live: "\<not> is_tombstoned d u"
    and old: "overtaken (b_style_hlc r)"
  shows "\<exists>t. fresh_clock d t \<and> last_hlc d' = Some t \<and> content d' = content (d\<lparr>blocks := put u (set_style style t r) (blocks d)\<rparr>)"
  using ok
proof (rule local_edit)
  show "ledger_ok d" using k by (simp add: ledger_clocks_def)
  have below: "below (last_hlc d) d" using k by (simp add: clocks_ok_def ledger_clocks_def)
  fix x d1 us st
  assume x: "op_kind x = BlockSetStyle \<lparr>bs_uuid = u, bs_style = style\<rparr>" and d1: "content d1 = content d"
    and t: "fresh_clock d (op_hlc x)" and one: "apply_one ext x (effects_for policy mode, d1) = Inr (us, st)"
  have wins: "hlc_wins (b_style_hlc r) (op_hlc x)" using fresh_wins [OF below below_row(6) [OF below r] old t] .
  have "st = on_db (Apply.apply_block_style u style (op_hlc x)) (effects_for policy mode, d1)"
    using one live contentD(3) [OF d1] by (simp add: apply_one_def x apply_block_set_style_def is_tombstoned_def res)
  then show "\<not> e_dirty (fst st) \<and> content (snd st) = content (d\<lparr>blocks := put u (set_style style (op_hlc x) r) (blocks d)\<rparr>)"
    using style_wins [of d1 u r "op_hlc x" style] r wins
    by (simp add: on_db_def contentD(2) [OF d1] content_blocks [OF d1])
qed

section \<open>Acceptance\<close>

text \<open>
  A store that is open for one authored operation: its projection is current, it has an owner,
  its version can be counted, and the drawn operation identifier is new.
\<close>

definition open_for :: "world \<Rightarrow> note_store \<Rightarrow> bool" where
  "open_for w s \<longleftrightarrow> require_mode (w_mode w) (nt_db s) = Inr () \<and> workspace (nt_db s) \<noteq> 0 \<and>
     nt_version s < i64_max \<and> \<not> has (applied_ops (nt_db s)) (new_op (w_env w) 0)"

lemma enqueue_frame [simp]:
  "applied_ops (enqueue_ink x d) = applied_ops d" "workspace (enqueue_ink x d) = workspace d"
  "structure_version (enqueue_ink x d) = structure_version d"
  by (simp_all add: enqueue_ink_def Let_def split: op_kind.split)

lemma push_accepted:
  assumes "\<not> queued d (op_id x)"
  shows "\<exists>d'. push_outbox x created d = Inr d' \<and> applied_ops d' = applied_ops d \<and> workspace d' = workspace d \<and>
    structure_version d' = structure_version d"
proof -
  have "\<not> list_ex (\<lambda>r. o_op_id r = op_id x) (outbox d)" using assms unfolding queued_def list_ex_iff by force
  then show ?thesis by (simp add: push_outbox_def)
qed

lemma local_accepted:
  assumes l: "ledger_ok d" and m: "require_mode mode d = Inr ()" and w: "workspace d \<noteq> 0"
    and v: "validate_kind k = Inr ()" and free: "\<not> has (applied_ops d) (new_op env 0)"
    and effect: "\<And>x d1. op_kind x = k \<Longrightarrow> op_workspace x = workspace d1 \<Longrightarrow> content d1 = content d \<Longrightarrow>
      is_ok (apply_one ext x (effects_for policy mode, d1))"
  shows "\<exists>ops d'. apply_local_kinds ext env [k] policy mode d = Inr (ops, d') \<and> ops \<noteq> [] \<and>
    workspace d' = workspace d \<and> structure_version d' = structure_version d \<and>
    applied_ops d' = put (new_op env 0) None (applied_ops d)"
proof -
  obtain device d1 where dev: "meta_or_insert_device_id env d = (device, d1)" by force
  then have d1: "d1 = d\<lparr>local_device := Some device\<rparr>" using device_row by blast
  let ?x = "\<lparr>op_id = new_op env 0, op_workspace = workspace d, op_device = device,
             op_hlc = send (last_hlc d) (now_ms env) device, op_format = format_version, op_kind = k\<rparr>"
  have a: "author_ops env (workspace d1) device (last_hlc d1) 0 [k] = Inr [?x]"
    using w v by (simp add: d1 validate_op_def format_version_def Let_def)
  obtain us st1 where one: "apply_one ext ?x (effects_for policy mode, d1) = Inr (us, st1)"
    using effect [of ?x d1] by (auto simp: d1 is_ok_iff)
  have meta: "applied_ops (snd st1) = applied_ops d" "outbox (snd st1) = outbox d" "workspace (snd st1) = workspace d"
    "structure_version (snd st1) = structure_version d"
    using apply_one_meta [OF one] by (simp_all add: meta_def d1)
  have new: "\<not> queued d (new_op env 0)" using l free by (auto simp: queued_def ledger_ok_def has_def)
  let ?d2 = "(snd st1)\<lparr>applied_ops := put (new_op env 0) None (applied_ops d)\<rparr>"
  obtain d3 where push: "(if publishes_authored_ops d1 then push_outbox ?x (timestamp_seconds (op_hlc ?x)) ?d2 else Inr ?d2) = Inr d3"
    and d3: "applied_ops d3 = applied_ops ?d2" "workspace d3 = workspace d" "structure_version d3 = structure_version d"
    using push_accepted [of ?d2 ?x "timestamp_seconds (op_hlc ?x)"] new meta
    by (cases "publishes_authored_ops d1") (auto simp: queued_def)
  have ins: "insert_applied (new_op env 0) (snd st1) = Inr ?d2"
    using free by (simp add: insert_applied_def meta)
  define st where "st = (fst st1, d3)"
  have st: "apply_authored ext (publishes_authored_ops d1) ?x (effects_for policy mode, d1) = Inr st"
    using push one by (auto simp: apply_authored_def ins lift_db_def st_def split: if_splits)
  have after: "applied_ops (snd st) = put (new_op env 0) None (applied_ops d)" "workspace (snd st) = workspace d"
      "structure_version (snd st) = structure_version d"
    using d3 by (simp_all add: st_def)
  have "meta (snd (finish_projections ext st)) = meta (snd st)" by (rule meta_finish)
  with after have "applied_ops (snd (finish_projections ext st)) = put (new_op env 0) None (applied_ops d)"
    "workspace (snd (finish_projections ext st)) = workspace d"
    "structure_version (snd (finish_projections ext st)) = structure_version d"
    by (simp_all add: meta_def)
  moreover have "apply_local_kinds ext env [k] policy mode d =
      Inr ([?x], (snd (finish_projections ext st))\<lparr>last_hlc := Some (op_hlc ?x)\<rparr>)"
    unfolding apply_local_kinds_def dev prod.case a by (simp add: v m st Let_def cong del: attempt_cong)
  ultimately show ?thesis by simp
qed

lemma edit_accepted:
  assumes l: "ledger_ok d" and w: "require_mode mode d = Inr ()" "workspace d \<noteq> 0" "\<not> has (applied_ops d) (new_op env 0)"
    and k: "\<not> kind_conflicts d u BlockObject"
    and edit: "k \<in> {BlockSetMarkdown \<lparr>bm_uuid = u, bm_markdown = md\<rparr>, BlockSetStyle \<lparr>bs_uuid = u, bs_style = style\<rparr>}"
  shows "\<exists>ops d'. apply_local_kinds ext env [k] policy mode d = Inr (ops, d') \<and> ops \<noteq> [] \<and>
    workspace d' = workspace d \<and> structure_version d' = structure_version d \<and>
    applied_ops d' = put (new_op env 0) None (applied_ops d)"
  using l w(1,2) _ w(3)
proof (rule local_accepted)
  show "validate_kind k = Inr ()" using edit by auto
  fix x :: op and d1 assume "op_kind x = k" "op_workspace x = workspace d1" "content d1 = content d"
  moreover have "\<not> kind_conflicts d1 u BlockObject"
    using k contentD [OF \<open>content d1 = content d\<close>] by (simp add: kind_conflicts_def)
  ultimately show "is_ok (apply_one ext x (effects_for policy mode, d1))"
    using edit by (auto simp: apply_one_def apply_block_set_markdown_def apply_block_set_style_def ensure_object_kind_def)
qed

section \<open>Commands\<close>

lemma content_clean [simp]: "content (nt_db (clean_retention s)) = content (nt_db s)"
  using clean_retention_db [of s] by auto

lemma write_store_ok:
  assumes "write_store w command s = Inr (c, s')"
  obtains tx where "command (begin_write s) = Inr (cm_value c, tx)" "nt_db s' = tx_db tx"
    "nt_undo s' = nt_undo (tx_store tx)" "nt_redo s' = nt_redo (tx_store tx)"
  using assms by (auto simp: write_store_def Let_def res split: if_splits)

lemma apply_local_ok:
  assumes "apply_local w kinds policy tx = Inr tx'"
  obtains ops where "apply_local_kinds (w_ext w) (w_env w) kinds policy (w_mode w) (tx_db tx) = Inr (ops, tx_db tx')"
    "nt_undo (tx_store tx') = nt_undo (tx_store tx)" "nt_redo (tx_store tx') = nt_redo (tx_store tx)"
  using assms by (auto simp: apply_local_def apply_kinds_def one_batch_def put_db_def res)

lemma live_kind: "sound d \<Longrightarrow> has (blocks d) u \<Longrightarrow> \<not> is_tombstoned d u \<Longrightarrow> \<not> kind_conflicts d u BlockObject"
  by (auto simp: kind_conflicts_def is_tombstoned_def has_def sound_def identities_ok_def)

lemma apply_local_accepted:
  assumes "apply_local_kinds (w_ext w) (w_env w) [k] policy (w_mode w) (tx_db tx) = Inr (ops, d)" and "\<not> publishes_ink [k]"
    and "\<not> tx_applied tx"
  shows "apply_local w [k] policy tx = Inr ((put_db d tx)\<lparr>tx_operations := map op_kind ops, tx_durable := tx_durable tx \<or> ops \<noteq> []\<rparr>)"
  using assms by (simp add: apply_local_def apply_kinds_def one_batch_def)

lemma saved_rows:
  assumes k: "ledger_clocks d" and r: "get (blocks d) u = Some r"
    and live: "\<not> is_tombstoned d u" and old: "can_tick (bk_revision (row_to_block u r))"
    and one: "apply_local_kinds ext env [BlockSetMarkdown \<lparr>bm_uuid = u, bm_markdown = markdown\<rparr>] policy mode d = Inr (ops, d')"
  shows "\<exists>t. bk_revision (row_to_block u r) < t \<and>
    blocks d' = put u (set_markdown ext markdown t r) (blocks d)"
proof -
  have rev: "overtaken (b_markdown_hlc r)" using old by (auto simp: overtaken_def row_to_block_def)
  from local_markdown [OF one k r live rev] obtain t where t: "fresh_clock d t"
    and same: "content d' = content (d\<lparr>blocks := put u (set_markdown ext markdown t r) (blocks d)\<rparr>)" by auto
  have below: "below (last_hlc d) d" using k by (simp add: ledger_clocks_def clocks_ok_def)
  have "held (last_hlc d) (bk_revision (row_to_block u r))"
    using below_row(4,5) [OF below r] by (auto simp: row_to_block_def split: option.split)
  then have "bk_revision (row_to_block u r) < t" using t old by (simp add: fresh_clock_def)
  with contentD(2) [OF same] show ?thesis by auto
qed

text \<open>
  C4. Saving a text: on a store in order, for a block that is not deleted and whose text's clock
  is not saturated, \<open>save_block_content\<close> refuses a stale revision and accepts everything else.
  What it accepts, it keeps: the block shows the new text, answered and stored, under a later
  revision if the text is new; nothing else of the block changes but its time, and no other block.
\<close>

theorem saved_text_is_kept:
  assumes order: "sound (nt_db s)" "ledger_clocks (nt_db s)" "open_for w s"
    and b: "get_block (nt_db s) u = Some b" and live: "\<not> is_tombstoned (nt_db s) u" and old: "can_tick (bk_revision b)"
  shows "if markdown \<noteq> bk_markdown b \<and> expected \<notin> {None, Some (bk_revision b)}
    then write_store w (save_block_content w u markdown expected) s =
      Inl (Conflict ''block content changed since editing began'')
    else \<exists>c s' b'. write_store w (save_block_content w u markdown expected) s = Inr (c, s') \<and>
      fst (cm_value c) = b' \<and> get_block (nt_db s') u = Some b' \<and> bk_markdown b' = markdown \<and>
      (if markdown = bk_markdown b then b' = b else bk_revision b < bk_revision b') \<and>
      b'\<lparr>bk_markdown := bk_markdown b, bk_revision := bk_revision b, bk_updated := bk_updated b\<rparr> = b \<and>
      (\<forall>v. v \<noteq> u \<longrightarrow> get_block (nt_db s') v = get_block (nt_db s) v)"
proof -
  let ?k = "BlockSetMarkdown \<lparr>bm_uuid = u, bm_markdown = markdown\<rparr>" and ?d = "nt_db s"
  obtain r where r: "get (blocks ?d) u = Some r" "b = row_to_block u r" using b by (auto simp: get_block_def)
  have mode: "require_mode (w_mode w) ?d = Inr ()" and room: "nt_version s < i64_max" using order(3) by (simp_all add: open_for_def)
  consider "markdown = bk_markdown b" | "markdown \<noteq> bk_markdown b" "expected \<notin> {None, Some (bk_revision b)}"
    | "markdown \<noteq> bk_markdown b" "expected \<in> {None, Some (bk_revision b)}" by blast
  then show ?thesis
  proof cases
    case 1
    with b mode show ?thesis
      by (simp add: write_store_def save_block_content_def require_block_def begin_write_def store_changed_def)
  next
    case 2
    with b mode show ?thesis
      by (auto simp: write_store_def save_block_content_def require_block_def begin_write_def split: option.splits)
  next
    case 3
    have "\<not> kind_conflicts ?d u BlockObject" using live_kind [OF order(1) _ live] r by (simp add: has_def)
    then obtain ops d where one: "apply_local_kinds (w_ext w) (w_env w) [?k] Immediate (w_mode w) ?d = Inr (ops, d)" "ops \<noteq> []"
      using edit_accepted [of ?d "w_mode w" "w_env w" u ?k markdown undefined "w_ext w" Immediate] order(2,3)
      by (auto simp: ledger_clocks_def open_for_def)
    from saved_rows [OF order(2) r(1) live _ one(1)] old r(2) obtain t where t: "bk_revision b < t"
      "blocks d = put u (set_markdown (w_ext w) markdown t r) (blocks ?d)" by auto
    let ?b = "row_to_block u (set_markdown (w_ext w) markdown t r)"
    have loc: "apply_local w [?k] Immediate (begin_write s) =
        Inr ((put_db d (begin_write s))\<lparr>tx_operations := map op_kind ops, tx_durable := True\<rparr>)"
      using apply_local_accepted [of w ?k Immediate "begin_write s" ops d] one by (simp add: begin_write_def publishes_ink_def)
    have "\<exists>refs tx. save_block_content w u markdown expected (begin_write s) = Inr ((?b, refs), tx) \<and> tx_durable tx \<and>
        tx_store tx = s\<lparr>nt_db := d\<rparr>"
      using 3 b loc t(2) by (auto simp: save_block_content_def require_block_def get_block_def begin_write_def put_db_def)
    then have "\<exists>c. write_store w (save_block_content w u markdown expected) s =
        Inr (c, s\<lparr>nt_db := d, nt_version := nt_version s + 1\<rparr>) \<and> fst (cm_value c) = ?b"
      using mode room by (auto simp: write_store_def store_changed_def)
    then show ?thesis
      using 3 t r by (cases "b_markdown_hlc r") (auto simp: get_block_def row_to_block_def set_markdown_def)
  qed
qed

section \<open>Undoing an edit\<close>

definition style_entry :: "uuid \<Rightarrow> uuid \<Rightarrow> block_style \<Rightarrow> db \<Rightarrow> history_row \<Rightarrow> bool" where
  "style_entry a u old d entry \<longleftrightarrow> hr_action_uuid entry = a \<and> hr_action entry = ''set block style'' \<and>
     (\<exists>f p. decode_history_payload (hr_forward entry) = Inr f \<and> hp_operations f = [BlockSetStyle p]) \<and>
     decode_history_payload (hr_inverse entry) =
       Inr \<lparr>hp_format = history_payload_version, hp_operations = [BlockSetStyle \<lparr>bs_uuid = u, bs_style = old\<rparr>],
            hp_policy = Some Immediate,
            hp_guards = capture_history_guards d [BlockSetStyle \<lparr>bs_uuid = u, bs_style = old\<rparr>],
            hp_scopes = [], hp_ink_pages = []\<rparr>"

lemma content_guards: "content d = content d' \<Longrightarrow> capture_history_guards d ks = capture_history_guards d' ks"
  by (simp add: capture_history_guards_def content_field [of d d'])

lemma keep_last_snoc: "keep_last history_limit (xs @ [x]) = drop (length xs - 49) xs @ [x]"
  by (simp add: keep_last_def history_limit_def)

lemma style_prepared:
  assumes "get_block (nt_db s) u = Some b"
  shows "prepare_action w [BlockSetStyle \<lparr>bs_uuid = u, bs_style = style\<rparr>] s =
    Inr (\<lparr>pr_inverse = [BlockSetStyle \<lparr>bs_uuid = u, bs_style = bk_style b\<rparr>], pr_ink_pages = []\<rparr>, s)"
  using assms by (auto simp: prepare_action_def capture_inverse_kinds_def if_present_def get_block_def row_to_block_def)

lemma style_scopes: "capture_history_scope_guards d [BlockSetStyle p] = Inr []"
  by (simp add: capture_history_scope_guards_def scan_ink_scope_def scan_block_scope_def)

lemma style_recorded:
  assumes "w_action w \<notin> hr_action_uuid ` set (nt_undo s)"
  shows "\<exists>s' older entry. record_prepared_action ''set block style'' [BlockSetStyle p]
      \<lparr>pr_inverse = [BlockSetStyle \<lparr>bs_uuid = u, bs_style = old\<rparr>], pr_ink_pages = []\<rparr> Immediate (w_action w) s = Inr s' \<and>
    (\<exists>t. nt_db s' = (nt_db s)\<lparr>ink := t\<rparr>) \<and> nt_version s' = nt_version s \<and> nt_redo s' = [] \<and>
    nt_undo s' = older @ [entry] \<and> style_entry (w_action w) u old (nt_db s') entry"
proof -
  obtain s1 entry where s1: "record_action ''set block style'' [BlockSetStyle p]
      \<lparr>pr_inverse = [BlockSetStyle \<lparr>bs_uuid = u, bs_style = old\<rparr>], pr_ink_pages = []\<rparr> Immediate (w_action w) s = Inr s1"
    "nt_undo s1 = drop (length (nt_undo s) - 49) (nt_undo s) @ [entry]" "nt_redo s1 = []" "nt_version s1 = nt_version s"
    "nt_db s1 = nt_db s" "style_entry (w_action w) u old (nt_db s) entry"
    using assms by (simp add: record_action_def style_scopes keep_last_snoc Let_def style_entry_def payload_ok_def has_ink_scope_def)
  obtain t where t: "nt_db (clean_retention s1) = (nt_db s)\<lparr>ink := t\<rparr>" using clean_retention_db [of s1] s1(5) by auto
  have "style_entry (w_action w) u old (nt_db (clean_retention s1)) entry"
    using s1(6) by (simp add: t style_entry_def content_guards [of "(nt_db s)\<lparr>ink := t\<rparr>" "nt_db s"])
  with s1 t show ?thesis by (auto simp: record_prepared_action_def)
qed

text \<open>The change of style as a whole: accepted, with a way back on the stack.\<close>

lemma style_set:
  assumes l: "ledger_ok (nt_db s)" and open_s: "open_for w s" and b: "get_block (nt_db s) u = Some b"
    and k: "\<not> kind_conflicts (nt_db s) u BlockObject" and other: "bk_style b \<noteq> style"
    and fresh: "w_action w \<notin> hr_action_uuid ` set (nt_undo s)"
    and kept: "\<forall>ops d. apply_local_kinds (w_ext w) (w_env w) [BlockSetStyle \<lparr>bs_uuid = u, bs_style = style\<rparr>] Immediate
      (w_mode w) (nt_db s) = Inr (ops, d) \<longrightarrow> has (blocks d) u"
  shows "\<exists>c s' ops d older entry. write_store w (set_block_style w u style) s = Inr (c, s') \<and>
    apply_local_kinds (w_ext w) (w_env w) [BlockSetStyle \<lparr>bs_uuid = u, bs_style = style\<rparr>]
      Immediate (w_mode w) (nt_db s) = Inr (ops, d) \<and> (\<exists>t. nt_db s' = d\<lparr>ink := t\<rparr>) \<and>
    applied_ops d = put (new_op (w_env w) 0) None (applied_ops (nt_db s)) \<and> workspace d = workspace (nt_db s) \<and>
    structure_version d = structure_version (nt_db s) \<and>
    require_block (nt_db s') u = Inr (cm_value c) \<and> nt_version s' = nt_version s + 1 \<and> nt_redo s' = [] \<and>
    nt_undo s' = older @ [entry] \<and> style_entry (w_action w) u (bk_style b) (nt_db s') entry"
proof -
  let ?k = "BlockSetStyle \<lparr>bs_uuid = u, bs_style = style\<rparr>" and ?d = "nt_db s"
  have mode: "require_mode (w_mode w) ?d = Inr ()" and room: "nt_version s < i64_max" using open_s by (simp_all add: open_for_def)
  have u: "bk_uuid b = u" using b by (auto simp: get_block_def row_to_block_def)
  obtain ops d where one: "apply_local_kinds (w_ext w) (w_env w) [?k] Immediate (w_mode w) ?d = Inr (ops, d)" "ops \<noteq> []"
      "workspace d = workspace ?d" "structure_version d = structure_version ?d"
      "applied_ops d = put (new_op (w_env w) 0) None (applied_ops ?d)"
    using edit_accepted [of ?d "w_mode w" "w_env w" u ?k undefined style "w_ext w" Immediate] l k open_s
    by (auto simp: open_for_def)
  have loc: "apply_local w [?k] Immediate (begin_write s) =
      Inr ((put_db d (begin_write s))\<lparr>tx_operations := map op_kind ops, tx_durable := True\<rparr>)"
    using apply_local_accepted [of w ?k Immediate "begin_write s" ops d] one by (simp add: begin_write_def publishes_ink_def)
  obtain s' older entry t where rec: "record_prepared_action ''set block style'' [?k]
      \<lparr>pr_inverse = [BlockSetStyle \<lparr>bs_uuid = u, bs_style = bk_style b\<rparr>], pr_ink_pages = []\<rparr> Immediate (w_action w)
      (s\<lparr>nt_db := d\<rparr>) = Inr s'" and s': "nt_db s' = d\<lparr>ink := t\<rparr>" "nt_version s' = nt_version s" "nt_redo s' = []"
      "nt_undo s' = older @ [entry]" "style_entry (w_action w) u (bk_style b) (nt_db s') entry"
    using style_recorded [of w "s\<lparr>nt_db := d\<rparr>" "\<lparr>bs_uuid = u, bs_style = style\<rparr>" u "bk_style b"] fresh by auto
  obtain b' where b': "require_block (nt_db s') u = Inr b'"
    using kept one(1) by (auto simp: s' require_block_def get_block_def has_def)
  have prep: "prepare_action w [?k] (tx_store (begin_write s)) =
      Inr (\<lparr>pr_inverse = [BlockSetStyle \<lparr>bs_uuid = u, bs_style = bk_style b\<rparr>], pr_ink_pages = []\<rparr>, s)"
    using style_prepared [OF b] by (simp add: begin_write_def)
  have act: "apply_action w ''set block style'' [?k] Immediate (begin_write s) =
      Inr (mark_history_changed ((put_db d (begin_write s))\<lparr>tx_operations := map op_kind ops, tx_durable := True, tx_store := s'\<rparr>))"
    using loc rec unfolding apply_action_def prep
    by (simp add: begin_write_def put_db_def on_store_def has_history_def)
  have "set_block_style w u style (begin_write s) =
      Inr (b', mark_history_changed ((put_db d (begin_write s))\<lparr>tx_operations := map op_kind ops, tx_durable := True, tx_store := s'\<rparr>))"
    using act b b' other u
    by (simp add: set_block_style_def Outliner.apply_block_style_def require_block_def begin_write_def put_db_def mark_history_changed_def)
  then have "\<exists>c. write_store w (set_block_style w u style) s = Inr (c, s'\<lparr>nt_version := nt_version s + 1\<rparr>) \<and> cm_value c = b'"
    using mode room s' by (simp add: write_store_def store_changed_def mark_history_changed_def put_db_def)
  with one s' b' show ?thesis by auto
qed

lemma refresh_accepted: "\<forall>r \<in> set xs. row_readable r \<Longrightarrow> is_ok (map_res (refresh_row rs) xs)"
proof (induction xs)
  case (Cons r rs')
  then show ?case by (auto simp: row_readable_def is_ok_iff refresh_row_def Let_def)
qed simp

lemma siblings_accepted:
  assumes "stacks_ok s"
  shows "is_ok (refresh_sibling_guards gs s)"
proof -
  let ?f = "refresh_row (map (\<lambda>g. (hg_field g, hg_expected g)) gs)"
  have "is_ok (map_res ?f (nt_undo s))" "is_ok (map_res ?f (nt_redo s))"
    using assms by (auto simp: stacks_ok_def both_stacks_def intro!: refresh_accepted)
  then show ?thesis by (auto simp: refresh_sibling_guards_def Let_def is_ok_iff)
qed

lemma move_recorded:
  assumes ok: "stacks_ok s" and top: "nt_undo s = older @ [entry]" and redo: "nt_redo s = []"
    and f: "hp_operations f = [BlockSetStyle p]"
  shows "\<exists>s'. record_move True entry f b kinds [] s = Inr s' \<and> nt_version s' = nt_version s \<and> (\<exists>t. nt_db s' = (nt_db s)\<lparr>ink := t\<rparr>)"
proof -
  obtain f' where arm: "arm_payload (nt_db s) (capture_history_guards (nt_db s) kinds) [] f = Inr f'"
    by (simp add: arm_payload_def f style_scopes)
  have stack: "rev (source_stack True s) = entry # rev older" by (simp add: source_stack_def top)
  obtain s1 where s1: "refresh_sibling_guards (hp_guards (settle_payload f')) (drop_entry True s) = Inr s1"
    using siblings_accepted [OF drop_entry_stacks(1) [OF ok stack]] by (auto simp: is_ok_iff)
  have same: "nt_version s1 = nt_version s" "nt_redo s1 = []"
    using s1 redo by (auto simp: refresh_sibling_guards_def Let_def drop_entry_def res split: if_splits)
  let ?r = "entry\<lparr>hr_forward := encode_history_payload (settle_payload f'), hr_inverse := encode_history_payload (settle_payload b)\<rparr>"
  have moved: "record_move True entry f b kinds [] s = Inr (clean_retention (s1\<lparr>nt_redo := [?r]\<rparr>))"
    using arm s1 same by (simp add: record_move_def push_target_def source_stack_def Let_def)
  with record_move_db [OF moved] same show ?thesis by auto
qed

lemma style_undo:
  assumes ok: "stacks_ok s" and l: "ledger_ok (nt_db s)" and open_s: "open_for w s" and k: "\<not> kind_conflicts (nt_db s) u BlockObject"
    and top: "nt_undo s = older @ [entry]" and redo: "nt_redo s = []" and entry: "style_entry a u old (nt_db s) entry"
  shows "\<exists>c s' ops d. undo_command w s = Inr (c, s') \<and> cm_value c = Applied \<and>
    apply_local_kinds (w_ext w) (w_env w) [BlockSetStyle \<lparr>bs_uuid = u, bs_style = old\<rparr>]
      Immediate (w_mode w) (nt_db s) = Inr (ops, d) \<and> (\<exists>t. nt_db s' = d\<lparr>ink := t\<rparr>)"
proof -
  let ?k = "BlockSetStyle \<lparr>bs_uuid = u, bs_style = old\<rparr>" and ?d = "nt_db s"
  have mode: "require_mode (w_mode w) ?d = Inr ()" and room: "nt_version s < i64_max" using open_s by (simp_all add: open_for_def)
  obtain f p where f: "decode_history_payload (hr_forward entry) = Inr f" "hp_operations f = [BlockSetStyle p]"
    using entry by (auto simp: style_entry_def)
  obtain b where b: "decode_history_payload (hr_inverse entry) = Inr b" "hp_operations b = [?k]" "hp_ink_pages b = []"
      "hp_policy b = Some Immediate" "hp_scopes b = []" "guards_match ?d (hp_guards b)"
    using entry captured_guards_match by (auto simp: style_entry_def)
  let ?b = "settle_policy (hr_action entry) b" and ?f = "settle_policy (hr_action entry) f"
  have sel: "hp_operations ?b = [?k]" "hp_ink_pages ?b = []" "guards_hold ?d ?b = Inr True"
      "resolve_projection_policy (hr_action entry) ?b = Immediate" "hp_operations ?f = [BlockSetStyle p]"
    using b f by (simp_all add: settle_policy_def guards_hold_def resolve_projection_policy_def)
  obtain ops d where one: "apply_local_kinds (w_ext w) (w_env w) [?k] Immediate (w_mode w) ?d = Inr (ops, d)" "ops \<noteq> []"
    using edit_accepted [of ?d "w_mode w" "w_env w" u ?k undefined old "w_ext w" Immediate] l k open_s
    by (auto simp: open_for_def)
  let ?tx = "(put_db d (begin_write s))\<lparr>tx_operations := map op_kind ops, tx_durable := True\<rparr>"
  have loc: "apply_local w [?k] Immediate (begin_write s) = Inr ?tx"
    using apply_local_accepted [of w ?k Immediate "begin_write s" ops d] one by (simp add: begin_write_def publishes_ink_def)
  obtain s' where mv: "record_move True entry ?f ?b [?k] [] (s\<lparr>nt_db := d\<rparr>) = Inr s'" "nt_version s' = nt_version s"
      "\<exists>t. nt_db s' = d\<lparr>ink := t\<rparr>"
    using move_recorded [of "s\<lparr>nt_db := d\<rparr>" older entry ?f p ?b "[?k]"] ok top redo sel stacks_frame [of "s\<lparr>nt_db := d\<rparr>" s]
    by auto
  have "move_history w True (begin_write s) = Inr (Applied, mark_history_changed (?tx\<lparr>tx_store := s'\<rparr>))"
    using top f(1) b(1) sel loc mv(1)
    by (simp add: move_history_def source_stack_def begin_write_def Let_def restored_drawings_def apply_selected_def
        on_store_def put_db_def)
  then have "\<exists>c. undo_command w s = Inr (c, s'\<lparr>nt_version := nt_version s + 1\<rparr>) \<and> cm_value c = Applied"
    using mode room mv by (simp add: undo_command_def write_store_def store_changed_def mark_history_changed_def)
  with one mv show ?thesis by auto
qed

text \<open>
  C7. A step that was just taken back can be taken again: after an undo or redo that was
  applied, the entry on the other stack can be read, and all its guards and scopes hold.
\<close>

theorem applied_step_can_be_reversed:
  assumes "move_history w undo tx = Inr (Applied, tx')"
  shows "\<exists>older entry p. source_stack (\<not> undo) (tx_store tx') = older @ [entry] \<and>
    decode_history_payload (if undo then hr_forward entry else hr_inverse entry) = Inr p \<and>
    guards_hold (tx_db tx') p = Inr True"
  using assms
proof (cases rule: move_history_cases)
  case (step entry older f b selected policy s deleted kinds tx1)
  then show ?thesis by (intro record_move_armed) (auto dest!: decode_payload_ok intro: settle_ok)
qed simp_all

text \<open>The two steps by rows.\<close>

lemma style_set_undone:
  assumes order: "sound (nt_db s)" "ledger_clocks (nt_db s)" "stacks_ok s" "open_for w s" "open_for w' s"
    and fresh: "w_action w \<notin> hr_action_uuid ` set (nt_undo s)" "new_op (w_env w') 0 \<noteq> new_op (w_env w) 0"
      "nt_version s + 1 < i64_max"
    and r: "get (blocks (nt_db s)) u = Some r" and live: "\<not> is_tombstoned (nt_db s) u" and other: "b_style r \<noteq> style"
    and early: "overtaken (b_style_hlc r)" and room: "clock_room (last_hlc (nt_db s)) 2"
  shows "\<exists>c s1 c' s2 t t'. write_store w (set_block_style w u style) s = Inr (c, s1) \<and>
    require_block (nt_db s1) u = Inr (cm_value c) \<and> blocks (nt_db s1) = put u (set_style style t r) (blocks (nt_db s)) \<and>
    undo_command w' s1 = Inr (c', s2) \<and> cm_value c' = Applied \<and>
    blocks (nt_db s2) = put u (set_style (b_style r) t' (set_style style t r)) (blocks (nt_db s1))"
proof -
  let ?d = "nt_db s"
  let ?b = "row_to_block u r"
  have b: "get_block ?d u = Some ?b" "bk_style ?b = b_style r" using r by (simp_all add: get_block_def row_to_block_def)
  have l: "ledger_ok ?d" using order(2) by (simp add: ledger_clocks_def)
  have k: "\<not> kind_conflicts ?d u BlockObject" using live_kind [OF order(1) _ live] r by (simp add: has_def)
  note rows = local_style [OF _ order(2) r live early]
  have kept: "\<forall>ops d. apply_local_kinds (w_ext w) (w_env w) [BlockSetStyle \<lparr>bs_uuid = u, bs_style = style\<rparr>]
      Immediate (w_mode w) ?d = Inr (ops, d) \<longrightarrow> has (blocks d) u"
    using rows by (fastforce dest!: contentD(2) simp: has_def)
  have "bk_style ?b \<noteq> style" using other b(2) by simp
  from style_set [OF l order(4) b(1) k this fresh(1) kept, unfolded b(2)] obtain c s1 ops d older entry t0 where
    set: "write_store w (set_block_style w u style) s = Inr (c, s1)"
    and one: "apply_local_kinds (w_ext w) (w_env w) [BlockSetStyle \<lparr>bs_uuid = u, bs_style = style\<rparr>] Immediate (w_mode w) ?d = Inr (ops, d)"
    and s1: "nt_db s1 = d\<lparr>ink := t0\<rparr>" "applied_ops d = put (new_op (w_env w) 0) None (applied_ops ?d)"
      "workspace d = workspace ?d" "structure_version d = structure_version ?d" "require_block (nt_db s1) u = Inr (cm_value c)"
      "nt_version s1 = nt_version s + 1" "nt_redo s1 = []" "nt_undo s1 = older @ [entry]"
      "style_entry (w_action w) u (b_style r) (nt_db s1) entry"
    by (elim exE conjE) (rule that)
  from rows [OF one] obtain t where t: "fresh_clock ?d t"
    and d: "content d = content (?d\<lparr>blocks := put u (set_style style t r) (blocks ?d)\<rparr>)" by auto
  let ?r = "set_style style t r"
  have same: "blocks (nt_db s1) = put u ?r (blocks ?d)" "tombstones (nt_db s1) = tombstones ?d" "identities (nt_db s1) = identities ?d"
    using s1(1) contentD(2,3,7) [OF d] by auto
  have step: "store_step s s1" using set by (rule store_step.set_style)
  have k1: "ledger_clocks (nt_db s1)" and stacks1: "stacks_ok s1"
    using clocks.step_law [OF step] stacks.step_law [OF step] order by simp_all
  have open1: "open_for w' s1"
    using order(5) fresh s1(1-4,6) by (auto simp: open_for_def require_mode_def require_initialized_structure_projection_def)
  have kind1: "\<not> kind_conflicts (nt_db s1) u BlockObject" using k same by (simp add: kind_conflicts_def)
  have "ledger_ok (nt_db s1)" using k1 by (simp add: ledger_clocks_def)
  from style_undo [OF stacks1 this open1 kind1 s1(8,7,9)] obtain c' s2 ops' d' where undo: "undo_command w' s1 = Inr (c', s2)"
    and app: "cm_value c' = Applied" and two: "apply_local_kinds (w_ext w') (w_env w')
      [BlockSetStyle \<lparr>bs_uuid = u, bs_style = b_style r\<rparr>] Immediate (w_mode w') (nt_db s1) = Inr (ops', d')"
      and s2: "\<exists>t. nt_db s2 = d'\<lparr>ink := t\<rparr>" by blast
  have "clock_room (Some t) 1" using t room by (auto simp: fresh_clock_def numeral_2_eq_2)
  then have tick: "overtaken (b_style_hlc ?r)"
    by (auto simp: overtaken_def set_style_def can_tick_def clock_room_def unsigned_minus_1_eq_mask mask_eq_exp_minus_1)
  have "get (blocks (nt_db s1)) u = Some ?r" "\<not> is_tombstoned (nt_db s1) u"
    using same live by (simp_all add: is_tombstoned_def)
  from local_style [OF two k1 this tick] obtain t' where
    "content d' = content (nt_db s1\<lparr>blocks := put u (set_style (b_style r) t' ?r) (blocks (nt_db s1))\<rparr>)" by auto
  then have "blocks (nt_db s2) = put u (set_style (b_style r) t' ?r) (blocks (nt_db s1))"
    using s2 by (auto dest!: contentD(2))
  with set s1(5) same(1) undo app show ?thesis by blast
qed

text \<open>
  C3. Undo restores the style: on a store in order, giving a block that is not deleted another
  style is accepted, and so is undoing it, as the next command; it is applied, not skipped, and
  afterwards every block reads as before the change, apart from the time of its last update. The
  style's clock must not be saturated, and the replica's clock must have room for the two steps.
\<close>

theorem undo_restores_the_style:
  assumes order: "sound (nt_db s)" "ledger_clocks (nt_db s)" "stacks_ok s" "open_for w s" "open_for w' s"
    and fresh: "w_action w \<notin> hr_action_uuid ` set (nt_undo s)" "new_op (w_env w') 0 \<noteq> new_op (w_env w) 0"
      "nt_version s + 1 < i64_max"
    and b: "get_block (nt_db s) u = Some b" and live: "\<not> is_tombstoned (nt_db s) u" and other: "bk_style b \<noteq> style"
    and old: "overtaken (Option.bind (get (blocks (nt_db s)) u) b_style_hlc)" and room: "clock_room (last_hlc (nt_db s)) 2"
  shows "\<exists>c s1 c' s2. write_store w (set_block_style w u style) s = Inr (c, s1) \<and>
    bk_style (cm_value c) = style \<and> get_block (nt_db s1) u = Some (cm_value c) \<and>
    undo_command w' s1 = Inr (c', s2) \<and> cm_value c' = Applied \<and>
    (\<exists>at. get_block (nt_db s2) u = Some (b\<lparr>bk_updated := at\<rparr>)) \<and>
    (\<forall>v. v \<noteq> u \<longrightarrow> get_block (nt_db s2) v = get_block (nt_db s) v)"
proof -
  obtain r where r: "get (blocks (nt_db s)) u = Some r" "b = row_to_block u r" using b by (auto simp: get_block_def)
  then have "b_style r \<noteq> style" "overtaken (b_style_hlc r)" using other old by (auto simp: row_to_block_def)
  from style_set_undone [OF order fresh r(1) live this room] obtain c s1 c' s2 t t' where
    run: "write_store w (set_block_style w u style) s = Inr (c, s1)" "undo_command w' s1 = Inr (c', s2)" "cm_value c' = Applied"
    and rows: "require_block (nt_db s1) u = Inr (cm_value c)" "blocks (nt_db s1) = put u (set_style style t r) (blocks (nt_db s))"
      "blocks (nt_db s2) = put u (set_style (b_style r) t' (set_style style t r)) (blocks (nt_db s1))" by blast
  have "cm_value c = row_to_block u (set_style style t r)" "get_block (nt_db s1) u = Some (cm_value c)"
    using rows by (simp_all add: require_block_def get_block_def)
  with run rows r show ?thesis
    by (cases "b_markdown_hlc r") (auto simp: get_block_def row_to_block_def set_style_def)
qed

section \<open>A store in order\<close>

definition edit_db :: db where
  "edit_db = (empty_db 7)\<lparr>pages := put 9 sample_page tempty, identities := put 9 Note tempty,
     blocks := put 1 sample_block tempty, last_hlc := Some (Hlc 1 0 5), local_device := Some 5,
     structure_version := structure_projection_version\<rparr>"

definition edit_store :: note_store where
  "edit_store = (fresh_store 7)\<lparr>nt_db := edit_db\<rparr>"

lemma edit_sound: "sound edit_db"
proof -
  have "block_edges edit_db = {}" by (auto simp: block_edges_def edit_db_def empty_db_def sample_block_def split: if_splits)
  then show ?thesis
    by (auto simp: sound_defs forest_def acyclic_def edit_db_def empty_db_def sample_block_def sample_page_def has_def
        split: if_splits)
qed

lemma edit_order: "ledger_clocks edit_db"
proof -
  have "held T (Hlc 1 0 1)" if "Some (Hlc 1 0 5) \<le> T" for T
    using order_trans [OF _ that, of "Some (Hlc 1 0 1)"] by (simp add: held_def)
  then show ?thesis
    by (auto simp: ledger_clocks_def ledger_ok_def clocks_ok_def below_def tab_all_def page_under_def block_under_def
        edit_db_def empty_db_def sample_block_def sample_page_def seqs_unique_def split: if_splits)
qed

lemma edit_open: "open_for (sample_world n) edit_store" if "0 < n"
  by (simp add: open_for_def sample_world_def edit_store_def edit_db_def fresh_store_def empty_db_def require_mode_def
      require_initialized_structure_projection_def i64_max_def)

lemma edit_block: "get_block (nt_db edit_store) 1 = Some (row_to_block 1 sample_block)"
  by (simp add: get_block_def edit_store_def edit_db_def)

lemma saved_text_is_kept_witness:
  "\<exists>c s'. write_store (sample_world 1) (save_block_content (sample_world 1) 1 ''tea'' None) edit_store = Inr (c, s') \<and>
     map_option bk_markdown (get_block (nt_db s') 1) = Some ''tea''"
proof -
  have "\<not> is_tombstoned (nt_db edit_store) 1" "can_tick (bk_revision (row_to_block 1 sample_block))"
    by (simp_all add: is_tombstoned_def edit_store_def edit_db_def empty_db_def row_to_block_def sample_block_def can_tick_def)
  from saved_text_is_kept [OF _ _ edit_open edit_block this, of 1 "''tea''" None] edit_sound edit_order
  show ?thesis by (fastforce simp: edit_store_def)
qed

lemma edit_facts:
  "stacks_ok edit_store" "\<not> is_tombstoned (nt_db edit_store) 1" "bk_style (row_to_block 1 sample_block) \<noteq> Quote"
  "overtaken (Option.bind (get (blocks (nt_db edit_store)) 1) b_style_hlc)" "clock_room (last_hlc (nt_db edit_store)) 2"
  "w_action (sample_world 1) \<notin> hr_action_uuid ` set (nt_undo edit_store)"
  "new_op (w_env (sample_world 2)) 0 \<noteq> new_op (w_env (sample_world 1)) 0" "nt_version edit_store + 1 < i64_max"
  "get (blocks (nt_db edit_store)) 1 = Some sample_block" "b_style sample_block \<noteq> Quote" "overtaken (b_style_hlc sample_block)"
  by (simp_all add: is_tombstoned_def edit_store_def edit_db_def empty_db_def row_to_block_def sample_block_def can_tick_def
      stacks_ok_def both_stacks_def fresh_store_def overtaken_def clock_room_def sample_world_def i64_max_def)

lemma edit_sound_store: "sound (nt_db edit_store)" "ledger_clocks (nt_db edit_store)"
  using edit_sound edit_order by (simp_all add: edit_store_def)

lemma undo_restores_the_style_witness:
  "\<exists>c s1 c' s2. write_store (sample_world 1) (set_block_style (sample_world 1) 1 Quote) edit_store = Inr (c, s1) \<and>
     undo_command (sample_world 2) s1 = Inr (c', s2) \<and> cm_value c' = Applied \<and>
     map_option bk_style (get_block (nt_db s2) 1) = Some Paragraph"
  using undo_restores_the_style [OF edit_sound_store edit_facts(1) edit_open [of 1] edit_open [of 2] edit_facts(6-8) edit_block
      edit_facts(2-5)]
  by (fastforce simp: row_to_block_def sample_block_def)

lemma edit_undoable:
  "\<exists>s1 c' s2. undo_command (sample_world 2) s1 = Inr (c', s2) \<and> cm_value c' = Applied"
  using style_set_undone [OF edit_sound_store edit_facts(1) edit_open [of 1] edit_open [of 2] edit_facts(6-9) edit_facts(2)
      edit_facts(10,11,5)]
  by auto

lemma applied_step_can_be_reversed_witness:
  "\<exists>w s c s' tx' older entry p. undo_command w s = Inr (c, s') \<and> move_history w True (begin_write s) = Inr (Applied, tx') \<and>
     source_stack False (tx_store tx') = older @ [entry] \<and> decode_history_payload (hr_forward entry) = Inr p \<and>
     guards_hold (tx_db tx') p = Inr True"
proof -
  obtain s1 c' s2 where undo: "undo_command (sample_world 2) s1 = Inr (c', s2)" "cm_value c' = Applied"
    using edit_undoable by blast
  obtain tx' where "move_history (sample_world 2) True (begin_write s1) = Inr (Applied, tx')"
    using undo unfolding undo_command_def by (auto elim: write_store_ok)
  from undo(1) this applied_step_can_be_reversed [OF this] show ?thesis by simp blast
qed

end
