(* ===== verification/Blobs.thy ===== *)
theory Blobs
  imports Store
begin

text \<open>
  The content-addressed blob store of \<open>crates/notes-blob\<close>: the textual form of a hash, the
  installation that publishes verified bytes without overwriting, the verified reads, the
  removals and the deletion leases that defer them (\<open>lease.rs\<close>). SHA-256 is the \<open>sha2\<close> crate's
  and a parameter; the filesystem is what the store sees of it: the entries at the canonical
  paths and the directories above them. Other I/O failures than a failing source and the
  flushes (\<open>sync_all\<close>, \<open>sync_directory\<close>), which leave these entries as they are, are left out.
\<close>

section \<open>The textual hash\<close>

text \<open>\<open>BlobHash([u8; 32])\<close> as its bytes.\<close>

fun radix_digits :: "nat \<Rightarrow> nat \<Rightarrow> nat \<Rightarrow> nat list" where
  "radix_digits b 0 n = []"
| "radix_digits b (Suc k) n = radix_digits b k (n div b) @ [n mod b]"

definition radix_value :: "nat \<Rightarrow> nat list \<Rightarrow> nat" where
  "radix_value b ds = foldl (\<lambda>n d. n * b + d) 0 ds"

lemma radix_value_snoc [simp]: "radix_value b (ds @ [d]) = radix_value b ds * b + d"
  by (simp add: radix_value_def)

lemma radix_value_Nil [simp]: "radix_value b [] = 0"
  by (simp add: radix_value_def)

lemma length_radix_digits [simp]: "length (radix_digits b k n) = k"
  by (induction k arbitrary: n) auto

lemma radix_digits_bound: "0 < b \<Longrightarrow> d \<in> set (radix_digits b k n) \<Longrightarrow> d < b"
  by (induction k arbitrary: n) auto

lemma radix_value_digits: "n < b ^ k \<Longrightarrow> radix_value b (radix_digits b k n) = n"
proof (induction k arbitrary: n)
  case (Suc k)
  then have "n div b < b ^ k" by (simp add: less_mult_imp_div_less mult.commute)
  with Suc.IH show ?case by simp
qed simp

lemma radix_digits_value:
  assumes "\<forall>d \<in> set ds. d < b"
  shows "radix_digits b (length ds) (radix_value b ds) = ds"
  using assms by (induction ds rule: rev_induct) auto

lemma radix_value_bound:
  assumes "\<forall>d \<in> set ds. d < b"
  shows "radix_value b ds < b ^ length ds"
  using assms
proof (induction ds rule: rev_induct)
  case (snoc d ds)
  then have "radix_value b ds + 1 \<le> b ^ length ds" "d < b" by simp_all
  then have "(radix_value b ds + 1) * b \<le> b ^ length ds * b" by (intro mult_le_mono1)
  with \<open>d < b\<close> show ?case by (simp add: algebra_simps)
qed simp

definition hash_bytes :: "blob_hash \<Rightarrow> nat list" where
  "hash_bytes h = radix_digits 256 32 (unat h)"

definition hash_of_bytes :: "nat list \<Rightarrow> blob_hash" where
  "hash_of_bytes bs = of_nat (radix_value 256 bs)"

lemma hash_of_bytes_bytes [simp]: "hash_of_bytes (hash_bytes h) = h"
proof -
  have "unat h < 256 ^ 32" using unsigned_less [of h] by simp
  then show ?thesis by (simp add: hash_of_bytes_def hash_bytes_def radix_value_digits)
qed

lemma hash_bytes_of_bytes:
  assumes "length bs = 32" and "\<forall>b \<in> set bs. b < 256"
  shows "hash_bytes (hash_of_bytes bs) = bs"
proof -
  have "radix_value 256 bs < 256 ^ length bs" by (rule radix_value_bound) (rule assms(2))
  then have "radix_value 256 bs < 2 ^ LENGTH(256)" using assms(1) by simp
  then have "unat (hash_of_bytes bs) = radix_value 256 bs"
    unfolding hash_of_bytes_def by (simp add: unsigned_of_nat take_bit_nat_eq_self)
  then show ?thesis using radix_digits_value [OF assms(2)] assms(1) by (simp add: hash_bytes_def)
qed

text \<open>\<open>BlobHash::write_hex\<close> and \<open>Display\<close>.\<close>

definition write_hex :: "blob_hash \<Rightarrow> string" where
  "write_hex h = concat (map (\<lambda>byte. [lower_digit (byte div 16), lower_digit (byte mod 16)]) (hash_bytes h))"

datatype parse_hash_error = WrongLength nat | Uppercase | NonHex nat

definition decode_nibble :: "char \<Rightarrow> nat option" where
  "decode_nibble c =
     (let n = byte c in
      if 48 \<le> n \<and> n \<le> 57 then Some (n - 48)
      else if 97 \<le> n \<and> n \<le> 102 then Some (n - 97 + 10)
      else None)"

text \<open>\<open>index\<close> counts the bytes already decoded.\<close>

fun decode_pairs :: "nat \<Rightarrow> string \<Rightarrow> parse_hash_error + nat list" where
  "decode_pairs index (high # low # rest) =
     (case decode_nibble high of
        None \<Rightarrow> Inl (NonHex (index * 2))
      | Some h \<Rightarrow>
          (case decode_nibble low of
             None \<Rightarrow> Inl (NonHex (index * 2 + 1))
           | Some l \<Rightarrow> attempt (decode_pairs (index + 1) rest) (\<lambda>bytes. Inr ((h * 16 + l) # bytes))))"
| "decode_pairs index rest = Inr []"

text \<open>\<open>BlobHash::from_str\<close>.\<close>

definition blob_hash_of_str :: "string \<Rightarrow> parse_hash_error + blob_hash" where
  "blob_hash_of_str value =
     guard (length value = 64) (WrongLength (length value))
     (guard (\<not> list_ex (\<lambda>c. 65 \<le> byte c \<and> byte c \<le> 70) value) Uppercase
     (attempt (decode_pairs 0 value) (\<lambda>bytes. Inr (hash_of_bytes bytes))))"

lemma decode_nibble_lower [simp]: "n < 16 \<Longrightarrow> decode_nibble (lower_digit n) = Some n"
  by (drule nat_lt_16_cases) (auto simp: decode_nibble_def lower_digit_def byte_def Let_def)

lemma byte_eqI: "byte c = byte d \<Longrightarrow> c = d"
  by (simp add: byte_def)

lemma byte_lower_digit: "n < 16 \<Longrightarrow> byte (lower_digit n) = (if n < 10 then 48 + n else 87 + n)"
  by (simp add: byte_def lower_digit_def)

lemma lower_digit_decode: "decode_nibble c = Some n \<Longrightarrow> n < 16 \<and> lower_digit n = c"
  by (rule conjI, (auto simp: decode_nibble_def Let_def split: if_splits)[1],
      rule byte_eqI) (auto simp: decode_nibble_def Let_def byte_lower_digit split: if_splits)

lemma lower_digit_not_upper: "n < 16 \<Longrightarrow> \<not> (65 \<le> byte (lower_digit n) \<and> byte (lower_digit n) \<le> 70)"
  by (simp add: byte_lower_digit)

lemma decode_pairs_encode:
  assumes "\<forall>b \<in> set bs. b < 256"
  shows "decode_pairs i (concat (map (\<lambda>byte. [lower_digit (byte div 16), lower_digit (byte mod 16)]) bs)) = Inr bs"
  using assms by (induction bs arbitrary: i) (auto simp: mult.commute)

lemma decode_pairs_sound:
  "decode_pairs i s = Inr bs \<Longrightarrow> even (length s) \<Longrightarrow>
     length s = 2 * length bs \<and> (\<forall>b \<in> set bs. b < 256) \<and>
     concat (map (\<lambda>byte. [lower_digit (byte div 16), lower_digit (byte mod 16)]) bs) = s"
proof (induction i s arbitrary: bs rule: decode_pairs.induct)
  case (1 index high low rest)
  then obtain h l cs where *: "decode_nibble high = Some h" "decode_nibble low = Some l"
    "decode_pairs (index + 1) rest = Inr cs" "bs = (h * 16 + l) # cs"
    by (auto simp: res split: option.splits)
  have "h < 16" "lower_digit h = high" "l < 16" "lower_digit l = low"
    using lower_digit_decode [OF *(1)] lower_digit_decode [OF *(2)] by simp_all
  moreover have "even (length rest)" using 1(3) by simp
  ultimately show ?case using 1(1) [OF *(1,2,3)] *(4) by simp
qed auto

lemma length_write_hex [simp]: "length (write_hex h) = 64"
  by (simp add: write_hex_def length_concat hash_bytes_def comp_def sum_list_triv)

lemma write_hex_lowercase: "\<not> list_ex (\<lambda>c. 65 \<le> byte c \<and> byte c \<le> 70) (write_hex h)"
proof -
  have "\<not> (65 \<le> byte c \<and> byte c \<le> 70)" if c: "c \<in> set (write_hex h)" for c
  proof -
    obtain b where "b \<in> set (hash_bytes h)" "c = lower_digit (b div 16) \<or> c = lower_digit (b mod 16)"
      using c by (auto simp: write_hex_def)
    then have "b < 256" using radix_digits_bound [of 256 b] by (simp add: hash_bytes_def)
    then have "b div 16 < 16" "b mod 16 < 16" by simp_all
    with \<open>c = _ \<or> c = _\<close> show ?thesis using lower_digit_not_upper by blast
  qed
  then show ?thesis by (auto simp: list_ex_iff)
qed

lemma blob_hash_of_str_iff: "blob_hash_of_str s = Inr h \<longleftrightarrow> s = write_hex h"
proof
  assume "s = write_hex h"
  moreover have "decode_pairs 0 (write_hex h) = Inr (hash_bytes h)"
    unfolding write_hex_def
    by (rule decode_pairs_encode) (simp add: hash_bytes_def radix_digits_bound)
  ultimately show "blob_hash_of_str s = Inr h"
    using write_hex_lowercase by (simp add: blob_hash_of_str_def)
next
  assume "blob_hash_of_str s = Inr h"
  then obtain bs where s: "length s = 64" "decode_pairs 0 s = Inr bs" "h = hash_of_bytes bs"
    by (auto simp: blob_hash_of_str_def res)
  from decode_pairs_sound [OF s(2)] s(1) have "length bs = 32" "\<forall>b \<in> set bs. b < 256"
    "concat (map (\<lambda>byte. [lower_digit (byte div 16), lower_digit (byte mod 16)]) bs) = s" by simp_all
  then show "s = write_hex h" using s(3) by (simp add: write_hex_def hash_bytes_of_bytes)
qed

text \<open>
  The textual hash is canonical: what is printed parses back to the hash, and a text that
  parses is the one that the hash it parses to prints, so no hash has two accepted spellings.
\<close>

theorem blob_hash_text_canonical:
  "blob_hash_of_str s = Inr h \<longleftrightarrow> s = write_hex h"
  by (rule blob_hash_of_str_iff)

section \<open>The store's directory tree\<close>

datatype fs_entry =
    Regular string
  | Folder
  | Symlink bool  \<comment> \<open>whether it leads to an entry\<close>

datatype dir_path = RootDir | BlobsDir | ShardDir nat

datatype blob_error =
    Io string
  | TooLarge "64 word"
  | HashMismatch blob_hash blob_hash
  | ExistingSizeMismatch "64 word" "64 word"
  | CorruptBlob blob_hash blob_hash
  | UnsafeFilesystemEntry string
  | BlobNotFound
  | StoredBlobTooLarge

datatype install_outcome = Installed | AlreadyPresent

record blob_info =
  bi_hash :: blob_hash
  bi_size :: "64 word"

text \<open>
  \<open>BlobStore\<close> with what is on the disk under its root: the directories, the entries at the
  canonical paths, and the number of leases that its clones hold.
\<close>

record blob_store =
  bs_dirs :: "dir_path \<Rightarrow> fs_entry option"
  bs_files :: "(blob_hash, fs_entry) table"
  bs_leases :: nat

text \<open>The shard of \<open>path_for\<close>: the first two hexadecimal digits.\<close>

definition shard_of :: "blob_hash \<Rightarrow> dir_path" where
  "shard_of h = ShardDir (hd (hash_bytes h))"

definition ensure_directory :: "dir_path \<Rightarrow> blob_store \<Rightarrow> blob_error + blob_store" where
  "ensure_directory path s =
     (case bs_dirs s path of
        Some entry \<Rightarrow> guard (entry = Folder) (UnsafeFilesystemEntry ''a non-symlink directory'') (Inr s)
      | None \<Rightarrow> Inr (s\<lparr>bs_dirs := (bs_dirs s)(path \<mapsto> Folder)\<rparr>))"

text \<open>The directories that were created stay when a later one cannot be used.\<close>

fun ensure_directories :: "dir_path list \<Rightarrow> blob_store \<Rightarrow> blob_store \<times> (blob_error + unit)" where
  "ensure_directories [] s = (s, Inr ())"
| "ensure_directories (path # rest) s =
     (case ensure_directory path s of Inl e \<Rightarrow> (s, Inl e) | Inr s \<Rightarrow> ensure_directories rest s)"

definition ensure_shard :: "blob_hash \<Rightarrow> blob_store \<Rightarrow> blob_store \<times> (blob_error + unit)" where
  "ensure_shard h = ensure_directories [RootDir, BlobsDir, shard_of h]"

section \<open>Verified reads\<close>

definition open_regular_file :: "blob_hash \<Rightarrow> blob_store \<Rightarrow> blob_error + string" where
  "open_regular_file h s =
     (case get (bs_files s) h of
        None \<Rightarrow> Inl BlobNotFound
      | Some (Regular bytes) \<Rightarrow> Inr bytes
      | Some _ \<Rightarrow> Inl (UnsafeFilesystemEntry ''a regular non-symlink file''))"

text \<open>\<open>metadata.len()\<close> of a file: its length as \<open>u64\<close>.\<close>

definition file_len :: "string \<Rightarrow> 64 word" where
  "file_len bytes = of_nat (length bytes)"

definition hash_reader :: "(string \<Rightarrow> blob_hash) \<Rightarrow> string \<Rightarrow> blob_error + (blob_hash \<times> 64 word)" where
  "hash_reader sha bytes =
     guard (length bytes < 2 ^ 64) StoredBlobTooLarge (Inr (sha bytes, file_len bytes))"

text \<open>\<open>open_verified\<close>: the metadata with the bytes that the returned handle streams.\<close>

definition open_verified ::
    "(string \<Rightarrow> blob_hash) \<Rightarrow> blob_hash \<Rightarrow> 64 word \<Rightarrow> blob_store \<Rightarrow> blob_error + (blob_info \<times> string)" where
  "open_verified sha h max_bytes s =
     attempt (open_regular_file h s) (\<lambda>bytes.
     let len = file_len bytes in
     guard (len \<le> max_bytes) (TooLarge max_bytes)
     (attempt (hash_reader sha bytes) (\<lambda>(actual_hash, actual_size).
      guard (actual_size = len) (ExistingSizeMismatch len actual_size)
      (guard (actual_hash = h) (CorruptBlob h actual_hash)
        (Inr (\<lparr>bi_hash = h, bi_size = len\<rparr>, bytes))))))"

text \<open>\<open>read_verified\<close>: at most one byte beyond the limit is read.\<close>

definition read_verified ::
    "(string \<Rightarrow> blob_hash) \<Rightarrow> blob_hash \<Rightarrow> 64 word \<Rightarrow> blob_store \<Rightarrow> blob_error + string" where
  "read_verified sha h max_bytes s =
     attempt (open_regular_file h s) (\<lambda>stored.
     let len = file_len stored in
     guard (len \<le> max_bytes) (TooLarge max_bytes)
     (let bytes = take (min (unat max_bytes + 1) (2 ^ 64 - 1)) stored in
      guard (length bytes \<le> unat max_bytes) (TooLarge max_bytes)
      (let actual = sha bytes in
       guard (of_nat (length bytes) = len) (ExistingSizeMismatch len (of_nat (length bytes)))
       (guard (actual = h) (CorruptBlob h actual) (Inr bytes)))))"

definition verify_blob :: "(string \<Rightarrow> blob_hash) \<Rightarrow> blob_hash \<Rightarrow> blob_store \<Rightarrow> blob_error + blob_info" where
  "verify_blob sha h s = attempt (open_verified sha h (- 1) s) (\<lambda>(info, _). Inr info)"

definition verify_existing ::
    "(string \<Rightarrow> blob_hash) \<Rightarrow> blob_hash \<Rightarrow> 64 word \<Rightarrow> blob_store \<Rightarrow> blob_error + unit" where
  "verify_existing sha expected_hash expected_size s =
     attempt (open_regular_file expected_hash s) (\<lambda>bytes.
     guard (file_len bytes = expected_size) (ExistingSizeMismatch expected_size (file_len bytes))
     (attempt (hash_reader sha bytes) (\<lambda>(actual_hash, actual_size).
      guard (actual_size = expected_size) (ExistingSizeMismatch expected_size actual_size)
      (guard (actual_hash = expected_hash) (CorruptBlob expected_hash actual_hash) (Inr ())))))"

section \<open>Installation\<close>

text \<open>What one \<open>read\<close> of the source returns; no bytes is the end of it.\<close>

datatype source_read = Chunk string | ReadError

fun copy_chunks :: "64 word \<Rightarrow> source_read list \<Rightarrow> string \<Rightarrow> blob_error + string" where
  "copy_chunks max_bytes [] written = Inr written"
| "copy_chunks max_bytes (ReadError # rest) written = Inl (Io ''read blob source'')"
| "copy_chunks max_bytes (Chunk bytes # rest) written =
     (if bytes = [] then Inr written
      else guard (length written + length bytes < 2 ^ 64) (TooLarge max_bytes)
        (guard (length written + length bytes \<le> unat max_bytes) (TooLarge max_bytes)
          (copy_chunks max_bytes rest (written @ bytes))))"

text \<open>\<open>copy_and_hash\<close>: the temporary's bytes, their hash and their number.\<close>

definition copy_and_hash ::
    "(string \<Rightarrow> blob_hash) \<Rightarrow> source_read list \<Rightarrow> 64 word \<Rightarrow> blob_error + (string \<times> blob_hash \<times> 64 word)" where
  "copy_and_hash sha source max_bytes =
     attempt (copy_chunks max_bytes source []) (\<lambda>bytes. Inr (bytes, sha bytes, file_len bytes))"

definition try_exists :: "blob_hash \<Rightarrow> blob_store \<Rightarrow> bool" where
  "try_exists h s = (case get (bs_files s) h of None \<Rightarrow> False | Some (Symlink leads) \<Rightarrow> leads | Some _ \<Rightarrow> True)"

text \<open>\<open>publish_noclobber\<close>: \<open>None\<close> when the target exists.\<close>

definition publish_noclobber :: "string \<Rightarrow> blob_hash \<Rightarrow> blob_store \<Rightarrow> blob_store option" where
  "publish_noclobber temporary h s =
     (case get (bs_files s) h of
        None \<Rightarrow> Some (s\<lparr>bs_files := put h (Regular temporary) (bs_files s)\<rparr>)
      | Some _ \<Rightarrow> None)"

definition already_present ::
    "(string \<Rightarrow> blob_hash) \<Rightarrow> blob_hash \<Rightarrow> 64 word \<Rightarrow> blob_store \<Rightarrow> blob_error + (blob_info \<times> install_outcome)" where
  "already_present sha h len s =
     (case verify_existing sha h len s of
        Inl e \<Rightarrow> Inl e
      | Inr _ \<Rightarrow> Inr (\<lparr>bi_hash = h, bi_size = len\<rparr>, AlreadyPresent))"

text \<open>
  \<open>install_reader\<close>. The directories that it creates stay when it fails later, so the store is
  part of both results.
\<close>

definition install_reader ::
    "(string \<Rightarrow> blob_hash) \<Rightarrow> source_read list \<Rightarrow> blob_hash \<Rightarrow> 64 word \<Rightarrow> blob_store \<Rightarrow>
       blob_store \<times> (blob_error + (blob_info \<times> install_outcome))" where
  "install_reader sha source expected_hash max_bytes s =
     (case ensure_shard expected_hash s of
        (s, Inl e) \<Rightarrow> (s, Inl e)
      | (s, Inr _) \<Rightarrow>
          (case copy_and_hash sha source max_bytes of
             Inl e \<Rightarrow> (s, Inl e)
           | Inr (temporary, actual_hash, len) \<Rightarrow>
               if actual_hash \<noteq> expected_hash then (s, Inl (HashMismatch expected_hash actual_hash))
               else if try_exists expected_hash s then
                 (s, already_present sha expected_hash len s)
               else
                 (case publish_noclobber temporary expected_hash s of
                    Some s' \<Rightarrow> (s', Inr (\<lparr>bi_hash = expected_hash, bi_size = len\<rparr>, Installed))
                  | None \<Rightarrow>
                      (s, already_present sha expected_hash len s))))"

section \<open>Removal and leases\<close>

definition acquire_lease :: "blob_store \<Rightarrow> blob_store" where
  "acquire_lease s = s\<lparr>bs_leases := bs_leases s + 1\<rparr>"

definition drop_lease :: "blob_store \<Rightarrow> blob_store" where
  "drop_lease s = s\<lparr>bs_leases := bs_leases s - 1\<rparr>"

definition is_leased :: "blob_store \<Rightarrow> bool" where
  "is_leased s \<longleftrightarrow> 0 < bs_leases s"

text \<open>\<open>DeletionGate::try_remove\<close>: the lease count is read again under the gate of the unlink.\<close>

definition try_remove :: "blob_hash \<Rightarrow> blob_store \<Rightarrow> blob_store \<times> (blob_error + bool)" where
  "try_remove h s =
     (if 0 < bs_leases s then (s, Inr False)
      else case get (bs_files s) h of
             None \<Rightarrow> (s, Inr False)
           | Some Folder \<Rightarrow> (s, Inl (Io ''remove''))
           | Some _ \<Rightarrow> (s\<lparr>bs_files := del h (bs_files s)\<rparr>, Inr True))"

text \<open>
  The part of \<open>remove_verified\<close> before the unlink: \<open>None\<close> when it goes on to \<open>try_remove\<close>.
\<close>

definition removal_check ::
    "(string \<Rightarrow> blob_hash) \<Rightarrow> blob_hash \<Rightarrow> 64 word \<Rightarrow> blob_store \<Rightarrow> (blob_error + bool) option" where
  "removal_check sha h max_bytes s =
     (if is_leased s then Some (Inr False)
      else case open_verified sha h max_bytes s of
             Inl BlobNotFound \<Rightarrow> Some (Inr False)
           | Inl e \<Rightarrow> Some (Inl e)
           | Inr _ \<Rightarrow> None)"

definition remove_verified ::
    "(string \<Rightarrow> blob_hash) \<Rightarrow> blob_hash \<Rightarrow> 64 word \<Rightarrow> blob_store \<Rightarrow> blob_store \<times> (blob_error + bool)" where
  "remove_verified sha h max_bytes s =
     (case removal_check sha h max_bytes s of Some r \<Rightarrow> (s, r) | None \<Rightarrow> try_remove h s)"

definition discard_unverified :: "blob_hash \<Rightarrow> blob_store \<Rightarrow> blob_store \<times> (blob_error + bool)" where
  "discard_unverified h s =
     (if is_leased s then (s, Inr False)
      else case get (bs_files s) h of
             None \<Rightarrow> (s, Inr False)
           | Some Folder \<Rightarrow>
               (s, Inl (UnsafeFilesystemEntry ''a file or symlink at the exact disposable cache path''))
           | Some _ \<Rightarrow> try_remove h s)"

section \<open>What the operations promise\<close>

lemma open_regular_file_Inr [res]:
  "open_regular_file h s = Inr bytes \<longleftrightarrow> get (bs_files s) h = Some (Regular bytes)"
  by (auto simp: open_regular_file_def split: option.splits fs_entry.splits)

lemma hash_reader_Inr [res]:
  "hash_reader sha bytes = Inr (actual, len) \<longleftrightarrow> length bytes < 2 ^ 64 \<and> actual = sha bytes \<and> len = file_len bytes"
  by (auto simp: hash_reader_def res)

lemma open_verified_Inr:
  "open_verified sha h max_bytes s = Inr (info, bytes) \<longleftrightarrow>
     get (bs_files s) h = Some (Regular bytes) \<and> length bytes < 2 ^ 64 \<and> file_len bytes \<le> max_bytes \<and>
     sha bytes = h \<and> info = \<lparr>bi_hash = h, bi_size = file_len bytes\<rparr>"
  by (auto simp: open_verified_def Let_def res)

lemma unat_file_len: "length bytes < 2 ^ 64 \<Longrightarrow> unat (file_len bytes) = length bytes"
  by (simp add: file_len_def unsigned_of_nat take_bit_nat_eq_self)

lemma uint_file_len: "length bytes < 2 ^ 64 \<Longrightarrow> uint (file_len bytes) = int (length bytes)"
  using unat_file_len [of bytes] by (simp add: uint_nat)

lemma file_len_le_iff: "length bytes < 2 ^ 64 \<Longrightarrow> file_len bytes \<le> m \<longleftrightarrow> length bytes \<le> unat m"
  by (simp add: word_le_nat_alt unat_file_len)

lemma verify_existing_Inr:
  "verify_existing sha h len s = Inr u \<longleftrightarrow>
     (\<exists>bytes. get (bs_files s) h = Some (Regular bytes) \<and> length bytes < 2 ^ 64 \<and> file_len bytes = len \<and> sha bytes = h)"
  by (auto simp: verify_existing_def res)

lemma unat_below_word64: "unat (m :: 64 word) < 2 ^ 64"
  using unsigned_less [of m] by simp

lemma read_verified_Inr:
  "read_verified sha h max_bytes s = Inr bytes \<longleftrightarrow>
     get (bs_files s) h = Some (Regular bytes) \<and> length bytes \<le> unat max_bytes \<and> sha bytes = h"
    (is "?l = ?r") if small: "\<forall>stored. get (bs_files s) h = Some (Regular stored) \<longrightarrow> length stored < 2 ^ 64"
proof
  assume ?l
  then obtain stored where f: "get (bs_files s) h = Some (Regular stored)" "file_len stored \<le> max_bytes"
    "bytes = take (min (unat max_bytes + 1) (2 ^ 64 - 1)) stored" "length bytes \<le> unat max_bytes" "sha bytes = h"
    by (auto simp: read_verified_def Let_def res)
  have "length stored \<le> unat max_bytes" using f(1,2) small file_len_le_iff by blast
  then have "bytes = stored" using f(3) unat_below_word64 [of max_bytes] by simp
  then show ?r using f by simp
next
  assume r: ?r
  then have "length bytes < 2 ^ 64" using unat_below_word64 [of max_bytes] by simp
  then have le: "file_len bytes \<le> max_bytes" using r by (simp add: file_len_le_iff)
  have "take (min (unat max_bytes + 1) (2 ^ 64 - 1)) bytes = bytes"
    using r unat_below_word64 [of max_bytes] by (simp add: min_def)
  with r le show ?l by (simp add: read_verified_def open_regular_file_def Let_def file_len_def)
qed

lemma copy_chunks_bound:
  "copy_chunks m source written = Inr bytes \<Longrightarrow> length written \<le> unat m \<Longrightarrow> length bytes \<le> unat m"
  by (induction m source written rule: copy_chunks.induct) (auto simp: res split: if_splits)

lemma copy_and_hash_Inr:
  assumes "copy_and_hash sha source m = Inr (bytes, actual, len)"
  shows "length bytes \<le> unat m \<and> length bytes < 2 ^ 64 \<and> actual = sha bytes \<and> len = file_len bytes"
proof -
  have "copy_chunks m source [] = Inr bytes" "actual = sha bytes" "len = file_len bytes"
    using assms by (auto simp: copy_and_hash_def res)
  moreover from this(1) have "length bytes \<le> unat m" by (rule copy_chunks_bound) simp
  ultimately show ?thesis using unat_below_word64 [of m] by simp
qed

lemma ensure_directory_files: "ensure_directory path s = Inr s' \<Longrightarrow> bs_files s' = bs_files s \<and> bs_leases s' = bs_leases s"
  by (auto simp: ensure_directory_def res split: option.splits)

lemma ensure_directories_files [simp]:
  "bs_files (fst (ensure_directories paths s)) = bs_files s"
  "bs_leases (fst (ensure_directories paths s)) = bs_leases s"
  by (induction paths s rule: ensure_directories.induct)
     (auto split: sum.splits dest: ensure_directory_files)

lemma ensure_shard_files:
  assumes "ensure_shard h s = (s', r)"
  shows "bs_files s' = bs_files s" "bs_leases s' = bs_leases s"
  using assms ensure_directories_files [of "[RootDir, BlobsDir, shard_of h]" s] by (simp_all add: ensure_shard_def)

text \<open>The two outcomes of an installation, over what the disk held before.\<close>

lemma install_reader_cases:
  assumes "install_reader sha source h m s = (s', r)"
  obtains (refused) e where "r = Inl e" "bs_files s' = bs_files s" "bs_leases s' = bs_leases s"
  | (present) bytes copied where "r = Inr (\<lparr>bi_hash = h, bi_size = file_len bytes\<rparr>, AlreadyPresent)"
      "bs_files s' = bs_files s" "bs_leases s' = bs_leases s"
      "get (bs_files s) h = Some (Regular bytes)" "length bytes \<le> unat m" "sha bytes = h"
      "copy_chunks m source [] = Inr copied" "length copied = length bytes" "sha copied = h"
  | (fresh) bytes where "r = Inr (\<lparr>bi_hash = h, bi_size = file_len bytes\<rparr>, Installed)"
      "get (bs_files s) h = None" "bs_files s' = put h (Regular bytes) (bs_files s)" "bs_leases s' = bs_leases s"
      "copy_chunks m source [] = Inr bytes" "length bytes \<le> unat m" "sha bytes = h"
proof -
  obtain s1 q where e: "ensure_shard h s = (s1, q)" by force
  note f = ensure_shard_files [OF e]
  show thesis
  proof (cases q)
    case (Inl e')
    then show thesis using assms e f refused by (auto simp: install_reader_def)
  next
    case q: (Inr u)
    show thesis
    proof (cases "copy_and_hash sha source m")
      case (Inl e')
      then show thesis using assms e f q refused by (auto simp: install_reader_def)
    next
      case (Inr x)
      obtain bytes actual len where x: "x = (bytes, actual, len)" by (cases x)
      note c = copy_and_hash_Inr [OF Inr [unfolded x]]
      have cc: "copy_chunks m source [] = Inr bytes" using Inr x by (auto simp: copy_and_hash_def res)
      show thesis
      proof (cases "actual = h")
        case False
        then show thesis using assms e f q Inr x refused by (auto simp: install_reader_def)
      next
        case True
        have verify: thesis
          if v: "s' = s1" "r = already_present sha h len s1"
        proof (cases "verify_existing sha h len s1")
          case (Inl e')
          then show thesis using v f refused by (simp add: already_present_def)
        next
          case ok: (Inr u)
          then obtain old where old: "get (bs_files s) h = Some (Regular old)" "length old < 2 ^ 64"
            "file_len old = len" "sha old = h"
            using f by (auto simp: verify_existing_Inr)
          have "length bytes = length old" using old(2,3) c by (metis unat_file_len)
          have info: "r = Inr (\<lparr>bi_hash = h, bi_size = file_len old\<rparr>, AlreadyPresent)"
            using v ok old(3) by (simp add: already_present_def)
          have lens: "length old \<le> unat m" "length bytes = length old"
            using c \<open>length bytes = length old\<close> by simp_all
          have "sha bytes = h" using c True by simp
          with info lens old cc f v show thesis by (intro present [of old bytes]) simp_all
        qed
        show thesis
        proof (cases "get (bs_files s) h")
          case None
          then have "s' = s1\<lparr>bs_files := put h (Regular bytes) (bs_files s1)\<rparr>"
            "r = Inr (\<lparr>bi_hash = h, bi_size = len\<rparr>, Installed)"
            using assms e f q Inr x True by (simp_all add: install_reader_def try_exists_def publish_noclobber_def)
          then show thesis using fresh [of bytes] c True cc None f by simp
        next
          case (Some entry)
          then have "s' = s1 \<and> r = already_present sha h len s1"
            using assms e f q Inr x True
            by (cases "try_exists h s1") (auto simp: install_reader_def publish_noclobber_def)
          then show thesis using verify by blast
        qed
      qed
    qed
  qed
qed

text \<open>Nothing is ever overwritten: an entry that exists stays as it is.\<close>

lemma install_keeps_entries:
  assumes "get (bs_files s) k = Some entry"
  shows "get (bs_files (fst (install_reader sha source h m s))) k = Some entry"
proof -
  obtain s' r where i: "install_reader sha source h m s = (s', r)" by force
  from i show ?thesis using assms by (cases rule: install_reader_cases) (auto simp: i)
qed

text \<open>
  C36. A blob that was installed reads back: after a successful installation both verified reads
  return the same bytes under that hash, within the limit; when the installation published them
  they are the bytes of the source and the path was free before; and whatever else the store
  held is untouched.
\<close>

theorem installed_blob_reads_back:
  assumes "install_reader sha source h m s = (s', Inr (info, outcome))"
  shows "\<exists>bytes. open_verified sha h m s' = Inr (info, bytes) \<and> read_verified sha h m s' = Inr bytes \<and>
           sha bytes = h \<and> length bytes \<le> unat m \<and>
           (outcome = Installed \<longrightarrow> copy_chunks m source [] = Inr bytes \<and> get (bs_files s) h = None) \<and>
           (\<forall>k entry. get (bs_files s) k = Some entry \<longrightarrow> get (bs_files s') k = Some entry)"
proof -
  have keep: "get (bs_files s') k = Some entry" if "get (bs_files s) k = Some entry" for k entry
    using install_keeps_entries [OF that, of sha source h m] assms by simp
  have reads: "open_verified sha h m s' = Inr (\<lparr>bi_hash = h, bi_size = file_len bytes\<rparr>, bytes) \<and>
      read_verified sha h m s' = Inr bytes"
    if b: "get (bs_files s') h = Some (Regular bytes)" "length bytes \<le> unat m" "sha bytes = h" for bytes
  proof -
    have "length bytes < 2 ^ 64" using b(2) unat_below_word64 [of m] by simp
    with b show ?thesis by (simp add: open_verified_Inr read_verified_Inr file_len_le_iff)
  qed
  from assms show ?thesis
  proof (cases rule: install_reader_cases)
    case (present bytes)
    then show ?thesis using reads [of bytes] keep by auto
  next
    case (fresh bytes)
    then show ?thesis using reads [of bytes] keep by auto
  qed simp
qed

definition empty_store :: blob_store where
  "empty_store = \<lparr>bs_dirs = (\<lambda>_. None), bs_files = tempty, bs_leases = 0\<rparr>"

text \<open>A hash for the samples: the number of bytes.\<close>

definition sample_sha :: "string \<Rightarrow> blob_hash" where
  "sample_sha bytes = of_nat (length bytes)"

definition sample_installed :: blob_store where
  "sample_installed = fst (install_reader sample_sha [Chunk ''ab'', Chunk ''c''] 3 10 empty_store)"

lemma sample_install:
  "install_reader sample_sha [Chunk ''ab'', Chunk ''c''] 3 10 empty_store =
     (sample_installed, Inr (\<lparr>bi_hash = 3, bi_size = 3\<rparr>, Installed))"
  by (simp add: sample_installed_def install_reader_def ensure_shard_def ensure_directory_def empty_store_def
      copy_and_hash_def sample_sha_def try_exists_def publish_noclobber_def file_len_def shard_of_def)

theorem installed_blob_reads_back_witness:
  "\<exists>bytes. open_verified sample_sha 3 10 sample_installed = Inr (\<lparr>bi_hash = 3, bi_size = 3\<rparr>, bytes) \<and>
     copy_chunks 10 [Chunk ''ab'', Chunk ''c''] [] = Inr bytes"
  using installed_blob_reads_back [OF sample_install] by auto

section \<open>Leases and interleaved removals\<close>

text \<open>
  What the threads of a host do to one store. A removal is two steps, the check and the unlink,
  so that anything can happen between them; the second component holds the hashes whose check
  is past.
\<close>

inductive blob_step :: "(string \<Rightarrow> blob_hash) \<Rightarrow> blob_store \<times> blob_hash list \<Rightarrow> blob_store \<times> blob_hash list \<Rightarrow> bool"
  for sha where
  install: "blob_step sha (s, pending) (fst (install_reader sha source h m s), pending)"
| lease: "blob_step sha (s, pending) (acquire_lease s, pending)"
| release: "is_leased s \<Longrightarrow> blob_step sha (s, pending) (drop_lease s, pending)"
| checked: "removal_check sha h m s = None \<Longrightarrow> blob_step sha (s, pending) (s, h # pending)"
| disposable: "\<not> is_leased s \<Longrightarrow> get (bs_files s) h = Some entry \<Longrightarrow> entry \<noteq> Folder \<Longrightarrow>
    blob_step sha (s, pending) (s, h # pending)"
| unlink: "h \<in> set pending \<Longrightarrow> blob_step sha (s, pending) (fst (try_remove h s), remove1 h pending)"

inductive_cases blob_stepE: "blob_step sha x y"

lemma try_remove_leased: "is_leased s \<Longrightarrow> try_remove h s = (s, Inr False)"
  by (simp add: try_remove_def is_leased_def)

lemma leased_step_keeps_files:
  assumes "blob_step sha x y" and "is_leased (fst x)" and "get (bs_files (fst x)) h = Some entry"
  shows "get (bs_files (fst y)) h = Some entry"
  using assms
  by (elim blob_stepE)
     (auto simp: install_keeps_entries acquire_lease_def drop_lease_def try_remove_leased)

definition genuine :: "(string \<Rightarrow> blob_hash) \<Rightarrow> blob_store \<Rightarrow> bool" where
  "genuine sha s \<longleftrightarrow> (\<forall>(h, entry) \<in> set (rows (bs_files s)). \<forall>bytes. entry = Regular bytes \<longrightarrow> sha bytes = h)"

lemma genuine_iff: "genuine sha s \<longleftrightarrow> (\<forall>h bytes. get (bs_files s) h = Some (Regular bytes) \<longrightarrow> sha bytes = h)"
  unfolding set_rows [symmetric] genuine_def by fastforce

lemma install_genuine: "genuine sha s \<Longrightarrow> install_reader sha source h m s = (s', r) \<Longrightarrow> genuine sha s'"
  by (erule install_reader_cases) (auto simp: genuine_iff split: if_splits)

lemma remove_genuine: "genuine sha s \<Longrightarrow> genuine sha (fst (try_remove h s))"
  by (auto simp: genuine_iff try_remove_def split: option.splits fs_entry.splits)

lemma blob_step_genuine: "blob_step sha x y \<Longrightarrow> genuine sha (fst x) \<Longrightarrow> genuine sha (fst y)"
proof (induction rule: blob_step.induct)
  case (install s pending source h m)
  then show ?case using install_genuine [of sha s source h m] by (metis fst_conv prod.collapse)
qed (simp_all add: remove_genuine, simp_all add: genuine_iff acquire_lease_def drop_lease_def)

text \<open>
  C35. A backup's lease holds: however installations, removals whose checks are already past, and
  other leases interleave, as long as a lease is held at each step no file of the store
  disappears or changes, and the bytes under every name keep hashing to that name.
\<close>

theorem leased_files_stay:
  assumes "(\<lambda>x y. blob_step sha x y \<and> is_leased (fst x))\<^sup>*\<^sup>* x y"
  shows "(\<forall>h entry. get (bs_files (fst x)) h = Some entry \<longrightarrow> get (bs_files (fst y)) h = Some entry) \<and>
         (genuine sha (fst x) \<longrightarrow> genuine sha (fst y))"
  using assms
proof (induction rule: rtranclp_induct)
  case (step y z)
  then show ?case using leased_step_keeps_files [of sha y z] blob_step_genuine [of sha y z] by blast
qed simp

lemma sample_lookup: "get (bs_files sample_installed) 3 = Some (Regular ''abc'')"
  by (simp add: sample_installed_def install_reader_def ensure_shard_def ensure_directory_def empty_store_def
      copy_and_hash_def sample_sha_def try_exists_def publish_noclobber_def file_len_def shard_of_def)

lemma sample_leases: "bs_leases sample_installed = 0"
  by (simp add: sample_installed_def install_reader_def ensure_shard_def ensure_directory_def empty_store_def
      copy_and_hash_def sample_sha_def try_exists_def publish_noclobber_def file_len_def shard_of_def)

theorem leased_files_stay_witness:
  "blob_step sample_sha (sample_installed, []) (sample_installed, [3]) \<and>
   get (bs_files (fst (try_remove 3 (acquire_lease sample_installed)))) 3 = Some (Regular ''abc'')"
proof -
  have "removal_check sample_sha 3 10 sample_installed = None"
    by (simp add: removal_check_def is_leased_def sample_leases open_verified_def open_regular_file_def
        sample_lookup file_len_def hash_reader_def sample_sha_def)
  then have c: "blob_step sample_sha (sample_installed, []) (sample_installed, [3])" by (rule checked)
  have "is_leased (acquire_lease sample_installed)" by (simp add: is_leased_def acquire_lease_def)
  moreover have "blob_step sample_sha (acquire_lease sample_installed, [3])
      (fst (try_remove 3 (acquire_lease sample_installed)), remove1 3 [3])" by (rule unlink) simp
  ultimately have "(\<lambda>x y. blob_step sample_sha x y \<and> is_leased (fst x))\<^sup>*\<^sup>* (acquire_lease sample_installed, [3])
      (fst (try_remove 3 (acquire_lease sample_installed)), remove1 3 [3])" by (intro r_into_rtranclp) simp
  from leased_files_stay [OF this] c show ?thesis by (simp add: acquire_lease_def sample_lookup)
qed

end
