(* ===== verification/BlobServer.thy ===== *)
theory BlobServer
  imports Blobs Protocol
begin

text \<open>
  The attachments' bytes on the server: who owns which blob and within what quota
  (\<open>server/src/blob_ownership.rs\<close>), the upload and download endpoints and the check of the blobs
  that a batch or a snapshot declares (\<open>server/src/api.rs\<close>). A transaction and a request of the
  blob store are one step each, and the steps of concurrent requests interleave; the temporary files are the bytes they hold.
\<close>

section \<open>Ownership\<close>

type_synonym ownership = "(string \<times> blob_hash, int) table"

datatype claim_outcome = Claimed | AlreadyOwned

datatype claim_error =
    BlobQuotaExceeded (qe_used: "64 word") (qe_requested: "64 word") (qe_limit: "64 word")
  | ClaimFailed string

text \<open>\<open>SELECT COALESCE(SUM(size), 0) ... WHERE user_id = ?\<close>; a sum beyond \<open>i64\<close> is an error of SQLite.\<close>

definition usage :: "string \<Rightarrow> ownership \<Rightarrow> int" where
  "usage user t = sum_list (map snd (filter (\<lambda>((u, _), _). u = user) (rows t)))"

definition claim :: "string \<Rightarrow> blob_hash \<Rightarrow> 64 word \<Rightarrow> 64 word \<Rightarrow> ownership \<Rightarrow> claim_error + (claim_outcome \<times> ownership)" where
  "claim user hash len quota t =
     (case get t (user, hash) of
        Some existing \<Rightarrow>
          guard (0 \<le> existing) (ClaimFailed ''negative blob ownership size'')
          (guard (existing = uint len) (ClaimFailed ''blob ownership size does not match the uploaded content'')
            (Inr (AlreadyOwned, t)))
      | None \<Rightarrow>
          guard (usage user t \<le> i64_max) (ClaimFailed ''integer overflow'')
          (guard (0 \<le> usage user t) (ClaimFailed ''negative blob ownership usage'')
          (guard (usage user t + uint len < 2 ^ 64 \<and> usage user t + uint len \<le> uint quota)
            (BlobQuotaExceeded (word_of_int (usage user t)) len quota)
          (guard (uint len \<le> i64_max) (ClaimFailed ''blob size exceeds SQLite integer'')
            (Inr (Claimed, put (user, hash) (uint len) t))))))"

definition owned :: "string \<Rightarrow> blob_hash list \<Rightarrow> ownership \<Rightarrow> (blob_hash, 64 word) table" where
  "owned user hashes t =
     fold (\<lambda>h found. case get t (user, h) of None \<Rightarrow> found | Some len \<Rightarrow> put h (word_of_int len) found) hashes tempty"

definition release :: "string \<Rightarrow> blob_hash \<Rightarrow> ownership \<Rightarrow> ownership" where
  "release user hash t = del (user, hash) t"

section \<open>Refusals\<close>

definition parse_blob_hash :: "string \<Rightarrow> api_error + blob_hash" where
  "parse_blob_hash raw = (case blob_hash_of_str raw of Inl _ \<Rightarrow> Inl (bad_request ''blob hash'') | Inr h \<Rightarrow> Inr h)"

definition map_declared_blob_error :: "blob_error \<Rightarrow> api_error" where
  "map_declared_blob_error e =
     (case e of
        Io operation \<Rightarrow> internal (Failure operation)
      | _ \<Rightarrow> api_conflict ''attachment blob {hash} is not available'')"

definition map_blob_install_error :: "blob_error \<Rightarrow> api_error" where
  "map_blob_install_error e =
     (case e of
        HashMismatch _ _ \<Rightarrow> bad_request ''request body SHA-256 does not match the blob URL''
      | TooLarge _ \<Rightarrow> too_large ''blob exceeds the configured {limit} byte limit''
      | CorruptBlob _ _ \<Rightarrow> api_conflict ''an existing stored blob failed integrity verification''
      | ExistingSizeMismatch _ _ \<Rightarrow> api_conflict ''an existing stored blob failed integrity verification''
      | UnsafeFilesystemEntry _ \<Rightarrow> api_conflict ''an existing stored blob failed integrity verification''
      | _ \<Rightarrow> internal (Failure ''install blob''))"

definition map_blob_ownership_error :: "claim_error \<Rightarrow> api_error" where
  "map_blob_ownership_error e =
     (case e of
        BlobQuotaExceeded _ _ _ \<Rightarrow> too_large ''blob quota exceeded: {} of {} bytes used; upload needs {} bytes''
      | ClaimFailed message \<Rightarrow> internal (Failure message))"

definition map_blob_open_error :: "blob_error \<Rightarrow> api_error" where
  "map_blob_open_error e =
     (case e of
        BlobNotFound \<Rightarrow> not_found ''blob not found''
      | TooLarge _ \<Rightarrow> api_conflict ''stored blob exceeds the configured size limit''
      | StoredBlobTooLarge \<Rightarrow> api_conflict ''stored blob exceeds the configured size limit''
      | Io operation \<Rightarrow> internal (Failure operation)
      | _ \<Rightarrow> api_conflict ''stored blob failed integrity verification'')"

section \<open>Upload\<close>

record blob_limits =
  max_blob_bytes :: "64 word"
  max_user_blob_bytes :: "64 word"

text \<open>The ownership database and the data directory that every request opens a store on.\<close>

record blob_server =
  sv_owned :: ownership
  sv_store :: blob_store

text \<open>What the request's body yields, chunk by chunk.\<close>

datatype body_read = BodyChunk string | BodyError string

text \<open>The loop of \<open>stage_blob\<close>: the bytes in the staging file.\<close>

fun stage_chunks :: "64 word \<Rightarrow> body_read list \<Rightarrow> string \<Rightarrow> api_error + string" where
  "stage_chunks maximum [] staged = Inr staged"
| "stage_chunks maximum (BodyError message # rest) staged = Inl (bad_request message)"
| "stage_chunks maximum (BodyChunk chunk # rest) staged =
     guard (length staged + length chunk < 2 ^ 64) (too_large ''blob size overflow'')
     (guard (length staged + length chunk \<le> unat maximum) (too_large ''blob exceeds the configured {maximum} byte limit'')
       (stage_chunks maximum rest (staged @ chunk)))"

record staged_blob =
  st_bytes :: string
  st_size :: "64 word"
  st_hash :: blob_hash

definition stage_blob :: "(string \<Rightarrow> blob_hash) \<Rightarrow> body_read list \<Rightarrow> 64 word \<Rightarrow> api_error + staged_blob" where
  "stage_blob sha body maximum =
     attempt (stage_chunks maximum body []) (\<lambda>bytes.
       Inr \<lparr>st_bytes = bytes, st_size = file_len bytes, st_hash = sha bytes\<rparr>)"

text \<open>The reads of a regular file through the copy buffer.\<close>

definition copy_buffer_bytes :: nat where
  "copy_buffer_bytes = 64 * 1024"

function file_reads :: "string \<Rightarrow> source_read list" where
  "file_reads bytes =
     (if bytes = [] then [] else Chunk (take copy_buffer_bytes bytes) # file_reads (drop copy_buffer_bytes bytes))"
  by pat_completeness auto
termination
  by (relation "measure length") (auto simp: copy_buffer_bytes_def)

declare file_reads.simps [simp del]

definition install_file ::
    "(string \<Rightarrow> blob_hash) \<Rightarrow> string \<Rightarrow> blob_hash \<Rightarrow> 64 word \<Rightarrow> blob_store \<Rightarrow>
       blob_store \<times> (blob_error + (blob_info \<times> install_outcome))" where
  "install_file sha contents = install_reader sha (file_reads contents)"

text \<open>
  A request awaits three times with nothing held in between: the claim of the row, the installation
  of the file, and, when that failed, the release of a row it claimed itself. The first part ends
  with the claim; the request then carries on with what it staged.
\<close>

record upload =
  ul_user :: string
  ul_hash :: blob_hash
  ul_bytes :: string
  ul_outcome :: claim_outcome

definition begin_upload ::
    "(string \<Rightarrow> blob_hash) \<Rightarrow> blob_limits \<Rightarrow> string \<Rightarrow> string \<Rightarrow> body_read list \<Rightarrow> blob_server \<Rightarrow>
       api_error + (upload \<times> blob_server)" where
  "begin_upload sha limits user raw_hash body s =
     attempt (parse_blob_hash raw_hash) (\<lambda>hash.
     attempt (stage_blob sha body (max_blob_bytes limits)) (\<lambda>staging.
     guard (st_hash staging = hash) (bad_request ''request body SHA-256 does not match the blob URL'')
     (case claim user hash (st_size staging) (max_user_blob_bytes limits) (sv_owned s) of
        Inl e \<Rightarrow> Inl (map_blob_ownership_error e)
      | Inr (outcome, rows') \<Rightarrow>
          Inr (\<lparr>ul_user = user, ul_hash = hash, ul_bytes = st_bytes staging, ul_outcome = outcome\<rparr>,
               s\<lparr>sv_owned := rows'\<rparr>))))"

definition install_upload ::
    "(string \<Rightarrow> blob_hash) \<Rightarrow> blob_limits \<Rightarrow> upload \<Rightarrow> blob_server \<Rightarrow> blob_server \<times> (api_error + unit)" where
  "install_upload sha limits u s =
     (case install_file sha (ul_bytes u) (ul_hash u) (max_blob_bytes limits) (sv_store s) of
        (store', Inl e) \<Rightarrow> (s\<lparr>sv_store := store'\<rparr>, Inl (map_blob_install_error e))
      | (store', Inr _) \<Rightarrow> (s\<lparr>sv_store := store'\<rparr>, Inr ()))"

definition release_upload :: "upload \<Rightarrow> blob_server \<Rightarrow> blob_server" where
  "release_upload u s = s\<lparr>sv_owned := release (ul_user u) (ul_hash u) (sv_owned s)\<rparr>"

text \<open>
  A request that no other one interrupts; \<open>released\<close> says whether the deletion of a claimed row
  succeeds, which the code only logs when it does not.
\<close>

definition put_blob ::
    "(string \<Rightarrow> blob_hash) \<Rightarrow> blob_limits \<Rightarrow> bool \<Rightarrow> string \<Rightarrow> string \<Rightarrow> body_read list \<Rightarrow> blob_server \<Rightarrow>
       blob_server \<times> (api_error + unit)" where
  "put_blob sha limits released user raw_hash body s =
     (case begin_upload sha limits user raw_hash body s of
        Inl e \<Rightarrow> (s, Inl e)
      | Inr (u, s) \<Rightarrow>
          (case install_upload sha limits u s of
             (s, Inl e) \<Rightarrow> (if ul_outcome u = Claimed \<and> released then release_upload u s else s, Inl e)
           | (s, Inr _) \<Rightarrow> (s, Inr ())))"

section \<open>Download\<close>

definition user_references_blob :: "blob_hash \<Rightarrow> db \<Rightarrow> bool" where
  "user_references_blob hash d \<longleftrightarrow> list_ex (\<lambda>((_, h), _). h = hash) (rows (attachment_lww d))"

definition open_authorized_blob ::
    "(string \<Rightarrow> blob_hash) \<Rightarrow> blob_limits \<Rightarrow> string \<Rightarrow> db \<Rightarrow> blob_hash \<Rightarrow> blob_server \<Rightarrow>
       api_error + (blob_info \<times> string)" where
  "open_authorized_blob sha limits user notes_db hash s =
     guard (user_references_blob hash notes_db) (not_found ''blob not found'')
     (guard (has (owned user [hash] (sv_owned s)) hash) (not_found ''blob not found'')
       (case open_verified sha hash (max_blob_bytes limits) (sv_store s) of
          Inl e \<Rightarrow> Inl (map_blob_open_error e)
        | Inr r \<Rightarrow> Inr r))"

text \<open>The content length and the bytes that the response streams.\<close>

definition get_blob ::
    "(string \<Rightarrow> blob_hash) \<Rightarrow> blob_limits \<Rightarrow> string \<Rightarrow> db \<Rightarrow> string \<Rightarrow> blob_server \<Rightarrow> api_error + (64 word \<times> string)" where
  "get_blob sha limits user notes_db raw_hash s =
     attempt (parse_blob_hash raw_hash) (\<lambda>hash.
     attempt (open_authorized_blob sha limits user notes_db hash s) (\<lambda>(info, bytes). Inr (bi_size info, bytes)))"

definition head_blob ::
    "(string \<Rightarrow> blob_hash) \<Rightarrow> blob_limits \<Rightarrow> string \<Rightarrow> db \<Rightarrow> string \<Rightarrow> blob_server \<Rightarrow> api_error + 64 word" where
  "head_blob sha limits user notes_db raw_hash s =
     attempt (parse_blob_hash raw_hash) (\<lambda>hash.
     attempt (open_authorized_blob sha limits user notes_db hash s) (\<lambda>(info, bytes). Inr (bi_size info)))"

section \<open>Declared blobs\<close>

definition record_declared_blob ::
    "blob_hash \<Rightarrow> 64 word \<Rightarrow> (blob_hash, 64 word) table \<Rightarrow> api_error + (blob_hash, 64 word) table" where
  "record_declared_blob hash len declared =
     (case get declared hash of
        Some previous \<Rightarrow>
          guard (previous = len) (api_conflict ''attachment metadata declares inconsistent sizes for blob {hash}'')
            (Inr (put hash len declared))
      | None \<Rightarrow> Inr (put hash len declared))"

definition validate_declared_blob ::
    "(string \<Rightarrow> blob_hash) \<Rightarrow> blob_limits \<Rightarrow> blob_store \<Rightarrow> blob_hash \<Rightarrow> 64 word \<Rightarrow> api_error + unit" where
  "validate_declared_blob sha limits s hash declared_size =
     guard (declared_size \<le> max_blob_bytes limits)
       (bad_request ''attachment blob {hash} declares a size above the configured limit'')
     (case open_verified sha hash (max_blob_bytes limits) s of
        Inl e \<Rightarrow> Inl (map_declared_blob_error e)
      | Inr (info, _) \<Rightarrow>
          guard (bi_size info = declared_size)
            (api_conflict ''attachment blob {hash} has size {}, but metadata declares {declared_size}'') (Inr ()))"

definition validate_operation_blobs ::
    "(string \<Rightarrow> blob_hash) \<Rightarrow> blob_limits \<Rightarrow> blob_store \<Rightarrow> op list \<Rightarrow> api_error + unit" where
  "validate_operation_blobs sha limits s operations =
     attempt (fold_res (\<lambda>operation declared.
         case op_kind operation of
           AttachmentAdd a \<Rightarrow> record_declared_blob (aa_blob_hash a) (aa_size a) declared
         | _ \<Rightarrow> Inr declared) operations tempty) (\<lambda>declared.
       fold_res (\<lambda>(hash, len) _. validate_declared_blob sha limits s hash len) (rows declared) ())"

definition validate_snapshot_blobs ::
    "(string \<Rightarrow> blob_hash) \<Rightarrow> blob_limits \<Rightarrow> blob_store \<Rightarrow> snapshot_attachment list \<Rightarrow> api_error + unit" where
  "validate_snapshot_blobs sha limits s listed =
     attempt (fold_res (\<lambda>a declared.
         case sa_size a of
           None \<Rightarrow> Inl (bad_request ''present attachment is missing its size'')
         | Some len \<Rightarrow> record_declared_blob (sa_blob_hash a) len declared) (filter sa_present listed) tempty) (\<lambda>declared.
       fold_res (\<lambda>(hash, len) _. validate_declared_blob sha limits s hash len) (rows declared) ())"

section \<open>Usage and backing\<close>

lemma usage_alt: "usage user t = sum_list (map (\<lambda>((u, h), len). if u = user then len else 0) (rows t))"
proof -
  have "sum_list (map snd (filter (\<lambda>((u, _), _). u = user) xs)) =
      sum_list (map (\<lambda>((u, h), len). if u = user then len else 0) xs)" for xs :: "((string \<times> blob_hash) \<times> int) list"
    by (induction xs) auto
  then show ?thesis by (simp add: usage_def)
qed

lemma sum_list_ins_row:
  fixes f :: "'k::linorder \<times> 'v \<Rightarrow> int"
  shows "k \<notin> fst ` set xs \<Longrightarrow> sum_list (map f (ins_row k v xs)) = f (k, v) + sum_list (map f xs)"
  by (induction k v xs rule: ins_row.induct) auto

lemma get_None_rows: "get t k = None \<longleftrightarrow> k \<notin> fst ` set (rows t)"
  by (simp add: get.rep_eq map_of_eq_None_iff)

lemma usage_put:
  "get t (owner, hash) = None \<Longrightarrow>
     usage user (put (owner, hash) len t) = (if owner = user then len else 0) + usage user t"
  by (simp add: usage_alt sum_list_ins_row get_None_rows)

lemma del_put_absent: "get t k = None \<Longrightarrow> del k (put k v t) = t"
  by (rule table_eqI) simp

lemma claim_cases:
  assumes "claim user hash len quota t = Inr (outcome, t')"
  obtains (owned) "outcome = AlreadyOwned" "t' = t" "get t (user, hash) = Some (uint len)"
  | (claimed) "outcome = Claimed" "t' = put (user, hash) (uint len) t" "get t (user, hash) = None"
      "usage user t + uint len \<le> uint quota" "uint len \<le> i64_max"
  using assms by (auto simp: claim_def res split: option.splits)

definition within_quota :: "64 word \<Rightarrow> ownership \<Rightarrow> bool" where
  "within_quota quota t \<longleftrightarrow>
     list_all (\<lambda>((user, _), _). usage user t \<le> uint quota) (rows t) \<and> list_all (\<lambda>(_, len). 0 \<le> len) (rows t)"

lemma usage_no_rows:
  assumes "user \<notin> (\<lambda>((u, _), _). u) ` set (rows t)"
  shows "usage user t = 0"
proof -
  have "filter (\<lambda>((u, _), _). u = user) (rows t) = []"
    using assms by (force simp: filter_empty_conv)
  then show ?thesis by (simp add: usage_def)
qed

lemma within_quota_iff:
  "within_quota quota t \<longleftrightarrow>
     (\<forall>user. usage user t \<le> uint quota) \<and> (\<forall>key len. get t key = Some len \<longrightarrow> 0 \<le> len)"
proof -
  have "(\<forall>user. usage user t \<le> uint quota) \<longleftrightarrow> list_all (\<lambda>((user, _), _). usage user t \<le> uint quota) (rows t)"
  proof
    assume *: "list_all (\<lambda>((user, _), _). usage user t \<le> uint quota) (rows t)"
    show "\<forall>user. usage user t \<le> uint quota"
    proof
      fix user
      show "usage user t \<le> uint quota"
      proof (cases "user \<in> (\<lambda>((u, _), _). u) ` set (rows t)")
        case True
        then show ?thesis using * by (auto simp: list_all_iff)
      qed (simp add: usage_no_rows)
    qed
  qed (auto simp: list_all_iff)
  moreover have "list_all (\<lambda>(_, len). 0 \<le> len) (rows t) \<longleftrightarrow> (\<forall>key len. get t key = Some len \<longrightarrow> 0 \<le> len)"
    unfolding set_rows [symmetric] list_all_iff by blast
  ultimately show ?thesis by (simp add: within_quota_def)
qed

lemma claim_within_quota:
  assumes "claim user hash len quota t = Inr (outcome, t')" and "within_quota quota t"
  shows "within_quota quota t'"
  using assms(1)
proof (cases rule: claim_cases)
  case claimed
  then show ?thesis using assms(2) by (auto simp: within_quota_iff usage_put)
qed (use assms(2) in simp)

text \<open>Every owned blob is on the disk, with the bytes of its name and the size of its row.\<close>

definition backed :: "(string \<Rightarrow> blob_hash) \<Rightarrow> blob_server \<Rightarrow> bool" where
  "backed sha s \<longleftrightarrow>
     list_all (\<lambda>((_, h), len). case get (bs_files (sv_store s)) h of
         Some (Regular bytes) \<Rightarrow> sha bytes = h \<and> int (length bytes) = len
       | _ \<Rightarrow> False) (rows (sv_owned s))"

lemma backed_iff:
  "backed sha s \<longleftrightarrow>
     (\<forall>user h len. get (sv_owned s) (user, h) = Some len \<longrightarrow>
        (\<exists>bytes. get (bs_files (sv_store s)) h = Some (Regular bytes) \<and> sha bytes = h \<and> int (length bytes) = len))"
proof -
  have "(case e of Some (Regular bytes) \<Rightarrow> sha bytes = h \<and> int (length bytes) = len | _ \<Rightarrow> False) \<longleftrightarrow>
      (\<exists>bytes. e = Some (Regular bytes) \<and> sha bytes = h \<and> int (length bytes) = len)" for e h len
    by (auto split: option.splits fs_entry.splits)
  then show ?thesis by (simp only: backed_def list_all_iff Ball_def split_paired_All set_rows prod.case simp_thms)
qed

lemma stage_chunks_bound:
  "stage_chunks maximum body staged = Inr bytes \<Longrightarrow> length staged \<le> unat maximum \<Longrightarrow> length bytes \<le> unat maximum"
  by (induction maximum body staged rule: stage_chunks.induct) (auto simp: res)

lemma stage_blob_Inr:
  assumes "stage_blob sha body maximum = Inr staging"
  shows "length (st_bytes staging) \<le> unat maximum \<and> st_size staging = file_len (st_bytes staging) \<and>
    st_hash staging = sha (st_bytes staging)"
  using assms stage_chunks_bound [of maximum body "[]"] by (auto simp: stage_blob_def res)

lemma copy_file_reads:
  "length written + length bytes \<le> unat m \<Longrightarrow> copy_chunks m (file_reads bytes) written = Inr (written @ bytes)"
proof (induction bytes arbitrary: written rule: file_reads.induct)
  case (1 bytes)
  show ?case
  proof (cases "bytes = []")
    case False
    have "0 < copy_buffer_bytes" by (simp add: copy_buffer_bytes_def)
    then have chunk: "take copy_buffer_bytes bytes \<noteq> []" using False by simp
    have "length (take copy_buffer_bytes bytes) + length (drop copy_buffer_bytes bytes) = length bytes" by simp
    then have fits: "length (written @ take copy_buffer_bytes bytes) + length (drop copy_buffer_bytes bytes) \<le> unat m"
      using 1(2) by simp
    then have "length written + length (take copy_buffer_bytes bytes) \<le> unat m" by simp
    then show ?thesis
      using chunk False 1(1) [OF False fits] unat_below_word64 [of m]
      by (subst file_reads.simps) (simp add: guard_def)
  qed (simp add: file_reads.simps)
qed

text \<open>What the parts of an upload come to.\<close>

lemma begin_upload_Inr:
  assumes "begin_upload sha limits user raw body s = Inr (u, s')"
  shows "ul_user u = user \<and> blob_hash_of_str raw = Inr (ul_hash u) \<and>
    stage_chunks (max_blob_bytes limits) body [] = Inr (ul_bytes u) \<and> sha (ul_bytes u) = ul_hash u \<and>
    length (ul_bytes u) \<le> unat (max_blob_bytes limits) \<and> sv_store s' = sv_store s \<and>
    claim user (ul_hash u) (file_len (ul_bytes u)) (max_user_blob_bytes limits) (sv_owned s) = Inr (ul_outcome u, sv_owned s')"
proof -
  obtain staging where st: "stage_blob sha body (max_blob_bytes limits) = Inr staging"
    using assms by (auto simp: begin_upload_def res)
  then have "stage_chunks (max_blob_bytes limits) body [] = Inr (st_bytes staging)" by (auto simp: stage_blob_def res)
  then show ?thesis
    using assms st stage_blob_Inr [OF st]
    by (auto simp: begin_upload_def parse_blob_hash_def res split: sum.splits prod.splits)
qed

definition upload_fits :: "(string \<Rightarrow> blob_hash) \<Rightarrow> blob_limits \<Rightarrow> upload \<Rightarrow> bool" where
  "upload_fits sha limits u \<longleftrightarrow> sha (ul_bytes u) = ul_hash u \<and> length (ul_bytes u) \<le> unat (max_blob_bytes limits)"

lemma begin_upload_fits: "begin_upload sha limits user raw body s = Inr (u, s') \<Longrightarrow> upload_fits sha limits u"
  using begin_upload_Inr [of sha limits user raw body s u s'] by (simp add: upload_fits_def)

lemma install_upload_cases:
  assumes "install_upload sha limits u s = (s', r)" and "upload_fits sha limits u"
  obtains (refused) e where "r = Inl e" "sv_owned s' = sv_owned s" "bs_files (sv_store s') = bs_files (sv_store s)"
  | (stored) stored_bytes where "r = Inr ()" "sv_owned s' = sv_owned s" "length stored_bytes = length (ul_bytes u)"
      "sha stored_bytes = ul_hash u" "get (bs_files (sv_store s')) (ul_hash u) = Some (Regular stored_bytes)"
      "\<forall>k entry. get (bs_files (sv_store s)) k = Some entry \<longrightarrow> get (bs_files (sv_store s')) k = Some entry"
      "get (bs_files (sv_store s)) (ul_hash u) = None \<longrightarrow> stored_bytes = ul_bytes u"
proof -
  obtain store' q where i: "install_file sha (ul_bytes u) (ul_hash u) (max_blob_bytes limits) (sv_store s) = (store', q)" by force
  note i' = i [unfolded install_file_def]
  show thesis
  proof (cases q)
    case (Inl e)
    have "bs_files store' = bs_files (sv_store s)" using i' Inl by (cases rule: install_reader_cases) simp_all
    moreover have "s' = s\<lparr>sv_store := store'\<rparr>" "r = Inl (map_blob_install_error e)"
      using assms(1) i Inl by (auto simp: install_upload_def)
    ultimately show thesis using refused by simp
  next
    case ok: (Inr y)
    have s': "s' = s\<lparr>sv_store := store'\<rparr>" "r = Inr ()" using assms(1) i ok by (auto simp: install_upload_def)
    have keep: "\<forall>k entry. get (bs_files (sv_store s)) k = Some entry \<longrightarrow> get (bs_files store') k = Some entry"
      using install_keeps_entries [of "sv_store s" _ _ sha "file_reads (ul_bytes u)" "ul_hash u" "max_blob_bytes limits"] i'
      by simp
    have copied: "copy_chunks (max_blob_bytes limits) (file_reads (ul_bytes u)) [] = Inr (ul_bytes u)"
      using copy_file_reads [of "[]" "ul_bytes u" "max_blob_bytes limits"] assms(2) by (simp add: upload_fits_def)
    have "\<exists>stored_bytes. length stored_bytes = length (ul_bytes u) \<and> sha stored_bytes = ul_hash u \<and>
        get (bs_files store') (ul_hash u) = Some (Regular stored_bytes) \<and>
        (get (bs_files (sv_store s)) (ul_hash u) = None \<longrightarrow> stored_bytes = ul_bytes u)"
      using i' unfolding ok
    proof (cases rule: install_reader_cases)
      case (present old)
      then show ?thesis using copied by auto
    next
      case (fresh bytes)
      then show ?thesis using copied assms(2) by (auto simp: upload_fits_def)
    qed simp
    then obtain stored_bytes where sb: "length stored_bytes = length (ul_bytes u)" "sha stored_bytes = ul_hash u"
        "get (bs_files store') (ul_hash u) = Some (Regular stored_bytes)"
        "get (bs_files (sv_store s)) (ul_hash u) = None \<longrightarrow> stored_bytes = ul_bytes u"
      by (elim exE conjE)
    have g: "sv_owned s' = sv_owned s" "sv_store s' = store'" using s'(1) by simp_all
    show thesis by (rule stored [OF s'(2) g(1) sb(1,2) sb(3) [folded g(2)] keep [folded g(2)] sb(4)])
  qed
qed

lemma put_blob_cases:
  assumes "put_blob sha limits released user raw body s = (s', r)"
  obtains (refused) e where "r = Inl e" "bs_files (sv_store s') = bs_files (sv_store s)"
      "released \<longrightarrow> sv_owned s' = sv_owned s"
  | (stored) hash bytes outcome stored_bytes where "r = Inr ()" "blob_hash_of_str raw = Inr hash"
      "stage_chunks (max_blob_bytes limits) body [] = Inr bytes"
      "claim user hash (file_len bytes) (max_user_blob_bytes limits) (sv_owned s) = Inr (outcome, sv_owned s')"
      "length bytes \<le> unat (max_blob_bytes limits)" "sha bytes = hash" "length stored_bytes = length bytes"
      "sha stored_bytes = hash" "get (bs_files (sv_store s')) hash = Some (Regular stored_bytes)"
      "\<forall>k entry. get (bs_files (sv_store s)) k = Some entry \<longrightarrow> get (bs_files (sv_store s')) k = Some entry"
      "get (bs_files (sv_store s)) hash = None \<longrightarrow> stored_bytes = bytes"
proof (cases "begin_upload sha limits user raw body s")
  case (Inl e)
  then show thesis using assms refused by (auto simp: put_blob_def)
next
  case (Inr x)
  then obtain u s1 where b: "begin_upload sha limits user raw body s = Inr (u, s1)" by (cases x) simp
  obtain s2 q where i: "install_upload sha limits u s1 = (s2, q)" by force
  note u = begin_upload_Inr [OF b]
  from i begin_upload_fits [OF b] show thesis
  proof (cases rule: install_upload_cases)
    case (refused e)
    from u have c: "claim user (ul_hash u) (file_len (ul_bytes u)) (max_user_blob_bytes limits) (sv_owned s) =
        Inr (ul_outcome u, sv_owned s1)" and who: "ul_user u = user" and store: "sv_store s1 = sv_store s" by blast+
    have undone: "release user (ul_hash u) (sv_owned s1) = sv_owned s" if "ul_outcome u = Claimed"
      using c that by (cases rule: claim_cases) (simp_all add: release_def del_put_absent)
    have kept: "sv_owned s1 = sv_owned s" if "ul_outcome u \<noteq> Claimed"
      using c that by (cases rule: claim_cases) simp_all
    have p: "put_blob sha limits released user raw body s =
        (if ul_outcome u = Claimed \<and> released then release_upload u s2 else s2, Inl e)"
      using b i refused(1) by (simp add: put_blob_def)
    show thesis
    proof (rule that(1))
      show "r = Inl e" using assms p by simp
      show "bs_files (sv_store s') = bs_files (sv_store s)"
        using assms p refused(3) store by (auto simp: release_upload_def split: if_splits)
      show "released \<longrightarrow> sv_owned s' = sv_owned s"
        using assms p refused(2) undone kept who by (auto simp: release_upload_def split: if_splits)
    qed
  next
    case (stored stored_bytes)
    have "s' = s2" "r = Inr ()" using assms b i stored(1) by (auto simp: put_blob_def)
    then show thesis using that(2) [of "ul_hash u" "ul_bytes u" "ul_outcome u" stored_bytes] u stored by simp
  qed
qed

definition empty_server :: blob_server where
  "empty_server = \<lparr>sv_owned = tempty, sv_store = empty_store\<rparr>"

section \<open>Interleaved uploads\<close>

text \<open>
  The uploads in flight: those that claimed and have not installed yet, and those whose installation
  failed and that are about to release the row they claimed. Two fields record what happened:
  \<open>up_stranded\<close> the rows whose clean-up was lost, \<open>up_acknowledged\<close> the uploads that were answered
  with \<open>201 Created\<close>.
\<close>

record upload_system =
  up_server :: blob_server
  up_running :: "upload list"
  up_failed :: "upload list"
  up_stranded :: "(string \<times> blob_hash) list"
  up_acknowledged :: "(string \<times> blob_hash) list"

definition upload_key :: "upload \<Rightarrow> string \<times> blob_hash" where
  "upload_key u = (ul_user u, ul_hash u)"

definition claimed_keys :: "upload list \<Rightarrow> (string \<times> blob_hash) list" where
  "claimed_keys us = map upload_key (filter (\<lambda>u. ul_outcome u = Claimed) us)"

definition install_failed :: "upload \<Rightarrow> blob_server \<Rightarrow> upload_system \<Rightarrow> upload_system" where
  "install_failed u s x =
     x\<lparr>up_server := s, up_running := remove1 u (up_running x),
       up_failed := (if ul_outcome u = Claimed then u # up_failed x else up_failed x)\<rparr>"

text \<open>
  An installation that does not report success may or may not have put the file in place: the file
  system can fail before or after the entry appears.
\<close>

definition attempted :: "(string \<Rightarrow> blob_hash) \<Rightarrow> blob_limits \<Rightarrow> upload \<Rightarrow> blob_server \<Rightarrow> blob_server \<Rightarrow> bool" where
  "attempted sha limits u s s' \<longleftrightarrow> s' = s \<or> s' = fst (install_upload sha limits u s)"

text \<open>
  The awaits of all requests in any order. An installation is refused or fails in the file system
  (\<open>failed\<close>), its task or its request is dropped, which ends the request without a release
  (\<open>abandoned\<close>), a release succeeds or fails, and the process can stop at any time.
\<close>

inductive upload_step :: "(string \<Rightarrow> blob_hash) \<Rightarrow> blob_limits \<Rightarrow> upload_system \<Rightarrow> upload_system \<Rightarrow> bool" for sha limits where
  claimed: "begin_upload sha limits user raw body (up_server x) = Inr (u, s) \<Longrightarrow>
     upload_step sha limits x (x\<lparr>up_server := s, up_running := u # up_running x\<rparr>)"
| installed: "u \<in> set (up_running x) \<Longrightarrow> install_upload sha limits u (up_server x) = (s, Inr ()) \<Longrightarrow>
     upload_step sha limits x
       (x\<lparr>up_server := s, up_running := remove1 u (up_running x), up_acknowledged := upload_key u # up_acknowledged x\<rparr>)"
| failed: "u \<in> set (up_running x) \<Longrightarrow> attempted sha limits u (up_server x) s \<Longrightarrow>
     upload_step sha limits x (install_failed u s x)"
| abandoned: "u \<in> set (up_running x) \<Longrightarrow> attempted sha limits u (up_server x) s \<Longrightarrow>
     upload_step sha limits x
       (x\<lparr>up_server := s, up_running := remove1 u (up_running x), up_stranded := claimed_keys [u] @ up_stranded x\<rparr>)"
| released: "u \<in> set (up_failed x) \<Longrightarrow>
     upload_step sha limits x (x\<lparr>up_server := release_upload u (up_server x), up_failed := remove1 u (up_failed x)\<rparr>)"
| release_failed: "u \<in> set (up_failed x) \<Longrightarrow>
     upload_step sha limits x (x\<lparr>up_failed := remove1 u (up_failed x), up_stranded := upload_key u # up_stranded x\<rparr>)"
| crashed: "upload_step sha limits x
     (x\<lparr>up_running := [], up_failed := [],
       up_stranded := claimed_keys (up_running x) @ map upload_key (up_failed x) @ up_stranded x\<rparr>)"

definition idle_system :: upload_system where
  "idle_system = \<lparr>up_server = empty_server, up_running = [], up_failed = [], up_stranded = [], up_acknowledged = []\<rparr>"

definition stored_as :: "(string \<Rightarrow> blob_hash) \<Rightarrow> blob_server \<Rightarrow> blob_hash \<Rightarrow> int \<Rightarrow> bool" where
  "stored_as sha s h len \<longleftrightarrow>
     (\<exists>bytes. get (bs_files (sv_store s)) h = Some (Regular bytes) \<and> sha bytes = h \<and> int (length bytes) = len)"

lemma backed_stored: "backed sha s \<longleftrightarrow> (\<forall>user h len. get (sv_owned s) (user, h) = Some len \<longrightarrow> stored_as sha s h len)"
  by (simp only: backed_iff stored_as_def)

text \<open>An upload in flight that put the row there.\<close>

definition in_flight :: "upload_system \<Rightarrow> string \<Rightarrow> blob_hash \<Rightarrow> int \<Rightarrow> bool" where
  "in_flight x user h len \<longleftrightarrow>
     (\<exists>u \<in> set (up_running x) \<union> set (up_failed x).
        ul_outcome u = Claimed \<and> upload_key u = (user, h) \<and> int (length (ul_bytes u)) = len)"

definition accounted :: "(string \<Rightarrow> blob_hash) \<Rightarrow> upload_system \<Rightarrow> bool" where
  "accounted sha x \<longleftrightarrow>
     (\<forall>user h len. get (sv_owned (up_server x)) (user, h) = Some len \<longrightarrow>
        stored_as sha (up_server x) h len \<or> in_flight x user h len \<or> (user, h) \<in> set (up_stranded x))"

definition uploads_ok :: "(string \<Rightarrow> blob_hash) \<Rightarrow> blob_limits \<Rightarrow> upload_system \<Rightarrow> bool" where
  "uploads_ok sha limits x \<longleftrightarrow>
     within_quota (max_user_blob_bytes limits) (sv_owned (up_server x)) \<and> accounted sha x \<and>
     (\<forall>u \<in> set (up_running x) \<union> set (up_failed x). upload_fits sha limits u) \<and>
     (\<forall>u \<in> set (up_failed x). ul_outcome u = Claimed) \<and>
     (\<forall>(user, h) \<in> set (up_acknowledged x). \<exists>len. stored_as sha (up_server x) h len)"

lemma release_rows:
  "get (sv_owned (release_upload u s)) k = (if k = upload_key u then None else get (sv_owned s) k)"
  "sv_store (release_upload u s) = sv_store s"
  by (simp_all add: release_upload_def release_def upload_key_def)

lemma sum_list_filter_le:
  fixes f :: "'a \<Rightarrow> int"
  shows "\<forall>x \<in> set xs. 0 \<le> f x \<Longrightarrow> sum_list (map f (filter P xs)) \<le> sum_list (map f xs)"
  by (induction xs) auto

lemma rows_del: "rows (del k t) = filter (\<lambda>(k', _). k' \<noteq> k) (rows t)"
  by (simp add: del_def filt.rep_eq)

lemma within_quota_del:
  assumes "within_quota quota t"
  shows "within_quota quota (del k t)"
proof -
  have pos: "0 \<le> len" if "(key, len) \<in> set (rows t)" for key len
    using assms that by (cases key) (auto simp: within_quota_iff set_rows)
  have "usage user (del k t) \<le> usage user t" for user
    unfolding usage_alt rows_del by (rule sum_list_filter_le) (use pos in auto)
  then show ?thesis using assms by (force simp: within_quota_iff split: if_splits intro: order_trans)
qed

text \<open>What a step of the system may do to the server, with the files it may add.\<close>

lemma attempted_frame:
  assumes "attempted sha limits u s s'" and "upload_fits sha limits u"
  shows "sv_owned s' = sv_owned s \<and>
    (\<forall>k entry. get (bs_files (sv_store s)) k = Some entry \<longrightarrow> get (bs_files (sv_store s')) k = Some entry)"
proof (cases "s' = s")
  case False
  obtain r where "install_upload sha limits u s = (s', r)"
    using assms(1) False by (cases "install_upload sha limits u s") (auto simp: attempted_def)
  from this assms(2) show ?thesis by (cases rule: install_upload_cases) auto
qed simp

lemma stored_mono:
  assumes "\<forall>k entry. get (bs_files (sv_store s)) k = Some entry \<longrightarrow> get (bs_files (sv_store s')) k = Some entry"
    and "stored_as sha s h len"
  shows "stored_as sha s' h len"
  using assms by (fastforce simp: stored_as_def)

text \<open>An upload leaves the system: its row, if it put one, has to be accounted for otherwise.\<close>

lemma accounted_leave:
  assumes "accounted sha x" and "u \<in> set (up_running x) \<union> set (up_failed x)"
    and rows: "\<And>k n. get (sv_owned (up_server y)) k = Some n \<Longrightarrow> get (sv_owned (up_server x)) k = Some n"
    and mono: "\<And>h len. stored_as sha (up_server x) h len \<Longrightarrow> stored_as sha (up_server y) h len"
    and rest: "set (up_running x) \<union> set (up_failed x) \<subseteq> insert u (set (up_running y) \<union> set (up_failed y))"
    and lost: "set (up_stranded x) \<subseteq> set (up_stranded y)"
    and own: "ul_outcome u = Claimed \<Longrightarrow> stored_as sha (up_server y) (ul_hash u) (int (length (ul_bytes u))) \<or>
      u \<in> set (up_failed y) \<or> upload_key u \<in> set (up_stranded y) \<or> get (sv_owned (up_server y)) (upload_key u) = None"
  shows "accounted sha y"
  unfolding accounted_def
proof (intro allI impI)
  fix user h len
  assume here: "get (sv_owned (up_server y)) (user, h) = Some len"
  from assms(1) rows [OF here] consider "stored_as sha (up_server x) h len" | "in_flight x user h len"
    | "(user, h) \<in> set (up_stranded x)" unfolding accounted_def by metis
  then show "stored_as sha (up_server y) h len \<or> in_flight y user h len \<or> (user, h) \<in> set (up_stranded y)"
  proof cases
    case 2
    then obtain v where v: "v \<in> set (up_running x) \<union> set (up_failed x)" "ul_outcome v = Claimed"
      "upload_key v = (user, h)" "int (length (ul_bytes v)) = len" by (auto simp: in_flight_def)
    show ?thesis
    proof (cases "v = u")
      case True
      then show ?thesis using own v here by (auto simp: upload_key_def in_flight_def)
    next
      case False
      then show ?thesis using rest v by (auto simp: in_flight_def)
    qed
  qed (use mono lost in auto)
qed

lemma in_remove1: "x \<in> set (remove1 u xs) \<Longrightarrow> x \<in> set xs"
  using set_remove1_subset by fastforce

lemma uploads_ok_leave:
  assumes "uploads_ok sha limits x" and "accounted sha y"
    and "within_quota (max_user_blob_bytes limits) (sv_owned (up_server y))"
    and "\<And>h len. stored_as sha (up_server x) h len \<Longrightarrow> stored_as sha (up_server y) h len"
    and "set (up_running y) \<subseteq> set (up_running x)"
    and "\<forall>u \<in> set (up_failed y). ul_outcome u = Claimed \<and> u \<in> set (up_running x) \<union> set (up_failed x)"
    and "\<forall>key \<in> set (up_acknowledged y) - set (up_acknowledged x). \<exists>len. stored_as sha (up_server y) (snd key) len"
  shows "uploads_ok sha limits y"
  unfolding uploads_ok_def
proof (intro conjI)
  show "\<forall>(user, h) \<in> set (up_acknowledged y). \<exists>len. stored_as sha (up_server y) h len"
  proof (intro ballI, clarify)
    fix user h assume "(user, h) \<in> set (up_acknowledged y)"
    then show "\<exists>len. stored_as sha (up_server y) h len"
    proof (cases "(user, h) \<in> set (up_acknowledged x)")
      case True
      then have "\<exists>len. stored_as sha (up_server x) h len" using assms(1) unfolding uploads_ok_def by blast
      then show ?thesis using assms(4) by blast
    next
      case False
      then show ?thesis using bspec [OF assms(7), of "(user, h)"] \<open>(user, h) \<in> set (up_acknowledged y)\<close> by simp
    qed
  qed
qed (use assms(1-3,5,6) in \<open>auto simp: uploads_ok_def\<close>)

lemma uploads_ok_step:
  assumes "upload_step sha limits x y" and ok: "uploads_ok sha limits x"
  shows "uploads_ok sha limits y"
  using assms(1)
proof cases
  case (claimed user raw body u s)
  note b = begin_upload_Inr [OF claimed(2)]
  have q: "within_quota (max_user_blob_bytes limits) (sv_owned s)"
    using b ok claim_within_quota unfolding uploads_ok_def by blast
  have len: "int (length (ul_bytes u)) = uint (file_len (ul_bytes u))"
    using b unat_below_word64 [of "max_blob_bytes limits"] by (intro uint_file_len [symmetric]) simp
  have same: "stored_as sha s h n \<longleftrightarrow> stored_as sha (up_server x) h n" for h n
    using b by (simp add: stored_as_def)
  have "claim user (ul_hash u) (file_len (ul_bytes u)) (max_user_blob_bytes limits) (sv_owned (up_server x)) =
      Inr (ul_outcome u, sv_owned s)" using b by blast
  then have rows: "get (sv_owned s) k = Some n \<Longrightarrow> get (sv_owned (up_server x)) k = Some n \<or>
      (ul_outcome u = Claimed \<and> k = upload_key u \<and> n = int (length (ul_bytes u)))" for k n
    using b len by (cases rule: claim_cases) (auto simp: upload_key_def split: if_splits)
  have "accounted sha y"
    unfolding accounted_def
  proof (intro allI impI)
    fix user h n
    assume "get (sv_owned (up_server y)) (user, h) = Some n"
    then have "get (sv_owned s) (user, h) = Some n" by (simp add: claimed(1))
    from rows [OF this] ok show "stored_as sha (up_server y) h n \<or> in_flight y user h n \<or> (user, h) \<in> set (up_stranded y)"
      by (auto simp: claimed(1) same uploads_ok_def accounted_def in_flight_def)
  qed
  then show ?thesis using ok q begin_upload_fits [OF claimed(2)] by (auto simp: claimed(1) uploads_ok_def same)
next
  case (installed u s)
  then have fits: "upload_fits sha limits u" using ok by (auto simp: uploads_ok_def)
  from installed(3) this obtain bytes where i: "sv_owned s = sv_owned (up_server x)" "length bytes = length (ul_bytes u)"
      "sha bytes = ul_hash u" "get (bs_files (sv_store s)) (ul_hash u) = Some (Regular bytes)"
      "\<forall>k entry. get (bs_files (sv_store (up_server x))) k = Some entry \<longrightarrow> get (bs_files (sv_store s)) k = Some entry"
    by (cases rule: install_upload_cases) auto
  then have new: "stored_as sha s (ul_hash u) (int (length (ul_bytes u)))" by (auto simp: stored_as_def)
  note mono = stored_mono [OF i(5)]
  have "accounted sha y"
    by (rule accounted_leave [of sha x u]) (use ok installed(2) i(1) new mono in \<open>auto simp: installed(1) uploads_ok_def\<close>)
  with ok show ?thesis
    by (rule uploads_ok_leave)
      (use ok i(1) new mono in \<open>auto simp: installed(1) uploads_ok_def upload_key_def dest: in_remove1\<close>)
next
  case (failed u s)
  then have fits: "upload_fits sha limits u" using ok by (auto simp: uploads_ok_def)
  note frame = attempted_frame [OF failed(3) fits]
  note mono = stored_mono [OF conjunct2 [OF frame]]
  have "accounted sha y"
    by (rule accounted_leave [of sha x u]) (use ok failed(2) frame mono in \<open>auto simp: failed(1) install_failed_def uploads_ok_def\<close>)
  with ok show ?thesis
    by (rule uploads_ok_leave)
      (use ok failed(2) frame mono in \<open>auto simp: failed(1) install_failed_def uploads_ok_def dest: in_remove1\<close>)
next
  case (abandoned u s)
  then have fits: "upload_fits sha limits u" using ok by (auto simp: uploads_ok_def)
  note frame = attempted_frame [OF abandoned(3) fits]
  note mono = stored_mono [OF conjunct2 [OF frame]]
  have "accounted sha y"
    by (rule accounted_leave [of sha x u]) (use ok abandoned(2) frame mono in \<open>auto simp: abandoned(1) claimed_keys_def uploads_ok_def\<close>)
  with ok show ?thesis
    by (rule uploads_ok_leave)
      (use ok frame mono in \<open>auto simp: abandoned(1) uploads_ok_def dest: in_remove1\<close>)
next
  case (released u)
  have q: "within_quota (max_user_blob_bytes limits) (sv_owned (up_server y))"
    using ok within_quota_del by (auto simp: released(1) uploads_ok_def release_upload_def release_def)
  have same: "stored_as sha (up_server y) h n \<longleftrightarrow> stored_as sha (up_server x) h n" for h n
    by (simp add: released(1) stored_as_def release_rows)
  have "accounted sha y"
  proof (rule accounted_leave [of sha x u])
    show "get (sv_owned (up_server x)) k = Some n" if "get (sv_owned (up_server y)) k = Some n" for k n
      using that by (simp add: released(1) release_rows split: if_splits)
    show "set (up_running x) \<union> set (up_failed x) \<subseteq> insert u (set (up_running y) \<union> set (up_failed y))"
      by (auto simp: released(1))
  qed (use ok released(2) same in \<open>simp_all add: released(1) release_rows uploads_ok_def\<close>)
  with ok show ?thesis
  proof (rule uploads_ok_leave)
    show "\<forall>u \<in> set (up_failed y). ul_outcome u = Claimed \<and> u \<in> set (up_running x) \<union> set (up_failed x)"
      using ok by (auto simp: released(1) uploads_ok_def dest: in_remove1)
  qed (use q same in \<open>simp_all add: released(1)\<close>)
next
  case (release_failed u)
  have "accounted sha y"
    by (rule accounted_leave [of sha x u]) (use ok release_failed(2) in \<open>auto simp: release_failed(1) uploads_ok_def\<close>)
  with ok show ?thesis
    by (rule uploads_ok_leave) (use ok in \<open>auto simp: release_failed(1) uploads_ok_def dest: in_remove1\<close>)
next
  case crashed
  have "accounted sha y"
    unfolding accounted_def
  proof (intro allI impI)
    fix user h n
    assume "get (sv_owned (up_server y)) (user, h) = Some n"
    then have "get (sv_owned (up_server x)) (user, h) = Some n" by (simp add: crashed)
    then consider "stored_as sha (up_server x) h n" | "in_flight x user h n" | "(user, h) \<in> set (up_stranded x)"
      using ok unfolding uploads_ok_def accounted_def by metis
    then show "stored_as sha (up_server y) h n \<or> in_flight y user h n \<or> (user, h) \<in> set (up_stranded y)"
    proof cases
      case 2
      then obtain v where "v \<in> set (up_running x) \<union> set (up_failed x)" "ul_outcome v = Claimed" "upload_key v = (user, h)"
        by (auto simp: in_flight_def)
      then show ?thesis by (auto simp: crashed claimed_keys_def intro!: image_eqI [of _ upload_key v])
    qed (simp_all add: crashed)
  qed
  then show ?thesis using ok by (auto simp: crashed uploads_ok_def)
qed

text \<open>
  C32. The accounting of blobs, whatever the users upload, in whatever order the awaits of their
  requests run, and wherever requests fail or the server stops: no user's blobs exceed the quota;
  every row of the ownership table stands for a file of the store that hashes to the row's name and
  has the row's size, or belongs to an upload that is still in flight, or is one whose clean-up was
  lost; and every acknowledged upload has its file. So when nothing is in flight and no clean-up was
  lost, every row is backed by its file.
\<close>

theorem uploads_keep_the_accounts:
  assumes "(upload_step sha limits)\<^sup>*\<^sup>* idle_system x"
  shows "(\<forall>user. usage user (sv_owned (up_server x)) \<le> uint (max_user_blob_bytes limits)) \<and> accounted sha x \<and>
    (\<forall>(user, h) \<in> set (up_acknowledged x). \<exists>len. stored_as sha (up_server x) h len) \<and>
    (up_running x = [] \<and> up_failed x = [] \<and> up_stranded x = [] \<longrightarrow> backed sha (up_server x))"
proof -
  have "uploads_ok sha limits x"
    using assms
  proof (induction rule: rtranclp_induct)
    case base
    show ?case by (simp add: uploads_ok_def within_quota_def accounted_def idle_system_def empty_server_def)
  qed (rule uploads_ok_step)
  then show ?thesis
    by (auto simp: uploads_ok_def within_quota_iff accounted_def in_flight_def backed_stored)
qed

lemma has_owned [simp]: "has (owned user [hash] t) hash \<longleftrightarrow> has t (user, hash)"
  by (auto simp: owned_def has_def split: option.split)

lemma open_authorized_blob_Inr:
  "open_authorized_blob sha limits user d hash s = Inr (info, bytes) \<longleftrightarrow>
     user_references_blob hash d \<and> has (sv_owned s) (user, hash) \<and>
     open_verified sha hash (max_blob_bytes limits) (sv_store s) = Inr (info, bytes)"
  by (auto simp: open_authorized_blob_def res split: sum.splits)


definition sample_limits :: blob_limits where
  "sample_limits = \<lparr>max_blob_bytes = 10, max_user_blob_bytes = 20\<rparr>"

definition sample_server :: blob_server where
  "sample_server = fst (put_blob sample_sha sample_limits True ''ann'' (write_hex 3) [BodyChunk ''abc''] empty_server)"

lemma sample_file_reads: "file_reads ''abc'' = [Chunk ''abc'']"
  by (simp add: file_reads.simps copy_buffer_bytes_def)

lemma blob_hash_of_write_hex [simp]: "blob_hash_of_str (write_hex h) = Inr h"
  by (simp add: blob_hash_of_str_iff)

lemma sample_stage: "stage_chunks 10 [BodyChunk ''abc''] [] = Inr ''abc''"
  by simp

lemma sample_upload:
  "put_blob sample_sha sample_limits True ''ann'' (write_hex 3) [BodyChunk ''abc''] empty_server = (sample_server, Inr ())"
  by (simp add: sample_server_def put_blob_def begin_upload_def install_upload_def parse_blob_hash_def stage_blob_def sample_limits_def sample_sha_def
      claim_def empty_server_def usage_def i64_max_def file_len_def install_file_def sample_file_reads
      install_reader_def ensure_shard_def ensure_directory_def empty_store_def copy_and_hash_def
      try_exists_def publish_noclobber_def shard_of_def)

definition sample_notes :: db where
  "sample_notes = (empty_db 1)\<lparr>attachment_lww := put (PageOwner 7, 3)
     \<lparr>w_uuid = 9, w_hlc = Hlc 0 0 0, w_present = True, w_filename = None,
      w_mime = None, w_size = Some 3\<rparr> tempty\<rparr>"

lemma sample_references: "user_references_blob 3 sample_notes"
  by (simp add: user_references_blob_def sample_notes_def)


definition sample_upload_of :: upload where
  "sample_upload_of = \<lparr>ul_user = ''ann'', ul_hash = 3, ul_bytes = ''abc'', ul_outcome = Claimed\<rparr>"

definition sample_claimed :: upload_system where
  "sample_claimed = idle_system\<lparr>up_server := empty_server\<lparr>sv_owned := put (''ann'', 3) 3 tempty\<rparr>, up_running := [sample_upload_of]\<rparr>"

lemma sample_begin:
  "begin_upload sample_sha sample_limits ''ann'' (write_hex 3) [BodyChunk ''abc''] empty_server =
     Inr (sample_upload_of, empty_server\<lparr>sv_owned := put (''ann'', 3) 3 tempty\<rparr>)"
  by (simp add: begin_upload_def parse_blob_hash_def stage_blob_def sample_limits_def sample_sha_def
      claim_def empty_server_def usage_def i64_max_def file_len_def sample_upload_of_def)

theorem uploads_keep_the_accounts_witness:
  "\<exists>x. (upload_step sample_sha sample_limits)\<^sup>*\<^sup>* idle_system x \<and> up_acknowledged x = [(''ann'', 3)] \<and>
     has (sv_owned (up_server x)) (''ann'', 3) \<and> backed sample_sha (up_server x)"
proof -
  have "up_server idle_system = empty_server" by (simp add: idle_system_def)
  then have "upload_step sample_sha sample_limits idle_system sample_claimed"
    using upload_step.claimed [of sample_sha sample_limits "''ann''" "write_hex 3" "[BodyChunk ''abc'']" idle_system] sample_begin
    by (simp add: sample_claimed_def idle_system_def)
  moreover obtain s where s: "install_upload sample_sha sample_limits sample_upload_of (up_server sample_claimed) = (s, Inr ())"
      "sv_owned s = put (''ann'', 3) 3 tempty"
    by (simp add: install_upload_def sample_claimed_def sample_limits_def sample_sha_def sample_upload_of_def
      empty_server_def file_len_def install_file_def sample_file_reads
      install_reader_def ensure_shard_def ensure_directory_def empty_store_def copy_and_hash_def
      try_exists_def publish_noclobber_def shard_of_def)
  moreover have "sample_upload_of \<in> set (up_running sample_claimed)" by (simp add: sample_claimed_def)
  ultimately have run: "(upload_step sample_sha sample_limits)\<^sup>*\<^sup>* idle_system
      (sample_claimed\<lparr>up_server := s, up_running := [], up_acknowledged := [(''ann'', 3)]\<rparr>)"
    using upload_step.installed [of sample_upload_of sample_claimed sample_sha sample_limits s]
    by (auto simp: sample_claimed_def idle_system_def upload_key_def sample_upload_of_def)
  show ?thesis
    using uploads_keep_the_accounts [OF run] run s(2)
    by (intro exI [of _ "sample_claimed\<lparr>up_server := s, up_running := [], up_acknowledged := [(''ann'', 3)]\<rparr>"])
      (simp add: sample_claimed_def idle_system_def)
qed

text \<open>
  C29. A download is authorised and genuine: the bytes that are served hash to the name asked for
  and have the announced length, and the caller both references the blob and owns it; and what a
  user who does not own the blob is told does not depend on what the store holds.
\<close>

theorem downloads_are_authorised:
  "(get_blob sha limits user d raw s = Inr (len, bytes) \<longrightarrow>
      (\<exists>hash. raw = write_hex hash \<and> sha bytes = hash \<and> int (length bytes) = uint len \<and>
        user_references_blob hash d \<and> has (sv_owned s) (user, hash))) \<and>
   (blob_hash_of_str raw = Inr hash \<and> \<not> has (sv_owned s) (user, hash) \<longrightarrow>
      get_blob sha limits user d raw s = get_blob sha limits user d raw (s\<lparr>sv_store := other\<rparr>) \<and>
      get_blob sha limits user d raw s = Inl (not_found ''blob not found''))"
proof (intro conjI impI)
  assume "get_blob sha limits user d raw s = Inr (len, bytes)"
  then obtain h info where h: "blob_hash_of_str raw = Inr h" "len = bi_size info"
    "open_authorized_blob sha limits user d h s = Inr (info, bytes)"
    by (auto simp: get_blob_def parse_blob_hash_def res split: sum.splits)
  then have "raw = write_hex h" using blob_hash_of_str_iff by simp
  moreover have "sha bytes = h" "length bytes < 2 ^ 64" "len = file_len bytes" "user_references_blob h d" "has (sv_owned s) (user, h)"
    using h by (auto simp: open_authorized_blob_Inr open_verified_Inr)
  moreover from this(2,3) have "int (length bytes) = uint len" using uint_file_len [of bytes] by simp
  ultimately show "\<exists>hash. raw = write_hex hash \<and> sha bytes = hash \<and> int (length bytes) = uint len \<and>
        user_references_blob hash d \<and> has (sv_owned s) (user, hash)" by blast
next
  assume "blob_hash_of_str raw = Inr hash \<and> \<not> has (sv_owned s) (user, hash)"
  then show "get_blob sha limits user d raw s = get_blob sha limits user d raw (s\<lparr>sv_store := other\<rparr>)"
    "get_blob sha limits user d raw s = Inl (not_found ''blob not found'')"
    by (simp_all add: get_blob_def parse_blob_hash_def open_authorized_blob_def guard_def)
qed

theorem downloads_are_authorised_witness:
  "get_blob sample_sha sample_limits ''bob'' sample_notes (write_hex 3) sample_server = Inl (not_found ''blob not found'')"
proof -
  have "put_blob sample_sha sample_limits True ''ann'' (write_hex 3) [BodyChunk ''abc''] empty_server = (sample_server, Inr ())"
    by (rule sample_upload)
  then have "\<not> has (sv_owned sample_server) (''bob'', 3)"
  proof (cases rule: put_blob_cases)
    case (stored hash bytes outcome stored_bytes)
    from stored(4) show ?thesis by (cases rule: claim_cases) (simp_all add: empty_server_def)
  qed simp
  moreover have "blob_hash_of_str (write_hex 3) = Inr 3" by (rule blob_hash_of_write_hex)
  ultimately show ?thesis
    using conjunct2 [OF downloads_are_authorised [where sha = sample_sha and limits = sample_limits and user = "''bob''"
        and d = sample_notes and raw = "write_hex 3" and s = sample_server and hash = 3 and other = empty_store]]
    by blast
qed

lemma record_declared_Inr:
  "record_declared_blob hash len declared = Inr declared' \<Longrightarrow>
     declared' = put hash len declared \<and> (get declared hash = None \<or> get declared hash = Some len)"
  by (auto simp: record_declared_blob_def res split: option.splits)

lemma declared_operations:
  assumes "fold_res (\<lambda>operation declared.
         case op_kind operation of
           AttachmentAdd a \<Rightarrow> record_declared_blob (aa_blob_hash a) (aa_size a) declared
         | _ \<Rightarrow> Inr declared) operations start = Inr declared"
  shows "(\<forall>h len. get start h = Some len \<longrightarrow> get declared h = Some len) \<and>
    (\<forall>operation a. operation \<in> set operations \<longrightarrow> op_kind operation = AttachmentAdd a \<longrightarrow>
       get declared (aa_blob_hash a) = Some (aa_size a))"
  using assms
proof (induction operations arbitrary: start)
  case (Cons operation operations)
  obtain mid where n: "(case op_kind operation of
           AttachmentAdd a \<Rightarrow> record_declared_blob (aa_blob_hash a) (aa_size a) start | _ \<Rightarrow> Inr start) = Inr mid"
    "fold_res (\<lambda>operation declared.
         case op_kind operation of
           AttachmentAdd a \<Rightarrow> record_declared_blob (aa_blob_hash a) (aa_size a) declared
         | _ \<Rightarrow> Inr declared) operations mid = Inr declared"
    using Cons.prems unfolding fold_res.simps attempt_Inr by (elim exE conjE) (rule that)
  have "\<forall>h len. get start h = Some len \<longrightarrow> get mid h = Some len"
    using n(1) by (auto split: op_kind.splits dest!: record_declared_Inr)
  moreover have "get mid (aa_blob_hash a) = Some (aa_size a)" if "op_kind operation = AttachmentAdd a" for a
    using n(1) that by (auto dest!: record_declared_Inr)
  ultimately show ?case using Cons.IH [OF n(2)] by auto
qed simp

lemma validate_declared_Inr:
  "validate_declared_blob sha limits s hash len = Inr () \<Longrightarrow>
     len \<le> max_blob_bytes limits \<and>
     (\<exists>bytes. get (bs_files s) hash = Some (Regular bytes) \<and> sha bytes = hash \<and> int (length bytes) = uint len)"
  by (auto simp: validate_declared_blob_def res open_verified_Inr uint_file_len split: sum.splits)

text \<open>
  C34. What a batch may refer to: if the check of its blobs accepts a batch, then the bytes of
  every attachment that the batch adds are already in the server's store, under their own hash,
  with exactly the declared size and within the limit, so no client is sent an attachment whose
  blob the server does not have.
\<close>

theorem accepted_attachments_are_stored:
  assumes "validate_operation_blobs sha limits s operations = Inr ()"
    and "operation \<in> set operations" and "op_kind operation = AttachmentAdd a"
  shows "aa_size a \<le> max_blob_bytes limits \<and>
    (\<exists>bytes. get (bs_files s) (aa_blob_hash a) = Some (Regular bytes) \<and> sha bytes = aa_blob_hash a \<and>
       int (length bytes) = uint (aa_size a))"
proof -
  obtain declared where d: "fold_res (\<lambda>operation declared.
         case op_kind operation of
           AttachmentAdd a \<Rightarrow> record_declared_blob (aa_blob_hash a) (aa_size a) declared
         | _ \<Rightarrow> Inr declared) operations tempty = Inr declared"
    "fold_res (\<lambda>(hash, len) _. validate_declared_blob sha limits s hash len) (rows declared) () = Inr ()"
    using assms(1) by (auto simp: validate_operation_blobs_def res)
  have "get declared (aa_blob_hash a) = Some (aa_size a)" using declared_operations [OF d(1)] assms(2,3) by blast
  then have "(aa_blob_hash a, aa_size a) \<in> set (rows declared)" by (simp add: set_rows)
  moreover have "\<forall>x \<in> set (rows declared). (case x of (hash, len) \<Rightarrow> validate_declared_blob sha limits s hash len) = Inr ()"
    using d(2) fold_res_all_ok [of "\<lambda>(hash, len). validate_declared_blob sha limits s hash len" "rows declared"]
    by (simp add: case_prod_beta')
  ultimately have "validate_declared_blob sha limits s (aa_blob_hash a) (aa_size a) = Inr ()" by auto
  then show ?thesis by (rule validate_declared_Inr)
qed

definition sample_attachment :: attachment_add where
  "sample_attachment = \<lparr>aa_owner = PageOwner 7, aa_blob_hash = 3, aa_filename = ''a'', aa_mime = ''b'', aa_size = 3\<rparr>"

definition sample_add :: op where
  "sample_add = \<lparr>op_id = 1, op_workspace = 1, op_device = 1, op_hlc = Hlc 0 0 0,
     op_format = 7, op_kind = AttachmentAdd sample_attachment\<rparr>"

lemma sample_opened: "open_verified sample_sha 3 10 sample_installed = Inr (\<lparr>bi_hash = 3, bi_size = 3\<rparr>, ''abc'')"
  by (simp add: open_verified_Inr sample_lookup sample_sha_def file_len_def)

lemma sample_declared: "validate_declared_blob sample_sha sample_limits sample_installed 3 3 = Inr ()"
  by (simp add: validate_declared_blob_def sample_limits_def sample_opened)

lemma sample_validated: "validate_operation_blobs sample_sha sample_limits sample_installed [sample_add] = Inr ()"
  by (simp add: validate_operation_blobs_def sample_add_def sample_attachment_def record_declared_blob_def
      sample_declared cong del: attempt_cong)

theorem accepted_attachments_are_stored_witness:
  "\<exists>bytes. get (bs_files sample_installed) 3 = Some (Regular bytes) \<and> sample_sha bytes = 3 \<and> int (length bytes) = 3"
proof -
  have "sample_add \<in> set [sample_add]" "op_kind sample_add = AttachmentAdd sample_attachment"
    by (simp_all add: sample_add_def)
  from accepted_attachments_are_stored [OF sample_validated this] show ?thesis by (simp add: sample_attachment_def)
qed

end
