(* ===== verification/OAuth.thy ===== *)
theory OAuth
  imports Text
begin

text \<open>
  The authorization server in front of the MCP endpoint: the store of clients, codes and tokens
  (\<open>server/src/oauth/store.rs\<close>) and the discovery, registration, consent and token endpoints over
  it (\<open>server/src/oauth/mod.rs\<close>), with the credential check of \<open>server/src/api.rs\<close>. A statement of the
  store is atomic and reads the clock for itself; what the \<open>url\<close>, \<open>sha2\<close> and \<open>base64\<close> crates
  compute are parameters, and so are the random draws.
\<close>

section \<open>What other crates compute\<close>

text \<open>What the code asks of a \<open>url::Url\<close>.\<close>

record url =
  url_text :: string
  url_scheme :: string
  url_host :: "string option"
  url_authority :: string
  url_path :: string
  url_query :: "string option"

record web =
  parse_url :: "string \<Rightarrow> url option"
  append_pair :: "url \<Rightarrow> string \<Rightarrow> string \<Rightarrow> url"
  sha256 :: "string \<Rightarrow> string"
  base64url :: "string \<Rightarrow> string"

text \<open>\<open>str::split_whitespace\<close>, over the characters.\<close>

fun split_words :: "string list \<Rightarrow> string \<Rightarrow> string list" where
  "split_words [] word = (if word = [] then [] else [word])"
| "split_words (c # cs) word =
     (if is_whitespace c then (if word = [] then split_words cs [] else word # split_words cs [])
      else split_words cs (word @ c))"

definition split_whitespace :: "string \<Rightarrow> string list" where
  "split_whitespace s = split_words (chars_of s) []"

section \<open>The store\<close>

record oauth_client =
  cl_name :: string
  cl_redirects :: "string list"
  cl_created :: int

record authorization_code =
  ac_client :: string
  ac_user :: string
  ac_redirect :: string
  ac_challenge :: string
  ac_scope :: string

record token_claims =
  tc_client :: string
  tc_user :: string
  tc_scope :: string

datatype token_kind = Access | Refresh

text \<open>The tables; codes and tokens are keyed by their digest and carry when they expire.\<close>

record oauth_store =
  oa_clients :: "(string, oauth_client) table"
  oa_codes :: "(string, authorization_code \<times> int) table"
  oa_tokens :: "(string, token_kind \<times> token_claims \<times> int) table"

definition code_ttl :: int where
  "code_ttl = 60"

definition access_token_ttl :: int where
  "access_token_ttl = 60 * 60"

definition refresh_token_ttl :: int where
  "refresh_token_ttl = 60 * 60 * 24 * 30"

text \<open>A failed insertion is the primary key's: the context that the code adds to it.\<close>

definition register_client :: "string \<Rightarrow> string \<Rightarrow> string list \<Rightarrow> int \<Rightarrow> oauth_store \<Rightarrow> string + oauth_store" where
  "register_client client_id name redirects now st =
     guard (\<not> has (oa_clients st) client_id) ''registering an OAuth client''
       (Inr (st\<lparr>oa_clients := put client_id \<lparr>cl_name = name, cl_redirects = redirects, cl_created = now\<rparr> (oa_clients st)\<rparr>))"

definition issue_code :: "web \<Rightarrow> string \<Rightarrow> authorization_code \<Rightarrow> int \<Rightarrow> oauth_store \<Rightarrow> string + oauth_store" where
  "issue_code web code claims now st =
     guard (\<not> has (oa_codes st) (sha256 web code)) ''issuing an authorization code''
       (Inr (st\<lparr>oa_codes := put (sha256 web code) (claims, now + code_ttl) (oa_codes st)\<rparr>))"

text \<open>
  \<open>DELETE ... WHERE code_sha256 = ? AND expires_at > ? RETURNING ...\<close>, then the sweep of what
  has expired by the second reading of the clock.
\<close>

definition redeem_code ::
    "web \<Rightarrow> string \<Rightarrow> int \<Rightarrow> int \<Rightarrow> oauth_store \<Rightarrow> oauth_store \<times> authorization_code option" where
  "redeem_code web code now later st =
     (let digest = sha256 web code;
          claims = (case get (oa_codes st) digest of
                      Some (c, expires) \<Rightarrow> if now < expires then Some c else None
                    | None \<Rightarrow> None);
          kept = filt (\<lambda>k (_, expires). \<not> (k = digest \<and> now < expires)) (oa_codes st)
      in (st\<lparr>oa_codes := filt (\<lambda>_ (_, expires). \<not> expires \<le> later) kept\<rparr>, claims))"

definition issue_token ::
    "web \<Rightarrow> string \<Rightarrow> token_kind \<Rightarrow> token_claims \<Rightarrow> int \<Rightarrow> oauth_store \<Rightarrow> string + oauth_store" where
  "issue_token web token kind claims now st =
     (let ttl = (if kind = Access then access_token_ttl else refresh_token_ttl) in
      guard (\<not> has (oa_tokens st) (sha256 web token)) ''issuing a token''
        (Inr (st\<lparr>oa_tokens := put (sha256 web token) (kind, claims, now + ttl) (oa_tokens st)\<rparr>)))"

definition token_lookup :: "web \<Rightarrow> string \<Rightarrow> token_kind \<Rightarrow> int \<Rightarrow> oauth_store \<Rightarrow> token_claims option" where
  "token_lookup web token kind now st =
     (case get (oa_tokens st) (sha256 web token) of
        Some (k, claims, expires) \<Rightarrow> if k = kind \<and> now < expires then Some claims else None
      | None \<Rightarrow> None)"

definition revoke_token :: "web \<Rightarrow> string \<Rightarrow> int \<Rightarrow> oauth_store \<Rightarrow> oauth_store" where
  "revoke_token web token now st =
     st\<lparr>oa_tokens := filt (\<lambda>_ (_, _, expires). \<not> expires \<le> now) (del (sha256 web token) (oa_tokens st))\<rparr>"

section \<open>Errors\<close>

record oauth_error =
  oe_status :: "16 word"
  oe_code :: string
  oe_description :: string

definition invalid_request :: "string \<Rightarrow> oauth_error" where
  "invalid_request d = \<lparr>oe_status = 400, oe_code = ''invalid_request'', oe_description = d\<rparr>"

definition invalid_grant :: "string \<Rightarrow> oauth_error" where
  "invalid_grant d = \<lparr>oe_status = 400, oe_code = ''invalid_grant'', oe_description = d\<rparr>"

definition unsupported_grant_type :: "string \<Rightarrow> oauth_error" where
  "unsupported_grant_type d = \<lparr>oe_status = 400, oe_code = ''unsupported_grant_type'', oe_description = d\<rparr>"

definition oauth_server_error :: "string \<Rightarrow> oauth_error" where
  "oauth_server_error d = \<lparr>oe_status = 500, oe_code = ''server_error'', oe_description = d\<rparr>"

text \<open>\<open>From<anyhow::Error>\<close>: the reason is logged, not sent.\<close>

definition from_anyhow :: "string \<Rightarrow> oauth_error" where
  "from_anyhow _ = oauth_server_error ''the authorization server failed''"

section \<open>Names this deployment answers for\<close>

text \<open>\<open>trim_end_matches('/')\<close>.\<close>

definition trim_slashes :: "string \<Rightarrow> string" where
  "trim_slashes s = rev (dropWhile (\<lambda>c. c = CHR ''/'') (rev s))"

definition issuer :: "url \<Rightarrow> string" where
  "issuer origin = trim_slashes (url_text origin)"

text \<open>\<open>rsplit_once(':')\<close>.\<close>

definition rsplit_colon :: "string \<Rightarrow> (string \<times> string) option" where
  "rsplit_colon s =
     (if CHR '':'' \<in> set s
      then let port = rev (takeWhile (\<lambda>c. c \<noteq> CHR '':'') (rev s))
           in Some (take (length s - length port - 1) s, port)
      else None)"

definition host_without_port :: "string \<Rightarrow> string" where
  "host_without_port host =
     (case rsplit_colon host of
        Some (name, port) \<Rightarrow>
          if name \<noteq> [] \<and> list_all (\<lambda>c. 48 \<le> byte c \<and> byte c \<le> 57) port then name else host
      | None \<Rightarrow> host)"

definition issuer_for :: "url \<Rightarrow> string option \<Rightarrow> string list \<Rightarrow> string" where
  "issuer_for origin header known =
     (case header of
        None \<Rightarrow> issuer origin
      | Some raw \<Rightarrow>
          let host = trim raw;
              canonical = url_authority origin;
              matches = (\<lambda>name. name = host \<or> name = host_without_port host)
          in if host = [] then issuer origin
             else if canonical = host \<or> matches canonical \<or> list_ex matches known
               then url_scheme origin @ ''://'' @ host
             else issuer origin)"

definition resource_metadata :: "url \<Rightarrow> string option \<Rightarrow> string list \<Rightarrow> string" where
  "resource_metadata origin header known =
     issuer_for origin header known @ ''/.well-known/oauth-protected-resource''"

section \<open>Registration\<close>

definition loopback_host :: "string option \<Rightarrow> bool" where
  "loopback_host host \<longleftrightarrow> host = Some ''localhost'' \<or> host = Some ''127.0.0.1'' \<or> host = Some ''[::1]''"

definition check_redirect_uri :: "web \<Rightarrow> string \<Rightarrow> oauth_error + unit" where
  "check_redirect_uri web uri =
     (case parse_url web uri of
        None \<Rightarrow> Inl (invalid_request ''`{uri}` is not a URL'')
      | Some parsed \<Rightarrow>
          guard (url_scheme parsed = ''https'' \<or> loopback_host (url_host parsed))
            (invalid_request ''redirect URIs must use https, except on loopback'') (Inr ()))"

record register_request =
  rr_name :: "string option"
  rr_redirects :: "string list"

text \<open>The checks of \<open>register\<close>, then the insertion under the drawn id.\<close>

definition register_check :: "web \<Rightarrow> register_request \<Rightarrow> oauth_error + unit" where
  "register_check web request =
     guard (rr_redirects request \<noteq> []) (invalid_request ''redirect_uris must not be empty'')
       (fold_res (\<lambda>uri _. check_redirect_uri web uri) (rr_redirects request) ())"

definition register :: "web \<Rightarrow> register_request \<Rightarrow> string \<Rightarrow> int \<Rightarrow> oauth_store \<Rightarrow> oauth_error + (string \<times> oauth_store)" where
  "register web request drawn now st =
     attempt (register_check web request) (\<lambda>_.
     let client_id = ''mcp-'' @ drawn;
         name = (case rr_name request of Some n \<Rightarrow> n | None \<Rightarrow> ''an unnamed client'')
     in case register_client client_id name (rr_redirects request) now st of
          Inl e \<Rightarrow> Inl (from_anyhow e)
        | Inr st' \<Rightarrow> Inr (client_id, st'))"

section \<open>Authorization\<close>

record authorize_query =
  aq_response_type :: string
  aq_client_id :: string
  aq_redirect_uri :: string
  aq_state :: "string option"
  aq_scope :: "string option"
  aq_challenge :: string
  aq_method :: "string option"

definition redirect_matches :: "web \<Rightarrow> string \<Rightarrow> string \<Rightarrow> bool" where
  "redirect_matches web registered candidate \<longleftrightarrow>
     registered = candidate \<or>
     (case (parse_url web registered, parse_url web candidate) of
        (Some r, Some c) \<Rightarrow>
          loopback_host (url_host r) \<and> url_scheme r = url_scheme c \<and> url_host r = url_host c \<and>
          url_path r = url_path c \<and> url_query r = url_query c
      | _ \<Rightarrow> False)"

definition checked_request :: "web \<Rightarrow> authorize_query \<Rightarrow> oauth_store \<Rightarrow> oauth_error + oauth_client" where
  "checked_request web query st =
     guard (aq_response_type query = ''code'') (invalid_request ''only the authorization code flow is supported'')
     (guard ((case aq_method query of Some m \<Rightarrow> m | None \<Rightarrow> ''plain'') = ''S256'')
        (invalid_request ''PKCE with code_challenge_method=S256 is required'')
     (guard (43 \<le> length (aq_challenge query)) (invalid_request ''code_challenge is too short'')
     (case get (oa_clients st) (aq_client_id query) of
        None \<Rightarrow> Inl (invalid_request ''unknown client_id'')
      | Some client \<Rightarrow>
          guard (list_ex (\<lambda>registered. redirect_matches web registered (aq_redirect_uri query)) (cl_redirects client))
            (invalid_request ''redirect_uri does not match one registered by this client'') (Inr client))))"

text \<open>\<open>SCOPE\<close> and \<open>OFFLINE_SCOPE\<close>.\<close>

definition mcp_scope :: string where
  "mcp_scope = ''mcp''"

definition offline_scope :: string where
  "offline_scope = ''offline_access''"

definition granted_scope :: "string option \<Rightarrow> string" where
  "granted_scope requested =
     (let offline = (case requested of Some scope \<Rightarrow> offline_scope \<in> set (split_whitespace scope) | None \<Rightarrow> False)
      in if offline then mcp_scope @ '' '' @ offline_scope else mcp_scope)"

text \<open>
  The registry of \<open>server/src/state.rs\<close>: the credentials' digests with their users, and the users. The
  loop of \<open>authenticate\<close> keeps the last credential that matches.
\<close>

record registry =
  credentials :: "(string \<times> string) list"
  users :: "string list"

definition authenticate :: "web \<Rightarrow> registry \<Rightarrow> string \<Rightarrow> string option" where
  "authenticate web reg token =
     fold (\<lambda>(digest, user) matched. if sha256 web token = digest then Some user else matched) (credentials reg) None"

definition registry_user :: "registry \<Rightarrow> string \<Rightarrow> string option" where
  "registry_user reg user_id = List.find (\<lambda>u. u = user_id) (users reg)"

text \<open>What the form's submission answers with: the consent page again, or the redirect.\<close>

datatype authorize_answer =
    ConsentPage oauth_client authorize_query "string option"
  | RedirectTo string

text \<open>What a submission is approved for: nothing when the token is not a server token.\<close>

definition authorize_check ::
    "web \<Rightarrow> registry \<Rightarrow> authorize_query \<Rightarrow> string \<Rightarrow> oauth_store \<Rightarrow>
       oauth_error + (oauth_client \<times> authorization_code option)" where
  "authorize_check web reg query token st =
     attempt (checked_request web query st) (\<lambda>client.
     Inr (client,
       case authenticate web reg (trim token) of
         None \<Rightarrow> None
       | Some user \<Rightarrow>
           Some \<lparr>ac_client = aq_client_id query, ac_user = user, ac_redirect = aq_redirect_uri query,
                 ac_challenge = aq_challenge query, ac_scope = granted_scope (aq_scope query)\<rparr>))"

definition location_of :: "web \<Rightarrow> authorize_query \<Rightarrow> string \<Rightarrow> oauth_error + string" where
  "location_of web query code =
     (case parse_url web (aq_redirect_uri query) of
        None \<Rightarrow> Inl (invalid_request ''redirect_uri is not a URL'')
      | Some location \<Rightarrow>
          let location = append_pair web location ''code'' code in
          Inr (url_text (case aq_state query of
                 Some state \<Rightarrow> append_pair web location ''state'' state
               | None \<Rightarrow> location)))"

definition authorize ::
    "web \<Rightarrow> registry \<Rightarrow> authorize_query \<Rightarrow> string \<Rightarrow> string \<Rightarrow> int \<Rightarrow> oauth_store \<Rightarrow>
       oauth_store \<times> (oauth_error + authorize_answer)" where
  "authorize web reg query token code now st =
     (case authorize_check web reg query token st of
        Inl e \<Rightarrow> (st, Inl e)
      | Inr (client, None) \<Rightarrow> (st, Inr (ConsentPage client query (Some ''That is not a valid server token.'')))
      | Inr (client, Some claims) \<Rightarrow>
          (case issue_code web code claims now st of
             Inl e \<Rightarrow> (st, Inl (from_anyhow e))
           | Inr st' \<Rightarrow> (st', attempt (location_of web query code) (\<lambda>location. Inr (RedirectTo location)))))"

definition authorize_form :: "web \<Rightarrow> authorize_query \<Rightarrow> oauth_store \<Rightarrow> oauth_error + authorize_answer" where
  "authorize_form web query st =
     attempt (checked_request web query st) (\<lambda>client. Inr (ConsentPage client query None))"

section \<open>The consent page\<close>

text \<open>The four replacements of \<open>escape\<close>; the first is the one of the ampersand.\<close>

definition replace_char :: "char \<Rightarrow> string \<Rightarrow> string \<Rightarrow> string" where
  "replace_char c by s = concat (map (\<lambda>d. if d = c then by else [d]) s)"

definition escape :: "string \<Rightarrow> string" where
  "escape value =
     replace_char (CHR ''\"'') ''&quot;''
       (replace_char (CHR ''>'') ''&gt;''
         (replace_char (CHR ''<'') ''&lt;'' (replace_char (CHR ''&'') ''&amp;'' value)))"

definition hidden_fields :: "authorize_query \<Rightarrow> (string \<times> string) list" where
  "hidden_fields query =
     [(''response_type'', aq_response_type query), (''client_id'', aq_client_id query),
      (''redirect_uri'', aq_redirect_uri query), (''code_challenge'', aq_challenge query),
      (''code_challenge_method'', (case aq_method query of Some m \<Rightarrow> m | None \<Rightarrow> ''S256'')),
      (''scope'', (case aq_scope query of Some s \<Rightarrow> s | None \<Rightarrow> mcp_scope)),
      (''state'', (case aq_state query of Some s \<Rightarrow> s | None \<Rightarrow> []))]"

definition hidden_input :: "string \<times> string \<Rightarrow> string" where
  "hidden_input = (\<lambda>(name, value).
     ''<input type=\"hidden\" name=\"'' @ name @ ''\" value=\"'' @ escape value @ ''\">'')"

text \<open>The host that the page names, and whether it warns of a loopback redirect.\<close>

definition consent_host :: "web \<Rightarrow> authorize_query \<Rightarrow> string" where
  "consent_host web query =
     (case parse_url web (aq_redirect_uri query) of
        Some u \<Rightarrow> (case url_host u of Some h \<Rightarrow> h | None \<Rightarrow> aq_redirect_uri query)
      | None \<Rightarrow> aq_redirect_uri query)"

text \<open>
  The parts of the page that depend on the request, in order: client name, host, warning, error
  and hidden inputs. The constant markup around them is left out.
\<close>

record consent_parts =
  cp_name :: string
  cp_host :: string
  cp_warning :: bool
  cp_error :: string
  cp_hidden :: string

definition consent_page :: "web \<Rightarrow> oauth_client \<Rightarrow> authorize_query \<Rightarrow> string option \<Rightarrow> consent_parts" where
  "consent_page web client query error =
     \<lparr>cp_name = escape (cl_name client), cp_host = escape (consent_host web query),
      cp_warning = loopback_host (Some (consent_host web query)),
      cp_error = (case error of None \<Rightarrow> [] | Some m \<Rightarrow> ''<p class=\"error\">'' @ escape m @ ''</p>''),
      cp_hidden = concat (map hidden_input (hidden_fields query))\<rparr>"

section \<open>Tokens\<close>

record token_request =
  tr_grant_type :: string
  tr_code :: "string option"
  tr_redirect_uri :: "string option"
  tr_client_id :: "string option"
  tr_verifier :: "string option"
  tr_refresh_token :: "string option"

record token_response =
  ts_access :: string
  ts_expires_in :: int
  ts_refresh :: "string option"
  ts_scope :: string

text \<open>\<open>is_some_and(|given| given != expected)\<close>.\<close>

definition differs :: "string option \<Rightarrow> string \<Rightarrow> bool" where
  "differs given expected \<longleftrightarrow> (case given of Some g \<Rightarrow> g \<noteq> expected | None \<Rightarrow> False)"

text \<open>What \<open>exchange_code\<close> checks of a redeemed code.\<close>

definition exchange_check :: "web \<Rightarrow> token_request \<Rightarrow> string \<Rightarrow> authorization_code \<Rightarrow> oauth_error + token_claims" where
  "exchange_check web request verifier claims =
     guard (\<not> differs (tr_client_id request) (ac_client claims))
       (invalid_grant ''the code was issued to a different client'')
     (guard (\<not> differs (tr_redirect_uri request) (ac_redirect claims))
       (invalid_grant ''redirect_uri does not match the one the code was issued for'')
     (guard (base64url web (sha256 web verifier) = ac_challenge claims)
       (invalid_grant ''the code_verifier does not match'')
       (Inr \<lparr>tc_client = ac_client claims, tc_user = ac_user claims, tc_scope = ac_scope claims\<rparr>)))"

text \<open>\<open>issue\<close> with its two draws; a failed second insertion leaves the access token behind.\<close>

definition issue ::
    "web \<Rightarrow> token_claims \<Rightarrow> string \<Rightarrow> string \<Rightarrow> int \<Rightarrow> int \<Rightarrow> oauth_store \<Rightarrow>
       oauth_store \<times> (oauth_error + token_response)" where
  "issue web claims access refresh now later st =
     (case issue_token web access Access claims now st of
        Inl e \<Rightarrow> (st, Inl (from_anyhow e))
      | Inr st \<Rightarrow>
          if offline_scope \<in> set (split_whitespace (tc_scope claims))
          then (case issue_token web refresh Refresh claims later st of
                  Inl e \<Rightarrow> (st, Inl (from_anyhow e))
                | Inr st \<Rightarrow> (st, Inr \<lparr>ts_access = access, ts_expires_in = access_token_ttl,
                    ts_refresh = Some refresh, ts_scope = tc_scope claims\<rparr>))
          else (st, Inr \<lparr>ts_access = access, ts_expires_in = access_token_ttl, ts_refresh = None,
                 ts_scope = tc_scope claims\<rparr>))"

text \<open>The clock readings of a request, in the order of its statements.\<close>

type_synonym clock = "nat \<Rightarrow> int"

definition exchange_code ::
    "web \<Rightarrow> token_request \<Rightarrow> string \<Rightarrow> string \<Rightarrow> clock \<Rightarrow> oauth_store \<Rightarrow> oauth_store \<times> (oauth_error + token_response)" where
  "exchange_code web request access refresh clock st =
     (case tr_code request of
        None \<Rightarrow> (st, Inl (invalid_request ''code is required''))
      | Some code \<Rightarrow>
          (case tr_verifier request of
             None \<Rightarrow> (st, Inl (invalid_request ''code_verifier is required''))
           | Some verifier \<Rightarrow>
               (case redeem_code web code (clock 0) (clock 1) st of
                  (st, None) \<Rightarrow> (st, Inl (invalid_grant ''the authorization code is unknown or expired''))
                | (st, Some claims) \<Rightarrow>
                    (case exchange_check web request verifier claims of
                       Inl e \<Rightarrow> (st, Inl e)
                     | Inr claims \<Rightarrow> issue web claims access refresh (clock 2) (clock 3) st))))"

text \<open>The part of \<open>refresh\<close> that reads: the presented token with its claims.\<close>

definition refresh_check :: "web \<Rightarrow> token_request \<Rightarrow> int \<Rightarrow> oauth_store \<Rightarrow> oauth_error + (string \<times> token_claims)" where
  "refresh_check web request now st =
     (case tr_refresh_token request of
        None \<Rightarrow> Inl (invalid_request ''refresh_token is required'')
      | Some presented \<Rightarrow>
          (case token_lookup web presented Refresh now st of
             None \<Rightarrow> Inl (invalid_grant ''the refresh token is unknown or expired'')
           | Some claims \<Rightarrow>
               guard (\<not> differs (tr_client_id request) (tc_client claims))
                 (invalid_grant ''the refresh token belongs to a different client'') (Inr (presented, claims))))"

text \<open>The part that writes: the rotation.\<close>

definition refresh_rotate ::
    "web \<Rightarrow> string \<times> token_claims \<Rightarrow> string \<Rightarrow> string \<Rightarrow> clock \<Rightarrow> oauth_store \<Rightarrow>
       oauth_store \<times> (oauth_error + token_response)" where
  "refresh_rotate web checked access refresh clock st =
     issue web (snd checked) access refresh (clock 2) (clock 3) (revoke_token web (fst checked) (clock 1) st)"

definition refresh ::
    "web \<Rightarrow> token_request \<Rightarrow> string \<Rightarrow> string \<Rightarrow> clock \<Rightarrow> oauth_store \<Rightarrow> oauth_store \<times> (oauth_error + token_response)" where
  "refresh web request access refreshed clock st =
     (case refresh_check web request (clock 0) st of
        Inl e \<Rightarrow> (st, Inl e)
      | Inr checked \<Rightarrow> refresh_rotate web checked access refreshed clock st)"

text \<open>Without a public URL there is no store, and every endpoint says so.\<close>

definition with_store ::
    "(oauth_store \<Rightarrow> oauth_store \<times> (oauth_error + 'a)) \<Rightarrow> oauth_store option \<Rightarrow> oauth_store option \<times> (oauth_error + 'a)" where
  "with_store f st =
     (case st of
        None \<Rightarrow> (None, Inl (oauth_server_error ''this server has no public_url configured, so OAuth is unavailable''))
      | Some st \<Rightarrow> (case f st of (st, r) \<Rightarrow> (Some st, r)))"

definition token_endpoint ::
    "web \<Rightarrow> token_request \<Rightarrow> string \<Rightarrow> string \<Rightarrow> clock \<Rightarrow> oauth_store option \<Rightarrow>
       oauth_store option \<times> (oauth_error + token_response)" where
  "token_endpoint web request access refreshed clock st =
     (if tr_grant_type request = ''authorization_code''
      then with_store (exchange_code web request access refreshed clock) st
      else if tr_grant_type request = ''refresh_token''
      then with_store (refresh web request access refreshed clock) st
      else (st, Inl (unsupported_grant_type ''`{other}` is not a supported grant type'')))"

section \<open>The gate of the other endpoints\<close>

definition authenticate_oauth :: "web \<Rightarrow> registry \<Rightarrow> string \<Rightarrow> int \<Rightarrow> oauth_store option \<Rightarrow> string option" where
  "authenticate_oauth web reg presented now st =
     (case st of
        None \<Rightarrow> None
      | Some st \<Rightarrow>
          (case token_lookup web presented Access now st of
             None \<Rightarrow> None
           | Some claims \<Rightarrow> registry_user reg (tc_user claims)))"

text \<open>\<open>require_auth\<close>: the user whom the \<open>Authorization\<close> header stands for, if it stands for one.\<close>

definition strip_bearer :: "string \<Rightarrow> string option" where
  "strip_bearer header = (if take 7 header = ''Bearer '' then Some (drop 7 header) else None)"

definition require_auth :: "web \<Rightarrow> registry \<Rightarrow> string option \<Rightarrow> int \<Rightarrow> oauth_store option \<Rightarrow> string option" where
  "require_auth web reg header now st =
     (case header of
        None \<Rightarrow> None
      | Some given \<Rightarrow>
          (case strip_bearer given of
             None \<Rightarrow> None
           | Some presented \<Rightarrow>
               (case authenticate web reg presented of
                  Some user \<Rightarrow> Some user
                | None \<Rightarrow> authenticate_oauth web reg presented now st)))"

text \<open>The challenge that an unauthenticated answer carries.\<close>

definition www_authenticate :: "url option \<Rightarrow> string option \<Rightarrow> string list \<Rightarrow> string option" where
  "www_authenticate origin host known =
     map_option (\<lambda>origin. ''Bearer realm=\"tangleaf\", resource_metadata=\"'' @ resource_metadata origin host known @ ''\"'') origin"

end
