(* ===== verification/OAuthProps.thy ===== *)
theory OAuthProps
  imports OAuth
begin

text \<open>
  What the authorization server guarantees: a step relation whose steps are the statements that
  the requests of any number of clients interleave, with a log of the consents and of the codes
  spent, and its invariant; then single use, provenance of every token, rotation, and where a
  code may be sent.
\<close>

section \<open>The store's statements\<close>

lemma register_client_Inr:
  "register_client client_id name redirects now st = Inr st' \<longleftrightarrow>
     get (oa_clients st) client_id = None \<and>
     st' = st\<lparr>oa_clients := put client_id \<lparr>cl_name = name, cl_redirects = redirects, cl_created = now\<rparr> (oa_clients st)\<rparr>"
  by (auto simp: register_client_def res has_def)

lemma register_Inr:
  assumes "register web request drawn now st = Inr (client_id, st')"
  obtains client where "get (oa_clients st) client_id = None" "st' = st\<lparr>oa_clients := put client_id client (oa_clients st)\<rparr>"
    "cl_redirects client = rr_redirects request"
  using assms by (auto simp: register_def res register_client_Inr Let_def split: sum.splits)

lemma issue_code_Inr:
  "issue_code web code claims now st = Inr st' \<longleftrightarrow>
     get (oa_codes st) (sha256 web code) = None \<and>
     st' = st\<lparr>oa_codes := put (sha256 web code) (claims, now + code_ttl) (oa_codes st)\<rparr>"
  by (cases "get (oa_codes st) (sha256 web code)") (auto simp: issue_code_def res has_def)

lemma redeem_code_keeps:
  assumes "redeem_code web code now later st = (st', r)" and "get (oa_codes st') d = Some x"
  shows "get (oa_codes st) d = Some x \<and> (d = sha256 web code \<longrightarrow> r = None)"
  using assms by (auto simp: redeem_code_def Let_def split: option.splits if_splits)

lemma redeem_code_Some:
  "redeem_code web code now later st = (st', Some claims) \<Longrightarrow>
     \<exists>expires. get (oa_codes st) (sha256 web code) = Some (claims, expires) \<and> now < expires"
  by (auto simp: redeem_code_def Let_def split: option.splits if_splits)

lemma redeem_code_frame [simp]:
  "redeem_code web code now later st = (st', r) \<Longrightarrow> oa_clients st' = oa_clients st \<and> oa_tokens st' = oa_tokens st"
  by (auto simp: redeem_code_def Let_def)

lemma issue_token_Inr:
  "issue_token web token kind claims now st = Inr st' \<longleftrightarrow>
     get (oa_tokens st) (sha256 web token) = None \<and>
     st' = st\<lparr>oa_tokens := put (sha256 web token)
       (kind, claims, now + (if kind = Access then access_token_ttl else refresh_token_ttl)) (oa_tokens st)\<rparr>"
  by (cases "get (oa_tokens st) (sha256 web token)") (auto simp: issue_token_def res has_def)

lemma token_lookup_Some:
  "token_lookup web token kind now st = Some claims \<longleftrightarrow>
     (\<exists>expires. get (oa_tokens st) (sha256 web token) = Some (kind, claims, expires) \<and> now < expires)"
  by (auto simp: token_lookup_def split: option.splits)

lemma revoke_token_frame [simp]:
  "oa_clients (revoke_token web token now st) = oa_clients st"
  "oa_codes (revoke_token web token now st) = oa_codes st"
  by (simp_all add: revoke_token_def)

lemma revoke_token_keeps:
  "get (oa_tokens (revoke_token web token now st)) d = Some row \<Longrightarrow> get (oa_tokens st) d = Some row \<and> d \<noteq> sha256 web token"
  by (auto simp: revoke_token_def split: option.splits if_splits)

lemma issue_frame:
  assumes "issue web claims access refreshed now later st = (st', r)"
  shows "oa_clients st' = oa_clients st" "oa_codes st' = oa_codes st"
  using assms by (auto simp: issue_def issue_token_Inr split: sum.splits if_splits)

lemma issue_tokens:
  assumes "issue web claims access refreshed now later st = (st', r)" and "get (oa_tokens st') d = Some (kind, c, expires)"
  shows "get (oa_tokens st) d = Some (kind, c, expires) \<or> c = claims"
  using assms by (auto simp: issue_def issue_token_Inr split: sum.splits if_splits)

section \<open>Runs\<close>

datatype oauth_event =
    Approved string authorize_query string authorization_code int
  | Redeemed string string int
  | Wasted string

text \<open>
  The store, the refresh requests between their lookup and their rotation, the requests between
  their check and the issue of their tokens, and what happened.
\<close>

record oauth_run =
  or_store :: oauth_store
  or_looked :: "(string \<times> token_claims) list"
  or_grants :: "token_claims list"
  or_log :: "oauth_event list"

fun spent_digest :: "oauth_event \<Rightarrow> string list" where
  "spent_digest (Redeemed d _ _) = [d]"
| "spent_digest (Wasted d) = [d]"
| "spent_digest (Approved _ _ _ _ _) = []"

definition spent :: "oauth_event list \<Rightarrow> string list" where
  "spent log = concat (map spent_digest log)"

fun approved_digest :: "oauth_event \<Rightarrow> string list" where
  "approved_digest (Approved d _ _ _ _) = [d]"
| "approved_digest _ = []"

definition approved :: "oauth_event list \<Rightarrow> string list" where
  "approved log = concat (map approved_digest log)"

text \<open>
  One statement of one request. A drawn code is new: its digest is not one of a code approved
  before, which 256 bits from the system generator stand for.
\<close>

inductive oauth_step :: "web \<Rightarrow> registry \<Rightarrow> oauth_run \<Rightarrow> oauth_run \<Rightarrow> bool" for web reg where
  registered: "register web request drawn now (or_store s) = Inr (client_id, st') \<Longrightarrow>
    oauth_step web reg s (s\<lparr>or_store := st'\<rparr>)"
| consented: "authorize_check web reg query token (or_store s) = Inr (client, Some claims) \<Longrightarrow>
    issue_code web code claims now (or_store s) = Inr st' \<Longrightarrow>
    sha256 web code \<notin> set (approved (or_log s)) \<Longrightarrow>
    oauth_step web reg s (s\<lparr>or_store := st', or_log := Approved (sha256 web code) query token claims now # or_log s\<rparr>)"
| redeemed: "redeem_code web code now later (or_store s) = (st', Some claims) \<Longrightarrow>
    exchange_check web request verifier claims = Inr granted \<Longrightarrow>
    oauth_step web reg s (s\<lparr>or_store := st', or_grants := granted # or_grants s,
      or_log := Redeemed (sha256 web code) verifier now # or_log s\<rparr>)"
| wasted: "redeem_code web code now later (or_store s) = (st', Some claims) \<Longrightarrow>
    exchange_check web request verifier claims = Inl e \<Longrightarrow>
    oauth_step web reg s (s\<lparr>or_store := st', or_log := Wasted (sha256 web code) # or_log s\<rparr>)"
| swept: "redeem_code web code now later (or_store s) = (st', None) \<Longrightarrow>
    oauth_step web reg s (s\<lparr>or_store := st'\<rparr>)"
| looked: "refresh_check web request now (or_store s) = Inr checked \<Longrightarrow>
    oauth_step web reg s (s\<lparr>or_looked := checked # or_looked s\<rparr>)"
| rotated: "checked \<in> set (or_looked s) \<Longrightarrow>
    oauth_step web reg s (s\<lparr>or_store := revoke_token web (fst checked) now (or_store s),
      or_looked := remove1 checked (or_looked s), or_grants := snd checked # or_grants s\<rparr>)"
| issued: "claims \<in> set (or_grants s) \<Longrightarrow>
    issue web claims access refreshed now later (or_store s) = (st', r) \<Longrightarrow>
    oauth_step web reg s (s\<lparr>or_store := st', or_grants := remove1 claims (or_grants s)\<rparr>)"

definition empty_run :: oauth_run where
  "empty_run = \<lparr>or_store = \<lparr>oa_clients = tempty, oa_codes = tempty, oa_tokens = tempty\<rparr>,
     or_looked = [], or_grants = [], or_log = []\<rparr>"

section \<open>The invariant\<close>

text \<open>What a consent is: a server token, a registered redirect, a PKCE challenge.\<close>

definition consent :: "web \<Rightarrow> registry \<Rightarrow> oauth_store \<Rightarrow> authorize_query \<Rightarrow> string \<Rightarrow> authorization_code \<Rightarrow> bool" where
  "consent web reg st query token claims \<longleftrightarrow>
     authenticate web reg (trim token) = Some (ac_user claims) \<and>
     (\<exists>client. checked_request web query st = Inr client) \<and>
     ac_client claims = aq_client_id query \<and> ac_redirect claims = aq_redirect_uri query \<and>
     ac_challenge claims = aq_challenge query \<and> ac_scope claims = granted_scope (aq_scope query)"

lemma authorize_check_Inr:
  "authorize_check web reg query token st = Inr (client, Some claims) \<Longrightarrow>
     checked_request web query st = Inr client \<and> consent web reg st query token claims"
  by (auto simp: authorize_check_def res consent_def split: option.splits)

lemma checked_request_Inr:
  "checked_request web query st = Inr client \<longleftrightarrow>
     aq_response_type query = ''code'' \<and> aq_method query = Some ''S256'' \<and> 43 \<le> length (aq_challenge query) \<and>
     get (oa_clients st) (aq_client_id query) = Some client \<and>
     list_ex (\<lambda>registered. redirect_matches web registered (aq_redirect_uri query)) (cl_redirects client)"
  by (auto simp: checked_request_def res split: option.splits)

definition claims_of :: "authorization_code \<Rightarrow> token_claims" where
  "claims_of c = \<lparr>tc_client = ac_client c, tc_user = ac_user c, tc_scope = ac_scope c\<rparr>"

text \<open>
  Where claims come from: a consent, and the redemption of its code within its lifetime by
  someone who knew the verifier of its challenge.
\<close>

definition rooted :: "web \<Rightarrow> oauth_event list \<Rightarrow> token_claims \<Rightarrow> bool" where
  "rooted web log claims \<longleftrightarrow>
     (\<exists>d query token c at verifier now. Approved d query token c at \<in> set log \<and> Redeemed d verifier now \<in> set log \<and>
        now < at + code_ttl \<and> base64url web (sha256 web verifier) = ac_challenge c \<and> claims = claims_of c)"

definition consents_sound :: "web \<Rightarrow> registry \<Rightarrow> oauth_store \<Rightarrow> oauth_event list \<Rightarrow> bool" where
  "consents_sound web reg st log \<longleftrightarrow>
     (\<forall>d query token c at. Approved d query token c at \<in> set log \<longrightarrow> consent web reg st query token c)"

definition codes_sound :: "oauth_store \<Rightarrow> oauth_event list \<Rightarrow> bool" where
  "codes_sound st log \<longleftrightarrow>
     (\<forall>d c expires. get (oa_codes st) d = Some (c, expires) \<longrightarrow>
        d \<notin> set (spent log) \<and> (\<exists>query token at. Approved d query token c at \<in> set log \<and> expires = at + code_ttl))"

definition tokens_sound :: "web \<Rightarrow> oauth_store \<Rightarrow> oauth_event list \<Rightarrow> bool" where
  "tokens_sound web st log \<longleftrightarrow>
     (\<forall>d kind claims expires. get (oa_tokens st) d = Some (kind, claims, expires) \<longrightarrow> rooted web log claims)"

definition oauth_sound :: "web \<Rightarrow> registry \<Rightarrow> oauth_run \<Rightarrow> bool" where
  "oauth_sound web reg s \<longleftrightarrow>
     distinct (spent (or_log s)) \<and> set (spent (or_log s)) \<subseteq> set (approved (or_log s)) \<and>
     consents_sound web reg (or_store s) (or_log s) \<and> codes_sound (or_store s) (or_log s) \<and>
     tokens_sound web (or_store s) (or_log s) \<and>
     (\<forall>claims \<in> set (or_grants s) \<union> snd ` set (or_looked s). rooted web (or_log s) claims)"

lemma rooted_mono:
  assumes "rooted web log claims"
  shows "rooted web (e # log) claims"
proof -
  obtain d query token c at verifier now where *: "Approved d query token c at \<in> set log"
    "Redeemed d verifier now \<in> set log" "now < at + code_ttl"
    "base64url web (sha256 web verifier) = ac_challenge c" "claims = claims_of c"
    using assms unfolding rooted_def by (elim exE conjE) (rule that)
  show ?thesis unfolding rooted_def
    by (intro exI conjI) (rule list.set_intros(2) [OF *(1)] list.set_intros(2) [OF *(2)] *(3-5))+
qed

lemma spent_simps [simp]: "spent [] = []" "spent (e # log) = spent_digest e @ spent log"
  by (simp_all add: spent_def)

lemma approved_simps [simp]: "approved [] = []" "approved (e # log) = approved_digest e @ approved log"
  by (simp_all add: approved_def)

lemma approved_iff: "d \<in> set (approved log) \<longleftrightarrow> (\<exists>query token c at. Approved d query token c at \<in> set log)"
proof (induction log)
  case (Cons e log)
  then show ?case by (cases e) auto
qed simp

lemma consent_mono:
  assumes "consent web reg st query token c" and "\<forall>k client. get (oa_clients st) k = Some client \<longrightarrow> get (oa_clients st') k = Some client"
  shows "consent web reg st' query token c"
  using assms by (auto simp: consent_def checked_request_Inr)

lemma consents_mono:
  assumes "consents_sound web reg st log"
    and "\<forall>k client. get (oa_clients st) k = Some client \<longrightarrow> get (oa_clients st') k = Some client"
  shows "consents_sound web reg st' log"
  using assms consent_mono unfolding consents_sound_def by blast

lemma tokens_mono: "tokens_sound web st log \<Longrightarrow> oa_tokens st' = oa_tokens st \<Longrightarrow> tokens_sound web st' (e # log)"
  unfolding tokens_sound_def using rooted_mono by simp

text \<open>A code leaves the store when it is spent, and no other code appears.\<close>

lemma codes_spend:
  assumes "codes_sound st log" and "redeem_code web code now later st = (st', Some c)"
    and "spent_digest e = [sha256 web code]"
  shows "codes_sound st' (e # log)"
  unfolding codes_sound_def
proof (intro allI impI)
  fix d c' expires
  assume "get (oa_codes st') d = Some (c', expires)"
  then have d: "get (oa_codes st) d = Some (c', expires)" "d \<noteq> sha256 web code"
    using redeem_code_keeps [OF assms(2)] by auto
  then have "d \<notin> set (spent log)" "\<exists>query token at. Approved d query token c' at \<in> set log \<and> expires = at + code_ttl"
    using assms(1) unfolding codes_sound_def by blast+
  then show "d \<notin> set (spent (e # log)) \<and> (\<exists>query token at. Approved d query token c' at \<in> set (e # log) \<and> expires = at + code_ttl)"
    using d(2) assms(3) by auto
qed

lemma redeemed_code:
  assumes "codes_sound st log" and "redeem_code web code now later st = (st', Some c)"
  obtains query token at where "sha256 web code \<notin> set (spent log)"
    "Approved (sha256 web code) query token c at \<in> set log" "now < at + code_ttl"
proof -
  obtain expires where e: "get (oa_codes st) (sha256 web code) = Some (c, expires)" "now < expires"
    using redeem_code_Some [OF assms(2)] by blast
  then have "sha256 web code \<notin> set (spent log)"
    "\<exists>query token at. Approved (sha256 web code) query token c at \<in> set log \<and> expires = at + code_ttl"
    using assms(1) unfolding codes_sound_def by blast+
  then show thesis using that e(2) by auto
qed

lemma exchange_check_Inr:
  "exchange_check web request verifier c = Inr granted \<Longrightarrow>
     base64url web (sha256 web verifier) = ac_challenge c \<and> granted = claims_of c"
  by (auto simp: exchange_check_def res claims_of_def)

lemma refresh_check_Inr:
  "refresh_check web request now st = Inr (presented, claims) \<Longrightarrow>
     tr_refresh_token request = Some presented \<and> token_lookup web presented Refresh now st = Some claims"
  by (auto simp: refresh_check_def res split: option.splits)

lemma oauth_step_sound:
  assumes "oauth_step web reg s s'" and "oauth_sound web reg s"
  shows "oauth_sound web reg s'"
  using assms
proof (induction rule: oauth_step.induct)
  case (registered request drawn now s client_id st')
  then obtain client where "get (oa_clients (or_store s)) client_id = None"
    "st' = (or_store s)\<lparr>oa_clients := put client_id client (oa_clients (or_store s))\<rparr>"
    by (elim register_Inr)
  then have "\<forall>k client. get (oa_clients (or_store s)) k = Some client \<longrightarrow> get (oa_clients st') k = Some client"
    "oa_codes st' = oa_codes (or_store s)" "oa_tokens st' = oa_tokens (or_store s)" by auto
  then show ?case using registered(2) consents_mono [of web reg "or_store s" "or_log s" st']
    by (simp add: oauth_sound_def codes_sound_def tokens_sound_def)
next
  case (consented query token s client claims code now st')
  let ?e = "Approved (sha256 web code) query token claims now"
  have st': "get (oa_codes (or_store s)) (sha256 web code) = None"
    "st' = (or_store s)\<lparr>oa_codes := put (sha256 web code) (claims, now + code_ttl) (oa_codes (or_store s))\<rparr>"
    using consented(2) by (simp_all add: issue_code_Inr)
  have c: "consent web reg (or_store s) query token claims" using authorize_check_Inr [OF consented(1)] by simp
  then have "consents_sound web reg st' (?e # or_log s)"
    using consented(4) st' unfolding oauth_sound_def consents_sound_def
    by (auto simp: consent_def checked_request_def cong: option.case_cong)
  moreover have "codes_sound st' (?e # or_log s)"
    unfolding codes_sound_def
  proof (intro allI impI)
    fix d c expires
    assume d: "get (oa_codes st') d = Some (c, expires)"
    show "d \<notin> set (spent (?e # or_log s)) \<and>
        (\<exists>query token at. Approved d query token c at \<in> set (?e # or_log s) \<and> expires = at + code_ttl)"
    proof (cases "d = sha256 web code")
      case True
      then have "d \<notin> set (spent (or_log s))" using consented(3,4) by (auto simp: oauth_sound_def)
      then show ?thesis using True d st' by auto
    next
      case False
      then have "get (oa_codes (or_store s)) d = Some (c, expires)" using d st' by simp
      then have "d \<notin> set (spent (or_log s))"
        "\<exists>query token at. Approved d query token c at \<in> set (or_log s) \<and> expires = at + code_ttl"
        using consented(4) unfolding oauth_sound_def codes_sound_def by blast+
      then show ?thesis by auto
    qed
  qed
  moreover have "tokens_sound web st' (?e # or_log s)"
    using consented(4) st'(2) tokens_mono [of web "or_store s" "or_log s" st'] by (simp add: oauth_sound_def)
  moreover have "\<forall>claims \<in> set (or_grants s) \<union> snd ` set (or_looked s). rooted web (?e # or_log s) claims"
    using consented(4) rooted_mono unfolding oauth_sound_def by blast
  ultimately show ?case using consented(4) by (auto simp: oauth_sound_def)
next
  case (redeemed code now later s st' claims request verifier granted)
  let ?e = "Redeemed (sha256 web code) verifier now"
  have cs: "codes_sound (or_store s) (or_log s)" using redeemed(3) by (simp add: oauth_sound_def)
  obtain query token at where *: "sha256 web code \<notin> set (spent (or_log s))"
    "Approved (sha256 web code) query token claims at \<in> set (or_log s)" "now < at + code_ttl"
    by (rule redeemed_code [OF cs redeemed(1)])
  have g: "base64url web (sha256 web verifier) = ac_challenge claims" "granted = claims_of claims"
    using exchange_check_Inr [OF redeemed(2)] by simp_all
  have "rooted web (?e # or_log s) granted"
    unfolding rooted_def using * g
    by (intro exI [of _ "sha256 web code"] exI [of _ query] exI [of _ token] exI [of _ claims] exI [of _ at]
        exI [of _ verifier] exI [of _ now]) simp
  moreover have "sha256 web code \<in> set (approved (or_log s))" using *(2) approved_iff by blast
  moreover have "codes_sound st' (?e # or_log s)" using codes_spend [OF cs redeemed(1)] by simp
  moreover have "consents_sound web reg st' (?e # or_log s)"
    using redeemed(3) consents_mono [of web reg "or_store s" "or_log s" st'] redeem_code_frame [OF redeemed(1)]
    by (simp add: oauth_sound_def consents_sound_def)
  moreover have "tokens_sound web st' (?e # or_log s)"
    using redeemed(3) tokens_mono [of web "or_store s" "or_log s" st'] redeem_code_frame [OF redeemed(1)] by (simp add: oauth_sound_def)
  moreover have "\<forall>claims \<in> set (or_grants s) \<union> snd ` set (or_looked s). rooted web (?e # or_log s) claims"
    using redeemed(3) rooted_mono unfolding oauth_sound_def by blast
  moreover have "distinct (spent (?e # or_log s))" "set (spent (or_log s)) \<subseteq> set (approved (or_log s))"
    using redeemed(3) *(1) by (simp_all add: oauth_sound_def)
  ultimately show ?case by (simp add: oauth_sound_def)
next
  case (wasted code now later s st' claims request verifier e)
  let ?e = "Wasted (sha256 web code)"
  have cs: "codes_sound (or_store s) (or_log s)" using wasted(3) by (simp add: oauth_sound_def)
  obtain query token at where *: "sha256 web code \<notin> set (spent (or_log s))"
    "Approved (sha256 web code) query token claims at \<in> set (or_log s)" "now < at + code_ttl"
    by (rule redeemed_code [OF cs wasted(1)])
  have "sha256 web code \<in> set (approved (or_log s))" using *(2) approved_iff by blast
  moreover have "codes_sound st' (?e # or_log s)" using codes_spend [OF cs wasted(1)] by simp
  moreover have "consents_sound web reg st' (?e # or_log s)"
    using wasted(3) consents_mono [of web reg "or_store s" "or_log s" st'] redeem_code_frame [OF wasted(1)]
    by (simp add: oauth_sound_def consents_sound_def)
  moreover have "tokens_sound web st' (?e # or_log s)"
    using wasted(3) tokens_mono [of web "or_store s" "or_log s" st'] redeem_code_frame [OF wasted(1)] by (simp add: oauth_sound_def)
  moreover have "\<forall>claims \<in> set (or_grants s) \<union> snd ` set (or_looked s). rooted web (?e # or_log s) claims"
    using wasted(3) rooted_mono unfolding oauth_sound_def by blast
  moreover have "distinct (spent (?e # or_log s))" "set (spent (or_log s)) \<subseteq> set (approved (or_log s))"
    using wasted(3) *(1) by (simp_all add: oauth_sound_def)
  ultimately show ?case by (simp add: oauth_sound_def)
next
  case (swept code now later s st')
  have "codes_sound st' (or_log s)"
    unfolding codes_sound_def
  proof (intro allI impI)
    fix d c expires
    assume "get (oa_codes st') d = Some (c, expires)"
    then have "get (oa_codes (or_store s)) d = Some (c, expires)" using redeem_code_keeps [OF swept(1)] by simp
    then show "d \<notin> set (spent (or_log s)) \<and>
        (\<exists>query token at. Approved d query token c at \<in> set (or_log s) \<and> expires = at + code_ttl)"
      using swept(2) unfolding oauth_sound_def codes_sound_def by simp
  qed
  then show ?case
    using swept(2) redeem_code_frame [OF swept(1)] consents_mono [of web reg "or_store s" "or_log s" st']
    by (simp add: oauth_sound_def tokens_sound_def)
next
  case (looked request now s checked)
  obtain presented claims where c: "checked = (presented, claims)" by (cases checked)
  then have "token_lookup web presented Refresh now (or_store s) = Some claims"
    using refresh_check_Inr looked(1) by blast
  then have "rooted web (or_log s) claims"
    using looked(2) unfolding oauth_sound_def tokens_sound_def token_lookup_Some by blast
  then show ?case using looked(2) c by (auto simp: oauth_sound_def)
next
  case (rotated checked s now)
  have "tokens_sound web (revoke_token web (fst checked) now (or_store s)) (or_log s)"
    unfolding tokens_sound_def
  proof (intro allI impI)
    fix d kind claims expires
    assume "get (oa_tokens (revoke_token web (fst checked) now (or_store s))) d = Some (kind, claims, expires)"
    then have "get (oa_tokens (or_store s)) d = Some (kind, claims, expires)" using revoke_token_keeps by blast
    then show "rooted web (or_log s) claims" using rotated(2) unfolding oauth_sound_def tokens_sound_def by blast
  qed
  moreover have "consents_sound web reg (revoke_token web (fst checked) now (or_store s)) (or_log s)"
    using rotated(2) by (auto simp: oauth_sound_def elim!: consents_mono)
  moreover have "\<forall>claims \<in> set (snd checked # or_grants s) \<union> snd ` set (remove1 checked (or_looked s)).
      rooted web (or_log s) claims"
    using rotated set_remove1_subset [of checked "or_looked s"] by (auto simp: oauth_sound_def)
  ultimately show ?case
    using rotated(2) by (simp add: oauth_sound_def codes_sound_def)
next
  case (issued claims s access refreshed now later st' r)
  have c: "rooted web (or_log s) claims" using issued(1,3) by (auto simp: oauth_sound_def)
  have "tokens_sound web st' (or_log s)"
    unfolding tokens_sound_def
  proof (intro allI impI)
    fix d kind claims' expires
    assume "get (oa_tokens st') d = Some (kind, claims', expires)"
    then have "get (oa_tokens (or_store s)) d = Some (kind, claims', expires) \<or> claims' = claims"
      by (rule issue_tokens [OF issued(2)])
    then show "rooted web (or_log s) claims'" using issued(3) c unfolding oauth_sound_def tokens_sound_def by blast
  qed
  moreover have "consents_sound web reg st' (or_log s)"
    using issued(3) issue_frame [OF issued(2)] by (auto simp: oauth_sound_def elim!: consents_mono)
  moreover have "set (remove1 claims (or_grants s)) \<subseteq> set (or_grants s)" by (rule set_remove1_subset)
  ultimately show ?case
    using issued(3) issue_frame [OF issued(2)] by (auto simp: oauth_sound_def codes_sound_def)
qed

lemma oauth_reachable_sound: "(oauth_step web reg)\<^sup>*\<^sup>* empty_run s \<Longrightarrow> oauth_sound web reg s"
proof (induction rule: rtranclp_induct)
  case base
  show ?case by (simp add: oauth_sound_def empty_run_def consents_sound_def codes_sound_def tokens_sound_def)
qed (rule oauth_step_sound)

section \<open>Properties\<close>

text \<open>
  C31. A code is good for one exchange: in any interleaving of requests each authorization code is
  spent at most once, successfully or not, and a code that was spent is gone from the store.
\<close>

theorem codes_are_spent_once:
  assumes "(oauth_step web reg)\<^sup>*\<^sup>* empty_run s"
  shows "distinct (spent (or_log s)) \<and> (\<forall>d \<in> set (spent (or_log s)). get (oa_codes (or_store s)) d = None)"
proof -
  have sound: "oauth_sound web reg s" by (rule oauth_reachable_sound) (rule assms)
  have "get (oa_codes (or_store s)) d = None" if "d \<in> set (spent (or_log s))" for d
  proof (rule ccontr)
    assume "get (oa_codes (or_store s)) d \<noteq> None"
    then obtain c expires where "get (oa_codes (or_store s)) d = Some (c, expires)" by auto
    then have "d \<notin> set (spent (or_log s))" using sound unfolding oauth_sound_def codes_sound_def by blast
    then show False using that by simp
  qed
  then show ?thesis using sound by (simp add: oauth_sound_def)
qed

text \<open>
  C30. Where access comes from: a request that the gate lets through under a user's name presented
  either one of that user's server tokens, or an access token behind which there is a consent
  given with one of that user's server tokens, to a registered client and one of its redirects,
  and a redemption of that consent's code within its minute by someone who knew the verifier of
  its PKCE challenge. This holds for every interleaving, and through every refresh.
\<close>

theorem access_stems_from_consent:
  assumes "(oauth_step web reg)\<^sup>*\<^sup>* empty_run s"
    and "require_auth web reg header now (Some (or_store s)) = Some user"
  shows "\<exists>presented. header = Some (''Bearer '' @ presented) \<and>
    (authenticate web reg presented = Some user \<or>
     (\<exists>query token c at verifier redeemed_at d.
        authenticate web reg (trim token) = Some user \<and>
        (\<exists>client. checked_request web query (or_store s) = Inr client) \<and>
        Approved d query token c at \<in> set (or_log s) \<and> ac_challenge c = aq_challenge query \<and>
        Redeemed d verifier redeemed_at \<in> set (or_log s) \<and> redeemed_at < at + code_ttl \<and>
        base64url web (sha256 web verifier) = aq_challenge query))"
proof -
  obtain presented where p: "header = Some (''Bearer '' @ presented)"
    "authenticate web reg presented = Some user \<or>
     authenticate_oauth web reg presented now (Some (or_store s)) = Some user"
  proof -
    obtain given presented where t: "header = Some given" "strip_bearer given = Some presented"
      "authenticate web reg presented = Some user \<or>
       authenticate_oauth web reg presented now (Some (or_store s)) = Some user"
      using assms(2) by (auto simp: require_auth_def split: option.splits)
    then have "given = ''Bearer '' @ presented"
      by (metis append_take_drop_id option.distinct(1) option.inject strip_bearer_def)
    then show thesis using that t by blast
  qed
  have sound: "oauth_sound web reg s" by (rule oauth_reachable_sound) (rule assms(1))
  show ?thesis
  proof (cases "authenticate web reg presented = Some user")
    case True
    then show ?thesis using p(1) by blast
  next
    case False
    then obtain claims where c: "token_lookup web presented Access now (or_store s) = Some claims"
      "registry_user reg (tc_user claims) = Some user"
      using p(2) by (auto simp: authenticate_oauth_def split: option.splits)
    have u: "tc_user claims = user" using c(2) by (auto simp: registry_user_def find_Some_iff)
    have "rooted web (or_log s) claims"
      using sound c(1) unfolding oauth_sound_def tokens_sound_def token_lookup_Some by blast
    then obtain d query token c at verifier t where r: "Approved d query token c at \<in> set (or_log s)"
      "Redeemed d verifier t \<in> set (or_log s)" "t < at + code_ttl"
      "base64url web (sha256 web verifier) = ac_challenge c" "claims = claims_of c"
      unfolding rooted_def by (elim exE conjE) (rule that)
    have "consent web reg (or_store s) query token c"
      using sound r(1) unfolding oauth_sound_def consents_sound_def by blast
    then have k: "authenticate web reg (trim token) = Some user" "\<exists>client. checked_request web query (or_store s) = Inr client"
      "ac_challenge c = aq_challenge query"
      using r(5) u by (auto simp: consent_def claims_of_def)
    then show ?thesis using p(1) r by fastforce
  qed
qed

lemma get_revoked:
  "get (oa_tokens (revoke_token web token now st)) d =
     (if d = sha256 web token then None
      else case get (oa_tokens st) d of
             Some (kind, claims, expires) \<Rightarrow> if now < expires then Some (kind, claims, expires) else None
           | None \<Rightarrow> None)"
  by (auto simp: revoke_token_def split: option.split)

lemma issue_Inr:
  assumes "issue web claims access refreshed now later st = (st', Inr response)"
  shows "get (oa_tokens st) (sha256 web access) = None" "ts_access response = access"
    "get (oa_tokens st') (sha256 web access) = Some (Access, claims, now + access_token_ttl)"
    "ts_refresh response = Some refreshed \<Longrightarrow>
       get (oa_tokens st') (sha256 web refreshed) = Some (Refresh, claims, later + refresh_token_ttl)"
    "d \<noteq> sha256 web access \<Longrightarrow> d \<noteq> sha256 web refreshed \<Longrightarrow> get (oa_tokens st') d = get (oa_tokens st) d"
  using assms by (auto simp: issue_def issue_token_Inr split: sum.splits if_splits)

text \<open>
  C38. Rotation: after a successful refresh the presented token is dead, as a refresh token and as
  anything else, so that presenting it again is answered with \<open>invalid_grant\<close> and changes
  nothing, and the tokens that were handed out in its place stand for the same client, user and
  scope for their whole lifetime.
\<close>

theorem refresh_rotates:
  assumes "refresh web request access refreshed clock st = (st', Inr response)"
    and "tr_refresh_token request = Some presented"
    and "sha256 web access \<noteq> sha256 web presented" and "sha256 web refreshed \<noteq> sha256 web presented"
  shows "\<exists>claims. token_lookup web presented Refresh (clock 0) st = Some claims \<and>
    (\<forall>t < clock 2 + access_token_ttl. token_lookup web access Access t st' = Some claims) \<and>
    (\<forall>t < clock 3 + refresh_token_ttl. ts_refresh response = Some refreshed \<longrightarrow>
       token_lookup web refreshed Refresh t st' = Some claims) \<and>
    (\<forall>kind t. token_lookup web presented kind t st' = None) \<and>
    (\<forall>access' refreshed' clock'. refresh web request access' refreshed' clock' st' =
       (st', Inl (invalid_grant ''the refresh token is unknown or expired'')))"
proof -
  obtain claims where c: "refresh_check web request (clock 0) st = Inr (presented, claims)"
    "issue web claims access refreshed (clock 2) (clock 3) (revoke_token web presented (clock 1) st) = (st', Inr response)"
    using assms(1,2) refresh_check_Inr
    by (fastforce simp: refresh_def refresh_rotate_def split: sum.splits)
  note i = issue_Inr [OF c(2)]
  have "get (oa_tokens st') (sha256 web presented) = None"
    using i(5) [of "sha256 web presented"] assms(3,4) by (metis get_revoked)
  then have dead: "token_lookup web presented kind t st' = None" for kind t
    by (simp add: token_lookup_def)
  have "refresh web request access' refreshed' clock' st' =
      (st', Inl (invalid_grant ''the refresh token is unknown or expired''))" for access' refreshed' clock'
    by (simp add: refresh_def refresh_check_def assms(2) dead)
  then show ?thesis
    using refresh_check_Inr [OF c(1)] i(3,4) dead
    by (intro exI [of _ claims]) (auto simp: token_lookup_Some)
qed

lemma issue_offline:
  assumes "offline_scope \<in> set (split_whitespace (tc_scope claims))"
    and "get (oa_tokens st) (sha256 web access) = None" and "get (oa_tokens st) (sha256 web refreshed) = None"
    and "sha256 web access \<noteq> sha256 web refreshed"
  shows "issue web claims access refreshed now later st =
    (st\<lparr>oa_tokens := put (sha256 web refreshed) (Refresh, claims, later + refresh_token_ttl)
       (put (sha256 web access) (Access, claims, now + access_token_ttl) (oa_tokens st))\<rparr>,
     Inr \<lparr>ts_access = access, ts_expires_in = access_token_ttl, ts_refresh = Some refreshed, ts_scope = tc_scope claims\<rparr>)"
  using assms by (simp add: issue_def issue_token_def has_def)

text \<open>
  C39. The limit of rotation: the lookup and the revocation are two statements, and the revocation
  does not ask whether it removed anything. Two requests that present the same refresh token and
  both look it up before either revokes it both succeed, each with a refresh token of its own
  that works, so one refresh token can be turned into two chains, where the comments say that
  the presented token stops working in the exchange that hands out its replacement.
\<close>

theorem concurrent_refreshes_fork_the_grant:
  assumes "refresh_check web request (clock 0) st = Inr (presented, claims)"
    and "refresh_check web request (clock' 0) st = Inr (presented, claims)"
    and "offline_scope \<in> set (split_whitespace (tc_scope claims))"
    and "distinct (map (sha256 web) [access, refreshed, access', refreshed'])"
    and "\<forall>drawn \<in> {access, refreshed, access', refreshed'}. get (oa_tokens st) (sha256 web drawn) = None"
    and "clock' 1 < clock 3 + refresh_token_ttl"
    and "refresh_rotate web (presented, claims) access refreshed clock st = (st1, r1)"
    and "refresh_rotate web (presented, claims) access' refreshed' clock' st1 = (st2, r2)"
  shows "is_ok r1 \<and> is_ok r2 \<and>
    (\<forall>t < clock 3 + refresh_token_ttl. token_lookup web refreshed Refresh t st2 = Some claims) \<and>
    (\<forall>t < clock' 3 + refresh_token_ttl. token_lookup web refreshed' Refresh t st2 = Some claims)"
proof -
  have "get (oa_tokens st) (sha256 web presented) \<noteq> None"
    using refresh_check_Inr [OF assms(1)] by (auto simp: token_lookup_Some)
  then have ne: "sha256 web drawn \<noteq> sha256 web presented" if "drawn \<in> {access, refreshed, access', refreshed'}" for drawn
    using assms(5) that by metis
  let ?st = "revoke_token web presented (clock 1) st"
  have free: "get (oa_tokens ?st) (sha256 web drawn) = None" if "drawn \<in> {access, refreshed, access', refreshed'}" for drawn
    using assms(5) that by (auto simp: get_revoked)
  have 1: "issue web claims access refreshed (clock 2) (clock 3) ?st = (st1, r1)"
    using assms(7) by (simp add: refresh_rotate_def)
  have d: "sha256 web access \<noteq> sha256 web refreshed" "sha256 web access' \<noteq> sha256 web refreshed'"
    using assms(4) by simp_all
  have f1: "get (oa_tokens ?st) (sha256 web access) = None" "get (oa_tokens ?st) (sha256 web refreshed) = None"
    by (rule free, simp)+
  note i1 = issue_offline [OF assms(3) f1 d(1), of "clock 2" "clock 3", unfolded 1, simplified prod.inject]
  have st1: "oa_tokens st1 = put (sha256 web refreshed) (Refresh, claims, clock 3 + refresh_token_ttl)
      (put (sha256 web access) (Access, claims, clock 2 + access_token_ttl) (oa_tokens ?st))" and "is_ok r1"
    using i1 by simp_all
  let ?st1 = "revoke_token web presented (clock' 1) st1"
  have free': "get (oa_tokens ?st1) (sha256 web drawn) = None" if "drawn \<in> {access', refreshed'}" for drawn
  proof -
    have "sha256 web drawn \<noteq> sha256 web access" "sha256 web drawn \<noteq> sha256 web refreshed"
      using that assms(4) by auto
    moreover have "get (oa_tokens ?st) (sha256 web drawn) = None" by (rule free) (use that in blast)
    ultimately have "get (oa_tokens st1) (sha256 web drawn) = None" by (simp only: st1 get_put if_False)
    then show ?thesis by (simp add: get_revoked)
  qed
  have 2: "issue web claims access' refreshed' (clock' 2) (clock' 3) ?st1 = (st2, r2)"
    using assms(8) by (simp add: refresh_rotate_def)
  have f2: "get (oa_tokens ?st1) (sha256 web access') = None" "get (oa_tokens ?st1) (sha256 web refreshed') = None"
    by (rule free', simp)+
  note i2 = issue_offline [OF assms(3) f2 d(2), of "clock' 2" "clock' 3", unfolded 2, simplified prod.inject]
  have st2: "oa_tokens st2 = put (sha256 web refreshed') (Refresh, claims, clock' 3 + refresh_token_ttl)
      (put (sha256 web access') (Access, claims, clock' 2 + access_token_ttl) (oa_tokens ?st1))" and "is_ok r2"
    using i2 by simp_all
  have "get (oa_tokens ?st1) (sha256 web refreshed) = Some (Refresh, claims, clock 3 + refresh_token_ttl)"
    using ne assms(6) by (simp add: get_revoked st1)
  then show ?thesis
    using \<open>is_ok r1\<close> \<open>is_ok r2\<close> assms(4) by (auto simp: token_lookup_Some st2)
qed

section \<open>A run\<close>

text \<open>
  A client registers, its user consents with her server token, the code is redeemed with its
  verifier, tokens are issued. The parameters are concrete functions: digests and encodings are
  the strings themselves, and every text is the URL of the host \<open>h\<close>.
\<close>

definition sample_web :: web where
  "sample_web = \<lparr>
     parse_url = (\<lambda>s. Some \<lparr>url_text = s, url_scheme = ''https'', url_host = Some ''h'', url_authority = ''h'',
       url_path = ''/'', url_query = None\<rparr>),
     append_pair = (\<lambda>u k v. u\<lparr>url_text := url_text u @ k @ v\<rparr>), sha256 = id, base64url = id\<rparr>"

definition sample_registry :: registry where
  "sample_registry = \<lparr>credentials = [(''tok'', ''ann'')], users = [''ann'']\<rparr>"

definition sample_verifier :: string where
  "sample_verifier = replicate 43 (CHR ''v'')"

definition sample_query :: authorize_query where
  "sample_query = \<lparr>aq_response_type = ''code'', aq_client_id = ''mcp-1'', aq_redirect_uri = ''r'', aq_state = None,
     aq_scope = Some ''offline_access'', aq_challenge = sample_verifier, aq_method = Some ''S256''\<rparr>"

definition sample_code :: authorization_code where
  "sample_code = \<lparr>ac_client = ''mcp-1'', ac_user = ''ann'', ac_redirect = ''r'', ac_challenge = sample_verifier,
     ac_scope = ''mcp offline_access''\<rparr>"

definition sample_claims :: token_claims where
  "sample_claims = \<lparr>tc_client = ''mcp-1'', tc_user = ''ann'', tc_scope = ''mcp offline_access''\<rparr>"

definition sample_store1 :: oauth_store where
  "sample_store1 = \<lparr>oa_clients = put ''mcp-1'' \<lparr>cl_name = ''app'', cl_redirects = [''r''], cl_created = 0\<rparr> tempty,
     oa_codes = tempty, oa_tokens = tempty\<rparr>"

definition sample_store2 :: oauth_store where
  "sample_store2 = sample_store1\<lparr>oa_codes := put ''c'' (sample_code, 60) tempty\<rparr>"

definition sample_store3 :: oauth_store where
  "sample_store3 = sample_store1\<lparr>oa_tokens :=
     put ''f'' (Refresh, sample_claims, refresh_token_ttl) (put ''a'' (Access, sample_claims, access_token_ttl) tempty)\<rparr>"

definition sample_run :: oauth_run where
  "sample_run = \<lparr>or_store = sample_store3, or_looked = [], or_grants = [],
     or_log = [Redeemed ''c'' sample_verifier 0, Approved ''c'' sample_query ''tok'' sample_code 0]\<rparr>"

lemma sample_words: "offline_scope \<in> set (split_whitespace ''mcp offline_access'')"
  by (simp add: split_whitespace_def offline_scope_def is_whitespace_def utf8_width_def byte_def Let_def)

lemma sample_scope: "granted_scope (Some ''offline_access'') = ''mcp offline_access''"
  by (simp add: granted_scope_def split_whitespace_def offline_scope_def mcp_scope_def is_whitespace_def
      utf8_width_def byte_def Let_def)

lemma sample_trim: "trim ''tok'' = ''tok''"
  by (simp add: trim_def is_whitespace_def utf8_width_def byte_def Let_def)

lemma sample_registered:
  "register sample_web \<lparr>rr_name = Some ''app'', rr_redirects = [''r'']\<rparr> ''1'' 0 (or_store empty_run) =
     Inr (''mcp-1'', sample_store1)"
  by (simp add: register_def register_check_def check_redirect_uri_def sample_web_def register_client_def
      empty_run_def sample_store1_def Let_def cong del: attempt_cong)

lemma sample_consent:
  "authorize_check sample_web sample_registry sample_query ''tok'' sample_store1 =
     Inr (\<lparr>cl_name = ''app'', cl_redirects = [''r''], cl_created = 0\<rparr>, Some sample_code)"
  by (simp add: authorize_check_def checked_request_def sample_query_def sample_verifier_def sample_store1_def
      redirect_matches_def authenticate_def sample_registry_def sample_web_def sample_trim sample_code_def sample_scope)

lemma sample_issued_code: "issue_code sample_web ''c'' sample_code 0 sample_store1 = Inr sample_store2"
  by (simp add: issue_code_def sample_web_def sample_store1_def sample_store2_def code_ttl_def)

lemma sample_redeemed: "redeem_code sample_web ''c'' 0 0 sample_store2 = (sample_store1, Some sample_code)"
  by (simp add: redeem_code_def sample_web_def sample_store2_def sample_store1_def Let_def)
     (rule table_eqI, simp)

definition sample_exchange :: token_request where
  "sample_exchange = \<lparr>tr_grant_type = ''authorization_code'', tr_code = Some ''c'', tr_redirect_uri = Some ''r'',
     tr_client_id = Some ''mcp-1'', tr_verifier = Some sample_verifier, tr_refresh_token = None\<rparr>"

lemma sample_checked: "exchange_check sample_web sample_exchange sample_verifier sample_code = Inr sample_claims"
  by (simp add: exchange_check_def differs_def sample_exchange_def sample_code_def sample_web_def sample_claims_def)

lemma sample_issued:
  "issue sample_web sample_claims ''a'' ''f'' 0 0 sample_store1 =
     (sample_store3, Inr \<lparr>ts_access = ''a'', ts_expires_in = access_token_ttl, ts_refresh = Some ''f'',
        ts_scope = ''mcp offline_access''\<rparr>)"
proof -
  have "offline_scope \<in> set (split_whitespace (tc_scope sample_claims))" using sample_words by (simp add: sample_claims_def)
  from issue_offline [OF this, of sample_store1 sample_web "''a''" "''f''" 0 0] show ?thesis
    by (simp add: sample_store1_def sample_store3_def sample_web_def sample_claims_def)
qed

lemma sample_reached: "(oauth_step sample_web sample_registry)\<^sup>*\<^sup>* empty_run sample_run"
proof -
  let ?step = "oauth_step sample_web sample_registry"
  let ?consented = "Approved ''c'' sample_query ''tok'' sample_code 0"
  have 1: "?step empty_run (empty_run\<lparr>or_store := sample_store1\<rparr>)"
    using oauth_step.registered [OF sample_registered, of sample_registry] .
  have 2: "?step (empty_run\<lparr>or_store := sample_store1\<rparr>)
      (empty_run\<lparr>or_store := sample_store2, or_log := [?consented]\<rparr>)"
    using oauth_step.consented [of sample_web sample_registry sample_query "''tok''" "empty_run\<lparr>or_store := sample_store1\<rparr>"
        "\<lparr>cl_name = ''app'', cl_redirects = [''r''], cl_created = 0\<rparr>" sample_code "''c''" 0 sample_store2]
      sample_consent sample_issued_code
    by (simp add: empty_run_def sample_web_def)
  have 3: "?step (empty_run\<lparr>or_store := sample_store2, or_log := [?consented]\<rparr>)
      (empty_run\<lparr>or_store := sample_store1, or_grants := [sample_claims],
        or_log := [Redeemed ''c'' sample_verifier 0, ?consented]\<rparr>)"
    using oauth_step.redeemed [of sample_web "''c''" 0 0 "empty_run\<lparr>or_store := sample_store2, or_log := [?consented]\<rparr>"
        sample_store1 sample_code sample_exchange sample_verifier sample_claims sample_registry]
      sample_redeemed sample_checked
    by (simp add: empty_run_def sample_web_def)
  have 4: "?step (empty_run\<lparr>or_store := sample_store1, or_grants := [sample_claims],
        or_log := [Redeemed ''c'' sample_verifier 0, ?consented]\<rparr>) sample_run"
    using oauth_step.issued [of sample_claims "empty_run\<lparr>or_store := sample_store1, or_grants := [sample_claims],
        or_log := [Redeemed ''c'' sample_verifier 0, ?consented]\<rparr>" sample_web "''a''" "''f''" 0 0 sample_store3
        "Inr \<lparr>ts_access = ''a'', ts_expires_in = access_token_ttl, ts_refresh = Some ''f'', ts_scope = ''mcp offline_access''\<rparr>"
        sample_registry] sample_issued
    by (simp add: empty_run_def sample_run_def)
  show ?thesis using 1 2 3 4 by (meson converse_rtranclp_into_rtranclp rtranclp.rtrancl_refl)
qed

theorem codes_are_spent_once_witness: "get (oa_codes (or_store sample_run)) ''c'' = None"
  using codes_are_spent_once [OF sample_reached] by (simp add: sample_run_def)

lemma sample_gate:
  "require_auth sample_web sample_registry (Some ''Bearer a'') 0 (Some (or_store sample_run)) = Some ''ann''"
  by (simp add: require_auth_def strip_bearer_def authenticate_def sample_registry_def sample_web_def
      authenticate_oauth_def token_lookup_def sample_run_def sample_store3_def sample_claims_def access_token_ttl_def
      registry_user_def)

theorem access_stems_from_consent_witness:
  "\<exists>query token c at. Approved ''c'' query token c at \<in> set (or_log sample_run) \<and>
     authenticate sample_web sample_registry (trim token) = Some ''ann''"
proof -
  have "authenticate sample_web sample_registry ''a'' = None"
    by (simp add: authenticate_def sample_registry_def sample_web_def)
  with access_stems_from_consent [OF sample_reached sample_gate] show ?thesis
    by (auto simp: sample_run_def)
qed

definition sample_refresh :: token_request where
  "sample_refresh = \<lparr>tr_grant_type = ''refresh_token'', tr_code = None, tr_redirect_uri = None,
     tr_client_id = None, tr_verifier = None, tr_refresh_token = Some ''f''\<rparr>"

definition sample_clock :: clock where
  "sample_clock = (\<lambda>_. 1)"

lemma sample_refresh_check: "refresh_check sample_web sample_refresh 1 sample_store3 = Inr (''f'', sample_claims)"
  by (simp add: refresh_check_def sample_refresh_def token_lookup_def sample_store3_def sample_web_def differs_def
      refresh_token_ttl_def)

lemma sample_rotation:
  assumes "get (oa_tokens st) (sha256 sample_web access) = None" "get (oa_tokens st) (sha256 sample_web refreshed) = None"
    and "access \<noteq> refreshed"
  shows "\<exists>st' response. refresh_rotate sample_web (''f'', sample_claims) access refreshed sample_clock st = (st', Inr response)"
proof -
  have "offline_scope \<in> set (split_whitespace (tc_scope sample_claims))" using sample_words by (simp add: sample_claims_def)
  from issue_offline [OF this, of "revoke_token sample_web ''f'' 1 st" sample_web access refreshed 1 1] assms
  show ?thesis by (simp add: refresh_rotate_def sample_clock_def get_revoked sample_web_def)
qed

theorem refresh_rotates_witness:
  "\<exists>st' response. refresh sample_web sample_refresh ''x'' ''y'' sample_clock sample_store3 = (st', Inr response) \<and>
     token_lookup sample_web ''f'' Refresh 1 st' = None"
proof -
  obtain st' response where r: "refresh_rotate sample_web (''f'', sample_claims) ''x'' ''y'' sample_clock sample_store3 = (st', Inr response)"
    using sample_rotation [of sample_store3 "''x''" "''y''"] by (auto simp: sample_store3_def sample_store1_def sample_web_def)
  then have f: "refresh sample_web sample_refresh ''x'' ''y'' sample_clock sample_store3 = (st', Inr response)"
    by (simp add: refresh_def sample_clock_def sample_refresh_check)
  have "tr_refresh_token sample_refresh = Some ''f''" by (simp add: sample_refresh_def)
  from refresh_rotates [OF f this] f show ?thesis by (auto simp: sample_web_def)
qed

theorem concurrent_refreshes_fork_the_grant_witness:
  "\<exists>st1 r1 st2 r2. refresh_rotate sample_web (''f'', sample_claims) ''x'' ''y'' sample_clock sample_store3 = (st1, r1) \<and>
     refresh_rotate sample_web (''f'', sample_claims) ''z'' ''w'' sample_clock st1 = (st2, r2) \<and>
     token_lookup sample_web ''y'' Refresh 2 st2 = Some sample_claims \<and>
     token_lookup sample_web ''w'' Refresh 2 st2 = Some sample_claims"
proof -
  obtain st1 r1 where 1: "refresh_rotate sample_web (''f'', sample_claims) ''x'' ''y'' sample_clock sample_store3 = (st1, r1)"
    by force
  obtain st2 r2 where 2: "refresh_rotate sample_web (''f'', sample_claims) ''z'' ''w'' sample_clock st1 = (st2, r2)"
    by force
  have c: "refresh_check sample_web sample_refresh (sample_clock 0) sample_store3 = Inr (''f'', sample_claims)"
    by (simp add: sample_clock_def sample_refresh_check)
  have w: "offline_scope \<in> set (split_whitespace (tc_scope sample_claims))" using sample_words by (simp add: sample_claims_def)
  have d: "distinct (map (sha256 sample_web) [''x'', ''y'', ''z'', ''w''])" by (simp add: sample_web_def)
  have n: "\<forall>drawn \<in> {''x'', ''y'', ''z'', ''w''}. get (oa_tokens sample_store3) (sha256 sample_web drawn) = None"
    by (simp add: sample_store3_def sample_store1_def sample_web_def)
  have t: "sample_clock 1 < sample_clock 3 + refresh_token_ttl" by (simp add: sample_clock_def refresh_token_ttl_def)
  from concurrent_refreshes_fork_the_grant [OF c c w d n t 1 2] 1 2 show ?thesis
    by (auto simp: sample_clock_def refresh_token_ttl_def)
qed

end
