(* ===== verification/InkChunk.thy ===== *)
theory InkChunk
  imports Prelude
begin

text \<open>
  The column chunks of \<open>crates/ink-format\<close>: the scalar codec (\<open>codec.rs\<close>) and the binary layout
  of a chunk with its writer and its reader (\<open>chunk.rs\<close>). Octets are \<open>8 word\<close>s, offsets and
  counts are \<open>nat\<close>s that the code's own checks keep below \<open>2 ^ 32\<close>. The CRC is the \<open>crc32fast\<close>
  crate's and the PCO stream the \<open>pco\<close> crate's: parameters.
\<close>

type_synonym octets = "8 word list"

datatype ink_error =
    InvalidData string
  | Unsupported string nat
  | ResourceLimit string
  | Cbor string
  | Compression string

section \<open>Octets\<close>

definition slice :: "nat \<Rightarrow> nat \<Rightarrow> octets \<Rightarrow> octets" where
  "slice at n bytes = take n (drop at bytes)"

text \<open>\<open>to_le_bytes()[..size]\<close> and \<open>from_le_bytes\<close>.\<close>

definition le_bytes :: "nat \<Rightarrow> nat \<Rightarrow> octets" where
  "le_bytes n v = map (\<lambda>i. of_nat (v div 256 ^ i)) [0..<n]"

definition le_value :: "octets \<Rightarrow> nat" where
  "le_value bytes = foldr (\<lambda>b n. unat b + 256 * n) bytes 0"

text \<open>\<open>copy_from_slice\<close> into a range of the buffer.\<close>

definition splice :: "nat \<Rightarrow> octets \<Rightarrow> octets \<Rightarrow> octets" where
  "splice at xs bytes = take at bytes @ xs @ drop (at + length xs) bytes"

definition read_uint :: "octets \<Rightarrow> nat \<Rightarrow> nat \<Rightarrow> ink_error + nat" where
  "read_uint bytes at n =
     guard (at + n \<le> length bytes) (InvalidData ''truncated integer'') (Inr (le_value (slice at n bytes)))"

definition put_uint :: "nat \<Rightarrow> nat \<Rightarrow> nat \<Rightarrow> octets \<Rightarrow> octets" where
  "put_uint at n v bytes = splice at (le_bytes n v) bytes"

text \<open>An identifier: sixteen octets, not all zero.\<close>

definition zero_id :: octets where
  "zero_id = replicate 16 0"

definition read_id :: "octets \<Rightarrow> nat \<Rightarrow> ink_error + octets" where
  "read_id bytes at =
     guard (at + 16 \<le> length bytes) (InvalidData ''truncated id'')
     (guard (slice at 16 bytes \<noteq> zero_id) (InvalidData ''zero id'') (Inr (slice at 16 bytes)))"

section \<open>Scalars\<close>

datatype dtype = U8 | I8 | U16 | I16 | U32 | I32 | U64 | I64 | F32 | F64

fun dtype_code :: "dtype \<Rightarrow> nat" where
  "dtype_code U8 = 1" | "dtype_code I8 = 2" | "dtype_code U16 = 3" | "dtype_code I16 = 4"
| "dtype_code U32 = 5" | "dtype_code I32 = 6" | "dtype_code U64 = 7" | "dtype_code I64 = 8"
| "dtype_code F32 = 9" | "dtype_code F64 = 10"

fun dtype_width :: "dtype \<Rightarrow> nat" where
  "dtype_width U8 = 1" | "dtype_width I8 = 1" | "dtype_width U16 = 2" | "dtype_width I16 = 2"
| "dtype_width U32 = 4" | "dtype_width I32 = 4" | "dtype_width F32 = 4" | "dtype_width _ = 8"

definition dtype_of :: "nat \<Rightarrow> ink_error + dtype" where
  "dtype_of v =
     (if v = 1 then Inr U8 else if v = 2 then Inr I8 else if v = 3 then Inr U16 else if v = 4 then Inr I16
      else if v = 5 then Inr U32 else if v = 6 then Inr I32 else if v = 7 then Inr U64 else if v = 8 then Inr I64
      else if v = 9 then Inr F32 else if v = 10 then Inr F64 else Inl (Unsupported ''dtype'' v))"

datatype encoding = RawEncoding | Pco8

fun encoding_id :: "encoding \<Rightarrow> nat" where
  "encoding_id RawEncoding = 0"
| "encoding_id Pco8 = 2"

fun encoding_params :: "encoding \<Rightarrow> octets" where
  "encoding_params RawEncoding = [0xa1, 0, 0xf4]"
| "encoding_params Pco8 = [0xa0]"

text \<open>\<open>chunks_exact\<close>: the remainder is dropped.\<close>

function chunks_exact :: "nat \<Rightarrow> octets \<Rightarrow> octets list" where
  "chunks_exact w xs = (if w = 0 \<or> length xs < w then [] else take w xs # chunks_exact w (drop w xs))"
  by pat_completeness auto
termination
  by (relation "measure (\<lambda>(w, xs). length xs)") auto

declare chunks_exact.simps [simp del]

text \<open>
  The \<open>pco\<close> crate. \<open>pco_compress\<close> is \<open>simple_compress\<close> of the numbers; \<open>pco_items\<close> is what the
  chunk decompressors of the stream give one after the other: the size that a chunk announces,
  the numbers read, whether it was finished and how many were processed; then the rest.
\<close>

datatype pco_item = PcoChunk nat "nat list" bool nat | PcoEnd octets | PcoError string

record codecs =
  crc32 :: "octets \<Rightarrow> 32 word"
  pco_compress :: "dtype \<Rightarrow> nat list \<Rightarrow> string + octets"
  pco_items :: "dtype \<Rightarrow> octets \<Rightarrow> string + pco_item list"

definition compress :: "codecs \<Rightarrow> dtype \<Rightarrow> octets \<Rightarrow> encoding \<Rightarrow> ink_error + octets" where
  "compress cx dtype values encoding =
     guard (length values mod dtype_width dtype = 0) (InvalidData ''scalar alignment'')
     (if encoding = RawEncoding then Inr values
      else case pco_compress cx dtype (map le_value (chunks_exact (dtype_width dtype) values)) of
             Inl e \<Rightarrow> Inl (Compression e)
           | Inr payload \<Rightarrow> Inr payload)"

fun decode_items :: "nat \<Rightarrow> pco_item list \<Rightarrow> nat list \<Rightarrow> ink_error + nat list" where
  "decode_items count [] values = Inl (Compression ''end of stream'')"
| "decode_items count (PcoError e # items) values = Inl (Compression e)"
| "decode_items count (PcoEnd rest # items) values =
     guard (rest = []) (InvalidData ''PCO trailing bytes'')
     (guard (length values = count) (InvalidData ''PCO sample count'') (Inr values))"
| "decode_items count (PcoChunk n numbers finished processed # items) values =
     guard (length values + n \<le> count) (InvalidData ''PCO sample count exceeds column'')
     (guard (finished \<and> processed = n) (InvalidData ''incomplete PCO chunk'')
       (decode_items count items (values @ take n (numbers @ replicate n 0))))"

definition decode_numbers :: "codecs \<Rightarrow> dtype \<Rightarrow> octets \<Rightarrow> nat \<Rightarrow> ink_error + nat list" where
  "decode_numbers cx dtype payload count =
     (case pco_items cx dtype payload of
        Inl e \<Rightarrow> Inl (Compression e)
      | Inr items \<Rightarrow> decode_items count items [])"

definition decompress :: "codecs \<Rightarrow> dtype \<Rightarrow> octets \<Rightarrow> nat \<Rightarrow> ink_error + octets" where
  "decompress cx dtype payload count =
     attempt (decode_numbers cx dtype payload count) (\<lambda>numbers.
       Inr (concat (map (le_bytes (dtype_width dtype)) numbers)))"

section \<open>Columns\<close>

record column =
  co_semantic :: nat
  co_dtype :: dtype
  co_required :: bool
  co_validity :: "octets option"
  co_values :: octets

record chunk =
  ch_id :: octets
  ch_profile :: octets
  ch_segments :: "(octets \<times> nat) list"
  ch_columns :: "column list"

definition max_chunk :: nat where
  "max_chunk = 64 * 1024 * 1024"

text \<open>The limits of a chunk: its octets, its points, its segments and its directory.\<close>

definition fits_chunk :: "nat \<Rightarrow> bool" where
  [simp]: "fits_chunk n \<longleftrightarrow> n \<le> max_chunk"

definition fits_points :: "nat \<Rightarrow> bool" where
  [simp]: "fits_points n \<longleftrightarrow> n \<le> 1000000"

definition fits_segments :: "nat \<Rightarrow> bool" where
  [simp]: "fits_segments n \<longleftrightarrow> n \<le> 65536"

definition fits_directory :: "nat \<Rightarrow> bool" where
  [simp]: "fits_directory n \<longleftrightarrow> n \<le> 16 * 1024 * 1024"

lemma fits_code [code]:
  "fits_chunk n \<longleftrightarrow> int n \<le> 67108864"
  "fits_points n \<longleftrightarrow> int n \<le> 1000000"
  "fits_segments n \<longleftrightarrow> int n \<le> 65536"
  "fits_directory n \<longleftrightarrow> int n \<le> 16777216"
  unfolding fits_chunk_def fits_points_def fits_segments_def fits_directory_def max_chunk_def by linarith+

definition header :: nat where
  "header = 80"

text \<open>\<open>"INKCHNK\0"\<close>.\<close>

definition magic :: octets where
  "magic = [0x49, 0x4e, 0x4b, 0x43, 0x48, 0x4e, 0x4b, 0]"

text \<open>\<open>is_finite\<close> of the float whose little-endian octets these are.\<close>

definition finite_f32 :: "octets \<Rightarrow> bool" where
  "finite_f32 b \<longleftrightarrow> le_value b div 2 ^ 23 mod 256 \<noteq> 255"

definition finite_f64 :: "octets \<Rightarrow> bool" where
  "finite_f64 b \<longleftrightarrow> le_value b div 2 ^ 52 mod 2048 \<noteq> 2047"

definition validate_values :: "column \<Rightarrow> ink_error + unit" where
  "validate_values c =
     attempt
       (if co_semantic c = 12
        then guard (co_dtype c = U8) (InvalidData ''sample kind must be U8'')
          (guard (list_all (\<lambda>v. v \<le> 2) (co_values c)) (InvalidData ''unsupported sample kind'') (Inr ()))
        else Inr ()) (\<lambda>_.
     case co_dtype c of
       F32 \<Rightarrow> guard (list_all finite_f32 (chunks_exact 4 (co_values c))) (InvalidData ''non-finite F32 sample'') (Inr ())
     | F64 \<Rightarrow> guard (list_all finite_f64 (chunks_exact 8 (co_values c))) (InvalidData ''non-finite F64 sample'') (Inr ())
     | _ \<Rightarrow> Inr ())"

definition count_ones :: "8 word \<Rightarrow> nat" where
  "count_ones b = length (filter (bit b) [0..<8])"

definition div_ceil8 :: "nat \<Rightarrow> nat" where
  "div_ceil8 n = (n + 7) div 8"

text \<open>\<open>bitmap[n / 8] >> (n % 8) == 0\<close> where the last octet is not full.\<close>

definition tail_clear :: "octets \<Rightarrow> nat \<Rightarrow> bool" where
  "tail_clear bitmap n \<longleftrightarrow> n mod 8 = 0 \<or> unat (bitmap ! (n div 8)) div 2 ^ (n mod 8) = 0"

definition valid_count :: "octets \<Rightarrow> nat" where
  "valid_count bitmap = sum_list (map count_ones bitmap)"

definition chunk_count :: "chunk \<Rightarrow> ink_error + nat" where
  "chunk_count c =
     (let n = sum_list (map snd (ch_segments c)) in
      guard (0 < n \<and> fits_points n) (InvalidData ''point limit'') (Inr n))"

section \<open>The reader\<close>

text \<open>What the header announces.\<close>

record layout =
  la_points :: nat
  la_segments :: nat
  la_columns :: nat
  la_start :: nat
  la_table_end :: nat

definition read_header :: "codecs \<Rightarrow> octets \<Rightarrow> ink_error + layout" where
  "read_header cx bytes =
     guard (header \<le> length bytes \<and> fits_chunk (length bytes)) (InvalidData ''chunk size'')
     (guard (slice 0 8 bytes = magic) (InvalidData ''chunk magic'')
     (attempt (read_uint bytes 8 2) (\<lambda>version.
      attempt (read_uint bytes 10 2) (\<lambda>minor.
      guard (version = 1 \<and> minor = 0) (InvalidData ''unsupported chunk version'')
     (attempt (read_uint bytes 12 4) (\<lambda>flags.
      attempt (read_uint bytes 58 2) (\<lambda>reserved.
      guard (flags = 0 \<and> reserved = 0) (InvalidData ''unsupported flags'')
     (attempt (read_uint bytes 72 4) (\<lambda>crc.
      guard (crc = unat (crc32 cx (slice 0 72 bytes))) (InvalidData ''header CRC'')
     (attempt (read_uint bytes 48 4) (\<lambda>n.
      attempt (read_uint bytes 52 4) (\<lambda>s.
      attempt (read_uint bytes 56 2) (\<lambda>c.
      guard (0 < n \<and> fits_points n \<and> 0 < s \<and> fits_segments s \<and> 0 < c \<and> c \<le> 64) (InvalidData ''chunk counts'')
     (attempt (read_uint bytes 60 4) (\<lambda>directory.
      guard (fits_directory directory) (InvalidData ''directory limit'')
     (let start = header + directory in
      attempt (read_uint bytes 64 8) (\<lambda>payload.
      guard (start + payload = length bytes) (InvalidData ''chunk length'')
     (let table_end = header + s * 32 + c * 64 in
      guard (table_end \<le> start) (InvalidData ''directory tables'')
     (attempt (read_uint bytes 76 4) (\<lambda>crc.
      guard (crc = unat (crc32 cx (slice header (start - header) bytes))) (InvalidData ''directory CRC'')
       (Inr \<lparr>la_points = n, la_segments = s, la_columns = c, la_start = start, la_table_end = table_end\<rparr>)))))))))))))))))))))"

text \<open>The loop over the segment table: the segments so far and their sum.\<close>

definition read_segment :: "octets \<Rightarrow> nat \<Rightarrow> (octets \<times> nat) list \<times> nat \<Rightarrow> ink_error + (octets \<times> nat) list \<times> nat" where
  "read_segment bytes i = (\<lambda>(segments, total).
     let p = header + i * 32 in
     attempt (read_id bytes p) (\<lambda>segment.
     attempt (read_uint bytes (p + 16) 4) (\<lambda>count.
     guard (0 < count \<and> segment \<notin> fst ` set segments) (InvalidData ''invalid segment'')
     (attempt (read_uint bytes (p + 20) 4) (\<lambda>flags.
      attempt (read_uint bytes (p + 24) 8) (\<lambda>reserved.
      guard (flags = 0 \<and> reserved = 0) (InvalidData ''segment flags'')
        (Inr (segments @ [(segment, count)], total + count))))))))"

definition read_segments :: "octets \<Rightarrow> layout \<Rightarrow> ink_error + (octets \<times> nat) list" where
  "read_segments bytes la =
     attempt (fold_res (read_segment bytes) [0..<la_segments la] ([], 0)) (\<lambda>(segments, total).
     guard (total = la_points la) (InvalidData ''segment count sum'') (Inr segments))"

text \<open>The closure \<open>range\<close>: the octets, and the ranges taken so far.\<close>

type_synonym ranges = "(nat \<times> nat) list"

definition take_range ::
    "octets \<Rightarrow> nat \<Rightarrow> nat \<Rightarrow> nat \<Rightarrow> nat \<Rightarrow> ranges \<Rightarrow> ink_error + (octets \<times> ranges)" where
  "take_range bytes offset len low high taken =
     (if len = 0 then guard (offset = 0) (InvalidData ''empty offset'') (Inr ([], taken))
      else guard (low \<le> offset \<and> offset + len \<le> high) (InvalidData ''range bounds'')
        (Inr (slice offset len bytes, taken @ [(offset, offset + len)])))"

definition encoding_of :: "nat \<Rightarrow> ink_error + encoding" where
  "encoding_of codec_id =
     (if codec_id = 0 then Inr RawEncoding else if codec_id = 2 then Inr Pco8
      else Inl (Unsupported ''codec'' codec_id))"

text \<open>\<open>flags & !19 == 0 && flags & 3 != 3\<close>.\<close>

definition flags_known :: "nat \<Rightarrow> bool" where
  "flags_known flags \<longleftrightarrow> flags < 32 \<and> flags div 4 mod 4 = 0 \<and> flags mod 4 \<noteq> 3"

definition read_validity :: "nat \<Rightarrow> nat \<Rightarrow> octets \<Rightarrow> ink_error + (octets option \<times> nat)" where
  "read_validity state n bitmap =
     (if state = 0 then guard (bitmap = []) (InvalidData ''all-valid bitmap'') (Inr (None, n))
      else if state = 1 then
        guard (length bitmap = div_ceil8 n) (InvalidData ''bitmap size'')
        (guard (tail_clear bitmap n) (InvalidData ''bitmap tail'')
        (guard (0 < valid_count bitmap \<and> valid_count bitmap < n) (InvalidData ''mixed bitmap count'')
          (Inr (Some bitmap, valid_count bitmap))))
      else guard (bitmap = []) (InvalidData ''all-null bitmap'') (Inr (Some (replicate (div_ceil8 n) 0), 0)))"

record column_scan =
  cs_columns :: "column list"
  cs_previous :: nat
  cs_decoded :: nat
  cs_ranges :: ranges

text \<open>
  One row of the column table. The checks of a column are in three groups: what the row says of
  itself, its validity, and its payload.
\<close>

record column_row =
  cr_semantic :: nat
  cr_dtype :: dtype
  cr_encoding :: encoding
  cr_flags :: nat

definition read_row :: "octets \<Rightarrow> layout \<Rightarrow> nat \<Rightarrow> nat \<Rightarrow> ink_error + column_row" where
  "read_row bytes la p previous =
     attempt (read_uint bytes p 2) (\<lambda>semantic.
     guard (previous < semantic) (InvalidData ''column order'')
     (attempt (dtype_of (unat (bytes ! (p + 2)))) (\<lambda>dtype.
      guard (unat (bytes ! (p + 3)) = dtype_code dtype) (InvalidData ''unsupported storage dtype'')
     (attempt (read_uint bytes (p + 4) 2) (\<lambda>codec_id.
      attempt (encoding_of codec_id) (\<lambda>encoding.
      attempt (read_uint bytes (p + 6) 2) (\<lambda>wire.
      guard (wire = 1) (Unsupported ''codec wire version'' wire)
     (attempt (read_uint bytes (p + 8) 2) (\<lambda>outer.
      guard (outer = 0) (InvalidData ''unsupported outer compression'')
     (attempt (read_uint bytes (p + 10) 2) (\<lambda>flags.
      guard (flags_known flags) (InvalidData ''unsupported column flags'')
     (attempt (read_uint bytes (p + 12) 4) (\<lambda>n.
      attempt (read_uint bytes (p + 56) 8) (\<lambda>reserved.
      guard (n = la_points la \<and> reserved = 0) (InvalidData ''column count/reserved'')
        (Inr \<lparr>cr_semantic = semantic, cr_dtype = dtype, cr_encoding = encoding, cr_flags = flags\<rparr>)))))))))))))))"

definition read_bitmap :: "octets \<Rightarrow> layout \<Rightarrow> nat \<Rightarrow> column_row \<Rightarrow> ranges \<Rightarrow> ink_error + (octets option \<times> nat \<times> ranges)" where
  "read_bitmap bytes la p row taken =
     attempt (read_uint bytes (p + 32) 4) (\<lambda>params_at.
     attempt (read_uint bytes (p + 36) 4) (\<lambda>params_len.
     attempt (take_range bytes params_at params_len (la_table_end la) (la_start la) taken) (\<lambda>(params, taken).
     guard (params = encoding_params (cr_encoding row)) (InvalidData ''unsupported codec parameters'')
     (attempt (read_uint bytes (p + 40) 4) (\<lambda>bitmap_at.
      attempt (read_uint bytes (p + 44) 4) (\<lambda>bitmap_len.
      attempt (take_range bytes bitmap_at bitmap_len (la_table_end la) (la_start la) taken) (\<lambda>(bitmap, taken).
      attempt (read_validity (cr_flags row mod 4) (la_points la) bitmap) (\<lambda>(validity, valid).
      guard (cr_semantic row \<in> {1, 2, 4, 12} \<longrightarrow> cr_flags row = 16) (InvalidData ''required axis must be all-valid'')
        (Inr (validity, valid, taken))))))))))"

definition read_payload ::
    "codecs \<Rightarrow> octets \<Rightarrow> bool \<Rightarrow> layout \<Rightarrow> nat \<Rightarrow> column_row \<Rightarrow> nat \<Rightarrow> nat \<Rightarrow> ranges \<Rightarrow>
       ink_error + (octets \<times> nat \<times> ranges)" where
  "read_payload cx bytes decode_values la p row valid decoded taken =
     (let expected = valid * dtype_width (cr_dtype row);
          decoded = decoded + expected in
      guard (fits_chunk decoded) (InvalidData ''decoded limit'')
     (attempt (read_uint bytes (p + 28) 4) (\<lambda>decoded_len.
      guard (decoded_len = expected) (InvalidData ''decoded length'')
     (attempt (read_uint bytes (p + 24) 4) (\<lambda>payload_len.
      attempt (read_uint bytes (p + 52) 4) (\<lambda>codec_len.
      guard (codec_len = payload_len) (InvalidData ''codec length'')
     (guard (valid = 0 \<longrightarrow> cr_encoding row = RawEncoding \<and> payload_len = 0) (InvalidData ''all-null encoding'')
     (attempt (read_uint bytes (p + 16) 8) (\<lambda>payload_at.
      attempt (take_range bytes payload_at payload_len (la_start la) (length bytes) taken) (\<lambda>(payload, taken).
      attempt (read_uint bytes (p + 48) 4) (\<lambda>crc.
      guard (crc = unat (crc32 cx payload)) (InvalidData ''payload CRC'')
     (guard (cr_encoding row = RawEncoding \<longrightarrow> payload_len = expected) (InvalidData ''RAW length'')
     (attempt (if \<not> decode_values then Inr []
               else if cr_encoding row = RawEncoding then Inr payload
               else decompress cx (cr_dtype row) payload valid) (\<lambda>values.
      Inr (values, decoded, taken)))))))))))))))"

definition read_column :: "codecs \<Rightarrow> octets \<Rightarrow> bool \<Rightarrow> layout \<Rightarrow> nat \<Rightarrow> column_scan \<Rightarrow> ink_error + column_scan" where
  "read_column cx bytes decode_values la i scan =
     (let p = header + la_segments la * 32 + i * 64 in
      attempt (read_row bytes la p (cs_previous scan)) (\<lambda>row.
      attempt (read_bitmap bytes la p row (cs_ranges scan)) (\<lambda>(validity, valid, taken).
      attempt (read_payload cx bytes decode_values la p row valid (cs_decoded scan) taken) (\<lambda>(values, decoded, taken).
      let column = \<lparr>co_semantic = cr_semantic row, co_dtype = cr_dtype row,
            co_required = (cr_flags row div 16 mod 2 = 1), co_validity = validity, co_values = values\<rparr> in
      guard (cr_semantic row = 12 \<longrightarrow> cr_dtype row = U8) (InvalidData ''sample kind must be U8'')
     (attempt (if decode_values then validate_values column else Inr ()) (\<lambda>_.
      Inr \<lparr>cs_columns = cs_columns scan @ [column], cs_previous = cr_semantic row, cs_decoded = decoded,
           cs_ranges = taken\<rparr>))))))"

text \<open>What lies between the ranges is zero, and nothing lies behind the last one.\<close>

definition check_gap :: "octets \<Rightarrow> nat \<times> nat \<Rightarrow> nat \<Rightarrow> ink_error + nat" where
  "check_gap bytes = (\<lambda>(lo, hi) done_to.
     guard (done_to \<le> lo) (InvalidData ''overlapping ranges'')
     (guard (list_all (\<lambda>b. b = 0) (slice done_to (lo - done_to) bytes)) (InvalidData ''nonzero padding'') (Inr hi)))"

definition check_ranges :: "octets \<Rightarrow> nat \<Rightarrow> ranges \<Rightarrow> ink_error + unit" where
  "check_ranges bytes table_end taken =
     attempt (fold_res (check_gap bytes) (sort taken) table_end) (\<lambda>done_to.
     guard (done_to = length bytes) (InvalidData ''trailing padding'') (Inr ()))"

definition read_layout :: "codecs \<Rightarrow> octets \<Rightarrow> bool \<Rightarrow> ink_error + (chunk \<times> nat)" where
  "read_layout cx bytes decode_values =
     attempt (read_header cx bytes) (\<lambda>la.
     attempt (read_segments bytes la) (\<lambda>segments.
     attempt (fold_res (read_column cx bytes decode_values la) [0..<la_columns la]
         \<lparr>cs_columns = [], cs_previous = 0, cs_decoded = 0, cs_ranges = []\<rparr>) (\<lambda>scan.
     guard (list_all (\<lambda>axis. list_ex (\<lambda>c. co_semantic c = axis) (cs_columns scan)) [1, 2, 12])
       (InvalidData ''missing required axis'')
     (attempt (check_ranges bytes (la_table_end la) (cs_ranges scan)) (\<lambda>_.
      attempt (read_id bytes 16) (\<lambda>chunk_id.
      attempt (read_id bytes 32) (\<lambda>profile.
      Inr (\<lparr>ch_id = chunk_id, ch_profile = profile, ch_segments = segments, ch_columns = cs_columns scan\<rparr>,
           cs_decoded scan))))))))"

definition decode_chunk :: "codecs \<Rightarrow> octets \<Rightarrow> ink_error + chunk" where
  "decode_chunk cx bytes = attempt (read_layout cx bytes True) (\<lambda>(c, _). Inr c)"

definition decoded_value_bytes :: "codecs \<Rightarrow> octets \<Rightarrow> ink_error + nat" where
  "decoded_value_bytes cx bytes = attempt (read_layout cx bytes False) (\<lambda>(_, n). Inr n)"

section \<open>The writer\<close>

definition write_header :: "chunk \<Rightarrow> nat \<Rightarrow> octets \<Rightarrow> octets" where
  "write_header c n bytes =
     put_uint 56 2 (length (ch_columns c))
       (put_uint 52 4 (length (ch_segments c))
         (put_uint 48 4 n
           (splice 32 (ch_profile c) (splice 16 (ch_id c) (put_uint 8 2 1 (splice 0 magic bytes))))))"

fun write_segments :: "nat \<Rightarrow> (octets \<times> nat) list \<Rightarrow> octets \<Rightarrow> octets" where
  "write_segments i [] bytes = bytes"
| "write_segments i ((segment, count) # rest) bytes =
     write_segments (i + 1) rest
       (put_uint (header + i * 32 + 16) 4 count (splice (header + i * 32) segment bytes))"

text \<open>The state of a column, and how many of its values are there.\<close>

definition column_state :: "nat \<Rightarrow> column \<Rightarrow> ink_error + (nat \<times> nat)" where
  "column_state n c =
     (case co_validity c of
        None \<Rightarrow> Inr (0, n)
      | Some bitmap \<Rightarrow>
          guard (length bitmap = div_ceil8 n) (InvalidData ''bitmap length'')
          (guard (tail_clear bitmap n) (InvalidData ''bitmap tail'')
          (guard (valid_count bitmap < n) (InvalidData ''all-valid bitmap must be omitted'')
            (Inr (if valid_count bitmap = 0 then (2, 0) else (1, valid_count bitmap))))))"

definition selected_encoding :: "encoding \<Rightarrow> nat \<Rightarrow> encoding" where
  "selected_encoding encoding valid = (if valid = 0 then RawEncoding else encoding)"

text \<open>The directory entry of a column without its payload, and what it appends.\<close>

definition write_fields :: "nat \<Rightarrow> nat \<Rightarrow> column \<Rightarrow> encoding \<Rightarrow> nat \<Rightarrow> octets \<Rightarrow> octets" where
  "write_fields p n c selected state bytes =
     put_uint (p + 28) 4 (length (co_values c))
       (put_uint (p + 12) 4 n
         (put_uint (p + 10) 2 (state + (if co_required c then 16 else 0))
           (put_uint (p + 6) 2 1
             (put_uint (p + 4) 2 (encoding_id selected)
               (put_uint (p + 3) 1 (dtype_code (co_dtype c))
                 (put_uint (p + 2) 1 (dtype_code (co_dtype c))
                   (put_uint p 2 (co_semantic c) bytes)))))))"

text \<open>An appendix of a row: its offset and its length go to the fields at \<open>at\<close> and \<open>at + 4\<close>.\<close>

definition append_part :: "nat \<Rightarrow> octets \<Rightarrow> octets \<Rightarrow> octets" where
  "append_part at part bytes =
     put_uint (at + 4) 4 (length part) (put_uint at 4 (length bytes) (bytes @ part))"

definition write_row :: "nat \<Rightarrow> nat \<Rightarrow> column \<Rightarrow> encoding \<Rightarrow> nat \<Rightarrow> octets \<Rightarrow> octets" where
  "write_row p n c selected state bytes =
     (let bytes = append_part (p + 32) (encoding_params selected) (write_fields p n c selected state bytes)
      in if state = 1
         then append_part (p + 40) (case co_validity c of Some bitmap \<Rightarrow> bitmap | None \<Rightarrow> []) bytes
         else bytes)"

definition write_column ::
    "codecs \<Rightarrow> nat \<Rightarrow> nat \<Rightarrow> encoding \<Rightarrow> nat \<times> column \<Rightarrow> octets \<times> octets list \<Rightarrow> ink_error + (octets \<times> octets list)" where
  "write_column cx s n encoding = (\<lambda>(i, c) (bytes, payloads).
     let p = header + s * 32 + i * 64 in
     attempt (column_state n c) (\<lambda>(state, valid).
     guard (length (co_values c) = valid * dtype_width (co_dtype c)) (InvalidData ''column length'')
     (let selected = selected_encoding encoding valid in
      attempt (validate_values c) (\<lambda>_.
      attempt (compress cx (co_dtype c) (co_values c) selected) (\<lambda>payload.
      Inr (write_row p n c selected state bytes, payloads @ [payload]))))))"

text \<open>The payload of a column and its four fields; an empty payload leaves them zero.\<close>

definition write_payload :: "codecs \<Rightarrow> nat \<Rightarrow> octets \<Rightarrow> octets \<Rightarrow> octets" where
  "write_payload cx p payload bytes =
     (if payload = [] then bytes
      else put_uint (p + 52) 4 (length payload)
        (put_uint (p + 48) 4 (unat (crc32 cx payload))
          (put_uint (p + 24) 4 (length payload) (put_uint (p + 16) 8 (length bytes) bytes))) @ payload)"

fun write_payloads :: "codecs \<Rightarrow> nat \<Rightarrow> nat \<Rightarrow> octets list \<Rightarrow> octets \<Rightarrow> octets" where
  "write_payloads cx s i [] bytes = bytes"
| "write_payloads cx s i (payload # rest) bytes =
     write_payloads cx s (i + 1) rest (write_payload cx (header + s * 32 + i * 64) payload bytes)"

definition write_tail :: "codecs \<Rightarrow> nat \<Rightarrow> octets \<Rightarrow> octets" where
  "write_tail cx payload_start bytes =
     (let bytes = put_uint 64 8 (length bytes - payload_start) (put_uint 60 4 (payload_start - header) bytes);
          header_crc = crc32 cx (slice 0 72 bytes);
          directory_crc = crc32 cx (slice header (payload_start - header) bytes)
      in put_uint 76 4 (unat directory_crc) (put_uint 72 4 (unat header_crc) bytes))"

definition write_chunk :: "codecs \<Rightarrow> chunk \<Rightarrow> encoding \<Rightarrow> ink_error + octets" where
  "write_chunk cx c encoding =
     guard (fits_chunk (sum_list (map (length \<circ> co_values) (ch_columns c)))) (ResourceLimit ''decoded column bytes'')
     (attempt (chunk_count c) (\<lambda>n.
      let s = length (ch_segments c); k = length (ch_columns c) in
      guard (0 < s \<and> fits_segments s) (InvalidData ''segment limit'')
     (guard (0 < k \<and> k \<le> 64) (InvalidData ''column limit'')
     (let bytes = write_segments 0 (ch_segments c) (write_header c n (replicate (header + s * 32 + k * 64) 0)) in
      attempt (fold_res (write_column cx s n encoding) (zip [0..<k] (ch_columns c)) (bytes, [])) (\<lambda>(bytes, payloads).
      Inr (write_tail cx (length bytes) (write_payloads cx s 0 payloads bytes)))))))"

text \<open>\<open>Chunk::encode\<close>: what was written must also be readable.\<close>

definition encode_chunk :: "codecs \<Rightarrow> chunk \<Rightarrow> encoding \<Rightarrow> ink_error + octets" where
  "encode_chunk cx c encoding =
     attempt (write_chunk cx c encoding) (\<lambda>bytes.
     attempt (decode_chunk cx bytes) (\<lambda>_. Inr bytes))"

end
