(* ===== verification/InkWriter.thy ===== *)
theory InkWriter
  imports InkChunk
begin

text \<open>
  What the chunk writer leaves in its buffer: fields of a buffer and the writes that do not touch
  them, then row by row and table by table where each part of a chunk is afterwards.
\<close>

section \<open>Little-endian fields of a buffer\<close>

lemma length_le_bytes [simp]: "length (le_bytes n v) = n"
  by (simp add: le_bytes_def)

lemma le_bytes_Suc: "le_bytes (Suc n) v = of_nat v # le_bytes n (v div 256)"
proof -
  have "le_bytes (Suc n) v = of_nat (v div 256 ^ 0) # map (\<lambda>i. of_nat (v div 256 ^ Suc i)) [0..<n]"
    unfolding le_bytes_def by (simp only: upt_conv_Cons [OF zero_less_Suc] list.map map_Suc_upt [symmetric] list.map_comp comp_def)
  then show ?thesis by (simp add: le_bytes_def div_mult2_eq)
qed

lemma le_value_Cons [simp]: "le_value (b # bs) = unat b + 256 * le_value bs"
  by (simp add: le_value_def)

lemma le_value_Nil [simp]: "le_value [] = 0"
  by (simp add: le_value_def)

lemma le_value_bytes: "v < 256 ^ n \<Longrightarrow> le_value (le_bytes n v) = v"
proof (induction n arbitrary: v)
  case 0
  then show ?case by (simp add: le_bytes_def)
next
  case (Suc n)
  have "v div 256 < 256 ^ n" using Suc.prems by (simp add: less_mult_imp_div_less mult.commute)
  then have "le_value (le_bytes n (v div 256)) = v div 256" by (rule Suc.IH)
  moreover have "unat (of_nat v :: 8 word) = v mod 256" by (simp add: unsigned_of_nat take_bit_eq_mod)
  ultimately show ?case by (simp add: le_bytes_Suc)
qed

lemma le_bytes_value: "le_bytes (length bs) (le_value bs) = bs"
proof (induction bs)
  case (Cons b bs)
  have "unat b < 256" using unsigned_less [of b] by simp
  then have "(unat b + 256 * le_value bs) div 256 = le_value bs" by simp
  moreover have "unat (of_nat (unat b + 256 * le_value bs) :: 8 word) = unat b"
    using \<open>unat b < 256\<close> by (simp only: unsigned_of_nat take_bit_eq_mod) simp
  then have "(of_nat (unat b + 256 * le_value bs) :: 8 word) = b" by (rule unsigned_word_eqI)
  ultimately show ?case using Cons by (simp only: list.size le_value_Cons le_bytes_Suc add_Suc_right add_0_right)
qed (simp add: le_bytes_def)

lemma le_bytes_zero: "le_bytes n 0 = replicate n 0"
  by (simp add: le_bytes_def map_replicate_const)

lemma length_slice: "at + n \<le> length b \<Longrightarrow> length (slice at n b) = n"
  by (simp add: slice_def)

lemma length_put [simp]: "at + n \<le> length b \<Longrightarrow> length (put_uint at n v b) = length b"
  by (simp add: put_uint_def splice_def)

lemma length_splice: "at + length xs \<le> length b \<Longrightarrow> length (splice at xs b) = length b"
  by (simp add: splice_def)

lemma slice_splice_same: "at + length xs \<le> length b \<Longrightarrow> slice at (length xs) (splice at xs b) = xs"
  by (simp add: slice_def splice_def)

lemma slice_splice_other:
  assumes "at + length xs \<le> length b" and "q + m \<le> at \<or> at + length xs \<le> q"
  shows "slice q m (splice at xs b) = slice q m b"
  using assms(2)
proof
  assume *: "q + m \<le> at"
  then have "slice q m (splice at xs b) = take m (drop q (take at b))"
    using assms(1) by (simp add: slice_def splice_def)
  also have "\<dots> = slice q m b" using * by (simp add: slice_def drop_take min_def)
  finally show ?thesis .
next
  assume *: "at + length xs \<le> q"
  then have "drop q (splice at xs b) = drop (q - at - length xs) (drop (at + length xs) b)"
    using assms(1) by (simp add: splice_def)
  also have "\<dots> = drop q b" using * by simp
  finally show ?thesis by (simp add: slice_def)
qed

lemma slice_put_same: "at + n \<le> length b \<Longrightarrow> slice at n (put_uint at n v b) = le_bytes n v"
  using slice_splice_same [of at "le_bytes n v" b] by (simp add: put_uint_def)

lemma slice_put_other:
  "at + n \<le> length b \<Longrightarrow> q + m \<le> at \<or> at + n \<le> q \<Longrightarrow> slice q m (put_uint at n v b) = slice q m b"
  by (simp add: put_uint_def slice_splice_other)

lemma slice_append_left: "q + m \<le> length b \<Longrightarrow> slice q m (b @ x) = slice q m b"
  by (simp add: slice_def)

lemma slice_append_right: "slice (length b) (length x) (b @ x) = x"
  by (simp add: slice_def)

lemma read_uint_field: "at + n \<le> length b \<Longrightarrow> slice at n b = le_bytes n v \<Longrightarrow> v < 256 ^ n \<Longrightarrow> read_uint b at n = Inr v"
  by (simp add: read_uint_def le_value_bytes)

lemma read_uint_Inr: "read_uint b at n = Inr v \<longleftrightarrow> at + n \<le> length b \<and> v = le_value (slice at n b)"
  by (auto simp: read_uint_def res)

lemma nth_slice: "at < length b \<Longrightarrow> slice at 1 b = [b ! at]"
  by (simp add: slice_def take_Suc hd_drop_conv_nth)

lemma le_bytes_1: "v < 256 \<Longrightarrow> le_bytes 1 v = [of_nat v]"
  by (simp add: le_bytes_def)

text \<open>Writes inside one stretch of a buffer, and additions at its end.\<close>

definition frame :: "nat \<Rightarrow> nat \<Rightarrow> octets \<Rightarrow> octets \<Rightarrow> bool" where
  "frame lo hi b b' \<longleftrightarrow> length b \<le> length b' \<and>
     (\<forall>q m. q + m \<le> length b \<longrightarrow> q + m \<le> lo \<or> hi \<le> q \<longrightarrow> slice q m b' = slice q m b)"

lemma frame_refl: "frame lo hi b b"
  by (simp add: frame_def)

lemma frame_put: "frame lo hi b b' \<Longrightarrow> lo \<le> at \<Longrightarrow> at + n \<le> hi \<Longrightarrow> hi \<le> length b' \<Longrightarrow> frame lo hi b (put_uint at n v b')"
  by (auto simp: frame_def slice_put_other)

lemma frame_append: "frame lo hi b b' \<Longrightarrow> frame lo hi b (b' @ x)"
  by (auto simp: frame_def slice_append_left)

lemma frame_trans: "frame lo hi a b \<Longrightarrow> frame lo hi b c \<Longrightarrow> frame lo hi a c"
  unfolding frame_def by (metis order.trans)

lemma frame_widen: "frame lo hi a b \<Longrightarrow> lo' \<le> lo \<Longrightarrow> hi \<le> hi' \<Longrightarrow> frame lo' hi' a b"
  unfolding frame_def by (metis order.trans)

lemma frame_slice: "frame lo hi a b \<Longrightarrow> q + m \<le> length a \<Longrightarrow> q + m \<le> lo \<or> hi \<le> q \<Longrightarrow> slice q m b = slice q m a"
  by (auto simp: frame_def)

lemma frame_length: "frame lo hi a b \<Longrightarrow> length a \<le> length b"
  by (simp add: frame_def)

section \<open>One row of the column table\<close>

text \<open>What \<open>write_row\<close> leaves at its row: the fields, then where the parameters and the bitmap are.\<close>

definition pointed :: "nat \<Rightarrow> nat \<Rightarrow> nat \<Rightarrow> octets \<Rightarrow> octets \<Rightarrow> bool" where
  "pointed base at w part b \<longleftrightarrow>
     (\<exists>offset. base \<le> offset \<and> offset + length part \<le> length b \<and> slice at w b = le_bytes w offset \<and>
        slice offset (length part) b = part)"

definition row_written :: "nat \<Rightarrow> nat \<Rightarrow> nat \<Rightarrow> column \<Rightarrow> encoding \<Rightarrow> nat \<Rightarrow> octets \<Rightarrow> bool" where
  "row_written base p n c selected state b \<longleftrightarrow>
     p + 64 \<le> length b \<and>
     slice p 2 b = le_bytes 2 (co_semantic c) \<and>
     slice (p + 2) 1 b = le_bytes 1 (dtype_code (co_dtype c)) \<and>
     slice (p + 4) 2 b = le_bytes 2 (encoding_id selected) \<and>
     slice (p + 10) 2 b = le_bytes 2 (state + (if co_required c then 16 else 0)) \<and>
     slice (p + 36) 4 b = le_bytes 4 (length (encoding_params selected)) \<and>
     pointed base (p + 32) 4 (encoding_params selected) b \<and>
     (if state = 1
      then slice (p + 44) 4 b = le_bytes 4 (length (the (co_validity c))) \<and>
        pointed base (p + 40) 4 (the (co_validity c)) b
      else slice (p + 44) 4 b = le_bytes 4 0)"

definition blank_row :: "nat \<Rightarrow> octets \<Rightarrow> bool" where
  "blank_row p b \<longleftrightarrow> slice p 64 b = replicate 64 0"

lemma slice_slice: "k + m \<le> n \<Longrightarrow> slice (p + k) m b = slice k m (slice p n b)"
  by (simp add: slice_def drop_take min_def add.commute)

lemma slice_replicate: "k + m \<le> n \<Longrightarrow> slice k m (replicate n x) = replicate m x"
  by (simp add: slice_def)

lemma blank_field: "blank_row p b \<Longrightarrow> k + m \<le> 64 \<Longrightarrow> slice (p + k) m b = le_bytes m 0"
  using slice_slice [of k m 64 p b] by (simp add: blank_row_def slice_replicate le_bytes_zero)

lemmas buffer_simps = slice_put_same slice_put_other slice_append_left slice_append_right

lemma write_fields_length [simp]: "p + 64 \<le> length b \<Longrightarrow> length (write_fields p n c selected state b) = length b"
  by (simp add: write_fields_def)

lemma write_fields_frame:
  "p + 64 \<le> length b \<Longrightarrow> frame p (p + 64) b (write_fields p n c selected state b)"
  unfolding write_fields_def by (intro frame_put frame_refl) simp_all

lemma write_fields_fields:
  assumes "p + 64 \<le> length b"
  shows "slice p 2 (write_fields p n c selected state b) = le_bytes 2 (co_semantic c)"
    "slice (p + 2) 1 (write_fields p n c selected state b) = le_bytes 1 (dtype_code (co_dtype c))"
    "slice (p + 4) 2 (write_fields p n c selected state b) = le_bytes 2 (encoding_id selected)"
    "slice (p + 10) 2 (write_fields p n c selected state b) = le_bytes 2 (state + (if co_required c then 16 else 0))"
    "30 < k \<Longrightarrow> k + m \<le> 64 \<Longrightarrow> slice (p + (1 + k)) m (write_fields p n c selected state b) = slice (p + (1 + k)) m b"
  using assms unfolding write_fields_def by (simp_all add: buffer_simps)

lemma append_part_length [simp]: "at + 8 \<le> length b \<Longrightarrow> length (append_part at part b) = length b + length part"
  by (simp add: append_part_def)

lemma append_part_frame: "at + 8 \<le> length b \<Longrightarrow> frame at (at + 8) b (append_part at part b)"
  unfolding append_part_def by (intro frame_put frame_append frame_refl) simp_all

lemma append_part_fields:
  assumes "at + 8 \<le> length b"
  shows "slice at 4 (append_part at part b) = le_bytes 4 (length b)"
    "slice (at + 4) 4 (append_part at part b) = le_bytes 4 (length part)"
    "slice (length b) (length part) (append_part at part b) = part"
  using assms unfolding append_part_def by (simp_all add: buffer_simps)

lemma write_row_frame:
  assumes "p + 64 \<le> length b"
  shows "frame p (p + 64) b (write_row p n c selected state b)"
proof -
  let ?b = "append_part (p + 32) (encoding_params selected) (write_fields p n c selected state b)"
  have 1: "frame p (p + 64) b ?b"
    using assms by (intro frame_trans [OF write_fields_frame frame_widen [OF append_part_frame]]) simp_all
  moreover have "frame p (p + 64) ?b (append_part (p + 40) part ?b)" for part
    using assms by (intro frame_widen [OF append_part_frame]) simp_all
  ultimately show ?thesis by (auto simp: write_row_def Let_def intro: frame_trans)
qed

lemma write_row_written:
  assumes "p + 64 \<le> length b" and "blank_row p b" and "state = 1 \<longrightarrow> co_validity c \<noteq> None" and "base \<le> length b"
  shows "row_written base p n c selected state (write_row p n c selected state b)"
proof -
  let ?f = "write_fields p n c selected state b"
  let ?b = "append_part (p + 32) (encoding_params selected) ?f"
  let ?r = "write_row p n c selected state b"
  have fb: "frame (p + 32) (p + 40) ?f ?b"
    using append_part_frame [of "p + 32" ?f "encoding_params selected"] assms(1) by (simp add: add.commute)
  have len: "length ?b = length b + length (encoding_params selected)" using assms(1) by simp
  have rb: "frame (p + 40) (p + 48) ?b (append_part (p + 40) part ?b)" for part
    using append_part_frame [of "p + 40" ?b part] assms(1) len by (simp add: add.commute)
  have r: "?r = (if state = 1 then append_part (p + 40) (the (co_validity c)) ?b else ?b)"
    using assms(3) by (auto simp: write_row_def Let_def split: option.splits)
  have rs: "slice q m ?r = slice q m ?b" if "q + m \<le> length ?b" "q + m \<le> p + 40 \<or> p + 48 \<le> q" for q m
  proof (cases "state = 1")
    case True
    then have "?r = append_part (p + 40) (the (co_validity c)) ?b" using r True by simp
    with frame_slice [OF rb that] show ?thesis by (simp only:)
  qed (simp only: r if_False)
  have lr: "length ?b \<le> length ?r"
  proof (cases "state = 1")
    case True
    then have "?r = append_part (p + 40) (the (co_validity c)) ?b" using r True by simp
    with frame_length [OF rb] show ?thesis by (simp only:)
  qed (simp only: r if_False order_refl)
  have early: "slice q m ?r = slice q m ?f" if "q + m \<le> p + 32" for q m
    using rs [of q m] frame_slice [OF fb, of q m] that assms(1) len by simp
  note f = write_fields_fields [OF assms(1), where n = n and c = c and selected = selected and state = state]
  note a = append_part_fields [of "p + 32" ?f "encoding_params selected"]
  have p1: "slice (p + 32) 4 ?r = le_bytes 4 (length b)" "slice (p + 36) 4 ?r = le_bytes 4 (length (encoding_params selected))"
    "slice (length b) (length (encoding_params selected)) ?r = encoding_params selected"
    using rs [of "p + 32" 4] rs [of "p + 36" 4] rs [of "length b" "length (encoding_params selected)"] a assms(1) len
    by (simp_all add: add.commute)
  have q0: "slice (p + 44) 4 ?r = le_bytes 4 0" if "state \<noteq> 1"
    using frame_slice [OF fb, of "p + 44" 4] f(5) [where k = 43 and m = 4] blank_field [OF assms(2), of 44 4] assms(1) that r by simp
  have q1: "slice (p + 40) 4 ?r = le_bytes 4 (length ?b)" "slice (p + 44) 4 ?r = le_bytes 4 (length (the (co_validity c)))"
    "slice (length ?b) (length (the (co_validity c))) ?r = the (co_validity c)"
    "length ?b + length (the (co_validity c)) \<le> length ?r" if "state = 1"
    using append_part_fields [of "p + 40" ?b "the (co_validity c)"] that r assms(1) len by (simp_all add: add.commute)
  have f4: "slice p 2 ?r = le_bytes 2 (co_semantic c)" "slice (p + 2) 1 ?r = le_bytes 1 (dtype_code (co_dtype c))"
    "slice (p + 4) 2 ?r = le_bytes 2 (encoding_id selected)"
    "slice (p + 10) 2 ?r = le_bytes 2 (state + (if co_required c then 16 else 0))"
    using f(1-4) by (simp_all add: early)
  have bounds: "p + 64 \<le> length ?r" "length b + length (encoding_params selected) \<le> length ?r"
    "base \<le> length b" "base \<le> length ?b"
    using lr len assms(1,4) by simp_all
  have "pointed base (p + 32) 4 (encoding_params selected) ?r"
    unfolding pointed_def using p1 bounds by (intro exI [of _ "length b"]) simp
  moreover have "pointed base (p + 40) 4 (the (co_validity c)) ?r" if "state = 1"
    unfolding pointed_def using q1 [OF that] bounds by (intro exI [of _ "length ?b"]) simp
  ultimately show ?thesis
    unfolding row_written_def using f4 p1(2) q0 q1(2) bounds by simp
qed

lemma frame_field:
  "frame lo hi b b' \<Longrightarrow> slice q m b = x \<Longrightarrow> q + m \<le> length b \<Longrightarrow> q + m \<le> lo \<or> hi \<le> q \<Longrightarrow> slice q m b' = x"
  by (simp add: frame_slice)

lemma pointed_frame:
  assumes "pointed base at w part b" and "frame lo hi b b'" and "hi \<le> base" and "slice at w b' = slice at w b"
  shows "pointed base at w part b'"
proof -
  obtain offset where o: "base \<le> offset" "offset + length part \<le> length b" "slice at w b = le_bytes w offset"
    "slice offset (length part) b = part"
    using assms(1) unfolding pointed_def by blast
  have "slice offset (length part) b' = part"
    using frame_slice [OF assms(2) o(2)] o(1,4) assms(3) by simp
  then show ?thesis
    unfolding pointed_def using o assms(4) frame_length [OF assms(2)] by (intro exI [of _ offset]) simp
qed

lemma row_written_frame:
  assumes "row_written base p n c selected state b" and "frame lo hi b b'" and "hi \<le> base"
    and "(p + 16 \<le> lo \<and> hi \<le> p + 32) \<or> (p + 48 \<le> lo \<and> hi \<le> p + 64) \<or> p + 64 \<le> lo \<or> hi \<le> p"
  shows "row_written base p n c selected state b'"
proof -
  note w = assms(1) [unfolded row_written_def]
  have len: "p + 64 \<le> length b" "length b \<le> length b'" using w frame_length [OF assms(2)] by simp_all
  have f: "slice (p + k) m b' = slice (p + k) m b" if "k + m \<le> 16 \<or> 32 \<le> k \<and> k + m \<le> 48" for k m
    using assms(4) len that by (intro frame_slice [OF assms(2)]) auto
  have "pointed base (p + 32) 4 (encoding_params selected) b'"
    using w f [of 32 4] by (intro pointed_frame [OF _ assms(2,3)]) simp_all
  moreover have "pointed base (p + 40) 4 (the (co_validity c)) b'" if "state = 1"
    using w f [of 40 4] that by (intro pointed_frame [OF _ assms(2,3)]) simp_all
  ultimately show ?thesis
    unfolding row_written_def using w f [of 0 2] f [of 2 1] f [of 4 2] f [of 10 2] f [of 36 4] f [of 44 4] len
    by (simp split: if_splits)
qed

section \<open>The payload fields\<close>

definition payload_blank :: "nat \<Rightarrow> octets \<Rightarrow> bool" where
  "payload_blank p b \<longleftrightarrow> p + 64 \<le> length b \<and> slice (p + 16) 8 b = le_bytes 8 0 \<and> slice (p + 24) 4 b = le_bytes 4 0"

definition payload_written :: "nat \<Rightarrow> nat \<Rightarrow> octets \<Rightarrow> octets \<Rightarrow> bool" where
  "payload_written base p payload b \<longleftrightarrow>
     p + 64 \<le> length b \<and> slice (p + 24) 4 b = le_bytes 4 (length payload) \<and>
     (if payload = [] then slice (p + 16) 8 b = le_bytes 8 0 else pointed base (p + 16) 8 payload b)"

lemma payload_blank_frame:
  assumes "payload_blank p b" and "frame lo hi b b'" and "p + 64 \<le> lo \<or> hi \<le> p"
  shows "payload_blank p b'"
  using assms frame_slice [OF assms(2), of "p + 16" 8] frame_slice [OF assms(2), of "p + 24" 4] frame_length [OF assms(2)]
  by (auto simp: payload_blank_def)

lemma payload_written_frame:
  assumes "payload_written base p payload b" and "frame lo hi b b'" and "p + 64 \<le> lo \<or> hi \<le> p" and "hi \<le> base"
  shows "payload_written base p payload b'"
proof -
  have f: "slice (p + 16) 8 b' = slice (p + 16) 8 b" "slice (p + 24) 4 b' = slice (p + 24) 4 b"
    using assms(1,3) by (intro frame_slice [OF assms(2)]; auto simp: payload_written_def)+
  moreover have "pointed base (p + 16) 8 payload b'" if "payload \<noteq> []"
    using assms(1) that f(1) by (intro pointed_frame [OF _ assms(2,4)]) (simp_all add: payload_written_def)
  ultimately show ?thesis
    using assms(1) frame_length [OF assms(2)] by (simp add: payload_written_def)
qed

lemma write_row_payload_blank:
  assumes "p + 64 \<le> length b" and "blank_row p b"
  shows "payload_blank p (write_row p n c selected state b)"
proof -
  let ?f = "write_fields p n c selected state b"
  let ?b = "append_part (p + 32) (encoding_params selected) ?f"
  have f: "slice (p + 16) 8 ?f = slice (p + 16) 8 b" "slice (p + 24) 4 ?f = slice (p + 24) 4 b"
    using assms(1) unfolding write_fields_def by (simp_all add: buffer_simps)
  have fb: "frame (p + 32) (p + 40) ?f ?b"
    using append_part_frame [of "p + 32" ?f "encoding_params selected"] assms(1) by (simp add: add.commute)
  have rb: "frame (p + 40) (p + 48) ?b (append_part (p + 40) part ?b)" for part
    using append_part_frame [of "p + 40" ?b part] assms(1) by (simp add: add.commute)
  have "frame (p + 32) (p + 48) ?f (write_row p n c selected state b)"
    using frame_widen [OF fb, of "p + 32" "p + 48"] frame_widen [OF rb, of "p + 32" "p + 48"]
    by (auto simp: write_row_def Let_def intro: frame_trans)
  then show ?thesis
    using frame_slice [of "p + 32" "p + 48" ?f _ "p + 16" 8] frame_slice [of "p + 32" "p + 48" ?f _ "p + 24" 4]
      blank_field [OF assms(2), of 16 8] blank_field [OF assms(2), of 24 4] f assms(1)
      frame_length [of "p + 32" "p + 48" ?f "write_row p n c selected state b"]
    by (simp add: payload_blank_def)
qed

lemma write_payload_frame:
  assumes "p + 64 \<le> length b"
  shows "frame p (p + 64) b (write_payload cx p payload b)"
  unfolding write_payload_def
  by (rule if_split [THEN iffD2], intro conjI impI frame_refl frame_append frame_put) (use assms in simp_all)

lemma write_payload_rows:
  assumes "p + 64 \<le> length b" and "row_written base p n c selected state b" and "p + 64 \<le> base"
  shows "row_written base p n c selected state (write_payload cx p payload b)"
proof (cases "payload = []")
  case False
  let ?b = "put_uint (p + 24) 4 (length payload) (put_uint (p + 16) 8 (length b) b)"
  have 1: "frame (p + 16) (p + 32) b ?b" using assms(1) by (intro frame_put frame_refl) simp_all
  have 2: "frame (p + 48) (p + 64) ?b (write_payload cx p payload b)"
    unfolding write_payload_def using assms(1) False by (simp only: if_False, intro frame_append frame_put frame_refl) simp_all
  have "row_written base p n c selected state ?b" by (rule row_written_frame [OF assms(2) 1]) (use assms(3) in simp_all)
  then show ?thesis by (rule row_written_frame [OF _ 2]) (use assms(3) in simp_all)
qed (use assms in \<open>simp add: write_payload_def\<close>)

lemma write_payload_written:
  assumes "payload_blank p b" and "base \<le> length b"
  shows "payload_written base p payload (write_payload cx p payload b)"
proof (cases "payload = []")
  case False
  let ?b = "put_uint (p + 52) 4 (length payload) (put_uint (p + 48) 4 (unat (crc32 cx payload))
      (put_uint (p + 24) 4 (length payload) (put_uint (p + 16) 8 (length b) b)))"
  have len: "p + 64 \<le> length b" using assms(1) by (simp add: payload_blank_def)
  then have "slice (p + 24) 4 (?b @ payload) = le_bytes 4 (length payload)"
    "slice (p + 16) 8 (?b @ payload) = le_bytes 8 (length b)" "length ?b = length b"
    by (simp_all add: buffer_simps)
  moreover from this(3) have "slice (length b) (length payload) (?b @ payload) = payload"
    using slice_append_right [of ?b payload] by simp
  ultimately have "pointed base (p + 16) 8 payload (?b @ payload)"
    unfolding pointed_def using assms(2) by (intro exI [of _ "length b"]) simp
  then show ?thesis
    using False len \<open>slice (p + 24) 4 (?b @ payload) = _\<close> \<open>length ?b = length b\<close>
    by (simp add: payload_written_def write_payload_def)
qed (use assms in \<open>auto simp: write_payload_def payload_written_def payload_blank_def\<close>)

section \<open>The tables\<close>

definition row_at :: "nat \<Rightarrow> nat \<Rightarrow> nat" where
  "row_at s i = header + s * 32 + i * 64"

lemma row_at_Suc: "row_at s (Suc i) = row_at s i + 64"
  by (simp add: row_at_def)

lemma row_at_le: "i \<le> j \<Longrightarrow> row_at s i \<le> row_at s j"
  by (simp add: row_at_def)

definition column_written :: "codecs \<Rightarrow> nat \<Rightarrow> nat \<Rightarrow> nat \<Rightarrow> encoding \<Rightarrow> column \<Rightarrow> octets \<Rightarrow> octets \<Rightarrow> bool" where
  "column_written cx base p n encoding c payload b \<longleftrightarrow>
     (\<exists>state valid. column_state n c = Inr (state, valid) \<and> length (co_values c) = valid * dtype_width (co_dtype c) \<and>
        compress cx (co_dtype c) (co_values c) (selected_encoding encoding valid) = Inr payload \<and>
        row_written base p n c (selected_encoding encoding valid) state b)"

lemma column_state_validity: "column_state n c = Inr (state, valid) \<Longrightarrow> state = 1 \<Longrightarrow> co_validity c \<noteq> None"
  by (auto simp: column_state_def res split: option.splits)

lemma column_written_frame:
  assumes "column_written cx base p n encoding c payload b" and "frame lo hi b b'" and "hi \<le> base"
    and "p + 64 \<le> lo \<or> hi \<le> p"
  shows "column_written cx base p n encoding c payload b'"
proof -
  obtain state valid where "column_state n c = Inr (state, valid)" "length (co_values c) = valid * dtype_width (co_dtype c)"
    "compress cx (co_dtype c) (co_values c) (selected_encoding encoding valid) = Inr payload"
    "row_written base p n c (selected_encoding encoding valid) state b"
    using assms(1) unfolding column_written_def by blast
  moreover from this(4) have "row_written base p n c (selected_encoding encoding valid) state b'"
    by (rule row_written_frame [OF _ assms(2,3)]) (use assms(4) in blast)
  ultimately show ?thesis unfolding column_written_def by blast
qed

lemma write_column_step:
  assumes "write_column cx s n encoding (i, c) (b, payloads) = Inr (b', payloads')"
    and "row_at s i + 64 \<le> length b" and "blank_row (row_at s i) b" and "base \<le> length b"
  shows "\<exists>payload. payloads' = payloads @ [payload] \<and> column_written cx base (row_at s i) n encoding c payload b' \<and>
    payload_blank (row_at s i) b' \<and> frame (row_at s i) (row_at s i + 64) b b'"
proof -
  obtain state valid payload where c: "column_state n c = Inr (state, valid)"
    "length (co_values c) = valid * dtype_width (co_dtype c)"
    "compress cx (co_dtype c) (co_values c) (selected_encoding encoding valid) = Inr payload"
    "b' = write_row (row_at s i) n c (selected_encoding encoding valid) state b" "payloads' = payloads @ [payload]"
    using assms(1) by (auto simp: write_column_def Let_def res row_at_def)
  have "row_written base (row_at s i) n c (selected_encoding encoding valid) state b'"
    unfolding c(4) using column_state_validity [OF c(1)] assms(2-4) by (intro write_row_written) auto
  then have "column_written cx base (row_at s i) n encoding c payload b'"
    unfolding column_written_def using c(1-3) by blast
  then show ?thesis
    using write_row_payload_blank [OF assms(2,3)] write_row_frame [OF assms(2)] c(4,5) by blast
qed

lemma blank_row_frame: "blank_row p b \<Longrightarrow> frame lo hi b b' \<Longrightarrow> p + 64 \<le> length b \<Longrightarrow> hi \<le> p \<Longrightarrow> blank_row p b'"
  using frame_slice [of lo hi b b' p 64] by (simp add: blank_row_def)

lemma write_columns:
  assumes "fold_res (write_column cx s n encoding) (zip [i..<i + length cols] cols) (b, payloads) = Inr (b', payloads')"
    and "row_at s (i + length cols) \<le> base" and "base \<le> length b"
    and "\<forall>j < length cols. blank_row (row_at s (i + j)) b"
  shows "frame (row_at s i) (row_at s (i + length cols)) b b' \<and>
    (\<exists>new. payloads' = payloads @ new \<and> length new = length cols \<and>
      (\<forall>j < length cols. column_written cx base (row_at s (i + j)) n encoding (cols ! j) (new ! j) b' \<and>
         payload_blank (row_at s (i + j)) b'))"
  using assms
proof (induction cols arbitrary: i b payloads)
  case Nil
  then show ?case by (simp add: frame_refl)
next
  case (Cons c cols)
  have zip: "zip [i..<i + length (c # cols)] (c # cols) = (i, c) # zip [Suc i..<Suc i + length cols] cols"
    by (simp add: upt_conv_Cons del: upt_Suc)
  obtain b1 payloads1 where s1: "write_column cx s n encoding (i, c) (b, payloads) = Inr (b1, payloads1)"
    and s2: "fold_res (write_column cx s n encoding) (zip [Suc i..<Suc i + length cols] cols) (b1, payloads1) = Inr (b', payloads')"
    using Cons.prems(1) unfolding zip by (auto simp: res)
  have here: "row_at s i + 64 \<le> base"
    using Cons.prems(2) row_at_le [of "Suc i" "i + length (c # cols)" s] by (simp add: row_at_Suc)
  have blank: "blank_row (row_at s i) b" using Cons.prems(4) by (metis add.right_neutral length_Cons zero_less_Suc)
  obtain payload where p: "payloads1 = payloads @ [payload]" "column_written cx base (row_at s i) n encoding c payload b1"
    "payload_blank (row_at s i) b1" "frame (row_at s i) (row_at s i + 64) b b1"
    using write_column_step [OF s1 _ blank Cons.prems(3)] here Cons.prems(3) by auto
  have len: "length b \<le> length b1" by (rule frame_length [OF p(4)])
  have rest: "\<forall>j < length cols. blank_row (row_at s (Suc i + j)) b1"
  proof (intro allI impI)
    fix j assume j: "j < length cols"
    then have "blank_row (row_at s (i + Suc j)) b" using Cons.prems(4) [rule_format, of "Suc j"] by simp
    moreover have "row_at s (i + Suc j) + 64 \<le> length b"
      using row_at_le [of "Suc (i + Suc j)" "i + length (c # cols)" s] j Cons.prems(2,3) by (simp add: row_at_Suc)
    moreover have "row_at s i + 64 \<le> row_at s (i + Suc j)" using row_at_le [of "Suc i" "i + Suc j" s] by (simp add: row_at_Suc)
    ultimately have "blank_row (row_at s (i + Suc j)) b1" by (intro blank_row_frame [OF _ p(4)])
    then show "blank_row (row_at s (Suc i + j)) b1" by simp
  qed
  have base2: "row_at s (Suc i + length cols) \<le> base" "base \<le> length b1" using Cons.prems(2,3) len by simp_all
  obtain new where ih: "frame (row_at s (Suc i)) (row_at s (Suc i + length cols)) b1 b'" "payloads' = payloads1 @ new"
    "length new = length cols"
    "\<forall>j < length cols. column_written cx base (row_at s (Suc i + j)) n encoding (cols ! j) (new ! j) b' \<and>
       payload_blank (row_at s (Suc i + j)) b'"
    using Cons.IH [OF s2 base2 rest] by blast
  have all: "frame (row_at s i) (row_at s (i + length (c # cols))) b b'"
  proof (rule frame_trans)
    show "frame (row_at s i) (row_at s (i + length (c # cols))) b b1"
      using p(4) row_at_le [of "Suc i" "i + length (c # cols)" s] by (elim frame_widen) (simp_all add: row_at_Suc)
    show "frame (row_at s i) (row_at s (i + length (c # cols))) b1 b'"
      using ih(1) row_at_le [of i "Suc i" s] by (elim frame_widen) simp_all
  qed
  have first: "column_written cx base (row_at s i) n encoding c payload b'" "payload_blank (row_at s i) b'"
    using column_written_frame [OF p(2) ih(1) base2(1)] payload_blank_frame [OF p(3) ih(1)]
    by (simp_all add: row_at_Suc)
  have "column_written cx base (row_at s (i + j)) n encoding ((c # cols) ! j) ((payload # new) ! j) b' \<and>
      payload_blank (row_at s (i + j)) b'" if "j < length (c # cols)" for j
  proof (cases j)
    case 0
    then show ?thesis using first by simp
  next
    case (Suc k)
    then show ?thesis using ih(4) that by simp
  qed
  then show ?case using all p(1) ih(2,3) by (intro conjI exI [of _ "payload # new"]) simp_all
qed

lemma write_payloads:
  assumes "row_at s (i + length payloads) \<le> base" and "base \<le> length b"
    and "\<forall>j < length payloads. payload_blank (row_at s (i + j)) b"
  shows "frame (row_at s i) (row_at s (i + length payloads)) b (write_payloads cx s i payloads b) \<and>
    (\<forall>j < length payloads. payload_written base (row_at s (i + j)) (payloads ! j) (write_payloads cx s i payloads b)) \<and>
    (\<forall>j n encoding c payload. j < i + length payloads \<longrightarrow> column_written cx base (row_at s j) n encoding c payload b \<longrightarrow>
       column_written cx base (row_at s j) n encoding c payload (write_payloads cx s i payloads b))"
  using assms
proof (induction payloads arbitrary: i b)
  case Nil
  then show ?case by (simp add: frame_refl)
next
  case (Cons payload payloads)
  let ?b1 = "write_payload cx (row_at s i) payload b"
  have here: "row_at s i + 64 \<le> base"
    using Cons.prems(1) row_at_le [of "Suc i" "i + length (payload # payloads)" s] by (simp add: row_at_Suc)
  then have fits: "row_at s i + 64 \<le> length b" using Cons.prems(2) by simp
  have f1: "frame (row_at s i) (row_at s i + 64) b ?b1" by (rule write_payload_frame) (rule fits)
  have len: "length b \<le> length ?b1" by (rule frame_length [OF f1])
  have w1: "payload_written base (row_at s i) payload ?b1"
    using Cons.prems(2,3) by (intro write_payload_written) (metis add.right_neutral length_Cons zero_less_Suc)
  have rest: "\<forall>j < length payloads. payload_blank (row_at s (Suc i + j)) ?b1"
  proof (intro allI impI)
    fix j assume "j < length payloads"
    then have "payload_blank (row_at s (i + Suc j)) b" using Cons.prems(3) [rule_format, of "Suc j"] by simp
    moreover have "row_at s i + 64 \<le> row_at s (i + Suc j)" using row_at_le [of "Suc i" "i + Suc j" s] by (simp add: row_at_Suc)
    ultimately have "payload_blank (row_at s (i + Suc j)) ?b1" by (intro payload_blank_frame [OF _ f1]) simp_all
    then show "payload_blank (row_at s (Suc i + j)) ?b1" by simp
  qed
  have eq: "write_payloads cx s i (payload # payloads) b = write_payloads cx s (Suc i) payloads ?b1"
    by (simp add: row_at_def)
  have base2: "row_at s (Suc i + length payloads) \<le> base" "base \<le> length ?b1" using Cons.prems(1,2) len by simp_all
  note ih = Cons.IH [OF base2 rest]
  note f2 = ih [THEN conjunct1]
  have all: "frame (row_at s i) (row_at s (i + length (payload # payloads))) b (write_payloads cx s i (payload # payloads) b)"
    unfolding eq
  proof (rule frame_trans)
    show "frame (row_at s i) (row_at s (i + length (payload # payloads))) b ?b1"
      using f1 row_at_le [of "Suc i" "i + length (payload # payloads)" s] by (elim frame_widen) (simp_all add: row_at_Suc)
    show "frame (row_at s i) (row_at s (i + length (payload # payloads))) ?b1 (write_payloads cx s (Suc i) payloads ?b1)"
      using f2 row_at_le [of i "Suc i" s] by (elim frame_widen) simp_all
  qed
  have first: "payload_written base (row_at s i) payload (write_payloads cx s (Suc i) payloads ?b1)"
    using base2(1) by (intro payload_written_frame [OF w1 f2]) (simp_all add: row_at_Suc)
  have pays: "payload_written base (row_at s (i + j)) ((payload # payloads) ! j) (write_payloads cx s i (payload # payloads) b)"
    if "j < length (payload # payloads)" for j
  proof (cases j)
    case 0
    then show ?thesis using first eq by simp
  next
    case (Suc k)
    then show ?thesis using ih that eq by simp
  qed
  have cols: "column_written cx base (row_at s j) n encoding c part (write_payloads cx s i (payload # payloads) b)"
    if j: "j < i + length (payload # payloads)" and w: "column_written cx base (row_at s j) n encoding c part b" for j n encoding c part
  proof -
    have "column_written cx base (row_at s j) n encoding c part ?b1"
    proof (cases "j = i")
      case True
      then show ?thesis using w write_payload_rows [OF fits _ here] unfolding column_written_def by blast
    next
      case False
      then have "row_at s j + 64 \<le> row_at s i \<or> row_at s i + 64 \<le> row_at s j"
        by (cases "j < i") (auto simp: row_at_def)
      then show ?thesis by (rule column_written_frame [OF w f1 here])
    qed
    then show ?thesis using ih j eq by simp
  qed
  show ?case using all pays cols by blast
qed

section \<open>Header and segments\<close>

definition header_written :: "chunk \<Rightarrow> nat \<Rightarrow> octets \<Rightarrow> bool" where
  "header_written c n b \<longleftrightarrow>
     slice 16 16 b = ch_id c \<and> slice 32 16 b = ch_profile c \<and> slice 48 4 b = le_bytes 4 n \<and>
     slice 52 4 b = le_bytes 4 (length (ch_segments c)) \<and> slice 56 2 b = le_bytes 2 (length (ch_columns c))"

definition segment_written :: "nat \<Rightarrow> octets \<times> nat \<Rightarrow> octets \<Rightarrow> bool" where
  "segment_written i = (\<lambda>(segment, count) b.
     slice (header + i * 32) 16 b = segment \<and> slice (header + i * 32 + 16) 4 b = le_bytes 4 count)"

text \<open>What Rust's types say of a chunk.\<close>

definition typed_chunk :: "chunk \<Rightarrow> bool" where
  "typed_chunk c \<longleftrightarrow>
     length (ch_id c) = 16 \<and> length (ch_profile c) = 16 \<and>
     list_all (\<lambda>(segment, count). length segment = 16 \<and> count < 2 ^ 32) (ch_segments c) \<and>
     list_all (\<lambda>col. co_semantic col < 2 ^ 16) (ch_columns c)"

lemma write_header_written:
  assumes "80 \<le> length b" and "length (ch_id c) = 16" and "length (ch_profile c) = 16"
  shows "header_written c n (write_header c n b)" "length (write_header c n b) = length b"
    "80 \<le> q \<Longrightarrow> slice q m (write_header c n b) = slice q m b"
proof -
  have m: "length magic = 8" by (simp add: magic_def)
  let ?a = "put_uint 8 2 1 (splice 0 magic b)"
  have a: "length ?a = length b" "80 \<le> q \<Longrightarrow> slice q m ?a = slice q m b" for q m
    using assms(1) m by (simp_all add: length_splice slice_splice_other slice_put_other)
  let ?i = "splice 32 (ch_profile c) (splice 16 (ch_id c) ?a)"
  have i: "length ?i = length b" "slice 16 16 ?i = ch_id c" "slice 32 16 ?i = ch_profile c"
    "80 \<le> q \<Longrightarrow> slice q m ?i = slice q m b" for q m
    using assms a slice_splice_same [of 16 "ch_id c" ?a] slice_splice_same [of 32 "ch_profile c" "splice 16 (ch_id c) ?a"]
    by (simp_all add: length_splice slice_splice_other)
  show "header_written c n (write_header c n b)" "length (write_header c n b) = length b"
    "80 \<le> q \<Longrightarrow> slice q m (write_header c n b) = slice q m b"
    unfolding header_written_def write_header_def using assms(1) i by (simp_all add: buffer_simps)
qed

lemma write_segments_written:
  assumes "header + (i + length segments) * 32 \<le> length b" and "list_all (\<lambda>(segment, count). length segment = 16) segments"
  shows "frame (header + i * 32) (header + (i + length segments) * 32) b (write_segments i segments b) \<and>
    length (write_segments i segments b) = length b \<and>
    (\<forall>j < length segments. segment_written (i + j) (segments ! j) (write_segments i segments b))"
  using assms
proof (induction i segments b rule: write_segments.induct)
  case (1 i bytes)
  then show ?case by (simp add: frame_refl)
next
  case (2 i segment count rest b)
  let ?b1 = "put_uint (header + i * 32 + 16) 4 count (splice (header + i * 32) segment b)"
  have seg: "length segment = 16" using 2(3) by simp
  have fits: "header + i * 32 + 32 \<le> length b" using 2(2) by simp
  have l1: "length ?b1 = length b" using fits seg by (simp add: length_splice)
  have w: "segment_written i (segment, count) ?b1"
    using fits seg slice_splice_same [of "header + i * 32" segment b]
    by (simp add: segment_written_def slice_put_same slice_put_other length_splice)
  have f1: "frame (header + i * 32) (header + i * 32 + 32) b ?b1"
    using fits seg by (auto simp: frame_def slice_put_other slice_splice_other length_splice)
  have ih: "frame (header + (i + 1) * 32) (header + (i + 1 + length rest) * 32) ?b1 (write_segments (i + 1) rest ?b1)"
    "length (write_segments (i + 1) rest ?b1) = length ?b1"
    "\<forall>j < length rest. segment_written (i + 1 + j) (rest ! j) (write_segments (i + 1) rest ?b1)"
    using 2(1) 2(2,3) l1 by (simp_all add: algebra_simps)
  have "frame (header + i * 32) (header + (i + length ((segment, count) # rest)) * 32) b (write_segments (i + 1) rest ?b1)"
    by (rule frame_trans [OF frame_widen [OF f1] frame_widen [OF ih(1)]]) simp_all
  moreover have "segment_written i (segment, count) (write_segments (i + 1) rest ?b1)"
    using w fits l1 frame_slice [OF ih(1), of "header + i * 32" 16] frame_slice [OF ih(1), of "header + i * 32 + 16" 4]
    by (simp add: segment_written_def)
  ultimately show ?case
    using ih(2,3) l1 by (auto simp: less_Suc_eq_0_disj nth_Cons')
qed

end
