(* ===== verification/InkSample.thy ===== *)
theory InkSample
  imports InkWriter
begin

text \<open>
  A chunk of two points with four columns, one of them with a validity bitmap, its octets, and a
  stand-in for the \<open>pco\<close> and \<open>crc32fast\<close> crates: numbers are kept as they are, and the checksum
  is the sum of the octets. What the writer and the reader make of it is computed by rewriting,
  field by field.
\<close>

definition plain_codecs :: codecs where
  "plain_codecs =
     \<lparr>crc32 = (\<lambda>b. of_nat (sum_list (map unat b))),
      pco_compress = (\<lambda>t numbers. Inr (concat (map (le_bytes (dtype_width t)) numbers))),
      pco_items = (\<lambda>t payload. let numbers = map le_value (chunks_exact (dtype_width t) payload)
        in Inr [PcoChunk (length numbers) numbers True (length numbers), PcoEnd []])\<rparr>"

definition dot_chunk :: chunk where
  "dot_chunk =
     \<lparr>ch_id = replicate 16 1, ch_profile = replicate 16 2, ch_segments = [(replicate 16 3, 2)],
      ch_columns =
        [\<lparr>co_semantic = 1, co_dtype = U8, co_required = True, co_validity = None, co_values = [5, 6]\<rparr>,
         \<lparr>co_semantic = 2, co_dtype = U8, co_required = True, co_validity = None, co_values = [7, 8]\<rparr>,
         \<lparr>co_semantic = 7, co_dtype = U8, co_required = False, co_validity = Some [1], co_values = [9]\<rparr>,
         \<lparr>co_semantic = 12, co_dtype = U8, co_required = True, co_validity = None, co_values = [0, 1]\<rparr>]\<rparr>"

section \<open>The octets of the sample\<close>

definition dot_bytes :: octets where
  "dot_bytes =
     [73, 78, 75, 67, 72, 78, 75, 0, 1, 0, 0, 0, 0, 0, 0, 0, 1, 1, 1, 1, 1, 1, 1, 1, 1, 1, 1, 1, 1, 1, 1,
     1, 2, 2, 2, 2, 2, 2, 2, 2, 2, 2, 2, 2, 2, 2, 2, 2, 2, 0, 0, 0, 1, 0, 0, 0, 4, 0, 0, 0, 37, 1, 0, 0,
     7, 0, 0, 0, 0, 0, 0, 0, 107, 2, 0, 0, 118, 7, 0, 0, 3, 3, 3, 3, 3, 3, 3, 3, 3, 3, 3, 3, 3, 3, 3, 3,
     2, 0, 0, 0, 0, 0, 0, 0, 0, 0, 0, 0, 0, 0, 0, 0, 1, 0, 1, 1, 2, 0, 1, 0, 0, 0, 16, 0, 2, 0, 0, 0,
     117, 1, 0, 0, 0, 0, 0, 0, 2, 0, 0, 0, 2, 0, 0, 0, 112, 1, 0, 0, 1, 0, 0, 0, 0, 0, 0, 0, 0, 0, 0, 0,
     11, 0, 0, 0, 2, 0, 0, 0, 0, 0, 0, 0, 0, 0, 0, 0, 2, 0, 1, 1, 2, 0, 1, 0, 0, 0, 16, 0, 2, 0, 0, 0,
     119, 1, 0, 0, 0, 0, 0, 0, 2, 0, 0, 0, 2, 0, 0, 0, 113, 1, 0, 0, 1, 0, 0, 0, 0, 0, 0, 0, 0, 0, 0, 0,
     15, 0, 0, 0, 2, 0, 0, 0, 0, 0, 0, 0, 0, 0, 0, 0, 7, 0, 1, 1, 2, 0, 1, 0, 0, 0, 1, 0, 2, 0, 0, 0,
     121, 1, 0, 0, 0, 0, 0, 0, 1, 0, 0, 0, 1, 0, 0, 0, 114, 1, 0, 0, 1, 0, 0, 0, 115, 1, 0, 0, 1, 0, 0,
     0, 9, 0, 0, 0, 1, 0, 0, 0, 0, 0, 0, 0, 0, 0, 0, 0, 12, 0, 1, 1, 2, 0, 1, 0, 0, 0, 16, 0, 2, 0, 0, 0,
     122, 1, 0, 0, 0, 0, 0, 0, 2, 0, 0, 0, 2, 0, 0, 0, 116, 1, 0, 0, 1, 0, 0, 0, 0, 0, 0, 0, 0, 0, 0, 0,
     1, 0, 0, 0, 2, 0, 0, 0, 0, 0, 0, 0, 0, 0, 0, 0, 160, 160, 160, 1, 160, 5, 6, 7, 8, 9, 0, 1]"


lemma le_bytes_more: "le_bytes 0 v = []" "le_bytes (numeral k) v = of_nat v # le_bytes (pred_numeral k) (v div 256)" "le_bytes 1 v = [of_nat v]" "le_bytes (Suc 0) v = [of_nat v]"
  unfolding numeral_eq_Suc [of k] One_nat_def le_bytes_Suc by (simp_all add: le_bytes_def)

lemma take_at: "take (numeral k) (x # xs) = x # take (pred_numeral k) xs" "take 1 (x # xs) = [x]"
  by (simp_all add: numeral_eq_Suc)

lemma drop_at: "drop (numeral k) (x # xs) = drop (pred_numeral k) xs" "drop 1 (x # xs) = xs"
  by (simp_all add: numeral_eq_Suc)

lemma replicate_at: "replicate (numeral k) x = x # replicate (pred_numeral k) x" "replicate 1 x = [x]"
  by (simp_all add: numeral_eq_Suc)

lemmas literals = drop_at drop_0 pred_numeral_simps BitM.simps take_at take_0 replicate_at replicate_0 append.simps le_bytes_more

lemma dot_length: "length dot_bytes = 380"
  by (simp add: dot_bytes_def)

lemmas dot_read = read_uint_def slice_def dot_length dot_bytes_def literals le_value_Cons le_value_Nil

lemma dot_fields:
  "read_uint dot_bytes 8 2 = Inr 1"
  "read_uint dot_bytes 10 2 = Inr 0"
  "read_uint dot_bytes 12 4 = Inr 0"
  "read_uint dot_bytes 58 2 = Inr 0"
  "read_uint dot_bytes 72 4 = Inr 619"
  "read_uint dot_bytes 48 4 = Inr 2"
  "read_uint dot_bytes 52 4 = Inr 1"
  "read_uint dot_bytes 56 2 = Inr 4"
  "read_uint dot_bytes 60 4 = Inr 293"
  "read_uint dot_bytes 64 8 = Inr 7"
  "read_uint dot_bytes 76 4 = Inr 1910"
  "read_uint dot_bytes 96 4 = Inr 2"
  "read_uint dot_bytes 100 4 = Inr 0"
  "read_uint dot_bytes 104 8 = Inr 0"
  "read_uint dot_bytes 112 2 = Inr 1"
  "read_uint dot_bytes 116 2 = Inr 2"
  "read_uint dot_bytes 118 2 = Inr 1"
  "read_uint dot_bytes 120 2 = Inr 0"
  "read_uint dot_bytes 122 2 = Inr 16"
  "read_uint dot_bytes 124 4 = Inr 2"
  "read_uint dot_bytes 168 8 = Inr 0"
  "read_uint dot_bytes 144 4 = Inr 368"
  "read_uint dot_bytes 148 4 = Inr 1"
  "read_uint dot_bytes 152 4 = Inr 0"
  "read_uint dot_bytes 156 4 = Inr 0"
  "read_uint dot_bytes 140 4 = Inr 2"
  "read_uint dot_bytes 136 4 = Inr 2"
  "read_uint dot_bytes 164 4 = Inr 2"
  "read_uint dot_bytes 128 8 = Inr 373"
  "read_uint dot_bytes 160 4 = Inr 11"
  "read_uint dot_bytes 176 2 = Inr 2"
  "read_uint dot_bytes 180 2 = Inr 2"
  "read_uint dot_bytes 182 2 = Inr 1"
  "read_uint dot_bytes 184 2 = Inr 0"
  "read_uint dot_bytes 186 2 = Inr 16"
  "read_uint dot_bytes 188 4 = Inr 2"
  "read_uint dot_bytes 232 8 = Inr 0"
  "read_uint dot_bytes 208 4 = Inr 369"
  "read_uint dot_bytes 212 4 = Inr 1"
  "read_uint dot_bytes 216 4 = Inr 0"
  "read_uint dot_bytes 220 4 = Inr 0"
  "read_uint dot_bytes 204 4 = Inr 2"
  "read_uint dot_bytes 200 4 = Inr 2"
  "read_uint dot_bytes 228 4 = Inr 2"
  "read_uint dot_bytes 192 8 = Inr 375"
  "read_uint dot_bytes 224 4 = Inr 15"
  "read_uint dot_bytes 240 2 = Inr 7"
  "read_uint dot_bytes 244 2 = Inr 2"
  "read_uint dot_bytes 246 2 = Inr 1"
  "read_uint dot_bytes 248 2 = Inr 0"
  "read_uint dot_bytes 250 2 = Inr 1"
  "read_uint dot_bytes 252 4 = Inr 2"
  "read_uint dot_bytes 296 8 = Inr 0"
  "read_uint dot_bytes 272 4 = Inr 370"
  "read_uint dot_bytes 276 4 = Inr 1"
  "read_uint dot_bytes 280 4 = Inr 371"
  "read_uint dot_bytes 284 4 = Inr 1"
  "read_uint dot_bytes 268 4 = Inr 1"
  "read_uint dot_bytes 264 4 = Inr 1"
  "read_uint dot_bytes 292 4 = Inr 1"
  "read_uint dot_bytes 256 8 = Inr 377"
  "read_uint dot_bytes 288 4 = Inr 9"
  "read_uint dot_bytes 304 2 = Inr 12"
  "read_uint dot_bytes 308 2 = Inr 2"
  "read_uint dot_bytes 310 2 = Inr 1"
  "read_uint dot_bytes 312 2 = Inr 0"
  "read_uint dot_bytes 314 2 = Inr 16"
  "read_uint dot_bytes 316 4 = Inr 2"
  "read_uint dot_bytes 360 8 = Inr 0"
  "read_uint dot_bytes 336 4 = Inr 372"
  "read_uint dot_bytes 340 4 = Inr 1"
  "read_uint dot_bytes 344 4 = Inr 0"
  "read_uint dot_bytes 348 4 = Inr 0"
  "read_uint dot_bytes 332 4 = Inr 2"
  "read_uint dot_bytes 328 4 = Inr 2"
  "read_uint dot_bytes 356 4 = Inr 2"
  "read_uint dot_bytes 320 8 = Inr 378"
  "read_uint dot_bytes 352 4 = Inr 1"
  by (simp only: dot_read, simp)+

definition dot_directory :: octets where
  "dot_directory =
     write_row (header + 1 * 32 + 3 * 64) 2 (ch_columns dot_chunk ! 3) Pco8 0
       (write_row (header + 1 * 32 + 2 * 64) 2 (ch_columns dot_chunk ! 2) Pco8 1
       (write_row (header + 1 * 32 + 1 * 64) 2 (ch_columns dot_chunk ! 1) Pco8 0
       (write_row (header + 1 * 32 + 0 * 64) 2 (ch_columns dot_chunk ! 0) Pco8 0
       (write_segments 0 (ch_segments dot_chunk) (write_header dot_chunk 2 (replicate (header + 1 * 32 + 4 * 64) 0))))))"

lemmas dot_write = write_header_def write_row_def write_fields_def append_part_def write_payload_def write_tail_def put_uint_def
  splice_def slice_def literals dot_chunk_def header_def magic_def Let_def

lemma dot_directory_length: "length dot_directory = 373"
  by (simp add: dot_directory_def dot_write)

lemma dot_written:
  "write_tail plain_codecs (length dot_directory)
     (write_payloads plain_codecs 1 0 [[5, 6], [7, 8], [9], [0, 1]] dot_directory) = dot_bytes"
  by (simp add: dot_directory_length) (simp add: dot_directory_def dot_write plain_codecs_def dot_bytes_def)

lemma dot_sums: "unat (crc32 plain_codecs (slice 0 72 dot_bytes)) = 619" "unat (crc32 plain_codecs (slice 80 293 dot_bytes)) = 1910"
  by (simp_all add: plain_codecs_def slice_def dot_bytes_def literals)

lemma write_column_ok:
  assumes "column_state n c = Inr (state, valid)" and "length (co_values c) = valid * dtype_width (co_dtype c)"
    and "validate_values c = Inr ()" and "0 < valid" and "compress cx (co_dtype c) (co_values c) encoding = Inr payload"
  shows "write_column cx s n encoding (i, c) (b, payloads) =
    Inr (write_row (header + s * 32 + i * 64) n c encoding state b, payloads @ [payload])"
  using assms by (simp add: write_column_def selected_encoding_def Let_def)

lemma dot_states:
  "column_state 2 (ch_columns dot_chunk ! 0) = Inr (0, 2)" "column_state 2 (ch_columns dot_chunk ! 1) = Inr (0, 2)"
  "column_state 2 (ch_columns dot_chunk ! 2) = Inr (1, 1)" "column_state 2 (ch_columns dot_chunk ! 3) = Inr (0, 2)"
  by (simp_all add: dot_chunk_def column_state_def div_ceil8_def tail_clear_def valid_count_def count_ones_def upt_rec)

lemma dot_compressed:
  "compress plain_codecs U8 [5, 6] Pco8 = Inr [5, 6]" "compress plain_codecs U8 [7, 8] Pco8 = Inr [7, 8]"
  "compress plain_codecs U8 [9] Pco8 = Inr [9]" "compress plain_codecs U8 [0, 1] Pco8 = Inr [0, 1]"
  by (simp_all add: compress_def plain_codecs_def chunks_exact.simps le_bytes_more)

lemma dot_column_0: "write_column plain_codecs 1 2 Pco8 (0, ch_columns dot_chunk ! 0) (b, payloads) =
    Inr (write_row (header + 1 * 32 + 0 * 64) 2 (ch_columns dot_chunk ! 0) Pco8 0 b, payloads @ [[5, 6]])"
proof (rule write_column_ok [OF dot_states(1)])
  show "length (co_values (ch_columns dot_chunk ! 0)) = 2 * dtype_width (co_dtype (ch_columns dot_chunk ! 0))"
    by (simp add: dot_chunk_def)
  show "validate_values (ch_columns dot_chunk ! 0) = Inr ()"
    by (simp add: dot_chunk_def validate_values_def cong del: attempt_cong)
  show "compress plain_codecs (co_dtype (ch_columns dot_chunk ! 0)) (co_values (ch_columns dot_chunk ! 0)) Pco8 = Inr [5, 6]"
    by (simp add: dot_chunk_def dot_compressed)
qed simp

lemma dot_column_1: "write_column plain_codecs 1 2 Pco8 (1, ch_columns dot_chunk ! 1) (b, payloads) =
    Inr (write_row (header + 1 * 32 + 1 * 64) 2 (ch_columns dot_chunk ! 1) Pco8 0 b, payloads @ [[7, 8]])"
proof (rule write_column_ok [OF dot_states(2)])
  show "length (co_values (ch_columns dot_chunk ! 1)) = 2 * dtype_width (co_dtype (ch_columns dot_chunk ! 1))"
    by (simp add: dot_chunk_def)
  show "validate_values (ch_columns dot_chunk ! 1) = Inr ()"
    by (simp add: dot_chunk_def validate_values_def cong del: attempt_cong)
  show "compress plain_codecs (co_dtype (ch_columns dot_chunk ! 1)) (co_values (ch_columns dot_chunk ! 1)) Pco8 = Inr [7, 8]"
    by (simp add: dot_chunk_def dot_compressed)
qed simp

lemma dot_column_2: "write_column plain_codecs 1 2 Pco8 (2, ch_columns dot_chunk ! 2) (b, payloads) =
    Inr (write_row (header + 1 * 32 + 2 * 64) 2 (ch_columns dot_chunk ! 2) Pco8 1 b, payloads @ [[9]])"
proof (rule write_column_ok [OF dot_states(3)])
  show "length (co_values (ch_columns dot_chunk ! 2)) = 1 * dtype_width (co_dtype (ch_columns dot_chunk ! 2))"
    by (simp add: dot_chunk_def)
  show "validate_values (ch_columns dot_chunk ! 2) = Inr ()"
    by (simp add: dot_chunk_def validate_values_def cong del: attempt_cong)
  show "compress plain_codecs (co_dtype (ch_columns dot_chunk ! 2)) (co_values (ch_columns dot_chunk ! 2)) Pco8 = Inr [9]"
    by (simp add: dot_chunk_def dot_compressed)
qed simp

lemma dot_column_3: "write_column plain_codecs 1 2 Pco8 (3, ch_columns dot_chunk ! 3) (b, payloads) =
    Inr (write_row (header + 1 * 32 + 3 * 64) 2 (ch_columns dot_chunk ! 3) Pco8 0 b, payloads @ [[0, 1]])"
proof (rule write_column_ok [OF dot_states(4)])
  show "length (co_values (ch_columns dot_chunk ! 3)) = 2 * dtype_width (co_dtype (ch_columns dot_chunk ! 3))"
    by (simp add: dot_chunk_def)
  show "validate_values (ch_columns dot_chunk ! 3) = Inr ()"
    by (simp add: dot_chunk_def validate_values_def cong del: attempt_cong)
  show "compress plain_codecs (co_dtype (ch_columns dot_chunk ! 3)) (co_values (ch_columns dot_chunk ! 3)) Pco8 = Inr [0, 1]"
    by (simp add: dot_chunk_def dot_compressed)
qed simp

lemmas dot_columns = dot_column_0 dot_column_1 dot_column_2 dot_column_3

lemma dot_encoded: "write_chunk plain_codecs dot_chunk Pco8 = Inr dot_bytes"
proof -
  let ?b = "write_segments 0 (ch_segments dot_chunk) (write_header dot_chunk 2 (replicate (header + 1 * 32 + 4 * 64) 0))"
  have four: "[0..<4] = [0, 1, 2, 3]" by (simp add: upt_rec)
  have cols: "ch_columns dot_chunk = map ((!) (ch_columns dot_chunk)) [0, 1, 2, 3]"
    by (simp add: dot_chunk_def)
  have "fold_res (write_column plain_codecs 1 2 Pco8) (zip [0..<4] (ch_columns dot_chunk)) (?b, []) =
    Inr (dot_directory, [[5, 6], [7, 8], [9], [0, 1]])"
    by (subst cols) (simp only: four list.map zip_Cons_Cons zip_Nil fold_res.simps dot_columns attempt_simps append.simps dot_directory_def)
  moreover have "chunk_count dot_chunk = Inr 2" by (simp add: chunk_count_def dot_chunk_def)
  moreover have "sum_list (map (length \<circ> co_values) (ch_columns dot_chunk)) = 7" "length (ch_columns dot_chunk) = 4"
    "length (ch_segments dot_chunk) = 1"
    by (simp_all add: dot_chunk_def)
  ultimately show ?thesis
    using dot_written by (simp add: write_chunk_def max_chunk_def Let_def del: write_segments.simps)
qed

lemma dot_slices:
  "slice 0 8 dot_bytes = [73, 78, 75, 67, 72, 78, 75, 0]"
  "slice 16 16 dot_bytes = [1, 1, 1, 1, 1, 1, 1, 1, 1, 1, 1, 1, 1, 1, 1, 1]"
  "slice 32 16 dot_bytes = [2, 2, 2, 2, 2, 2, 2, 2, 2, 2, 2, 2, 2, 2, 2, 2]"
  "slice 80 16 dot_bytes = [3, 3, 3, 3, 3, 3, 3, 3, 3, 3, 3, 3, 3, 3, 3, 3]"
  "slice 368 1 dot_bytes = [160]"
  "slice 369 1 dot_bytes = [160]"
  "slice 370 1 dot_bytes = [160]"
  "slice 371 1 dot_bytes = [1]"
  "slice 372 1 dot_bytes = [160]"
  "slice 373 2 dot_bytes = [5, 6]"
  "slice 375 2 dot_bytes = [7, 8]"
  "slice 377 1 dot_bytes = [9]"
  "slice 378 2 dot_bytes = [0, 1]"
  by (simp_all only: slice_def dot_bytes_def literals)

lemma dot_octets:
  "dot_bytes ! 114 = 1"
  "dot_bytes ! 115 = 1"
  "dot_bytes ! 178 = 1"
  "dot_bytes ! 179 = 1"
  "dot_bytes ! 242 = 1"
  "dot_bytes ! 243 = 1"
  "dot_bytes ! 306 = 1"
  "dot_bytes ! 307 = 1"
  by (simp_all add: dot_bytes_def)

definition dot_layout :: layout where
  "dot_layout = \<lparr>la_points = 2, la_segments = 1, la_columns = 4, la_start = 373, la_table_end = 368\<rparr>"

lemma dot_header: "read_header plain_codecs dot_bytes = Inr dot_layout"
  using dot_sums
  by (simp add: read_header_def dot_fields dot_length dot_slices header_def max_chunk_def magic_def Let_def dot_layout_def cong del: attempt_cong)

lemma dot_segments: "read_segments dot_bytes dot_layout = Inr (ch_segments dot_chunk)"
  by (simp add: read_segments_def read_segment_def read_id_def zero_id_def literals dot_fields dot_length dot_slices header_def Let_def
      dot_layout_def dot_chunk_def upt_rec cong del: attempt_cong)

lemma dot_decompressed:
  "decompress plain_codecs U8 [5, 6] 2 = Inr [5, 6]" "decompress plain_codecs U8 [7, 8] 2 = Inr [7, 8]"
  "decompress plain_codecs U8 [9] 1 = Inr [9]" "decompress plain_codecs U8 [0, 1] 2 = Inr [0, 1]"
  by (simp_all add: decompress_def decode_numbers_def plain_codecs_def chunks_exact.simps le_bytes_more Let_def)

lemma plain_crc:
  "unat (crc32 plain_codecs [5, 6]) = 11" "unat (crc32 plain_codecs [7, 8]) = 15" "unat (crc32 plain_codecs [9]) = 9"
  "unat (crc32 plain_codecs [0, 1]) = 1"
  by (simp_all add: plain_codecs_def)

lemmas dot_reads = read_column_def read_row_def read_bitmap_def read_payload_def read_validity_def take_range_def flags_known_def
  dot_fields dot_length dot_slices [unfolded One_nat_def] dot_octets header_def max_chunk_def Let_def dot_layout_def dot_chunk_def dtype_of_def encoding_of_def
  div_ceil8_def tail_clear_def valid_count_def count_ones_def dot_decompressed [unfolded One_nat_def] plain_crc validate_values_def

lemma dot_read_0: "read_column plain_codecs dot_bytes True dot_layout 0
  \<lparr>cs_columns = [], cs_previous = 0, cs_decoded = 0, cs_ranges = []\<rparr> =
  Inr \<lparr>cs_columns = take 1 (ch_columns dot_chunk), cs_previous = 1, cs_decoded = 2,
    cs_ranges = [(368, 369), (373, 375)]\<rparr>"
  by (simp add: dot_reads upt_rec cong del: attempt_cong)

lemma dot_read_1: "read_column plain_codecs dot_bytes True dot_layout 1
  \<lparr>cs_columns = take 1 (ch_columns dot_chunk), cs_previous = 1, cs_decoded = 2,
    cs_ranges = [(368, 369), (373, 375)]\<rparr> =
  Inr \<lparr>cs_columns = take 2 (ch_columns dot_chunk), cs_previous = 2, cs_decoded = 4,
    cs_ranges = [(368, 369), (373, 375), (369, 370), (375, 377)]\<rparr>"
  by (simp add: dot_reads upt_rec cong del: attempt_cong)

lemma dot_read_2: "read_column plain_codecs dot_bytes True dot_layout 2
  \<lparr>cs_columns = take 2 (ch_columns dot_chunk), cs_previous = 2, cs_decoded = 4,
    cs_ranges = [(368, 369), (373, 375), (369, 370), (375, 377)]\<rparr> =
  Inr \<lparr>cs_columns = take 3 (ch_columns dot_chunk), cs_previous = 7, cs_decoded = 5,
    cs_ranges = [(368, 369), (373, 375), (369, 370), (375, 377), (370, 371), (371, 372), (377, 378)]\<rparr>"
  by (simp add: dot_reads upt_rec cong del: attempt_cong)

lemma dot_read_3: "read_column plain_codecs dot_bytes True dot_layout 3
  \<lparr>cs_columns = take 3 (ch_columns dot_chunk), cs_previous = 7, cs_decoded = 5,
    cs_ranges = [(368, 369), (373, 375), (369, 370), (375, 377), (370, 371), (371, 372), (377, 378)]\<rparr> =
  Inr \<lparr>cs_columns = take 4 (ch_columns dot_chunk), cs_previous = 12, cs_decoded = 7,
    cs_ranges = [(368, 369), (373, 375), (369, 370), (375, 377), (370, 371), (371, 372), (377, 378), (372, 373), (378, 380)]\<rparr>"
  by (simp add: dot_reads upt_rec cong del: attempt_cong)

lemma dot_decoded: "decode_chunk plain_codecs dot_bytes = Inr dot_chunk"
proof -
  have four: "[0..<4] = [0, 1, 2, 3]" by (simp add: upt_rec)
  have cols: "take 4 (ch_columns dot_chunk) = ch_columns dot_chunk" by (simp add: dot_chunk_def)
  have scan: "fold_res (read_column plain_codecs dot_bytes True dot_layout) [0..<4]
      \<lparr>cs_columns = [], cs_previous = 0, cs_decoded = 0, cs_ranges = []\<rparr> =
    Inr \<lparr>cs_columns = ch_columns dot_chunk, cs_previous = 12, cs_decoded = 7, cs_ranges = [(368, 369), (373, 375), (369, 370), (375, 377), (370, 371), (371, 372), (377, 378), (372, 373), (378, 380)]\<rparr>"
    by (simp only: four fold_res.simps attempt_simps dot_read_0 dot_read_1 dot_read_2 dot_read_3 cols)
  have ranges: "check_ranges dot_bytes 368 [(368, 369), (373, 375), (369, 370), (375, 377), (370, 371), (371, 372), (377, 378), (372, 373), (378, 380)] = Inr ()"
    by (simp add: check_ranges_def check_gap_def dot_length slice_def cong del: attempt_cong)
  have "read_id dot_bytes 16 = Inr (ch_id dot_chunk)" "read_id dot_bytes 32 = Inr (ch_profile dot_chunk)"
    by (simp_all add: read_id_def dot_length dot_slices zero_id_def literals dot_chunk_def)
  moreover have "list_all (\<lambda>axis. list_ex (\<lambda>c. co_semantic c = axis) (ch_columns dot_chunk)) [1, 2, 12]"
    by (simp add: dot_chunk_def)
  moreover have "la_columns dot_layout = 4" "la_table_end dot_layout = 368" by (simp_all add: dot_layout_def)
  ultimately show ?thesis
    using scan ranges by (simp add: decode_chunk_def read_layout_def dot_header dot_segments)
qed

end
