(* ===== verification/InkChunkProps.thy ===== *)
theory InkChunkProps
  imports InkSample
begin

text \<open>
  What the chunk format guarantees: a chunk that was encoded decodes to itself, raw or
  compressed, and the size announced without decompressing is the size of the decoded values.
\<close>

section \<open>What was written\<close>

definition chunk_written :: "codecs \<Rightarrow> chunk \<Rightarrow> encoding \<Rightarrow> nat \<Rightarrow> octets \<Rightarrow> bool" where
  "chunk_written cx c encoding n b \<longleftrightarrow>
     (let s = length (ch_segments c); k = length (ch_columns c) in
      row_at s k \<le> length b \<and> header_written c n b \<and>
      (\<forall>j < s. segment_written j (ch_segments c ! j) b) \<and>
      (\<forall>j < k. \<exists>payload. column_written cx (row_at s k) (row_at s j) n encoding (ch_columns c ! j) payload b \<and>
         payload_written (row_at s k) (row_at s j) payload b))"

lemma header_written_frame: "header_written c n b \<Longrightarrow> frame lo hi b b' \<Longrightarrow> 60 \<le> lo \<Longrightarrow> 80 \<le> length b \<Longrightarrow> header_written c n b'"
  by (auto simp: header_written_def frame_slice)

lemma segment_written_frame:
  assumes "segment_written j x b" and "frame lo hi b b'" and "header + (j + 1) * 32 \<le> length b"
    and "header + (j + 1) * 32 \<le> lo \<or> hi \<le> header"
  shows "segment_written j x b'"
  using assms frame_slice [OF assms(2), of "header + j * 32" 16] frame_slice [OF assms(2), of "header + j * 32 + 16" 4]
  by (auto simp: segment_written_def)

lemma blank_row_replicate: "p + 64 \<le> m \<Longrightarrow> blank_row p (replicate m 0)"
  by (simp add: blank_row_def slice_replicate)

lemma write_tail_frame: "80 \<le> length b \<Longrightarrow> frame 60 80 b (write_tail cx start b)"
  unfolding write_tail_def Let_def by (intro frame_put frame_refl) simp_all

lemma write_chunk_written:
  assumes "write_chunk cx c encoding = Inr b" and "typed_chunk c"
  obtains n where "chunk_count c = Inr n" "n \<le> 1000000" "length (ch_segments c) \<le> 65536" "length (ch_columns c) \<le> 64"
    "chunk_written cx c encoding n b"
proof -
  let ?s = "length (ch_segments c)" and ?k = "length (ch_columns c)"
  obtain n b2 payloads where n: "chunk_count c = Inr n" "?s \<le> 65536" "?k \<le> 64"
    and cols: "fold_res (write_column cx ?s n encoding) (zip [0..<?k] (ch_columns c))
      (write_segments 0 (ch_segments c) (write_header c n (replicate (header + ?s * 32 + ?k * 64) 0)), []) = Inr (b2, payloads)"
    and b: "b = write_tail cx (length b2) (write_payloads cx ?s 0 payloads b2)"
    using assms(1) by (auto simp: write_chunk_def Let_def res)
  let ?tables = "header + ?s * 32 + ?k * 64"
  have tables: "row_at ?s ?k = ?tables" by (simp add: row_at_def)
  let ?h = "write_header c n (replicate ?tables 0)"
  have ids: "length (ch_id c) = 16" "length (ch_profile c) = 16"
    "list_all (\<lambda>(segment, count). length segment = 16) (ch_segments c)"
    using assms(2) by (auto simp: typed_chunk_def list_all_iff)
  have h: "header_written c n ?h" "length ?h = ?tables" "80 \<le> q \<Longrightarrow> slice q m ?h = slice q m (replicate ?tables 0)" for q m
    using write_header_written(1,2) [where b = "replicate ?tables 0" and c = c and n = n]
      write_header_written(3) [where b = "replicate ?tables 0" and c = c and n = n and q = q and m = m] ids
    by (simp_all add: header_def)
  let ?g = "write_segments 0 (ch_segments c) ?h"
  have g: "frame header (header + ?s * 32) ?h ?g" "length ?g = ?tables" "\<forall>j < ?s. segment_written j (ch_segments c ! j) ?g"
    using write_segments_written [of 0 "ch_segments c" ?h] h(2) ids(3) by simp_all
  have gh: "header_written c n ?g"
    by (rule header_written_frame [OF h(1) g(1)]) (use h(2) in \<open>simp_all add: header_def\<close>)
  have blank: "\<forall>j < ?k. blank_row (row_at ?s (0 + j)) ?g"
  proof (intro allI impI)
    fix j assume "j < ?k"
    then have "row_at ?s j + 64 \<le> ?tables" using row_at_le [of "Suc j" ?k ?s] by (simp add: row_at_Suc tables)
    then have "blank_row (row_at ?s j) ?h"
      using h(3) [of "row_at ?s j" 64] blank_row_replicate [of "row_at ?s j" ?tables]
      by (simp add: blank_row_def row_at_def header_def)
    then show "blank_row (row_at ?s (0 + j)) ?g"
      using \<open>row_at ?s j + 64 \<le> ?tables\<close> h(2) by (intro blank_row_frame [OF _ g(1)]) (simp_all add: row_at_def)
  qed
  have fold: "fold_res (write_column cx ?s n encoding) (zip [0..<0 + length (ch_columns c)] (ch_columns c)) (?g, []) = Inr (b2, payloads)"
    using cols by simp
  have base: "row_at ?s (0 + length (ch_columns c)) \<le> ?tables" "?tables \<le> length ?g" by (simp_all add: tables g(2))
  obtain new where c2: "frame (row_at ?s 0) (row_at ?s ?k) ?g b2" "payloads = new" "length new = ?k"
    "\<forall>j < ?k. column_written cx ?tables (row_at ?s j) n encoding (ch_columns c ! j) (new ! j) b2 \<and> payload_blank (row_at ?s j) b2"
    using write_columns [OF fold base blank] by auto
  have len2: "?tables \<le> length b2" using frame_length [OF c2(1)] g(2) by simp
  have base3: "row_at ?s (0 + length payloads) \<le> ?tables" by (simp add: tables c2(2,3))
  have pb: "\<forall>j < length payloads. payload_blank (row_at ?s (0 + j)) b2" using c2 by simp
  let ?w = "write_payloads cx ?s 0 payloads b2"
  note w = write_payloads [OF base3 len2 pb]
  have fw: "frame (row_at ?s 0) (row_at ?s ?k) b2 ?w" using w c2(2,3) by simp
  have fh: "frame (row_at ?s 0) (row_at ?s ?k) ?g ?w" by (rule frame_trans [OF c2(1) fw])
  have lenw: "?tables \<le> length ?w" using frame_length [OF fw] len2 by simp
  have ft: "frame 60 80 ?w b" unfolding b by (rule write_tail_frame) (use lenw in \<open>simp add: header_def\<close>)
  have fgb: "header_written c n b"
    by (rule header_written_frame [OF header_written_frame [OF gh fh] ft])
       (use lenw g(2) in \<open>simp_all add: row_at_def header_def\<close>)
  have segs: "segment_written j (ch_segments c ! j) b" if "j < ?s" for j
  proof (rule segment_written_frame [OF segment_written_frame [OF _ fh] ft])
    show "segment_written j (ch_segments c ! j) ?g" using g(3) that by simp
  qed (use that lenw g(2) in \<open>auto simp: row_at_def header_def\<close>)
  have colsb: "\<exists>payload. column_written cx ?tables (row_at ?s j) n encoding (ch_columns c ! j) payload b \<and>
      payload_written ?tables (row_at ?s j) payload b" if j: "j < ?k" for j
  proof (intro exI conjI)
    have far: "row_at ?s j + 64 \<le> 60 \<or> 80 \<le> row_at ?s j" by (simp add: row_at_def header_def)
    have "column_written cx ?tables (row_at ?s j) n encoding (ch_columns c ! j) (new ! j) ?w"
      using w c2 j by simp
    then show "column_written cx ?tables (row_at ?s j) n encoding (ch_columns c ! j) (new ! j) b"
      by (rule column_written_frame [OF _ ft]) (use far in \<open>simp_all add: header_def\<close>)
    have "payload_written ?tables (row_at ?s j) (new ! j) ?w" using w c2 j by simp
    then show "payload_written ?tables (row_at ?s j) (new ! j) b"
      by (rule payload_written_frame [OF _ ft]) (use far in \<open>simp_all add: header_def\<close>)
  qed
  have "n \<le> 1000000" using n(1) by (auto simp: chunk_count_def Let_def res)
  moreover have "?tables \<le> length b" using frame_length [OF ft] lenw by simp
  ultimately show thesis
    using that n fgb segs colsb by (simp add: chunk_written_def Let_def tables)
qed

section \<open>What is read\<close>

lemma read_field: "read_uint b at n = Inr v \<Longrightarrow> slice at n b = le_bytes n w \<Longrightarrow> w < 256 ^ n \<Longrightarrow> v = w"
  by (simp add: read_uint_Inr le_value_bytes)

lemma take_range_Inr:
  "take_range b offset len low high taken = Inr (x, taken') \<Longrightarrow> x = slice offset len b"
  by (auto simp: take_range_def res slice_def split: if_splits)

lemma read_header_Inr:
  assumes "read_header cx b = Inr la"
  shows "length b \<le> max_chunk" "read_uint b 48 4 = Inr (la_points la)" "read_uint b 52 4 = Inr (la_segments la)"
    "read_uint b 56 2 = Inr (la_columns la)" "la_table_end la = header + la_segments la * 32 + la_columns la * 64"
  using assms by (auto simp: read_header_def Let_def res)

lemma dtype_of_code [simp]: "dtype_of (dtype_code t) = Inr t"
  by (cases t) (simp_all add: dtype_of_def)

lemma dtype_code_less: "dtype_code t < 256"
  by (cases t) simp_all

lemma encoding_of_id [simp]: "encoding_of (encoding_id e) = Inr e"
  by (cases e) (simp_all add: encoding_of_def)

lemma count_ones_zero: "count_ones b = 0 \<Longrightarrow> b = 0"
  by (auto simp: count_ones_def filter_empty_conv intro!: bit_word_eqI)

lemma valid_count_zero: "valid_count bs = 0 \<Longrightarrow> bs = replicate (length bs) 0"
  by (induction bs) (auto simp: valid_count_def dest: count_ones_zero)

text \<open>The state of a column, read back.\<close>

lemma read_validity_back:
  assumes "column_state n c = Inr (state, valid)"
    and "read_validity state n (if state = 1 then the (co_validity c) else []) = Inr (validity, valid')"
  shows "validity = co_validity c \<and> valid' = valid"
proof (cases "co_validity c")
  case None
  then show ?thesis using assms by (auto simp: column_state_def read_validity_def res)
next
  case (Some bitmap)
  then have b: "length bitmap = div_ceil8 n" "(if valid_count bitmap = 0 then (2, 0) else (1, valid_count bitmap)) = (state, valid)"
    using assms(1) by (auto simp: column_state_def res)
  show ?thesis
  proof (cases "valid_count bitmap = 0")
    case True
    then have "state = 2" "valid = 0" using b(2) by simp_all
    moreover have "bitmap = replicate (div_ceil8 n) 0" using valid_count_zero [OF True] b(1) by simp
    ultimately show ?thesis using assms(2) Some by (auto simp: read_validity_def res)
  next
    case False
    then have "state = 1" "valid = valid_count bitmap" using b(2) by simp_all
    then show ?thesis using assms(2) Some by (auto simp: read_validity_def res)
  qed
qed

lemma column_state_bound: "column_state n c = Inr (state, valid) \<Longrightarrow> state \<le> 2"
  by (auto simp: column_state_def res split: option.splits if_splits)

lemma pointed_slice:
  assumes "pointed base at w part b" and "read_uint b at w = Inr offset" and "length b < 256 ^ w"
  shows "slice offset (length part) b = part"
proof -
  obtain off where off: "off + length part \<le> length b" "slice at w b = le_bytes w off" "slice off (length part) b = part"
    using assms(1) unfolding pointed_def by blast
  then have "offset = off" using read_field [OF assms(2) off(2)] assms(3) by simp
  then show ?thesis using off by simp
qed

section \<open>The codec\<close>

text \<open>
  The \<open>pco\<close> crate is lossless: the stream of what it compressed gives back the numbers, in
  chunks that announce their size and are read to their end, and then ends.
\<close>

definition lossless :: "codecs \<Rightarrow> bool" where
  "lossless cx \<longleftrightarrow>
     (\<forall>dtype numbers payload. pco_compress cx dtype numbers = Inr payload \<longrightarrow>
        (\<forall>v \<in> set numbers. v < 256 ^ dtype_width dtype) \<longrightarrow>
        (\<exists>parts. concat parts = numbers \<and>
           pco_items cx dtype payload = Inr (map (\<lambda>xs. PcoChunk (length xs) xs True (length xs)) parts @ [PcoEnd []])))"

lemma decode_items_parts:
  "length (acc @ concat parts) = count \<Longrightarrow>
     decode_items count (map (\<lambda>xs. PcoChunk (length xs) xs True (length xs)) parts @ [PcoEnd []]) acc =
       Inr (acc @ concat parts)"
proof (induction parts arbitrary: acc)
  case (Cons xs parts)
  then show ?case using Cons.IH [of "acc @ xs"] by simp
qed simp

lemma concat_chunks_exact: "0 < w \<Longrightarrow> length xs mod w = 0 \<Longrightarrow> concat (chunks_exact w xs) = xs"
proof (induction w xs rule: chunks_exact.induct)
  case (1 w xs)
  show ?case
  proof (cases "length xs < w")
    case True
    then show ?thesis using 1 by (simp add: chunks_exact.simps)
  next
    case False
    then have "length (drop w xs) mod w = 0" using 1(3) by (simp add: le_mod_geq)
    then show ?thesis using False 1(1,2) by (subst chunks_exact.simps) simp
  qed
qed

lemma chunks_exact_length: "x \<in> set (chunks_exact w xs) \<Longrightarrow> length x = w"
proof (induction w xs rule: chunks_exact.induct)
  case (1 w xs)
  show ?case
  proof (cases "w = 0 \<or> length xs < w")
    case False
    then have "x = take w xs \<or> x \<in> set (chunks_exact w (drop w xs))"
      using 1(2) chunks_exact.simps [of w xs] by auto
    then show ?thesis using False 1(1) by auto
  qed (use 1(2) chunks_exact.simps [of w xs] in auto)
qed

lemma length_chunks_exact: "0 < w \<Longrightarrow> length (chunks_exact w xs) = length xs div w"
proof (induction w xs rule: chunks_exact.induct)
  case (1 w xs)
  show ?case
  proof (cases "length xs < w")
    case True
    then show ?thesis using chunks_exact.simps [of w xs] by simp
  next
    case False
    then show ?thesis using 1 chunks_exact.simps [of w xs] by (simp add: le_div_geq)
  qed
qed

lemma le_bytes_values:
  "\<forall>x \<in> set xs. length x = w \<Longrightarrow> concat (map (le_bytes w) (map le_value xs)) = concat xs"
proof (induction xs)
  case (Cons x xs)
  then show ?case using le_bytes_value [of x] by simp
qed simp

lemma le_value_less: "le_value x < 256 ^ length x"
proof (induction x)
  case (Cons b x)
  have "unat b < 256" using unsigned_less [of b] by simp
  then show ?case using Cons by simp
qed simp

lemma dtype_width_pos [simp]: "0 < dtype_width t"
  by (cases t) simp_all

lemma decompress_compressed:
  assumes "lossless cx" and "compress cx t values encoding = Inr payload" and "encoding = Pco8"
    and "length values = count * dtype_width t"
  shows "decompress cx t payload count = Inr values"
proof -
  let ?xs = "chunks_exact (dtype_width t) values"
  have c: "pco_compress cx t (map le_value ?xs) = Inr payload" "length values mod dtype_width t = 0"
    using assms(2,3) by (auto simp: compress_def res split: sum.splits)
  have len: "\<forall>x \<in> set ?xs. length x = dtype_width t" using chunks_exact_length by blast
  have "\<forall>v \<in> set (map le_value ?xs). v < 256 ^ dtype_width t" 
  proof
    fix v assume "v \<in> set (map le_value ?xs)"
    then obtain x where "x \<in> set ?xs" "v = le_value x" by auto
    then show "v < 256 ^ dtype_width t" using le_value_less [of x] len by simp
  qed
  then obtain parts where parts: "concat parts = map le_value ?xs"
    "pco_items cx t payload = Inr (map (\<lambda>xs. PcoChunk (length xs) xs True (length xs)) parts @ [PcoEnd []])"
    using assms(1) c(1) unfolding lossless_def by blast
  have "length ?xs = count"
    by (simp add: length_chunks_exact assms(4))
  then have "length (concat parts) = count"
    using parts(1) by simp
  then have "decode_numbers cx t payload count = Inr (map le_value ?xs)"
    using decode_items_parts [of "[]" parts count] parts by (simp add: decode_numbers_def)
  moreover have "concat (map (le_bytes (dtype_width t)) (map le_value ?xs)) = values"
    using le_bytes_values [OF len] concat_chunks_exact [of "dtype_width t"] c(2) by simp
  ultimately show ?thesis by (simp add: decompress_def)
qed

text \<open>The stand-in of the sample is lossless.\<close>

lemma chunks_exact_concat:
  "\<forall>x \<in> set xs. length x = w \<Longrightarrow> 0 < w \<Longrightarrow> chunks_exact w (concat xs) = xs"
  by (induction xs) (simp_all add: chunks_exact.simps [of w])

lemma plain_lossless: "lossless plain_codecs"
proof -
  have "\<exists>parts. concat parts = numbers \<and> pco_items plain_codecs t payload =
      Inr (map (\<lambda>xs. PcoChunk (length xs) xs True (length xs)) parts @ [PcoEnd []])"
    if "pco_compress plain_codecs t numbers = Inr payload" and "\<forall>v \<in> set numbers. v < 256 ^ dtype_width t"
    for t numbers payload
  proof (intro exI [of _ "[numbers]"] conjI)
    have "map le_value (chunks_exact (dtype_width t) payload) = numbers"
      using that by (auto simp: plain_codecs_def chunks_exact_concat le_value_bytes intro!: map_idI)
    moreover from this have "length (chunks_exact (dtype_width t) payload) = length numbers" by (metis length_map)
    ultimately show "pco_items plain_codecs t payload =
      Inr (map (\<lambda>xs. PcoChunk (length xs) xs True (length xs)) [numbers] @ [PcoEnd []])"
      by (simp add: plain_codecs_def Let_def)
  qed simp
  then show ?thesis by (simp add: lossless_def)
qed

section \<open>Reading back\<close>

lemma read_segments_back:
  assumes "\<forall>j < length segments. segment_written j (segments ! j) b"
    and "list_all (\<lambda>(segment, count). length segment = 16 \<and> count < 2 ^ 32) segments"
    and "i \<le> length segments" and "fold_res (read_segment b) [0..<i] ([], 0) = Inr (got, sum0)"
  shows "got = take i segments"
  using assms(3,4)
proof (induction i arbitrary: got sum0)
  case (Suc i)
  obtain got1 sum1 where g: "fold_res (read_segment b) [0..<i] ([], 0) = Inr (got1, sum1)"
    "read_segment b i (got1, sum1) = Inr (got, sum0)"
    using Suc.prems(2) by (auto simp: fold_res_append res)
  have i: "i < length segments" using Suc.prems(1) by simp
  obtain segment count where x: "segments ! i = (segment, count)" by force
  have w: "slice (header + i * 32) 16 b = segment" "slice (header + i * 32 + 16) 4 b = le_bytes 4 count"
    using assms(1) i x by (auto simp: segment_written_def)
  have c: "count < 256 ^ 4" using assms(2) i x by (auto simp: list_all_length)
  obtain count' where "got = got1 @ [(slice (header + i * 32) 16 b, count')]" "read_uint b (header + i * 32 + 16) 4 = Inr count'"
    using g(2) by (auto simp: read_segment_def Let_def res read_id_def)
  then have "got = got1 @ [(segment, count)]" using w read_field [OF _ w(2) c] by simp
  then show ?case using Suc.IH [OF _ g(1)] i x by (simp add: take_Suc_conv_app_nth)
qed simp

text \<open>One column: what the reader makes of a row that the writer wrote.\<close>

lemma read_row_back:
  assumes "read_row b la p previous = Inr row" and "row_written base p n c selected state b"
    and "co_semantic c < 2 ^ 16" and "state \<le> 2"
  shows "cr_semantic row = co_semantic c" "cr_dtype row = co_dtype c" "cr_encoding row = selected"
    "cr_flags row = state + (if co_required c then 16 else 0)"
proof -
  note w = assms(2) [unfolded row_written_def]
  obtain semantic dtype codec_id encoding flags where r: "read_uint b p 2 = Inr semantic"
    "dtype_of (unat (b ! (p + 2))) = Inr dtype" "read_uint b (p + 4) 2 = Inr codec_id" "encoding_of codec_id = Inr encoding"
    "read_uint b (p + 10) 2 = Inr flags"
    "row = \<lparr>cr_semantic = semantic, cr_dtype = dtype, cr_encoding = encoding, cr_flags = flags\<rparr>"
    using assms(1) unfolding read_row_def attempt_Inr guard_Inr by (elim exE conjE) (rule that, (simp; fail)+)
  have "semantic = co_semantic c" using read_field [OF r(1)] w assms(3) by simp
  moreover have "[b ! (p + 2)] = [of_nat (dtype_code (co_dtype c))]"
    using w nth_slice [of "p + 2" b] le_bytes_1 [OF dtype_code_less] by simp
  then have "unat (b ! (p + 2)) = dtype_code (co_dtype c)"
    using dtype_code_less [of "co_dtype c"] by (simp add: unsigned_of_nat take_bit_eq_mod)
  then have "dtype = co_dtype c" using r(2) by simp
  moreover have "encoding_id selected < 256 ^ 2" by (cases selected) simp_all
  then have "codec_id = encoding_id selected" using read_field [OF r(3)] w by simp
  then have "encoding = selected" using r(4) by simp
  moreover have "flags = state + (if co_required c then 16 else 0)"
    using read_field [OF r(5), of "state + (if co_required c then 16 else 0)"] w assms(4) by simp
  ultimately show "cr_semantic row = co_semantic c" "cr_dtype row = co_dtype c" "cr_encoding row = selected"
    "cr_flags row = state + (if co_required c then 16 else 0)" using r(6) by simp_all
qed

lemma read_bitmap_back:
  assumes "read_bitmap b la p row taken = Inr (validity, valid', taken')" and "row_written base p n c selected state b"
    and "column_state n c = Inr (state, valid)" and "cr_flags row mod 4 = state" and "la_points la = n"
    and "length b < 2 ^ 32"
  shows "validity = co_validity c \<and> valid' = valid"
proof -
  note w = assms(2) [unfolded row_written_def]
  obtain bitmap_at bitmap_len bitmap taken1 taken2 where r: "read_uint b (p + 40) 4 = Inr bitmap_at"
    "read_uint b (p + 44) 4 = Inr bitmap_len"
    "take_range b bitmap_at bitmap_len (la_table_end la) (la_start la) taken1 = Inr (bitmap, taken2)"
    "read_validity (cr_flags row mod 4) (la_points la) bitmap = Inr (validity, valid')"
    using assms(1) unfolding read_bitmap_def attempt_Inr by (auto simp: res split: prod.splits)
  have "bitmap = (if state = 1 then the (co_validity c) else [])"
  proof (cases "state = 1")
    case True
    then have p: "pointed base (p + 40) 4 (the (co_validity c)) b"
      "slice (p + 44) 4 b = le_bytes 4 (length (the (co_validity c)))" using w by simp_all
    have "length (the (co_validity c)) < 256 ^ 4" using p(1) assms(6) by (auto simp: pointed_def)
    then have "bitmap_len = length (the (co_validity c))" using read_field [OF r(2) p(2)] by simp
    then show ?thesis using pointed_slice [OF p(1) r(1)] take_range_Inr [OF r(3)] assms(6) True by simp
  next
    case False
    then have "bitmap_len = 0" using read_field [OF r(2), of 0] w by simp
    then show ?thesis using take_range_Inr [OF r(3)] False by (simp add: slice_def)
  qed
  then show ?thesis using read_validity_back [OF assms(3)] r(4) assms(4,5) by simp
qed

lemma read_payload_back:
  assumes "read_payload cx b True la p row valid decoded taken = Inr (got, decoded', taken')"
    and "payload_written base p payload b" and "compress cx (co_dtype c) (co_values c) selected = Inr payload"
    and "length (co_values c) = valid * dtype_width (co_dtype c)" and "cr_encoding row = selected"
    and "cr_dtype row = co_dtype c" and "length b < 2 ^ 32" and "lossless cx"
  shows "got = co_values c \<and> decoded' = decoded + length (co_values c)"
proof -
  note w = assms(2) [unfolded payload_written_def]
  obtain payload_len payload_at found taken1 where r: "read_uint b (p + 24) 4 = Inr payload_len"
    "read_uint b (p + 16) 8 = Inr payload_at"
    "take_range b payload_at payload_len (la_start la) (length b) taken = Inr (found, taken1)"
    "(if cr_encoding row = RawEncoding then Inr found else decompress cx (cr_dtype row) found valid) = Inr got"
    "decoded' = decoded + valid * dtype_width (cr_dtype row)"
    using assms(1) unfolding read_payload_def Let_def attempt_Inr guard_Inr by (auto simp: res split: prod.splits)
  have "found = payload"
  proof (cases "payload = []")
    case True
    then have "payload_len = 0" using read_field [OF r(1), of 0] w by simp
    then show ?thesis using take_range_Inr [OF r(3)] True by (simp add: slice_def)
  next
    case False
    then have p: "pointed base (p + 16) 8 payload b" using w by simp
    then have "length payload < 256 ^ 4" using assms(7) by (auto simp: pointed_def)
    then have "payload_len = length payload" using read_field [OF r(1), of "length payload"] w by simp
    then show ?thesis using pointed_slice [OF p r(2)] take_range_Inr [OF r(3)] assms(7) by simp
  qed
  then have "got = co_values c"
  proof (cases selected)
    case RawEncoding
    then show ?thesis using r(4) assms(3,5) \<open>found = payload\<close> by (simp add: compress_def res)
  next
    case Pco8
    then show ?thesis
      using r(4) assms(5,6) \<open>found = payload\<close> decompress_compressed [OF assms(8,3) Pco8 assms(4)] by simp
  qed
  then show ?thesis using r(5) assms(4,6) by simp
qed

lemma read_column_back:
  assumes "read_column cx b True la i scan = Inr scan'" and "column_written cx base (row_at s i) n encoding c payload b"
    and "payload_written base (row_at s i) payload b" and "la_segments la = s" and "la_points la = n"
    and "co_semantic c < 2 ^ 16" and "length b < 2 ^ 32" and "lossless cx"
  shows "cs_columns scan' = cs_columns scan @ [c] \<and> cs_decoded scan' = cs_decoded scan + length (co_values c)"
proof -
  let ?p = "row_at s i"
  have p: "header + la_segments la * 32 + i * 64 = ?p" using assms(4) by (simp add: row_at_def)
  obtain state valid where c: "column_state n c = Inr (state, valid)" "length (co_values c) = valid * dtype_width (co_dtype c)"
    "compress cx (co_dtype c) (co_values c) (selected_encoding encoding valid) = Inr payload"
    "row_written base ?p n c (selected_encoding encoding valid) state b"
    using assms(2) unfolding column_written_def by blast
  obtain row validity valid' taken1 got decoded taken2 where r: "read_row b la ?p (cs_previous scan) = Inr row"
    "read_bitmap b la ?p row (cs_ranges scan) = Inr (validity, valid', taken1)"
    "read_payload cx b True la ?p row valid' (cs_decoded scan) taken1 = Inr (got, decoded, taken2)"
    "cs_columns scan' = cs_columns scan @ [\<lparr>co_semantic = cr_semantic row, co_dtype = cr_dtype row,
            co_required = (cr_flags row div 16 mod 2 = 1), co_validity = validity, co_values = got\<rparr>]"
    "cs_decoded scan' = decoded"
    using assms(1) unfolding read_column_def Let_def p by (auto simp: res split: prod.splits)
  have st: "state \<le> 2" by (rule column_state_bound) (rule c(1))
  note row = read_row_back [OF r(1) c(4) assms(6) st]
  have flags: "cr_flags row mod 4 = state" "(cr_flags row div 16 mod 2 = 1) = co_required c"
    using row(4) st by (auto simp: le_Suc_eq numeral_2_eq_2)
  have bm: "validity = co_validity c" "valid' = valid"
    using read_bitmap_back [OF r(2) c(4,1) flags(1) assms(5,7)] by simp_all
  have "got = co_values c \<and> decoded = cs_decoded scan + length (co_values c)"
    using read_payload_back [OF r(3) assms(3) c(3) _ row(3,2) assms(7,8)] c(2) bm(2) by simp
  then show ?thesis using r(4,5) row(1,2) flags(2) bm(1) by simp
qed

lemma read_columns_back:
  assumes "\<forall>j < length cols. \<exists>payload. column_written cx base (row_at s j) n encoding (cols ! j) payload b \<and>
      payload_written base (row_at s j) payload b"
    and "list_all (\<lambda>c. co_semantic c < 2 ^ 16) cols" and "la_segments la = s" and "la_points la = n"
    and "length b < 2 ^ 32" and "lossless cx" and "i \<le> length cols"
    and "fold_res (read_column cx b True la) [0..<i] \<lparr>cs_columns = [], cs_previous = 0, cs_decoded = 0, cs_ranges = []\<rparr> = Inr scan"
  shows "cs_columns scan = take i cols"
  using assms(7,8)
proof (induction i arbitrary: scan)
  case (Suc i)
  obtain scan1 where g: "fold_res (read_column cx b True la) [0..<i]
      \<lparr>cs_columns = [], cs_previous = 0, cs_decoded = 0, cs_ranges = []\<rparr> = Inr scan1"
    "read_column cx b True la i scan1 = Inr scan"
    using Suc.prems(2) by (auto simp: fold_res_append res)
  have i: "i < length cols" using Suc.prems(1) by simp
  obtain payload where w: "column_written cx base (row_at s i) n encoding (cols ! i) payload b"
    "payload_written base (row_at s i) payload b"
    using assms(1) i by blast
  have "co_semantic (cols ! i) < 2 ^ 16" using assms(2) i by (auto simp: list_all_length)
  then have "cs_columns scan = cs_columns scan1 @ [cols ! i]"
    using read_column_back [OF g(2) w assms(3,4) _ assms(5,6)] by simp
  then show ?case using Suc.IH [OF _ g(1)] i by (simp add: take_Suc_conv_app_nth)
qed simp

text \<open>C33. \<open>Chunk::encode\<close> and \<open>decode\<close>: over a lossless compressor, every chunk that encodes, raw
  or compressed, decodes to itself: identifiers, segment table, and of every column the semantic,
  the type, the required flag, the validity bitmap and the values.\<close>

theorem encoded_chunk_decodes:
  assumes "typed_chunk c" and "lossless cx" and "encode_chunk cx c encoding = Inr b"
  shows "decode_chunk cx b = Inr c"
proof -
  obtain c' where w: "write_chunk cx c encoding = Inr b" and d: "decode_chunk cx b = Inr c'"
    using assms(3) by (auto simp: encode_chunk_def res)
  let ?s = "length (ch_segments c)" and ?k = "length (ch_columns c)"
  obtain n where n: "n \<le> 1000000" "?s \<le> 65536" "?k \<le> 64" and cw: "chunk_written cx c encoding n b"
    using write_chunk_written [OF w assms(1)] by blast
  obtain la segments scan chunk_id profile where r: "read_header cx b = Inr la" "read_segments b la = Inr segments"
    "fold_res (read_column cx b True la) [0..<la_columns la]
       \<lparr>cs_columns = [], cs_previous = 0, cs_decoded = 0, cs_ranges = []\<rparr> = Inr scan"
    "read_id b 16 = Inr chunk_id" "read_id b 32 = Inr profile"
    "c' = \<lparr>ch_id = chunk_id, ch_profile = profile, ch_segments = segments, ch_columns = cs_columns scan\<rparr>"
    using d by (auto simp: decode_chunk_def read_layout_def res split: prod.splits)
  note h = read_header_Inr [OF r(1)]
  have hw: "slice 16 16 b = ch_id c" "slice 32 16 b = ch_profile c" "slice 48 4 b = le_bytes 4 n"
    "slice 52 4 b = le_bytes 4 ?s" "slice 56 2 b = le_bytes 2 ?k"
    using cw by (simp_all add: chunk_written_def header_written_def Let_def)
  have la: "la_points la = n" "la_segments la = ?s" "la_columns la = ?k"
    using read_field [OF h(2) hw(3)] read_field [OF h(3) hw(4)] read_field [OF h(4) hw(5)] n by simp_all
  have len: "length b < 2 ^ 32" using h(1) by (simp add: max_chunk_def)
  have t: "list_all (\<lambda>(segment, count). length segment = 16 \<and> count < 2 ^ 32) (ch_segments c)"
    "list_all (\<lambda>col. co_semantic col < 2 ^ 16) (ch_columns c)"
    using assms(1) by (simp_all add: typed_chunk_def)
  have sw: "\<forall>j < ?s. segment_written j (ch_segments c ! j) b"
    using cw by (simp add: chunk_written_def Let_def)
  obtain sum0 where "fold_res (read_segment b) [0..<?s] ([], 0) = Inr (segments, sum0)"
    using r(2) la by (auto simp: read_segments_def res split: prod.splits)
  then have "segments = ch_segments c" using read_segments_back [OF sw t(1) order_refl] by simp
  moreover have cols: "\<forall>j < ?k. \<exists>payload. column_written cx (row_at ?s ?k) (row_at ?s j) n encoding (ch_columns c ! j) payload b \<and>
      payload_written (row_at ?s ?k) (row_at ?s j) payload b"
    using cw by (simp add: chunk_written_def Let_def)
  have "cs_columns scan = ch_columns c"
    using read_columns_back [OF cols t(2) la(2,1) len assms(2) order_refl] r(3) la(3) by simp
  moreover have "chunk_id = ch_id c" "profile = ch_profile c"
    using r(4,5) hw by (auto simp: read_id_def res)
  ultimately show ?thesis using d r(6) by simp
qed

lemma dot_encodes: "encode_chunk plain_codecs dot_chunk Pco8 = Inr dot_bytes"
  by (simp add: encode_chunk_def dot_encoded dot_decoded)

theorem encoded_chunk_decodes_witness: "decode_chunk plain_codecs dot_bytes = Inr dot_chunk"
  by (rule encoded_chunk_decodes [OF _ plain_lossless dot_encodes]) (simp add: typed_chunk_def dot_chunk_def)

section \<open>The size without the values\<close>

text \<open>The two ways of scanning a column table differ in the values alone.\<close>

definition same_scan :: "column_scan \<Rightarrow> column_scan \<Rightarrow> bool" where
  "same_scan full bare \<longleftrightarrow>
     map co_semantic (cs_columns full) = map co_semantic (cs_columns bare) \<and> cs_previous full = cs_previous bare \<and>
     cs_decoded full = cs_decoded bare \<and> cs_ranges full = cs_ranges bare \<and>
     cs_decoded full = sum_list (map (length \<circ> co_values) (cs_columns full)) \<and> cs_decoded full \<le> max_chunk"

lemma length_decode_items: "decode_items count items acc = Inr numbers \<Longrightarrow> length numbers = count"
  by (induction count items acc rule: decode_items.induct) (auto simp: res)

lemma length_concat_le_bytes: "length (concat (map (le_bytes w) numbers)) = length numbers * w"
  by (induction numbers) simp_all

lemma length_decompress: "decompress cx t payload count = Inr got \<Longrightarrow> length got = count * dtype_width t"
  by (auto simp: decompress_def decode_numbers_def res length_concat_le_bytes split: sum.splits dest!: length_decode_items)

lemma take_range_length:
  "take_range b offset len low (length b) taken = Inr (x, taken') \<Longrightarrow> length x = len"
  by (auto simp: take_range_def res slice_def split: if_splits)

lemma read_payload_bare:
  assumes "read_payload cx b True la p row valid decoded taken = Inr (got, decoded', taken')"
  shows "read_payload cx b False la p row valid decoded taken = Inr ([], decoded', taken')"
    "decoded' = decoded + length got" "decoded' \<le> max_chunk"
proof -
  let ?w = "dtype_width (cr_dtype row)"
  obtain payload_len payload_at found taken1 where r:
    "take_range b payload_at payload_len (la_start la) (length b) taken = Inr (found, taken1)"
    "cr_encoding row = RawEncoding \<longrightarrow> payload_len = valid * ?w"
    "(if cr_encoding row = RawEncoding then Inr found else decompress cx (cr_dtype row) found valid) = Inr got"
    "decoded' = decoded + valid * ?w" "decoded' \<le> max_chunk"
    using assms unfolding read_payload_def Let_def attempt_Inr guard_Inr by (auto simp: res split: prod.splits)
  have "length got = valid * ?w"
  proof (cases "cr_encoding row = RawEncoding")
    case True
    then show ?thesis using r(2,3) take_range_length [OF r(1)] by simp
  next
    case False
    then show ?thesis using r(3) length_decompress by simp
  qed
  then show "decoded' = decoded + length got" "decoded' \<le> max_chunk" using r(4,5) by simp_all
  show "read_payload cx b False la p row valid decoded taken = Inr ([], decoded', taken')"
    using assms unfolding read_payload_def Let_def attempt_Inr guard_Inr by (auto simp: res split: prod.splits)
qed

lemma read_column_bare:
  assumes "read_column cx b True la i full = Inr full'" and "same_scan full bare"
  obtains bare' where "read_column cx b False la i bare = Inr bare'" "same_scan full' bare'"
proof -
  let ?p = "header + la_segments la * 32 + i * 64"
  obtain row validity valid taken1 got decoded taken2 where r: "read_row b la ?p (cs_previous full) = Inr row"
    "read_bitmap b la ?p row (cs_ranges full) = Inr (validity, valid, taken1)"
    "read_payload cx b True la ?p row valid (cs_decoded full) taken1 = Inr (got, decoded, taken2)"
    "cr_semantic row = 12 \<longrightarrow> cr_dtype row = U8"
    "full' = \<lparr>cs_columns = cs_columns full @ [\<lparr>co_semantic = cr_semantic row, co_dtype = cr_dtype row,
            co_required = (cr_flags row div 16 mod 2 = 1), co_validity = validity, co_values = got\<rparr>],
        cs_previous = cr_semantic row, cs_decoded = decoded, cs_ranges = taken2\<rparr>"
    using assms(1) unfolding read_column_def Let_def by (auto simp: res split: prod.splits)
  note bare = read_payload_bare [OF r(3)]
  let ?bare = "\<lparr>cs_columns = cs_columns bare @ [\<lparr>co_semantic = cr_semantic row, co_dtype = cr_dtype row,
            co_required = (cr_flags row div 16 mod 2 = 1), co_validity = validity, co_values = []\<rparr>],
        cs_previous = cr_semantic row, cs_decoded = decoded, cs_ranges = taken2\<rparr>"
  have "read_column cx b False la i bare = Inr ?bare"
    using assms(2) r(1,2,4) bare(1) by (simp add: read_column_def Let_def same_scan_def res)
  moreover have "same_scan full' ?bare"
    using assms(2) r(5) bare(2,3) by (simp add: same_scan_def)
  ultimately show thesis by (rule that)
qed

lemma read_columns_bare:
  assumes "fold_res (read_column cx b True la) is full = Inr full'" and "same_scan full bare"
  shows "\<exists>bare'. fold_res (read_column cx b False la) is bare = Inr bare' \<and> same_scan full' bare'"
  using assms
proof (induction "is" arbitrary: full bare)
  case (Cons i "is")
  obtain full1 where f: "read_column cx b True la i full = Inr full1" "fold_res (read_column cx b True la) is full1 = Inr full'"
    using Cons.prems(1) by (auto simp: res)
  obtain bare1 where "read_column cx b False la i bare = Inr bare1" "same_scan full1 bare1"
    using read_column_bare [OF f(1) Cons.prems(2)] by blast
  then show ?case using Cons.IH [OF f(2)] by (simp add: res)
qed simp

lemma axes_same: "map co_semantic cols = map co_semantic cols' \<Longrightarrow>
  list_ex (\<lambda>c. co_semantic c = axis) cols = list_ex (\<lambda>c. co_semantic c = axis) cols'"
  by (metis (mono_tags, lifting) list_ex_iff image_iff set_map)

text \<open>C40. The size that \<open>decoded_value_bytes\<close> announces without decompressing anything: for a chunk
  that decodes it is the length of the decoded values exactly, and never above \<open>MAX_CHUNK\<close>.\<close>

theorem announced_size_is_exact:
  assumes "decode_chunk cx b = Inr c"
  shows "decoded_value_bytes cx b = Inr (sum_list (map (length \<circ> co_values) (ch_columns c))) \<and>
    sum_list (map (length \<circ> co_values) (ch_columns c)) \<le> max_chunk"
proof -
  let ?empty = "\<lparr>cs_columns = [], cs_previous = 0, cs_decoded = 0, cs_ranges = []\<rparr>"
  obtain la segments full chunk_id profile where r: "read_header cx b = Inr la" "read_segments b la = Inr segments"
    "fold_res (read_column cx b True la) [0..<la_columns la] ?empty = Inr full"
    "list_all (\<lambda>axis. list_ex (\<lambda>c. co_semantic c = axis) (cs_columns full)) [1, 2, 12]"
    "check_ranges b (la_table_end la) (cs_ranges full) = Inr ()"
    "read_id b 16 = Inr chunk_id" "read_id b 32 = Inr profile" "ch_columns c = cs_columns full"
    using assms by (auto simp: decode_chunk_def read_layout_def res split: prod.splits)
  have "same_scan ?empty ?empty" by (simp add: same_scan_def)
  from read_columns_bare [OF r(3) this] obtain bare
    where b: "fold_res (read_column cx b False la) [0..<la_columns la] ?empty = Inr bare" "same_scan full bare" by blast
  then have "list_all (\<lambda>axis. list_ex (\<lambda>c. co_semantic c = axis) (cs_columns bare)) [1, 2, 12]"
    using r(4) axes_same [of "cs_columns full" "cs_columns bare"] by (simp add: same_scan_def)
  then have "decoded_value_bytes cx b = Inr (cs_decoded bare)"
    using r(1,2,5-7) b by (simp add: decoded_value_bytes_def read_layout_def same_scan_def res)
  then show ?thesis using b(2) r(8) by (simp add: same_scan_def)
qed

theorem announced_size_is_exact_witness: "decoded_value_bytes plain_codecs dot_bytes = Inr 7"
  using announced_size_is_exact [OF dot_decoded] by (simp add: dot_chunk_def)

end
