(* ===== verification/Import.thy ===== *)
theory Import
  imports Commit Blobs
begin

text \<open>
  The import of a foreign workspace (\<open>crates/notes-core/src/external_import.rs\<close>) and the bulk
  commands that run it (\<open>store/bulk.rs\<close>): the typed plan, its validation, the operations it
  becomes, and the transaction that applies them and leaves a receipt. The payload of a receipt
  is a JSON value of the importer, an arbitrary type \<open>'j\<close> here with the \<open>serde_json\<close> functions
  as a parameter; SHA-256 is a parameter. The count of structure reconciliations in the outcome
  is a timing statistic and left out.
\<close>

section \<open>Identities\<close>

datatype import_format = Logseq

fun import_format_str :: "import_format \<Rightarrow> string" where
  "import_format_str Logseq = ''logseq''"

definition import_format_of :: "string \<Rightarrow> core_error + import_format" where
  "import_format_of s =
     (if s = ''logseq'' then Inr Logseq else Inl (InvalidInput ''unsupported external import format: {value}''))"

text \<open>\<open>ExternalImportDigest([u8; 32])\<close>; its text may be written with capitals.\<close>

type_synonym import_digest = "256 word"

definition import_digest_of_slice :: "nat list \<Rightarrow> core_error + import_digest" where
  "import_digest_of_slice bytes =
     guard (length bytes = 32) (InvalidInput ''external import digest must contain 32 bytes'') (Inr (hash_of_bytes bytes))"

definition import_hex_value :: "char \<Rightarrow> core_error + nat" where
  "import_hex_value c =
     (case hex_value c of
        None \<Rightarrow> Inl (InvalidInput ''external import digest contains a non-hexadecimal character'')
      | Some v \<Rightarrow> Inr v)"

fun import_hex_pairs :: "string \<Rightarrow> core_error + nat list" where
  "import_hex_pairs (high # low # rest) =
     attempt (import_hex_value high) (\<lambda>h.
     attempt (import_hex_value low) (\<lambda>l.
     attempt (import_hex_pairs rest) (\<lambda>bytes. Inr ((h * 16 + l) # bytes))))"
| "import_hex_pairs rest = Inr []"

definition import_digest_of_hex :: "string \<Rightarrow> core_error + import_digest" where
  "import_digest_of_hex s =
     guard (length s = 64) (InvalidInput ''external import digest must contain 64 hexadecimal characters'')
     (attempt (import_hex_pairs s) (\<lambda>bytes. Inr (hash_of_bytes bytes)))"

definition import_digest_hex :: "import_digest \<Rightarrow> string" where
  "import_digest_hex d = concat (map (\<lambda>byte. [lower_digit (byte div 16), lower_digit (byte mod 16)]) (hash_bytes d))"

definition external_page_id :: "uuid \<Rightarrow> core_error + uuid" where
  "external_page_id u = guard (u \<noteq> 0) (InvalidInput ''external page UUID cannot be nil'') (Inr u)"

definition external_block_id :: "uuid \<Rightarrow> core_error + uuid" where
  "external_block_id u = guard (u \<noteq> 0) (InvalidInput ''external block UUID cannot be nil'') (Inr u)"

section \<open>The plan\<close>

record import_identity =
  ii_workspace :: uuid
  ii_namespace :: uuid

record 'j import_provenance =
  iv_format :: import_format
  iv_manifest :: import_digest
  iv_planner :: "32 word"
  iv_identity :: import_identity
  iv_payload :: 'j

datatype import_page_kind = ImportedNote string | ImportedJournal string

record import_block =
  ib_id :: uuid
  ib_parent :: "uuid option"
  ib_order :: order_key
  ib_style :: block_style
  ib_markdown :: string

record import_page =
  ip_id :: uuid
  ip_kind :: import_page_kind
  ip_layout :: page_layout
  ip_aliases :: "string list"
  ip_blocks :: "import_block list"

datatype import_owner = ImportedPage uuid | ImportedBlock uuid

fun domain_owner :: "import_owner \<Rightarrow> attachment_owner" where
  "domain_owner (ImportedPage u) = PageOwner u"
| "domain_owner (ImportedBlock u) = BlockOwner u"

record import_attachment =
  it_uuid :: uuid
  it_owner :: import_owner
  it_hash :: blob_hash
  it_filename :: string
  it_mime :: string
  it_size :: "64 word"

record 'j import_batch =
  im_provenance :: "'j import_provenance"
  im_pages :: "import_page list"
  im_attachments :: "import_attachment list"

text \<open>The receipt, then the numbers of pages, blocks, aliases, attachments and operations.\<close>

datatype import_outcome =
    ImportApplied uuid nat nat nat nat nat
  | ExactNoOp uuid

record 'j import_receipt =
  rc_uuid :: uuid
  rc_format :: import_format
  rc_manifest :: import_digest
  rc_plan :: import_digest
  rc_planner :: "32 word"
  rc_identity :: import_identity
  rc_provenance :: 'j
  rc_imported_at :: int

text \<open>
  What the importer takes from \<open>serde_json\<close> and \<open>sha2\<close>: the text of a payload and of a plan, the
  payload of a text, whether it is a JSON object, and the digest of a text.
\<close>

record 'j json_codec =
  json_text :: "'j \<Rightarrow> string option"
  json_parse :: "string \<Rightarrow> 'j option"
  json_is_object :: "'j \<Rightarrow> bool"
  plan_text :: "import_page list \<Rightarrow> import_attachment list \<Rightarrow> string option"
  plan_sha256 :: "string \<Rightarrow> import_digest"

section \<open>Validating a plan\<close>

text \<open>The local tables of \<open>validate_batch\<close>: the pages, the page of each block, the dates, and who an alias names.\<close>

record import_scan =
  sn_pages :: "(uuid, unit) table"
  sn_blocks :: "(uuid, uuid) table"
  sn_dates :: "(string, unit) table"
  sn_owners :: "(string, uuid) table"

definition empty_scan :: import_scan where
  "empty_scan = \<lparr>sn_pages = tempty, sn_blocks = tempty, sn_dates = tempty, sn_owners = tempty\<rparr>"

definition insert_alias_owner :: "string \<Rightarrow> uuid \<Rightarrow> (string, uuid) table \<Rightarrow> core_error + (string, uuid) table" where
  "insert_alias_owner alias page owners =
     guard (case get owners alias of Some previous \<Rightarrow> previous = page | None \<Rightarrow> True)
       (InvalidInput ''external import alias refers to multiple pages'') (Inr (put alias page owners))"

definition scan_kind :: "externals \<Rightarrow> uuid \<Rightarrow> import_page_kind \<Rightarrow> import_scan \<Rightarrow> core_error + import_scan" where
  "scan_kind ext page kind sc =
     (case kind of
        ImportedNote title \<Rightarrow>
          guard (trim title \<noteq> []) (InvalidInput ''external note title cannot be blank'')
          (attempt (insert_alias_owner (normalize_title ext title) page (sn_owners sc)) (\<lambda>owners.
           Inr (sc\<lparr>sn_owners := owners\<rparr>)))
      | ImportedJournal date \<Rightarrow>
          guard (\<not> has (sn_dates sc) date) (InvalidInput ''external import contains duplicate journal date'')
            (Inr (sc\<lparr>sn_dates := put date () (sn_dates sc)\<rparr>)))"

text \<open>One alias of a page: the aliases of the page so far, and the scan.\<close>

definition scan_alias :: "uuid \<Rightarrow> string \<Rightarrow> string list \<times> import_scan \<Rightarrow> core_error + (string list \<times> import_scan)" where
  "scan_alias page alias = (\<lambda>(seen, sc).
     guard (alias \<notin> set seen) (InvalidInput ''page contains duplicate alias'')
     (attempt (insert_alias_owner alias page (sn_owners sc)) (\<lambda>owners.
      Inr (alias # seen, sc\<lparr>sn_owners := owners\<rparr>))))"

definition scan_block :: "uuid \<Rightarrow> import_block \<Rightarrow> import_scan \<Rightarrow> core_error + import_scan" where
  "scan_block page b sc =
     guard (\<not> has (sn_pages sc) (ib_id b)) (InvalidInput ''UUID is used by both a page and a block'')
     (guard (\<not> has (sn_blocks sc) (ib_id b)) (InvalidInput ''external import contains duplicate block UUID'')
        (Inr (sc\<lparr>sn_blocks := put (ib_id b) page (sn_blocks sc)\<rparr>)))"

definition scan_page :: "externals \<Rightarrow> import_page \<Rightarrow> import_scan \<Rightarrow> core_error + import_scan" where
  "scan_page ext p sc =
     guard (\<not> has (sn_pages sc) (ip_id p)) (InvalidInput ''external import contains duplicate page UUID'')
     (attempt (scan_kind ext (ip_id p) (ip_kind p) (sc\<lparr>sn_pages := put (ip_id p) () (sn_pages sc)\<rparr>)) (\<lambda>sc.
      attempt (fold_res (scan_alias (ip_id p)) (ip_aliases p) ([], sc)) (\<lambda>(_, sc).
      fold_res (scan_block (ip_id p)) (ip_blocks p) sc)))"

text \<open>One block against its page: its parent, and its key among its siblings.\<close>

definition check_sibling ::
    "(uuid, uuid) table \<Rightarrow> uuid \<Rightarrow> import_block \<Rightarrow> (uuid option \<times> order_key) list \<Rightarrow>
       core_error + (uuid option \<times> order_key) list" where
  "check_sibling block_pages page b orders =
     attempt
       (case ib_parent b of
          None \<Rightarrow> Inr ()
        | Some parent \<Rightarrow>
            guard (parent \<noteq> ib_id b) (InvalidInput ''a block cannot be its own parent'')
            (guard (get block_pages parent = Some page) (InvalidInput ''block has a missing or cross-page parent'')
               (Inr ()))) (\<lambda>_.
     guard ((ib_parent b, ib_order b) \<notin> set orders) (InvalidInput ''page contains duplicate sibling order key'')
       (Inr ((ib_parent b, ib_order b) # orders)))"

definition blocks_by_id :: "import_block list \<Rightarrow> (uuid, import_block) table" where
  "blocks_by_id bs = fold (\<lambda>b. put (ib_id b) b) bs tempty"

text \<open>
  The walk from one block towards its root. It stops at a block that is already proven, and a
  block that it meets twice is a cycle. The result is the path.
\<close>

function climb :: "(uuid, import_block) table \<Rightarrow> uuid list \<Rightarrow> uuid list \<Rightarrow> uuid option \<Rightarrow> core_error + uuid list" where
  "climb bs proven path None = Inr path"
| "climb bs proven path (Some u) =
     (if u \<in> set proven then Inr path
      else if u \<in> set path then Inl (InvalidInput ''external import contains a block-parent cycle'')
      else climb bs proven (path @ [u]) (case get bs u of None \<Rightarrow> None | Some b \<Rightarrow> ib_parent b))"
  by pat_completeness auto

termination
proof (relation "measure (\<lambda>(bs, proven, path, cursor).
    case cursor of None \<Rightarrow> 0 | Some u \<Rightarrow> 1 + 2 * card ({u. has bs u} - set path) + (if has bs u then 0 else 1))")
  fix bs :: "(uuid, import_block) table" and proven path :: "uuid list" and u :: uuid
  assume new: "u \<notin> set path"
  let ?left = "\<lambda>path. card ({u. has bs u} - set path)"
  show "((bs, proven, path @ [u], case get bs u of None \<Rightarrow> None | Some b \<Rightarrow> ib_parent b), bs, proven, path, Some u) \<in>
    measure (\<lambda>(bs, proven, path, cursor).
      case cursor of None \<Rightarrow> 0 | Some u \<Rightarrow> 1 + 2 * card ({u. has bs u} - set path) + (if has bs u then 0 else 1))"
  proof (cases "has bs u")
    case True
    have "?left (path @ [u]) < ?left path"
      by (rule psubset_card_mono) (use True new finite_has [of bs] in auto)
    with True show ?thesis by (auto split: option.splits)
  next
    case False
    then have "get bs u = None" by (simp add: has_def)
    then show ?thesis by simp
  qed
qed simp

definition check_tree :: "(uuid, import_block) table \<Rightarrow> uuid \<Rightarrow> uuid list \<Rightarrow> core_error + uuid list" where
  "check_tree bs start proven =
     (if start \<in> set proven then Inr proven
      else attempt (climb bs proven [] (Some start)) (\<lambda>path. Inr (path @ proven)))"

definition check_page_tree :: "(uuid, uuid) table \<Rightarrow> import_page \<Rightarrow> core_error + unit" where
  "check_page_tree block_pages p =
     attempt (fold_res (check_sibling block_pages (ip_id p)) (ip_blocks p) []) (\<lambda>_.
     attempt (fold_res (check_tree (blocks_by_id (ip_blocks p))) (keys (blocks_by_id (ip_blocks p))) []) (\<lambda>_. Inr ()))"

text \<open>One attachment: the keys and the identifiers so far.\<close>

definition owner_planned :: "import_scan \<Rightarrow> import_owner \<Rightarrow> bool" where
  "owner_planned sc owner \<longleftrightarrow>
     (case owner of ImportedPage u \<Rightarrow> has (sn_pages sc) u | ImportedBlock u \<Rightarrow> has (sn_blocks sc) u)"

definition check_attachment_plan ::
    "externals \<Rightarrow> import_scan \<Rightarrow> import_attachment \<Rightarrow> (attachment_owner \<times> blob_hash) list \<times> uuid list \<Rightarrow>
       core_error + (attachment_owner \<times> blob_hash) list \<times> uuid list" where
  "check_attachment_plan ext sc a = (\<lambda>(seen, uuids).
     let owner = domain_owner (it_owner a) in
     guard (owner_planned sc (it_owner a)) (InvalidInput ''external attachment owner does not exist in the import plan'')
     (guard ((owner, it_hash a) \<notin> set seen) (InvalidInput ''external import contains duplicate attachment'')
     (guard (it_uuid a \<noteq> 0 \<and> it_uuid a \<notin> set uuids) (InvalidInput ''external import contains a nil or duplicate attachment UUID'')
     (guard (it_uuid a = attachment_uuid ext owner (it_hash a)) (InvalidInput ''external attachment UUID does not match its owner and hash'')
     (attempt (validate_attachment_filename (it_filename a)) (\<lambda>_.
      guard (trim (it_mime a) \<noteq> []) (InvalidInput ''attachment MIME type is required'')
      (guard (uint (it_size a) \<le> i64_max) (InvalidInput ''attachment size is too large'')
        (Inr ((owner, it_hash a) # seen, it_uuid a # uuids)))))))))"

definition check_provenance :: "'j json_codec \<Rightarrow> 'j import_provenance \<Rightarrow> core_error + unit" where
  "check_provenance codec v =
     guard (iv_planner v \<noteq> 0) (InvalidInput ''external import planner version must be greater than zero'')
     (guard (ii_workspace (iv_identity v) \<noteq> 0 \<and> ii_namespace (iv_identity v) \<noteq> 0)
        (InvalidInput ''external import identity UUIDs cannot be nil'')
     (guard (json_is_object codec (iv_payload v))
        (InvalidInput ''external import provenance payload must be a JSON object'') (Inr ())))"

definition validate_batch :: "externals \<Rightarrow> 'j json_codec \<Rightarrow> 'j import_batch \<Rightarrow> core_error + unit" where
  "validate_batch ext codec batch =
     guard (im_pages batch \<noteq> []) (InvalidInput ''external import must contain at least one page'')
     (attempt (check_provenance codec (im_provenance batch)) (\<lambda>_.
      attempt (fold_res (scan_page ext) (im_pages batch) empty_scan) (\<lambda>sc.
      guard (list_all (\<lambda>p. \<not> has (sn_blocks sc) (ip_id p)) (im_pages batch))
        (InvalidInput ''UUID is used by both a page and a block'')
     (attempt (fold_res (\<lambda>p _. check_page_tree (sn_blocks sc) p) (im_pages batch) ()) (\<lambda>_.
      attempt (fold_res (check_attachment_plan ext sc) (im_attachments batch) ([], [])) (\<lambda>_. Inr ()))))))"

section \<open>The operations of a plan\<close>

record 'j prepared_import =
  pi_batch :: "'j import_batch"
  pi_digest :: import_digest
  pi_json :: string
  pi_pages :: nat
  pi_blocks :: nat
  pi_aliases :: nat
  pi_attachments :: nat

definition prepare_import :: "externals \<Rightarrow> 'j json_codec \<Rightarrow> 'j import_batch \<Rightarrow> core_error + 'j prepared_import" where
  "prepare_import ext codec batch =
     attempt (validate_batch ext codec batch) (\<lambda>_.
     case plan_text codec (im_pages batch) (im_attachments batch) of
       None \<Rightarrow> Inl (InvalidInput ''serializing import plan'')
     | Some plan \<Rightarrow>
         (case json_text codec (iv_payload (im_provenance batch)) of
            None \<Rightarrow> Inl (InvalidInput ''serializing external import provenance'')
          | Some json \<Rightarrow>
              Inr \<lparr>pi_batch = batch, pi_digest = plan_sha256 codec plan, pi_json = json,
                   pi_pages = length (im_pages batch),
                   pi_blocks = sum_list (map (length \<circ> ip_blocks) (im_pages batch)),
                   pi_aliases = sum_list (map (length \<circ> ip_aliases) (im_pages batch)),
                   pi_attachments = length (im_attachments batch)\<rparr>))"

fun domain_kind :: "import_page_kind \<Rightarrow> page_kind" where
  "domain_kind (ImportedNote title) = Note"
| "domain_kind (ImportedJournal date) = Journal date"

fun imported_title :: "import_page_kind \<Rightarrow> string option" where
  "imported_title (ImportedNote title) = Some title"
| "imported_title (ImportedJournal date) = None"

definition page_kinds :: "int \<Rightarrow> import_page \<Rightarrow> op_kind" where
  "page_kinds at p =
     PageCreate \<lparr>pc_uuid = ip_id p, pc_kind = domain_kind (ip_kind p), pc_title = imported_title (ip_kind p),
       pc_layout = ip_layout p, pc_created_at = at\<rparr>"

definition alias_kinds :: "import_page \<Rightarrow> op_kind list" where
  "alias_kinds p = map (\<lambda>alias. PageAliasSet \<lparr>pa_uuid = ip_id p, pa_alias = alias, pa_present = True\<rparr>) (ip_aliases p)"

definition block_kinds :: "int \<Rightarrow> import_page \<Rightarrow> op_kind list" where
  "block_kinds at p =
     map (\<lambda>b. BlockCreate \<lparr>bc_uuid = ib_id b, bc_page_uuid = ip_id p, bc_parent_uuid = ib_parent b,
            bc_order_key = ib_order b, bc_style = ib_style b, bc_markdown = ib_markdown b, bc_created_at = at\<rparr>)
       (ip_blocks p)"

definition attachment_kind :: "import_attachment \<Rightarrow> op_kind" where
  "attachment_kind a =
     AttachmentAdd \<lparr>aa_owner = domain_owner (it_owner a), aa_blob_hash = it_hash a, aa_filename = it_filename a,
       aa_mime = it_mime a, aa_size = it_size a\<rparr>"

definition import_kinds :: "int \<Rightarrow> 'j import_batch \<Rightarrow> op_kind list" where
  "import_kinds at batch =
     map (page_kinds at) (im_pages batch) @ concat (map alias_kinds (im_pages batch)) @
     concat (map (block_kinds at) (im_pages batch)) @ map attachment_kind (im_attachments batch)"

section \<open>Receipts\<close>

text \<open>A row of \<open>external_import_receipts\<close>; \<open>import_format\<close> is unique, so there is at most one per format.\<close>

record stored_receipt =
  sr_uuid :: uuid
  sr_manifest :: "nat list"
  sr_plan :: "nat list"
  sr_planner :: "32 word"
  sr_workspace :: uuid
  sr_namespace :: uuid
  sr_json :: string
  sr_imported_at :: int

text \<open>The store with the table of receipts beside the rows that the commands of the outliner use.\<close>

record import_store =
  is_store :: note_store
  is_receipts :: "(import_format \<times> stored_receipt) list"

definition receipt_of_row :: "'j json_codec \<Rightarrow> import_format \<Rightarrow> stored_receipt \<Rightarrow> core_error + 'j import_receipt" where
  "receipt_of_row codec format r =
     guard (sr_uuid r \<noteq> 0) (InvalidInput ''stored external import receipt UUID cannot be nil'')
     (guard (sr_planner r \<noteq> 0) (InvalidInput ''stored external import planner version must be greater than zero'')
     (guard (sr_workspace r \<noteq> 0 \<and> sr_namespace r \<noteq> 0) (InvalidInput ''stored external import identity UUIDs cannot be nil'')
     (case json_parse codec (sr_json r) of
        None \<Rightarrow> Inl (InvalidInput ''stored import provenance is invalid JSON'')
      | Some payload \<Rightarrow>
          guard (json_is_object codec payload) (InvalidInput ''stored external import provenance must be a JSON object'')
          (attempt (import_digest_of_slice (sr_manifest r)) (\<lambda>manifest.
           attempt (import_digest_of_slice (sr_plan r)) (\<lambda>plan.
           Inr \<lparr>rc_uuid = sr_uuid r, rc_format = format, rc_manifest = manifest, rc_plan = plan, rc_planner = sr_planner r,
                rc_identity = \<lparr>ii_workspace = sr_workspace r, ii_namespace = sr_namespace r\<rparr>,
                rc_provenance = payload, rc_imported_at = sr_imported_at r\<rparr>))))))"

definition stored_import_receipt ::
    "'j json_codec \<Rightarrow> import_format \<Rightarrow> import_store \<Rightarrow> core_error + 'j import_receipt option" where
  "stored_import_receipt codec format s =
     (case map_of (is_receipts s) format of
        None \<Rightarrow> Inr None
      | Some r \<Rightarrow> attempt (receipt_of_row codec format r) (\<lambda>receipt. Inr (Some receipt)))"

definition workspace_has_import_state :: "import_store \<Rightarrow> bool" where
  "workspace_has_import_state s \<longleftrightarrow>
     (let d = nt_db (is_store s) in
      rows (identities d) \<noteq> [] \<or> rows (pages d) \<noteq> [] \<or> rows (blocks d) \<noteq> [] \<or> rows (aliases d) \<noteq> [] \<or>
      rows (tombstones d) \<noteq> [] \<or> rows (applied_ops d) \<noteq> [] \<or> outbox d \<noteq> [] \<or>
      nt_undo (is_store s) \<noteq> [] \<or> nt_redo (is_store s) \<noteq> [] \<or> is_receipts s \<noteq> [])"

definition ensure_workspace_empty :: "import_store \<Rightarrow> core_error + unit" where
  "ensure_workspace_empty s =
     guard (\<not> workspace_has_import_state s)
       (Conflict ''external import requires an empty workspace; implicit merge is not supported'') (Inr ())"

definition same_import :: "'j prepared_import \<Rightarrow> 'j import_receipt \<Rightarrow> bool" where
  "same_import p receipt \<longleftrightarrow>
     (let v = im_provenance (pi_batch p) in
      rc_manifest receipt = iv_manifest v \<and> rc_plan receipt = pi_digest p \<and> rc_planner receipt = iv_planner v \<and>
      rc_identity receipt = iv_identity v \<and> rc_provenance receipt = iv_payload v)"

definition import_row :: "uuid \<Rightarrow> int \<Rightarrow> 'j prepared_import \<Rightarrow> stored_receipt" where
  "import_row drawn at p =
     (let v = im_provenance (pi_batch p) in
      \<lparr>sr_uuid = drawn, sr_manifest = hash_bytes (iv_manifest v), sr_plan = hash_bytes (pi_digest p),
       sr_planner = iv_planner v, sr_workspace = ii_workspace (iv_identity v), sr_namespace = ii_namespace (iv_identity v),
       sr_json = pi_json p, sr_imported_at = at\<rparr>)"

text \<open>\<open>BulkMutation\<close>: the value, whether anything was written, and the store.\<close>

definition apply_import_in_transaction ::
    "'j json_codec \<Rightarrow> world \<Rightarrow> uuid \<Rightarrow> 'j prepared_import \<Rightarrow> import_store \<Rightarrow>
       core_error + (import_outcome \<times> bool \<times> import_store)" where
  "apply_import_in_transaction codec w drawn p s =
     (let batch = pi_batch p; v = im_provenance batch; d = nt_db (is_store s) in
      guard (ii_workspace (iv_identity v) = workspace d) (Conflict ''external import belongs to another workspace'')
     (attempt (fold_res (\<lambda>q _. validate_page_identity (w_ext w) (workspace d) (ip_id q) (domain_kind (ip_kind q)))
         (im_pages batch) ()) (\<lambda>_.
      attempt (stored_import_receipt codec (iv_format v) s) (\<lambda>stored.
      case stored of
        Some receipt \<Rightarrow>
          if same_import p receipt then Inr (ExactNoOp (rc_uuid receipt), False, s)
          else Inl (Conflict ''this import format already has a receipt for a different manifest, plan, or identity context'')
      | None \<Rightarrow>
          attempt (ensure_workspace_empty s) (\<lambda>_.
          let at = now_secs (w_env w); kinds = import_kinds at batch in
          attempt (fold_res (\<lambda>k _. validate_kind k) kinds ()) (\<lambda>_.
          attempt (apply_local_kinds (w_ext w) (w_env w) kinds Deferred Full d) (\<lambda>(ops, d).
          Inr (ImportApplied drawn (pi_pages p) (pi_blocks p) (pi_aliases p) (pi_attachments p) (length ops), True,
               s\<lparr>is_store := (is_store s)\<lparr>nt_db := d\<rparr>,
                 is_receipts := is_receipts s @ [(iv_format v, import_row drawn at p)]\<rparr>))))))))"

section \<open>Bulk commands\<close>

record 'a bulk_committed =
  bm_value :: 'a
  bm_version :: "int option"
  bm_epoch :: int

text \<open>
  \<open>NotesStore::execute_bulk\<close>. A writing bulk command replaces the workspace: it advances both the
  version and the epoch. A quiet one may not have written.
\<close>

definition execute_bulk ::
    "(import_store \<Rightarrow> core_error + ('a \<times> bool \<times> import_store)) \<Rightarrow> import_store \<Rightarrow>
       core_error + ('a bulk_committed \<times> import_store)" where
  "execute_bulk plan s =
     attempt (require_initialized_structure_projection (nt_db (is_store s))) (\<lambda>_.
     attempt (plan s) (\<lambda>(v, wrote, s').
     guard (wrote \<or> s' = s) (InvalidInput ''a quiet bulk command cannot perform SQL writes'')
     (let st = is_store s' in
      if wrote
      then guard (nt_version st < i64_max \<and> nt_epoch st < i64_max) Database
        (Inr (\<lparr>bm_value = v, bm_version = Some (nt_version st + 1), bm_epoch = nt_epoch st + 1\<rparr>,
              s'\<lparr>is_store := st\<lparr>nt_version := nt_version st + 1, nt_epoch := nt_epoch st + 1\<rparr>\<rparr>))
      else Inr (\<lparr>bm_value = v, bm_version = None, bm_epoch = nt_epoch st\<rparr>, s'))))"

definition apply_external_import ::
    "'j json_codec \<Rightarrow> world \<Rightarrow> uuid \<Rightarrow> 'j import_batch \<Rightarrow> import_store \<Rightarrow>
       core_error + (import_outcome bulk_committed \<times> import_store)" where
  "apply_external_import codec w drawn batch s =
     attempt (prepare_import (w_ext w) codec batch) (\<lambda>p. execute_bulk (apply_import_in_transaction codec w drawn p) s)"

text \<open>The two reads of the preview.\<close>

definition external_import_receipt :: "'j json_codec \<Rightarrow> import_format \<Rightarrow> import_store \<Rightarrow> core_error + 'j import_receipt option" where
  "external_import_receipt codec format s = stored_import_receipt codec format s"

definition external_import_destination_is_empty :: "import_store \<Rightarrow> bool" where
  "external_import_destination_is_empty s \<longleftrightarrow> \<not> workspace_has_import_state s"

end
