(* ===== verification/ImportProps.thy ===== *)
theory ImportProps
  imports Import Reachable
begin

text \<open>
  What the import boundary accepts, and that an accepted plan is committed once: validation
  decides a declarative predicate on plans, and after an import every further one is recognised as
  the same plan or refused, without a write.
\<close>

section \<open>Well-formed plans\<close>

text \<open>Who each normalized title and alias names.\<close>

definition kind_owners :: "externals \<Rightarrow> import_page \<Rightarrow> (string \<times> uuid) list" where
  "kind_owners ext p =
     (case ip_kind p of ImportedNote title \<Rightarrow> [(normalize_title ext title, ip_id p)] | ImportedJournal _ \<Rightarrow> [])"

definition page_dates :: "import_page \<Rightarrow> string list" where
  "page_dates p = (case ip_kind p of ImportedNote _ \<Rightarrow> [] | ImportedJournal date \<Rightarrow> [date])"

definition title_ok :: "import_page \<Rightarrow> bool" where
  "title_ok p \<longleftrightarrow> (case ip_kind p of ImportedNote title \<Rightarrow> trim title \<noteq> [] | ImportedJournal _ \<Rightarrow> True)"

definition page_owners :: "externals \<Rightarrow> import_page \<Rightarrow> (string \<times> uuid) list" where
  "page_owners ext p = kind_owners ext p @ map (\<lambda>alias. (alias, ip_id p)) (ip_aliases p)"

definition plan_owners :: "externals \<Rightarrow> import_page list \<Rightarrow> (string \<times> uuid) list" where
  "plan_owners ext ps = concat (map (page_owners ext) ps)"

definition plan_dates :: "import_page list \<Rightarrow> string list" where
  "plan_dates ps = concat (map page_dates ps)"

definition plan_block_ids :: "import_page list \<Rightarrow> uuid list" where
  "plan_block_ids ps = concat (map (map ib_id \<circ> ip_blocks) ps)"

definition page_well_formed :: "import_page \<Rightarrow> bool" where
  "page_well_formed p \<longleftrightarrow>
     title_ok p \<and> distinct (ip_aliases p) \<and> distinct (map (\<lambda>b. (ib_parent b, ib_order b)) (ip_blocks p)) \<and>
     (\<forall>b \<in> set (ip_blocks p). \<forall>parent. ib_parent b = Some parent \<longrightarrow> parent \<in> ib_id ` set (ip_blocks p)) \<and>
     acyclic {(ib_id b, parent) | b parent. b \<in> set (ip_blocks p) \<and> ib_parent b = Some parent}"

definition attachment_well_formed :: "externals \<Rightarrow> import_page list \<Rightarrow> import_attachment \<Rightarrow> bool" where
  "attachment_well_formed ext ps a \<longleftrightarrow>
     (case it_owner a of ImportedPage u \<Rightarrow> u \<in> ip_id ` set ps | ImportedBlock u \<Rightarrow> u \<in> set (plan_block_ids ps)) \<and>
     it_uuid a \<noteq> 0 \<and> it_uuid a = attachment_uuid ext (domain_owner (it_owner a)) (it_hash a) \<and>
     validate_attachment_filename (it_filename a) = Inr () \<and> trim (it_mime a) \<noteq> [] \<and> uint (it_size a) \<le> i64_max"

definition plan_well_formed :: "externals \<Rightarrow> 'j json_codec \<Rightarrow> 'j import_batch \<Rightarrow> bool" where
  "plan_well_formed ext codec batch \<longleftrightarrow>
     (let ps = im_pages batch; as = im_attachments batch; v = im_provenance batch in
      ps \<noteq> [] \<and> iv_planner v \<noteq> 0 \<and> ii_workspace (iv_identity v) \<noteq> 0 \<and> ii_namespace (iv_identity v) \<noteq> 0 \<and>
      json_is_object codec (iv_payload v) \<and>
      distinct (map ip_id ps @ plan_block_ids ps) \<and> distinct (plan_dates ps) \<and> single_valued (set (plan_owners ext ps)) \<and>
      (\<forall>p \<in> set ps. page_well_formed p) \<and> (\<forall>a \<in> set as. attachment_well_formed ext ps a) \<and>
      distinct (map (\<lambda>a. (domain_owner (it_owner a), it_hash a)) as) \<and> distinct (map it_uuid as))"

section \<open>The scan\<close>

lemma insert_owner_Inr:
  "insert_alias_owner alias page owners = Inr owners' \<longleftrightarrow>
     (\<forall>q. get owners alias = Some q \<longrightarrow> q = page) \<and> owners' = put alias page owners"
  by (auto simp: insert_alias_owner_def res split: option.splits)

lemma get_fold_owners:
  "get (fold (\<lambda>a. put a page) as owners) a = (if a \<in> set as then Some page else get owners a)"
  by (induction as arbitrary: owners) auto

lemma scan_aliases_Inr:
  "fold_res (scan_alias page) as (seen, sc) = Inr r \<longleftrightarrow>
     distinct as \<and> set as \<inter> set seen = {} \<and> (\<forall>a \<in> set as. \<forall>q. get (sn_owners sc) a = Some q \<longrightarrow> q = page) \<and>
     r = (rev as @ seen, sc\<lparr>sn_owners := fold (\<lambda>a. put a page) as (sn_owners sc)\<rparr>)"
proof (induction as arbitrary: seen sc)
  case (Cons a as)
  have "scan_alias page a (seen, sc) = Inr t \<longleftrightarrow>
      a \<notin> set seen \<and> (\<forall>q. get (sn_owners sc) a = Some q \<longrightarrow> q = page) \<and>
      t = (a # seen, sc\<lparr>sn_owners := put a page (sn_owners sc)\<rparr>)" for t
    by (auto simp: scan_alias_def res insert_owner_Inr)
  then show ?case by (auto simp: res Cons.IH)
qed (auto simp: eq_commute)

lemma scan_blocks_Inr:
  "fold_res (scan_block page) bs sc = Inr r \<longleftrightarrow>
     distinct (map ib_id bs) \<and> (\<forall>u \<in> ib_id ` set bs. \<not> has (sn_pages sc) u \<and> \<not> has (sn_blocks sc) u) \<and>
     r = sc\<lparr>sn_blocks := fold (\<lambda>u. put u page) (map ib_id bs) (sn_blocks sc)\<rparr>"
proof (induction bs arbitrary: sc)
  case (Cons b bs)
  have "scan_block page b sc = Inr t \<longleftrightarrow>
      \<not> has (sn_pages sc) (ib_id b) \<and> \<not> has (sn_blocks sc) (ib_id b) \<and>
      t = sc\<lparr>sn_blocks := put (ib_id b) page (sn_blocks sc)\<rparr>" for t
    by (auto simp: scan_block_def res)
  moreover have "ib_id b \<notin> ib_id ` set bs \<longleftrightarrow> (\<forall>c \<in> set bs. ib_id c \<noteq> ib_id b)" by (auto simp: image_iff)
  ultimately show ?case by (auto simp: res Cons.IH)
qed (auto simp: eq_commute)

definition scan_with :: "externals \<Rightarrow> import_page \<Rightarrow> import_scan \<Rightarrow> import_scan" where
  "scan_with ext p sc =
     \<lparr>sn_pages = put (ip_id p) () (sn_pages sc), sn_blocks = fold (\<lambda>u. put u (ip_id p)) (map ib_id (ip_blocks p)) (sn_blocks sc),
      sn_dates = fold (\<lambda>date. put date ()) (page_dates p) (sn_dates sc),
      sn_owners = fold (\<lambda>a. put a (ip_id p)) (map fst (page_owners ext p)) (sn_owners sc)\<rparr>"

lemma map_fst_page_owners: "map fst (page_owners ext p) = map fst (kind_owners ext p) @ ip_aliases p"
  by (simp add: page_owners_def comp_def)

lemma scan_page_Inr:
  "scan_page ext p sc = Inr sc' \<longleftrightarrow>
     \<not> has (sn_pages sc) (ip_id p) \<and> title_ok p \<and> (\<forall>date \<in> set (page_dates p). \<not> has (sn_dates sc) date) \<and>
     distinct (ip_aliases p) \<and> (\<forall>(a, _) \<in> set (page_owners ext p). \<forall>q. get (sn_owners sc) a = Some q \<longrightarrow> q = ip_id p) \<and>
     distinct (map ib_id (ip_blocks p)) \<and>
     (\<forall>u \<in> ib_id ` set (ip_blocks p). u \<noteq> ip_id p \<and> \<not> has (sn_pages sc) u \<and> \<not> has (sn_blocks sc) u) \<and>
     sc' = scan_with ext p sc"
proof -
  let ?p = "ip_id p" and ?sc = "sc\<lparr>sn_pages := put (ip_id p) () (sn_pages sc)\<rparr>"
  have kind: "scan_kind ext ?p (ip_kind p) ?sc = Inr t \<longleftrightarrow>
      title_ok p \<and> (\<forall>date \<in> set (page_dates p). \<not> has (sn_dates sc) date) \<and>
      (\<forall>(a, _) \<in> set (kind_owners ext p). \<forall>q. get (sn_owners sc) a = Some q \<longrightarrow> q = ?p) \<and>
      t = ?sc\<lparr>sn_dates := fold (\<lambda>date. put date ()) (page_dates p) (sn_dates sc),
             sn_owners := fold (\<lambda>a. put a ?p) (map fst (kind_owners ext p)) (sn_owners sc)\<rparr>" for t
    by (cases "ip_kind p") (auto simp: scan_kind_def res insert_owner_Inr title_ok_def page_dates_def kind_owners_def)
  let ?known = "\<lambda>a. \<forall>q. get (sn_owners sc) a = Some q \<longrightarrow> q = ?p"
  have split: "(\<forall>(a, _) \<in> set (page_owners ext p). ?known a) \<longleftrightarrow>
      (\<forall>(a, _) \<in> set (kind_owners ext p). ?known a) \<and>
      (\<forall>a \<in> set (ip_aliases p). \<forall>q. get (fold (\<lambda>a. put a ?p) (map fst (kind_owners ext p)) (sn_owners sc)) a = Some q \<longrightarrow> q = ?p)"
    by (cases "ip_kind p") (auto simp: page_owners_def kind_owners_def split: if_splits)
  have "scan_page ext p sc = Inr sc' \<longleftrightarrow>
      \<not> has (sn_pages sc) ?p \<and> (\<exists>t. scan_kind ext ?p (ip_kind p) ?sc = Inr t \<and>
        (\<exists>r. fold_res (scan_alias ?p) (ip_aliases p) ([], t) = Inr r \<and> fold_res (scan_block ?p) (ip_blocks p) (snd r) = Inr sc'))"
    by (auto simp: scan_page_def res split: prod.splits)
  then show ?thesis
    unfolding kind scan_aliases_Inr scan_blocks_Inr split
    by (auto simp: scan_with_def map_fst_page_owners comp_def)
qed

text \<open>What the tables hold after the pages \<open>ps\<close>.\<close>

definition plan_blocks :: "import_page list \<Rightarrow> (uuid \<times> uuid) list" where
  "plan_blocks ps = concat (map (\<lambda>p. map (\<lambda>b. (ib_id b, ip_id p)) (ip_blocks p)) ps)"

definition scanned :: "externals \<Rightarrow> import_page list \<Rightarrow> import_scan \<Rightarrow> bool" where
  "scanned ext ps sc \<longleftrightarrow>
     (\<forall>u. has (sn_pages sc) u \<longleftrightarrow> u \<in> ip_id ` set ps) \<and>
     (\<forall>u q. get (sn_blocks sc) u = Some q \<longleftrightarrow> (u, q) \<in> set (plan_blocks ps)) \<and>
     (\<forall>date. has (sn_dates sc) date \<longleftrightarrow> date \<in> set (plan_dates ps)) \<and>
     (\<forall>a q. get (sn_owners sc) a = Some q \<longleftrightarrow> (a, q) \<in> set (plan_owners ext ps))"

text \<open>The pages as the scan sees them: each one against those before it.\<close>

definition extends_plan :: "externals \<Rightarrow> import_page list \<Rightarrow> import_page \<Rightarrow> bool" where
  "extends_plan ext ps p \<longleftrightarrow>
     ip_id p \<notin> ip_id ` set ps \<and> title_ok p \<and> (\<forall>date \<in> set (page_dates p). date \<notin> set (plan_dates ps)) \<and> distinct (ip_aliases p) \<and>
     (\<forall>(a, _) \<in> set (page_owners ext p). \<forall>q. (a, q) \<in> set (plan_owners ext ps) \<longrightarrow> q = ip_id p) \<and>
     distinct (map ib_id (ip_blocks p)) \<and>
     (\<forall>u \<in> ib_id ` set (ip_blocks p). u \<noteq> ip_id p \<and> u \<notin> ip_id ` set ps \<and> u \<notin> set (plan_block_ids ps))"

lemma map_fst_plan_blocks: "map fst (plan_blocks ps) = plan_block_ids ps"
  by (induction ps) (simp_all add: plan_blocks_def plan_block_ids_def)

lemma plan_snoc [simp]:
  "plan_blocks (ps @ [p]) = plan_blocks ps @ map (\<lambda>b. (ib_id b, ip_id p)) (ip_blocks p)"
  "plan_block_ids (ps @ [p]) = plan_block_ids ps @ map ib_id (ip_blocks p)"
  "plan_dates (ps @ [p]) = plan_dates ps @ page_dates p"
  "plan_owners ext (ps @ [p]) = plan_owners ext ps @ page_owners ext p"
  by (simp_all add: plan_blocks_def plan_block_ids_def plan_dates_def plan_owners_def)

lemma scanned_has: "scanned ext ps sc \<Longrightarrow> has (sn_blocks sc) u \<longleftrightarrow> u \<in> set (plan_block_ids ps)"
proof -
  assume "scanned ext ps sc"
  then have "has (sn_blocks sc) u \<longleftrightarrow> (\<exists>q. (u, q) \<in> set (plan_blocks ps))" by (auto simp: scanned_def has_def)
  also have "\<dots> \<longleftrightarrow> u \<in> set (map fst (plan_blocks ps))" by force
  finally show ?thesis by (simp only: map_fst_plan_blocks)
qed

lemma scan_step:
  assumes "scanned ext ps sc"
  shows "scan_page ext p sc = Inr sc' \<longleftrightarrow> extends_plan ext ps p \<and> sc' = scan_with ext p sc"
proof -
  have "has (sn_pages sc) u \<longleftrightarrow> u \<in> ip_id ` set ps" "has (sn_dates sc) date \<longleftrightarrow> date \<in> set (plan_dates ps)"
    "get (sn_owners sc) a = Some q \<longleftrightarrow> (a, q) \<in> set (plan_owners ext ps)" for u date a q
    using assms by (simp_all add: scanned_def)
  then show ?thesis
    unfolding scan_page_Inr extends_plan_def scanned_has [OF assms] by simp
qed

lemma page_owners_own: "(a, q) \<in> set (page_owners ext p) \<Longrightarrow> q = ip_id p"
  by (auto simp: page_owners_def kind_owners_def split: import_page_kind.splits)

lemma has_fold_dates: "has (fold (\<lambda>date. put date ()) ds t) k \<longleftrightarrow> k \<in> set ds \<or> has t k"
  by (induction ds arbitrary: t) auto

lemma scanned_step:
  assumes "scanned ext ps sc" and "extends_plan ext ps p"
  shows "scanned ext (ps @ [p]) (scan_with ext p sc)"
proof -
  have fresh: "(ib_id b, q) \<notin> set (plan_blocks ps)" if "b \<in> set (ip_blocks p)" for b q
  proof
    assume "(ib_id b, q) \<in> set (plan_blocks ps)"
    then have "ib_id b \<in> set (plan_block_ids ps)" unfolding map_fst_plan_blocks [symmetric] by (simp add: rev_image_eqI)
    then show False using assms(2) that by (simp add: extends_plan_def)
  qed
  have blocks: "get (sn_blocks sc) u = Some q \<longleftrightarrow> (u, q) \<in> set (plan_blocks ps)"
    and owners: "get (sn_owners sc) a = Some q \<longleftrightarrow> (a, q) \<in> set (plan_owners ext ps)" for u a q
    using assms(1) by (simp_all add: scanned_def)
  have "get (fold (\<lambda>u. put u (ip_id p)) (map ib_id (ip_blocks p)) (sn_blocks sc)) u = Some q \<longleftrightarrow>
      (u, q) \<in> set (plan_blocks (ps @ [p]))" for u q
    using fresh by (cases "u \<in> ib_id ` set (ip_blocks p)") (auto simp: get_fold_owners blocks)
  moreover have "get (fold (\<lambda>a. put a (ip_id p)) (map fst (page_owners ext p)) (sn_owners sc)) a = Some q \<longleftrightarrow>
      (a, q) \<in> set (plan_owners ext (ps @ [p]))" for a q
  proof (cases "a \<in> fst ` set (page_owners ext p)")
    case True
    then have "(a, ip_id p) \<in> set (page_owners ext p)" using page_owners_own [of _ _ ext p] by force
    then show ?thesis
      using assms(2) True page_owners_own [of a q ext p] by (auto simp: get_fold_owners extends_plan_def)
  next
    case False
    then show ?thesis by (auto simp: get_fold_owners owners image_iff)
  qed
  ultimately show ?thesis
    using assms(1) by (auto simp: scanned_def scan_with_def has_fold_dates)
qed

fun plan_scannable :: "externals \<Rightarrow> import_page list \<Rightarrow> import_page list \<Rightarrow> bool" where
  "plan_scannable ext ps [] \<longleftrightarrow> True"
| "plan_scannable ext ps (p # rest) \<longleftrightarrow> extends_plan ext ps p \<and> plan_scannable ext (ps @ [p]) rest"

lemma scan_pages:
  assumes "scanned ext ps sc"
  shows "(\<exists>sc'. fold_res (scan_page ext) rest sc = Inr sc') \<longleftrightarrow> plan_scannable ext ps rest"
    and "fold_res (scan_page ext) rest sc = Inr sc' \<Longrightarrow> scanned ext (ps @ rest) sc'"
  using assms
proof (induction rest arbitrary: ps sc)
  case (Cons p rest)
  {
    case 1
    show ?case
      by (cases "extends_plan ext ps p") (simp_all add: res scan_step [OF 1] Cons.IH(1) [OF scanned_step [OF 1]])
  next
    case 2
    then show ?case
      using scan_step [OF 2(2)] scanned_step [OF 2(2)] Cons.IH(2) [where ps = "ps @ [p]"] by (auto simp: res)
  }
qed simp_all

section \<open>The walk towards the root\<close>

definition parent_edges :: "(uuid, import_block) table \<Rightarrow> (uuid \<times> uuid) set" where
  "parent_edges bs = {(u, v). \<exists>b. get bs u = Some b \<and> ib_parent b = Some v}"

lemma parent_edges_functional: "(u, v) \<in> parent_edges bs \<Longrightarrow> (u, w) \<in> parent_edges bs \<Longrightarrow> v = w"
  by (auto simp: parent_edges_def)

text \<open>A block from which no cycle is reached.\<close>

definition rooted_block :: "(uuid, import_block) table \<Rightarrow> uuid \<Rightarrow> bool" where
  "rooted_block bs u \<longleftrightarrow> (\<forall>v. (u, v) \<in> (parent_edges bs)\<^sup>* \<longrightarrow> (v, v) \<notin> (parent_edges bs)\<^sup>+)"

lemma rooted_step:
  assumes "\<forall>v. (u, v) \<in> parent_edges bs \<longrightarrow> rooted_block bs v"
  shows "rooted_block bs u"
  unfolding rooted_block_def
proof (intro allI impI)
  let ?P = "parent_edges bs"
  fix x assume x: "(u, x) \<in> ?P\<^sup>*"
  show "(x, x) \<notin> ?P\<^sup>+"
  proof
    assume cycle: "(x, x) \<in> ?P\<^sup>+"
    have "\<exists>v. (u, v) \<in> ?P \<and> (v, x) \<in> ?P\<^sup>*"
      using x
    proof (cases rule: converse_rtranclE)
      case base
      then show ?thesis using cycle by (meson tranclD)
    qed blast
    then show False using assms cycle unfolding rooted_block_def by blast
  qed
qed

lemma climb_Inr:
  assumes "climb bs proven path cursor = Inr path'" and "\<forall>u \<in> set proven. rooted_block bs u"
  shows "(\<forall>u. cursor = Some u \<longrightarrow> rooted_block bs u) \<and> (\<exists>new. path' = path @ new \<and> (\<forall>u \<in> set new. rooted_block bs u))"
  using assms
proof (induction bs proven path cursor rule: climb.induct)
  case (2 bs proven path u)
  show ?case
  proof (cases "u \<in> set proven")
    case False
    let ?next = "case get bs u of None \<Rightarrow> None | Some b \<Rightarrow> ib_parent b"
    have c: "u \<notin> set path" "climb bs proven (path @ [u]) ?next = Inr path'"
      using 2(2) False by (auto split: if_splits)
    then have IH: "\<forall>v. ?next = Some v \<longrightarrow> rooted_block bs v"
      "\<exists>new. path' = (path @ [u]) @ new \<and> (\<forall>u \<in> set new. rooted_block bs u)"
      using 2(1) [OF False] 2(3) by auto
    have "rooted_block bs u"
      by (rule rooted_step) (use IH(1) in \<open>auto simp: parent_edges_def\<close>)
    then show ?thesis using IH(2) by auto
  qed (use 2 in auto)
qed auto

lemma climb_Inl:
  assumes "climb bs proven path cursor = Inl e" and "\<forall>x \<in> set path. \<forall>u. cursor = Some u \<longrightarrow> (x, u) \<in> (parent_edges bs)\<^sup>+"
  shows "\<not> acyclic (parent_edges bs)"
  using assms
proof (induction bs proven path cursor rule: climb.induct)
  case (2 bs proven path u)
  then have new: "u \<notin> set proven" by (auto split: if_splits)
  show ?case
  proof (cases "u \<in> set path")
    case True
    then show ?thesis using 2(3) unfolding acyclic_def by blast
  next
    case False
    let ?next = "case get bs u of None \<Rightarrow> None | Some b \<Rightarrow> ib_parent b"
    have "\<forall>x \<in> set (path @ [u]). \<forall>v. ?next = Some v \<longrightarrow> (x, v) \<in> (parent_edges bs)\<^sup>+"
    proof (intro ballI allI impI)
      fix x v assume x: "x \<in> set (path @ [u])" and "?next = Some v"
      then have e: "(u, v) \<in> parent_edges bs" by (auto simp: parent_edges_def split: option.splits)
      show "(x, v) \<in> (parent_edges bs)\<^sup>+"
        using x 2(3) e by (auto intro: trancl_into_trancl)
    qed
    then show ?thesis using 2(1) [OF new False] 2(2) new False by simp
  qed
qed simp

lemma check_trees:
  assumes "\<forall>u \<in> set proven. rooted_block bs u" and "acyclic (parent_edges bs)"
  shows "is_ok (fold_res (check_tree bs) starts proven)"
  using assms(1)
proof (induction starts arbitrary: proven)
  case (Cons u starts)
  have "\<not> isl (climb bs proven [] (Some u))"
    using climb_Inl [of bs proven "[]" "Some u"] assms(2) by (auto simp: isl_def)
  then obtain path where p: "climb bs proven [] (Some u) = Inr path" by (cases "climb bs proven [] (Some u)") auto
  then have "\<forall>v \<in> set (path @ proven). rooted_block bs v" using climb_Inr [OF p] Cons.prems by auto
  then show ?case using Cons.IH [of proven] Cons.IH [of "path @ proven"] Cons.prems p
    by (simp add: check_tree_def [of bs u] del: climb.simps)
qed simp

lemma check_trees_rooted:
  assumes "fold_res (check_tree bs) starts proven = Inr proven'" and "\<forall>u \<in> set proven. rooted_block bs u"
  shows "\<forall>u \<in> set starts. rooted_block bs u"
  using assms
proof (induction starts arbitrary: proven)
  case (Cons u starts)
  show ?case
  proof (cases "u \<in> set proven")
    case True
    then show ?thesis using Cons by (simp add: check_tree_def [of bs u])
  next
    case False
    then obtain path where p: "climb bs proven [] (Some u) = Inr path"
      "fold_res (check_tree bs) starts (path @ proven) = Inr proven'"
      using Cons.prems(1) by (auto simp: check_tree_def [of bs u] res simp del: climb.simps)
    have c: "rooted_block bs u" "\<forall>v \<in> set (path @ proven). rooted_block bs v"
      using climb_Inr [OF p(1) Cons.prems(2)] Cons.prems(2) by auto
    then show ?thesis using Cons.IH [OF p(2)] by simp
  qed
qed simp

lemma check_tree_exact:
  "is_ok (fold_res (check_tree bs) (keys bs) []) \<longleftrightarrow> acyclic (parent_edges bs)"
proof
  assume "is_ok (fold_res (check_tree bs) (keys bs) [])"
  then obtain proven where "fold_res (check_tree bs) (keys bs) [] = Inr proven" by (auto simp: is_ok_iff)
  then have rooted: "\<forall>u. has bs u \<longrightarrow> rooted_block bs u" using check_trees_rooted [of bs "keys bs" "[]"] by (simp add: set_keys)
  show "acyclic (parent_edges bs)"
    unfolding acyclic_def
  proof (intro allI notI)
    fix x assume x: "(x, x) \<in> (parent_edges bs)\<^sup>+"
    then obtain y where "(x, y) \<in> parent_edges bs" by (meson tranclD)
    then have "has bs x" by (auto simp: parent_edges_def has_def)
    then show False using rooted x unfolding rooted_block_def by blast
  qed
qed (rule check_trees, simp_all)

section \<open>Validation decides well-formedness\<close>

lemma plan_scannable_snoc: "plan_scannable ext ps (xs @ [x]) \<longleftrightarrow> plan_scannable ext ps xs \<and> extends_plan ext (ps @ xs) x"
  by (induction xs arbitrary: ps) auto

definition plan_named :: "externals \<Rightarrow> import_page list \<Rightarrow> bool" where
  "plan_named ext ps \<longleftrightarrow>
     distinct (map ip_id ps) \<and> distinct (plan_block_ids ps) \<and> distinct (plan_dates ps) \<and> single_valued (set (plan_owners ext ps)) \<and>
     (\<forall>p \<in> set ps. title_ok p \<and> distinct (ip_aliases p))"

lemma single_valued_Un:
  assumes "\<And>a q. (a, q) \<in> N \<Longrightarrow> q = u"
  shows "single_valued (M \<union> N) \<longleftrightarrow> single_valued M \<and> (\<forall>(a, _) \<in> N. \<forall>q. (a, q) \<in> M \<longrightarrow> q = u)"
  using assms unfolding single_valued_def by (auto; metis)

lemma plan_named_snoc:
  assumes "u_free \<longleftrightarrow> (\<forall>u \<in> ib_id ` set (ip_blocks p). u \<noteq> ip_id p \<and> u \<notin> ip_id ` set ps)"
  shows "plan_named ext (ps @ [p]) \<and> u_free \<longleftrightarrow> plan_named ext ps \<and> extends_plan ext ps p"
proof -
  have "distinct (page_dates p)" by (cases "ip_kind p") (simp_all add: page_dates_def)
  moreover have "single_valued (set (plan_owners ext (ps @ [p]))) \<longleftrightarrow> single_valued (set (plan_owners ext ps)) \<and>
      (\<forall>(a, _) \<in> set (page_owners ext p). \<forall>q. (a, q) \<in> set (plan_owners ext ps) \<longrightarrow> q = ip_id p)"
    using single_valued_Un [of "set (page_owners ext p)" "ip_id p"] page_owners_own by simp
  ultimately show ?thesis
    unfolding plan_named_def extends_plan_def assms by auto
qed

lemma plan_scannable_named: "plan_scannable ext [] ps \<Longrightarrow> plan_named ext ps"
proof (induction ps rule: rev_induct)
  case (snoc p ps)
  then show ?case using plan_named_snoc [OF refl, of ext ps p] by (auto simp: plan_scannable_snoc)
qed (simp add: plan_named_def plan_block_ids_def plan_dates_def plan_owners_def single_valued_def)

lemma plan_named_scannable:
  "plan_named ext ps \<Longrightarrow> set (plan_block_ids ps) \<inter> ip_id ` set ps = {} \<Longrightarrow> plan_scannable ext [] ps"
proof (induction ps rule: rev_induct)
  case (snoc p ps)
  have "ib_id ` set (ip_blocks p) \<inter> insert (ip_id p) (ip_id ` set ps) = {}" "set (plan_block_ids ps) \<inter> ip_id ` set ps = {}"
    using snoc.prems(2) by auto
  then have "\<forall>u \<in> ib_id ` set (ip_blocks p). u \<noteq> ip_id p \<and> u \<notin> ip_id ` set ps" by blast
  then have "plan_named ext ps \<and> extends_plan ext ps p"
    using plan_named_snoc [OF refl, where p = p and ps = ps and ext = ext] snoc.prems(1) by blast
  then show ?case using snoc.IH \<open>set (plan_block_ids ps) \<inter> ip_id ` set ps = {}\<close> by (simp add: plan_scannable_snoc)
qed simp

lemma siblings_Inr:
  "is_ok (fold_res (check_sibling bp page) bs orders) \<longleftrightarrow>
     distinct (map (\<lambda>b. (ib_parent b, ib_order b)) bs) \<and> (\<lambda>b. (ib_parent b, ib_order b)) ` set bs \<inter> set orders = {} \<and>
     (\<forall>b \<in> set bs. \<forall>parent. ib_parent b = Some parent \<longrightarrow> parent \<noteq> ib_id b \<and> get bp parent = Some page)"
proof (induction bs arbitrary: orders)
  case (Cons b bs)
  have "check_sibling bp page b orders = Inr t \<longleftrightarrow>
      (ib_parent b, ib_order b) \<notin> set orders \<and>
      (\<forall>parent. ib_parent b = Some parent \<longrightarrow> parent \<noteq> ib_id b \<and> get bp parent = Some page) \<and>
      t = (ib_parent b, ib_order b) # orders" for t
    by (auto simp: check_sibling_def res split: option.splits)
  then have "is_ok (fold_res (check_sibling bp page) (b # bs) orders) \<longleftrightarrow>
      (ib_parent b, ib_order b) \<notin> set orders \<and>
      (\<forall>parent. ib_parent b = Some parent \<longrightarrow> parent \<noteq> ib_id b \<and> get bp parent = Some page) \<and>
      is_ok (fold_res (check_sibling bp page) bs ((ib_parent b, ib_order b) # orders))"
    by (auto simp: is_ok_iff res)
  then show ?case unfolding Cons.IH by (auto simp: image_iff)
qed simp

lemma get_blocks_by_id:
  "distinct (map ib_id bs) \<Longrightarrow> get (blocks_by_id bs) u = Some b \<longleftrightarrow> b \<in> set bs \<and> ib_id b = u"
proof (induction bs rule: rev_induct)
  case (snoc c bs)
  then show ?case by (auto simp: blocks_by_id_def rev_image_eqI)
qed (simp add: blocks_by_id_def)

lemma check_page_tree_Inr:
  assumes "scanned ext ps sc" and "plan_named ext ps" and "p \<in> set ps"
  shows "check_page_tree (sn_blocks sc) p = Inr () \<longleftrightarrow>
    distinct (map (\<lambda>b. (ib_parent b, ib_order b)) (ip_blocks p)) \<and>
    (\<forall>b \<in> set (ip_blocks p). \<forall>parent. ib_parent b = Some parent \<longrightarrow> parent \<in> ib_id ` set (ip_blocks p)) \<and>
    acyclic {(ib_id b, parent) | b parent. b \<in> set (ip_blocks p) \<and> ib_parent b = Some parent}"
proof -
  let ?bs = "ip_blocks p" and ?E = "{(ib_id b, parent) | b parent. b \<in> set (ip_blocks p) \<and> ib_parent b = Some parent}"
  have ids: "distinct (map ib_id ?bs)"
  proof -
    obtain as cs where "ps = as @ p # cs" using split_list [OF assms(3)] by blast
    then show ?thesis using assms(2) by (simp add: plan_named_def plan_block_ids_def)
  qed
  have edges: "parent_edges (blocks_by_id ?bs) = ?E"
    by (auto simp: parent_edges_def get_blocks_by_id [OF ids])
  have own: "get (sn_blocks sc) u = Some (ip_id p) \<longleftrightarrow> u \<in> ib_id ` set ?bs" for u
  proof -
    have "get (sn_blocks sc) u = Some (ip_id p) \<longleftrightarrow> (u, ip_id p) \<in> set (plan_blocks ps)"
      using assms(1) by (simp add: scanned_def)
    also have "\<dots> \<longleftrightarrow> (\<exists>q \<in> set ps. (u, ip_id p) \<in> (\<lambda>b. (ib_id b, ip_id q)) ` set (ip_blocks q))"
      by (simp add: plan_blocks_def)
    also have "\<dots> \<longleftrightarrow> (\<exists>q \<in> set ps. ip_id q = ip_id p \<and> u \<in> ib_id ` set (ip_blocks q))"
      by (intro bex_cong refl) auto
    also have "\<dots> \<longleftrightarrow> u \<in> ib_id ` set ?bs"
      using assms(2,3) by (auto simp: plan_named_def distinct_map dest: inj_onD)
    finally show ?thesis .
  qed
  have tree: "is_ok (fold_res (check_tree (blocks_by_id ?bs)) (keys (blocks_by_id ?bs)) []) \<longleftrightarrow> acyclic ?E"
    unfolding check_tree_exact edges ..
  have "check_page_tree (sn_blocks sc) p = Inr () \<longleftrightarrow>
      is_ok (fold_res (check_sibling (sn_blocks sc) (ip_id p)) ?bs []) \<and>
      is_ok (fold_res (check_tree (blocks_by_id ?bs)) (keys (blocks_by_id ?bs)) [])"
    by (auto simp: check_page_tree_def res is_ok_iff)
  also have "\<dots> \<longleftrightarrow> distinct (map (\<lambda>b. (ib_parent b, ib_order b)) ?bs) \<and>
      (\<forall>b \<in> set ?bs. \<forall>parent. ib_parent b = Some parent \<longrightarrow> parent \<noteq> ib_id b \<and> parent \<in> ib_id ` set ?bs) \<and> acyclic ?E"
    unfolding siblings_Inr tree own by simp
  also have "\<dots> \<longleftrightarrow> distinct (map (\<lambda>b. (ib_parent b, ib_order b)) ?bs) \<and>
      (\<forall>b \<in> set ?bs. \<forall>parent. ib_parent b = Some parent \<longrightarrow> parent \<in> ib_id ` set ?bs) \<and> acyclic ?E"
  proof -
    have "parent \<noteq> ib_id b" if "acyclic ?E" "b \<in> set ?bs" "ib_parent b = Some parent" for b parent
    proof
      assume "parent = ib_id b"
      with that(2,3) have "(ib_id b, ib_id b) \<in> ?E" by auto
      then show False using that(1) unfolding acyclic_def by blast
    qed
    then show ?thesis by blast
  qed
  finally show ?thesis .
qed

lemma attachments_Inr:
  assumes "scanned ext ps sc"
  shows "is_ok (fold_res (check_attachment_plan ext sc) as (seen, uuids)) \<longleftrightarrow>
     (\<forall>a \<in> set as. attachment_well_formed ext ps a) \<and>
     distinct (map (\<lambda>a. (domain_owner (it_owner a), it_hash a)) as) \<and> distinct (map it_uuid as) \<and>
     (\<lambda>a. (domain_owner (it_owner a), it_hash a)) ` set as \<inter> set seen = {} \<and> it_uuid ` set as \<inter> set uuids = {}"
proof (induction as arbitrary: seen uuids)
  case (Cons a as)
  let ?key = "(domain_owner (it_owner a), it_hash a)"
  have owner: "owner_planned sc owner \<longleftrightarrow>
      (case owner of ImportedPage u \<Rightarrow> u \<in> ip_id ` set ps | ImportedBlock u \<Rightarrow> u \<in> set (plan_block_ids ps))" for owner
    using assms scanned_has [OF assms] by (simp add: owner_planned_def scanned_def split: import_owner.splits)
  have "check_attachment_plan ext sc a (seen, uuids) = Inr t \<longleftrightarrow>
      attachment_well_formed ext ps a \<and> ?key \<notin> set seen \<and> it_uuid a \<notin> set uuids \<and> t = (?key # seen, it_uuid a # uuids)" for t
    by (auto simp: check_attachment_plan_def attachment_well_formed_def res Let_def owner)
  then have "is_ok (fold_res (check_attachment_plan ext sc) (a # as) (seen, uuids)) \<longleftrightarrow>
      attachment_well_formed ext ps a \<and> ?key \<notin> set seen \<and> it_uuid a \<notin> set uuids \<and>
      is_ok (fold_res (check_attachment_plan ext sc) as (?key # seen, it_uuid a # uuids))"
    by (auto simp: is_ok_iff res)
  then show ?case unfolding Cons.IH by (auto simp: image_iff)
qed simp

lemma fold_unit_Inr: "fold_res (\<lambda>x _. f x) xs () = Inr () \<longleftrightarrow> (\<forall>x \<in> set xs. f x = Inr ())"
  by (induction xs) (auto simp: res)

text \<open>C28. The import boundary accepts exactly the plans that are well formed: identifiers distinct
  across pages and blocks, titles and aliases that name one page each, one page per journal date,
  parents on the same page without cycles, distinct sibling keys, and attachments that belong to a
  planned owner, carry the derived identifier, and are not repeated.\<close>

theorem validation_is_exact:
  "validate_batch ext codec batch = Inr () \<longleftrightarrow> plan_well_formed ext codec batch"
proof -
  let ?ps = "im_pages batch" and ?as = "im_attachments batch"
  have empty: "scanned ext [] empty_scan"
    by (simp add: scanned_def empty_scan_def plan_blocks_def plan_dates_def plan_owners_def)
  define after where "after = (\<lambda>sc. list_all (\<lambda>p. \<not> has (sn_blocks sc) (ip_id p)) ?ps \<and>
      (\<forall>p \<in> set ?ps. check_page_tree (sn_blocks sc) p = Inr ()) \<and>
      is_ok (fold_res (check_attachment_plan ext sc) ?as ([], [])))"
  define plan where "plan \<longleftrightarrow> distinct (map ip_id ?ps @ plan_block_ids ?ps) \<and> distinct (plan_dates ?ps) \<and>
      single_valued (set (plan_owners ext ?ps)) \<and> (\<forall>p \<in> set ?ps. page_well_formed p) \<and>
      (\<forall>a \<in> set ?as. attachment_well_formed ext ?ps a) \<and>
      distinct (map (\<lambda>a. (domain_owner (it_owner a), it_hash a)) ?as) \<and> distinct (map it_uuid ?as)"
  have after: "after sc \<longleftrightarrow> set (plan_block_ids ?ps) \<inter> ip_id ` set ?ps = {} \<and>
      (\<forall>p \<in> set ?ps. distinct (map (\<lambda>b. (ib_parent b, ib_order b)) (ip_blocks p)) \<and>
        (\<forall>b \<in> set (ip_blocks p). \<forall>parent. ib_parent b = Some parent \<longrightarrow> parent \<in> ib_id ` set (ip_blocks p)) \<and>
        acyclic {(ib_id b, parent) | b parent. b \<in> set (ip_blocks p) \<and> ib_parent b = Some parent}) \<and>
      (\<forall>a \<in> set ?as. attachment_well_formed ext ?ps a) \<and>
      distinct (map (\<lambda>a. (domain_owner (it_owner a), it_hash a)) ?as) \<and> distinct (map it_uuid ?as)"
    if sc: "scanned ext ?ps sc" and named: "plan_named ext ?ps" for sc
  proof -
    have "list_all (\<lambda>p. \<not> has (sn_blocks sc) (ip_id p)) ?ps \<longleftrightarrow> set (plan_block_ids ?ps) \<inter> ip_id ` set ?ps = {}"
      unfolding scanned_has [OF sc] by (auto simp: list_all_iff)
    then show ?thesis
      unfolding after_def attachments_Inr [OF sc] using check_page_tree_Inr [OF sc named] by simp
  qed
  have "(\<exists>sc. fold_res (scan_page ext) ?ps empty_scan = Inr sc \<and> after sc) \<longleftrightarrow> plan"
  proof
    assume "\<exists>sc. fold_res (scan_page ext) ?ps empty_scan = Inr sc \<and> after sc"
    then obtain sc where f: "fold_res (scan_page ext) ?ps empty_scan = Inr sc" and a: "after sc" by blast
    have sc: "scanned ext ?ps sc" using scan_pages(2) [OF empty f] by simp
    have named: "plan_named ext ?ps"
      using scan_pages(1) [OF empty, of ?ps] f plan_scannable_named by blast
    show plan using a named unfolding after [OF sc named] plan_def plan_named_def page_well_formed_def by auto
  next
    assume p: plan
    then have named: "plan_named ext ?ps" and free: "set (plan_block_ids ?ps) \<inter> ip_id ` set ?ps = {}"
      unfolding plan_def plan_named_def page_well_formed_def by auto
    then obtain sc where f: "fold_res (scan_page ext) ?ps empty_scan = Inr sc"
      using scan_pages(1) [OF empty, of ?ps] plan_named_scannable by blast
    have sc: "scanned ext ?ps sc" using scan_pages(2) [OF empty f] by simp
    have "after sc" unfolding after [OF sc named] using p free unfolding plan_def page_well_formed_def by blast
    with f show "\<exists>sc. fold_res (scan_page ext) ?ps empty_scan = Inr sc \<and> after sc" by blast
  qed
  moreover have "validate_batch ext codec batch = Inr () \<longleftrightarrow>
      ?ps \<noteq> [] \<and> check_provenance codec (im_provenance batch) = Inr () \<and>
      (\<exists>sc. fold_res (scan_page ext) ?ps empty_scan = Inr sc \<and> after sc)"
    unfolding after_def by (auto simp: validate_batch_def res fold_unit_Inr is_ok_iff)
  ultimately show ?thesis
    by (auto simp: plan_well_formed_def plan_def check_provenance_def res Let_def)
qed

end
