(* ===== verification/ImportCommit.thy ===== *)
theory ImportCommit
  imports ImportProps
begin

text \<open>
  An import is committed once. The receipt that the first one leaves decodes to the plan it came
  from, so a repetition is a no-op and every other plan of the format is refused, both without a
  write.
\<close>

section \<open>What a local batch leaves as it was\<close>

lemma apply_authored_settings:
  assumes "apply_authored ext publishes x st = Inr st'"
  shows "structure_version (snd st') = structure_version (snd st) \<and> workspace (snd st') = workspace (snd st)"
proof -
  from assms obtain us st1 st2 where one: "apply_one ext x st = Inr (us, st1)"
    and ins: "lift_db (insert_applied (op_id x)) st1 = Inr st2"
    and push: "(if publishes then lift_db (push_outbox x (timestamp_seconds (op_hlc x))) st2 else Inr st2) = Inr st'"
    by (auto simp: apply_authored_def res)
  have "structure_version (snd st1) = structure_version (snd st)" "workspace (snd st1) = workspace (snd st)"
    using apply_one_meta [OF one] by (simp_all add: meta_eqs)
  then show ?thesis
    using ins push by (auto simp: lift_db_def insert_applied_def push_outbox_def enqueue_ink_def Let_def res
        split: if_splits op_kind.splits)
qed

lemma local_settings:
  assumes "apply_local_kinds ext env kinds policy mode d = Inr (ops, d')"
  shows "structure_version d' = structure_version d" "workspace d' = workspace d"
proof -
  from assms obtain device d1 st where m: "meta_or_insert_device_id env d = (device, d1)"
    and f: "fold_res (apply_authored ext (publishes_authored_ops d1)) ops (effects_for policy mode, d1) = Inr st"
    and d': "d' = (if ops = [] then snd (finish_projections ext st)
           else (snd (finish_projections ext st))\<lparr>last_hlc := Some (op_hlc (last ops))\<rparr>)"
    by (rule apply_local_obtain)
  let ?same = "\<lambda>st. structure_version (snd st) = structure_version d \<and> workspace (snd st) = workspace d"
  have "?same st"
  proof (rule fold_res_invariant [OF f])
    show "?same (effects_for policy mode, d1)" using device_row [OF m] by simp
  qed (use apply_authored_settings in fastforce)
  moreover have "meta (snd (finish_projections ext st)) = meta (snd st)" by (rule meta_finish)
  ultimately have "structure_version (snd (finish_projections ext st)) = structure_version d"
    "workspace (snd (finish_projections ext st)) = workspace d" by (simp_all add: meta_def)
  then show "structure_version d' = structure_version d" "workspace d' = workspace d" by (simp_all add: d')
qed

section \<open>The receipt of a plan\<close>

lemma digest_of_hash_bytes [simp]: "import_digest_of_slice (hash_bytes h) = Inr h"
  by (simp add: import_digest_of_slice_def) (simp add: hash_bytes_def)

definition lossless :: "'j json_codec \<Rightarrow> bool" where
  "lossless codec \<longleftrightarrow> (\<forall>j t. json_text codec j = Some t \<longrightarrow> json_parse codec t = Some j)"

definition receipt_for :: "uuid \<Rightarrow> int \<Rightarrow> 'j prepared_import \<Rightarrow> 'j import_receipt" where
  "receipt_for drawn at p =
     (let v = im_provenance (pi_batch p) in
      \<lparr>rc_uuid = drawn, rc_format = iv_format v, rc_manifest = iv_manifest v, rc_plan = pi_digest p,
       rc_planner = iv_planner v, rc_identity = iv_identity v, rc_provenance = iv_payload v, rc_imported_at = at\<rparr>)"

lemma receipt_for_uuid [simp]: "rc_uuid (receipt_for drawn at p) = drawn"
  by (simp add: receipt_for_def Let_def)

lemma prepared:
  assumes "prepare_import ext codec batch = Inr p"
  shows "pi_batch p = batch" "validate_batch ext codec batch = Inr ()"
    "json_text codec (iv_payload (im_provenance batch)) = Some (pi_json p)"
    "Some (pi_digest p) = map_option (plan_sha256 codec) (plan_text codec (im_pages batch) (im_attachments batch))"
proof -
  show v: "validate_batch ext codec batch = Inr ()" using assms by (auto simp: prepare_import_def res)
  show "pi_batch p = batch" "json_text codec (iv_payload (im_provenance batch)) = Some (pi_json p)"
    "Some (pi_digest p) = map_option (plan_sha256 codec) (plan_text codec (im_pages batch) (im_attachments batch))"
    using assms by (cases "plan_text codec (im_pages batch) (im_attachments batch)";
      cases "json_text codec (iv_payload (im_provenance batch))"; auto simp: prepare_import_def v)+
qed

lemma receipt_of_import_row:
  assumes p: "prepare_import ext codec batch = Inr p" and l: "lossless codec" and d: "drawn \<noteq> 0"
  shows "receipt_of_row codec (iv_format (im_provenance batch)) (import_row drawn at p) = Inr (receipt_for drawn at p)"
proof -
  let ?v = "im_provenance batch"
  have parse: "json_parse codec (pi_json p) = Some (iv_payload ?v)"
    using l prepared(3) [OF p] by (simp add: lossless_def)
  have "check_provenance codec ?v = Inr ()"
    using prepared(2) [OF p] by (auto simp: validate_batch_def res)
  then have v: "iv_planner ?v \<noteq> 0" "ii_workspace (iv_identity ?v) \<noteq> 0" "ii_namespace (iv_identity ?v) \<noteq> 0"
    "json_is_object codec (iv_payload ?v)" by (auto simp: check_provenance_def res)
  show ?thesis
    using v d by (simp add: receipt_of_row_def import_row_def receipt_for_def prepared(1) [OF p] parse Let_def)
qed

section \<open>The first import\<close>

lemma import_applied:
  assumes ok: "apply_external_import codec w drawn batch s = Inr (c, s1)" and wrote: "bm_version c \<noteq> None"
  obtains p ops d where "prepare_import (w_ext w) codec batch = Inr p"
    "ii_workspace (iv_identity (im_provenance batch)) = workspace (nt_db (is_store s))"
    "fold_res (\<lambda>x _. validate_page_identity (w_ext w) (workspace (nt_db (is_store s))) (ip_id x) (domain_kind (ip_kind x)))
       (im_pages batch) () = Inr ()"
    "\<not> workspace_has_import_state s"
    "apply_local_kinds (w_ext w) (w_env w) (import_kinds (now_secs (w_env w)) batch) Deferred Full (nt_db (is_store s)) = Inr (ops, d)"
    "require_initialized_structure_projection (nt_db (is_store s)) = Inr ()"
    "nt_db (is_store s1) = d"
    "is_receipts s1 = [(iv_format (im_provenance batch), import_row drawn (now_secs (w_env w)) p)]"
    "nt_undo (is_store s1) = []" "nt_redo (is_store s1) = []"
    "bm_epoch c = nt_epoch (is_store s1)" "nt_epoch (is_store s1) = nt_epoch (is_store s) + 1"
    "bm_version c = Some (nt_version (is_store s1))" "nt_version (is_store s1) = nt_version (is_store s) + 1"
    "bm_value c = ImportApplied drawn (pi_pages p) (pi_blocks p) (pi_aliases p) (pi_attachments p) (length ops)"
proof -
  from ok obtain p where p: "prepare_import (w_ext w) codec batch = Inr p"
    and b: "execute_bulk (apply_import_in_transaction codec w drawn p) s = Inr (c, s1)"
    by (auto simp: apply_external_import_def res)
  from b have r: "require_initialized_structure_projection (nt_db (is_store s)) = Inr ()"
    by (auto simp: execute_bulk_def res)
  with b obtain v wrote' s' where t: "apply_import_in_transaction codec w drawn p s = Inr (v, wrote', s')"
    by (cases "apply_import_in_transaction codec w drawn p s") (auto simp: execute_bulk_def)
  have c: "(if wrote'
      then guard (nt_version (is_store s') < i64_max \<and> nt_epoch (is_store s') < i64_max) Database
        (Inr (\<lparr>bm_value = v, bm_version = Some (nt_version (is_store s') + 1), bm_epoch = nt_epoch (is_store s') + 1\<rparr>,
              s'\<lparr>is_store := (is_store s')\<lparr>nt_version := nt_version (is_store s') + 1, nt_epoch := nt_epoch (is_store s') + 1\<rparr>\<rparr>))
      else Inr (\<lparr>bm_value = v, bm_version = None, bm_epoch = nt_epoch (is_store s')\<rparr>, s')) = Inr (c, s1)"
    using b by (simp add: execute_bulk_def r t Let_def res split: if_splits)
  have w': wrote' using c wrote by (auto split: if_splits)
  note t = t [unfolded apply_import_in_transaction_def Let_def prepared(1) [OF p]]
  from t w' obtain ops d where t':
    "ii_workspace (iv_identity (im_provenance batch)) = workspace (nt_db (is_store s))"
    "fold_res (\<lambda>x _. validate_page_identity (w_ext w) (workspace (nt_db (is_store s))) (ip_id x) (domain_kind (ip_kind x)))
       (im_pages batch) () = Inr ()"
    "\<not> workspace_has_import_state s"
    "apply_local_kinds (w_ext w) (w_env w) (import_kinds (now_secs (w_env w)) batch) Deferred Full (nt_db (is_store s)) = Inr (ops, d)"
    "v = ImportApplied drawn (pi_pages p) (pi_blocks p) (pi_aliases p) (pi_attachments p) (length ops)"
    "s' = s\<lparr>is_store := (is_store s)\<lparr>nt_db := d\<rparr>,
        is_receipts := is_receipts s @ [(iv_format (im_provenance batch), import_row drawn (now_secs (w_env w)) p)]\<rparr>"
    by (auto simp: res ensure_workspace_empty_def split: option.splits if_splits)
  have e: "is_receipts s = []" "nt_undo (is_store s) = []" "nt_redo (is_store s) = []"
    using t'(3) by (auto simp: workspace_has_import_state_def Let_def)
  show thesis
    by (rule that [OF p t'(1,2,3,4) r]) (use c w' in \<open>auto simp: t'(5,6) e res split: if_splits\<close>)
qed

section \<open>The second import\<close>

lemma later_import:
  assumes first: "apply_external_import codec w drawn batch s = Inr (c, s1)" "bm_version c \<noteq> None"
    and l: "lossless codec" and d: "drawn \<noteq> 0" and p: "prepare_import (w_ext w) codec batch = Inr p"
  shows "apply_external_import codec w' drawn' batch' s1 =
     attempt (prepare_import (w_ext w') codec batch') (\<lambda>q.
     guard (ii_workspace (iv_identity (im_provenance batch')) = workspace (nt_db (is_store s1)))
       (Conflict ''external import belongs to another workspace'')
     (attempt (fold_res (\<lambda>x _. validate_page_identity (w_ext w') (workspace (nt_db (is_store s1))) (ip_id x) (domain_kind (ip_kind x)))
         (im_pages batch') ()) (\<lambda>_.
      if same_import q (receipt_for drawn (now_secs (w_env w)) p)
      then Inr (\<lparr>bm_value = ExactNoOp drawn, bm_version = None, bm_epoch = bm_epoch c\<rparr>, s1)
      else Inl (Conflict ''this import format already has a receipt for a different manifest, plan, or identity context''))))"
proof -
  from first obtain p' ops e where p': "prepare_import (w_ext w) codec batch = Inr p'"
    and r: "require_initialized_structure_projection (nt_db (is_store s)) = Inr ()"
    and loc: "apply_local_kinds (w_ext w) (w_env w) (import_kinds (now_secs (w_env w)) batch) Deferred Full (nt_db (is_store s)) = Inr (ops, e)"
    and s1: "nt_db (is_store s1) = e" "bm_epoch c = nt_epoch (is_store s1)"
      "is_receipts s1 = [(iv_format (im_provenance batch), import_row drawn (now_secs (w_env w)) p')]"
    by (rule import_applied)
  have p'p: "p' = p" using p p' by simp
  have stored: "stored_import_receipt codec (iv_format v) s1 = Inr (Some (receipt_for drawn (now_secs (w_env w)) p))"
    for v :: "'j import_provenance"
    using receipt_of_import_row [OF p l d, of "now_secs (w_env w)"]
    by (cases "iv_format v"; cases "iv_format (im_provenance batch)") (simp add: stored_import_receipt_def s1 p'p)
  have req: "require_initialized_structure_projection (nt_db (is_store s1)) = Inr ()"
    using r local_settings [OF loc] by (simp add: require_initialized_structure_projection_def s1)
  have run: "apply_import_in_transaction codec w' drawn' q s1 =
     guard (ii_workspace (iv_identity (im_provenance (pi_batch q))) = workspace (nt_db (is_store s1)))
       (Conflict ''external import belongs to another workspace'')
     (attempt (fold_res (\<lambda>x _. validate_page_identity (w_ext w') (workspace (nt_db (is_store s1))) (ip_id x) (domain_kind (ip_kind x)))
         (im_pages (pi_batch q)) ()) (\<lambda>_.
      if same_import q (receipt_for drawn (now_secs (w_env w)) p) then Inr (ExactNoOp drawn, False, s1)
      else Inl (Conflict ''this import format already has a receipt for a different manifest, plan, or identity context'')))" for q
    unfolding apply_import_in_transaction_def Let_def stored by simp
  show ?thesis
  proof (cases "prepare_import (w_ext w') codec batch'")
    case (Inr q)
    then show ?thesis
      unfolding apply_external_import_def execute_bulk_def req run
      by (simp add: prepared(1) [OF Inr] s1(2) [symmetric] attempt_def guard_def split: sum.split)
  qed (simp add: apply_external_import_def)
qed

text \<open>An external import is committed once. The first import leaves a receipt of its plan, and
  after it the same plan is recognised: repeating it reports the first receipt and changes nothing.
  No other plan can be applied: an import that still succeeds has the manifest, planner version,
  identity, provenance and plan digest of the first one, and changes nothing either.\<close>

theorem import_is_committed_once:
  assumes "lossless codec" and "drawn \<noteq> 0"
    and "apply_external_import codec w drawn batch s = Inr (c, s1)" and "bm_version c \<noteq> None"
  shows "(w_ext w' = w_ext w \<longrightarrow>
      apply_external_import codec w' drawn' batch s1 =
        Inr (\<lparr>bm_value = ExactNoOp drawn, bm_version = None, bm_epoch = bm_epoch c\<rparr>, s1)) \<and>
    (\<forall>batch' c' s2. apply_external_import codec w' drawn' batch' s1 = Inr (c', s2) \<longrightarrow>
      s2 = s1 \<and> c' = \<lparr>bm_value = ExactNoOp drawn, bm_version = None, bm_epoch = bm_epoch c\<rparr> \<and>
      iv_manifest (im_provenance batch') = iv_manifest (im_provenance batch) \<and>
      iv_planner (im_provenance batch') = iv_planner (im_provenance batch) \<and>
      iv_identity (im_provenance batch') = iv_identity (im_provenance batch) \<and>
      iv_payload (im_provenance batch') = iv_payload (im_provenance batch) \<and>
      map_option (plan_sha256 codec) (plan_text codec (im_pages batch') (im_attachments batch')) =
        map_option (plan_sha256 codec) (plan_text codec (im_pages batch) (im_attachments batch)))"
proof -
  from assms(3,4) obtain p ops e where p: "prepare_import (w_ext w) codec batch = Inr p"
    and here: "ii_workspace (iv_identity (im_provenance batch)) = workspace (nt_db (is_store s))"
      "fold_res (\<lambda>x _. validate_page_identity (w_ext w) (workspace (nt_db (is_store s))) (ip_id x) (domain_kind (ip_kind x)))
         (im_pages batch) () = Inr ()"
    and loc: "apply_local_kinds (w_ext w) (w_env w) (import_kinds (now_secs (w_env w)) batch) Deferred Full (nt_db (is_store s)) = Inr (ops, e)"
    and s1: "nt_db (is_store s1) = e"
    by (rule import_applied)
  have ws: "workspace (nt_db (is_store s1)) = workspace (nt_db (is_store s))" using local_settings [OF loc] s1 by simp
  note later = later_import [OF assms(3,4,1,2) p]
  show ?thesis
  proof (intro conjI impI allI)
    assume "w_ext w' = w_ext w"
    moreover have "same_import p (receipt_for drawn (now_secs (w_env w)) p)" by (simp add: same_import_def receipt_for_def Let_def)
    ultimately show "apply_external_import codec w' drawn' batch s1 =
        Inr (\<lparr>bm_value = ExactNoOp drawn, bm_version = None, bm_epoch = bm_epoch c\<rparr>, s1)"
      unfolding later by (simp add: p here ws)
  next
    fix batch' c' s2 assume "apply_external_import codec w' drawn' batch' s1 = Inr (c', s2)"
    then obtain q where q: "prepare_import (w_ext w') codec batch' = Inr q"
      and same: "same_import q (receipt_for drawn (now_secs (w_env w)) p)"
      and c': "s2 = s1" "c' = \<lparr>bm_value = ExactNoOp drawn, bm_version = None, bm_epoch = bm_epoch c\<rparr>"
      unfolding later by (auto simp: res split: if_splits)
    show "s2 = s1" "c' = \<lparr>bm_value = ExactNoOp drawn, bm_version = None, bm_epoch = bm_epoch c\<rparr>" by fact+
    show "iv_manifest (im_provenance batch') = iv_manifest (im_provenance batch)"
      "iv_planner (im_provenance batch') = iv_planner (im_provenance batch)"
      "iv_identity (im_provenance batch') = iv_identity (im_provenance batch)"
      "iv_payload (im_provenance batch') = iv_payload (im_provenance batch)"
      "map_option (plan_sha256 codec) (plan_text codec (im_pages batch') (im_attachments batch')) =
        map_option (plan_sha256 codec) (plan_text codec (im_pages batch) (im_attachments batch))"
      using same unfolding prepared(4) [OF q, symmetric] prepared(4) [OF p, symmetric]
      by (simp_all add: same_import_def receipt_for_def Let_def prepared(1) [OF q] prepared(1) [OF p])
  qed
qed

end
