(* ===== verification/Spec2Isabelle.thy ===== *)
theory Spec2Isabelle
  imports Exchange Stem PlacementProps EditProps BlobServer OAuthProps InkChunkProps ImportCommit
begin

text \<open>
  A verification development for tangleaf, an offline-first notes application whose replicas
  exchange operations and merge them deterministically. The part of the program that decides what
  the notes are is the Rust crate \<open>crates/notes-core\<close>: every edit, local or delivered, becomes
  an operation stamped with a hybrid logical clock and goes through one apply boundary, which
  keeps last-writer-wins rows, tombstones and structural intents and projects pages, blocks, links
  and attachments from them. This development models that boundary, the commands of the
  outliner above it with their undo history, the import of a foreign workspace, the synchronisation
  between a client and the server, the server's attachments and its OAuth endpoints, and the binary
  format of drawings.

  The theories, in the order in which they build on each other:

  \<^item> \<open>Prelude\<close>: results (\<open>attempt\<close> is the question mark operator, \<open>guard\<close> an early return of
    an error) and sorted tables, which stand for the SQLite tables and the ordered maps.
  \<^item> \<open>Text\<close>: Rust's \<open>str\<close> as its UTF-8 bytes, trimming, hexadecimal numbers.
  \<^item> \<open>Hlc\<close> (\<open>hlc.rs\<close>): the clock, its send and receive rules, its text, its order.
  \<^item> \<open>Externals\<close>: what the code takes from crates that are not in the repository (Unicode case
    folding and normalization, stemming, Markdown events, UUID hashing), as a record of
    functions that every definition that needs one takes as an argument.
  \<^item> \<open>Model\<close> (\<open>model.rs\<close>): page kinds and layouts, block styles, order keys and the key
    between two keys, revisions, aliases, with their parsers and printers.
  \<^item> \<open>Store\<close>: the errors (\<open>error.rs\<close>), the operations (\<open>operation.rs\<close>), the tables of the
    migrations as the record \<open>db\<close>, and row deletions with their foreign-key actions.
  \<^item> \<open>Structure\<close> (\<open>resolve_structure\<close>, \<open>break_structure_cycles\<close>): which intents are usable
    and how cycles of concurrent moves are cut.
  \<^item> \<open>Projection\<close> (\<open>operation/structure.rs\<close>, \<open>reconcile_structure_with_mode\<close>): the two
    loaders of the structural state and the writing of placements.
  \<^item> \<open>References\<close> (\<open>crates/notes-markdown\<close>): the scanner of page and block references.
  \<^item> \<open>Stem\<close> (\<open>stem.rs\<close>): stemming and the full-text queries built from user text.
  \<^item> \<open>Lww\<close>: the last-writer-wins tables; the locale \<open>lww_rows\<close> states what makes a batch of
    writes order-independent and is interpreted for intents, tombstones, aliases and attachments.
  \<^item> \<open>Rows\<close>, \<open>Ink\<close>, \<open>Apply\<close>: page identities, kind guards, attachments; the handwriting
    version graph and its garbage collection, with the owners of a drawing's records (\<open>root_named\<close>); the validation and the thirteen handlers of
    \<open>apply_one_with_effects\<close> with the deferred projections (\<open>effects\<close>).
  \<^item> \<open>Integrity\<close>: the invariant \<open>sound\<close> of the tables of notes and that each handler keeps it; the
    tables of drawings have constraints of their own, which it does not state.
  \<^item> \<open>Replica\<close>, \<open>ReplicaProps\<close>, \<open>Ledger\<close>, \<open>Batches\<close>, \<open>Reachable\<close>: the batches
    (authored, delivered, sequenced, acknowledged), the outbox with its quarantine, the
    settings; the invariant of the outbox and the sequences; the step relation
    \<open>replica_step\<close> and what holds of every reachable database.
  \<^item> \<open>Placement\<close>, \<open>PlacementProps\<close> (\<open>db/blocks.rs\<close>): where a new or moved block goes among its
    siblings and the rebalancing of their order keys; a placed block lands at its anchor.
  \<^item> \<open>Retention\<close> (\<open>ink/history_retention.rs\<close>): what an undo step keeps of a drawing.
  \<^item> \<open>Undo\<close> (\<open>db/history.rs\<close>): the inverses, guards and scopes of a step and the movement
    between the two stacks. \<open>Commit\<close> (\<open>store.rs\<close>): a command as one transaction.
  \<^item> \<open>Outliner\<close> (\<open>db/blocks.rs\<close>), \<open>Pages\<close> (\<open>db/pages.rs\<close>, \<open>db/journals.rs\<close>,
    \<open>db/attachments.rs\<close>), \<open>Document\<close> (\<open>db/document.rs\<close>): the commands of the user.
  \<^item> \<open>Clocks\<close>: every clock stored in the database is below the replica's own, kept by every
    handler and batch. \<open>Commands\<close>, \<open>UndoProps\<close>, \<open>EditProps\<close>: the commands as steps of the
    store, what every reachable store satisfies, what undo restores and what it spares, and
    that a saved text is the text read back.
  \<^item> \<open>Import\<close>, \<open>ImportProps\<close>, \<open>ImportCommit\<close> (\<open>external_import.rs\<close>, \<open>store/bulk.rs\<close>): the typed plan of a
    foreign workspace, its validation, the operations it becomes and the bulk transaction that
    applies them and leaves a receipt; the declarative form of a plan (\<open>plan_well_formed\<close>) that
    validation decides; and that an import is committed once.
  \<^item> \<open>Snapshot\<close>, \<open>SnapshotProps\<close>, \<open>Bootstrap\<close> (\<open>operation/snapshot.rs\<close>, the export and the
    validation in \<open>operation.rs\<close>): the sync snapshot, its export, validation, preparation and
    installation; the locale \<open>keyed_check\<close> of the loops that fill a keyed table, interpreted for
    six of them; the declarative predicate that validation decides; which states export a
    snapshot that can be installed.
  \<^item> \<open>Protocol\<close> (\<open>notes-protocol/src/lib.rs\<close>, \<open>ApiError\<close> in \<open>server/src/api.rs\<close>,
    \<open>notes-sync/src/transport.rs\<close>): refusals, their status codes and what the client makes of them.
  \<^item> \<open>Oplog\<close>, \<open>OplogProps\<close>, \<open>ServerProps\<close> (\<open>server/src/oplog.rs\<close>, \<open>server/src/state.rs\<close>): a user's
    log and the actor that appends a batch, applies it and rolls it back; the log as an
    implementation of a list; what a refused, an accepted batch, a publication and a restart leave.
    The environment says whether a snapshot file can be written (\<open>file_written\<close>); a failure there
    comes after the batch is committed.
  \<^item> \<open>History\<close>: the abstract history (a list in which the position is the sequence), \<open>agrees\<close>,
    what a replica has recorded of it, and the locale \<open>sequencer\<close>, what a client relies on.
  \<^item> \<open>SyncMachine\<close>, \<open>SyncProps\<close>, \<open>Exchange\<close> (\<open>notes-sync/src/machine.rs\<close>): the passes of the
    client over a transport; the locale \<open>exchange\<close> proves them for every sequencer and is
    interpreted for the in-memory server and for the server behind its endpoints. \<open>socket_push\<close> is
    the other way a batch reaches the server, and refuses what the endpoint refuses.
  \<^item> \<open>Blobs\<close> (\<open>crates/notes-blob\<close>): the content-addressed store of attachments as a map from
    hashes to directory entries, its installation, verification, removal and leases.
    \<open>BlobServer\<close> (\<open>server/src/blob_ownership.rs\<close>, the blob endpoints of \<open>server/src/api.rs\<close>): quotas,
    uploads, downloads and the checks of the attachments that operations declare. An upload awaits
    three times (claim, installation, release), and \<open>upload_step\<close> interleaves the parts of any
    number of uploads, with failures, lost requests and crashes between them.
  \<^item> \<open>OAuth\<close>, \<open>OAuthProps\<close> (\<open>server/src/oauth\<close>, \<open>require_auth\<close>): registration, consent, codes,
    tokens and the gate; the endpoints as a step relation with a log of what was approved.
  \<^item> \<open>InkChunk\<close>, \<open>InkWriter\<close>, \<open>InkSample\<close>, \<open>InkChunkProps\<close> (\<open>crates/ink-format/src/chunk.rs\<close>,
    \<open>codec.rs\<close>): the column chunks of drawings; what each field of an encoded chunk holds,
    a sample evaluated field by field, and that a chunk that encodes decodes to itself.

  Correspondence. The state of the program is the SQLite database; here it is the record \<open>db\<close>,
  with one sorted table per SQL table, keyed by its primary key. A statement of the code is one
  update of that record, with the code's \<open>WHERE\<close> and \<open>ON CONFLICT\<close> clauses as its conditions. A
  transaction is a function into \<open>core_error + db\<close>: on an error the caller keeps the old
  database. Columns hold typed values where the code parses them on the way out (clocks, styles,
  order keys). Integers are words where the code computes on them (the counter and wall time of
  the clock, order keys, server sequences, attachment sizes) and \<open>int\<close> for the seconds columns.
  The environment of a batch (wall clock, fresh identifiers, the fate of snapshot files) is the
  record \<open>env\<close>.

  Loops. The walk of the cycle breaker and the worklist of the component loader are \<open>function\<close>s
  with a termination proof, as is the replay of the log; the loops of the client and of the
  publication, which depend on what the other side answers, are \<open>partial_function\<close>s into \<open>option\<close>,
  and that they return is proved. One definition takes fuel: \<open>tree_levels\<close>, the recursive query
  that reads a page's tree before its deletion, is given the number of blocks plus one, and since
  placements form a forest a level below that number is empty.

  Error messages that the code builds with identifiers or numbers in them are shortened to their
  fixed part; no property depends on them.

  What is assumed. SHA-256, base64, URL parsing, the JSON of an import and the \<open>pco\<close> compressor are
  arguments of the definitions. Of SHA-256 only the inequality of the digests that a statement names
  is assumed, of \<open>pco\<close> and of an import's JSON that they are lossless.

  Not modelled: the change notifications (\<open>changes.rs\<close>, \<open>ApplyEffects.changes\<close>) and timing
  statistics, which do not influence the database; the JSON text of an envelope (\<open>serde_json\<close>);
  the SQL migrations beyond the schema they leave; search ranking inside SQLite; temporary files
  and syncing of the file system; the application shell (\<open>src-tauri\<close>) and the user interface; the
  assistant (\<open>notes-ai\<close>), whose embeddings and answers come from external services; the parsers of
  foreign notes (\<open>notes-import\<close>), which end in the modelled import; the ink editor and the CBOR
  records of \<open>ink-format\<close>, which do not touch this state.
\<close>

end
